(* ===== verification/Amux_Prelude.thy ===== *)
theory Amux_Prelude
  imports Main "HOL-Library.Word"
begin

text \<open>
  Shared vocabulary of the development: the Go integer types and Go's truncating
  division, slice surgery (insert, remove, swap by index), and the generic lemmas about
  sums of integer lists that the layout proofs use throughout.

  Go's \<^verbatim>\<open>int\<close> is modelled by the unbounded \<^typ>\<open>int\<close> (screen coordinates and sizes, far from
  the 64-bit limits; \<open>Split_Sizes\<close> proves that the one product the code computes stays in
  range); \<^verbatim>\<open>uint32\<close> and \<^verbatim>\<open>uint64\<close> keep their width.
\<close>

type_synonym uint32 = "32 word"
type_synonym uint64 = "64 word"

named_theorems sums "facts about sums and lengths of size lists"

section \<open>Go arithmetic\<close>

text \<open>Go's \<^verbatim>\<open>/\<close> and \<^verbatim>\<open>%\<close> truncate towards zero; HOL's \<open>div\<close> rounds down.\<close>

definition go_div :: "int \<Rightarrow> int \<Rightarrow> int" where
  "go_div a b = (if (a < 0) = (b < 0) then \<bar>a\<bar> div \<bar>b\<bar> else - (\<bar>a\<bar> div \<bar>b\<bar>))"

definition go_mod :: "int \<Rightarrow> int \<Rightarrow> int" where
  "go_mod a b = a - go_div a b * b"

lemma go_div_nonneg [simp]: "0 \<le> a \<Longrightarrow> 0 < b \<Longrightarrow> go_div a b = a div b"
  by (simp add: go_div_def)

lemma go_mod_nonneg [simp]: "0 \<le> a \<Longrightarrow> 0 < b \<Longrightarrow> go_mod a b = a mod b"
  by (simp add: go_mod_def minus_div_mult_eq_mod)

lemma go_div_0 [simp]: "go_div 0 b = 0"
  by (simp add: go_div_def)

lemma go_mod_bound: "0 < b \<Longrightarrow> \<bar>go_mod a b\<bar> < b"
proof -
  assume b: "0 < b"
  have "go_mod a b = (if a < 0 then - (\<bar>a\<bar> mod b) else a mod b)"
    using b by (auto simp: go_mod_def go_div_def minus_div_mult_eq_mod [symmetric])
  then show ?thesis
    using pos_mod_bound [OF b, of a] pos_mod_sign [OF b, of a]
      pos_mod_bound [OF b, of "\<bar>a\<bar>"] pos_mod_sign [OF b, of "\<bar>a\<bar>"] by auto
qed

section \<open>Slice surgery\<close>

definition insertAt :: "nat \<Rightarrow> 'a \<Rightarrow> 'a list \<Rightarrow> 'a list" where
  "insertAt i x xs = take i xs @ x # drop i xs"

definition removeAt :: "nat \<Rightarrow> 'a list \<Rightarrow> 'a list" where
  "removeAt i xs = take i xs @ drop (Suc i) xs"

definition swapAt :: "nat \<Rightarrow> nat \<Rightarrow> 'a list \<Rightarrow> 'a list" where
  "swapAt i j xs = xs[i := xs ! j, j := xs ! i]"

lemma set_insertAt [simp]: "set (insertAt i x xs) = insert x (set xs)"
proof -
  have "set xs = set (take i xs) \<union> set (drop i xs)"
    by (metis append_take_drop_id set_append)
  then show ?thesis by (auto simp: insertAt_def)
qed

lemma length_insertAt [simp]: "length (insertAt i x xs) = Suc (length xs)"
  by (simp add: insertAt_def)

lemma set_removeAt: "set (removeAt i xs) \<subseteq> set xs"
  by (auto simp: removeAt_def dest: in_set_takeD in_set_dropD)

lemma length_removeAt [simp]: "i < length xs \<Longrightarrow> length (removeAt i xs) = length xs - 1"
  by (simp add: removeAt_def)

lemma removeAt_split: "i < length xs \<Longrightarrow> xs = take i xs @ xs ! i # drop (Suc i) xs"
  by (simp add: id_take_nth_drop)

lemma length_swapAt [simp]: "length (swapAt i j xs) = length xs"
  by (simp add: swapAt_def)

section \<open>Sums of integer lists\<close>

lemma sum_list_split [sums]:
  "i < length xs \<Longrightarrow> sum_list (map f xs) = sum_list (map f (take i xs)) + f (xs ! i)
     + sum_list (map f (drop (Suc i) xs))" for f :: "'a \<Rightarrow> int"
  by (subst id_take_nth_drop [of i xs]) (simp_all del: take_Suc_conv_app_nth)

lemma sum_list_insertAt [sums]:
  "sum_list (map f (insertAt i x xs)) = f x + sum_list (map f xs)" for f :: "'a \<Rightarrow> int"
proof -
  have "sum_list (map f xs) = sum_list (map f (take i xs)) + sum_list (map f (drop i xs))"
    by (metis append_take_drop_id map_append sum_list_append)
  then show ?thesis by (simp add: insertAt_def)
qed

lemma sum_list_removeAt [sums]:
  "i < length xs \<Longrightarrow> sum_list (map f (removeAt i xs)) = sum_list (map f xs) - f (xs ! i)"
  for f :: "'a \<Rightarrow> int"
  by (simp add: removeAt_def sum_list_split [of i])

lemma sum_list_update_int [sums]:
  "i < length xs \<Longrightarrow> sum_list (map f (xs[i := y])) = sum_list (map f xs) - f (xs ! i) + f y"
  for f :: "'a \<Rightarrow> int"
  by (simp add: upd_conv_take_nth_drop sum_list_split [of i xs])

lemma sum_list_mono_int:
  "(\<And>x. x \<in> set xs \<Longrightarrow> f x \<le> g x) \<Longrightarrow> sum_list (map f xs) \<le> sum_list (map g xs)"
  for f g :: "'a \<Rightarrow> int"
  by (rule sum_list_mono)

lemma sum_list_const_le:
  "(\<And>x. x \<in> set xs \<Longrightarrow> k \<le> f x) \<Longrightarrow> k * int (length xs) \<le> sum_list (map f xs)"
  for f :: "'a \<Rightarrow> int"
  by (induction xs) (fastforce simp: algebra_simps)+

lemma sum_list_map2_snd [sums]:
  "length xs = length ys \<Longrightarrow> (\<And>x y. (x, y) \<in> set (zip xs ys) \<Longrightarrow> f x y = y) \<Longrightarrow>
     sum_list (map2 f xs ys) = sum_list ys" for ys :: "int list"
  by (induction xs ys rule: list_induct2) auto

lemma member_le_sum_list_int:
  "x \<in> set xs \<Longrightarrow> (\<And>y. y \<in> set xs \<Longrightarrow> 0 \<le> f y) \<Longrightarrow> f x \<le> sum_list (map f xs)" for f :: "'a \<Rightarrow> int"
proof (induction xs)
  case (Cons a xs)
  have "0 \<le> sum_list (map f xs)"
    using Cons.prems(2) by (intro sum_list_nonneg) auto
  with Cons show ?case by fastforce
qed simp

section \<open>Indexing\<close>

lemma zip_nthE:
  assumes "(x, y) \<in> set (zip xs ys)"
  obtains i where "i < length xs" "i < length ys" "x = xs ! i" "y = ys ! i"
  using assms by (auto simp: set_zip)

lemma map_fst_zip_eq [simp]: "length xs = length ys \<Longrightarrow> map (\<lambda>p. f (fst p)) (zip xs ys) = map f xs"
  by (induction xs ys rule: list_induct2) auto

end
