(* ===== verification/Split_Sizes.thy ===== *)
theory Split_Sizes
  imports Amux_Prelude "HOL-Library.Product_Lexorder" "HOL-Library.Multiset"
begin

text \<open>
  The arithmetic core of the layout engine (\<^verbatim>\<open>internal/mux/layout.go\<close>): how the cells of a
  row or column share a length. Each function is the Go function of the same name with the
  slice it fills returned; \<^verbatim>\<open>raiseSizesToMinimums\<close> mutates its first argument and returns a
  flag, so the model returns the pair.
\<close>

section \<open>Definitions\<close>

definition PaneMinSize :: int where
  "PaneMinSize = 2"

definition equalSplitSizes :: "int \<Rightarrow> int \<Rightarrow> int list" where
  "equalSplitSizes span cnt =
     (if cnt \<le> 0 then []
      else let seps = cnt - 1;
               each = go_div (span - seps) cnt;
               sizes = replicate (nat cnt) each
           in sizes[nat (cnt - 1) := span - seps - each * (cnt - 1)])"

definition frontLoadedSplitSizes :: "int \<Rightarrow> int \<Rightarrow> int list" where
  "frontLoadedSplitSizes span cnt =
     (if cnt \<le> 0 then []
      else let seps = cnt - 1;
               available = span - seps;
               each = go_div available cnt
           in map (\<lambda>i. if int i < available - each * cnt then each + 1 else each)
                [0..<nat cnt])"

text \<open>
  The second loop of \<^verbatim>\<open>raiseSizesToMinimums\<close>, over the indices from the last to the first
  (the argument list is reversed): every sz above its minimum gives back what it can.
\<close>

fun reclaimDeficit :: "int \<Rightarrow> (int \<times> int) list \<Rightarrow> int list \<times> int" where
  "reclaimDeficit deficit [] = ([], deficit)"
| "reclaimDeficit deficit ((sz, minimum) # rest) =
     (if deficit > 0 then
        (let available = sz - minimum in
         if available \<le> 0 then
           (let (out, left) = reclaimDeficit deficit rest in (sz # out, left))
         else
           (let available = (if available > deficit then deficit else available);
                (out, left) = reclaimDeficit (deficit - available) rest
            in ((sz - available) # out, left)))
      else (sz # map fst rest, deficit))"

definition raiseSizesToMinimums :: "int list \<Rightarrow> int list \<Rightarrow> int list \<times> bool" where
  "raiseSizesToMinimums sizes minimums =
     (let deficit = sum_list (map2 (\<lambda>s m. if s < m then m - s else 0) sizes minimums);
          raised = map2 (\<lambda>s m. if s < m then m else s) sizes minimums
      in if deficit = 0 then (raised, True)
         else let (out, left) = reclaimDeficit deficit (rev (zip raised minimums))
              in (rev out, left = 0))"

text \<open>
  \<^verbatim>\<open>proportionalChildSizes\<close> reads its children only through their length along the axis, so
  the model takes the list of those lengths. The remainder table is sorted by remainder and
  then by index, both descending.
\<close>

definition bump :: "int list \<Rightarrow> nat \<Rightarrow> int list" where
  "bump sizes i = sizes[i := sizes ! i + 1]"

definition remainderTable :: "int \<Rightarrow> int \<Rightarrow> int list \<Rightarrow> (nat \<times> int) list" where
  "remainderTable extra totalWeight weights =
     sort_key (\<lambda>(idx, remainder). (- remainder, - int idx))
       (map (\<lambda>(idx, weight). (idx, go_mod (extra * weight) totalWeight))
         (zip [0..<length weights] weights))"

definition proportionalChildSizes :: "int list \<Rightarrow> int \<Rightarrow> int list" where
  "proportionalChildSizes lengths target =
     (let n = int (length lengths) in
      if n = 0 then []
      else let
        available0 = target - (n - 1);
        minimumTotal = PaneMinSize * n;
        available = (if available0 < minimumTotal then minimumTotal else available0);
        extra = available - minimumTotal
      in if extra = 0 then replicate (length lengths) PaneMinSize
      else let
        weights = map (\<lambda>len. if len - PaneMinSize < 0 then 0 else len - PaneMinSize) lengths;
        totalWeight = sum_list weights
      in if totalWeight = 0 then
        (let base = go_div extra n; leftover = go_mod extra n
         in map (\<lambda>i. if int i \<ge> n - leftover then PaneMinSize + base + 1 else PaneMinSize + base)
              [0..<length lengths])
      else let
        shares = map (\<lambda>weight. go_div (extra * weight) totalWeight) weights;
        leftover = extra - sum_list shares;
        sizes = map (\<lambda>share. PaneMinSize + share) shares
      in foldl bump sizes
           (map fst (take (nat leftover) (remainderTable extra totalWeight weights))))"

text \<open>\<^verbatim>\<open>proportionalSubtreeChildSizes\<close> over the children's lengths and subtree minimums.\<close>

definition proportionalSubtreeSizes :: "int list \<Rightarrow> int list \<Rightarrow> int \<Rightarrow> int list" where
  "proportionalSubtreeSizes lengths minimums target =
     (let n = int (length lengths) in
      if n = 0 then []
      else let
        minimumTotal = sum_list minimums;
        target = (if target < minimumTotal then minimumTotal else target);
        sizes = proportionalChildSizes lengths (target + n - 1)
      in fst (raiseSizesToMinimums sizes minimums))"

text \<open>\<^verbatim>\<open>equalSubtreeSplitSizes\<close> and \<^verbatim>\<open>frontLoadedSubtreeSplitSizes\<close> over the subtree minimums.\<close>

definition equalMinSizes :: "int list \<Rightarrow> int \<Rightarrow> int list option" where
  "equalMinSizes minimums span =
     (let sizes = equalSplitSizes span (int (length minimums)) in
      if sizes = [] then None
      else let (raised, ok) = raiseSizesToMinimums sizes minimums
           in if ok then Some raised else None)"

definition frontLoadedMinSizes :: "int list \<Rightarrow> int \<Rightarrow> int list option" where
  "frontLoadedMinSizes minimums span =
     (let sizes = frontLoadedSplitSizes span (int (length minimums)) in
      if sizes = [] then None
      else let (raised, ok) = raiseSizesToMinimums sizes minimums
           in if ok then Some raised else None)"

section \<open>Equal splits\<close>

lemma length_equalSplitSizes [simp]: "length (equalSplitSizes span cnt) = nat cnt"
  by (simp add: equalSplitSizes_def Let_def)

lemma sum_equalSplitSizes:
  assumes "0 < cnt"
  shows "sum_list (equalSplitSizes span cnt) = span - (cnt - 1)"
proof -
  define each where "each = go_div (span - (cnt - 1)) cnt"
  have "sum_list ((replicate (nat cnt) each)[nat (cnt - 1) := v]) =
      each * cnt - each + v" for v
    using assms sum_list_update_int [of "nat (cnt - 1)" "replicate (nat cnt) each" "\<lambda>x. x" v]
    by (simp add: sum_list_replicate)
  moreover have "equalSplitSizes span cnt = (replicate (nat cnt) each)
      [nat (cnt - 1) := span - (cnt - 1) - each * (cnt - 1)]"
    using assms by (simp add: equalSplitSizes_def Let_def each_def)
  ultimately have "sum_list (equalSplitSizes span cnt) =
      each * cnt - each + (span - (cnt - 1) - each * (cnt - 1))"
    by simp
  then show ?thesis by (simp add: algebra_simps)
qed

lemma length_frontLoadedSplitSizes [simp]: "length (frontLoadedSplitSizes span cnt) = nat cnt"
  by (simp add: frontLoadedSplitSizes_def Let_def)

lemma sum_front_indicator:
  "sum_list (map (\<lambda>i. if int i < k then e + 1 else e) [0..<n]) = e * int n + max 0 (min k (int n))"
  by (induction n) (auto simp: algebra_simps)

lemma sum_frontLoadedSplitSizes:
  assumes "0 < cnt" "cnt - 1 \<le> span"
  shows "sum_list (frontLoadedSplitSizes span cnt) = span - (cnt - 1)"
proof -
  define a where "a = span - (cnt - 1)"
  have a: "0 \<le> a" using assms by (simp add: a_def)
  have m: "a - a div cnt * cnt = a mod cnt"
    by (simp add: minus_div_mult_eq_mod)
  have "frontLoadedSplitSizes span cnt =
      map (\<lambda>i. if int i < a mod cnt then a div cnt + 1 else a div cnt) [0..<nat cnt]"
    using assms a by (simp add: frontLoadedSplitSizes_def Let_def a_def [symmetric] m)
  then have "sum_list (frontLoadedSplitSizes span cnt) = a div cnt * cnt + a mod cnt"
    using assms by (simp add: sum_front_indicator)
  then show ?thesis by (simp add: a_def)
qed

section \<open>Raising sizes to their minimums\<close>

lemma reclaimDeficit_spec:
  assumes "0 \<le> deficit" "\<forall>(s, m) \<in> set xs. m \<le> s"
  shows "list_all2 (\<lambda>v (s, m). m \<le> v \<and> v \<le> s) (fst (reclaimDeficit deficit xs)) xs
       \<and> sum_list (fst (reclaimDeficit deficit xs)) =
           sum_list (map fst xs) - (deficit - snd (reclaimDeficit deficit xs))
       \<and> snd (reclaimDeficit deficit xs) = max 0 (deficit - sum_list (map (\<lambda>(s, m). s - m) xs))"
  using assms
proof (induction deficit xs rule: reclaimDeficit.induct)
  case (2 deficit s m rest)
  have nonneg: "0 \<le> sum_list (map (\<lambda>(s, m). s - m) rest)"
    using "2.prems" by (intro sum_list_nonneg) auto
  have keep: "list_all2 (\<lambda>v (s, m). m \<le> v \<and> v \<le> s) (map fst rest) rest"
    using "2.prems"(2) by (fastforce simp: list_all2_conv_all_nth dest: nth_mem)
  consider "deficit = 0" | "deficit > 0" "s - m \<le> 0" | "deficit > 0" "s - m > 0"
    using "2.prems" by linarith
  then show ?case
  proof cases
    case 1
    with keep nonneg "2.prems" show ?thesis by auto
  next
    case 2
    with "2.IH"(1) [of "s - m"] "2.prems" show ?thesis
      by (auto simp: split_beta)
  next
    case 3
    define av where "av = (if s - m > deficit then deficit else s - m)"
    obtain out left where rec: "reclaimDeficit (deficit - av) rest = (out, left)"
      by fastforce
    have "reclaimDeficit deficit ((s, m) # rest) = ((s - av) # out, left)"
      using 3 rec by (simp add: Let_def av_def)
    moreover have "0 \<le> deficit - av" "0 \<le> av" "av \<le> s - m" "av = s - m \<or> av = deficit"
      using 3 by (simp_all add: av_def)
    ultimately show ?thesis
      using "2.IH"(2) [of "s - m" av] "2.prems" 3 rec nonneg by (auto simp: av_def)
  qed
qed simp

lemma sum_raised:
  "length sizes = length minimums \<Longrightarrow>
     sum_list (map2 (\<lambda>s m. if s < m then m else s) sizes minimums) =
     sum_list sizes + sum_list (map2 (\<lambda>s m. if s < m then m - s else 0) sizes minimums)"
  for sizes :: "int list"
  by (induction sizes minimums rule: list_induct2) auto

lemma sum_diff_zip:
  "length xs = length ys \<Longrightarrow>
     sum_list (map (\<lambda>(x, y). x - y) (zip xs ys)) = sum_list xs - sum_list ys"
  for xs :: "int list"
  by (induction xs ys rule: list_induct2) auto

lemma deficit_zero:
  "length sizes = length minimums \<Longrightarrow>
     sum_list (map2 (\<lambda>s m. if s < m then m - s else 0) sizes minimums) = 0 \<longleftrightarrow>
     list_all2 (\<le>) minimums sizes"
  for sizes :: "int list"
proof (induction sizes minimums rule: list_induct2)
  case (Cons s sizes m minimums)
  have "0 \<le> sum_list (map2 (\<lambda>s m. if s < m then m - s else 0) sizes minimums)"
    by (intro sum_list_nonneg) auto
  with Cons show ?case by auto
qed simp

lemma raiseSizesToMinimums_props:
  assumes len: "length sizes = length minimums"
  shows "list_all2 (\<le>) minimums (fst (raiseSizesToMinimums sizes minimums))"
    and "snd (raiseSizesToMinimums sizes minimums) \<longleftrightarrow> sum_list minimums \<le> sum_list sizes"
    and "sum_list (fst (raiseSizesToMinimums sizes minimums)) =
           max (sum_list minimums) (sum_list sizes)"
proof -
  define deficit where
    "deficit = sum_list (map2 (\<lambda>s m. if s < m then m - s else 0) sizes minimums)"
  define raised where "raised = map2 (\<lambda>s m. if s < m then m else s) sizes minimums"
  define rc where "rc = reclaimDeficit deficit (rev (zip raised minimums))"
  have lr: "length raised = length minimums" using len by (simp add: raised_def)
  have d0: "0 \<le> deficit" unfolding deficit_def by (intro sum_list_nonneg) auto
  have rm: "list_all2 (\<le>) minimums raised"
    using len by (auto simp: raised_def list_all2_conv_all_nth)
  have sr: "sum_list raised = sum_list sizes + deficit"
    using len by (simp add: raised_def deficit_def sum_raised)
  have "\<forall>(s, m) \<in> set (rev (zip raised minimums)). m \<le> s"
    using rm by (auto simp: list_all2_conv_all_nth elim: zip_nthE)
  from reclaimDeficit_spec [OF d0 this, folded rc_def]
  have rc: "list_all2 (\<lambda>v (s, m). m \<le> v \<and> v \<le> s) (fst rc) (rev (zip raised minimums))"
      "sum_list (fst rc) = sum_list raised - (deficit - snd rc)"
      "snd rc = max 0 (deficit - (sum_list raised - sum_list minimums))"
    using lr by (simp_all only: rev_map [symmetric] sum_list_rev sum_diff_zip map_fst_zip)
  have eq: "raiseSizesToMinimums sizes minimums =
      (if deficit = 0 then (raised, True) else (rev (fst rc), snd rc = 0))"
    by (simp add: raiseSizesToMinimums_def Let_def deficit_def [symmetric] raised_def [symmetric]
        rc_def [symmetric] split_beta)
  have "list_all2 (\<lambda>v (s, m). m \<le> v \<and> v \<le> s) (rev (fst rc)) (zip raised minimums)"
    using rc(1) list_all2_rev [of _ "rev (fst rc)" "zip raised minimums"] by simp
  then have "list_all2 (\<le>) minimums (rev (fst rc))"
    using lr by (auto simp: list_all2_conv_all_nth split_beta)
  with rm show "list_all2 (\<le>) minimums (fst (raiseSizesToMinimums sizes minimums))"
    by (simp add: eq)
  have mono: "deficit = 0 \<Longrightarrow> sum_list minimums \<le> sum_list sizes"
    using rm sr by (metis add.right_neutral list_all2_conv_all_nth sum_list_mono2)
  then show "snd (raiseSizesToMinimums sizes minimums) \<longleftrightarrow> sum_list minimums \<le> sum_list sizes"
    using rc(3) sr by (auto simp: eq)
  show "sum_list (fst (raiseSizesToMinimums sizes minimums)) =
      max (sum_list minimums) (sum_list sizes)"
    using mono rc(2,3) sr by (auto simp: eq)
qed

lemma raiseSizesToMinimums_id:
  "list_all2 (\<le>) minimums sizes \<Longrightarrow> raiseSizesToMinimums sizes minimums = (sizes, True)"
proof -
  assume le: "list_all2 (\<le>) minimums sizes"
  then have len: "length sizes = length minimums" by (simp add: list_all2_lengthD)
  have "map2 (\<lambda>s m. if s < m then m else s) sizes minimums = sizes"
    using le len by (auto simp: list_all2_conv_all_nth intro!: nth_equalityI)
  with le deficit_zero [OF len] show ?thesis
    by (simp add: raiseSizesToMinimums_def Let_def)
qed

lemmas raise_ge = raiseSizesToMinimums_props(1)
lemmas raise_ok = raiseSizesToMinimums_props(2)
lemmas raise_sum = raiseSizesToMinimums_props(3)

lemma raise_length [simp]:
  "length sizes = length minimums \<Longrightarrow>
     length (fst (raiseSizesToMinimums sizes minimums)) = length minimums"
  using raise_ge [of sizes minimums] by (simp add: list_all2_lengthD)

section \<open>Proportional splits\<close>

lemma length_foldl_bump [simp]: "length (foldl bump sizes idxs) = length sizes"
  by (induction idxs arbitrary: sizes) (auto simp: bump_def)

lemma nth_foldl_bump:
  "distinct idxs \<Longrightarrow> i < length sizes \<Longrightarrow>
     foldl bump sizes idxs ! i = sizes ! i + (if i \<in> set idxs then 1 else 0)"
proof (induction idxs arbitrary: sizes)
  case (Cons a idxs)
  then show ?case
    by (cases "i = a") (simp_all add: bump_def)
qed simp

lemma sum_foldl_bump:
  "\<forall>i \<in> set idxs. i < length sizes \<Longrightarrow>
     sum_list (foldl bump sizes idxs) = sum_list sizes + int (length idxs)"
proof (induction idxs arbitrary: sizes)
  case (Cons i idxs)
  have "sum_list (bump sizes i) = sum_list sizes + 1"
    using Cons.prems sum_list_update_int [of i sizes "\<lambda>x. x"] by (simp add: bump_def)
  with Cons show ?case by (simp add: bump_def)
qed simp

lemma remainderTable_props:
  "length (remainderTable extra tw ws) = length ws"
  "distinct (map fst (remainderTable extra tw ws))"
  "\<forall>i \<in> set (map fst (remainderTable extra tw ws)). i < length ws"
proof -
  let ?xs = "map (\<lambda>(idx, weight). (idx, go_mod (extra * weight) tw)) (zip [0..<length ws] ws)"
  have fst: "map fst ?xs = [0..<length ws]"
    by (rule nth_equalityI) auto
  have "mset (remainderTable extra tw ws) = mset ?xs"
    unfolding remainderTable_def by (rule mset_sort)
  then have ms: "mset (map fst (remainderTable extra tw ws)) = mset [0..<length ws]"
    by (metis fst mset_map)
  then show "distinct (map fst (remainderTable extra tw ws))"
    using mset_eq_imp_distinct_iff by fastforce
  have "set (map fst (remainderTable extra tw ws)) = {0..<length ws}"
    using mset_eq_setD [OF ms] by simp
  then show "\<forall>i \<in> set (map fst (remainderTable extra tw ws)). i < length ws" by auto
  show "length (remainderTable extra tw ws) = length ws"
    by (simp add: remainderTable_def)
qed

text \<open>
  The rounding argument: what the floors leave over is at least zero and less than the
  number of shares, so the loop that hands it out never runs past the remainder table.
\<close>

lemma leftover_bounds:
  assumes "0 \<le> extra" "\<forall>w \<in> set ws. 0 \<le> w" "sum_list ws = tw" "0 < tw"
  defines "leftover \<equiv> extra - sum_list (map (\<lambda>w. (extra * w) div tw) ws)"
  shows "0 \<le> leftover" "leftover < int (length ws)"
proof -
  have eq: "sum_list (map (\<lambda>w. (extra * w) div tw) ws) * tw +
      sum_list (map (\<lambda>w. (extra * w) mod tw) ws) = extra * sum_list ws" for ws
    by (induction ws) (simp_all add: algebra_simps)
  have lt: "leftover * tw = sum_list (map (\<lambda>w. (extra * w) mod tw) ws)"
    using eq [of ws] assms(3) by (simp add: leftover_def algebra_simps)
  have "0 \<le> sum_list (map (\<lambda>w. (extra * w) mod tw) ws)"
    using assms by (intro sum_list_nonneg) auto
  with lt \<open>0 < tw\<close> show "0 \<le> leftover"
    by (metis mult_less_0_iff not_less order_less_asym)
  have ne: "ws \<noteq> []" using assms(3,4) by auto
  have "sum_list (map (\<lambda>w. (extra * w) mod tw) ws) < tw * int (length ws)"
    using ne
  proof (induction ws rule: list_nonempty_induct)
    case (cons w ws)
    moreover have "(extra * w) mod tw < tw" using \<open>0 < tw\<close> by simp
    ultimately show ?case by (simp add: algebra_simps)
  qed (use \<open>0 < tw\<close> in simp)
  with lt \<open>0 < tw\<close> show "leftover < int (length ws)"
    by (metis mult.commute mult_less_cancel_left_pos)
qed

lemma remainderTable_rem:
  assumes "0 \<le> extra" "\<forall>w \<in> set ws. 0 \<le> w" "0 < tw" "(i, r) \<in> set (remainderTable extra tw ws)"
  shows "r = extra * ws ! i mod tw"
  using assms by (auto simp: remainderTable_def set_zip zero_le_mult_iff)

lemma sum_remainderTable:
  assumes "0 \<le> extra" "\<forall>w \<in> set ws. 0 \<le> w" "0 < tw"
  shows "sum_list (map snd (remainderTable extra tw ws)) = sum_list (map (\<lambda>w. (extra * w) mod tw) ws)"
proof -
  let ?xs = "map (\<lambda>(idx, weight). (idx, go_mod (extra * weight) tw)) (zip [0..<length ws] ws)"
  have "mset (remainderTable extra tw ws) = mset ?xs"
    unfolding remainderTable_def by (rule mset_sort)
  then have "mset (map snd (remainderTable extra tw ws)) = mset (map snd ?xs)"
    by (simp only: mset_map)
  then have "sum_list (map snd (remainderTable extra tw ws)) = sum_list (map snd ?xs)"
    by (metis sum_mset_sum_list)
  moreover have "map snd ?xs = map (\<lambda>w. (extra * w) mod tw) ws"
    using assms by (auto simp: zero_le_mult_iff intro!: nth_equalityI)
  ultimately show ?thesis by simp
qed

lemma sorted_remainders:
  assumes "j < k" "k < length (remainderTable extra tw ws)"
  shows "snd (remainderTable extra tw ws ! k) \<le> snd (remainderTable extra tw ws ! j)"
proof -
  have "sorted (map (\<lambda>(idx, remainder). (- remainder, - int idx)) (remainderTable extra tw ws))"
    unfolding remainderTable_def by (rule sorted_sort_key)
  with assms show ?thesis
    by (force simp: sorted_wrt_iff_nth_less less_eq_prod_def split_beta)
qed

text \<open>Only a child that lost something to rounding receives one of the left-over cells.\<close>

lemma leftover_to_rounded:
  assumes "0 \<le> extra" "\<forall>w \<in> set ws. 0 \<le> w" "sum_list ws = tw" "0 < tw"
  defines "leftover \<equiv> extra - sum_list (map (\<lambda>w. (extra * w) div tw) ws)"
  assumes "i \<in> set (map fst (take (nat leftover) (remainderTable extra tw ws)))"
  shows "0 < extra * ws ! i mod tw"
proof (rule ccontr)
  let ?T = "remainderTable extra tw ws"
  assume neg: "\<not> 0 < extra * ws ! i mod tw"
  from assms(6) obtain j where j: "j < nat leftover" "j < length ?T" "i = fst (?T ! j)"
    by (auto simp: in_set_conv_nth)
  have rem: "k < length ?T \<Longrightarrow> snd (?T ! k) = extra * ws ! fst (?T ! k) mod tw" for k
    using remainderTable_rem [OF assms(1,2,4)] by (metis nth_mem prod.collapse)
  have le0: "snd (?T ! k) \<le> 0" if "j \<le> k" "k < length ?T" for k
    using sorted_remainders [of j k extra tw ws] that rem [OF j(2)] j(3) neg by (cases "j = k") auto
  have "sum_list (map snd (drop j ?T)) \<le> 0"
  proof (rule sum_list_nonpos)
    fix x assume "x \<in> set (map snd (drop j ?T))"
    then obtain k where "k < length ?T - j" "x = snd (?T ! (j + k))"
      by (auto simp: in_set_conv_nth)
    then show "x \<le> 0" using le0 [of "j + k"] by simp
  qed
  moreover have "sum_list (map snd (take j ?T)) \<le> sum_list (map (\<lambda>_. tw) (take j ?T))"
    using remainderTable_rem [OF assms(1,2,4)] \<open>0 < tw\<close>
    by (intro sum_list_mono) (fastforce dest!: in_set_takeD intro: less_imp_le)
  moreover have "sum_list (map snd ?T) = sum_list (map snd (take j ?T)) + sum_list (map snd (drop j ?T))"
    by (metis append_take_drop_id map_append sum_list_append)
  ultimately have "sum_list (map snd ?T) \<le> tw * int j"
    using j(2) by (simp add: sum_list_triv algebra_simps)
  moreover have "sum_list (map (\<lambda>w. (extra * w) div tw) ws) * tw +
      sum_list (map (\<lambda>w. (extra * w) mod tw) ws) = extra * sum_list ws" for ws
    by (induction ws) (simp_all add: algebra_simps)
  then have "leftover * tw = sum_list (map (\<lambda>w. (extra * w) mod tw) ws)"
    using assms(3) by (simp add: leftover_def algebra_simps)
  ultimately have "leftover * tw \<le> int j * tw"
    by (simp add: sum_remainderTable [OF assms(1,2,4)] mult.commute)
  with \<open>0 < tw\<close> j(1) show False by simp
qed

lemma sum_tail_indicator:
  "0 \<le> k \<Longrightarrow> k \<le> int n \<Longrightarrow>
     sum_list (map (\<lambda>i. if int i \<ge> int n - k then e + 1 else e) [0..<n]) = e * int n + k"
proof -
  assume k: "0 \<le> k" "k \<le> int n"
  have "sum_list (map (\<lambda>i. if int i \<ge> m then e + 1 else e) [0..<n]) =
      e * int n + (int n - max 0 (min m (int n)))" for m
    by (induction n) (auto simp: algebra_simps)
  from this [of "int n - k"] k show ?thesis by simp
qed

lemma length_proportionalChildSizes [simp]:
  "length (proportionalChildSizes lengths target) = length lengths"
  by (simp add: proportionalChildSizes_def Let_def)

definition childWeights :: "int list \<Rightarrow> int list" where
  "childWeights lengths =
     map (\<lambda>len. if len - PaneMinSize < 0 then 0 else len - PaneMinSize) lengths"

lemma length_childWeights [simp]: "length (childWeights lengths) = length lengths"
  by (simp add: childWeights_def)

lemma childWeights_nonneg: "\<forall>w \<in> set (childWeights lengths). 0 \<le> w"
  by (auto simp: childWeights_def)

definition extraSpace :: "int list \<Rightarrow> int \<Rightarrow> int" where
  "extraSpace lengths target = max 0 (target - (int (length lengths) - 1) - PaneMinSize * int (length lengths))"

lemma proportionalChildSizes_eq:
  assumes "lengths \<noteq> []"
  shows "proportionalChildSizes lengths target =
    (let n = int (length lengths); extra = extraSpace lengths target;
         ws = childWeights lengths; tw = sum_list ws;
         shares = map (\<lambda>w. go_div (extra * w) tw) ws
     in if extra = 0 then replicate (length lengths) PaneMinSize
        else if tw = 0 then
          map (\<lambda>i. if int i \<ge> n - go_mod extra n then PaneMinSize + go_div extra n + 1
                   else PaneMinSize + go_div extra n) [0..<length lengths]
        else foldl bump (map (\<lambda>share. PaneMinSize + share) shares)
               (map fst (take (nat (extra - sum_list shares)) (remainderTable extra tw ws))))"
proof -
  have "(if x < y then y else x) - y = max 0 (x - y)" for x y :: int
    by simp
  then show ?thesis
    using assms by (simp only: proportionalChildSizes_def Let_def childWeights_def extraSpace_def
        if_False of_nat_eq_0_iff length_0_conv)
qed

text \<open>The three branches of \<^const>\<open>proportionalChildSizes\<close>, each with its own result.\<close>

lemma proportionalChildSizes_cases:
  fixes lengths :: "int list" and target :: int
  assumes ne: "lengths \<noteq> []"
  defines "n \<equiv> int (length lengths)"
  defines "extra \<equiv> extraSpace lengths target"
  defines "ws \<equiv> childWeights lengths"
  defines "tw \<equiv> sum_list ws"
  obtains (minimum) "extra = 0"
      "proportionalChildSizes lengths target = replicate (length lengths) PaneMinSize"
  | (even) "extra > 0" "tw = 0"
      "proportionalChildSizes lengths target =
         map (\<lambda>i. if int i \<ge> n - extra mod n then PaneMinSize + extra div n + 1
                  else PaneMinSize + extra div n) [0..<length lengths]"
  | (weighted) idxs where "extra > 0" "tw > 0" "distinct idxs" "\<forall>i \<in> set idxs. i < length lengths"
      "int (length idxs) = extra - sum_list (map (\<lambda>w. extra * w div tw) ws)"
      "\<forall>i \<in> set idxs. 0 < extra * ws ! i mod tw"
      "proportionalChildSizes lengths target =
         foldl bump (map (\<lambda>w. PaneMinSize + extra * w div tw) ws) idxs"
proof -
  have n: "n > 0" using ne by (simp add: n_def)
  have w0: "\<forall>w \<in> set ws. 0 \<le> w" by (simp add: ws_def childWeights_nonneg)
  have tw0: "0 \<le> tw" using w0 by (simp add: tw_def sum_list_nonneg)
  have ex0: "0 \<le> extra" by (simp add: extra_def extraSpace_def)
  note eq = proportionalChildSizes_eq [OF ne, of target, unfolded Let_def, folded n_def extra_def,
      folded ws_def, folded tw_def]
  consider "extra = 0" | "extra > 0" "tw = 0" | "extra > 0" "tw > 0"
    using ex0 tw0 by linarith
  then show thesis
  proof cases
    case 1
    then show ?thesis by (intro minimum) (simp_all add: eq)
  next
    case 2
    then show ?thesis using n by (intro even) (simp_all add: eq)
  next
    case 3
    let ?sh = "map (\<lambda>w. extra * w div tw) ws"
    let ?idxs = "map fst (take (nat (extra - sum_list ?sh)) (remainderTable extra tw ws))"
    have sh: "map (\<lambda>w. go_div (extra * w) tw) ws = ?sh"
      using w0 3 by (simp add: zero_le_mult_iff)
    have lo: "0 \<le> extra - sum_list ?sh" "extra - sum_list ?sh < int (length ws)"
      using leftover_bounds [OF ex0 w0, of tw] 3 by (simp_all add: tw_def)
    have "proportionalChildSizes lengths target =
        foldl bump (map (\<lambda>w. PaneMinSize + extra * w div tw) ws) ?idxs"
      using 3 by (simp add: eq sh o_def)
    moreover have "length ws = length lengths" by (simp add: ws_def)
    moreover have "distinct ?idxs" "\<forall>i \<in> set ?idxs. i < length ws"
      using remainderTable_props(2,3) [of extra tw ws]
      by (fastforce simp: take_map [symmetric] dest: in_set_takeD)+
    moreover have "int (length ?idxs) = extra - sum_list ?sh"
      using lo by (simp add: remainderTable_props(1))
    moreover have "\<forall>i \<in> set ?idxs. 0 < extra * ws ! i mod tw"
      using leftover_to_rounded [OF ex0 w0, of tw] 3 by (simp add: tw_def)
    ultimately show ?thesis
      using 3 by (intro weighted) simp_all
  qed
qed

lemma sum_list_add_const: "sum_list (map (\<lambda>x. k + f x) xs) = k * int (length xs) + sum_list (map f xs)"
  for k :: int
  by (induction xs) (simp_all add: algebra_simps)

lemma sum_proportionalChildSizes:
  assumes "lengths \<noteq> []"
  shows "sum_list (proportionalChildSizes lengths target) =
      PaneMinSize * int (length lengths) + extraSpace lengths target"
proof -
  have n: "int (length lengths) > 0" using assms by simp
  show ?thesis
    using assms
  proof (cases rule: proportionalChildSizes_cases [of lengths target])
    case minimum
    then show ?thesis by (simp add: sum_list_replicate)
  next
    case even
    show ?thesis
      unfolding even(3)
      using n by (subst sum_tail_indicator) (simp_all add: less_imp_le distrib_right)
  next
    case (weighted idxs)
    then show ?thesis
      by (simp add: sum_foldl_bump sum_list_add_const)
  qed
qed

lemma proportionalChildSizes_ge:
  assumes "v \<in> set (proportionalChildSizes lengths target)"
  shows "PaneMinSize \<le> v"
proof -
  have ne: "lengths \<noteq> []" using assms by (auto simp: proportionalChildSizes_def)
  then show ?thesis
  proof (cases rule: proportionalChildSizes_cases [of lengths target])
    case minimum
    with assms show ?thesis by simp
  next
    case even
    with assms ne show ?thesis by (auto split: if_splits simp: pos_imp_zdiv_nonneg_iff)
  next
    case (weighted idxs)
    note w0 = childWeights_nonneg [of lengths]
    obtain i where "i < length lengths" "v = proportionalChildSizes lengths target ! i"
      using assms by (auto simp: in_set_conv_nth)
    with weighted w0 show ?thesis
      by (simp add: nth_foldl_bump pos_imp_zdiv_nonneg_iff)
  qed
qed

text \<open>
  Largest-remainder fairness: a weighted share differs from its exact quota
  \<open>extra * weight / totalWeight\<close> by less than one cell.
\<close>

lemma proportionalChildSizes_quota:
  fixes target :: int
  assumes i: "i < length lengths" and pos: "sum_list (childWeights lengths) > 0"
  defines "tw \<equiv> sum_list (childWeights lengths)"
  defines "q \<equiv> extraSpace lengths target * childWeights lengths ! i"
  shows "\<bar>(proportionalChildSizes lengths target ! i - PaneMinSize) * tw - q\<bar> < tw"
proof -
  have ne: "lengths \<noteq> []" using i by auto
  have tw: "tw > 0" using pos by (simp add: tw_def)
  have dm: "q div tw * tw = q - q mod tw" by (simp add: minus_mod_eq_div_mult)
  have m: "0 \<le> q mod tw" "q mod tw < tw" using tw by simp_all
  obtain k where k: "k = 0 \<or> k = 1 \<and> 0 < q mod tw"
      "proportionalChildSizes lengths target ! i - PaneMinSize = q div tw + k"
    using ne
  proof (cases rule: proportionalChildSizes_cases [of lengths target])
    case minimum
    with i that [of 0] show ?thesis by (simp add: q_def)
  next
    case even
    with tw show ?thesis by (simp add: tw_def)
  next
    case (weighted idxs)
    with i that [of "if i \<in> set idxs then 1 else 0"] show ?thesis
      by (auto simp: nth_foldl_bump q_def tw_def)
  qed
  have "(proportionalChildSizes lengths target ! i - PaneMinSize) * tw - q = k * tw - q mod tw"
    using dm by (simp add: k(2) distrib_right)
  moreover obtain r where "r = q mod tw" "0 \<le> r" "r < tw" using m by simp
  ultimately show ?thesis using k(1) by (auto simp: abs_if)
qed

text \<open>Sharing out exactly the length the cells already have changes nothing.\<close>

lemma proportionalChildSizes_same:
  assumes "lengths \<noteq> []" "\<forall>len \<in> set lengths. PaneMinSize \<le> len"
  shows "proportionalChildSizes lengths (sum_list lengths + int (length lengths) - 1) = lengths"
proof -
  let ?t = "sum_list lengths + int (length lengths) - 1"
  have ws: "childWeights lengths = map (\<lambda>len. len - PaneMinSize) lengths"
    using assms(2) by (auto simp: childWeights_def)
  have tw: "sum_list (childWeights lengths) = sum_list lengths - PaneMinSize * int (length lengths)"
    by (simp add: ws sum_list_subtractf sum_list_triv)
  have "0 \<le> sum_list (childWeights lengths)"
    by (rule sum_list_nonneg) (use childWeights_nonneg in auto)
  then have ex: "extraSpace lengths ?t = sum_list (childWeights lengths)"
    by (simp add: extraSpace_def tw)
  show ?thesis
    using assms(1)
  proof (cases rule: proportionalChildSizes_cases [of lengths ?t])
    case minimum
    then have "\<forall>w \<in> set (childWeights lengths). w = 0"
      using childWeights_nonneg by (simp add: ex sum_list_nonneg_eq_0_iff)
    then have "\<forall>len \<in> set lengths. len = PaneMinSize" by (simp add: ws)
    then show ?thesis unfolding minimum(2) by (metis replicate_length_same)
  next
    case even
    then show ?thesis by (simp add: ex)
  next
    case (weighted idxs)
    then have div: "map (\<lambda>w. extraSpace lengths ?t * w div sum_list (childWeights lengths))
        (childWeights lengths) = childWeights lengths"
      by (simp add: ex map_idI)
    then have "idxs = []" using weighted(5) by (simp add: ex)
    moreover have "map (\<lambda>w. PaneMinSize + w) (childWeights lengths) = lengths"
      by (simp add: ws o_def)
    ultimately show ?thesis
      using weighted(2,7) by (simp add: ex o_def)
  qed
qed

section \<open>Splits that respect subtree minimums\<close>

definition minimums_ok :: "int list \<Rightarrow> bool" where
  "minimums_ok minimums \<longleftrightarrow> minimums \<noteq> [] \<and> (\<forall>m \<in> set minimums. PaneMinSize \<le> m)"

text \<open>
  What the layout code relies on when it asks for the sizes of siblings: an allocator answers
  exactly when the minimums and the separators fit, and its answer fills the span and respects
  every minimum. Both allocators of the code keep this contract; the tree lemmas are proved
  once from it (theory \<open>Layout_Tree\<close>).
\<close>

locale size_allocator =
  fixes alloc :: "int list \<Rightarrow> int \<Rightarrow> int list option"
  assumes alloc_iff: "minimums_ok minimums \<Longrightarrow> int (length minimums) - 1 \<le> span \<Longrightarrow>
      alloc minimums span \<noteq> None \<longleftrightarrow> sum_list minimums + (int (length minimums) - 1) \<le> span"
    and alloc_length: "minimums_ok minimums \<Longrightarrow> int (length minimums) - 1 \<le> span \<Longrightarrow>
      alloc minimums span = Some sizes \<Longrightarrow> length sizes = length minimums"
    and alloc_minimums: "minimums_ok minimums \<Longrightarrow> int (length minimums) - 1 \<le> span \<Longrightarrow>
      alloc minimums span = Some sizes \<Longrightarrow> list_all2 (\<le>) minimums sizes"
    and alloc_sum: "minimums_ok minimums \<Longrightarrow> int (length minimums) - 1 \<le> span \<Longrightarrow>
      alloc minimums span = Some sizes \<Longrightarrow> sum_list sizes = span - (int (length minimums) - 1)"
begin

lemma alloc_fits:
  assumes "minimums_ok minimums" "sum_list minimums + (int (length minimums) - 1) \<le> span"
  obtains sizes where "alloc minimums span = Some sizes" "length sizes = length minimums"
    "list_all2 (\<le>) minimums sizes" "sum_list sizes = span - (int (length minimums) - 1)"
proof -
  have "0 \<le> sum_list minimums"
    using assms(1) by (intro sum_list_nonneg) (auto simp: minimums_ok_def PaneMinSize_def)
  then have span: "int (length minimums) - 1 \<le> span" using assms(2) by simp
  with assms obtain sizes where "alloc minimums span = Some sizes"
    using alloc_iff by blast
  with span assms(1) show thesis
    using alloc_length alloc_minimums alloc_sum by (intro that)
qed

end

text \<open>Any split that gives the whole span, raised to the minimums, is such an allocator.\<close>

lemma raised_split_allocator:
  fixes split :: "int \<Rightarrow> int \<Rightarrow> int list"
  assumes len: "\<And>span n. length (split span n) = nat n"
    and sum: "\<And>span n. 0 < n \<Longrightarrow> n - 1 \<le> span \<Longrightarrow> sum_list (split span n) = span - (n - 1)"
    and alloc: "\<And>minimums span. alloc minimums span =
      (let sizes = split span (int (length minimums)) in
       if sizes = [] then None
       else let (raised, ok) = raiseSizesToMinimums sizes minimums in if ok then Some raised else None)"
  shows "size_allocator alloc"
proof -
  have n: "minimums_ok minimums \<Longrightarrow> 0 < int (length minimums)" for minimums
    by (simp add: minimums_ok_def)
  have l: "length (split span (int (length minimums))) = length minimums" for span minimums
    by (simp add: len)
  have eq: "alloc minimums span =
      (if sum_list minimums + (int (length minimums) - 1) \<le> span
       then Some (fst (raiseSizesToMinimums (split span (int (length minimums))) minimums)) else None)"
    if "minimums_ok minimums" "int (length minimums) - 1 \<le> span" for minimums span
    using that n [OF that(1)] sum [of "int (length minimums)" span] raise_ok [OF l, of span minimums]
      l [of span minimums]
    by (auto simp: alloc Let_def split_beta minimums_ok_def)
  show ?thesis
    using n by unfold_locales
      (auto simp: eq raise_ge [OF l] raise_sum [OF l] sum l split: if_splits)
qed

interpretation equal_split: size_allocator equalMinSizes
  by (rule raised_split_allocator [of equalSplitSizes])
    (simp_all add: sum_equalSplitSizes equalMinSizes_def Let_def)

interpretation front_loaded: size_allocator frontLoadedMinSizes
  by (rule raised_split_allocator [of frontLoadedSplitSizes])
    (simp_all add: sum_frontLoadedSplitSizes frontLoadedMinSizes_def Let_def)

lemma proportionalSubtreeSizes_props:
  assumes ok: "minimums_ok minimums" and len: "length lengths = length minimums"
  defines "sizes \<equiv> \<lambda>target. proportionalSubtreeSizes lengths minimums target"
  shows "length (sizes target) = length minimums" "list_all2 (\<le>) minimums (sizes target)"
    "sum_list (sizes target) = max target (sum_list minimums)"
proof -
  let ?t = "max target (sum_list minimums)"
  let ?p = "proportionalChildSizes lengths (?t + int (length lengths) - 1)"
  have ne: "lengths \<noteq> []" using len ok by (auto simp: minimums_ok_def)
  have p: "length ?p = length minimums" using len by simp
  have "PaneMinSize * int (length minimums) \<le> sum_list minimums"
    using sum_list_const_le [of minimums PaneMinSize "\<lambda>x. x"] ok by (simp add: minimums_ok_def)
  then have "extraSpace lengths (?t + int (length lengths) - 1) = ?t - PaneMinSize * int (length lengths)"
    using len by (simp add: extraSpace_def)
  then have sp: "sum_list ?p = ?t" using ne by (simp add: sum_proportionalChildSizes)
  have "(if target < sum_list minimums then sum_list minimums else target) = ?t" by simp
  then have r: "sizes target = fst (raiseSizesToMinimums ?p minimums)"
    using ne by (simp only: sizes_def proportionalSubtreeSizes_def Let_def of_nat_eq_0_iff
        length_0_conv if_False)
  from raise_ge [OF p] raise_sum [OF p] sp
  show "length (sizes target) = length minimums" "list_all2 (\<le>) minimums (sizes target)"
    "sum_list (sizes target) = max target (sum_list minimums)"
    using p by (simp_all add: r)
qed

lemma proportionalSubtreeSizes_same:
  assumes "lengths \<noteq> []" "list_all2 (\<le>) minimums lengths" "\<forall>len \<in> set lengths. PaneMinSize \<le> len"
  shows "proportionalSubtreeSizes lengths minimums (sum_list lengths) = lengths"
proof -
  have "\<not> sum_list lengths < sum_list minimums"
    using assms(2) by (simp add: not_less list_all2_conv_all_nth sum_list_mono2)
  then show ?thesis
    using assms proportionalChildSizes_same [OF assms(1,3)]
    by (simp add: proportionalSubtreeSizes_def Let_def raiseSizesToMinimums_id)
qed

section \<open>Properties\<close>

text \<open>
  Dividing a length among siblings in proportion to their current sizes is a largest-remainder
  division: every sibling gets at least the minimum, the sizes add up to the length without its
  borders (or to the minimum total), and each share is within one cell of its exact quota.
\<close>

theorem proportional_sizes_largest_remainder:
  fixes target :: int
  assumes "lengths \<noteq> []"
  defines "sizes \<equiv> proportionalChildSizes lengths target" and "tw \<equiv> sum_list (childWeights lengths)"
  shows "length sizes = length lengths \<and>
    sum_list sizes = max (target - (int (length lengths) - 1)) (PaneMinSize * int (length lengths)) \<and>
    (\<forall>v \<in> set sizes. PaneMinSize \<le> v) \<and>
    (0 < tw \<longrightarrow> (\<forall>i < length lengths.
       \<bar>(sizes ! i - PaneMinSize) * tw - extraSpace lengths target * childWeights lengths ! i\<bar> < tw))"
proof (intro conjI ballI allI impI)
  show "length sizes = length lengths" by (simp add: sizes_def)
  show "sum_list sizes = max (target - (int (length lengths) - 1)) (PaneMinSize * int (length lengths))"
    using sum_proportionalChildSizes [OF assms(1), of target] by (simp add: sizes_def extraSpace_def)
  show "PaneMinSize \<le> v" if "v \<in> set sizes" for v
    using that proportionalChildSizes_ge by (simp add: sizes_def)
  show "\<bar>(sizes ! i - PaneMinSize) * tw - extraSpace lengths target * childWeights lengths ! i\<bar> < tw"
    if "0 < tw" "i < length lengths" for i
    using proportionalChildSizes_quota [OF that(2)] that(1) by (simp add: sizes_def tw_def)
qed

theorem proportional_sizes_largest_remainder_witness:
  "sum_list (proportionalChildSizes [10, 21, 30] 101) = 99 \<and> proportionalChildSizes [10, 21, 30] 101 = [16, 34, 49]"
proof -
  have "proportionalChildSizes [10, 21, 30] 101 = [16, 34, 49]" by code_simp
  then show ?thesis using proportional_sizes_largest_remainder [of "[10, 21, 30]" 101] by (simp add: PaneMinSize_def)
qed

text \<open>
  The product of the extra space and a weight, which the code computes in 64 bits, cannot
  overflow while the length to divide and the sizes are 32-bit numbers.
\<close>

theorem proportional_product_in_range:
  assumes "target < 2 ^ 31" "\<forall>len \<in> set lengths. len < 2 ^ 31" "i < length lengths"
  shows "0 \<le> extraSpace lengths target * childWeights lengths ! i \<and>
    extraSpace lengths target * childWeights lengths ! i < 2 ^ 63"
proof -
  have e: "0 \<le> extraSpace lengths target" "extraSpace lengths target < 2 ^ 31"
    using assms(1,3) by (auto simp: extraSpace_def PaneMinSize_def)
  have "lengths ! i < 2 ^ 31" using assms(2,3) by simp
  then have w: "0 \<le> childWeights lengths ! i" "childWeights lengths ! i < 2 ^ 31"
    using assms(3) by (simp_all add: childWeights_def PaneMinSize_def)
  have "extraSpace lengths target * childWeights lengths ! i \<le> 2 ^ 31 * 2 ^ 31"
    using e w by (intro mult_mono) auto
  then show ?thesis using e w by simp
qed

theorem proportional_product_in_range_witness: "extraSpace [2000000000, 5] 2147483647 * childWeights [2000000000, 5] ! 0 < 2 ^ 63"
  using proportional_product_in_range [of 2147483647 "[2000000000, 5]" 0] by simp

text \<open>
  Raising sizes to minimums: every size ends at or above its minimum, the total stays (or
  becomes the total of the minimums when there is too little), and the flag says which.
\<close>

theorem raiseSizesToMinimums_correct:
  assumes "length sizes = length minimums"
  shows "case raiseSizesToMinimums sizes minimums of (raised, fits) \<Rightarrow>
    length raised = length sizes \<and> list_all2 (\<le>) minimums raised \<and>
    (fits \<longleftrightarrow> sum_list minimums \<le> sum_list sizes) \<and> sum_list raised = max (sum_list minimums) (sum_list sizes)"
  using raiseSizesToMinimums_props [OF assms] list_all2_lengthD assms by (fastforce split: prod.splits)

theorem raiseSizesToMinimums_correct_witness:
  "raiseSizesToMinimums [5, 5, 20] [8, 2, 9] = ([8, 5, 17], True)"
proof -
  have "raiseSizesToMinimums [5, 5, 20] [8, 2, 9] = ([8, 5, 17], True)" by code_simp
  then show ?thesis using raiseSizesToMinimums_correct [of "[5, 5, 20]" "[8, 2, 9]"] by simp
qed

end
