(* ===== verification/Layout_Tree.thy ===== *)
theory Layout_Tree
  imports Split_Sizes
begin

text \<open>
  The layout tree of \<^verbatim>\<open>internal/mux/layout.go\<close>: cells, their sizes and offsets, and every
  resizing routine. A \<^verbatim>\<open>*LayoutCell\<close> is a value of the datatype \<open>LayoutCell\<close>: the Go flag
  \<^verbatim>\<open>isLeaf\<close> is the constructor, a leaf has \<^verbatim>\<open>Dir == -1\<close> and no children, an internal node has no
  pane. \<^verbatim>\<open>Parent\<close> pointers are implied by the position in the tree (theory \<open>Layout_Edit\<close>
  addresses cells by path), and a mutating method returns the new cell.
\<close>

section \<open>Cells\<close>

text \<open>
  A \<^verbatim>\<open>*Pane\<close> is its address (\<open>pane_ptr\<close>) with the fields the layout code reads and never
  writes; the fields it writes (\<^verbatim>\<open>ActivePoint\<close>, the emulator size) live in a store indexed by
  the address, see \<open>Window_State\<close>.
\<close>

datatype SplitDir = SplitVertical | SplitHorizontal

datatype resizeEdge = resizeFromStart | resizeFromEnd

record pane =
  pane_ptr :: nat
  pane_ID :: uint32
  pane_Name :: string
  pane_Host :: string
  pane_IsProxy :: bool

record rect =
  rX :: int
  rY :: int
  rW :: int
  rH :: int

record leaf_info =
  Pane :: "pane option"
  PaneID :: uint32
  Slot :: int
  LeadSlot :: bool

datatype LayoutCell =
    Leaf rect leaf_info
  | Node rect SplitDir "LayoutCell list"

fun rectOf :: "LayoutCell \<Rightarrow> rect" where
  "rectOf (Leaf r l) = r"
| "rectOf (Node r d cs) = r"

abbreviation cX :: "LayoutCell \<Rightarrow> int" where "cX c \<equiv> rX (rectOf c)"
abbreviation cY :: "LayoutCell \<Rightarrow> int" where "cY c \<equiv> rY (rectOf c)"
abbreviation cW :: "LayoutCell \<Rightarrow> int" where "cW c \<equiv> rW (rectOf c)"
abbreviation cH :: "LayoutCell \<Rightarrow> int" where "cH c \<equiv> rH (rectOf c)"

fun setRect :: "rect \<Rightarrow> LayoutCell \<Rightarrow> LayoutCell" where
  "setRect r' (Leaf r l) = Leaf r' l"
| "setRect r' (Node r d cs) = Node r' d cs"

definition mkRect :: "int \<Rightarrow> int \<Rightarrow> int \<Rightarrow> int \<Rightarrow> rect" where
  "mkRect x y w h = \<lparr>rX = x, rY = y, rW = w, rH = h\<rparr>"

definition NewLeaf :: "pane option \<Rightarrow> int \<Rightarrow> int \<Rightarrow> int \<Rightarrow> int \<Rightarrow> LayoutCell" where
  "NewLeaf p x y w h =
     Leaf (mkRect x y w h) \<lparr>Pane = p, PaneID = 0, Slot = 0, LeadSlot = False\<rparr>"

definition NewLeafByID :: "uint32 \<Rightarrow> int \<Rightarrow> int \<Rightarrow> int \<Rightarrow> int \<Rightarrow> LayoutCell" where
  "NewLeafByID i x y w h =
     Leaf (mkRect x y w h) \<lparr>Pane = None, PaneID = i, Slot = 0, LeadSlot = False\<rparr>"

fun IsLeaf :: "LayoutCell \<Rightarrow> bool" where
  "IsLeaf (Leaf r l) = True"
| "IsLeaf (Node r d cs) = False"

fun Children :: "LayoutCell \<Rightarrow> LayoutCell list" where
  "Children (Leaf r l) = []"
| "Children (Node r d cs) = cs"

text \<open>The pane a cell shows: the leaf's pane; an internal node has none.\<close>

fun cellPane :: "LayoutCell \<Rightarrow> pane option" where
  "cellPane (Leaf r l) = Pane l"
| "cellPane (Node r d cs) = None"

fun CellPaneID :: "LayoutCell \<Rightarrow> uint32" where
  "CellPaneID (Leaf r l) = (case Pane l of Some p \<Rightarrow> pane_ID p | None \<Rightarrow> PaneID l)"
| "CellPaneID (Node r d cs) = 0"

section \<open>Axes\<close>

fun flip :: "SplitDir \<Rightarrow> SplitDir" where
  "flip SplitVertical = SplitHorizontal"
| "flip SplitHorizontal = SplitVertical"

fun axisLen :: "SplitDir \<Rightarrow> rect \<Rightarrow> int" where
  "axisLen SplitVertical r = rW r"
| "axisLen SplitHorizontal r = rH r"

fun setAxisLen :: "SplitDir \<Rightarrow> int \<Rightarrow> rect \<Rightarrow> rect" where
  "setAxisLen SplitVertical n r = r\<lparr>rW := n\<rparr>"
| "setAxisLen SplitHorizontal n r = r\<lparr>rH := n\<rparr>"

definition axisSize :: "SplitDir \<Rightarrow> LayoutCell \<Rightarrow> int" where
  "axisSize axis c = axisLen axis (rectOf c)"

definition setAxisSize :: "SplitDir \<Rightarrow> int \<Rightarrow> LayoutCell \<Rightarrow> LayoutCell" where
  "setAxisSize axis n c = setRect (setAxisLen axis n (rectOf c)) c"

section \<open>Walking the leaves\<close>

fun Walk :: "LayoutCell \<Rightarrow> LayoutCell list" where
  "Walk (Leaf r l) = [Leaf r l]"
| "Walk (Node r d cs) = concat (map Walk cs)"

definition leafPanes :: "LayoutCell \<Rightarrow> pane list" where
  "leafPanes c = List.map_filter cellPane (Walk c)"

fun FindLeafAt :: "int \<Rightarrow> int \<Rightarrow> LayoutCell \<Rightarrow> LayoutCell option" where
  "FindLeafAt x y (Leaf r l) =
     (if rX r \<le> x \<and> x < rX r + rW r \<and> rY r \<le> y \<and> y < rY r + rH r then Some (Leaf r l) else None)"
| "FindLeafAt x y (Node r d cs) =
     foldr (\<lambda>child rest. case FindLeafAt x y child of Some leaf \<Rightarrow> Some leaf | None \<Rightarrow> rest) cs None"

section \<open>Offsets\<close>

text \<open>
  \<^verbatim>\<open>FixOffsets\<close> writes a child's position and then descends into it; \<open>fixAt x y c\<close> is the cell
  after its own position has been set to \<open>(x, y)\<close> and \<^verbatim>\<open>FixOffsets\<close> has run on it.
\<close>

fun fixAt :: "int \<Rightarrow> int \<Rightarrow> LayoutCell \<Rightarrow> LayoutCell"
  and fixKids :: "SplitDir \<Rightarrow> int \<Rightarrow> int \<Rightarrow> LayoutCell list \<Rightarrow> LayoutCell list" where
  "fixAt x y (Leaf r l) = Leaf (r\<lparr>rX := x, rY := y\<rparr>) l"
| "fixAt x y (Node r d cs) = Node (r\<lparr>rX := x, rY := y\<rparr>) d (fixKids d x y cs)"
| "fixKids d x y [] = []"
| "fixKids d x y (c # cs) = fixAt x y c #
     (if d = SplitVertical then fixKids d (x + cW c + 1) y cs else fixKids d x (y + cH c + 1) cs)"

definition FixOffsets :: "LayoutCell \<Rightarrow> LayoutCell" where
  "FixOffsets c = fixAt (cX c) (cY c) c"

section \<open>Minimum sizes and resizing\<close>

fun minSubtreeSize :: "SplitDir \<Rightarrow> LayoutCell \<Rightarrow> int" where
  "minSubtreeSize axis (Leaf r l) = PaneMinSize"
| "minSubtreeSize axis (Node r d cs) =
     (if cs = [] then axisLen axis r
      else if d = axis then int (length cs) - 1 + sum_list (map (minSubtreeSize axis) cs)
      else foldl max 0 (map (minSubtreeSize axis) cs))"

definition proportionalSubtreeChildSizes :: "LayoutCell list \<Rightarrow> SplitDir \<Rightarrow> int \<Rightarrow> int list" where
  "proportionalSubtreeChildSizes cs axis target =
     proportionalSubtreeSizes (map (axisSize axis) cs) (map (minSubtreeSize axis) cs) target"

definition equalSubtreeSplitSizes :: "LayoutCell list \<Rightarrow> SplitDir \<Rightarrow> int \<Rightarrow> int list option" where
  "equalSubtreeSplitSizes cs axis tot = equalMinSizes (map (minSubtreeSize axis) cs) tot"

definition frontLoadedSubtreeSplitSizes :: "LayoutCell list \<Rightarrow> SplitDir \<Rightarrow> int \<Rightarrow> int list option" where
  "frontLoadedSubtreeSplitSizes cs axis tot = frontLoadedMinSizes (map (minSubtreeSize axis) cs) tot"

text \<open>Cells of a list, sizes along an axis: the recursion below is on members of the list.\<close>

lemma size_zip_cell [termination_simp]:
  "(c, s) \<in> set (zip cs ss) \<Longrightarrow> size c < Suc (size_list size cs)"
  by (metis le_imp_less_Suc order_refl set_zip_leftD size_list_estimation')

lemma size_zip_snd [termination_simp]:
  "(i, c) \<in> set (zip is cs) \<Longrightarrow> size c < Suc (size_list size cs)"
  by (metis le_imp_less_Suc order_refl set_zip_rightD size_list_estimation')

function (sequential) ResizeSubtree :: "int \<Rightarrow> int \<Rightarrow> LayoutCell \<Rightarrow> LayoutCell" where
  "ResizeSubtree newW newH (Leaf r l) =
     Leaf (r\<lparr>rW := (if newW < PaneMinSize then PaneMinSize else newW),
             rH := (if newH < PaneMinSize then PaneMinSize else newH)\<rparr>) l"
| "ResizeSubtree newW newH (Node r d cs) =
     (if cs = [] then Node r d cs
      else let
        minW = minSubtreeSize SplitVertical (Node r d cs);
        minH = minSubtreeSize SplitHorizontal (Node r d cs);
        w = (if newW < minW then minW else newW);
        h = (if newH < minH then minH else newH);
        seps = int (length cs) - 1;
        kids =
          (if d = SplitVertical then
             map (\<lambda>(child, childW). ResizeSubtree childW h child)
               (zip cs (proportionalSubtreeChildSizes cs SplitVertical (w - seps)))
           else
             map (\<lambda>(child, childH). ResizeSubtree w childH child)
               (zip cs (proportionalSubtreeChildSizes cs SplitHorizontal (h - seps))))
      in FixOffsets (Node (r\<lparr>rW := w, rH := h\<rparr>) d kids))"
  by pat_completeness auto
termination
  by (relation "measure (\<lambda>(w, h, c). size c)") (auto simp: size_zip_cell)

fun resizeCheck :: "SplitDir \<Rightarrow> LayoutCell \<Rightarrow> int" where
  "resizeCheck axis (Leaf r l) =
     (if axisLen axis r > PaneMinSize then axisLen axis r - PaneMinSize else 0)"
| "resizeCheck axis (Node r d cs) =
     (if d = axis then sum_list (map (resizeCheck axis) cs)
      else let minimum = foldl (\<lambda>m available. if m = - 1 \<or> available < m then available else m) (- 1)
                           (map (resizeCheck axis) cs)
           in if minimum < 0 then 0 else minimum)"

function (sequential) resizeAxis :: "SplitDir \<Rightarrow> int \<Rightarrow> LayoutCell \<Rightarrow> LayoutCell" where
  "resizeAxis axis target (Leaf r l) = Leaf (setAxisLen axis target r) l"
| "resizeAxis axis target (Node r d cs) =
     Node (setAxisLen axis target r) d
       (if cs = [] then cs
        else if d \<noteq> axis then map (resizeAxis axis target) cs
        else map (\<lambda>(child, sz). resizeAxis axis sz child)
               (zip cs (proportionalSubtreeChildSizes cs axis (target - (int (length cs) - 1)))))"
  by pat_completeness auto
termination
  by (relation "measure (\<lambda>(a, t, c). size c)")
    (auto simp: less_Suc_eq_le intro: size_list_estimation' dest!: set_zip_leftD)

definition resizeToAxis :: "SplitDir \<Rightarrow> int \<Rightarrow> LayoutCell \<Rightarrow> LayoutCell" where
  "resizeToAxis axis target c =
     (let current = axisSize axis c in
      if target = current then c
      else let target' =
             (if target < current then
                (let minTarget = current - resizeCheck axis c
                 in if target < minTarget then minTarget else target)
              else target)
           in resizeAxis axis target' c)"

definition ResizeAll :: "int \<Rightarrow> int \<Rightarrow> LayoutCell \<Rightarrow> LayoutCell" where
  "ResizeAll newW newH c =
     FixOffsets (resizeToAxis SplitHorizontal newH (resizeToAxis SplitVertical newW c))"

lemma size_list_rev [simp]: "size_list f (rev xs) = size_list f xs"
  by (induction xs) (simp_all add: size_list_append)

text \<open>
  Edge resizing: only the children next to the moved border change. Growing goes to the first
  or last child; shrinking walks from that child inwards and takes what each can give.
\<close>

function (sequential) resizeAxisFromEdge :: "SplitDir \<Rightarrow> resizeEdge \<Rightarrow> int \<Rightarrow> LayoutCell \<Rightarrow> LayoutCell"
  and shrinkKids :: "SplitDir \<Rightarrow> resizeEdge \<Rightarrow> int \<Rightarrow> LayoutCell list \<Rightarrow> LayoutCell list" where
  "resizeAxisFromEdge axis edge target (Leaf r l) =
     (if target = axisLen axis r then Leaf r l
      else Leaf (setAxisLen axis (if target < PaneMinSize then PaneMinSize else target) r) l)"
| "resizeAxisFromEdge axis edge target (Node r d cs) =
     (let current = axisLen axis r in
      if target = current then Node r d cs
      else let delta = target - current in
        Node (setAxisLen axis target r) d
          (if cs = [] then cs
           else if d \<noteq> axis then map (resizeAxisFromEdge axis edge target) cs
           else if delta > 0 then
             (if edge = resizeFromEnd
              then butlast cs @ [resizeAxisFromEdge axis edge (axisSize axis (last cs) + delta) (last cs)]
              else resizeAxisFromEdge axis edge (axisSize axis (hd cs) + delta) (hd cs) # tl cs)
           else if edge = resizeFromStart then shrinkKids axis edge (- delta) cs
           else rev (shrinkKids axis edge (- delta) (rev cs))))"
| "shrinkKids axis edge remaining [] = []"
| "shrinkKids axis edge remaining (child # rest) =
     (if remaining > 0 then
        (let available = resizeCheck axis child;
             shrink = (if available > remaining then remaining else available)
         in if shrink = 0 then child # shrinkKids axis edge remaining rest
            else resizeAxisFromEdge axis edge (axisSize axis child - shrink) child
                   # shrinkKids axis edge (remaining - shrink) rest)
      else child # rest)"
  by pat_completeness auto

termination
  by (relation "measure (\<lambda>x. case x of Inl (a, e, t, c) \<Rightarrow> size c | Inr (a, e, t, cs) \<Rightarrow> size_list size cs)")
    (auto simp: less_Suc_eq_le intro: size_list_estimation' [OF last_in_set]
      size_list_estimation' [OF hd_in_set] size_list_estimation')

definition resizeToAxisFromEdge :: "SplitDir \<Rightarrow> int \<Rightarrow> resizeEdge \<Rightarrow> LayoutCell \<Rightarrow> LayoutCell" where
  "resizeToAxisFromEdge axis target edge c =
     (let current = axisSize axis c in
      if target = current then c
      else let target' =
             (if target < current then
                (let minTarget = current - resizeCheck axis c
                 in if target < minTarget then minTarget else target)
              else target)
           in resizeAxisFromEdge axis edge target' c)"

section \<open>Rebalancing\<close>

text \<open>
  \<^verbatim>\<open>equalizeChildren\<close> (called \<^verbatim>\<open>rebalanceChildren\<close> and \<^verbatim>\<open>distributeEqual\<close> elsewhere): nothing
  happens when the children cannot be given equal sizes above their minimums.
\<close>

definition resizeChildrenTo :: "rect \<Rightarrow> SplitDir \<Rightarrow> LayoutCell list \<Rightarrow> int list \<Rightarrow> LayoutCell list" where
  "resizeChildrenTo r d cs sizes =
     map (\<lambda>(child, sz). if d = SplitVertical then ResizeSubtree sz (rH r) child
                        else ResizeSubtree (rW r) sz child) (zip cs sizes)"

fun equalizeChildren :: "LayoutCell \<Rightarrow> LayoutCell" where
  "equalizeChildren (Leaf r l) = Leaf r l"
| "equalizeChildren (Node r d cs) =
     (if cs = [] then Node r d cs
      else case equalSubtreeSplitSizes cs d (axisLen d r) of
             None \<Rightarrow> Node r d cs
           | Some sizes \<Rightarrow> Node r d (resizeChildrenTo r d cs sizes))"

definition rebalanceChildren :: "LayoutCell \<Rightarrow> LayoutCell" where
  "rebalanceChildren c = equalizeChildren c"

definition distributeEqual :: "LayoutCell \<Rightarrow> LayoutCell" where
  "distributeEqual c = rebalanceChildren c"

fun equalizeChildrenNeeded :: "LayoutCell \<Rightarrow> bool" where
  "equalizeChildrenNeeded (Leaf r l) = False"
| "equalizeChildrenNeeded (Node r d cs) =
     (if cs = [] then False
      else case equalSubtreeSplitSizes cs d (axisLen d r) of
             None \<Rightarrow> False
           | Some sizes \<Rightarrow> list_ex (\<lambda>(child, sz). axisSize d child \<noteq> sz) (zip cs sizes))"

fun equalizeAxisNeeded :: "SplitDir \<Rightarrow> LayoutCell \<Rightarrow> bool" where
  "equalizeAxisNeeded axis (Leaf r l) = False"
| "equalizeAxisNeeded axis (Node r d cs) =
     ((d = axis \<and> equalizeChildrenNeeded (Node r d cs)) \<or> (\<exists>c \<in> set cs. equalizeAxisNeeded axis c))"

section \<open>Borders\<close>

text \<open>
  A border hit names the split node by its path and the index of the child on its left or top
  side (\<^verbatim>\<open>Left\<close> is that child, \<^verbatim>\<open>Right\<close> the next one).
\<close>

record BorderHit =
  hitPath :: "nat list"
  hitIndex :: nat
  hitDir :: SplitDir

definition borderHere :: "rect \<Rightarrow> SplitDir \<Rightarrow> int \<Rightarrow> int \<Rightarrow> LayoutCell \<Rightarrow> bool" where
  "borderHere r d x y left =
     (if d = SplitVertical then x = cX left + cW left \<and> rY r \<le> y \<and> y < rY r + rH r
      else y = cY left + cH left \<and> rX r \<le> x \<and> x < rX r + rW r)"

fun FindBorderAt :: "int \<Rightarrow> int \<Rightarrow> LayoutCell \<Rightarrow> BorderHit option" where
  "FindBorderAt x y (Leaf r l) = None"
| "FindBorderAt x y (Node r d cs) =
     (case find (\<lambda>(i, left). borderHere r d x y left) (zip [0..<length cs - 1] cs) of
        Some (i, left) \<Rightarrow> Some \<lparr>hitPath = [], hitIndex = i, hitDir = d\<rparr>
      | None \<Rightarrow>
          foldr (\<lambda>(i, child) rest.
              case FindBorderAt x y child of
                Some hit \<Rightarrow> Some (hit\<lparr>hitPath := i # hitPath hit\<rparr>)
              | None \<Rightarrow> rest)
            (zip [0..<length cs] cs) None)"

definition FindBorderNear :: "int \<Rightarrow> int \<Rightarrow> LayoutCell \<Rightarrow> BorderHit option" where
  "FindBorderNear x y c =
     foldr (\<lambda>(dx, dy) rest. case FindBorderAt (x + dx) (y + dy) c of Some hit \<Rightarrow> Some hit | None \<Rightarrow> rest)
       [(0, 0), (0, 1), (1, 0), (0, - 1), (- 1, 0)] None"

section \<open>Rectangles and axes\<close>

lemma axisLen_setAxisLen [simp]:
  "axisLen a (setAxisLen a n r) = n"
  "axisLen (flip a) (setAxisLen a n r) = axisLen (flip a) r"
  "axisLen a (setAxisLen (flip a) n r) = axisLen a r"
  by (cases a; simp)+

lemma axisLen_setAxisLen_if:
  "axisLen b (setAxisLen a n r) = (if a = b then n else axisLen b r)"
  by (cases a; cases b) auto

lemma flip_flip [simp]: "flip (flip a) = a"
  by (cases a) auto

lemma flip_neq [simp]: "flip a \<noteq> a" "a \<noteq> flip a"
  by (cases a; simp)+

lemma neq_iff_flip: "a \<noteq> b \<longleftrightarrow> b = flip a"
  by (cases a; cases b) auto

lemma setAxisLen_same [simp]: "setAxisLen a (axisLen a r) r = r"
  by (cases a) auto

lemma axisLen_pos [simp]: "axisLen a (r\<lparr>rX := x, rY := y\<rparr>) = axisLen a r"
  by (cases a) auto

lemma rectOf_setRect [simp]: "rectOf (setRect r c) = r"
  by (cases c) auto

lemma axisSize_simps [simp]:
  "axisSize a (Leaf r l) = axisLen a r"
  "axisSize a (Node r d cs) = axisLen a r"
  "axisSize a (setRect r c) = axisLen a r"
  by (simp_all add: axisSize_def)

lemma axis_all: "(\<forall>a. P a) \<longleftrightarrow> P SplitVertical \<and> P SplitHorizontal"
  by (metis SplitDir.exhaust)

section \<open>The shape of a tree: everything but the geometry\<close>

fun shape :: "LayoutCell \<Rightarrow> LayoutCell" where
  "shape (Leaf r l) = Leaf (mkRect 0 0 0 0) l"
| "shape (Node r d cs) = Node (mkRect 0 0 0 0) d (map shape cs)"

text \<open>Every split node has at least two children (the code never leaves fewer).\<close>

fun branching :: "LayoutCell \<Rightarrow> bool" where
  "branching (Leaf r l) = True"
| "branching (Node r d cs) = (2 \<le> length cs \<and> (\<forall>c \<in> set cs. branching c))"

lemma branching_shape [simp]: "branching (shape c) = branching c"
  by (induction c) auto

lemma shape_eq_branching: "shape c = shape c' \<Longrightarrow> branching c = branching c'"
  by (metis branching_shape)

lemma minSubtreeSize_shape: "branching c \<Longrightarrow> minSubtreeSize a (shape c) = minSubtreeSize a c"
proof (induction c)
  case (Node r d cs)
  then have "cs \<noteq> []" "map (minSubtreeSize a \<circ> shape) cs = map (minSubtreeSize a) cs" by auto
  then show ?case by (simp del: map_eq_conv)
qed simp

lemma minSubtreeSize_cong: "shape c = shape c' \<Longrightarrow> branching c \<Longrightarrow> minSubtreeSize a c = minSubtreeSize a c'"
  by (metis minSubtreeSize_shape shape_eq_branching)

lemma IsLeaf_shape [simp]: "IsLeaf (shape c) = IsLeaf c"
  by (cases c) auto

lemma cellPane_shape [simp]: "cellPane (shape c) = cellPane c"
  by (cases c) auto

lemma Walk_shape: "Walk (shape c) = map shape (Walk c)"
  by (induction c) (auto simp: map_concat o_def cong: map_cong)

lemma leafPanes_shape [simp]: "leafPanes (shape c) = leafPanes c"
  by (simp add: leafPanes_def Walk_shape map_filter_def filter_map o_def)

lemma leafPanes_cong: "shape c = shape c' \<Longrightarrow> leafPanes c = leafPanes c'"
  by (metis leafPanes_shape)

lemma leafPanes_Node [simp]: "leafPanes (Node r d cs) = concat (map leafPanes cs)"
proof -
  have "List.map_filter f (concat xss) = concat (map (List.map_filter f) xss)"
    for f :: "LayoutCell \<Rightarrow> pane option" and xss
    by (induction xss) (auto simp: map_filter_def)
  then show ?thesis by (simp add: leafPanes_def [abs_def] o_def)
qed

lemma leafPanes_Leaf [simp]:
  "leafPanes (Leaf r l) = (case Pane l of None \<Rightarrow> [] | Some p \<Rightarrow> [p])"
  by (auto simp: leafPanes_def map_filter_simps split: option.splits)

lemma size_shape [simp]: "size (shape c) = size c"
proof (induction c)
  case (Node r d cs)
  then have "size_list size (map shape cs) = size_list size cs"
    by (induction cs) auto
  then show ?case by simp
qed simp

lemma shape_setRect [simp]: "shape (setRect r c) = shape c"
  by (cases c) auto

lemma shape_fix: "shape (fixAt x y c) = shape c" "map shape (fixKids d x y cs) = map shape cs"
  by (induction x y c and d x y cs rule: fixAt_fixKids.induct) auto

lemma length_fixKids [simp]: "length (fixKids d x y cs) = length cs"
  by (metis length_map shape_fix(2))

lemma shape_FixOffsets [simp]: "shape (FixOffsets c) = shape c"
  by (simp add: FixOffsets_def shape_fix)

section \<open>Sizes and positions of a well-formed tree\<close>

text \<open>
  \<open>sized\<close> and \<open>placed\<close> are the geometry invariant that the code's own randomized tests assert
  (\<^verbatim>\<open>assertCellGeometryInvariant\<close>): leaves are at least \<^const>\<open>PaneMinSize\<close> wide and high,
  children fill their parent exactly with one cell between neighbours, and positions follow
  from the sizes.
\<close>

fun sized :: "LayoutCell \<Rightarrow> bool" where
  "sized (Leaf r l) = (PaneMinSize \<le> rW r \<and> PaneMinSize \<le> rH r)"
| "sized (Node r d cs) =
     (2 \<le> length cs \<and> (\<forall>c \<in> set cs. sized c \<and> axisSize (flip d) c = axisLen (flip d) r)
      \<and> sum_list (map (axisSize d) cs) + (int (length cs) - 1) = axisLen d r)"

fun placed :: "LayoutCell \<Rightarrow> bool"
  and placedKids :: "SplitDir \<Rightarrow> int \<Rightarrow> int \<Rightarrow> LayoutCell list \<Rightarrow> bool" where
  "placed (Leaf r l) = True"
| "placed (Node r d cs) = placedKids d (rX r) (rY r) cs"
| "placedKids d x y [] = True"
| "placedKids d x y (c # cs) =
     (cX c = x \<and> cY c = y \<and> placed c \<and>
      (if d = SplitVertical then placedKids d (x + cW c + 1) y cs else placedKids d x (y + cH c + 1) cs))"

lemma sized_branching: "sized c \<Longrightarrow> branching c"
  by (induction c) auto

lemma sized_Leaf_axis: "sized (Leaf r l) \<longleftrightarrow> (\<forall>a. PaneMinSize \<le> axisLen a r)"
  by (simp add: axis_all)

lemma rectOf_fixAt [simp]: "rectOf (fixAt x y c) = (rectOf c)\<lparr>rX := x, rY := y\<rparr>"
  by (cases c) auto

lemma axisSize_fixAt [simp]: "axisSize a (fixAt x y c) = axisSize a c"
  by (simp add: axisSize_def)

lemma axisSizes_fixKids [simp]: "map (axisSize a) (fixKids d x y cs) = map (axisSize a) cs"
  by (induction cs arbitrary: x y) auto

lemma sized_fix:
  "sized (fixAt x y c) = sized c"
  "list_all (\<lambda>c. sized c \<and> axisSize a c = n) (fixKids d x y cs) = list_all (\<lambda>c. sized c \<and> axisSize a c = n) cs"
proof (induction x y c and d x y cs arbitrary: and a n rule: fixAt_fixKids.induct)
  case (2 x y r d cs)
  then show ?case by (simp add: list_all_iff [symmetric])
qed auto

lemma sized_FixOffsets [simp]: "sized (FixOffsets c) = sized c"
  by (simp add: FixOffsets_def sized_fix)

lemma axisSize_FixOffsets [simp]: "axisSize a (FixOffsets c) = axisSize a c"
  by (simp add: FixOffsets_def)

lemma rectOf_FixOffsets [simp]: "rectOf (FixOffsets c) = rectOf c"
  by (simp add: FixOffsets_def)

lemma placed_fix: "placed (fixAt x y c)" "placedKids d x y (fixKids d x y cs)"
  by (induction x y c and d x y cs rule: fixAt_fixKids.induct) auto

lemma placed_FixOffsets [simp]: "placed (FixOffsets c)"
  by (simp add: FixOffsets_def placed_fix)

lemma fix_placed:
  "placed c \<Longrightarrow> fixAt (cX c) (cY c) c = c"
  "placedKids d x y cs \<Longrightarrow> fixKids d x y cs = cs"
  by (induction c and d x y cs rule: placed_placedKids.induct) (auto split: if_splits)

text \<open>Positions are right exactly when recomputing them changes nothing.\<close>

lemma placed_iff_FixOffsets: "placed c \<longleftrightarrow> FixOffsets c = c"
  by (metis FixOffsets_def fix_placed(1) placed_FixOffsets)

end
