(* ===== verification/Layout_Resize.thy ===== *)
theory Layout_Resize
  imports Layout_Tree
begin

text \<open>
  Correctness of the resizing routines of \<^verbatim>\<open>layout.go\<close>: which sizes they reach, that they
  keep or establish the geometry invariant, and that they touch nothing but the geometry.
\<close>

section \<open>Minimum sizes\<close>

lemma foldl_max_le: "foldl max k xs \<le> b \<longleftrightarrow> k \<le> b \<and> (\<forall>x \<in> set xs. x \<le> b)" for k :: int
  by (induction xs arbitrary: k) auto

lemma foldl_max_ge: "x \<in> set xs \<Longrightarrow> x \<le> foldl max k xs" for k :: int
  using foldl_max_le [of k xs "foldl max k xs"] by simp

lemma minSubtreeSize_bounds_child:
  assumes c: "c \<in> set cs" and nn: "\<And>c. c \<in> set cs \<Longrightarrow> 0 \<le> minSubtreeSize a c"
  shows "minSubtreeSize a c \<le> minSubtreeSize a (Node r d cs)"
proof -
  have ne: "cs \<noteq> []" using c by auto
  have "minSubtreeSize a c \<le> sum_list (map (minSubtreeSize a) cs)"
    using c nn by (rule member_le_sum_list_int)
  also have "\<dots> \<le> int (length cs) - 1 + sum_list (map (minSubtreeSize a) cs)"
    using ne by (cases cs) auto
  finally show ?thesis
    using c ne by (simp add: foldl_max_ge)
qed

lemma minSubtreeSize_ge: "branching c \<Longrightarrow> PaneMinSize \<le> minSubtreeSize a c"
proof (induction c)
  case (Node r d cs)
  then obtain c where c: "c \<in> set cs" by (cases cs) auto
  have k: "PaneMinSize \<le> minSubtreeSize a c" if "c \<in> set cs" for c
    using Node that by simp
  then have "0 \<le> minSubtreeSize a c" if "c \<in> set cs" for c
    using that by (fastforce simp: PaneMinSize_def)
  from minSubtreeSize_bounds_child [OF c this] k [OF c] show ?case by (rule order_trans [rotated])
qed simp

lemma minSubtreeSize_nonneg: "branching c \<Longrightarrow> 0 \<le> minSubtreeSize a c"
  using minSubtreeSize_ge [of c a] by (simp add: PaneMinSize_def)

lemma minimums_ok_children:
  "branching (Node r d cs) \<Longrightarrow> minimums_ok (map (minSubtreeSize a) cs)"
  by (auto simp: minimums_ok_def minSubtreeSize_ge)

lemma minSubtreeSize_child:
  "branching (Node r d cs) \<Longrightarrow> c \<in> set cs \<Longrightarrow> minSubtreeSize a c \<le> minSubtreeSize a (Node r d cs)"
  by (rule minSubtreeSize_bounds_child) (auto simp: minSubtreeSize_nonneg)

lemma minSubtreeSize_le_axisSize: "sized c \<Longrightarrow> minSubtreeSize a c \<le> axisSize a c"
proof (induction c)
  case (Leaf r l)
  then show ?case by (simp only: sized_Leaf_axis axisSize_simps minSubtreeSize.simps)
next
  case (Node r d cs)
  have ne: "cs \<noteq> []" using Node.prems by auto
  show ?case
  proof (cases "d = a")
    case True
    have "sum_list (map (minSubtreeSize a) cs) \<le> sum_list (map (axisSize a) cs)"
      using Node by (intro sum_list_mono) auto
    with True Node.prems ne show ?thesis by auto
  next
    case False
    then have a: "flip d = a" by (simp add: neq_iff_flip)
    obtain c where "c \<in> set cs" using ne by (cases cs) auto
    then have "PaneMinSize \<le> axisLen a r"
      using Node minSubtreeSize_ge [OF sized_branching, of c a] a by fastforce
    with False a Node ne show ?thesis by (auto simp: foldl_max_le PaneMinSize_def)
  qed
qed

section \<open>How far a cell can shrink\<close>

lemma foldl_sentinel_min:
  "\<forall>x \<in> set xs. 0 \<le> x \<Longrightarrow> 0 \<le> m \<Longrightarrow>
     foldl (\<lambda>m x. if m = - 1 \<or> x < m then x else m) m xs = fold min xs m" for m :: int
  by (induction xs arbitrary: m) (auto simp: min_def)

lemma fold_min_Min: "fold min xs m = Min (insert m (set xs))" for m :: int
  by (metis Min.set_eq_fold list.simps(15))

lemma Min_diff_max:
  fixes n :: int
  assumes "finite S" "S \<noteq> {}"
  shows "Min ((\<lambda>x. n - f x) ` S) = n - Max (f ` S)"
proof (rule Min_eqI)
  show "finite ((\<lambda>x. n - f x) ` S)" using assms by simp
  show "n - Max (f ` S) \<in> (\<lambda>x. n - f x) ` S"
    using Max_in [of "f ` S"] assms by (metis (mono_tags, lifting) finite_imageI image_iff image_is_empty)
  fix y assume "y \<in> (\<lambda>x. n - f x) ` S"
  then show "n - Max (f ` S) \<le> y" using assms by auto
qed

lemma foldl_max_Max: "xs \<noteq> [] \<Longrightarrow> \<forall>x \<in> set xs. 0 \<le> x \<Longrightarrow> foldl max 0 xs = Max (set xs)" for xs :: "int list"
proof -
  assume ne: "xs \<noteq> []" and nn: "\<forall>x \<in> set xs. 0 \<le> x"
  have "foldl max 0 xs \<le> Max (set xs)"
    using ne nn Max_in [of "set xs"] by (simp add: foldl_max_le)
  moreover have "Max (set xs) \<le> foldl max 0 xs"
    using ne by (simp add: foldl_max_ge)
  ultimately show ?thesis by simp
qed

text \<open>
  The walk of \<^verbatim>\<open>resizeCheck\<close> computes exactly the distance to the subtree minimum.
\<close>

lemma resizeCheck_eq: "sized c \<Longrightarrow> resizeCheck a c = axisSize a c - minSubtreeSize a c"
proof (induction c)
  case (Leaf r l)
  then have "PaneMinSize \<le> axisLen a r" by (simp only: sized_Leaf_axis)
  then show ?case by simp
next
  case (Node r d cs)
  have ne: "cs \<noteq> []" using Node.prems by auto
  have IH: "map (resizeCheck a) cs = map (\<lambda>c. axisSize a c - minSubtreeSize a c) cs"
    using Node by auto
  show ?case
  proof (cases "d = a")
    case True
    with Node.prems ne show ?thesis
      by (auto simp: IH sum_list_subtractf simp del: map_eq_conv)
  next
    case False
    then have fl: "flip d = a" by (simp add: neq_iff_flip)
    have sz: "map (resizeCheck a) cs = map (\<lambda>c. axisLen a r - minSubtreeSize a c) cs"
      using IH Node.prems fl by auto
    have nn: "\<forall>x \<in> set (map (resizeCheck a) cs). 0 \<le> x"
      unfolding sz using Node.prems minSubtreeSize_le_axisSize [of _ a] fl by fastforce
    obtain x xs where xs: "map (resizeCheck a) cs = x # xs" using ne by (cases cs) auto
    have "foldl (\<lambda>m y. if m = - 1 \<or> y < m then y else m) (- 1) (x # xs) = Min (set (x # xs))"
      using nn xs by (simp add: foldl_sentinel_min fold_min_Min)
    also have "\<dots> = axisLen a r - Max (minSubtreeSize a ` set cs)"
      unfolding xs [symmetric] sz using ne by (simp add: Min_diff_max)
    also have "\<dots> = axisLen a r - foldl max 0 (map (minSubtreeSize a) cs)"
      using ne Node.prems minSubtreeSize_ge [OF sized_branching, of _ a]
      by (subst foldl_max_Max) (fastforce simp: PaneMinSize_def)+
    finally have fm: "foldl (\<lambda>m y. if m = - 1 \<or> y < m then y else m) (- 1) (map (resizeCheck a) cs)
        = axisLen a r - foldl max 0 (map (minSubtreeSize a) cs)"
      by (simp add: xs)
    have "0 \<le> axisLen a r - minSubtreeSize a (Node r d cs)"
      using minSubtreeSize_le_axisSize [OF Node.prems, of a] by simp
    with fm False ne show ?thesis by (simp add: Let_def del: map_eq_conv)
  qed
qed

lemma resizeCheck_nonneg: "sized c \<Longrightarrow> 0 \<le> resizeCheck a c"
  using minSubtreeSize_le_axisSize [of c a] by (simp add: resizeCheck_eq)

section \<open>Giving children sizes\<close>

text \<open>
  The common step of every routine: each child is replaced by one of its own shape with the
  size it was given, and the given sizes fill the parent.
\<close>

lemma sized_Node_zip:
  assumes "2 \<le> length cs" "length sizes = length cs"
    and kid: "\<And>c s. (c, s) \<in> set (zip cs sizes) \<Longrightarrow>
      sized (f c s) \<and> axisSize d (f c s) = s \<and> axisSize (flip d) (f c s) = axisLen (flip d) r"
    and "sum_list sizes + (int (length cs) - 1) = axisLen d r"
  shows "sized (Node r d (map (\<lambda>(c, s). f c s) (zip cs sizes)))"
proof -
  have "map (axisSize d) (map (\<lambda>(c, s). f c s) (zip cs sizes)) = sizes"
  proof (rule nth_equalityI)
    fix i assume "i < length (map (axisSize d) (map (\<lambda>(c, s). f c s) (zip cs sizes)))"
    then have "i < length cs" by simp
    moreover then have "(cs ! i, sizes ! i) \<in> set (zip cs sizes)"
      using assms(2) by (auto simp: set_zip)
    ultimately show "map (axisSize d) (map (\<lambda>(c, s). f c s) (zip cs sizes)) ! i = sizes ! i"
      using assms(2) kid by simp
  qed (use assms(2) in simp)
  with assms kid show ?thesis by (simp only: sized.simps) force
qed

lemma shape_Node_zip:
  assumes "length sizes = length cs" "\<And>c s. (c, s) \<in> set (zip cs sizes) \<Longrightarrow> shape (f c s) = shape c"
  shows "map shape (map (\<lambda>(c, s). f c s) (zip cs sizes)) = map shape cs"
proof (rule nth_equalityI)
  fix i assume "i < length (map shape (map (\<lambda>(c, s). f c s) (zip cs sizes)))"
  then have "i < length cs" by simp
  moreover then have "(cs ! i, sizes ! i) \<in> set (zip cs sizes)"
    using assms(1) by (auto simp: set_zip)
  ultimately show "map shape (map (\<lambda>(c, s). f c s) (zip cs sizes)) ! i = map shape cs ! i"
    using assms by simp
qed (use assms(1) in simp)

lemma proportionalSubtreeChildSizes_props:
  assumes "branching (Node r d cs)"
  shows "length (proportionalSubtreeChildSizes cs a t) = length cs"
    "(c, s) \<in> set (zip cs (proportionalSubtreeChildSizes cs a t)) \<Longrightarrow> minSubtreeSize a c \<le> s"
    "sum_list (proportionalSubtreeChildSizes cs a t) = max t (sum_list (map (minSubtreeSize a) cs))"
  using proportionalSubtreeSizes_props [OF minimums_ok_children [OF assms, of a], of "map (axisSize a) cs" t]
  by (auto simp: proportionalSubtreeChildSizes_def list_all2_conv_all_nth set_zip)

section \<open>ResizeSubtree\<close>

abbreviation dims :: "int \<Rightarrow> int \<Rightarrow> SplitDir \<Rightarrow> int" where
  "dims w h a \<equiv> (if a = SplitVertical then w else h)"

definition fitted :: "LayoutCell \<Rightarrow> int \<Rightarrow> int \<Rightarrow> SplitDir \<Rightarrow> int" where
  "fitted c w h a = max (dims w h a) (minSubtreeSize a c)"

definition resizeKid :: "SplitDir \<Rightarrow> (SplitDir \<Rightarrow> int) \<Rightarrow> LayoutCell \<Rightarrow> int \<Rightarrow> LayoutCell" where
  "resizeKid d sz c s = (if d = SplitVertical then ResizeSubtree s (sz SplitHorizontal) c
     else ResizeSubtree (sz SplitVertical) s c)"

lemma ResizeSubtree_Node:
  assumes "cs \<noteq> []" "sz = fitted (Node r d cs) w h"
  shows "ResizeSubtree w h (Node r d cs) =
    FixOffsets (Node (r\<lparr>rW := sz SplitVertical, rH := sz SplitHorizontal\<rparr>) d
      (map (\<lambda>(c, s). resizeKid d sz c s)
        (zip cs (proportionalSubtreeChildSizes cs d (sz d - (int (length cs) - 1))))))"
proof -
  have "(if x < y then y else x) = max x y" for x y :: int by simp
  then show ?thesis
    using assms by (cases d) (simp_all add: fitted_def Let_def resizeKid_def max.commute)
qed

lemma axisLen_sizes [simp]: "axisLen a (r\<lparr>rW := w, rH := h\<rparr>) = dims w h a"
  by (cases a) auto

lemma length_proportionalSubtreeChildSizes [simp]:
  "length (proportionalSubtreeChildSizes cs a t) = length cs"
  by (simp add: proportionalSubtreeChildSizes_def proportionalSubtreeSizes_def Let_def)

lemma shape_ResizeSubtree [simp]: "shape (ResizeSubtree w h c) = shape c"
proof (induction c arbitrary: w h)
  case (Node r d cs)
  show ?case
  proof (cases "cs = []")
    case False
    let ?sz = "fitted (Node r d cs) w h"
    have "map shape (map (\<lambda>(c, s). resizeKid d ?sz c s) (zip cs sizes)) = map shape cs"
      if "length sizes = length cs" for sizes
      using that Node.IH by (intro shape_Node_zip) (auto simp: resizeKid_def dest: set_zip_leftD)
    then show ?thesis by (simp add: ResizeSubtree_Node [OF False refl] del: ResizeSubtree.simps)
  qed simp
qed simp

lemma ResizeSubtree_props:
  assumes "branching c"
  shows "sized (ResizeSubtree w h c)"
    and "axisSize a (ResizeSubtree w h c) = max (dims w h a) (minSubtreeSize a c)"
proof -
  have "sized (ResizeSubtree w h c) \<and>
      (\<forall>a. axisSize a (ResizeSubtree w h c) = max (dims w h a) (minSubtreeSize a c))"
    using assms
  proof (induction c arbitrary: w h)
    case (Leaf r l)
    then show ?case by (simp add: axis_all max_def)
  next
    case (Node r d cs)
    let ?sz = "fitted (Node r d cs) w h"
    define sizes where
      "sizes = proportionalSubtreeChildSizes cs d (?sz d - (int (length cs) - 1))"
    have ne: "cs \<noteq> []" using Node.prems by auto
    have len: "length sizes = length cs" by (simp add: sizes_def)
    have "sum_list (map (minSubtreeSize d) cs) \<le> ?sz d - (int (length cs) - 1)"
      using ne by (simp add: fitted_def)
    then have sum: "sum_list sizes + (int (length cs) - 1) = ?sz d"
      by (simp add: sizes_def proportionalSubtreeChildSizes_props(3) [OF Node.prems])
    have kid: "sized (resizeKid d ?sz c s) \<and> axisSize d (resizeKid d ?sz c s) = s \<and>
        axisSize (flip d) (resizeKid d ?sz c s) = ?sz (flip d)"
      if cs: "(c, s) \<in> set (zip cs sizes)" for c s
    proof -
      have c: "c \<in> set cs" "branching c" using cs Node.prems by (auto dest: set_zip_leftD)
      have "minSubtreeSize d c \<le> s"
        using cs by (simp add: sizes_def proportionalSubtreeChildSizes_props(2) [OF Node.prems])
      moreover have "minSubtreeSize (flip d) c \<le> ?sz (flip d)"
        using minSubtreeSize_child [OF Node.prems c(1), of "flip d"] by (simp add: fitted_def)
      ultimately show ?thesis
        using Node.IH [OF c] by (cases d) (simp_all add: resizeKid_def)
    qed
    have ax: "axisLen a (r\<lparr>rW := ?sz SplitVertical, rH := ?sz SplitHorizontal\<rparr>) = ?sz a" for a
      by (cases a) auto
    have "sized (Node (r\<lparr>rW := ?sz SplitVertical, rH := ?sz SplitHorizontal\<rparr>) d
        (map (\<lambda>(c, s). resizeKid d ?sz c s) (zip cs sizes)))"
      by (rule sized_Node_zip) (use Node.prems len sum kid in \<open>simp_all add: ax del: axisLen_sizes\<close>)
    then have "sized (ResizeSubtree w h (Node r d cs))"
      by (simp only: ResizeSubtree_Node [OF ne refl] sized_FixOffsets sizes_def)
    moreover have "axisSize a (ResizeSubtree w h (Node r d cs)) = ?sz a" for a
      by (simp only: ResizeSubtree_Node [OF ne refl] axisSize_FixOffsets axisSize_simps ax)
    ultimately show ?case by (simp add: fitted_def)
  qed
  then show "sized (ResizeSubtree w h c)"
    "axisSize a (ResizeSubtree w h c) = max (dims w h a) (minSubtreeSize a c)" by auto
qed

lemma placed_ResizeSubtree: "branching c \<Longrightarrow> placed (ResizeSubtree w h c)"
  by (cases c) (auto simp: Let_def)

lemma pos_ResizeSubtree [simp]: "cX (ResizeSubtree w h c) = cX c" "cY (ResizeSubtree w h c) = cY c"
  by (cases c; simp add: Let_def)+

lemma ResizeSubtree_exact:
  assumes "branching c" "\<And>a. minSubtreeSize a c \<le> dims w h a"
  shows "axisSize a (ResizeSubtree w h c) = dims w h a"
  using assms(2) [of a] by (simp add: ResizeSubtree_props(2) [OF assms(1)] max_absorb1)

section \<open>Resizing along one axis\<close>

lemma shape_resizeAxis [simp]: "shape (resizeAxis a t c) = shape c"
proof (induction c arbitrary: t)
  case (Node r d cs)
  have "map shape (map (\<lambda>(c, s). resizeAxis a s c) (zip cs sizes)) = map shape cs"
    if "length sizes = length cs" for sizes
    using that Node.IH by (intro shape_Node_zip) (auto dest: set_zip_leftD)
  moreover have "map shape (map (resizeAxis a t) cs) = map shape cs"
    using Node.IH by simp
  ultimately show ?case by (simp del: map_map map_eq_conv)
qed simp

lemma axisSize_resizeAxis [simp]:
  "axisSize b (resizeAxis a t c) = (if a = b then t else axisSize b c)"
  by (cases c) (simp_all add: axisLen_setAxisLen_if)

lemma sized_resizeAxis: "sized c \<Longrightarrow> minSubtreeSize a c \<le> t \<Longrightarrow> sized (resizeAxis a t c)"
proof (induction c arbitrary: t)
  case (Leaf r l)
  then show ?case by (simp only: resizeAxis.simps sized_Leaf_axis axisLen_setAxisLen_if) simp
next
  case (Node r d cs)
  have b: "branching (Node r d cs)" using Node.prems(1) by (rule sized_branching)
  have ne: "cs \<noteq> []" using Node.prems by auto
  show ?case
  proof (cases "d = a")
    case True
    let ?sizes = "proportionalSubtreeChildSizes cs a (t - (int (length cs) - 1))"
    have "sum_list (map (minSubtreeSize a) cs) \<le> t - (int (length cs) - 1)"
      using Node.prems(2) True ne by simp
    then have sum: "sum_list ?sizes + (int (length cs) - 1) = t"
      by (simp add: proportionalSubtreeChildSizes_props(3) [OF b])
    have "sized (Node (setAxisLen a t r) d (map (\<lambda>(c, s). resizeAxis a s c) (zip cs ?sizes)))"
    proof (rule sized_Node_zip)
      fix c s assume cs: "(c, s) \<in> set (zip cs ?sizes)"
      then have "c \<in> set cs" "minSubtreeSize a c \<le> s"
        by (auto dest: set_zip_leftD simp: proportionalSubtreeChildSizes_props(2) [OF b])
      with Node True show "sized (resizeAxis a s c) \<and> axisSize d (resizeAxis a s c) = s \<and>
          axisSize (flip d) (resizeAxis a s c) = axisLen (flip d) (setAxisLen a t r)"
        by (simp add: axisLen_setAxisLen_if)
    qed (use Node.prems sum True in simp_all)
    with True ne show ?thesis by simp
  next
    case False
    then have fl: "flip d = a" by (simp add: neq_iff_flip)
    have "sized (resizeAxis a t c)" if "c \<in> set cs" for c
      using Node minSubtreeSize_child [OF b that, of a] that by fastforce
    with Node.prems False fl ne show ?thesis
      by (auto simp: axisLen_setAxisLen_if o_def)
  qed
qed

lemma resizeToAxis_eq:
  assumes "sized c"
  shows "resizeToAxis a t c =
    (if t = axisSize a c then c else resizeAxis a (max t (minSubtreeSize a c)) c)"
proof -
  have "minSubtreeSize a c \<le> axisSize a c" using assms by (rule minSubtreeSize_le_axisSize)
  then show ?thesis by (simp add: resizeToAxis_def Let_def resizeCheck_eq [OF assms] max_def)
qed

lemma resizeToAxis_props:
  assumes "sized c"
  shows "sized (resizeToAxis a t c)" "shape (resizeToAxis a t c) = shape c"
    "axisSize b (resizeToAxis a t c) = (if a = b then max t (minSubtreeSize a c) else axisSize b c)"
proof -
  have le: "minSubtreeSize a c \<le> axisSize a c" using assms by (rule minSubtreeSize_le_axisSize)
  consider "resizeToAxis a t c = c" "t = axisSize a c"
    | "resizeToAxis a t c = resizeAxis a (max t (minSubtreeSize a c)) c"
    using resizeToAxis_eq [OF assms, of a t] by metis
  then show "sized (resizeToAxis a t c)" "shape (resizeToAxis a t c) = shape c"
    "axisSize b (resizeToAxis a t c) = (if a = b then max t (minSubtreeSize a c) else axisSize b c)"
    using assms le by (cases; auto simp: sized_resizeAxis)+
qed

lemma pos_resizeAxis [simp]: "cX (resizeAxis a t c) = cX c" "cY (resizeAxis a t c) = cY c"
  by (cases c; cases a; simp)+

lemma pos_resizeToAxis: "cX (resizeToAxis a t c) = cX c" "cY (resizeToAxis a t c) = cY c"
  by (simp_all add: resizeToAxis_def Let_def)

lemma ResizeAll_props:
  assumes "sized c"
  shows "sized (ResizeAll w h c)" "placed (ResizeAll w h c)" "shape (ResizeAll w h c) = shape c"
    "axisSize a (ResizeAll w h c) = max (dims w h a) (minSubtreeSize a c)"
proof -
  let ?v = "resizeToAxis SplitVertical w c"
  have v: "sized ?v" "shape ?v = shape c"
    using assms by (simp_all add: resizeToAxis_props)
  then have "minSubtreeSize SplitHorizontal ?v = minSubtreeSize SplitHorizontal c"
    by (intro minSubtreeSize_cong sized_branching)
  with v show "sized (ResizeAll w h c)" "placed (ResizeAll w h c)" "shape (ResizeAll w h c) = shape c"
    "axisSize a (ResizeAll w h c) = max (dims w h a) (minSubtreeSize a c)"
    using assms by (cases a; simp add: ResizeAll_def resizeToAxis_props)+
qed

section \<open>Resizing from an edge\<close>

lemma shape_shrinkKids_step:
  assumes "\<And>c t. c \<in> set cs \<Longrightarrow> shape (resizeAxisFromEdge a e t c) = shape c"
  shows "map shape (shrinkKids a e remaining cs) = map shape cs"
  using assms by (induction cs arbitrary: remaining) (simp_all add: Let_def)

lemma map_last_upd: "cs \<noteq> [] \<Longrightarrow> map f (butlast cs @ [y]) = map f cs \<longleftrightarrow> f y = f (last cs)"
  by (induction cs rule: rev_induct) auto

lemma map_hd_upd: "cs \<noteq> [] \<Longrightarrow> map f (y # tl cs) = map f cs \<longleftrightarrow> f y = f (hd cs)"
  by (cases cs) auto

lemma shape_resizeAxisFromEdge [simp]: "shape (resizeAxisFromEdge a e t c) = shape c"
proof (induction c arbitrary: t)
  case (Node r d cs)
  have sh: "map shape (shrinkKids a e rm cs) = map shape cs"
    "map shape (shrinkKids a e rm (rev cs)) = map shape (rev cs)" for rm
    using Node.IH by (auto intro: shape_shrinkKids_step)
  have "map shape (map (resizeAxisFromEdge a e t) cs) = map shape cs"
    using Node.IH by simp
  moreover have "cs \<noteq> [] \<Longrightarrow> map shape (butlast cs @ [resizeAxisFromEdge a e n (last cs)]) = map shape cs" for n
    using Node.IH last_in_set [of cs] by (subst map_last_upd) auto
  moreover have "cs \<noteq> [] \<Longrightarrow> map shape (resizeAxisFromEdge a e n (hd cs) # tl cs) = map shape cs" for n
    using Node.IH hd_in_set [of cs] by (subst map_hd_upd) auto
  moreover have "map shape (rev (shrinkKids a e rm (rev cs))) = map shape cs" for rm
    using sh(2) [of rm] by (simp only: rev_map [symmetric]) simp
  ultimately show ?case
    using sh(1) by (auto simp only: resizeAxisFromEdge.simps Let_def shape.simps split: if_split)
qed simp

definition resized_ok :: "SplitDir \<Rightarrow> LayoutCell \<Rightarrow> int \<Rightarrow> LayoutCell \<Rightarrow> bool" where
  "resized_ok a c t c' \<longleftrightarrow>
     sized c' \<and> axisSize a c' = t \<and> axisSize (flip a) c' = axisSize (flip a) c"

lemma shrinkKids_props:
  assumes "\<And>c t. c \<in> set cs \<Longrightarrow> sized c \<Longrightarrow> minSubtreeSize a c \<le> t \<Longrightarrow>
      resized_ok a c t (resizeAxisFromEdge a e t c)"
    and "\<forall>c \<in> set cs. sized c \<and> axisSize (flip a) c = n"
    and "0 \<le> remaining" "remaining \<le> sum_list (map (resizeCheck a) cs)"
  shows "(\<forall>c \<in> set (shrinkKids a e remaining cs). sized c \<and> axisSize (flip a) c = n) \<and>
    sum_list (map (axisSize a) (shrinkKids a e remaining cs)) = sum_list (map (axisSize a) cs) - remaining \<and>
    length (shrinkKids a e remaining cs) = length cs"
  using assms
proof (induction cs arbitrary: remaining)
  case (Cons c cs)
  define shrink where "shrink = min (resizeCheck a c) remaining"
  have c: "sized c" "axisSize (flip a) c = n" using Cons.prems by auto
  have sk: "shrinkKids a e remaining (c # cs) =
      (if remaining > 0 then (if shrink = 0 then c else resizeAxisFromEdge a e (axisSize a c - shrink) c)
         # shrinkKids a e (remaining - shrink) cs else c # cs)"
    by (simp add: shrink_def Let_def min_def)
  have "0 \<le> shrink" using resizeCheck_nonneg [OF c(1), of a] Cons.prems by (simp add: shrink_def)
  moreover have "resized_ok a c (axisSize a c - shrink) (resizeAxisFromEdge a e (axisSize a c - shrink) c)"
    using Cons.prems(1) [of c "axisSize a c - shrink"] c by (simp add: shrink_def resizeCheck_eq min_def)
  moreover have "(\<forall>c \<in> set (shrinkKids a e (remaining - shrink) cs). sized c \<and> axisSize (flip a) c = n) \<and>
      sum_list (map (axisSize a) (shrinkKids a e (remaining - shrink) cs)) =
        sum_list (map (axisSize a) cs) - (remaining - shrink) \<and>
      length (shrinkKids a e (remaining - shrink) cs) = length cs"
  proof (rule Cons.IH)
    have "0 \<le> sum_list (map (resizeCheck a) cs)"
      using Cons.prems(2) by (intro sum_list_nonneg) (auto simp: resizeCheck_nonneg)
    then show "0 \<le> remaining - shrink" "remaining - shrink \<le> sum_list (map (resizeCheck a) cs)"
      using Cons.prems(4) by (auto simp: shrink_def)
  qed (use Cons.prems in auto)
  ultimately show ?case
    using Cons.prems(2,3) c by (auto simp: sk resized_ok_def simp del: shrinkKids.simps)
qed simp

lemma sum_list_last_upd:
  "cs \<noteq> [] \<Longrightarrow> sum_list (map f (butlast cs @ [y])) = sum_list (map f cs) - f (last cs) + f y"
  for f :: "'a \<Rightarrow> int"
  by (induction cs rule: rev_induct) auto

lemma sum_list_hd_upd:
  "cs \<noteq> [] \<Longrightarrow> sum_list (map f (y # tl cs)) = sum_list (map f cs) - f (hd cs) + f y"
  for f :: "'a \<Rightarrow> int"
  by (cases cs) auto

lemma sized_Node_upd:
  assumes "sized (Node r d cs)" "length cs' = length cs"
    "\<forall>c \<in> set cs'. sized c \<and> axisSize (flip d) c = axisLen (flip d) r"
    "sum_list (map (axisSize d) cs') = sum_list (map (axisSize d) cs) + (t - axisLen d r)"
  shows "sized (Node (setAxisLen d t r) d cs')"
  using assms by (simp add: axisLen_setAxisLen_if)

lemma set_last_upd: "set (butlast cs @ [y]) \<subseteq> insert y (set cs)"
  by (auto dest: in_set_butlastD)

lemma set_hd_upd: "set (y # tl cs) \<subseteq> insert y (set cs)"
  by (cases cs) auto

text \<open>Growing hands the whole change to the child at the edge; shrinking takes it from the children in turn.\<close>

lemma resizeAxisFromEdge_grow:
  assumes s: "sized (Node r d cs)"
    and IH: "\<And>c u. c \<in> set cs \<Longrightarrow> sized c \<Longrightarrow> minSubtreeSize a c \<le> u \<Longrightarrow>
      resized_ok a c u (resizeAxisFromEdge a e u c)"
    and grow: "t > axisLen a r" "d = a"
  shows "resized_ok a (Node r d cs) t (resizeAxisFromEdge a e t (Node r d cs))"
proof -
  have ne: "cs \<noteq> []" using s by auto
  have kid: "c \<in> set cs \<Longrightarrow> sized c \<and> axisSize (flip d) c = axisLen (flip d) r" for c using s by simp
  define k where "k = (if e = resizeFromEnd then last cs else hd cs)"
  define new where "new = resizeAxisFromEdge a e (axisSize a k + (t - axisLen a r)) k"
  define cs' where "cs' = (if e = resizeFromEnd then butlast cs @ [new] else new # tl cs)"
  have k: "k \<in> set cs" using ne by (simp add: k_def)
  have ok: "resized_ok a k (axisSize a k + (t - axisLen a r)) new"
    using IH [OF k] kid [OF k] minSubtreeSize_le_axisSize [of k a] grow by (simp add: new_def)
  have sub: "set cs' \<subseteq> insert new (set cs)"
    using set_last_upd [of cs new] set_hd_upd [of new cs] by (simp add: cs'_def)
  have sum: "sum_list (map (axisSize a) cs') = sum_list (map (axisSize a) cs) - axisSize a k + axisSize a new"
    using ne sum_list_last_upd [of cs "axisSize a" new] sum_list_hd_upd [of cs "axisSize a" new]
    by (simp add: cs'_def k_def)
  have "sized (Node (setAxisLen d t r) d cs')"
  proof (rule sized_Node_upd [OF s])
    show "length cs' = length cs" using ne by (simp add: cs'_def)
    show "\<forall>c \<in> set cs'. sized c \<and> axisSize (flip d) c = axisLen (flip d) r"
      using kid ok k grow sub by (auto simp: resized_ok_def)
    show "sum_list (map (axisSize d) cs') = sum_list (map (axisSize d) cs) + (t - axisLen d r)"
      using ok grow sum by (simp add: resized_ok_def)
  qed
  moreover have "resizeAxisFromEdge a e t (Node r d cs) = Node (setAxisLen d t r) d cs'"
    using grow ne by (auto simp: Let_def cs'_def new_def k_def)
  ultimately show ?thesis
    using grow by (simp add: resized_ok_def del: sized.simps resizeAxisFromEdge.simps)
qed

lemma resizeAxisFromEdge_shrink:
  assumes s: "sized (Node r d cs)" and min: "minSubtreeSize a (Node r d cs) \<le> t"
    and IH: "\<And>c u. c \<in> set cs \<Longrightarrow> sized c \<Longrightarrow> minSubtreeSize a c \<le> u \<Longrightarrow>
      resized_ok a c u (resizeAxisFromEdge a e u c)"
    and shrink: "t < axisLen a r" "d = a"
  shows "resized_ok a (Node r d cs) t (resizeAxisFromEdge a e t (Node r d cs))"
proof -
  have ne: "cs \<noteq> []" using s by auto
  have kid: "c \<in> set cs \<Longrightarrow> sized c \<and> axisSize (flip d) c = axisLen (flip d) r" for c using s by simp
  have room: "axisLen a r - t \<le> sum_list (map (resizeCheck a) cs)"
    using resizeCheck_eq [OF s, of a] min shrink by simp
  have sk: "(\<forall>c \<in> set (shrinkKids a e (axisLen a r - t) xs). sized c \<and> axisSize (flip a) c = axisLen (flip d) r) \<and>
    sum_list (map (axisSize a) (shrinkKids a e (axisLen a r - t) xs)) =
      sum_list (map (axisSize a) xs) - (axisLen a r - t) \<and>
    length (shrinkKids a e (axisLen a r - t) xs) = length xs" if "xs = cs \<or> xs = rev cs" for xs
    by (rule shrinkKids_props) (use that IH kid shrink room in \<open>auto simp: sum_list_rev rev_map [symmetric]\<close>)
  define cs' where "cs' = (if e = resizeFromStart then shrinkKids a e (axisLen a r - t) cs
    else rev (shrinkKids a e (axisLen a r - t) (rev cs)))"
  have "sized (Node (setAxisLen d t r) d cs')"
    by (rule sized_Node_upd [OF s])
      (use sk [of cs] sk [of "rev cs"] shrink in \<open>auto simp: cs'_def rev_map [symmetric] sum_list_rev\<close>)
  moreover have "resizeAxisFromEdge a e t (Node r d cs) = Node (setAxisLen d t r) d cs'"
    using shrink ne by (auto simp: Let_def cs'_def)
  ultimately show ?thesis
    using shrink by (simp add: resized_ok_def del: sized.simps resizeAxisFromEdge.simps)
qed

lemma resizeAxisFromEdge_ok:
  "sized c \<Longrightarrow> minSubtreeSize a c \<le> t \<Longrightarrow> resized_ok a c t (resizeAxisFromEdge a e t c)"
proof (induction c arbitrary: t)
  case (Leaf r l)
  then have "\<forall>b. PaneMinSize \<le> axisLen b r" using sized_Leaf_axis by blast
  moreover have "resizeAxisFromEdge a e t (Leaf r l) = Leaf (setAxisLen a t r) l"
    using Leaf.prems(2) by auto
  moreover have "sized (Leaf (setAxisLen a t r) l)"
    using calculation(1) Leaf.prems(2) by (simp only: sized_Leaf_axis axisLen_setAxisLen_if) simp
  ultimately show ?case
    by (simp add: resized_ok_def del: sized.simps)
next
  case (Node r d cs)
  have b: "branching (Node r d cs)" using Node.prems(1) by (rule sized_branching)
  have ne: "cs \<noteq> []" using Node.prems by auto
  have kid: "c \<in> set cs \<Longrightarrow> sized c \<and> axisSize (flip d) c = axisLen (flip d) r" for c
    using Node.prems(1) by simp
  let ?F = "resizeAxisFromEdge a e"
  consider (same) "t = axisLen a r" | (cross) "t \<noteq> axisLen a r" "d \<noteq> a"
    | (grow) "t > axisLen a r" "d = a" | (shrink) "t < axisLen a r" "d = a"
    by linarith
  then show ?case
  proof cases
    case same
    with Node.prems show ?thesis by (simp add: resized_ok_def Let_def)
  next
    case cross
    then have fl: "flip d = a" by (simp add: neq_iff_flip)
    have "resized_ok a c t (?F t c)" if "c \<in> set cs" for c
      using Node.IH [OF that] kid [OF that] minSubtreeSize_child [OF b that, of a] Node.prems(2)
      by fastforce
    with cross fl Node.prems(1) ne show ?thesis
      by (auto simp: resized_ok_def Let_def axisLen_setAxisLen_if o_def cong: map_cong)
  next
    case grow
    show ?thesis using Node.prems(1) Node.IH grow by (rule resizeAxisFromEdge_grow)
  next
    case shrink
    show ?thesis using Node.prems Node.IH shrink by (rule resizeAxisFromEdge_shrink)
  qed
qed

lemma resizeToAxisFromEdge_props:
  assumes "sized c"
  shows "resized_ok a c (max t (minSubtreeSize a c)) (resizeToAxisFromEdge a t e c)"
    and "shape (resizeToAxisFromEdge a t e c) = shape c"
proof -
  have le: "minSubtreeSize a c \<le> axisSize a c" using assms by (rule minSubtreeSize_le_axisSize)
  have eq: "resizeToAxisFromEdge a t e c =
      (if t = axisSize a c then c else resizeAxisFromEdge a e (max t (minSubtreeSize a c)) c)"
    using le by (simp add: resizeToAxisFromEdge_def Let_def resizeCheck_eq [OF assms] max_def)
  then show "shape (resizeToAxisFromEdge a t e c) = shape c" by simp
  show "resized_ok a c (max t (minSubtreeSize a c)) (resizeToAxisFromEdge a t e c)"
    using assms le resizeAxisFromEdge_ok [OF assms, of a "max t (minSubtreeSize a c)" e]
    unfolding eq by (cases "t = axisSize a c") (auto simp: resized_ok_def)
qed

section \<open>Children resized by an allocator\<close>

context size_allocator
begin

text \<open>
  Whatever allocator chose the sizes: giving them to the children with \<^const>\<open>ResizeSubtree\<close>
  yields a sized node of the parent's own rectangle.
\<close>

lemma sized_alloc_children:
  assumes len: "2 \<le> length cs" and br: "\<forall>c \<in> set cs. branching c"
    and room: "\<And>c. c \<in> set cs \<Longrightarrow> minSubtreeSize (flip d) c \<le> axisLen (flip d) r"
    and fits: "sum_list (map (minSubtreeSize d) cs) + (int (length cs) - 1) \<le> axisLen d r"
  obtains sizes where "alloc (map (minSubtreeSize d) cs) (axisLen d r) = Some sizes"
    "length sizes = length cs" "sized (Node r d (resizeChildrenTo r d cs sizes))"
    "map shape (resizeChildrenTo r d cs sizes) = map shape cs"
proof -
  let ?f = "\<lambda>c s. if d = SplitVertical then ResizeSubtree s (rH r) c else ResizeSubtree (rW r) s c"
  have b: "branching (Node r d cs)" using len br by simp
  obtain sizes where sizes: "alloc (map (minSubtreeSize d) cs) (axisLen d r) = Some sizes"
      "length sizes = length cs" "list_all2 (\<le>) (map (minSubtreeSize d) cs) sizes"
      "sum_list sizes = axisLen d r - (int (length cs) - 1)"
    using alloc_fits [OF minimums_ok_children [OF b, of d], of "axisLen d r"] fits
    by (metis length_map)
  have "sized (Node r d (map (\<lambda>(c, s). ?f c s) (zip cs sizes)))"
  proof (rule sized_Node_zip)
    fix c s assume cs: "(c, s) \<in> set (zip cs sizes)"
    then have c: "c \<in> set cs" "branching c" using br by (auto dest: set_zip_leftD)
    have s: "minSubtreeSize d c \<le> s"
      using cs sizes(2,3) by (auto simp: list_all2_conv_all_nth elim!: zip_nthE)
    show "sized (?f c s) \<and> axisSize d (?f c s) = s \<and> axisSize (flip d) (?f c s) = axisLen (flip d) r"
      using s room [OF c(1)] c(2) by (cases d) (simp_all add: ResizeSubtree_props)
  qed (use len sizes in simp_all)
  moreover have "map shape (map (\<lambda>(c, s). ?f c s) (zip cs sizes)) = map shape cs"
    by (rule shape_Node_zip) (use sizes(2) in auto)
  ultimately show thesis
    using sizes(1,2) that by (simp only: resizeChildrenTo_def)
qed

end

lemma equalizeChildren_props:
  assumes "sized c"
  shows "sized (equalizeChildren c)" "shape (equalizeChildren c) = shape c"
    "rectOf (equalizeChildren c) = rectOf c"
proof -
  have "sized (equalizeChildren c) \<and> shape (equalizeChildren c) = shape c \<and>
      rectOf (equalizeChildren c) = rectOf c"
  proof (cases c)
    case (Node r d cs)
    note s = assms [unfolded Node]
    have "minSubtreeSize (flip d) k \<le> axisLen (flip d) r" if "k \<in> set cs" for k
      using s that minSubtreeSize_le_axisSize [of k "flip d"] by auto
    moreover have "sum_list (map (minSubtreeSize d) cs) + (int (length cs) - 1) \<le> axisLen d r"
      using minSubtreeSize_le_axisSize [OF s, of d] s by (auto split: if_splits)
    moreover have "2 \<le> length cs" "\<forall>k \<in> set cs. branching k" using s sized_branching by auto
    ultimately obtain sizes where "equalMinSizes (map (minSubtreeSize d) cs) (axisLen d r) = Some sizes"
        "sized (Node r d (resizeChildrenTo r d cs sizes))"
        "map shape (resizeChildrenTo r d cs sizes) = map shape cs"
      using equal_split.sized_alloc_children [of cs d r] by metis
    then show ?thesis using s Node by (auto simp: equalSubtreeSplitSizes_def)
  qed (use assms in simp)
  then show "sized (equalizeChildren c)" "shape (equalizeChildren c) = shape c"
    "rectOf (equalizeChildren c) = rectOf c" by auto
qed

lemma axisSize_equalizeChildren: "sized c \<Longrightarrow> axisSize a (equalizeChildren c) = axisSize a c"
  by (simp add: axisSize_def equalizeChildren_props)

lemmas distributeEqual_eq [simp] = distributeEqual_def rebalanceChildren_def

text \<open>
  \<^verbatim>\<open>equalizeAxisRecursive\<close>: rebalance every split along the axis, top down; the recursion
  descends into the children as the rebalancing left them.
\<close>

lemma length_equalSubtreeSplitSizes:
  "equalSubtreeSplitSizes cs d n = Some sizes \<Longrightarrow> length sizes = length cs"
  by (auto simp: equalSubtreeSplitSizes_def equalMinSizes_def Let_def split: if_splits prod.splits)
    (metis fst_conv length_map length_equalSplitSizes nat_int raise_length)

lemma size_equalizeChildren [simp]: "size (equalizeChildren c) = size c"
proof -
  have "map shape (resizeChildrenTo r d cs sizes) = map shape cs" if "length sizes = length cs" for r d cs sizes
    unfolding resizeChildrenTo_def using that by (intro shape_Node_zip) auto
  note this length_equalSubtreeSplitSizes
  then have "shape (equalizeChildren c) = shape c"
    by (cases c) (auto split: option.splits)
  then show ?thesis by (metis size_shape)
qed

lemma size_Children: "c' \<in> set (Children c) \<Longrightarrow> size c' < size c"
  by (cases c) (auto simp: less_Suc_eq_le intro: size_list_estimation')

fun withChildren :: "LayoutCell list \<Rightarrow> LayoutCell \<Rightarrow> LayoutCell" where
  "withChildren ks (Leaf r l) = Leaf r l"
| "withChildren ks (Node r d cs) = Node r d ks"

fun splitAxis :: "SplitDir \<Rightarrow> LayoutCell \<Rightarrow> bool" where
  "splitAxis axis (Leaf r l) = False"
| "splitAxis axis (Node r d cs) = (d = axis)"

function equalizeAxisRecursive :: "SplitDir \<Rightarrow> LayoutCell \<Rightarrow> LayoutCell" where
  "equalizeAxisRecursive axis c =
     (let c1 = (if splitAxis axis c then distributeEqual c else c)
      in withChildren (map (equalizeAxisRecursive axis) (Children c1)) c1)"
  by pat_completeness auto
termination
proof (relation "measure (\<lambda>(a, c). size c)", goal_cases)
  case (2 axis c c1 k)
  then show ?case using size_Children [of k c1] by (simp split: if_splits)
qed simp

declare equalizeAxisRecursive.simps [simp del]

lemma withChildren_map_props:
  assumes "sized c" "\<And>k. k \<in> set (Children c) \<Longrightarrow>
      sized (f k) \<and> shape (f k) = shape k \<and> (\<forall>a. axisSize a (f k) = axisSize a k)"
  shows "sized (withChildren (map f (Children c)) c)"
    "shape (withChildren (map f (Children c)) c) = shape c"
  using assms by (cases c; auto simp: o_def cong: map_cong)+

lemma rectOf_withChildren [simp]: "rectOf (withChildren ks c) = rectOf c"
  by (cases c) auto

lemma sized_Children: "sized c \<Longrightarrow> k \<in> set (Children c) \<Longrightarrow> sized k"
  by (cases c) auto

lemma equalizeAxisRecursive_props:
  assumes "sized c"
  shows "sized (equalizeAxisRecursive axis c)" "shape (equalizeAxisRecursive axis c) = shape c"
    "rectOf (equalizeAxisRecursive axis c) = rectOf c"
proof -
  have "sized (equalizeAxisRecursive axis c) \<and> shape (equalizeAxisRecursive axis c) = shape c \<and>
    rectOf (equalizeAxisRecursive axis c) = rectOf c"
    using assms
  proof (induction axis c rule: equalizeAxisRecursive.induct)
    case (1 axis c)
    define c1 where "c1 = (if splitAxis axis c then distributeEqual c else c)"
    have c1: "sized c1" "shape c1 = shape c" "rectOf c1 = rectOf c"
      using "1.prems" equalizeChildren_props [of c] by (auto simp: c1_def)
    have kid: "sized (equalizeAxisRecursive axis k) \<and> shape (equalizeAxisRecursive axis k) = shape k \<and>
        (\<forall>a. axisSize a (equalizeAxisRecursive axis k) = axisSize a k)" if "k \<in> set (Children c1)" for k
      using "1.IH" [OF c1_def that sized_Children [OF c1(1) that]] by (simp add: axisSize_def)
    show ?case
      using withChildren_map_props [OF c1(1) kid] c1
      by (subst (1 2 3) equalizeAxisRecursive.simps) (simp add: c1_def Let_def)
  qed
  then show "sized (equalizeAxisRecursive axis c)" "shape (equalizeAxisRecursive axis c) = shape c"
    "rectOf (equalizeAxisRecursive axis c) = rectOf c" by auto
qed

text \<open>
  Rebalancing is only reported as needed when it changes something: when no split along the
  axis needs it, the direct children already have the sizes it would give them.
\<close>

lemma equalizeChildren_not_needed:
  assumes "sized c" "\<not> equalizeChildrenNeeded c"
  shows "map (axisSize a) (Children (equalizeChildren c)) = map (axisSize a) (Children c)"
proof (cases c)
  case (Node r d cs)
  note s = assms(1) [unfolded Node]
  show ?thesis
  proof (cases "equalSubtreeSplitSizes cs d (axisLen d r)")
    case (Some sizes)
    have ne: "cs \<noteq> []" using s by auto
    have "\<not> list_ex (\<lambda>(k, n). axisSize d k \<noteq> n) (zip cs sizes)"
      using assms(2) Some ne by (simp add: Node)
    then have szs: "sizes = map (axisSize d) cs" if "length sizes = length cs"
      using that by (induction cs sizes rule: list_induct2') auto
    have len: "length sizes = length cs"
      using Some by (rule length_equalSubtreeSplitSizes)
    have "axisSize a (resizeKid d (\<lambda>b. axisLen b r) k (axisSize d k)) = axisSize a k" if "k \<in> set cs" for k
      using that s minSubtreeSize_le_axisSize [of k a] sized_branching [of k]
      by (cases d; cases a) (auto simp: resizeKid_def ResizeSubtree_props max_def)
    then show ?thesis using Some ne szs [OF len] Node
      by (auto simp: resizeChildrenTo_def resizeKid_def zip_map2 zip_same_conv_map o_def cong: map_cong)
  qed (use Node in auto)
qed simp

section \<open>Properties\<close>

definition two_columns :: LayoutCell where
  "two_columns = Node (mkRect 0 0 81 24) SplitVertical [NewLeaf None 0 0 40 24, NewLeaf None 41 0 40 24]"

text \<open>
  C33. Resizing the whole layout: the result fits the new size exactly, or the least size the
  layout can have where that is larger; every cell is placed and no pane moves within the tree.
\<close>

theorem ResizeAll_fits:
  assumes "sized c"
  shows "sized (ResizeAll w h c) \<and> placed (ResizeAll w h c) \<and> shape (ResizeAll w h c) = shape c \<and>
    cW (ResizeAll w h c) = max w (minSubtreeSize SplitVertical c) \<and>
    cH (ResizeAll w h c) = max h (minSubtreeSize SplitHorizontal c)"
  using ResizeAll_props(1-3) [OF assms, of w h] ResizeAll_props(4) [OF assms, of SplitVertical w h]
    ResizeAll_props(4) [OF assms, of SplitHorizontal w h] by (simp add: axisSize_def)

theorem ResizeAll_fits_witness:
  "sized (ResizeAll 61 30 two_columns) \<and> cW (ResizeAll 61 30 two_columns) = 61 \<and> map cW (Walk (ResizeAll 61 30 two_columns)) = [30, 30]"
proof -
  have s: "sized two_columns" by code_simp
  have "map cW (Walk (ResizeAll 61 30 two_columns)) = [30, 30]" "max 61 (minSubtreeSize SplitVertical two_columns) = 61" by code_simp+
  then show ?thesis using ResizeAll_fits [OF s, of 61 30] by simp
qed

text \<open>
  \<^verbatim>\<open>resizeCheck\<close>, which looks for the tightest child on every level, computes the distance to
  the least size the subtree can have.
\<close>

theorem resizeCheck_is_slack:
  assumes "sized c"
  shows "resizeCheck axis c = axisSize axis c - minSubtreeSize axis c \<and> 0 \<le> resizeCheck axis c"
  using resizeCheck_eq [OF assms] resizeCheck_nonneg [OF assms] by simp

theorem resizeCheck_is_slack_witness:
  "resizeCheck SplitVertical two_columns = 76"
proof -
  have s: "sized two_columns" and v: "axisSize SplitVertical two_columns - minSubtreeSize SplitVertical two_columns = 76" by code_simp+
  show ?thesis using resizeCheck_is_slack [OF s, of SplitVertical] unfolding v by simp
qed

text \<open>
  Resizing a subtree from one edge reaches the target (or the least size that is possible)
  on that axis, keeps the other axis and the panes, and leaves a well-sized subtree.
\<close>

theorem resizeToAxisFromEdge_reaches_target:
  assumes "sized c"
  shows "sized (resizeToAxisFromEdge axis target edge c) \<and>
    axisSize axis (resizeToAxisFromEdge axis target edge c) = max target (minSubtreeSize axis c) \<and>
    axisSize (flip axis) (resizeToAxisFromEdge axis target edge c) = axisSize (flip axis) c \<and>
    shape (resizeToAxisFromEdge axis target edge c) = shape c"
  using resizeToAxisFromEdge_props [OF assms, of axis target edge] by (simp add: resized_ok_def)

theorem resizeToAxisFromEdge_reaches_target_witness:
  "sized (resizeToAxisFromEdge SplitVertical 43 resizeFromEnd two_columns) \<and>
      map cW (Walk (resizeToAxisFromEdge SplitVertical 43 resizeFromEnd two_columns)) = [40, 2]"
proof -
  have s: "sized two_columns" by code_simp
  have "map cW (Walk (resizeToAxisFromEdge SplitVertical 43 resizeFromEnd two_columns)) = [40, 2]" by code_simp
  then show ?thesis using resizeToAxisFromEdge_reaches_target [OF s, of SplitVertical 43 resizeFromEnd] by simp
qed

end
