(* ===== verification/Layout_Query.thy ===== *)
theory Layout_Query
  imports Layout_Resize
begin

text \<open>
  Hit testing on a layout (\<^verbatim>\<open>FindLeafAt\<close>, \<^verbatim>\<open>FindBorderAt\<close>): in a tree that satisfies the
  geometry invariant every point of the root rectangle lies in exactly one leaf or on a border,
  and the two searches find which.
\<close>

definition inside :: "int \<Rightarrow> int \<Rightarrow> LayoutCell \<Rightarrow> bool" where
  "inside x y c \<longleftrightarrow> cX c \<le> x \<and> x < cX c + cW c \<and> cY c \<le> y \<and> y < cY c + cH c"

fun along :: "SplitDir \<Rightarrow> int \<Rightarrow> int \<Rightarrow> int" where
  "along SplitVertical x y = x"
| "along SplitHorizontal x y = y"

abbreviation start :: "SplitDir \<Rightarrow> LayoutCell \<Rightarrow> int" where
  "start d c \<equiv> along d (cX c) (cY c)"

lemma inside_axis:
  "inside x y c \<longleftrightarrow> (start d c \<le> along d x y \<and> along d x y < start d c + axisSize d c) \<and>
     (start (flip d) c \<le> along (flip d) x y \<and> along (flip d) x y < start (flip d) c + axisSize (flip d) c)"
  by (cases d) (auto simp: inside_def axisSize_def)

lemma borderHere_axis:
  "borderHere r d x y left \<longleftrightarrow> along d x y = start d left + axisSize d left \<and>
     along (flip d) (rX r) (rY r) \<le> along (flip d) x y \<and>
     along (flip d) x y < along (flip d) (rX r) (rY r) + axisLen (flip d) r"
  by (cases d) (auto simp: borderHere_def axisSize_def)

section \<open>Where the children lie\<close>

lemma placedKids_Cons:
  "placedKids d x y (c # cs) \<longleftrightarrow> cX c = x \<and> cY c = y \<and> placed c \<and>
     (\<exists>x' y'. along d x' y' = along d x y + axisSize d c + 1 \<and> along (flip d) x' y' = along (flip d) x y \<and>
        placedKids d x' y' cs)"
  by (cases d) (auto simp: axisSize_def)

lemma sized_axisSize_pos: "sized c \<Longrightarrow> 0 < axisSize a c"
  using minSubtreeSize_le_axisSize [of c a] minSubtreeSize_ge [of c a] sized_branching [of c]
  by (simp add: PaneMinSize_def)

lemma placedKids_start:
  assumes "placedKids d x y cs" "\<forall>c \<in> set cs. 0 < axisSize d c"
  shows "(\<forall>c \<in> set cs. placed c \<and> start (flip d) c = along (flip d) x y \<and> along d x y \<le> start d c) \<and>
    sorted_wrt (\<lambda>c c'. start d c + axisSize d c < start d c') cs"
  using assms
proof (induction cs arbitrary: x y)
  case (Cons c cs)
  from Cons.prems(1) obtain x' y' where
    c: "cX c = x" "cY c = y" "placed c" "along d x' y' = along d x y + axisSize d c + 1"
       "along (flip d) x' y' = along (flip d) x y" "placedKids d x' y' cs"
    unfolding placedKids_Cons by blast
  have "0 < axisSize d c" "\<forall>c \<in> set cs. 0 < axisSize d c" using Cons.prems(2) by auto
  then show ?case using c Cons.IH [OF c(6)] by fastforce
qed auto

text \<open>Along the split, a point of the parent is inside one child or on the cell after one.\<close>

lemma placedKids_cover:
  assumes "placedKids d x y cs" "cs \<noteq> []" "\<forall>c \<in> set cs. 0 < axisSize d c"
    "along d x y \<le> p" "p < along d x y + sum_list (map (axisSize d) cs) + (int (length cs) - 1)"
  shows "(\<exists>c \<in> set cs. start d c \<le> p \<and> p < start d c + axisSize d c) \<or>
    (\<exists>c \<in> set (butlast cs). p = start d c + axisSize d c)"
  using assms
proof (induction cs arbitrary: x y)
  case (Cons c cs)
  from Cons.prems(1) obtain x' y' where
    c: "cX c = x" "cY c = y" "along d x' y' = along d x y + axisSize d c + 1" "placedKids d x' y' cs"
    unfolding placedKids_Cons by blast
  consider "p < along d x y + axisSize d c" | "p = along d x y + axisSize d c" "cs \<noteq> []"
    | "along d x' y' \<le> p" "cs \<noteq> []"
    using Cons.prems c by (cases "cs = []") force+
  then show ?case
  proof cases
    case 3
    then show ?thesis using Cons.IH [OF c(4)] Cons.prems c by auto
  qed (use c Cons.prems in auto)
qed simp

lemma placedKids_bound:
  assumes "placedKids d x y cs" "\<forall>c \<in> set cs. 0 < axisSize d c" "c \<in> set cs"
  shows "start d c + axisSize d c \<le> along d x y + sum_list (map (axisSize d) cs) + (int (length cs) - 1)"
  using assms
proof (induction cs arbitrary: x y)
  case (Cons k cs)
  from Cons.prems(1) obtain x' y' where
    k: "cX k = x" "cY k = y" "along d x' y' = along d x y + axisSize d k + 1" "placedKids d x' y' cs"
    unfolding placedKids_Cons by blast
  have "0 \<le> sum_list (map (axisSize d) cs)"
    using Cons.prems(2) by (intro sum_list_nonneg) force
  then show ?case using Cons.IH [OF k(4)] Cons.prems k by auto
qed simp

text \<open>The children of a well-formed node, with everything the searches need about them.\<close>

lemma node_kids:
  assumes "sized (Node r d cs)" "placed (Node r d cs)"
  shows "\<forall>c \<in> set cs. sized c \<and> placed c \<and> 0 < axisSize d c \<and> start (flip d) c = along (flip d) (rX r) (rY r)
      \<and> axisSize (flip d) c = axisLen (flip d) r \<and> along d (rX r) (rY r) \<le> start d c
      \<and> start d c + axisSize d c \<le> along d (rX r) (rY r) + axisLen d r"
    and "sorted_wrt (\<lambda>c c'. start d c + axisSize d c < start d c') cs"
proof -
  have pos: "\<forall>c \<in> set cs. 0 < axisSize d c" using assms(1) sized_axisSize_pos by auto
  have kids: "placedKids d (rX r) (rY r) cs" using assms(2) by simp
  note st = placedKids_start [OF kids pos] and bd = placedKids_bound [OF kids pos]
  show "\<forall>c \<in> set cs. sized c \<and> placed c \<and> 0 < axisSize d c \<and> start (flip d) c = along (flip d) (rX r) (rY r)
      \<and> axisSize (flip d) c = axisLen (flip d) r \<and> along d (rX r) (rY r) \<le> start d c
      \<and> start d c + axisSize d c \<le> along d (rX r) (rY r) + axisLen d r"
    using assms(1) pos st bd by (auto simp: add.assoc)
  show "sorted_wrt (\<lambda>c c'. start d c + axisSize d c < start d c') cs" using st by blast
qed

lemma inside_child:
  assumes "sized (Node r d cs)" "placed (Node r d cs)" "c \<in> set cs" "inside x y c"
  shows "inside x y (Node r d cs)"
  using node_kids(1) [OF assms(1,2)] assms(3,4) by (fastforce simp: inside_axis [of x y _ d])

lemma inside_one_child:
  assumes "sized (Node r d cs)" "placed (Node r d cs)" "inside x y c" "inside x y c'"
    "i < length cs" "j < length cs" "c = cs ! i" "c' = cs ! j"
  shows "i = j"
proof -
  have *: False if "i < j" "j < length cs" "inside x y (cs ! i)" "inside x y (cs ! j)" for i j
    using node_kids(2) [OF assms(1,2)] that
    by (fastforce simp: sorted_wrt_iff_nth_less inside_axis [of x y _ d])
  show ?thesis using * [of i j] * [of j i] assms by (cases i j rule: linorder_cases) auto
qed

lemma border_not_inside:
  assumes "sized (Node r d cs)" "placed (Node r d cs)" "borderHere r d x y (cs ! i)"
    "i < length cs" "c \<in> set cs"
  shows "\<not> inside x y c"
proof
  assume ins: "inside x y c"
  obtain j where j: "j < length cs" "c = cs ! j" using assms(5) by (metis in_set_conv_nth)
  note s = node_kids(2) [OF assms(1,2), unfolded sorted_wrt_iff_nth_less, rule_format]
  have "0 < axisSize d (cs ! i)" using node_kids(1) [OF assms(1,2)] assms(4) by simp
  then show False
    using s [of i j] s [of j i] assms(3,4) ins j
    by (cases i j rule: linorder_cases) (auto simp: inside_axis [of x y _ d] borderHere_axis)
qed

section \<open>FindLeafAt\<close>

lemma foldr_first:
  "foldr (\<lambda>c rest. case f c of Some l \<Rightarrow> Some l | None \<Rightarrow> rest) cs None =
     (case List.find (\<lambda>c. f c \<noteq> None) cs of None \<Rightarrow> None | Some c \<Rightarrow> f c)"
  by (induction cs) (auto split: option.splits)

lemma FindLeafAt_Node:
  "FindLeafAt x y (Node r d cs) =
     (case List.find (\<lambda>c. FindLeafAt x y c \<noteq> None) cs of None \<Rightarrow> None | Some c \<Rightarrow> FindLeafAt x y c)"
  by (simp add: foldr_first)

lemma FindLeafAt_inside: "FindLeafAt x y c = Some l \<Longrightarrow> l \<in> set (Walk c) \<and> inside x y l"
proof (induction c)
  case (Node r d cs)
  then show ?case
    by (force simp: FindLeafAt_Node find_Some_iff simp del: FindLeafAt.simps split: option.splits)
qed (auto simp: inside_def split: if_splits)

lemma leaf_inside_root:
  "sized c \<Longrightarrow> placed c \<Longrightarrow> l \<in> set (Walk c) \<Longrightarrow> inside x y l \<Longrightarrow> inside x y c"
proof (induction c)
  case (Node r d cs)
  then obtain k where "k \<in> set cs" "l \<in> set (Walk k)" by auto
  then show ?case using Node inside_child [of r d cs k] node_kids(1) [of r d cs] by blast
qed auto

lemma FindLeafAt_complete:
  "sized c \<Longrightarrow> placed c \<Longrightarrow> l \<in> set (Walk c) \<Longrightarrow> inside x y l \<Longrightarrow> FindLeafAt x y c = Some l"
proof (induction c)
  case (Node r d cs)
  then obtain k where "k \<in> set cs" "l \<in> set (Walk k)" by auto
  then obtain j where j: "j < length cs" "l \<in> set (Walk (cs ! j))" by (metis in_set_conv_nth)
  note kids = node_kids(1) [OF Node.prems(1,2)]
  have here: "FindLeafAt x y (cs ! j) = Some l" "inside x y (cs ! j)"
    using Node j kids leaf_inside_root [of "cs ! j"] by auto
  have "FindLeafAt x y (cs ! i) = None" if "i < j" for i
  proof (rule ccontr)
    assume "FindLeafAt x y (cs ! i) \<noteq> None"
    then obtain l' where "FindLeafAt x y (cs ! i) = Some l'" by auto
    then have "inside x y (cs ! i)"
      using FindLeafAt_inside [of x y "cs ! i"] leaf_inside_root [of "cs ! i" l'] kids j that by auto
    then show False using inside_one_child [OF Node.prems(1,2) _ here(2), of "cs ! i" i j] that j by auto
  qed
  then have "List.find (\<lambda>c. FindLeafAt x y c \<noteq> None) cs = Some (cs ! j)"
    using here j by (subst find_Some_iff) (metis option.simps(3))
  then show ?case using here by (simp add: FindLeafAt_Node del: FindLeafAt.simps)
qed (auto simp: inside_def)

lemma FindLeafAt_iff:
  "sized c \<Longrightarrow> placed c \<Longrightarrow> FindLeafAt x y c = Some l \<longleftrightarrow> l \<in> set (Walk c) \<and> inside x y l"
  using FindLeafAt_inside FindLeafAt_complete by blast

section \<open>FindBorderAt\<close>

lemma FindBorderAt_Node_None:
  "FindBorderAt x y (Node r d cs) = None \<longleftrightarrow>
     (\<forall>c \<in> set (butlast cs). \<not> borderHere r d x y c) \<and> (\<forall>c \<in> set cs. FindBorderAt x y c = None)"
proof -
  have z: "snd ` set (zip [0..<length cs - 1] cs) = set (butlast cs)"
    by (metis butlast_conv_take diff_le_self length_upt list.set_map map_snd_zip_take min.absorb1 minus_nat.diff_0)
  have f: "foldr (\<lambda>(i, child) rest. case FindBorderAt x y child of
        Some hit \<Rightarrow> Some (hit\<lparr>hitPath := i # hitPath hit\<rparr>) | None \<Rightarrow> rest) zs None = None \<longleftrightarrow>
      (\<forall>c \<in> snd ` set zs. FindBorderAt x y c = None)" for zs :: "(nat \<times> LayoutCell) list"
    by (induction zs) (auto split: option.splits)
  have "snd ` set (zip [0..<length cs] cs) = set cs"
    by (metis length_map list.set_map map_nth map_snd_zip)
  then have kids: "foldr (\<lambda>(i, child) rest. case FindBorderAt x y child of
        Some hit \<Rightarrow> Some (hit\<lparr>hitPath := i # hitPath hit\<rparr>) | None \<Rightarrow> rest) (zip [0..<length cs] cs) None = None
      \<longleftrightarrow> (\<forall>c \<in> set cs. FindBorderAt x y c = None)" by (simp add: f)
  have "List.find (\<lambda>(i, left). borderHere r d x y left) (zip [0..<length cs - 1] cs) = None \<longleftrightarrow>
      (\<forall>c \<in> set (butlast cs). \<not> borderHere r d x y c)"
    unfolding find_None_iff z [symmetric] by auto
  then show ?thesis unfolding FindBorderAt.simps using kids
    by (cases "List.find (\<lambda>(i, left). borderHere r d x y left) (zip [0..<length cs - 1] cs)") auto
qed

lemma set_butlastE:
  assumes "c \<in> set (butlast cs)"
  obtains i where "Suc i < length cs" "c = cs ! i"
proof -
  obtain i where "i < length cs - 1" "c = butlast cs ! i"
    using assms by (metis in_set_conv_nth length_butlast)
  then show ?thesis using that [of i] by (simp add: nth_butlast)
qed

lemma FindBorderAt_inside: "sized c \<Longrightarrow> placed c \<Longrightarrow> FindBorderAt x y c \<noteq> None \<Longrightarrow> inside x y c"
proof (induction c)
  case (Node r d cs)
  note kids = node_kids(1) [OF Node.prems(1,2)] and so = node_kids(2) [OF Node.prems(1,2)]
  consider i where "Suc i < length cs" "borderHere r d x y (cs ! i)"
    | c where "c \<in> set cs" "FindBorderAt x y c \<noteq> None"
    using Node.prems(3) set_butlastE [of _ cs] unfolding FindBorderAt_Node_None by metis
  then show ?case
  proof cases
    case 1
    then have "start d (cs ! i) + axisSize d (cs ! i) < start d (cs ! Suc i)"
      using so by (simp add: sorted_wrt_iff_nth_less)
    then show ?thesis using kids [rule_format, of "cs ! i"] kids [rule_format, of "cs ! Suc i"] 1
      by (auto simp: borderHere_axis inside_axis [of x y _ d])
  next
    case 2
    then show ?thesis using Node inside_child [of r d cs c] kids by blast
  qed
qed simp

text \<open>Inside a child, the node answers both questions the way the child does.\<close>

lemma find_in_child:
  assumes s: "sized (Node r d cs)" and pl: "placed (Node r d cs)" and c: "c \<in> set cs" and ins: "inside x y c"
  shows "FindLeafAt x y (Node r d cs) = None \<longleftrightarrow> FindLeafAt x y c = None"
    and "FindBorderAt x y (Node r d cs) = None \<longleftrightarrow> FindBorderAt x y c = None"
proof -
  note kids = node_kids(1) [OF s pl]
  obtain j where j: "j < length cs" "c = cs ! j" using c by (metis in_set_conv_nth)
  have only: "k = c" if "k \<in> set cs" "inside x y k" for k
    using inside_one_child [OF s pl ins that(2) j(1) _ j(2)] that(1) j(2) by (metis in_set_conv_nth)
  have "l \<in> set (Walk (Node r d cs)) \<and> inside x y l \<longleftrightarrow> l \<in> set (Walk c) \<and> inside x y l" for l
  proof -
    have "k = c" if "k \<in> set cs" "l \<in> set (Walk k)" "inside x y l" for k
      using that only kids leaf_inside_root [of k l x y] by blast
    then show ?thesis using c by auto
  qed
  then show "FindLeafAt x y (Node r d cs) = None \<longleftrightarrow> FindLeafAt x y c = None"
    using FindLeafAt_iff [OF s pl, of x y] FindLeafAt_iff [of c x y] c kids by (metis not_None_eq)
  have "\<not> borderHere r d x y k" if "k \<in> set (butlast cs)" for k
    using border_not_inside [OF s pl] ins c that by (metis in_set_butlastD in_set_conv_nth)
  moreover have "FindBorderAt x y k = None" if "k \<in> set cs" "k \<noteq> c" for k
    using FindBorderAt_inside [of k] kids that only by blast
  ultimately show "FindBorderAt x y (Node r d cs) = None \<longleftrightarrow> FindBorderAt x y c = None"
    using c unfolding FindBorderAt_Node_None by blast
qed

lemma FindLeafAt_FindBorderAt:
  "sized c \<Longrightarrow> placed c \<Longrightarrow> inside x y c \<Longrightarrow> FindLeafAt x y c = None \<longleftrightarrow> FindBorderAt x y c \<noteq> None"
proof (induction c)
  case (Node r d cs)
  note kids = node_kids(1) [OF Node.prems(1,2)]
  have "cs \<noteq> []" "placedKids d (rX r) (rY r) cs" using Node.prems by auto
  then consider c where "c \<in> set cs" "start d c \<le> along d x y" "along d x y < start d c + axisSize d c"
    | c where "c \<in> set (butlast cs)" "along d x y = start d c + axisSize d c"
    using placedKids_cover [of d "rX r" "rY r" cs "along d x y"] kids Node.prems
    by (auto simp: inside_axis [of x y _ d])
  then show ?case
  proof cases
    case 1
    then have ins: "inside x y c"
      using kids Node.prems(3) by (auto simp: inside_axis [of x y _ d])
    have "FindLeafAt x y c = None \<longleftrightarrow> FindBorderAt x y c \<noteq> None"
      using Node.IH [OF 1(1)] kids 1(1) ins by blast
    then show ?thesis using find_in_child [OF Node.prems(1,2) 1(1) ins] by simp
  next
    case 2
    then have b: "borderHere r d x y c"
      using Node.prems(3) by (auto simp: borderHere_axis inside_axis [of x y _ d])
    then have no: "\<not> inside x y k" if "k \<in> set cs" for k
      using border_not_inside [OF Node.prems(1,2)] that 2 by (metis in_set_butlastD in_set_conv_nth)
    have "FindLeafAt x y (Node r d cs) = None"
    proof (rule ccontr)
      assume "FindLeafAt x y (Node r d cs) \<noteq> None"
      then obtain l where l: "FindLeafAt x y (Node r d cs) = Some l" by blast
      then obtain k where "k \<in> set cs" "l \<in> set (Walk k)" "inside x y l"
        using FindLeafAt_inside [OF l] by auto
      then show False using kids no leaf_inside_root [of k l x y] by blast
    qed
    then show ?thesis using b 2 FindBorderAt_Node_None by blast
  qed
qed (auto simp: inside_def)

section \<open>Properties\<close>

text \<open>
  C31. Hit testing partitions the layout: a point inside it lies in exactly one pane cell, which
  \<^verbatim>\<open>FindLeafAt\<close> returns, or on a border, which \<^verbatim>\<open>FindBorderAt\<close> finds, and never in both.
\<close>

theorem hit_test_partition:
  assumes "sized c" "placed c" "inside x y c"
  shows "(\<exists>l. l \<in> set (Walk c) \<and> inside x y l \<and> (\<forall>l' \<in> set (Walk c). inside x y l' \<longrightarrow> l' = l) \<and>
      FindLeafAt x y c = Some l \<and> FindBorderAt x y c = None) \<or>
    (\<forall>l \<in> set (Walk c). \<not> inside x y l) \<and> FindLeafAt x y c = None \<and> FindBorderAt x y c \<noteq> None"
proof (cases "FindLeafAt x y c")
  case None
  then show ?thesis using FindLeafAt_FindBorderAt [OF assms] FindLeafAt_complete [OF assms(1,2)] by force
next
  case (Some l)
  then have "l' \<in> set (Walk c) \<and> inside x y l' \<longleftrightarrow> l' = l" for l'
    using FindLeafAt_iff [OF assms(1,2), of x y] by (metis option.inject)
  then show ?thesis using Some FindLeafAt_FindBorderAt [OF assms] by auto
qed

theorem hit_test_partition_witness:
  "FindLeafAt 40 3 two_columns = None \<and> FindBorderAt 40 3 two_columns \<noteq> None \<and> filter (inside 40 3) (Walk two_columns) = []"
proof -
  have "sized two_columns" "placed two_columns" "inside 40 3 two_columns" "FindLeafAt 40 3 two_columns = None" by code_simp+
  then show ?thesis using hit_test_partition [of two_columns 40 3] by (auto simp: filter_empty_conv)
qed

end
