(* ===== verification/Layout_Edit.thy ===== *)
theory Layout_Edit
  imports Layout_Query
begin

text \<open>
  Structural edits of the layout tree (\<^verbatim>\<open>layout.go\<close>: \<^verbatim>\<open>FindPane\<close>, \<^verbatim>\<open>splitWithOrder\<close>,
  \<^verbatim>\<open>Close\<close>). A cell pointer with its \<^verbatim>\<open>Parent\<close> chain is a path from the root; an edit of a
  cell and its parent is an edit of the tree at a path.
\<close>

section \<open>Paths\<close>

fun getAt :: "nat list \<Rightarrow> LayoutCell \<Rightarrow> LayoutCell option" where
  "getAt [] c = Some c"
| "getAt (i # p) (Leaf r l) = None"
| "getAt (i # p) (Node r d cs) = (if i < length cs then getAt p (cs ! i) else None)"

fun updAt :: "nat list \<Rightarrow> (LayoutCell \<Rightarrow> LayoutCell) \<Rightarrow> LayoutCell \<Rightarrow> LayoutCell" where
  "updAt [] f c = f c"
| "updAt (i # p) f (Leaf r l) = Leaf r l"
| "updAt (i # p) f (Node r d cs) = (if i < length cs then Node r d (cs[i := updAt p f (cs ! i)]) else Node r d cs)"

fun WalkAt :: "LayoutCell \<Rightarrow> (nat list \<times> LayoutCell) list" where
  "WalkAt (Leaf r l) = [([], Leaf r l)]"
| "WalkAt (Node r d cs) =
     concat (map (\<lambda>(i, c). map (\<lambda>(p, leaf). (i # p, leaf)) (WalkAt c)) (zip [0..<length cs] cs))"

definition lastMatch :: "('a \<Rightarrow> bool) \<Rightarrow> 'a list \<Rightarrow> 'a option" where
  "lastMatch P xs = foldl (\<lambda>found x. if P x then Some x else found) None xs"

definition FindPane :: "uint32 \<Rightarrow> LayoutCell \<Rightarrow> (nat list \<times> LayoutCell) option" where
  "FindPane paneID c =
     lastMatch (\<lambda>(p, leaf). case cellPane leaf of Some q \<Rightarrow> pane_ID q = paneID | None \<Rightarrow> False) (WalkAt c)"

definition FindByPaneID :: "uint32 \<Rightarrow> LayoutCell \<Rightarrow> (nat list \<times> LayoutCell) option" where
  "FindByPaneID paneID c = lastMatch (\<lambda>(p, leaf). CellPaneID leaf = paneID) (WalkAt c)"

definition IndexInParent :: "nat list \<Rightarrow> int" where
  "IndexInParent p = (if p = [] then - 1 else int (last p))"

section \<open>Splitting a leaf\<close>

datatype layout_error =
    ErrSplitNonLeaf
  | ErrNoSpace int int

text \<open>
  The two cases of \<^verbatim>\<open>splitWithOrder\<close>. \<open>insertSibling\<close> is case A, on the parent; \<open>wrapLeaf\<close>
  is case B, on the leaf itself.
\<close>

fun insertSibling :: "nat \<Rightarrow> pane option \<Rightarrow> LayoutCell \<Rightarrow> LayoutCell" where
  "insertSibling insertIdx newPane (Leaf r l) = Leaf r l"
| "insertSibling insertIdx newPane (Node r d cs) =
     distributeEqual (Node r d (insertAt insertIdx (NewLeaf newPane 0 0 0 0) cs))"

definition wrapLeaf :: "SplitDir \<Rightarrow> pane option \<Rightarrow> bool \<Rightarrow> LayoutCell \<Rightarrow> LayoutCell" where
  "wrapLeaf dir newPane insertFirst c =
     (let available = axisSize dir c;
          size2 = go_div (available - 1) 2;
          size1 = available - 1 - size2;
          oldPane = cellPane c;
          (pane1, pane2) = (if insertFirst then (newPane, oldPane) else (oldPane, newPane))
      in Node (rectOf c) dir
           (if dir = SplitVertical then
              [NewLeaf pane1 (cX c) (cY c) size1 (cH c),
               NewLeaf pane2 (cX c + size1 + 1) (cY c) size2 (cH c)]
            else
              [NewLeaf pane1 (cX c) (cY c) (cW c) size1,
               NewLeaf pane2 (cX c) (cY c + size1 + 1) (cW c) size2]))"

text \<open>
  \<^verbatim>\<open>splitWithOrder\<close> on the cell at a path: an error, or the new tree with the paths of the new
  leaf and of the leaf that holds the existing pane.
\<close>

definition splitWithOrder ::
  "nat list \<Rightarrow> SplitDir \<Rightarrow> pane option \<Rightarrow> bool \<Rightarrow> LayoutCell \<Rightarrow>
     layout_error + (LayoutCell \<times> nat list \<times> nat list)" where
  "splitWithOrder p dir newPane insertFirst root =
     (let c = the (getAt p root);
          available = axisSize dir c
      in if \<not> IsLeaf c then Inl ErrSplitNonLeaf
         else if available < 2 * PaneMinSize + 1 then Inl (ErrNoSpace available (2 * PaneMinSize + 1))
         else if p \<noteq> [] \<and> splitAxis dir (the (getAt (butlast p) root)) then
           (let idx = last p;
                insertIdx = (if insertFirst then idx else idx + 1);
                existing = (if insertFirst then idx + 1 else idx)
            in Inr (updAt (butlast p) (insertSibling insertIdx newPane) root,
                    butlast p @ [insertIdx], butlast p @ [existing]))
         else
           Inr (updAt p (wrapLeaf dir newPane insertFirst) root,
                p @ [if insertFirst then 0 else 1], p @ [if insertFirst then 1 else 0]))"

definition Split ::
  "nat list \<Rightarrow> SplitDir \<Rightarrow> pane option \<Rightarrow> LayoutCell \<Rightarrow>
     layout_error + (LayoutCell \<times> nat list \<times> nat list)" where
  "Split p dir newPane root = splitWithOrder p dir newPane False root"

section \<open>Closing a leaf\<close>

text \<open>
  \<open>closeChild\<close> is \<^verbatim>\<open>Close\<close> seen from the parent: the cell that takes the parent's place in the
  tree, and the path from it to the cell that is returned.
\<close>

fun closeChild :: "nat \<Rightarrow> LayoutCell \<Rightarrow> LayoutCell \<times> nat list option" where
  "closeChild idx (Leaf r l) = (Leaf r l, None)"
| "closeChild idx (Node r d cs) =
     (let cs' = removeAt idx cs;
          recipient = (if idx < length cs' then Some [idx]
                       else if length cs' > 0 then Some [length cs' - 1] else None);
          parent = (if length cs' > 0 then rebalanceChildren (Node r d cs') else Node r d cs')
      in if length cs' = 1 then (setRect r (hd (Children parent)), Some [])
         else (parent, recipient))"

definition CloseCell :: "nat list \<Rightarrow> LayoutCell \<Rightarrow> LayoutCell \<times> nat list option" where
  "CloseCell p root =
     (if p = [] then (root, None)
      else let parent = butlast p; idx = last p in
        (updAt parent (\<lambda>c. fst (closeChild idx c)) root,
         map_option (\<lambda>q. parent @ q) (snd (closeChild idx (the (getAt parent root))))))"


section \<open>Editing at a path\<close>

text \<open>
  An edit that keeps the size of the cell it edits keeps the geometry of the whole tree, and
  changes the pane sequence only there.
\<close>

lemma getAt_append: "getAt (p @ q) c = (case getAt p c of None \<Rightarrow> None | Some k \<Rightarrow> getAt q k)"
  by (induction p c rule: getAt.induct) auto

lemma getAt_sized: "sized c \<Longrightarrow> getAt p c = Some k \<Longrightarrow> sized k"
  by (induction p c rule: getAt.induct) (auto split: if_splits)

lemma rectOf_updAt: "p \<noteq> [] \<Longrightarrow> rectOf (updAt p f c) = rectOf c"
  by (cases p; cases c) auto

lemma sized_updAt:
  assumes "sized c" "getAt p c = Some k" "sized (f k)" "\<And>a. axisSize a (f k) = axisSize a k"
  shows "sized (updAt p f c) \<and> (\<forall>a. axisSize a (updAt p f c) = axisSize a c)"
  using assms
proof (induction p f c rule: updAt.induct)
  case (3 i p f r d cs)
  then have i: "i < length cs" "getAt p (cs ! i) = Some k" by (auto split: if_splits)
  note IH = "3.IH" [OF i(1) _ i(2)]
  have kid: "sized (updAt p f (cs ! i))" "\<forall>a. axisSize a (updAt p f (cs ! i)) = axisSize a (cs ! i)"
    using IH 3 i by auto
  have "sum_list (map (axisSize d) (cs[i := updAt p f (cs ! i)])) = sum_list (map (axisSize d) cs)"
    using i kid by (simp add: sum_list_update_int)
  moreover have "\<forall>c \<in> set (cs[i := updAt p f (cs ! i)]). sized c \<and> axisSize (flip d) c = axisLen (flip d) r"
    using kid i "3.prems"(1) by (auto dest!: subsetD [OF set_update_subset_insert])
  ultimately show ?case using i "3.prems"(1) by simp
qed auto

lemma leafPanes_list_update:
  assumes "i < length cs"
  shows "concat (map leafPanes (cs[i := k])) =
    concat (map leafPanes (take i cs)) @ leafPanes k @ concat (map leafPanes (drop (Suc i) cs))"
  using assms by (simp add: upd_conv_take_nth_drop)

lemma leafPanes_updAt:
  assumes "getAt p c = Some k"
  obtains pre post where "leafPanes c = pre @ leafPanes k @ post"
    "\<And>f. leafPanes (updAt p f c) = pre @ leafPanes (f k) @ post"
  using assms
proof (induction p c arbitrary: thesis rule: getAt.induct)
  case (1 c)
  then show ?case using "1.prems"(1) [of "[]" "[]"] by simp
next
  case (3 i p r d cs)
  then have i: "i < length cs" "getAt p (cs ! i) = Some k" by (auto split: if_splits)
  obtain pre post where io: "leafPanes (cs ! i) = pre @ leafPanes k @ post"
    "\<And>f. leafPanes (updAt p f (cs ! i)) = pre @ leafPanes (f k) @ post"
    using "3.IH" [OF i(1) _ i(2)] by blast
  have "leafPanes (Node r d cs) = concat (map leafPanes (cs[i := cs ! i]))" by simp
  also have "\<dots> = concat (map leafPanes (take i cs)) @ leafPanes (cs ! i) @ concat (map leafPanes (drop (Suc i) cs))"
    using i(1) by (rule leafPanes_list_update)
  finally show ?case
    using "3.prems"(1) [of "concat (map leafPanes (take i cs)) @ pre" "post @ concat (map leafPanes (drop (Suc i) cs))"] io i(1)
    by (simp add: leafPanes_list_update)
qed simp

lemma getAt_updAt: "getAt p c = Some k \<Longrightarrow> getAt p (updAt p f c) = Some (f k)"
  by (induction p f c rule: updAt.induct) (auto split: if_splits)

lemma shape_updAt: "getAt p c = Some k \<Longrightarrow> shape (f k) = shape k \<Longrightarrow> shape (updAt p f c) = shape c"
proof (induction p f c rule: updAt.induct)
  case (3 i p f r d cs)
  then have i: "i < length cs" "shape (updAt p f (cs ! i)) = shape (cs ! i)" by (auto split: if_splits)
  then show ?case by (simp add: map_update) (metis list_update_id map_update)
qed auto

lemma getAt_take:
  assumes "getAt p c = Some l" "n < length p"
  shows "\<exists>r d cs. getAt (take n p) c = Some (Node r d cs) \<and> p ! n < length cs"
proof -
  have "getAt (take n p @ p ! n # drop (Suc n) p) c = Some l"
    using assms by (simp add: id_take_nth_drop [symmetric])
  then show ?thesis
    by (cases "getAt (take n p) c"; cases "the (getAt (take n p) c)") (auto simp: getAt_append split: if_splits)
qed

text \<open>An edit that keeps a cell's size and shape keeps the tree's geometry and panes.\<close>

lemma updAt_same_shape:
  assumes "sized c" "getAt p c = Some k" "sized (f k)" "rectOf (f k) = rectOf k" "shape (f k) = shape k"
  shows "sized (updAt p f c)" "rectOf (updAt p f c) = rectOf c" "shape (updAt p f c) = shape c"
proof -
  show "sized (updAt p f c)" using sized_updAt [OF assms(1,2), of f] assms(3,4) by (simp add: axisSize_def)
  show "rectOf (updAt p f c) = rectOf c" using assms(2,4) rectOf_updAt by (cases "p = []") auto
  show "shape (updAt p f c) = shape c" using assms(2,5) by (rule shape_updAt)
qed

section \<open>Finding panes\<close>

lemma lastMatch_Some: "lastMatch P xs = Some x \<Longrightarrow> x \<in> set xs \<and> P x"
  by (induction xs rule: rev_induct) (auto simp: lastMatch_def split: if_splits)

lemma lastMatch_None: "lastMatch P xs = None \<longleftrightarrow> (\<forall>x \<in> set xs. \<not> P x)"
  by (induction xs rule: rev_induct) (auto simp: lastMatch_def)

lemma map_snd_WalkAt: "map snd (WalkAt c) = Walk c"
proof (induction c)
  case (Node r d cs)
  have "map snd (WalkAt (Node r d cs)) = concat (map (\<lambda>(i, c). map snd (WalkAt c)) (zip [0..<length cs] cs))"
    by (auto simp: map_concat o_def intro!: arg_cong [where f = concat])
  also have "\<dots> = concat (map Walk cs)"
    using Node by (intro arg_cong [where f = concat] nth_equalityI) auto
  finally show ?case by simp
qed simp

lemma WalkAt_getAt: "(p, l) \<in> set (WalkAt c) \<Longrightarrow> getAt p c = Some l \<and> IsLeaf l"
proof (induction c arbitrary: p)
  case (Node r d cs)
  then obtain i q where "p = i # q" "i < length cs" "(q, l) \<in> set (WalkAt (cs ! i))"
    by (auto simp: set_zip)
  then show ?case using Node.IH [of "cs ! i" q] by simp
qed auto

lemma getAt_WalkAt: "getAt p c = Some l \<Longrightarrow> IsLeaf l \<Longrightarrow> (p, l) \<in> set (WalkAt c)"
proof (induction p c rule: getAt.induct)
  case (3 i p r d cs)
  then have "i < length cs" "(p, l) \<in> set (WalkAt (cs ! i))" by (auto split: if_splits)
  then show ?case by (force simp: set_zip)
qed (auto elim: IsLeaf.elims)

lemma FindPane_Some:
  assumes "FindPane i c = Some (p, l)"
  obtains q r lf where "getAt p c = Some l" "l = Leaf r lf" "Pane lf = Some q" "cellPane l = Some q" "pane_ID q = i"
proof -
  have "(p, l) \<in> set (WalkAt c)" "case cellPane l of Some q \<Rightarrow> pane_ID q = i | None \<Rightarrow> False"
    using lastMatch_Some [OF assms [unfolded FindPane_def]] by auto
  then show ?thesis using WalkAt_getAt [of p l c] that by (cases l) (auto split: option.splits)
qed

lemma set_leafPanes: "q \<in> set (leafPanes c) \<longleftrightarrow> (\<exists>l \<in> set (Walk c). cellPane l = Some q)"
  by (auto simp: leafPanes_def map_filter_def intro!: image_eqI [rotated])

lemma FindPane_None: "FindPane i c = None \<longleftrightarrow> i \<notin> pane_ID ` set (leafPanes c)"
proof -
  have "FindPane i c = None \<longleftrightarrow> (\<forall>l \<in> set (map snd (WalkAt c)). \<forall>q. cellPane l = Some q \<longrightarrow> pane_ID q \<noteq> i)"
    unfolding FindPane_def lastMatch_None by (fastforce split: option.splits)
  then show ?thesis unfolding map_snd_WalkAt by (metis (no_types, opaque_lifting) imageE imageI set_leafPanes)
qed

text \<open>Every leaf shows a pane: the layouts of the split tree (not of the ultra grid).\<close>

fun occupied :: "LayoutCell \<Rightarrow> bool" where
  "occupied (Leaf r l) = (Pane l \<noteq> None)"
| "occupied (Node r d cs) = (\<forall>c \<in> set cs. occupied c)"

lemma occupied_shape [simp]: "occupied (shape c) = occupied c"
  by (induction c) auto

lemma occupied_cong: "shape c = shape c' \<Longrightarrow> occupied c = occupied c'"
  by (metis occupied_shape)

lemma occupied_getAt: "occupied c \<Longrightarrow> getAt p c = Some k \<Longrightarrow> occupied k"
  by (induction p c rule: getAt.induct) (auto split: if_splits)

lemma occupied_updAt: "occupied c \<Longrightarrow> getAt p c = Some k \<Longrightarrow> occupied (f k) \<Longrightarrow> occupied (updAt p f c)"
  by (induction p f c rule: updAt.induct)
    (auto split: if_splits dest!: subsetD [OF set_update_subset_insert])

lemma occupied_ne: "branching c \<Longrightarrow> occupied c \<Longrightarrow> leafPanes c \<noteq> []"
proof (induction c)
  case (Node r d cs)
  then have "hd cs \<in> set cs" by (cases cs) auto
  then show ?case using Node by force
qed auto

section \<open>Splitting\<close>

lemma NewLeaf_simps [simp]:
  "shape (NewLeaf q x y w h) = Leaf (mkRect 0 0 0 0) \<lparr>Pane = q, PaneID = 0, Slot = 0, LeadSlot = False\<rparr>"
  "leafPanes (NewLeaf q x y w h) = (case q of None \<Rightarrow> [] | Some p \<Rightarrow> [p])"
  "cellPane (NewLeaf q x y w h) = q"
  "occupied (NewLeaf q x y w h) = (q \<noteq> None)"
  "rectOf (NewLeaf q x y w h) = mkRect x y w h"
  "branching (NewLeaf q x y w h)"
  "minSubtreeSize a (NewLeaf q x y w h) = PaneMinSize"
  "sized (NewLeaf q x y w h) \<longleftrightarrow> PaneMinSize \<le> w \<and> PaneMinSize \<le> h"
  "IsLeaf (NewLeaf q x y w h)"
  by (auto simp: NewLeaf_def mkRect_def split: option.splits)

lemma mkRect_simps [simp]:
  "rX (mkRect x y w h) = x" "rY (mkRect x y w h) = y" "rW (mkRect x y w h) = w" "rH (mkRect x y w h) = h"
  "axisLen a (mkRect x y w h) = dims w h a"
  by (cases a; simp add: mkRect_def)+

lemma leafPanes_map_shape: "map shape cs = map shape cs' \<Longrightarrow> map leafPanes cs = map leafPanes cs'"
proof -
  have "map leafPanes xs = map leafPanes (map shape xs)" for xs by simp
  then show "map shape cs = map shape cs' \<Longrightarrow> map leafPanes cs = map leafPanes cs'" by metis
qed

lemma sized_flip_min:
  assumes "sized (Node r d cs)"
  shows "c \<in> set cs \<Longrightarrow> minSubtreeSize (flip d) c \<le> axisLen (flip d) r" "PaneMinSize \<le> axisLen (flip d) r"
proof -
  show *: "minSubtreeSize (flip d) c \<le> axisLen (flip d) r" if "c \<in> set cs" for c
    using assms that minSubtreeSize_le_axisSize [of c "flip d"] by auto
  have "hd cs \<in> set cs" "branching (hd cs)" using assms sized_branching by (cases cs; auto)+
  then show "PaneMinSize \<le> axisLen (flip d) r" using * [of "hd cs"] minSubtreeSize_ge [of "hd cs" "flip d"] by linarith
qed

text \<open>A new sibling always fits next to a child that is wide enough to be split.\<close>

lemma insertSibling_props:
  assumes s: "sized (Node r d cs)" and idx: "idx < length cs" "PaneMinSize + PaneMinSize + 1 \<le> axisSize d (cs ! idx)"
    "minSubtreeSize d (cs ! idx) = PaneMinSize"
  obtains cs' where "insertSibling i q (Node r d cs) = Node r d cs'" "sized (Node r d cs')"
    "map shape cs' = map shape (insertAt i (NewLeaf q 0 0 0 0) cs)"
proof -
  let ?cs = "insertAt i (NewLeaf q 0 0 0 0) cs"
  have br: "\<forall>c \<in> set cs. branching c" using sized_branching [OF s] by simp
  have le: "minSubtreeSize d c \<le> axisSize d c" if "c \<in> set cs" for c
    using s that minSubtreeSize_le_axisSize by simp
  have "sum_list (map (minSubtreeSize d) cs) + (PaneMinSize + 1) \<le> sum_list (map (axisSize d) cs)"
  proof -
    have "sum_list (map (minSubtreeSize d) (take idx cs)) \<le> sum_list (map (axisSize d) (take idx cs))"
      "sum_list (map (minSubtreeSize d) (drop (Suc idx) cs)) \<le> sum_list (map (axisSize d) (drop (Suc idx) cs))"
      by (intro sum_list_mono le; auto dest: in_set_takeD in_set_dropD)+
    then show ?thesis using idx by (simp add: sum_list_split [OF idx(1)])
  qed
  then have "sum_list (map (minSubtreeSize d) ?cs) + (int (length ?cs) - 1) \<le> axisLen d r"
    using s by (simp add: sum_list_insertAt)
  moreover have "\<And>c. c \<in> set ?cs \<Longrightarrow> minSubtreeSize (flip d) c \<le> axisLen (flip d) r"
    using sized_flip_min [OF s] by auto
  moreover have "2 \<le> length ?cs" "\<forall>c \<in> set ?cs. branching c" using s br by auto
  ultimately obtain sizes where
    "equalMinSizes (map (minSubtreeSize d) ?cs) (axisLen d r) = Some sizes"
    "sized (Node r d (resizeChildrenTo r d ?cs sizes))"
    "map shape (resizeChildrenTo r d ?cs sizes) = map shape ?cs"
    using equal_split.sized_alloc_children [of ?cs d r] by metis
  moreover have "?cs \<noteq> []" by (metis length_insertAt list.size(3) nat.distinct(1))
  ultimately show ?thesis
    using that [of "resizeChildrenTo r d ?cs sizes"] by (simp add: equalSubtreeSplitSizes_def)
qed

declare insertSibling.simps [simp del]

lemma wrapLeaf_props:
  assumes "sized c" "2 * PaneMinSize + 1 \<le> axisSize dir c"
  shows "sized (wrapLeaf dir q before c)" "rectOf (wrapLeaf dir q before c) = rectOf c"
    "\<exists>k1 k2. wrapLeaf dir q before c = Node (rectOf c) dir [k1, k2] \<and> IsLeaf k1 \<and> IsLeaf k2 \<and>
       cellPane k1 = (if before then q else cellPane c) \<and> cellPane k2 = (if before then cellPane c else q)"
proof -
  define n where "n = axisSize dir c"
  have "minSubtreeSize a c \<le> axisSize a c" "PaneMinSize \<le> minSubtreeSize a c" for a
    using assms(1) minSubtreeSize_le_axisSize minSubtreeSize_ge sized_branching by auto
  then have "PaneMinSize \<le> cW c" "PaneMinSize \<le> cH c"
    unfolding axisSize_def by (metis axisLen.simps order_trans)+
  moreover have "go_div (n - 1) 2 = (n - 1) div 2" "PaneMinSize \<le> (n - 1) div 2" "PaneMinSize \<le> n - 1 - (n - 1) div 2"
    using assms(2) by (auto simp: PaneMinSize_def n_def)
  ultimately show "sized (wrapLeaf dir q before c)"
    by (cases dir) (auto simp: wrapLeaf_def Let_def axisSize_def n_def split: if_splits)
  show "rectOf (wrapLeaf dir q before c) = rectOf c"
    by (simp add: wrapLeaf_def Let_def split: prod.splits)
  show "\<exists>k1 k2. wrapLeaf dir q before c = Node (rectOf c) dir [k1, k2] \<and> IsLeaf k1 \<and> IsLeaf k2 \<and>
       cellPane k1 = (if before then q else cellPane c) \<and> cellPane k2 = (if before then cellPane c else q)"
    by (auto simp: wrapLeaf_def Let_def)
qed

lemma leafPanes_insertAt:
  "map shape cs' = map shape (insertAt i k cs) \<Longrightarrow>
     concat (map leafPanes cs') = concat (map leafPanes (take i cs)) @ leafPanes k @ concat (map leafPanes (drop i cs))"
  using leafPanes_map_shape [of cs' "insertAt i k cs"] by (simp add: insertAt_def)

text \<open>
  What a successful split did: the geometry is kept, the tree's rectangle is unchanged, and the
  new pane stands next to the pane that was split.
\<close>

lemma getAt_snoc:
  "p \<noteq> [] \<Longrightarrow> getAt p c = Some k \<longleftrightarrow>
    (\<exists>r d cs. getAt (butlast p) c = Some (Node r d cs) \<and> last p < length cs \<and> cs ! last p = k)"
proof -
  assume "p \<noteq> []"
  then have "getAt p c = getAt (butlast p @ [last p]) c" by simp
  then show ?thesis
    by (cases "getAt (butlast p) c"; cases "the (getAt (butlast p) c)") (auto simp: getAt_append split: if_splits)
qed

lemma splitWithOrder_sibling:
  fixes np :: pane
  assumes s: "sized root" and p: "p \<noteq> []" "getAt p root = Some (Leaf r l)" "Pane l = Some q"
    and par: "getAt (butlast p) root = Some (Node pr dir cs)" and room: "2 * PaneMinSize + 1 \<le> axisLen dir r"
    and i: "i = (if before then last p else Suc (last p))"
  defines "root' \<equiv> updAt (butlast p) (insertSibling i (Some np)) root"
  shows "sized root' \<and> (\<forall>a. axisSize a root' = axisSize a root) \<and> (occupied root \<longrightarrow> occupied root') \<and>
    (\<exists>pre post. leafPanes root = pre @ [q] @ post \<and>
       leafPanes root' = pre @ (if before then [np, q] else [q, np]) @ post)"
proof -
  have leaf: "last p < length cs" "cs ! last p = Leaf r l"
    using p par getAt_snoc [OF p(1), of root "Leaf r l"] by auto
  have sn: "sized (Node pr dir cs)" using getAt_sized [OF s par] .
  have wide: "PaneMinSize + PaneMinSize + 1 \<le> axisSize dir (cs ! last p)"
    "minSubtreeSize dir (cs ! last p) = PaneMinSize" using leaf room by simp_all
  obtain cs' where cs': "insertSibling i (Some np) (Node pr dir cs) = Node pr dir cs'" "sized (Node pr dir cs')"
    "map shape cs' = map shape (insertAt i (NewLeaf (Some np) 0 0 0 0) cs)"
    using insertSibling_props [OF sn leaf(1) wide] by blast
  have geo: "sized root' \<and> (\<forall>a. axisSize a root' = axisSize a root)"
    unfolding root'_def by (rule sized_updAt [OF s par]) (use cs'(2) in \<open>simp_all add: cs'(1)\<close>)
  have occ: "occupied root'" if "occupied root"
  proof -
    have "\<forall>c \<in> set cs. occupied c" using occupied_getAt [OF that par] by simp
    then have "list_all occupied (map shape cs')" unfolding cs'(3) by (auto simp: list_all_iff)
    then show ?thesis unfolding root'_def by (intro occupied_updAt [OF that par]) (simp add: cs'(1) list_all_iff)
  qed
  obtain pre post where pp: "leafPanes root = pre @ leafPanes (Node pr dir cs) @ post"
    "leafPanes root' = pre @ leafPanes (Node pr dir cs') @ post"
    using leafPanes_updAt [OF par] cs'(1) unfolding root'_def by metis
  define A B where "A = concat (map leafPanes (take (last p) cs))" and "B = concat (map leafPanes (drop (Suc (last p)) cs))"
  have "leafPanes (Node pr dir cs) = concat (map leafPanes (take (last p) cs @ cs ! last p # drop (Suc (last p)) cs))"
    using id_take_nth_drop [OF leaf(1)] by simp
  then have old: "leafPanes (Node pr dir cs) = A @ [q] @ B" using leaf p(3) by (simp add: A_def B_def)
  have "leafPanes (Node pr dir cs') = A @ (if before then [np, q] else [q, np]) @ B"
  proof (cases before)
    case True
    then show ?thesis using leafPanes_insertAt [OF cs'(3)] leaf i p(3)
      by (simp add: A_def B_def Cons_nth_drop_Suc [symmetric])
  next
    case False
    then show ?thesis using leafPanes_insertAt [OF cs'(3)] leaf i p(3)
      by (simp add: A_def B_def take_Suc_conv_app_nth)
  qed
  then have "leafPanes root = (pre @ A) @ [q] @ (B @ post)"
    "leafPanes root' = (pre @ A) @ (if before then [np, q] else [q, np]) @ (B @ post)"
    using pp old by simp_all
  then show ?thesis using geo occ by blast
qed

lemma splitWithOrder_props:
  assumes s: "sized root" and p: "getAt p root = Some (Leaf r l)" "Pane l = Some q"
    and split: "splitWithOrder p dir (Some np) before root = Inr (root', np_path, ex_path)"
  shows "sized root' \<and> (\<forall>a. axisSize a root' = axisSize a root) \<and> (occupied root \<longrightarrow> occupied root') \<and>
    (\<exists>pre post. leafPanes root = pre @ [q] @ post \<and>
       leafPanes root' = pre @ (if before then [np, q] else [q, np]) @ post)"
proof -
  have room: "2 * PaneMinSize + 1 \<le> axisLen dir r"
    using split p by (auto simp: splitWithOrder_def Let_def split: if_splits)
  show ?thesis
  proof (cases "p \<noteq> [] \<and> splitAxis dir (the (getAt (butlast p) root))")
    case True
    then obtain pr cs where par: "getAt (butlast p) root = Some (Node pr dir cs)"
      using p getAt_snoc [of p root "Leaf r l"] by auto
    have "root' = updAt (butlast p) (insertSibling (if before then last p else Suc (last p)) (Some np)) root"
      using split True p room by (auto simp: splitWithOrder_def Let_def)
    then show ?thesis using splitWithOrder_sibling [OF s _ p par room refl] True by metis
  next
    case False
    then have root': "root' = updAt p (wrapLeaf dir (Some np) before) root"
      using split p room by (auto simp: splitWithOrder_def Let_def)
    have sl: "sized (Leaf r l)" using getAt_sized [OF s p(1)] .
    note w = wrapLeaf_props [OF sl, of dir "Some np" before, simplified, OF room]
    obtain k1 k2 where k: "wrapLeaf dir (Some np) before (Leaf r l) = Node r dir [k1, k2]" "IsLeaf k1" "IsLeaf k2"
      "cellPane k1 = (if before then Some np else Some q)" "cellPane k2 = (if before then Some q else Some np)"
      using w(3) p(2) by auto
    have lp: "leafPanes k = (case cellPane k of None \<Rightarrow> [] | Some x \<Rightarrow> [x])" "occupied k = (cellPane k \<noteq> None)"
      if "IsLeaf k" for k using that by (cases k; simp)+
    have "sized root' \<and> (\<forall>a. axisSize a root' = axisSize a root)"
      unfolding root' by (rule sized_updAt [OF s p(1)]) (use w(1,2) in \<open>simp_all add: axisSize_def\<close>)
    moreover have "occupied root'" if "occupied root"
      unfolding root' by (rule occupied_updAt [OF that p(1)]) (use k lp in auto)
    moreover obtain pre post where "leafPanes root = pre @ leafPanes (Leaf r l) @ post"
      "leafPanes root' = pre @ leafPanes (wrapLeaf dir (Some np) before (Leaf r l)) @ post"
      using leafPanes_updAt [OF p(1)] unfolding root' by metis
    ultimately show ?thesis using k lp [of k1] lp [of k2] p(2) by (cases before) auto
  qed
qed

lemma rectOf_insertSibling: "rectOf (insertSibling i q c) = rectOf c"
  by (cases c) (auto simp: insertSibling.simps split: option.splits)

lemma rectOf_splitWithOrder:
  assumes "splitWithOrder p dir q before root = Inr (root', np_path, ex_path)" "getAt p root \<noteq> None"
  shows "rectOf root' = rectOf root"
proof -
  have "rectOf (updAt p f root) = rectOf root" if "\<And>c. rectOf (f c) = rectOf c" for p f
    using that rectOf_updAt by (cases "p = []") auto
  moreover have "rectOf (wrapLeaf dir q before c) = rectOf c" for c
    by (simp add: wrapLeaf_def Let_def split: prod.splits)
  ultimately show ?thesis using assms(1) by (auto simp: splitWithOrder_def Let_def rectOf_insertSibling split: if_splits)
qed

section \<open>Closing\<close>

lemma sized_setRect: "(\<And>a. axisLen a r = axisSize a c) \<Longrightarrow> sized (setRect r c) = sized c"
  by (cases c) (auto simp: axis_all sized_Leaf_axis simp del: sized.simps(1))

lemma getAt_leafPanes: "getAt p c = Some l \<Longrightarrow> cellPane l = Some q \<Longrightarrow> q \<in> set (leafPanes c)"
  by (rule leafPanes_updAt [of p c l], assumption) (cases l; auto)

lemma resize_only_child:
  assumes "branching k" "minSubtreeSize d k \<le> axisLen d r" "minSubtreeSize (flip d) k \<le> axisLen (flip d) r"
  obtains k' where "rebalanceChildren (Node r d [k]) = Node r d [k']" "sized k'" "shape k' = shape k"
    "\<And>a. axisSize a k' = axisLen a r"
proof -
  have ok: "minimums_ok [minSubtreeSize d k]"
    using minSubtreeSize_ge [OF assms(1), of d] by (simp add: minimums_ok_def PaneMinSize_def)
  obtain sizes where sizes: "equalMinSizes [minSubtreeSize d k] (axisLen d r) = Some sizes" "length sizes = 1"
      "sum_list sizes = axisLen d r"
    using equal_split.alloc_fits [OF ok, of "axisLen d r"] assms(2) by auto
  then have "sizes = [axisLen d r]" by (cases sizes) auto
  then have eq: "rebalanceChildren (Node r d [k]) = Node r d [ResizeSubtree (rW r) (rH r) k]"
    using sizes(1) by (cases d) (simp_all add: rebalanceChildren_def equalSubtreeSplitSizes_def resizeChildrenTo_def)
  have "axisSize a (ResizeSubtree (rW r) (rH r) k) = axisLen a r" for a
  proof -
    have "minSubtreeSize b k \<le> dims (rW r) (rH r) b" for b
      using assms(2,3) by (cases d; cases b) auto
    then show ?thesis using ResizeSubtree_exact [OF assms(1)] by (cases a) auto
  qed
  then show ?thesis using that [OF eq] ResizeSubtree_props [OF assms(1)] by simp
qed

text \<open>
  Closing a leaf keeps the geometry: its parent's rectangle stays, or is taken over by the one
  child that is left, and the cell that is handed back is in the new tree.
\<close>

lemma fits_removeAt:
  assumes s: "sized (Node r d cs)" and idx: "idx < length cs"
  shows "sum_list (map (minSubtreeSize d) (removeAt idx cs)) + (int (length (removeAt idx cs)) - 1) \<le> axisLen d r"
proof -
  have "sum_list (map (minSubtreeSize d) cs) + (int (length cs) - 1) \<le> axisLen d r"
    using minSubtreeSize_le_axisSize [OF s, of d] s by (auto split: if_splits)
  moreover have "0 \<le> minSubtreeSize d (cs ! idx)"
    using sized_branching [OF s] idx minSubtreeSize_nonneg by simp
  ultimately show ?thesis using idx by (simp add: sum_list_removeAt)
qed

text \<open>Rebalancing two or more children keeps the node's rectangle and its children's shapes.\<close>

lemma rebalanceChildren_props:
  assumes br: "\<forall>c \<in> set cs. branching c" and room: "\<And>c. c \<in> set cs \<Longrightarrow> minSubtreeSize (flip d) c \<le> axisLen (flip d) r"
    and fits: "sum_list (map (minSubtreeSize d) cs) + (int (length cs) - 1) \<le> axisLen d r" and len: "2 \<le> length cs"
  obtains ks where "rebalanceChildren (Node r d cs) = Node r d ks" "sized (Node r d ks)" "map shape ks = map shape cs"
proof -
  obtain sizes where sizes: "equalMinSizes (map (minSubtreeSize d) cs) (axisLen d r) = Some sizes"
    "sized (Node r d (resizeChildrenTo r d cs sizes))"
    "map shape (resizeChildrenTo r d cs sizes) = map shape cs"
    using equal_split.sized_alloc_children [of cs d r] br room fits len by metis
  have "cs \<noteq> []" using len by auto
  then show thesis
    using that sizes by (simp add: rebalanceChildren_def equalSubtreeSplitSizes_def)
qed

lemma closeChild_props:
  assumes s: "sized (Node r d cs)" and idx: "idx < length cs"
    and close: "closeChild idx (Node r d cs) = (k, res)"
  shows "sized k" "rectOf k = r" "\<exists>q l. res = Some q \<and> getAt q k = Some l"
    "leafPanes k = concat (map leafPanes (removeAt idx cs))"
    "(\<forall>c \<in> set cs. occupied c) \<longrightarrow> occupied k"
proof -
  let ?cs = "removeAt idx cs"
  have sub: "set ?cs \<subseteq> set cs" by (rule set_removeAt)
  have br: "\<forall>c \<in> set ?cs. branching c" using sub sized_branching [OF s] by auto
  have room: "minSubtreeSize (flip d) c \<le> axisLen (flip d) r" if "c \<in> set ?cs" for c
    using sized_flip_min(1) [OF s] sub that by auto
  note fits = fits_removeAt [OF s idx]
  have len: "length ?cs = length cs - 1" "1 \<le> length ?cs" using idx s by auto
  have "sized k \<and> rectOf k = r \<and> (\<exists>q l. res = Some q \<and> getAt q k = Some l) \<and>
    leafPanes k = concat (map leafPanes ?cs) \<and> ((\<forall>c \<in> set cs. occupied c) \<longrightarrow> occupied k)"
  proof (cases "length ?cs = 1")
    case True
    then obtain c where c: "?cs = [c]" by (auto simp: length_Suc_conv)
    then obtain k' where k': "rebalanceChildren (Node r d [c]) = Node r d [k']" "sized k'" "shape k' = shape c"
      "\<And>a. axisSize a k' = axisLen a r"
      using resize_only_child [of c d r] br room fits by auto
    then have k: "k = setRect r k'" "res = Some []"
      using close c by (auto simp: Let_def simp del: distributeEqual_eq)
    have "shape k = shape c" using k k'(3) by simp
    then have "leafPanes k = leafPanes c" "occupied k = occupied c" by (metis leafPanes_cong, metis occupied_cong)
    moreover have "sized k" unfolding k using k'(2,4) by (subst sized_setRect) auto
    ultimately show ?thesis using k c sub by auto
  next
    case False
    then have "2 \<le> length ?cs" using len by simp
    then obtain ks where ks: "rebalanceChildren (Node r d ?cs) = Node r d ks" "sized (Node r d ks)"
      "map shape ks = map shape ?cs"
      using rebalanceChildren_props [OF br room fits] by blast
    have k: "k = Node r d ks" "\<exists>i < length ?cs. res = Some [i]"
      using close ks(1) False len by (auto simp: Let_def simp del: distributeEqual_eq length_removeAt split: if_splits)
    have "length ks = length ?cs" using ks(3) by (metis length_map)
    then have "\<exists>q l. res = Some q \<and> getAt q k = Some l" using k by auto
    moreover have "leafPanes k = concat (map leafPanes ?cs)"
      using leafPanes_map_shape [OF ks(3)] k by simp
    moreover have "occupied k" if "\<forall>c \<in> set cs. occupied c"
    proof -
      have "list_all occupied (map shape ks)" unfolding ks(3) using that sub by (auto simp: list_all_iff)
      then show ?thesis using k by (simp add: list_all_iff)
    qed
    ultimately show ?thesis using k ks(2) by simp
  qed
  then show "sized k" "rectOf k = r" "\<exists>q l. res = Some q \<and> getAt q k = Some l"
    "leafPanes k = concat (map leafPanes ?cs)" "(\<forall>c \<in> set cs. occupied c) \<longrightarrow> occupied k" by auto
qed

declare closeChild.simps [simp del]

lemma CloseCell_props:
  assumes s: "sized root" and p: "p \<noteq> []" "getAt p root = Some (Leaf r l)" "Pane l = Some q"
    and close: "CloseCell p root = (root', res)"
  shows "sized root'" "rectOf root' = rectOf root" "\<exists>rp k. res = Some rp \<and> getAt rp root' = Some k"
    "\<exists>pre post. leafPanes root = pre @ [q] @ post \<and> leafPanes root' = pre @ post"
    "occupied root \<longrightarrow> occupied root'"
proof -
  obtain pr d cs where par: "getAt (butlast p) root = Some (Node pr d cs)" and i: "last p < length cs" "cs ! last p = Leaf r l"
    using p(2) getAt_snoc [OF p(1)] by metis
  have sn: "sized (Node pr d cs)" using getAt_sized [OF s par] .
  obtain k kr where kr: "closeChild (last p) (Node pr d cs) = (k, kr)" by fastforce
  note cp = closeChild_props [OF sn i(1) kr]
  have root': "root' = updAt (butlast p) (\<lambda>c. fst (closeChild (last p) c)) root" "res = map_option (\<lambda>q. butlast p @ q) kr"
    using close p(1) par kr by (auto simp: CloseCell_def Let_def)
  show "sized root'"
    unfolding root' using sized_updAt [OF s par, of "\<lambda>c. fst (closeChild (last p) c)"] cp(1,2) kr by (simp add: axisSize_def)
  show "rectOf root' = rectOf root"
  proof (cases "butlast p = []")
    case True
    then show ?thesis using root' par cp(2) kr by simp
  qed (simp add: root' rectOf_updAt)
  show "\<exists>rp k. res = Some rp \<and> getAt rp root' = Some k"
    using cp(3) root' getAt_updAt [OF par, of "\<lambda>c. fst (closeChild (last p) c)"] kr by (auto simp: getAt_append)
  show "occupied root \<longrightarrow> occupied root'"
    using occupied_updAt [OF _ par, of "\<lambda>c. fst (closeChild (last p) c)"] occupied_getAt [OF _ par] cp(5) root' kr by auto
  obtain pre post where pp: "leafPanes root = pre @ leafPanes (Node pr d cs) @ post" "leafPanes root' = pre @ leafPanes k @ post"
    using leafPanes_updAt [OF par] kr unfolding root' by (metis fst_conv)
  have "leafPanes (Node pr d cs) = concat (map leafPanes (take (last p) cs @ cs ! last p # drop (Suc (last p)) cs))"
    using id_take_nth_drop [OF i(1)] by simp
  then show "\<exists>pre post. leafPanes root = pre @ [q] @ post \<and> leafPanes root' = pre @ post"
    using pp cp(4) i(2) p(3)
    by (intro exI [of _ "pre @ concat (map leafPanes (take (last p) cs))"]
        exI [of _ "concat (map leafPanes (drop (Suc (last p)) cs)) @ post"]) (simp add: removeAt_def)
qed

section \<open>Properties\<close>

lemma updAt_fixed: "getAt p c = Some k \<Longrightarrow> f k = k \<Longrightarrow> updAt p f c = c"
  by (induction p f c rule: updAt.induct) (auto split: if_splits)

lemma closeChild_only_leaf:
  assumes "removeAt i cs = [Leaf r0 l]"
  shows "closeChild i (Node r d cs) = (Leaf r l, Some [])"
proof -
  obtain r1 where "Children (equalizeChildren (Node r d [Leaf r0 l])) = [Leaf r1 l]"
  proof (cases "equalSubtreeSplitSizes [Leaf r0 l] d (axisLen d r)")
    case None
    then show ?thesis using that [of r0] by simp
  next
    case (Some sizes)
    then obtain n where "sizes = [n]" using length_equalSubtreeSplitSizes [OF Some] by (auto simp: length_Suc_conv)
    then show ?thesis using that Some by (cases d) (simp_all add: resizeChildrenTo_def Let_def)
  qed
  then show ?thesis using assms by (simp add: closeChild.simps rebalanceChildren_def Let_def del: equalizeChildren.simps)
qed

lemma updAt_updAt: "updAt p f (updAt p g c) = updAt p (f \<circ> g) c"
  by (induction p g c rule: updAt.induct) (auto simp: list_update_swap)

text \<open>
  Splitting a cell succeeds exactly when it has room for two minimal panes and a border. The
  tree keeps its size and stays well sized, the new pane is next to the existing one, and every
  other pane keeps its place.
\<close>

theorem splitWithOrder_correct:
  assumes "sized root" "getAt p root = Some (Leaf r l)" "Pane l = Some q"
  shows "if axisSize dir (Leaf r l) < 2 * PaneMinSize + 1
    then splitWithOrder p dir (Some np) insertFirst root =
      Inl (ErrNoSpace (axisSize dir (Leaf r l)) (2 * PaneMinSize + 1))
    else \<exists>root' newPath existingPath pre post.
      splitWithOrder p dir (Some np) insertFirst root = Inr (root', newPath, existingPath) \<and>
      sized root' \<and> rectOf root' = rectOf root \<and>
      leafPanes root = pre @ [q] @ post \<and>
      leafPanes root' = pre @ (if insertFirst then [np, q] else [q, np]) @ post"
proof (cases "axisSize dir (Leaf r l) < 2 * PaneMinSize + 1")
  case True
  then show ?thesis using assms(2) by (simp add: splitWithOrder_def Let_def)
next
  case False
  then obtain root' np_path ex_path where s: "splitWithOrder p dir (Some np) insertFirst root = Inr (root', np_path, ex_path)"
    using assms(2) by (cases "splitWithOrder p dir (Some np) insertFirst root")
      (auto simp: splitWithOrder_def Let_def split: if_splits)
  have "rectOf root' = rectOf root" using rectOf_splitWithOrder [OF s] assms(2) by simp
  then show ?thesis using splitWithOrder_props [OF assms s] s False by auto
qed

theorem splitWithOrder_correct_witness:
  "let q = \<lparr>pane_ptr = 1, pane_ID = 1, pane_Name = [], pane_Host = [], pane_IsProxy = False\<rparr>;
       root = NewLeaf (Some q) 0 0 80 24
   in \<exists>root' newPath existingPath. splitWithOrder [] SplitVertical (Some (q\<lparr>pane_ID := 2\<rparr>)) False root =
        Inr (root', newPath, existingPath) \<and> leafPanes root' = [q, q\<lparr>pane_ID := 2\<rparr>]"
proof -
  let ?q = "\<lparr>pane_ptr = 1, pane_ID = 1, pane_Name = [], pane_Host = [], pane_IsProxy = False\<rparr>"
  have "sized (NewLeaf (Some ?q) 0 0 80 24)" "\<not> axisSize SplitVertical (NewLeaf (Some ?q) 0 0 80 24) < 2 * PaneMinSize + 1"
    by code_simp+
  then show ?thesis
    using splitWithOrder_correct [of "NewLeaf (Some ?q) 0 0 80 24" "[]" "mkRect 0 0 80 24"
        "\<lparr>Pane = Some ?q, PaneID = 0, Slot = 0, LeadSlot = False\<rparr>" ?q SplitVertical "?q\<lparr>pane_ID := 2\<rparr>" False]
    by (auto simp: NewLeaf_def Let_def Cons_eq_append_conv)
qed

text \<open>
  Closing a leaf gives its space back: the rest of the tree fills the same rectangle, only the
  closed pane is gone, and the cell that is returned to take the focus is in the tree.
\<close>

theorem CloseCell_correct:
  assumes "sized root" "p \<noteq> []" "getAt p root = Some (Leaf r l)" "Pane l = Some q"
  shows "case CloseCell p root of (root', result) \<Rightarrow>
    sized root' \<and> rectOf root' = rectOf root \<and>
    (\<exists>pre post. leafPanes root = pre @ [q] @ post \<and> leafPanes root' = pre @ post) \<and>
    (\<exists>path cell. result = Some path \<and> getAt path root' = Some cell)"
  using CloseCell_props [OF assms] by (auto split: prod.splits)

theorem CloseCell_correct_witness:
  "let q = \<lparr>pane_ptr = 1, pane_ID = 1, pane_Name = [], pane_Host = [], pane_IsProxy = False\<rparr>
   in leafPanes (fst (CloseCell [0] (Node (mkRect 0 0 81 24) SplitVertical [NewLeaf (Some q) 0 0 40 24, NewLeaf None 41 0 40 24]))) = []"
proof -
  let ?q = "\<lparr>pane_ptr = 1, pane_ID = 1, pane_Name = [], pane_Host = [], pane_IsProxy = False\<rparr>"
  let ?root = "Node (mkRect 0 0 81 24) SplitVertical [NewLeaf (Some ?q) 0 0 40 24, NewLeaf None 41 0 40 24]"
  have "sized ?root" by code_simp
  then show ?thesis
    using CloseCell_correct [of ?root "[0]" "mkRect 0 0 40 24" "\<lparr>Pane = Some ?q, PaneID = 0, Slot = 0, LeadSlot = False\<rparr>" ?q]
    by (auto simp: NewLeaf_def Let_def Cons_eq_append_conv split: prod.splits)
qed

text \<open>
  Closing the pane that a split has just added in a new direction restores the tree: the same
  cells with the same rectangles.
\<close>

theorem CloseCell_undoes_split:
  assumes leaf: "getAt p root = Some (NewLeaf q x y w h)"
    and dir: "p = [] \<or> \<not> splitAxis dir (the (getAt (butlast p) root))"
    and split: "splitWithOrder p dir np insertFirst root = Inr (root', newPath, existingPath)"
    and sz: "PaneMinSize \<le> w" "PaneMinSize \<le> h"
  shows "CloseCell newPath root' = (root, Some p)"
proof -
  have r': "root' = updAt p (wrapLeaf dir np insertFirst) root" and n: "newPath = p @ [if insertFirst then 0 else 1]"
    using split leaf dir by (auto simp: splitWithOrder_def Let_def NewLeaf_def split: if_splits)
  let ?i = "if insertFirst then 0 else 1 :: nat" and ?w = "wrapLeaf dir np insertFirst (NewLeaf q x y w h)"
  have cc: "closeChild ?i ?w = (NewLeaf q x y w h, Some [])"
    by (cases insertFirst; cases dir)
      (simp_all add: wrapLeaf_def Let_def NewLeaf_def closeChild_only_leaf removeAt_def mkRect_def)
  have "getAt p root' = Some ?w" unfolding r' by (rule getAt_updAt [OF leaf])
  moreover have "updAt p (\<lambda>c. fst (closeChild ?i c)) root' = root"
    unfolding r' updAt_updAt using updAt_fixed [OF leaf] cc by simp
  ultimately show ?thesis using cc by (simp add: CloseCell_def n)
qed

theorem CloseCell_undoes_split_witness:
  "let root = NewLeaf None 0 0 80 24
   in CloseCell [1] (fst (projr (splitWithOrder [] SplitVertical None False root))) = (root, Some [])"
proof -
  let ?root = "NewLeaf None 0 0 80 24"
  obtain root' where "splitWithOrder [] SplitVertical None False ?root = Inr (root', [1], [0])"
    by (simp add: splitWithOrder_def Let_def NewLeaf_def axisSize_def PaneMinSize_def mkRect_def)
  then show ?thesis
    using CloseCell_undoes_split [of "[]" ?root None 0 0 80 24 SplitVertical None False root' "[1]" "[0]"]
    by (simp add: Let_def PaneMinSize_def)
qed

end
