(* ===== verification/Window_State.thy ===== *)
theory Window_State
  imports Layout_Edit
begin

text \<open>
  The state of a window (\<^verbatim>\<open>window.go\<close>, \<^verbatim>\<open>lead.go\<close>) and the parts every operation uses: the
  store of pane objects, resizing of terminals, focus, zoom and the lead pane.

  A window operation takes the window and returns a result with the new window. An error is a
  value, and the window that comes with it is the window the code leaves behind when it returns
  that error. A Go run-time panic (a nil dereference) is the error \<open>Panic\<close>.
\<close>

section \<open>State\<close>

text \<open>The mutable fields of a pane object that the window code touches (\<^verbatim>\<open>pane.go\<close>).\<close>

record pane_state =
  ActivePoint :: uint64
  emulator :: "(int \<times> int) option"
  paneHistorySeq :: uint64
  ptmx :: bool

record UltraLayout =
  Rows :: int
  Cols :: int
  Page :: int
  Slots :: "pane option list"
  AutoPromote :: bool

text \<open>
  The fields of \<^verbatim>\<open>Window\<close>, and after them what the operations reach outside it: the package's
  focus counter, the store of panes, and the outcomes of the successive \<^verbatim>\<open>pty.Setsize\<close> calls
  (a third-party package: \<open>setsizeFails n\<close> says whether call \<open>n\<close> fails, and is arbitrary).
  \<^verbatim>\<open>Root\<close> is never nil: \<^verbatim>\<open>NewWindow\<close> sets it and every assignment stores a cell.
\<close>

record window =
  win_ID :: uint32
  win_Name :: string
  Root :: LayoutCell
  ActivePane :: "pane option"
  Width :: int
  Height :: int
  ZoomedPaneID :: uint32
  LeadPaneID :: uint32
  Ultra :: "UltraLayout option"
  ultraLead :: "pane option"
  activePointCounter :: uint64
  heap :: "nat \<Rightarrow> pane_state"
  setsizeFails :: "nat \<Rightarrow> bool"
  setsizeCalls :: nat

record SplitOptions =
  KeepFocus :: bool
  TreatLeadPaneAsWindowRef :: bool

definition defaultSplitOptions :: SplitOptions where
  "defaultSplitOptions = \<lparr>KeepFocus = False, TreatLeadPaneAsWindowRef = False\<rparr>"

datatype werror =
    Panic
  | ErrSetsize
  | ErrLayout layout_error
  | ErrSpace int int
  | ErrLeadPane
  | ErrNotFound uint32
  | ErrLastPane
  | ErrNotZoomed
  | ErrZoomOnePane
  | ErrUltraLayout
  | ErrNotUltra
  | ErrUltraGrid
  | ErrPageRange int
  | ErrNoPanes
  | ErrNoLead
  | ErrNoRootSplit
  | ErrNoSplitGroup uint32
  | ErrSameGroup uint32 uint32
  | ErrAlreadyFirst uint32
  | ErrAlreadyLast uint32
  | ErrActiveNotFound
  | ErrNothingToSplice
  | ErrMissingRoot
  | ErrMissingSubtree
  | ErrSpliceSpace int int
  | ErrNoSplicedPanes string
  | ErrAcrossLead
  | ErrColumnSpace int int

type_synonym 'a wres = "(werror + 'a) \<times> window"

definition ok :: "'a \<Rightarrow> window \<Rightarrow> 'a wres" where
  "ok x w = (Inr x, w)"

definition err :: "werror \<Rightarrow> window \<Rightarrow> 'a wres" where
  "err e w = (Inl e, w)"

text \<open>\<open>m\<close>, and unless it returned an error, \<open>k\<close> on its result.\<close>

definition andThen :: "(window \<Rightarrow> 'a wres) \<Rightarrow> ('a \<Rightarrow> window \<Rightarrow> 'b wres) \<Rightarrow> window \<Rightarrow> 'b wres" where
  "andThen m k w = (case m w of (Inl e, w') \<Rightarrow> (Inl e, w') | (Inr x, w') \<Rightarrow> k x w')"

section \<open>Terminals\<close>

definition StatusLineRows :: int where
  "StatusLineRows = 1"

definition PaneContentHeight :: "int \<Rightarrow> int" where
  "PaneContentHeight cellH = (let h = cellH - StatusLineRows in if h < 1 then 1 else h)"

text \<open>The emulator keeps its size as two \<^verbatim>\<open>int32\<close> values (\<^verbatim>\<open>vtEmulator.Resize\<close>).\<close>

definition int32 :: "int \<Rightarrow> int" where
  "int32 n = signed_take_bit 31 n"

abbreviation paneAt :: "pane \<Rightarrow> window \<Rightarrow> pane_state" where
  "paneAt p w \<equiv> heap w (pane_ptr p)"

abbreviation storePane :: "pane \<Rightarrow> pane_state \<Rightarrow> window \<Rightarrow> window" where
  "storePane p s w \<equiv> w\<lparr>heap := (heap w)(pane_ptr p := s)\<rparr>"

definition EmulatorSize :: "pane \<Rightarrow> window \<Rightarrow> int \<times> int" where
  "EmulatorSize p w = (case emulator (paneAt p w) of Some s \<Rightarrow> s | None \<Rightarrow> (0, 0))"

definition resizePTY :: "pane \<Rightarrow> int \<Rightarrow> int \<Rightarrow> window \<Rightarrow> unit wres" where
  "resizePTY p cols rows w =
     (if \<not> ptmx (paneAt p w) then ok () w
      else let w' = w\<lparr>setsizeCalls := setsizeCalls w + 1\<rparr>
           in if setsizeFails w (setsizeCalls w) then err ErrSetsize w' else ok () w')"

definition Pane_Resize :: "pane \<Rightarrow> int \<Rightarrow> int \<Rightarrow> window \<Rightarrow> unit wres" where
  "Pane_Resize p cols rows w =
     (let s = paneAt p w;
          sizeChanged = (case emulator s of None \<Rightarrow> True | Some cur \<Rightarrow> cur \<noteq> (cols, rows));
          s1 = (case emulator s of None \<Rightarrow> s | Some cur \<Rightarrow> s\<lparr>emulator := Some (int32 cols, int32 rows)\<rparr>)
      in if sizeChanged
         then resizePTY p cols rows (storePane p (s1\<lparr>paneHistorySeq := paneHistorySeq s1 + 1\<rparr>) w)
         else ok () (storePane p s1 w))"

definition resizeLeafPTY :: "uint32 \<Rightarrow> LayoutCell \<Rightarrow> window \<Rightarrow> window" where
  "resizeLeafPTY excludedPaneID c w =
     (case cellPane c of
        None \<Rightarrow> w
      | Some p \<Rightarrow> if excludedPaneID \<noteq> 0 \<and> pane_ID p = excludedPaneID then w
                  else snd (Pane_Resize p (cW c) (PaneContentHeight (cH c)) w))"

definition resizePTYsExcept :: "uint32 \<Rightarrow> window \<Rightarrow> window" where
  "resizePTYsExcept excludedPaneID w = fold (resizeLeafPTY excludedPaneID) (Walk (Root w)) w"

definition resizePTYs :: "window \<Rightarrow> window" where
  "resizePTYs w = resizePTYsExcept 0 w"

definition restoreZoomedPaneSize :: "window \<Rightarrow> window" where
  "restoreZoomedPaneSize w =
     (if ZoomedPaneID w = 0 then w
      else case FindPane (ZoomedPaneID w) (Root w) of
             Some (p, cell) \<Rightarrow>
               (case cellPane cell of
                  Some q \<Rightarrow>
                    (let targetRows = PaneContentHeight (Height w) in
                     if EmulatorSize q w = (Width w, targetRows) then w
                     else snd (Pane_Resize q (Width w) targetRows w))
                | None \<Rightarrow> w)
           | None \<Rightarrow> w)"

definition resizePTYsPreservingZoomedPaneSize :: "window \<Rightarrow> window" where
  "resizePTYsPreservingZoomedPaneSize w =
     (if ZoomedPaneID w = 0 then resizePTYs w
      else restoreZoomedPaneSize (resizePTYsExcept (ZoomedPaneID w) w))"

section \<open>Focus, zoom and lead\<close>

definition setActive :: "pane \<Rightarrow> window \<Rightarrow> window" where
  "setActive p w =
     (let n = activePointCounter w + 1 in
      storePane p ((paneAt p w)\<lparr>ActivePoint := n\<rparr>) (w\<lparr>ActivePane := Some p, activePointCounter := n\<rparr>))"

definition NewWindow :: "pane \<Rightarrow> int \<Rightarrow> int \<Rightarrow> window \<Rightarrow> window" where
  "NewWindow p width height w =
     w\<lparr>win_ID := 0, win_Name := [], Root := NewLeaf (Some p) 0 0 width height, ActivePane := Some p,
       Width := width, Height := height, ZoomedPaneID := 0, LeadPaneID := 0, Ultra := None, ultraLead := None\<rparr>"

definition mustFindPane :: "uint32 \<Rightarrow> window \<Rightarrow> (nat list \<times> LayoutCell) wres" where
  "mustFindPane paneID w =
     (case FindPane paneID (Root w) of Some hit \<Rightarrow> ok hit w | None \<Rightarrow> err (ErrNotFound paneID) w)"

definition shouldKeepZoomedPaneSize :: "uint32 \<Rightarrow> SplitOptions \<Rightarrow> window \<Rightarrow> bool" where
  "shouldKeepZoomedPaneSize paneID opts w \<longleftrightarrow>
     KeepFocus opts \<and> ZoomedPaneID w \<noteq> 0 \<and> paneID = ZoomedPaneID w"

definition Unzoom :: "window \<Rightarrow> unit wres" where
  "Unzoom w =
     (if ZoomedPaneID w = 0 then err ErrNotZoomed w
      else let paneID = ZoomedPaneID w; w1 = w\<lparr>ZoomedPaneID := 0\<rparr> in
        case FindPane paneID (Root w) of
          Some (p, cell) \<Rightarrow>
            (case cellPane cell of
               Some q \<Rightarrow> Pane_Resize q (cW cell) (PaneContentHeight (cH cell)) w1
             | None \<Rightarrow> ok () w1)
        | None \<Rightarrow> ok () w1)"

text \<open>The prologue many operations share: unzoom when something is zoomed.\<close>

definition unzoomIf :: "bool \<Rightarrow> window \<Rightarrow> unit wres" where
  "unzoomIf b w = (if ZoomedPaneID w \<noteq> 0 \<and> b then Unzoom w else ok () w)"

definition IsLeadPane :: "uint32 \<Rightarrow> window \<Rightarrow> bool" where
  "IsLeadPane paneID w \<longleftrightarrow> LeadPaneID w \<noteq> 0 \<and> LeadPaneID w = paneID"

definition cellHasPaneID :: "uint32 \<Rightarrow> LayoutCell \<Rightarrow> bool" where
  "cellHasPaneID paneID c \<longleftrightarrow> (case cellPane c of Some p \<Rightarrow> pane_ID p = paneID | None \<Rightarrow> False)"

definition hasAnchoredLead :: "window \<Rightarrow> bool" where
  "hasAnchoredLead w \<longleftrightarrow> LeadPaneID w \<noteq> 0 \<and>
     (case Root w of
        Leaf r l \<Rightarrow> False
      | Node r d cs \<Rightarrow> d = SplitVertical \<and> length cs = 2 \<and> IsLeaf (hd cs) \<and> cellHasPaneID (LeadPaneID w) (hd cs))"

text \<open>\<^verbatim>\<open>logicalRoot\<close> and \<^verbatim>\<open>logicalRootTarget\<close>: the path of the cell, which also gives its parent.\<close>

definition logicalRootPath :: "window \<Rightarrow> nat list" where
  "logicalRootPath w = (if hasAnchoredLead w then [1] else [])"

definition logicalRoot :: "window \<Rightarrow> LayoutCell" where
  "logicalRoot w = (if hasAnchoredLead w then Children (Root w) ! 1 else Root w)"

definition leadColumn :: "window \<Rightarrow> LayoutCell option" where
  "leadColumn w = (if hasAnchoredLead w then Some (Children (Root w) ! 0) else None)"

definition hasPendingLead :: "window \<Rightarrow> bool" where
  "hasPendingLead w \<longleftrightarrow> LeadPaneID w \<noteq> 0 \<and> IsLeaf (Root w) \<and> cellHasPaneID (LeadPaneID w) (Root w)"

definition firstPaneInSubtree :: "LayoutCell \<Rightarrow> pane option" where
  "firstPaneInSubtree root = (case leafPanes root of [] \<Rightarrow> None | p # ps \<Rightarrow> Some p)"

definition finishTreeMutation :: "window \<Rightarrow> window" where
  "finishTreeMutation w = resizePTYs (w\<lparr>Root := FixOffsets (Root w)\<rparr>)"

definition finishTreeMutationPreservingZoomedPaneSize :: "window \<Rightarrow> window" where
  "finishTreeMutationPreservingZoomedPaneSize w =
     resizePTYsPreservingZoomedPaneSize (w\<lparr>Root := FixOffsets (Root w)\<rparr>)"

end
