(* ===== verification/Window_Laws.thy ===== *)
theory Window_Laws
  imports Window_State
begin

text \<open>
  What resizing terminals, focusing and unzooming change and leave alone, and the invariant of
  a window in split layout that the code's randomized tests check after every operation
  (\<^verbatim>\<open>invariants_test.go\<close>): geometry, pane collection, active pane, terminal sizes.
\<close>

section \<open>Frames\<close>

lemmas wres_simps [simp] = ok_def err_def

lemma andThen_simps [simp]:
  "m w = (Inl e, w') \<Longrightarrow> andThen m k w = (Inl e, w')"
  "m w = (Inr x, w') \<Longrightarrow> andThen m k w = k x w'"
  by (simp_all add: andThen_def)

lemma andThen_split:
  "P (andThen m k w) \<longleftrightarrow> (\<forall>e w'. m w = (Inl e, w') \<longrightarrow> P (Inl e, w')) \<and>
     (\<forall>x w'. m w = (Inr x, w') \<longrightarrow> P (k x w'))"
  by (auto simp: andThen_def split: prod.splits sum.splits)

lemma resizePTY_frame:
  "\<exists>n. snd (resizePTY p cols rows w) = w\<lparr>setsizeCalls := n\<rparr>"
  by (auto simp: resizePTY_def Let_def intro: exI [of _ "setsizeCalls w"])

lemma Pane_Resize_frame:
  "\<exists>h n. snd (Pane_Resize p cols rows w) = w\<lparr>heap := h, setsizeCalls := n\<rparr>"
proof -
  have "\<exists>n. snd (resizePTY p cols rows (w\<lparr>heap := h\<rparr>)) = w\<lparr>heap := h, setsizeCalls := n\<rparr>" for h
    using resizePTY_frame [of p cols rows "w\<lparr>heap := h\<rparr>"] by simp
  moreover have "\<exists>n. w\<lparr>heap := h\<rparr> = w\<lparr>heap := h, setsizeCalls := n\<rparr>" for h
    by (intro exI [of _ "setsizeCalls w"]) simp
  ultimately show ?thesis unfolding Pane_Resize_def Let_def by (simp add: if_distrib [of snd]) metis
qed

lemma fold_frame:
  assumes "\<And>x w. \<exists>h n. f x w = w\<lparr>heap := h, setsizeCalls := n\<rparr>"
  shows "\<exists>h n. fold f xs w = w\<lparr>heap := h, setsizeCalls := n\<rparr>"
proof (induction xs arbitrary: w)
  case Nil
  show ?case by (intro exI [of _ "heap w"] exI [of _ "setsizeCalls w"]) simp
next
  case (Cons x xs)
  obtain h n where "f x w = w\<lparr>heap := h, setsizeCalls := n\<rparr>" using assms by blast
  then show ?case using Cons.IH [of "f x w"] by auto
qed

lemma no_frame: "\<exists>h n. w = w\<lparr>heap := h, setsizeCalls := n\<rparr>"
  by (intro exI [of _ "heap w"] exI [of _ "setsizeCalls w"]) simp

lemma resizePTYs_frame:
  "\<exists>h n. resizePTYsExcept i w = w\<lparr>heap := h, setsizeCalls := n\<rparr>"
  "\<exists>h n. resizePTYs w = w\<lparr>heap := h, setsizeCalls := n\<rparr>"
  "\<exists>h n. restoreZoomedPaneSize w = w\<lparr>heap := h, setsizeCalls := n\<rparr>"
  "\<exists>h n. resizePTYsPreservingZoomedPaneSize w = w\<lparr>heap := h, setsizeCalls := n\<rparr>"
proof -
  have leaf: "\<exists>h n. resizeLeafPTY i c w = w\<lparr>heap := h, setsizeCalls := n\<rparr>" for i c w
    unfolding resizeLeafPTY_def by (auto intro: no_frame Pane_Resize_frame split: option.splits)
  then show ex: "\<exists>h n. resizePTYsExcept i w = w\<lparr>heap := h, setsizeCalls := n\<rparr>" for i w
    unfolding resizePTYsExcept_def by (rule fold_frame)
  then show all: "\<exists>h n. resizePTYs w = w\<lparr>heap := h, setsizeCalls := n\<rparr>"
    unfolding resizePTYs_def by blast
  show re: "\<exists>h n. restoreZoomedPaneSize w = w\<lparr>heap := h, setsizeCalls := n\<rparr>" for w
    unfolding restoreZoomedPaneSize_def Let_def by (auto intro: no_frame Pane_Resize_frame split: option.splits)
  obtain h n where "resizePTYsExcept (ZoomedPaneID w) w = w\<lparr>heap := h, setsizeCalls := n\<rparr>" using ex by blast
  then show "\<exists>h n. resizePTYsPreservingZoomedPaneSize w = w\<lparr>heap := h, setsizeCalls := n\<rparr>"
    using all re [of "w\<lparr>heap := h, setsizeCalls := n\<rparr>"] by (auto simp: resizePTYsPreservingZoomedPaneSize_def)
qed

lemma frame_fields:
  assumes "\<exists>h n. w' = w\<lparr>heap := h, setsizeCalls := n\<rparr>"
  shows "Root w' = Root w" "ActivePane w' = ActivePane w" "Width w' = Width w" "Height w' = Height w"
    "ZoomedPaneID w' = ZoomedPaneID w" "LeadPaneID w' = LeadPaneID w" "Ultra w' = Ultra w"
    "ultraLead w' = ultraLead w" "activePointCounter w' = activePointCounter w"
    "setsizeFails w' = setsizeFails w" "win_ID w' = win_ID w" "win_Name w' = win_Name w"
  using assms by auto

lemmas frames [simp] =
  frame_fields [OF Pane_Resize_frame] frame_fields [OF resizePTYs_frame(1)]
  frame_fields [OF resizePTYs_frame(2)] frame_fields [OF resizePTYs_frame(3)]
  frame_fields [OF resizePTYs_frame(4)]

lemma setActive_fields [simp]:
  "Root (setActive p w) = Root w" "ActivePane (setActive p w) = Some p" "Width (setActive p w) = Width w"
  "Height (setActive p w) = Height w" "ZoomedPaneID (setActive p w) = ZoomedPaneID w"
  "LeadPaneID (setActive p w) = LeadPaneID w" "Ultra (setActive p w) = Ultra w"
  "ultraLead (setActive p w) = ultraLead w" "setsizeFails (setActive p w) = setsizeFails w"
  "activePointCounter (setActive p w) = activePointCounter w + 1"
  "emulator (heap (setActive p w) i) = emulator (heap w i)"
  by (simp_all add: setActive_def Let_def)

section \<open>Terminal sizes\<close>

lemma emulator_Pane_Resize:
  "emulator (heap (snd (Pane_Resize p cols rows w)) i) =
     (if i = pane_ptr p then map_option (\<lambda>_. (int32 cols, int32 rows)) (emulator (heap w i)) else emulator (heap w i))"
  by (auto simp: Pane_Resize_def resizePTY_def Let_def split: option.splits)

lemma int32_id: "- 2147483648 \<le> n \<Longrightarrow> n < 2147483648 \<Longrightarrow> int32 n = n"
  unfolding int32_def by (rule signed_take_bit_int_eq_self) simp_all

lemma PaneContentHeight_bounds: "1 \<le> PaneContentHeight h" "h \<le> n \<Longrightarrow> 1 \<le> n \<Longrightarrow> PaneContentHeight h \<le> n"
  by (auto simp: PaneContentHeight_def StatusLineRows_def Let_def)

definition leafSize :: "LayoutCell \<Rightarrow> int \<times> int" where
  "leafSize c = (cW c, PaneContentHeight (cH c))"

text \<open>The terminal of every shown pane, the zoomed one apart, has the size of its cell.\<close>

definition terminals_ok :: "window \<Rightarrow> bool" where
  "terminals_ok w \<longleftrightarrow> (\<forall>c \<in> set (Walk (Root w)). \<forall>p. cellPane c = Some p \<longrightarrow>
     ZoomedPaneID w \<noteq> 0 \<and> pane_ID p = ZoomedPaneID w \<or>
     emulator (paneAt p w) = None \<or> emulator (paneAt p w) = Some (leafSize c))"

lemma Pane_Resize_leafSize:
  assumes "cW c < 2147483648" "cH c < 2147483648" "0 \<le> cW c"
  shows "emulator (heap (snd (Pane_Resize p (cW c) (PaneContentHeight (cH c)) w)) (pane_ptr p)) =
    map_option (\<lambda>_. leafSize c) (emulator (paneAt p w))"
proof -
  have "PaneContentHeight (cH c) < 2147483648"
    using PaneContentHeight_bounds(2) [of "cH c" "max (cH c) 1"] assms(2) by linarith
  then show ?thesis
    using assms PaneContentHeight_bounds(1) [of "cH c"] by (simp add: emulator_Pane_Resize int32_id leafSize_def)
qed

text \<open>Cells of different panes: resizing every leaf in turn leaves each with its own size.\<close>

definition panesOf :: "LayoutCell list \<Rightarrow> pane list" where
  "panesOf cs = List.map_filter cellPane cs"

lemma panesOf_Cons: "panesOf (c # cs) = (case cellPane c of None \<Rightarrow> panesOf cs | Some p \<Rightarrow> p # panesOf cs)"
  by (auto simp: panesOf_def map_filter_def split: option.splits)

lemma panesOf_Walk: "panesOf (Walk c) = leafPanes c"
  by (simp add: panesOf_def leafPanes_def)

lemma set_panesOf: "p \<in> set (panesOf cs) \<longleftrightarrow> (\<exists>c \<in> set cs. cellPane c = Some p)"
  by (auto simp: panesOf_def map_filter_def intro!: image_eqI [rotated])

lemma resizeLeafPTY_other:
  "cellPane c = Some p \<Longrightarrow> i \<noteq> pane_ptr p \<or> (x \<noteq> 0 \<and> pane_ID p = x) \<Longrightarrow>
     emulator (heap (resizeLeafPTY x c w) i) = emulator (heap w i)"
  by (auto simp: resizeLeafPTY_def emulator_Pane_Resize)

lemma fold_resize_other:
  "i \<notin> pane_ptr ` set (panesOf cs) \<Longrightarrow> emulator (heap (fold (resizeLeafPTY x) cs w) i) = emulator (heap w i)"
proof (induction cs arbitrary: w)
  case (Cons c cs)
  then show ?case
    by (cases "cellPane c") (auto simp: panesOf_Cons resizeLeafPTY_other, simp add: resizeLeafPTY_def)
qed simp

lemma fold_resize_all:
  assumes "distinct (map pane_ptr (panesOf cs))"
    "\<forall>c \<in> set cs. cW c < 2147483648 \<and> cH c < 2147483648 \<and> 0 \<le> cW c"
    "c \<in> set cs" "cellPane c = Some p" "\<not> (x \<noteq> 0 \<and> pane_ID p = x)"
  shows "emulator (heap (fold (resizeLeafPTY x) cs w) (pane_ptr p)) =
    map_option (\<lambda>_. leafSize c) (emulator (paneAt p w))"
  using assms
proof (induction cs arbitrary: w)
  case (Cons k cs)
  show ?case
  proof (cases "k = c")
    case True
    then have "pane_ptr p \<notin> pane_ptr ` set (panesOf cs)" using Cons.prems by (simp add: panesOf_Cons)
    then show ?thesis using True Cons.prems Pane_Resize_leafSize [of c p w]
      by (simp add: fold_resize_other) (auto simp: resizeLeafPTY_def)
  next
    case False
    then have c: "c \<in> set cs" "distinct (map pane_ptr (panesOf cs))"
      using Cons.prems by (auto simp: panesOf_Cons split: option.splits)
    have "pane_ptr p \<notin> pane_ptr ` set (panesOf [k])"
      using Cons.prems(1) c(1) Cons.prems(4) set_panesOf [of p cs]
      by (auto simp: panesOf_Cons panesOf_def [of "[]"] map_filter_def split: option.splits) (metis imageI)
    then have "emulator (paneAt p (resizeLeafPTY x k w)) = emulator (paneAt p w)"
      using fold_resize_other [of "pane_ptr p" "[k]" x w] by simp
    then show ?thesis using Cons.IH [OF c(2) _ c(1)] Cons.prems by simp
  qed
qed simp

section \<open>The invariant of a window in split layout\<close>

definition layout_ok :: "window \<Rightarrow> bool" where
  "layout_ok w \<longleftrightarrow> sized (Root w) \<and> placed (Root w) \<and> rectOf (Root w) = mkRect 0 0 (Width w) (Height w)
     \<and> Width w < 2147483648 \<and> Height w < 2147483648"

definition panes_ok :: "LayoutCell \<Rightarrow> bool" where
  "panes_ok root \<longleftrightarrow> occupied root \<and> distinct (map pane_ID (leafPanes root))
     \<and> distinct (map pane_ptr (leafPanes root)) \<and> 0 \<notin> pane_ID ` set (leafPanes root)"

definition active_ok :: "window \<Rightarrow> bool" where
  "active_ok w \<longleftrightarrow> (\<exists>p. ActivePane w = Some p \<and> p \<in> set (leafPanes (Root w)))"

definition zoom_ok :: "window \<Rightarrow> bool" where
  "zoom_ok w \<longleftrightarrow> ZoomedPaneID w = 0 \<or> ZoomedPaneID w \<in> pane_ID ` set (leafPanes (Root w))"

definition mode_ok :: "window \<Rightarrow> bool" where
  "mode_ok w \<longleftrightarrow> Ultra w = None \<and> LeadPaneID w = 0 \<and> (\<forall>n. \<not> setsizeFails w n)"

definition window_ok :: "window \<Rightarrow> bool" where
  "window_ok w \<longleftrightarrow> layout_ok w \<and> panes_ok (Root w) \<and> active_ok w \<and> zoom_ok w \<and> mode_ok w \<and> terminals_ok w"

lemmas window_ok_defs = window_ok_def layout_ok_def active_ok_def zoom_ok_def mode_ok_def

text \<open>Every leaf lies inside the window, so its size is an \<^verbatim>\<open>int32\<close>.\<close>

lemma leaf_size_le: "sized c \<Longrightarrow> l \<in> set (Walk c) \<Longrightarrow> 0 < axisSize a l \<and> axisSize a l \<le> axisSize a c"
proof (induction c)
  case (Leaf r i)
  then show ?case using sized_axisSize_pos [of "Leaf r i" a] by auto
next
  case (Node r d cs)
  then obtain k where k: "k \<in> set cs" "l \<in> set (Walk k)" by auto
  then have IH: "0 < axisSize a l" "axisSize a l \<le> axisSize a k" using Node by auto
  have "axisSize a k \<le> axisLen a r"
  proof (cases "a = d")
    case True
    have "axisSize d k \<le> sum_list (map (axisSize d) cs)"
      using k Node.prems(1) sized_axisSize_pos by (intro member_le_sum_list_int) (auto intro: less_imp_le)
    then show ?thesis using True Node.prems(1) k(1) by auto
  next
    case False
    then show ?thesis using k Node.prems(1) neq_iff_flip [of d a] by auto
  qed
  then show ?case using IH by simp
qed

lemma layout_ok_leaf:
  "layout_ok w \<Longrightarrow> c \<in> set (Walk (Root w)) \<Longrightarrow> cW c < 2147483648 \<and> cH c < 2147483648 \<and> 0 \<le> cW c"
  using leaf_size_le [of "Root w" c SplitVertical] leaf_size_le [of "Root w" c SplitHorizontal]
  by (simp add: layout_ok_def axisSize_def)

lemma emulator_resizePTYsExcept:
  assumes "layout_ok w" "panes_ok (Root w)" "c \<in> set (Walk (Root w))" "cellPane c = Some p" "\<not> (x \<noteq> 0 \<and> pane_ID p = x)"
  shows "emulator (paneAt p (resizePTYsExcept x w)) = map_option (\<lambda>_. leafSize c) (emulator (paneAt p w))"
proof -
  have "distinct (map pane_ptr (panesOf (Walk (Root w))))"
    using assms(2) by (simp add: panes_ok_def panesOf_Walk)
  moreover have "\<forall>c \<in> set (Walk (Root w)). cW c < 2147483648 \<and> cH c < 2147483648 \<and> 0 \<le> cW c"
    using layout_ok_leaf [OF assms(1)] by blast
  ultimately show ?thesis using fold_resize_all [OF _ _ assms(3-5)] by (simp add: resizePTYsExcept_def)
qed

lemma terminals_ok_resizeExcept:
  assumes "layout_ok w" "panes_ok (Root w)" "x = 0 \<or> x = ZoomedPaneID w"
  shows "terminals_ok (resizePTYsExcept x w)"
  unfolding terminals_ok_def
proof (intro ballI allI impI)
  fix c p assume c: "c \<in> set (Walk (Root (resizePTYsExcept x w)))" "cellPane c = Some p"
  show "ZoomedPaneID (resizePTYsExcept x w) \<noteq> 0 \<and> pane_ID p = ZoomedPaneID (resizePTYsExcept x w) \<or>
    emulator (paneAt p (resizePTYsExcept x w)) = None \<or> emulator (paneAt p (resizePTYsExcept x w)) = Some (leafSize c)"
    using emulator_resizePTYsExcept [OF assms(1,2) _ c(2), of x] c(1) assms(3) by (cases "x \<noteq> 0 \<and> pane_ID p = x") auto
qed

lemma terminals_ok_resizePTYs:
  "layout_ok w \<Longrightarrow> panes_ok (Root w) \<Longrightarrow> terminals_ok (resizePTYs w)"
  unfolding resizePTYs_def by (rule terminals_ok_resizeExcept) auto

lemma distinct_map_inj: "distinct (map f xs) \<Longrightarrow> x \<in> set xs \<Longrightarrow> y \<in> set xs \<Longrightarrow> f x = f y \<Longrightarrow> x = y"
  by (simp add: distinct_map inj_on_def)

lemma terminals_ok_Pane_Resize_zoomed:
  assumes "terminals_ok w" "panes_ok (Root w)" "q \<in> set (leafPanes (Root w))" "pane_ID q = ZoomedPaneID w"
  shows "terminals_ok (snd (Pane_Resize q cols rows w))"
proof -
  have "ZoomedPaneID w \<noteq> 0"
    using assms(2-4) unfolding panes_ok_def by (metis image_eqI)
  moreover have "pane_ptr p \<noteq> pane_ptr q" if "c \<in> set (Walk (Root w))" "cellPane c = Some p" "pane_ID p \<noteq> pane_ID q" for c p
    using that assms(2,3) distinct_map_inj [of pane_ptr "leafPanes (Root w)" p q] set_leafPanes
    by (auto simp: panes_ok_def)
  ultimately show ?thesis using assms(1,4) by (auto simp: terminals_ok_def emulator_Pane_Resize)
qed

lemma terminals_ok_preserving:
  assumes "layout_ok w" "panes_ok (Root w)"
  shows "terminals_ok (resizePTYsPreservingZoomedPaneSize w)"
proof (cases "ZoomedPaneID w = 0")
  case True
  then show ?thesis using assms terminals_ok_resizePTYs by (simp add: resizePTYsPreservingZoomedPaneSize_def)
next
  case False
  let ?w = "resizePTYsExcept (ZoomedPaneID w) w"
  have ok: "terminals_ok ?w" using assms by (rule terminals_ok_resizeExcept) simp
  have "terminals_ok (restoreZoomedPaneSize ?w)"
  proof (cases "FindPane (ZoomedPaneID w) (Root w)")
    case None
    then show ?thesis using ok False by (simp add: restoreZoomedPaneSize_def)
  next
    case (Some hit)
    obtain p cell q where hit: "hit = (p, cell)" "cellPane cell = Some q" "pane_ID q = ZoomedPaneID w"
      "q \<in> set (leafPanes (Root w))"
      using FindPane_Some [of "ZoomedPaneID w" "Root w" "fst hit" "snd hit"] Some getAt_leafPanes
      by (metis prod.collapse)
    then show ?thesis
      using ok Some False terminals_ok_Pane_Resize_zoomed [of ?w q] assms(2)
      by (simp add: restoreZoomedPaneSize_def Let_def)
  qed
  then show ?thesis using False by (simp add: resizePTYsPreservingZoomedPaneSize_def)
qed

text \<open>
  The two ways an operation ends: once the tree, the active pane and the zoomed pane are right,
  resizing the terminals completes the invariant.
\<close>

lemma window_ok_resizePTYs:
  "layout_ok w \<Longrightarrow> panes_ok (Root w) \<Longrightarrow> active_ok w \<Longrightarrow> zoom_ok w \<Longrightarrow> mode_ok w \<Longrightarrow> window_ok (resizePTYs w)"
  "layout_ok w \<Longrightarrow> panes_ok (Root w) \<Longrightarrow> active_ok w \<Longrightarrow> zoom_ok w \<Longrightarrow> mode_ok w \<Longrightarrow>
     window_ok (resizePTYsPreservingZoomedPaneSize w)"
  using terminals_ok_resizePTYs [of w] terminals_ok_preserving [of w] by (simp_all add: window_ok_defs)

lemma window_ok_setActive:
  "window_ok w \<Longrightarrow> p \<in> set (leafPanes (Root w)) \<Longrightarrow> window_ok (setActive p w)"
  by (simp add: window_ok_defs terminals_ok_def)

section \<open>Unzooming\<close>

lemma Pane_Resize_Inr:
  assumes "\<forall>n. \<not> setsizeFails w n"
  shows "Pane_Resize p cols rows w = (Inr (), snd (Pane_Resize p cols rows w))"
proof -
  have "fst (Pane_Resize p cols rows w) = Inr ()"
    using assms by (simp add: Pane_Resize_def resizePTY_def Let_def)
  then show ?thesis by (metis prod.collapse)
qed

lemma one_leaf_per_pane:
  "distinct (map pane_ID (panesOf cs)) \<Longrightarrow> c \<in> set cs \<Longrightarrow> c' \<in> set cs \<Longrightarrow>
     cellPane c = Some p \<Longrightarrow> cellPane c' = Some q \<Longrightarrow> pane_ID p = pane_ID q \<Longrightarrow> c = c'"
proof (induction cs)
  case (Cons k cs)
  have "pane_ID p \<noteq> pane_ID q" if "cellPane k = Some p" "x \<in> set cs" "cellPane x = Some q" for x p q
    using Cons.prems(1) that set_panesOf [of q cs] by (auto simp: panesOf_Cons)
  then show ?case using Cons by (auto simp: panesOf_Cons split: option.splits) metis+
qed simp

lemma panes_ok_one_leaf:
  assumes "panes_ok root" "c \<in> set (Walk root)" "c' \<in> set (Walk root)" "cellPane c = Some p" "cellPane c' = Some q"
    "pane_ID p = pane_ID q"
  shows "c = c' \<and> p = q"
  using one_leaf_per_pane [of "Walk root" c c' p q] assms by (simp add: panes_ok_def panesOf_Walk)

lemma FindPane_ok:
  assumes "panes_ok root" "q \<in> set (leafPanes root)"
  obtains p r lf where "FindPane (pane_ID q) root = Some (p, Leaf r lf)" "Pane lf = Some q" "getAt p root = Some (Leaf r lf)"
    "Leaf r lf \<in> set (Walk root)"
proof -
  obtain hit where hit: "FindPane (pane_ID q) root = Some hit"
    using assms(2) FindPane_None [of "pane_ID q" root] by (cases "FindPane (pane_ID q) root") auto
  obtain p l where "hit = (p, l)" by (cases hit)
  with hit obtain q' r lf where f: "FindPane (pane_ID q) root = Some (p, Leaf r lf)" "getAt p root = Some (Leaf r lf)" "Pane lf = Some q'"
      "pane_ID q' = pane_ID q" by (metis FindPane_Some)
  have "q' \<in> set (leafPanes root)" using f getAt_leafPanes by simp
  then have "q' = q" using assms f(4) distinct_map_inj [of pane_ID "leafPanes root" q' q] by (auto simp: panes_ok_def)
  moreover have "Leaf r lf \<in> set (Walk root)"
    using getAt_WalkAt [OF f(2)] map_snd_WalkAt [of root] by (metis IsLeaf.simps(1) list.set_map image_eqI snd_conv)
  ultimately show ?thesis using that f by blast
qed

lemma Unzoom_ok:
  assumes ok: "window_ok w" and z: "ZoomedPaneID w \<noteq> 0"
  obtains w' where "Unzoom w = (Inr (), w')" "window_ok w'" "ZoomedPaneID w' = 0"
    "Root w' = Root w" "ActivePane w' = ActivePane w" "Width w' = Width w" "Height w' = Height w"
proof -
  obtain q where q: "q \<in> set (leafPanes (Root w))" "pane_ID q = ZoomedPaneID w"
    using ok z by (auto simp: window_ok_def zoom_ok_def)
  have pok: "panes_ok (Root w)" using ok by (simp add: window_ok_def)
  obtain p r lf where f: "FindPane (ZoomedPaneID w) (Root w) = Some (p, Leaf r lf)" "Pane lf = Some q"
    "Leaf r lf \<in> set (Walk (Root w))"
    using FindPane_ok [OF pok q(1)] q(2) by metis
  let ?c = "Leaf r lf"
  let ?w = "w\<lparr>ZoomedPaneID := 0\<rparr>"
  let ?w' = "snd (Pane_Resize q (cW ?c) (PaneContentHeight (cH ?c)) ?w)"
  have b: "cW ?c < 2147483648" "cH ?c < 2147483648" "0 \<le> cW ?c"
    using layout_ok_leaf [OF _ f(3)] ok by (auto simp: window_ok_def)
  have "terminals_ok ?w'"
    unfolding terminals_ok_def
  proof (intro ballI allI impI)
    fix c p assume c: "c \<in> set (Walk (Root ?w'))" "cellPane c = Some p"
    show "ZoomedPaneID ?w' \<noteq> 0 \<and> pane_ID p = ZoomedPaneID ?w' \<or>
       emulator (paneAt p ?w') = None \<or> emulator (paneAt p ?w') = Some (leafSize c)"
    proof (cases "pane_ID p = ZoomedPaneID w")
      case True
      then have "c = ?c \<and> p = q" using panes_ok_one_leaf [OF pok _ f(3) c(2)] c(1) f(2) q(2) by simp
      then show ?thesis using Pane_Resize_leafSize [OF b, of q ?w] by (cases "emulator (paneAt q w)") auto
    next
      case False
      have "pane_ptr p \<noteq> pane_ptr q"
        using False pok q c distinct_map_inj [of pane_ptr "leafPanes (Root w)" p q] set_leafPanes
        by (auto simp: panes_ok_def)
      then show ?thesis using False ok c by (auto simp: window_ok_def terminals_ok_def emulator_Pane_Resize)
    qed
  qed
  moreover have "Unzoom w = (Inr (), ?w')"
    using z f ok Pane_Resize_Inr [of ?w] by (simp add: Unzoom_def Let_def window_ok_defs)
  ultimately show ?thesis using that [of ?w'] ok by (simp add: window_ok_defs)
qed

lemma unzoomIf_ok:
  assumes "window_ok w"
  obtains w' where "unzoomIf b w = (Inr (), w')" "window_ok w'" "b \<Longrightarrow> ZoomedPaneID w' = 0"
    "Root w' = Root w" "ActivePane w' = ActivePane w" "Width w' = Width w" "Height w' = Height w"
proof (cases "ZoomedPaneID w \<noteq> 0 \<and> b")
  case True
  then show ?thesis using Unzoom_ok [OF assms] that unfolding unzoomIf_def by (metis True)
next
  case False
  then show ?thesis using assms that [of w] by (auto simp: unzoomIf_def)
qed

section \<open>Adding and removing panes\<close>

definition fresh :: "pane \<Rightarrow> LayoutCell \<Rightarrow> bool" where
  "fresh q root \<longleftrightarrow> pane_ID q \<noteq> 0 \<and> pane_ID q \<notin> pane_ID ` set (leafPanes root)
     \<and> pane_ptr q \<notin> pane_ptr ` set (leafPanes root)"

lemma distinct_map_mset: "mset xs = mset ys \<Longrightarrow> distinct (map f xs) = distinct (map f ys)"
  by (metis mset_eq_imp_distinct_iff mset_map)

lemma panes_ok_perm:
  assumes "panes_ok root" "mset (leafPanes root') = mset (leafPanes root)" "occupied root'"
  shows "panes_ok root'"
  using assms distinct_map_mset [OF assms(2), of pane_ID] distinct_map_mset [OF assms(2), of pane_ptr] mset_eq_setD [OF assms(2)] by (simp add: panes_ok_def)

lemma panes_ok_add:
  assumes "panes_ok root" "mset (leafPanes root') = add_mset q (mset (leafPanes root))" "occupied root'" "fresh q root"
  shows "panes_ok root'"
proof -
  have m: "mset (leafPanes root') = mset (q # leafPanes root)" using assms(2) by simp
  show ?thesis
    using assms(1,3,4) distinct_map_mset [OF m, of pane_ID] distinct_map_mset [OF m, of pane_ptr] mset_eq_setD [OF m] by (simp add: panes_ok_def fresh_def)
qed

lemma panes_ok_remove:
  assumes "panes_ok root" "mset (leafPanes root) = add_mset q (mset (leafPanes root'))" "occupied root'"
  shows "panes_ok root'"
proof -
  have m: "mset (leafPanes root) = mset (q # leafPanes root')" using assms(2) by simp
  show ?thesis
    using assms(1,3) distinct_map_mset [OF m, of pane_ID] distinct_map_mset [OF m, of pane_ptr] mset_eq_setD [OF m] by (simp add: panes_ok_def)
qed

lemma layout_ok_FixOffsets:
  assumes "layout_ok w" "sized root" "rectOf root = rectOf (Root w)"
  shows "layout_ok (w\<lparr>Root := FixOffsets root\<rparr>)"
  using assms by (simp add: layout_ok_def)

lemma leafPanes_FixOffsets [simp]: "leafPanes (FixOffsets c) = leafPanes c"
  by (rule leafPanes_cong) simp

lemma occupied_FixOffsets [simp]: "occupied (FixOffsets c) = occupied c"
  by (rule occupied_cong) simp

lemma panes_ok_FixOffsets [simp]: "panes_ok (FixOffsets c) = panes_ok c"
  by (simp add: panes_ok_def)

section \<open>Between the tree edit and its end\<close>

text \<open>
  \<open>tree_ok\<close> is the invariant without positions and terminal sizes: what holds between a tree
  edit and the \<^verbatim>\<open>FixOffsets\<close> and \<^verbatim>\<open>resizePTYs\<close> that end every operation.
\<close>

definition tree_ok :: "window \<Rightarrow> bool" where
  "tree_ok w \<longleftrightarrow> sized (Root w) \<and> rectOf (Root w) = mkRect 0 0 (Width w) (Height w)
     \<and> Width w < 2147483648 \<and> Height w < 2147483648
     \<and> panes_ok (Root w) \<and> active_ok w \<and> zoom_ok w \<and> mode_ok w"

lemma window_ok_tree: "window_ok w \<Longrightarrow> tree_ok w"
  by (simp add: tree_ok_def window_ok_def layout_ok_def)

lemma tree_ok_FixOffsets:
  assumes "tree_ok w"
  shows "window_ok (resizePTYs (w\<lparr>Root := FixOffsets (Root w)\<rparr>))"
    "window_ok (resizePTYsPreservingZoomedPaneSize (w\<lparr>Root := FixOffsets (Root w)\<rparr>))"
  using assms by (intro window_ok_resizePTYs; simp add: tree_ok_def layout_ok_def active_ok_def zoom_ok_def mode_ok_def)+

lemma tree_ok_cong:
  "Root w' = Root w \<Longrightarrow> ActivePane w' = ActivePane w \<Longrightarrow> Width w' = Width w \<Longrightarrow> Height w' = Height w \<Longrightarrow>
   ZoomedPaneID w' = ZoomedPaneID w \<Longrightarrow> LeadPaneID w' = LeadPaneID w \<Longrightarrow> Ultra w' = Ultra w \<Longrightarrow>
   setsizeFails w' = setsizeFails w \<Longrightarrow> tree_ok w' = tree_ok w"
  by (simp add: tree_ok_def active_ok_def zoom_ok_def mode_ok_def)

lemma tree_ok_setActive: "tree_ok w \<Longrightarrow> p \<in> set (leafPanes (Root w)) \<Longrightarrow> tree_ok (setActive p w)"
  by (simp add: tree_ok_def active_ok_def zoom_ok_def mode_ok_def)

text \<open>The tree is replaced by one of the same rectangle and (up to order) other panes.\<close>

lemma tree_ok_Root:
  assumes "tree_ok w" "sized root" "rectOf root = rectOf (Root w)" "panes_ok root"
    "\<And>p. ActivePane w = Some p \<Longrightarrow> p \<in> set (leafPanes root)"
    "ZoomedPaneID w = 0 \<or> ZoomedPaneID w \<in> pane_ID ` set (leafPanes root)"
  shows "tree_ok (w\<lparr>Root := root\<rparr>)"
  using assms by (auto simp: tree_ok_def active_ok_def zoom_ok_def mode_ok_def)

lemma tree_ok_perm:
  assumes "tree_ok w" "sized root" "rectOf root = rectOf (Root w)"
    "mset (leafPanes root) = mset (leafPanes (Root w))" "occupied root"
  shows "tree_ok (w\<lparr>Root := root\<rparr>)"
proof (rule tree_ok_Root [OF assms(1-3)])
  show "panes_ok root" using panes_ok_perm [OF _ assms(4,5)] assms(1) by (simp add: tree_ok_def)
  have s: "set (leafPanes root) = set (leafPanes (Root w))" using mset_eq_setD [OF assms(4)] .
  show "p \<in> set (leafPanes root)" if "ActivePane w = Some p" for p
    using that assms(1) s by (auto simp: tree_ok_def active_ok_def)
  show "ZoomedPaneID w = 0 \<or> ZoomedPaneID w \<in> pane_ID ` set (leafPanes root)"
    using assms(1) s by (simp add: tree_ok_def zoom_ok_def)
qed

lemma tree_ok_add:
  assumes "tree_ok w" "sized root" "rectOf root = rectOf (Root w)" "occupied root"
    "mset (leafPanes root) = add_mset q (mset (leafPanes (Root w)))" "fresh q (Root w)"
  shows "tree_ok (w\<lparr>Root := root\<rparr>)" "q \<in> set (leafPanes root)"
proof -
  have s: "set (leafPanes root) = insert q (set (leafPanes (Root w)))"
    using mset_eq_setD [of "leafPanes root" "q # leafPanes (Root w)"] assms(5) by simp
  then show "q \<in> set (leafPanes root)" by simp
  show "tree_ok (w\<lparr>Root := root\<rparr>)"
    using assms panes_ok_add [OF _ assms(5,4,6)] s
    by (intro tree_ok_Root) (auto simp: tree_ok_def active_ok_def zoom_ok_def)
qed

lemma mode_okD: "mode_ok w \<Longrightarrow> Ultra w = None \<and> \<not> hasAnchoredLead w \<and> \<not> hasPendingLead w \<and> \<not> IsLeadPane i w"
  by (simp add: mode_ok_def hasAnchoredLead_def hasPendingLead_def IsLeadPane_def)

lemma window_ok_mode: "window_ok w \<Longrightarrow> Ultra w = None" "window_ok w \<Longrightarrow> \<not> hasAnchoredLead w"
  "window_ok w \<Longrightarrow> \<not> hasPendingLead w" "window_ok w \<Longrightarrow> \<not> IsLeadPane i w" "window_ok w \<Longrightarrow> LeadPaneID w = 0"
  "window_ok w \<Longrightarrow> logicalRoot w = Root w" "window_ok w \<Longrightarrow> logicalRootPath w = []"
  using mode_okD [of w i] by (auto simp: window_ok_def mode_ok_def logicalRoot_def logicalRootPath_def)

text \<open>The windows that keep the invariant and have exactly the given panes.\<close>

definition kept :: "pane list \<Rightarrow> window \<Rightarrow> bool" where
  "kept ps w \<longleftrightarrow> window_ok w \<and> mset (leafPanes (Root w)) = mset ps"

lemma kept_self [simp]: "window_ok w \<Longrightarrow> kept (leafPanes (Root w)) w"
  by (simp add: kept_def)

lemma kept_Root: "window_ok w' \<Longrightarrow> Root w' = Root w \<Longrightarrow> kept (leafPanes (Root w)) w'"
  by (simp add: kept_def)

end
