(* ===== verification/Ultra.thy ===== *)
theory Ultra
  imports Window_Laws
begin

text \<open>
  The ultra layout (\<^verbatim>\<open>ultra.go\<close>): a table of agent slots shown page by page in a fixed grid
  whose first cell belongs to the lead pane. The slot table is the state; the layout tree is
  rebuilt from it (\<open>rebuildUltraTree\<close>) after every change.
\<close>

section \<open>The slot table\<close>

text \<open>The panes of a list of slots (\<^verbatim>\<open>nil\<close> is an empty slot).\<close>

fun present :: "'a option list \<Rightarrow> 'a list" where
  "present [] = []"
| "present (None # ss) = present ss"
| "present (Some p # ss) = p # present ss"

definition AgentSlotsPerPage :: "UltraLayout \<Rightarrow> nat" where
  "AgentSlotsPerPage u = (let n = Rows u * Cols u - 1 in if n < 1 then 1 else nat n)"

definition PageCount :: "UltraLayout \<Rightarrow> int" where
  "PageCount u =
     (let per = AgentSlotsPerPage u; pages = int ((length (Slots u) + per - 1) div per)
      in if pages < 1 then 1 else pages)"

fun slotIndex :: "uint32 \<Rightarrow> pane option list \<Rightarrow> nat option" where
  "slotIndex paneID [] = None"
| "slotIndex paneID (s # ss) =
     (case s of
        Some p \<Rightarrow> if pane_ID p = paneID then Some 0 else map_option Suc (slotIndex paneID ss)
      | None \<Rightarrow> map_option Suc (slotIndex paneID ss))"

definition SlotOf :: "UltraLayout \<Rightarrow> uint32 \<Rightarrow> nat option" where
  "SlotOf u paneID = slotIndex paneID (Slots u)"

definition PageOfSlot :: "UltraLayout \<Rightarrow> nat \<Rightarrow> int" where
  "PageOfSlot u slot = int (slot div AgentSlotsPerPage u)"

definition SlotIDs :: "UltraLayout \<Rightarrow> uint32 list" where
  "SlotIDs u = map (\<lambda>s. case s of Some p \<Rightarrow> pane_ID p | None \<Rightarrow> 0) (Slots u)"

definition clampPage :: "UltraLayout \<Rightarrow> UltraLayout" where
  "clampPage u =
     (let page = (if Page u < 0 then 0 else Page u); lst = PageCount u - 1
      in u\<lparr>Page := (if page > lst then lst else page)\<rparr>)"

lemma trim_start: "per < n \<Longrightarrow> ((n - Suc 0) div per) * per < n" for n per :: nat
  using div_times_less_eq_dividend [of "n - Suc 0" per] by linarith

function trimSlots :: "nat \<Rightarrow> pane option list \<Rightarrow> pane option list" where
  "trimSlots per slots =
     (if length slots > per then
        (let start = ((length slots - 1) div per) * per in
         if list_all (\<lambda>s. s = None) (drop start slots) then trimSlots per (take start slots) else slots)
      else slots)"
  by pat_completeness auto

termination
  by (relation "measure (\<lambda>(per, slots). length slots)") (auto simp: trim_start min_less_iff_disj)

declare trimSlots.simps [simp del]

definition trimEmptyPages :: "UltraLayout \<Rightarrow> UltraLayout" where
  "trimEmptyPages u = clampPage (u\<lparr>Slots := trimSlots (AgentSlotsPerPage u) (Slots u)\<rparr>)"

definition clearSlot :: "nat \<Rightarrow> UltraLayout \<Rightarrow> UltraLayout" where
  "clearSlot idx u = u\<lparr>Slots := (Slots u)[idx := None]\<rparr>"

fun insertSlot :: "pane \<Rightarrow> pane option list \<Rightarrow> pane option list \<times> nat" where
  "insertSlot p [] = ([Some p], 0)"
| "insertSlot p (s # ss) =
     (case s of
        None \<Rightarrow> (Some p # ss, 0)
      | Some q \<Rightarrow> (let (ss', i) = insertSlot p ss in (s # ss', Suc i)))"

definition ultra_insert :: "pane \<Rightarrow> UltraLayout \<Rightarrow> UltraLayout \<times> nat" where
  "ultra_insert p u = (let (ss, i) = insertSlot p (Slots u) in (u\<lparr>Slots := ss\<rparr>, i))"

definition MaxUltraRows :: int where "MaxUltraRows = 8"
definition MaxUltraCols :: int where "MaxUltraCols = 8"

definition ValidateUltraGrid :: "int \<Rightarrow> int \<Rightarrow> bool" where
  "ValidateUltraGrid rows cols \<longleftrightarrow>
     \<not> (rows < 1 \<or> rows > MaxUltraRows) \<and> \<not> (cols < 1 \<or> cols > MaxUltraCols) \<and> \<not> rows * cols < 2"

section \<open>Which panes are shown\<close>

definition ultraPanes :: "window \<Rightarrow> pane list" where
  "ultraPanes w =
     (case ultraLead w of Some p \<Rightarrow> if LeadPaneID w \<noteq> 0 then [p] else [] | None \<Rightarrow> []) @
     present (Slots (the (Ultra w)))"

definition Panes :: "window \<Rightarrow> pane list" where
  "Panes w = (if Ultra w \<noteq> None then ultraPanes w else leafPanes (Root w))"

definition PaneCount :: "window \<Rightarrow> nat" where
  "PaneCount w = length (Panes w)"

definition ultraVisible :: "uint32 \<Rightarrow> window \<Rightarrow> bool" where
  "ultraVisible paneID w =
     (case Ultra w of
        None \<Rightarrow> True
      | Some u \<Rightarrow>
          if LeadPaneID w \<noteq> 0 \<and> paneID = LeadPaneID w then True
          else (case SlotOf u paneID of
                  None \<Rightarrow> False
                | Some idx \<Rightarrow> PageOfSlot u idx = Page u))"

definition UltraPaneHidden :: "uint32 \<Rightarrow> window \<Rightarrow> bool" where
  "UltraPaneHidden paneID w =
     (case Ultra w of None \<Rightarrow> False | Some u \<Rightarrow> SlotOf u paneID \<noteq> None \<and> \<not> ultraVisible paneID w)"

definition HasPane :: "uint32 \<Rightarrow> window \<Rightarrow> bool" where
  "HasPane paneID w =
     (case Ultra w of
        Some u \<Rightarrow>
          if LeadPaneID w \<noteq> 0 \<and> paneID = LeadPaneID w \<and> ultraLead w \<noteq> None then True
          else SlotOf u paneID \<noteq> None
      | None \<Rightarrow> FindPane paneID (Root w) \<noteq> None)"

definition PaneContentSize :: "uint32 \<Rightarrow> window \<Rightarrow> (int \<times> int) option" where
  "PaneContentSize paneID w =
     (case FindPane paneID (Root w) of
        Some (p, cell) \<Rightarrow> Some (cW cell, PaneContentHeight (cH cell))
      | None \<Rightarrow>
          (case Ultra w of
             Some u \<Rightarrow>
               if SlotOf u paneID \<noteq> None then
                 map_option (\<lambda>c. (cW c, PaneContentHeight (cH c)))
                   (List.find (\<lambda>c. case c of Leaf r l \<Rightarrow> \<not> LeadSlot l | Node r d cs \<Rightarrow> True) (Walk (Root w)))
               else None
           | None \<Rightarrow> None))"

section \<open>Rebuilding the tree\<close>

type_synonym ultra_cell = "pane option \<times> int \<times> bool"

text \<open>The cells of the visible page: pane, slot number, and whether it is the lead cell.\<close>

definition ultraCells :: "window \<Rightarrow> UltraLayout \<Rightarrow> ultra_cell list" where
  "ultraCells w u =
     (let start = nat (Page u) * AgentSlotsPerPage u;
          lead = (if LeadPaneID w = 0 then None else ultraLead w)
      in map (\<lambda>k. if k = 0 then (lead, - 1, True)
                  else let idx = start + k - 1
                       in (if idx < length (Slots u) then Slots u ! idx else None, int idx + 1, False))
           [0..<nat (Rows u * Cols u)])"

definition ultraLeaf :: "ultra_cell \<Rightarrow> int \<Rightarrow> int \<Rightarrow> int \<Rightarrow> int \<Rightarrow> LayoutCell" where
  "ultraLeaf cell x y w h =
     (case cell of (p, slot, lead) \<Rightarrow> Leaf (mkRect x y w h) \<lparr>Pane = p, PaneID = 0, Slot = slot, LeadSlot = lead\<rparr>)"

fun ultraRowLeaves :: "ultra_cell list \<Rightarrow> int \<Rightarrow> int \<Rightarrow> int \<Rightarrow> int list \<Rightarrow> LayoutCell list" where
  "ultraRowLeaves cells x y h [] = []"
| "ultraRowLeaves cells x y h (w # ws) = ultraLeaf (hd cells) x y w h # ultraRowLeaves (tl cells) (x + w + 1) y h ws"

fun ultraRowCells :: "ultra_cell list \<Rightarrow> int \<Rightarrow> int list \<Rightarrow> int \<Rightarrow> int list \<Rightarrow> LayoutCell list" where
  "ultraRowCells cells width colW y [] = []"
| "ultraRowCells cells width colW y (h # hs) =
     (if length colW = 1 then ultraLeaf (hd cells) 0 y width h
      else Node (mkRect 0 y width h) SplitVertical (ultraRowLeaves cells 0 y h colW))
     # ultraRowCells (drop (length colW) cells) width colW (y + h + 1) hs"

definition raiseToMin :: "int list \<Rightarrow> int list" where
  "raiseToMin = map (\<lambda>n. if n < PaneMinSize then PaneMinSize else n)"

definition ultraTree :: "window \<Rightarrow> UltraLayout \<Rightarrow> LayoutCell" where
  "ultraTree w u =
     (let rowH = raiseToMin (equalSplitSizes (Height w) (Rows u));
          colW = raiseToMin (equalSplitSizes (Width w) (Cols u));
          rows = ultraRowCells (ultraCells w u) (Width w) colW 0 rowH
      in FixOffsets (if Rows u = 1 then hd rows
                     else Node (mkRect 0 0 (Width w) (Height w)) SplitHorizontal rows))"

definition keepActiveVisible :: "UltraLayout \<Rightarrow> window \<Rightarrow> window" where
  "keepActiveVisible u w =
     (if (case ActivePane w of None \<Rightarrow> True | Some p \<Rightarrow> \<not> ultraVisible (pane_ID p) w) then
        (case (if LeadPaneID w = 0 then None else ultraLead w) of
           Some lead \<Rightarrow> setActive lead w
         | None \<Rightarrow>
             (case firstPaneInSubtree (Root w) of
                Some p \<Rightarrow> setActive p w
              | None \<Rightarrow>
                  (case present (Slots u) of
                     p # ps \<Rightarrow> setActive p w
                   | [] \<Rightarrow> w)))
      else w)"

definition ultraAgentCell :: "UltraLayout \<Rightarrow> window \<Rightarrow> LayoutCell option" where
  "ultraAgentCell u w =
     (let rowH = raiseToMin (equalSplitSizes (Height w) (Rows u));
          colW = raiseToMin (equalSplitSizes (Width w) (Cols u))
      in if Cols u > 1 then FindLeafAt (colW ! 0 + 1) 0 (Root w)
         else if Rows u > 1 then FindLeafAt 0 (rowH ! 0 + 1) (Root w)
         else FindLeafAt 0 0 (Root w))"

definition resizeHidden :: "UltraLayout \<Rightarrow> LayoutCell \<Rightarrow> window \<Rightarrow> window" where
  "resizeHidden u agentCell w =
     (let per = AgentSlotsPerPage u; start = nat (Page u) * per in
      fold (\<lambda>(i, s) w.
          case s of
            None \<Rightarrow> w
          | Some p \<Rightarrow> if start \<le> i \<and> i < start + per then w
                      else snd (Pane_Resize p (cW agentCell) (PaneContentHeight (cH agentCell)) w))
        (zip [0..<length (Slots u)] (Slots u)) w)"

definition rebuildUltraTree :: "window \<Rightarrow> window" where
  "rebuildUltraTree w =
     (case Ultra w of
        None \<Rightarrow> w
      | Some u0 \<Rightarrow>
          (let u = clampPage u0;
               w1 = w\<lparr>Ultra := Some u\<rparr>;
               w2 = w1\<lparr>Root := ultraTree w1 u\<rparr>;
               w3 = resizePTYsPreservingZoomedPaneSize (keepActiveVisible u w2)
           in if Rows u * Cols u > 1 then
                (case ultraAgentCell u w3 of
                   Some agentCell \<Rightarrow> resizeHidden u agentCell w3
                 | None \<Rightarrow> w3)
              else w3))"

section \<open>Operations\<close>

definition ultraShowPane :: "uint32 \<Rightarrow> window \<Rightarrow> bool \<times> window" where
  "ultraShowPane paneID w =
     (case Ultra w of
        None \<Rightarrow> (False, w)
      | Some u \<Rightarrow>
          if ultraVisible paneID w then (False, w)
          else (case SlotOf u paneID of
                  None \<Rightarrow> (False, w)
                | Some idx \<Rightarrow> (True, rebuildUltraTree (w\<lparr>Ultra := Some (u\<lparr>Page := PageOfSlot u idx\<rparr>)\<rparr>))))"

definition ultraShowPaneIfActive :: "window \<Rightarrow> window" where
  "ultraShowPaneIfActive w =
     (case (Ultra w, ActivePane w) of
        (Some u, Some p) \<Rightarrow>
          (case SlotOf u (pane_ID p) of
             Some idx \<Rightarrow> w\<lparr>Ultra := Some (u\<lparr>Page := PageOfSlot u idx\<rparr>)\<rparr>
           | None \<Rightarrow> w)
      | _ \<Rightarrow> w)"

definition EnableUltra :: "int \<Rightarrow> int \<Rightarrow> bool \<Rightarrow> window \<Rightarrow> unit wres" where
  "EnableUltra rows cols autoPromote w0 =
     (if \<not> ValidateUltraGrid rows cols then err ErrUltraGrid w0
      else andThen (unzoomIf True) (\<lambda>_ w.
        case Ultra w of
          Some u \<Rightarrow>
            ok () (rebuildUltraTree (ultraShowPaneIfActive
              (w\<lparr>Ultra := Some (trimEmptyPages (u\<lparr>Rows := rows, Cols := cols, AutoPromote := autoPromote\<rparr>))\<rparr>)))
        | None \<Rightarrow>
            (let w1 = w\<lparr>ultraLead := None\<rparr>;
                 w2 = (if LeadPaneID w1 \<noteq> 0 then
                         (case FindPane (LeadPaneID w1) (Root w1) of
                            Some (p, cell) \<Rightarrow> w1\<lparr>ultraLead := cellPane cell\<rparr>
                          | None \<Rightarrow> w1\<lparr>LeadPaneID := 0\<rparr>)
                       else w1);
                 agents = filter (\<lambda>p. \<not> (LeadPaneID w2 \<noteq> 0 \<and> pane_ID p = LeadPaneID w2)) (Panes w2);
                 u = \<lparr>Rows = rows, Cols = cols, Page = 0,
                      Slots = map Some (sort_key pane_ID agents), AutoPromote = autoPromote\<rparr>
             in ok () (rebuildUltraTree (ultraShowPaneIfActive (w2\<lparr>Ultra := Some u\<rparr>))))) w0)"

fun gridRowLeaves :: "pane option list \<Rightarrow> int \<Rightarrow> int \<Rightarrow> int \<Rightarrow> int list \<Rightarrow> LayoutCell list" where
  "gridRowLeaves [] x y h ws = []"
| "gridRowLeaves (p # ps) x y h ws = NewLeaf p x y (hd ws) h # gridRowLeaves ps (x + hd ws + 1) y h (tl ws)"

definition gridRow :: "pane option list \<Rightarrow> int \<Rightarrow> int \<Rightarrow> int \<Rightarrow> int \<Rightarrow> LayoutCell" where
  "gridRow rowPanes x y width h =
     (case rowPanes of
        [p] \<Rightarrow> NewLeaf p x y width h
      | _ \<Rightarrow> Node (mkRect x y width h) SplitVertical
               (gridRowLeaves rowPanes x y h (equalSplitSizes width (int (length rowPanes)))))"

fun gridRows :: "nat \<Rightarrow> pane option list \<Rightarrow> int \<Rightarrow> int \<Rightarrow> int \<Rightarrow> int list \<Rightarrow> LayoutCell list" where
  "gridRows cols panes x y width [] = []"
| "gridRows cols panes x y width (h # hs) =
     gridRow (take cols panes) x y width h # gridRows cols (drop cols panes) x (y + h + 1) width hs"

definition buildGridTree :: "pane option list \<Rightarrow> int \<Rightarrow> int \<Rightarrow> int \<Rightarrow> int \<Rightarrow> int \<Rightarrow> LayoutCell" where
  "buildGridTree panes cols0 x y width height =
     (let cols = (if cols0 < 1 then 1 else nat cols0);
          rows0 = (length panes + cols - 1) div cols;
          rows = (if rows0 < 1 then 1 else rows0)
      in if length panes = 1 then NewLeaf (panes ! 0) x y width height
         else if rows = 1 then gridRow (take cols panes) x y width height
         else Node (mkRect x y width height) SplitHorizontal
                (gridRows cols panes x y width (equalSplitSizes height (int rows))))"

definition leadPane :: "window \<Rightarrow> pane option" where
  "leadPane w =
     (if LeadPaneID w = 0 then None
      else if Ultra w \<noteq> None then ultraLead w
      else case FindPane (LeadPaneID w) (Root w) of Some (p, cell) \<Rightarrow> cellPane cell | None \<Rightarrow> None)"

definition DisableUltra :: "window \<Rightarrow> unit wres" where
  "DisableUltra w =
     (case Ultra w of
        None \<Rightarrow> err ErrNotUltra w
      | Some u \<Rightarrow>
          (let agents = present (Slots u);
               lead = leadPane w;
               w1 = w\<lparr>Ultra := None\<rparr>
           in if lead = None \<and> agents = [] then err ErrNoPanes w1
              else let
                root =
                  (case lead of
                     None \<Rightarrow> buildGridTree (map Some agents) (Cols u) 0 0 (Width w) (Height w)
                   | Some q \<Rightarrow>
                       if agents = [] then NewLeaf (Some q) 0 0 (Width w) (Height w)
                       else let
                         leadW0 = max 20 (go_div (Width w) 3);
                         cap = go_div (Width w * 4) 5;
                         leadW = (if leadW0 > cap then cap else leadW0);
                         rightW = Width w - leadW - 1
                       in Node (mkRect 0 0 (Width w) (Height w)) SplitVertical
                            [NewLeaf (Some q) 0 0 leadW (Height w),
                             buildGridTree (map Some agents) (Cols u) (leadW + 1) 0 rightW (Height w)]);
                w2 = w1\<lparr>Root := FixOffsets root\<rparr>;
                w3 = (if (case ActivePane w2 of None \<Rightarrow> True
                          | Some p \<Rightarrow> FindPane (pane_ID p) (Root w2) = None)
                      then (case firstPaneInSubtree (Root w2) of Some p \<Rightarrow> setActive p w2 | None \<Rightarrow> w2)
                      else w2)
              in ok () (resizePTYs w3)))"

definition UltraSetPage :: "int \<Rightarrow> window \<Rightarrow> unit wres" where
  "UltraSetPage page w0 =
     (case Ultra w0 of
        None \<Rightarrow> err ErrNotUltra w0
      | Some u0 \<Rightarrow>
          if page < 0 \<or> page \<ge> PageCount u0 then err (ErrPageRange page) w0
          else andThen (unzoomIf True) (\<lambda>_ w.
                 case Ultra w of
                   Some u \<Rightarrow> ok () (rebuildUltraTree (w\<lparr>Ultra := Some (u\<lparr>Page := page\<rparr>)\<rparr>))
                 | None \<Rightarrow> err Panic w) w0)"

definition UltraStepPage :: "int \<Rightarrow> window \<Rightarrow> unit wres" where
  "UltraStepPage delta w =
     (case Ultra w of
        None \<Rightarrow> err ErrNotUltra w
      | Some u \<Rightarrow>
          (let n = PageCount u in UltraSetPage (go_mod (go_mod (Page u + delta) n + n) n) w))"

definition ultraInsert :: "pane \<Rightarrow> SplitOptions \<Rightarrow> window \<Rightarrow> pane wres" where
  "ultraInsert p opts w =
     (case Ultra w of
        None \<Rightarrow> err Panic w
      | Some u \<Rightarrow>
          (let (u1, idx) = ultra_insert p u;
               u2 = (if \<not> KeepFocus opts then u1\<lparr>Page := PageOfSlot u1 idx\<rparr> else u1);
               w1 = rebuildUltraTree (w\<lparr>Ultra := Some u2\<rparr>)
           in ok p (if \<not> KeepFocus opts then setActive p w1 else w1)))"

definition ultraClose :: "uint32 \<Rightarrow> window \<Rightarrow> unit wres" where
  "ultraClose paneID w =
     (case Ultra w of
        None \<Rightarrow> err Panic w
      | Some u \<Rightarrow>
          if PaneCount w \<le> 1 then err ErrLastPane w
          else let
            w1 = (if ZoomedPaneID w = paneID then w\<lparr>ZoomedPaneID := 0\<rparr> else w);
            wasActive = (case ActivePane w1 of Some p \<Rightarrow> pane_ID p = paneID | None \<Rightarrow> False);
            done = (\<lambda>w2. ok () (rebuildUltraTree (if wasActive then w2\<lparr>ActivePane := None\<rparr> else w2)))
          in if LeadPaneID w1 = paneID then done (w1\<lparr>LeadPaneID := 0, ultraLead := None\<rparr>)
             else (case SlotOf u paneID of
                     None \<Rightarrow> err (ErrNotFound paneID) w1
                   | Some idx \<Rightarrow> done (w1\<lparr>Ultra := Some (trimEmptyPages (clearSlot idx u))\<rparr>)))"

definition ultraSetLead :: "uint32 \<Rightarrow> window \<Rightarrow> unit wres" where
  "ultraSetLead paneID w =
     (case Ultra w of
        None \<Rightarrow> err Panic w
      | Some u \<Rightarrow>
          if LeadPaneID w = paneID then ok () w
          else (case SlotOf u paneID of
                  None \<Rightarrow> err (ErrNotFound paneID) w
                | Some idx \<Rightarrow>
                    (let p = Slots u ! idx;
                         u1 = clearSlot idx u;
                         u2 = (case ultraLead w of
                                 Some prev \<Rightarrow> if LeadPaneID w \<noteq> 0 then fst (ultra_insert prev u1) else u1
                               | None \<Rightarrow> u1)
                     in ok () (rebuildUltraTree
                          (w\<lparr>LeadPaneID := paneID, ultraLead := p, Ultra := Some (trimEmptyPages u2)\<rparr>)))))"

definition ultraUnsetLead :: "window \<Rightarrow> unit wres" where
  "ultraUnsetLead w =
     (case Ultra w of
        None \<Rightarrow> err Panic w
      | Some u \<Rightarrow>
          if LeadPaneID w = 0 then err ErrNoLead w
          else let u1 = (case ultraLead w of Some q \<Rightarrow> fst (ultra_insert q u) | None \<Rightarrow> u)
               in ok () (rebuildUltraTree (w\<lparr>Ultra := Some u1, LeadPaneID := 0, ultraLead := None\<rparr>)))"

definition ultraSwap :: "uint32 \<Rightarrow> uint32 \<Rightarrow> window \<Rightarrow> unit wres" where
  "ultraSwap id1 id2 w =
     (case Ultra w of
        None \<Rightarrow> err Panic w
      | Some u \<Rightarrow>
          (case SlotOf u id1 of
             None \<Rightarrow> err (ErrNotFound id1) w
           | Some i \<Rightarrow>
               (case SlotOf u id2 of
                  None \<Rightarrow> err (ErrNotFound id2) w
                | Some j \<Rightarrow> ok () (rebuildUltraTree (w\<lparr>Ultra := Some (u\<lparr>Slots := swapAt i j (Slots u)\<rparr>)\<rparr>)))))"

definition UltraPromote :: "uint32 \<Rightarrow> (uint32 \<Rightarrow> bool) option \<Rightarrow> window \<Rightarrow> bool \<times> window" where
  "UltraPromote paneID busy w =
     (case Ultra w of
        None \<Rightarrow> (False, w)
      | Some u \<Rightarrow>
          if \<not> UltraPaneHidden paneID w then (False, w)
          else let
            src = the (SlotOf u paneID);
            per = AgentSlotsPerPage u;
            start = nat (Page u) * per;
            stop = min (start + per) (length (Slots u));
            activeID = (case ActivePane w of Some p \<Rightarrow> pane_ID p | None \<Rightarrow> 0)
          in (case List.find (\<lambda>i. Slots u ! i = None) [start..<stop] of
               Some i \<Rightarrow>
                 (True, rebuildUltraTree
                   (w\<lparr>Ultra := Some (trimEmptyPages (u\<lparr>Slots := (Slots u)[i := Slots u ! src, src := None]\<rparr>))\<rparr>))
             | None \<Rightarrow>
                 (let candidates = filter (\<lambda>i.
                        case Slots u ! i of
                          None \<Rightarrow> False
                        | Some p \<Rightarrow> pane_ID p \<noteq> activeID \<and> (case busy of Some f \<Rightarrow> f (pane_ID p) | None \<Rightarrow> True))
                      [start..<stop]
                  in case sort_key (\<lambda>i. ActivePoint (paneAt (the (Slots u ! i)) w)) candidates of
                       [] \<Rightarrow> (False, w)
                     | to # rest \<Rightarrow>
                         (True, rebuildUltraTree (w\<lparr>Ultra := Some (u\<lparr>Slots := swapAt to src (Slots u)\<rparr>)\<rparr>)))))"

definition ultraReplacePane :: "uint32 \<Rightarrow> pane \<Rightarrow> window \<Rightarrow> bool \<times> window" where
  "ultraReplacePane oldPaneID replacement w =
     (case Ultra w of
        None \<Rightarrow> (False, w)
      | Some u \<Rightarrow>
          if LeadPaneID w = oldPaneID \<and> ultraLead w \<noteq> None
          then (True, w\<lparr>ultraLead := Some replacement, LeadPaneID := pane_ID replacement\<rparr>)
          else (case SlotOf u oldPaneID of
                  Some idx \<Rightarrow> (True, w\<lparr>Ultra := Some (u\<lparr>Slots := (Slots u)[idx := Some replacement]\<rparr>)\<rparr>)
                | None \<Rightarrow> (False, w)))"

text \<open>The loop of \<^verbatim>\<open>ultraUnsplice\<close> over the slots; the flag is \<^verbatim>\<open>replaced\<close>.\<close>

fun unspliceSlots :: "string \<Rightarrow> pane \<Rightarrow> bool \<Rightarrow> pane option list \<Rightarrow> pane option list \<times> bool" where
  "unspliceSlots host q replaced [] = ([], replaced)"
| "unspliceSlots host q replaced (s # ss) =
     (case s of
        Some p \<Rightarrow>
          if pane_IsProxy p \<and> pane_Host p = host then
            (let (ss', r) = unspliceSlots host q True ss in ((if replaced then None else Some q) # ss', r))
          else (let (ss', r) = unspliceSlots host q replaced ss in (s # ss', r))
      | None \<Rightarrow> (let (ss', r) = unspliceSlots host q replaced ss in (s # ss', r)))"

definition ultraUnsplice :: "string \<Rightarrow> pane \<Rightarrow> window \<Rightarrow> unit wres" where
  "ultraUnsplice hostName replacement w =
     (case Ultra w of
        None \<Rightarrow> err Panic w
      | Some u \<Rightarrow>
          (let leadHit = (case ultraLead w of Some p \<Rightarrow> pane_IsProxy p \<and> pane_Host p = hostName | None \<Rightarrow> False);
               w1 = (if leadHit then w\<lparr>ultraLead := Some replacement, LeadPaneID := pane_ID replacement\<rparr> else w);
               (ss, replaced) = unspliceSlots hostName replacement leadHit (Slots u)
           in if \<not> replaced then err (ErrNoSplicedPanes hostName) w1
              else let
                w2 = w1\<lparr>Ultra := Some (u\<lparr>Slots := ss\<rparr>)\<rparr>;
                w3 = (if (case ActivePane w2 of None \<Rightarrow> True
                          | Some p \<Rightarrow> pane_Host p = hostName \<or> \<not> HasPane (pane_ID p) w2)
                      then w2\<lparr>ActivePane := Some replacement\<rparr> else w2)
              in ok () (rebuildUltraTree (w3\<lparr>Ultra := Some (trimEmptyPages (u\<lparr>Slots := ss\<rparr>))\<rparr>))))"

end
