(* ===== verification/Window_Split.thy ===== *)
theory Window_Split
  imports Ultra
begin

text \<open>
  Operations that add, remove and regroup panes: splitting and closing (\<^verbatim>\<open>window.go\<close>), the
  anchored lead column (\<^verbatim>\<open>lead.go\<close>, and its width equalization from \<^verbatim>\<open>window_resize.go\<close>).
\<close>

section \<open>The anchored lead column\<close>

definition anchoredLeadWidthColumns :: "window \<Rightarrow> LayoutCell list" where
  "anchoredLeadWidthColumns w =
     (if \<not> hasAnchoredLead w then []
      else let logical = logicalRoot w in
        Children (Root w) ! 0 #
          (if \<not> IsLeaf logical \<and> splitAxis SplitVertical logical then Children logical else [logical]))"

definition anchoredLeadWidthTargets :: "window \<Rightarrow> LayoutCell list \<times> int list" where
  "anchoredLeadWidthTargets w =
     (let columns = anchoredLeadWidthColumns w in
      if length columns < 2 then (columns, [])
      else (columns, equalSplitSizes (Width w) (int (length columns))))"

definition anchoredLeadColumnsWidthChanged :: "window \<Rightarrow> bool" where
  "anchoredLeadColumnsWidthChanged w =
     (case anchoredLeadWidthTargets w of (columns, sizes) \<Rightarrow>
        if length columns < 2 then False
        else list_ex (\<lambda>(column, sz). cW column \<noteq> sz) (zip columns sizes))"

definition equalizedColumnGroupWidth :: "int list \<Rightarrow> int" where
  "equalizedColumnGroupWidth sizes = (if sizes = [] then 0 else sum_list sizes + (int (length sizes) - 1))"

definition equalizeAnchoredLeadColumns :: "window \<Rightarrow> window" where
  "equalizeAnchoredLeadColumns w =
     (case anchoredLeadWidthTargets w of (columns, sizes) \<Rightarrow>
        if length columns < 2 then w
        else let
          rootH = cH (Root w);
          lead = ResizeSubtree (sizes ! 0) rootH (Children (Root w) ! 0);
          logical0 = Children (Root w) ! 1;
          logical =
            (if length columns = 2 then ResizeSubtree (sizes ! 1) rootH logical0
             else FixOffsets
               (withChildren
                 (map (\<lambda>(column, sz). ResizeSubtree sz rootH column) (zip (Children logical0) (tl sizes)))
                 (setRect ((rectOf logical0)\<lparr>rW := equalizedColumnGroupWidth (tl sizes), rH := rootH\<rparr>) logical0)))
        in w\<lparr>Root := withChildren [lead, logical] (Root w)\<rparr>)"

text \<open>The parent of the split cell is the root and the cell its second child: path \<^term>\<open>[1::nat]\<close>.\<close>

definition shouldEqualizeAnchoredLeadAfterRootSplit :: "nat list \<Rightarrow> SplitDir \<Rightarrow> window \<Rightarrow> bool" where
  "shouldEqualizeAnchoredLeadAfterRootSplit path dir w \<longleftrightarrow>
     dir = SplitVertical \<and> hasAnchoredLead w \<and> path = [1]"

definition shouldEqualizeAnchoredLeadAfterClose :: "bool \<Rightarrow> window \<Rightarrow> bool" where
  "shouldEqualizeAnchoredLeadAfterClose prevAnchoredEqual w \<longleftrightarrow>
     prevAnchoredEqual \<and> hasAnchoredLead w \<and> anchoredLeadColumnsWidthChanged w"

section \<open>Splitting at a root\<close>

definition splitAvailable :: "LayoutCell \<Rightarrow> SplitDir \<Rightarrow> int" where
  "splitAvailable cell dir = (if dir = SplitHorizontal then cH cell else cW cell)"

definition canSplitCell :: "LayoutCell \<Rightarrow> SplitDir \<Rightarrow> bool" where
  "canSplitCell cell dir \<longleftrightarrow> (if dir = SplitHorizontal then cH cell else cW cell) \<ge> 2 * PaneMinSize + 1"

definition splitRootRequiredSize :: "LayoutCell \<Rightarrow> SplitDir \<Rightarrow> int" where
  "splitRootRequiredSize cell dir = minSubtreeSize dir cell + 1 + PaneMinSize"

text \<open>
  The tree work of a root split, on the cell that is split: a further child when it already
  splits in the same direction, a new node around it otherwise.
\<close>

definition splitTargetCell :: "SplitDir \<Rightarrow> pane \<Rightarrow> bool \<Rightarrow> LayoutCell \<Rightarrow> werror + LayoutCell" where
  "splitTargetCell dir newPane insertFirst target =
     (let required = splitRootRequiredSize target dir;
          available = splitAvailable target dir;
          newLeaf = NewLeaf (Some newPane) 0 0 0 0;
          r = rectOf target
      in if available < required then Inl (ErrSpace available required)
         else if \<not> IsLeaf target \<and> splitAxis dir target then
           (let children = (if insertFirst then newLeaf # Children target else Children target @ [newLeaf]) in
            case equalSubtreeSplitSizes children dir (axisSize dir target) of
              None \<Rightarrow> Inl (ErrSpace available required)
            | Some sizes \<Rightarrow> Inr (Node r dir (resizeChildrenTo r dir children sizes)))
         else
           (let children = (if insertFirst then [newLeaf, target] else [target, newLeaf]) in
            case frontLoadedSubtreeSplitSizes children dir (axisSize dir target) of
              None \<Rightarrow> Inl (ErrSpace available required)
            | Some sizes \<Rightarrow>
                (let (newSize, oldSize) = (if insertFirst then (sizes ! 0, sizes ! 1) else (sizes ! 1, sizes ! 0));
                     newLeaf' = (if dir = SplitVertical then NewLeaf (Some newPane) 0 0 newSize (rH r)
                                 else NewLeaf (Some newPane) 0 0 (rW r) newSize);
                     old = (if dir = SplitVertical then ResizeSubtree oldSize (rH r) target
                            else ResizeSubtree (rW r) oldSize target)
                 in Inr (Node r dir (if insertFirst then [newLeaf', old] else [old, newLeaf'])))))"

text \<open>
  \<open>splitRootTargetWithOptions\<close> and \<open>splitSubtreeRootWithOptions\<close> split the cell at a path; an
  empty path is the root itself (\<^verbatim>\<open>parent == nil\<close>).
\<close>

definition splitAtPath :: "nat list \<Rightarrow> SplitDir \<Rightarrow> pane \<Rightarrow> bool \<Rightarrow> SplitOptions \<Rightarrow> window \<Rightarrow> pane wres" where
  "splitAtPath path dir newPane insertFirst opts w =
     (let target = the (getAt path (Root w));
          sameDir = (\<not> IsLeaf target \<and> splitAxis dir target)
      in case splitTargetCell dir newPane insertFirst target of
           Inl e \<Rightarrow> err e w
         | Inr cell \<Rightarrow>
             (let w1 = w\<lparr>Root := updAt path (\<lambda>_. cell) (Root w)\<rparr>;
                  equalize = shouldEqualizeAnchoredLeadAfterRootSplit path dir (if sameDir then w else w1);
                  w2 = (if equalize then equalizeAnchoredLeadColumns w1 else w1);
                  w3 = resizePTYsPreservingZoomedPaneSize (w2\<lparr>Root := FixOffsets (Root w2)\<rparr>)
              in ok newPane (if \<not> KeepFocus opts then setActive newPane w3 else w3)))"

definition splitRootTargetWithOptions :: "nat list \<Rightarrow> SplitDir \<Rightarrow> pane \<Rightarrow> SplitOptions \<Rightarrow> window \<Rightarrow> pane wres" where
  "splitRootTargetWithOptions path dir newPane opts w = splitAtPath path dir newPane False opts w"

definition splitSubtreeRootWithOptions ::
  "nat list \<Rightarrow> SplitDir \<Rightarrow> pane \<Rightarrow> bool \<Rightarrow> SplitOptions \<Rightarrow> window \<Rightarrow> pane wres" where
  "splitSubtreeRootWithOptions path dir newPane insertFirst opts =
     andThen (unzoomIf (\<not> KeepFocus opts)) (\<lambda>_. splitAtPath path dir newPane insertFirst opts)"

definition materializePendingLead :: "pane \<Rightarrow> SplitOptions \<Rightarrow> window \<Rightarrow> pane wres" where
  "materializePendingLead newPane opts w = splitRootTargetWithOptions [] SplitVertical newPane opts w"

definition SplitRootWithOptions :: "SplitDir \<Rightarrow> pane \<Rightarrow> SplitOptions \<Rightarrow> window \<Rightarrow> pane wres" where
  "SplitRootWithOptions dir newPane opts =
     andThen (unzoomIf (\<not> KeepFocus opts)) (\<lambda>_ w.
       if Ultra w \<noteq> None then ultraInsert newPane opts w
       else if hasPendingLead w then materializePendingLead newPane opts w
       else splitRootTargetWithOptions (logicalRootPath w) dir newPane opts w)"

definition SplitRoot :: "SplitDir \<Rightarrow> pane \<Rightarrow> window \<Rightarrow> pane wres" where
  "SplitRoot dir newPane = SplitRootWithOptions dir newPane defaultSplitOptions"

section \<open>Splitting a pane\<close>

text \<open>
  The terminals of the new pane and of the pane that was split are resized first; when that
  fails the error is returned with the tree already changed.
\<close>

definition resizeCellPane :: "bool \<Rightarrow> LayoutCell \<Rightarrow> window \<Rightarrow> unit wres" where
  "resizeCellPane b cell w =
     (case cellPane cell of
        Some q \<Rightarrow> if b then Pane_Resize q (cW cell) (PaneContentHeight (cH cell)) w else ok () w
      | None \<Rightarrow> ok () w)"

definition splitCellWithOptions :: "nat list \<Rightarrow> SplitDir \<Rightarrow> pane \<Rightarrow> SplitOptions \<Rightarrow> window \<Rightarrow> pane wres" where
  "splitCellWithOptions path dir newPane opts w0 =
     (case splitWithOrder path dir (Some newPane) False (Root w0) of
        Inl e \<Rightarrow> err (ErrLayout e) w0
      | Inr (root, newPath, existingPath) \<Rightarrow>
          (let newCell = the (getAt newPath root); existingCell = the (getAt existingPath root) in
           andThen (Pane_Resize newPane (cW newCell) (PaneContentHeight (cH newCell))) (\<lambda>_ w1.
           andThen (resizeCellPane
                     (\<not> shouldKeepZoomedPaneSize (CellPaneID existingCell) opts w1) existingCell) (\<lambda>_ w2.
             let w3 = resizePTYsPreservingZoomedPaneSize (w2\<lparr>Root := FixOffsets (Root w2)\<rparr>)
             in ok newPane (if \<not> KeepFocus opts then setActive newPane w3 else w3)) w1)
           (w0\<lparr>Root := root\<rparr>)))"

definition SplitPaneWithOptions :: "uint32 \<Rightarrow> SplitDir \<Rightarrow> pane \<Rightarrow> SplitOptions \<Rightarrow> window \<Rightarrow> pane wres" where
  "SplitPaneWithOptions targetPaneID dir newPane opts =
     andThen (unzoomIf (\<not> KeepFocus opts)) (\<lambda>_ w.
       if Ultra w \<noteq> None then ultraInsert newPane opts w
       else if hasPendingLead w \<and> targetPaneID = LeadPaneID w then materializePendingLead newPane opts w
       else if IsLeadPane targetPaneID w then
         (if TreatLeadPaneAsWindowRef opts
          then splitRootTargetWithOptions (logicalRootPath w) dir newPane opts w
          else err ErrLeadPane w)
       else andThen (mustFindPane targetPaneID) (\<lambda>(path, cell).
              splitCellWithOptions path dir newPane opts) w)"

definition SplitWithOptions :: "SplitDir \<Rightarrow> pane \<Rightarrow> SplitOptions \<Rightarrow> window \<Rightarrow> pane wres" where
  "SplitWithOptions dir newPane opts w =
     (case ActivePane w of
        None \<Rightarrow> err Panic w
      | Some a \<Rightarrow> SplitPaneWithOptions (pane_ID a) dir newPane opts w)"

definition Split_active :: "SplitDir \<Rightarrow> pane \<Rightarrow> window \<Rightarrow> pane wres" where
  "Split_active dir newPane = SplitWithOptions dir newPane defaultSplitOptions"

section \<open>Closing a pane\<close>

definition focusAnyLeaf :: "uint32 \<Rightarrow> window \<Rightarrow> window" where
  "focusAnyLeaf paneID w =
     fold (\<lambda>c w.
         case (ActivePane w, cellPane c) of
           (Some a, Some q) \<Rightarrow> if pane_ID a = paneID then setActive q w else w
         | _ \<Rightarrow> w)
       (Walk (Root w)) w"

text \<open>The new focus: the cell \<^verbatim>\<open>Close\<close> returned when it is a leaf with a pane, else any leaf.\<close>

definition focusAfterClose :: "uint32 \<Rightarrow> nat list option \<Rightarrow> window \<Rightarrow> window" where
  "focusAfterClose paneID result w =
     (case Option.bind result (\<lambda>rp. Option.bind (getAt rp (Root w)) cellPane) of
        Some q \<Rightarrow> setActive q w
      | None \<Rightarrow> focusAnyLeaf paneID w)"

text \<open>
  \<open>collapseToRoot\<close>: the step after \<^verbatim>\<open>Close\<close> in \<^verbatim>\<open>ClosePane\<close> and \<^verbatim>\<open>SetLead\<close>; a returned cell
  without parent (empty path) becomes the root and gets the window's rectangle.
\<close>

definition collapseToRoot :: "LayoutCell \<times> nat list option \<Rightarrow> window \<Rightarrow> window" where
  "collapseToRoot closed w =
     (case closed of (root, result) \<Rightarrow>
        w\<lparr>Root := ResizeAll (Width w) (Height w)
             (if result = Some [] then setRect (mkRect 0 0 (Width w) (Height w)) root else root)\<rparr>)"

definition ClosePane :: "uint32 \<Rightarrow> window \<Rightarrow> unit wres" where
  "ClosePane paneID w =
     (if Ultra w \<noteq> None then ultraClose paneID w
      else andThen (mustFindPane paneID) (\<lambda>(path, cell) w0.
        let prevCount = length (anchoredLeadWidthColumns w0);
            prevEqual = (prevCount > 0 \<and> \<not> anchoredLeadColumnsWidthChanged w0)
        in if length (Walk (Root w0)) \<le> 1 then err ErrLastPane w0
           else let
             w1 = (if LeadPaneID w0 = paneID then w0\<lparr>LeadPaneID := 0\<rparr> else w0);
             w2 = (if ZoomedPaneID w1 = paneID then w1\<lparr>ZoomedPaneID := 0\<rparr> else w1);
             closed = CloseCell path (Root w2);
             w3 = collapseToRoot closed w2;
             w4 = (if length (anchoredLeadWidthColumns w3) < prevCount \<and>
                      shouldEqualizeAnchoredLeadAfterClose prevEqual w3
                   then equalizeAnchoredLeadColumns w3 else w3)
           in case ActivePane w4 of
                None \<Rightarrow> err Panic w4
              | Some a \<Rightarrow>
                  (let w5 =
                     (if pane_ID a = paneID then focusAfterClose paneID (snd closed) w4 else w4)
                   in ok () (resizePTYs (w5\<lparr>Root := FixOffsets (Root w5)\<rparr>)))) w)"

section \<open>Lead\<close>

definition SetLead :: "uint32 \<Rightarrow> window \<Rightarrow> unit wres" where
  "SetLead paneID w0 =
     (if LeadPaneID w0 = paneID then ok () w0
      else andThen (unzoomIf True) (\<lambda>_ w.
        if Ultra w \<noteq> None then ultraSetLead paneID w
        else case FindPane paneID (Root w) of
          None \<Rightarrow> err (ErrNotFound paneID) w
        | Some (path, cell) \<Rightarrow>
            if IsLeaf (Root w) then ok () (w\<lparr>LeadPaneID := paneID\<rparr>)
            else if splitAxis SplitVertical (Root w) \<and> length (Children (Root w)) = 2 \<and>
                    IsLeaf (Children (Root w) ! 0) \<and> cellHasPaneID paneID (Children (Root w) ! 0)
              then ok () (w\<lparr>LeadPaneID := paneID\<rparr>)
            else let
              w1 = w\<lparr>LeadPaneID := 0\<rparr>;
              savedW = cW cell;
              w2 = collapseToRoot (CloseCell path (Root w1)) w1;
              minW = max 20 (go_div (Width w2) 5);
              maxW = go_div (Width w2 * 4) 5;
              leadW0 = max (min savedW maxW) minW;
              rightW0 = Width w2 - leadW0 - 1;
              (leadW, rightW) = (if rightW0 < 1 then (Width w2 - 1 - 1, 1) else (leadW0, rightW0));
              leadLeaf = NewLeaf (cellPane cell) 0 0 leadW (Height w2);
              newRoot = Node (mkRect 0 0 (Width w2) (Height w2)) SplitVertical
                          [leadLeaf, ResizeSubtree rightW (Height w2) (Root w2)]
            in ok () ((resizePTYs (w2\<lparr>Root := FixOffsets newRoot\<rparr>))\<lparr>LeadPaneID := paneID\<rparr>)) w0)"

definition UnsetLead :: "window \<Rightarrow> unit wres" where
  "UnsetLead w =
     (if LeadPaneID w = 0 then err ErrNoLead w
      else if Ultra w \<noteq> None then ultraUnsetLead w
      else ok () (w\<lparr>LeadPaneID := 0\<rparr>))"

section \<open>Splits keep the invariant\<close>

lemma Pane_Resize_tree_ok:
  assumes "tree_ok w"
  obtains w' where "Pane_Resize q cols rows w = (Inr (), w')" "tree_ok w'" "Root w' = Root w"
    "ActivePane w' = ActivePane w" "ZoomedPaneID w' = ZoomedPaneID w"
proof -
  have "tree_ok (snd (Pane_Resize q cols rows w))" using assms by (subst tree_ok_cong [of _ w]) simp_all
  moreover have "Pane_Resize q cols rows w = (Inr (), snd (Pane_Resize q cols rows w))"
    using assms by (intro Pane_Resize_Inr) (simp add: tree_ok_def mode_ok_def)
  ultimately show ?thesis using that by simp
qed

lemma resizeCellPane_tree_ok:
  assumes "tree_ok w"
  obtains w' where "resizeCellPane b c w = (Inr (), w')" "tree_ok w'" "Root w' = Root w"
    "ActivePane w' = ActivePane w" "ZoomedPaneID w' = ZoomedPaneID w"
proof (cases "b \<and> cellPane c \<noteq> None")
  case True
  then obtain q where "b" "cellPane c = Some q" by auto
  moreover obtain w' where "Pane_Resize q (cW c) (PaneContentHeight (cH c)) w = (Inr (), w')" "tree_ok w'" "Root w' = Root w"
      "ActivePane w' = ActivePane w" "ZoomedPaneID w' = ZoomedPaneID w"
    by (rule Pane_Resize_tree_ok [OF assms])
  ultimately show ?thesis using that by (simp add: resizeCellPane_def)
next
  case False
  then show ?thesis using that [of w] assms by (auto simp: resizeCellPane_def split: option.splits)
qed

lemma splitCellWithOptions_no_room:
  assumes "getAt path (Root w) = Some (Leaf r l)" "axisSize dir (Leaf r l) < 2 * PaneMinSize + 1"
  shows "splitCellWithOptions path dir np opts w =
    (Inl (ErrLayout (ErrNoSpace (axisSize dir (Leaf r l)) (2 * PaneMinSize + 1))), w)"
  using assms by (simp add: splitCellWithOptions_def splitWithOrder_def Let_def)

lemma splitCellWithOptions_success:
  assumes ok: "window_ok w" and f: "getAt path (Root w) = Some (Leaf r l)" "Pane l = Some q" and np: "fresh np (Root w)"
    and room: "2 * PaneMinSize + 1 \<le> axisSize dir (Leaf r l)"
  obtains w' pre post where "splitCellWithOptions path dir np opts w = (Inr np, w')" "window_ok w'"
    "leafPanes (Root w) = pre @ [q] @ post" "leafPanes (Root w') = pre @ [q, np] @ post"
    "ActivePane w' = (if KeepFocus opts then ActivePane w else Some np)" "ZoomedPaneID w' = ZoomedPaneID w"
proof -
  obtain root npath epath where split: "splitWithOrder path dir (Some np) False (Root w) = Inr (root, npath, epath)"
    using f(1) room by (cases "splitWithOrder path dir (Some np) False (Root w)")
      (auto simp: splitWithOrder_def Let_def split: if_splits)
  have t: "tree_ok w" and occ: "occupied (Root w)" and sz: "sized (Root w)"
    using window_ok_tree [OF ok] by (auto simp: tree_ok_def panes_ok_def)
  obtain pre post where pp: "leafPanes (Root w) = pre @ [q] @ post" "leafPanes root = pre @ [q, np] @ post"
    and s: "sized root" "occupied root"
    using splitWithOrder_props [OF sz f split] occ by auto
  have "rectOf root = rectOf (Root w)" using rectOf_splitWithOrder [OF split] f by simp
  moreover have "mset (leafPanes root) = add_mset np (mset (leafPanes (Root w)))" using pp by simp
  ultimately have t1: "tree_ok (w\<lparr>Root := root\<rparr>)" and in_np: "np \<in> set (leafPanes root)"
    using tree_ok_add [OF t s(1) _ s(2) _ np] by auto
  let ?nc = "the (getAt npath root)" and ?ec = "the (getAt epath root)" and ?w = "w\<lparr>Root := root\<rparr>"
  obtain w1 where w1: "Pane_Resize np (cW ?nc) (PaneContentHeight (cH ?nc)) ?w = (Inr (), w1)" "tree_ok w1"
    and r1: "Root w1 = Root ?w" "ActivePane w1 = ActivePane ?w" "ZoomedPaneID w1 = ZoomedPaneID ?w"
    by (rule Pane_Resize_tree_ok [OF t1])
  obtain w2 where w2: "resizeCellPane (\<not> shouldKeepZoomedPaneSize (CellPaneID ?ec) opts w1) ?ec w1 = (Inr (), w2)"
    "tree_ok w2" and r2: "Root w2 = Root w1" "ActivePane w2 = ActivePane w1" "ZoomedPaneID w2 = ZoomedPaneID w1"
    by (rule resizeCellPane_tree_ok [OF w1(2)])
  let ?w3 = "resizePTYsPreservingZoomedPaneSize (w2\<lparr>Root := FixOffsets (Root w2)\<rparr>)"
  let ?w4 = "if \<not> KeepFocus opts then setActive np ?w3 else ?w3"
  have "splitCellWithOptions path dir np opts w = (Inr np, ?w4)"
    using split w1(1) w2(1) by (simp add: splitCellWithOptions_def Let_def)
  moreover have "window_ok ?w4"
    using r1(1) r2(1) in_np window_ok_setActive tree_ok_FixOffsets(2) [OF w2(2)] by simp
  ultimately show ?thesis using that [of ?w4 pre post] pp r1 r2 by simp
qed

lemma splitCellWithOptions_ok:
  assumes ok: "window_ok w" and f: "getAt path (Root w) = Some (Leaf r l)" "Pane l = Some q" and np: "fresh np (Root w)"
  shows "window_ok (snd (splitCellWithOptions path dir np opts w))"
proof (cases "axisSize dir (Leaf r l) < 2 * PaneMinSize + 1")
  case True
  then show ?thesis using splitCellWithOptions_no_room [OF f(1)] ok by simp
next
  case False
  then show ?thesis using splitCellWithOptions_success [OF ok f np, where dir = dir and opts = opts] by (metis not_le snd_conv)
qed

lemma mustFindPane_ok:
  assumes "window_ok w"
  obtains "mustFindPane i w = (Inl (ErrNotFound i), w)" "i \<notin> pane_ID ` set (leafPanes (Root w))"
  | path r l q where "mustFindPane i w = (Inr (path, Leaf r l), w)" "getAt path (Root w) = Some (Leaf r l)"
      "Pane l = Some q" "pane_ID q = i" "q \<in> set (leafPanes (Root w))"
proof (cases "i \<in> pane_ID ` set (leafPanes (Root w))")
  case True
  then obtain q where q: "q \<in> set (leafPanes (Root w))" "pane_ID q = i" by auto
  have "panes_ok (Root w)" using assms by (simp add: window_ok_def)
  then obtain p r l where "FindPane i (Root w) = Some (p, Leaf r l)" "Pane l = Some q" "getAt p (Root w) = Some (Leaf r l)"
    using FindPane_ok [OF _ q(1)] q(2) by metis
  then show ?thesis using that(2) [of p r l q] q by (simp add: mustFindPane_def)
next
  case False
  then show ?thesis using that(1) FindPane_None [of i "Root w"] by (simp add: mustFindPane_def)
qed

lemma SplitPaneWithOptions_ok:
  assumes "window_ok w" "fresh np (Root w)"
  shows "window_ok (snd (SplitPaneWithOptions i dir np opts w))"
proof -
  obtain w1 where w1: "unzoomIf (\<not> KeepFocus opts) w = (Inr (), w1)" "window_ok w1" "Root w1 = Root w"
    using unzoomIf_ok [OF assms(1)] by metis
  show ?thesis
  proof (cases rule: mustFindPane_ok [OF w1(2), of i])
    case 1
    then show ?thesis using w1 window_ok_mode [OF w1(2)] by (simp add: SplitPaneWithOptions_def)
  next
    case (2 path r l q)
    then show ?thesis
      using w1 window_ok_mode [OF w1(2)] splitCellWithOptions_ok [OF w1(2) 2(2,3)] assms(2)
      by (simp add: SplitPaneWithOptions_def)
  qed
qed

text \<open>
  Splitting a pane succeeds exactly when its cell has room for two minimal panes and a border;
  the new pane comes right after it. Only the zoom ends when there is no room.
\<close>

lemma SplitPaneWithOptions_success:
  assumes ok: "window_ok w" and np: "fresh np (Root w)" and q: "q \<in> set (leafPanes (Root w))"
    and room: "FindPane (pane_ID q) (Root w) = Some (path, cell)" "2 * PaneMinSize + 1 \<le> axisSize dir cell"
  obtains w' pre post where "SplitPaneWithOptions (pane_ID q) dir np opts w = (Inr np, w')" "window_ok w'"
    "leafPanes (Root w) = pre @ [q] @ post" "leafPanes (Root w') = pre @ [q, np] @ post"
    "ActivePane w' = (if KeepFocus opts then ActivePane w else Some np)"
    "ZoomedPaneID w' = (if KeepFocus opts then ZoomedPaneID w else 0)"
proof -
  obtain w1 where w1: "unzoomIf (\<not> KeepFocus opts) w = (Inr (), w1)" "window_ok w1" "Root w1 = Root w"
    "ActivePane w1 = ActivePane w" "ZoomedPaneID w1 = (if KeepFocus opts then ZoomedPaneID w else 0)"
    by (rule unzoomIf_ok [OF ok, of "\<not> KeepFocus opts"]) (auto simp: unzoomIf_def split: if_splits)
  have p: "panes_ok (Root w)" using ok by (simp add: window_ok_def)
  obtain p' r l where f: "FindPane (pane_ID q) (Root w) = Some (p', Leaf r l)" "Pane l = Some q" "getAt p' (Root w) = Some (Leaf r l)"
    using FindPane_ok [OF p q] by metis
  then have cell: "cell = Leaf r l" "path = p'" using room(1) by simp_all
  have np1: "fresh np (Root w1)" and g1: "getAt p' (Root w1) = Some (Leaf r l)" using np f(3) w1(3) by simp_all
  obtain w' pre post where w': "splitCellWithOptions p' dir np opts w1 = (Inr np, w')" "window_ok w'"
    "leafPanes (Root w1) = pre @ [q] @ post" "leafPanes (Root w') = pre @ [q, np] @ post"
    "ActivePane w' = (if KeepFocus opts then ActivePane w1 else Some np)" "ZoomedPaneID w' = ZoomedPaneID w1"
    by (rule splitCellWithOptions_success [OF w1(2) g1 f(2) np1 room(2) [unfolded cell]])
  have "SplitPaneWithOptions (pane_ID q) dir np opts w = (Inr np, w')"
    using w1 window_ok_mode [OF w1(2)] f(1) w'(1) by (simp add: SplitPaneWithOptions_def mustFindPane_def)
  then show ?thesis using that [of w' pre post] w' w1 by simp
qed

text \<open>
  A root split succeeds exactly when the cell has room for its own minimum, a border and one
  more pane; it keeps the cell's rectangle and adds the pane at one end.
\<close>

lemma splitAvailable_axis: "splitAvailable c dir = axisSize dir c"
  by (cases dir) (simp_all add: splitAvailable_def axisSize_def)

lemma splitTargetCell_same_dir:
  assumes s: "sized (Node r dir cs)" and room: "splitRootRequiredSize (Node r dir cs) dir \<le> axisLen dir r"
    and ks: "ks = (if before then NewLeaf (Some np) 0 0 0 0 # cs else cs @ [NewLeaf (Some np) 0 0 0 0])"
  obtains kids where "splitTargetCell dir np before (Node r dir cs) = Inr (Node r dir kids)"
    "sized (Node r dir kids)" "map shape kids = map shape ks"
proof -
  have "sum_list (map (minSubtreeSize dir) ks) + (int (length ks) - 1) \<le> axisLen dir r"
    using s room ks by (auto simp: splitRootRequiredSize_def split: if_splits)
  moreover have "minSubtreeSize (flip dir) c \<le> axisLen (flip dir) r" if "c \<in> set ks" for c
    using that ks sized_flip_min [OF s] by (auto split: if_splits)
  moreover have "2 \<le> length ks" "\<forall>c \<in> set ks. branching c" using s sized_branching [OF s] ks by (auto split: if_splits)
  ultimately obtain sizes where sizes: "equalMinSizes (map (minSubtreeSize dir) ks) (axisLen dir r) = Some sizes"
    "sized (Node r dir (resizeChildrenTo r dir ks sizes))" "map shape (resizeChildrenTo r dir ks sizes) = map shape ks"
    using equal_split.sized_alloc_children [of ks dir r] by metis
  have "splitTargetCell dir np before (Node r dir cs) = Inr (Node r dir (resizeChildrenTo r dir ks sizes))"
    using room sizes(1) unfolding ks
    by (cases before) (simp_all add: splitTargetCell_def splitAvailable_axis Let_def equalSubtreeSplitSizes_def)
  then show ?thesis using that sizes by blast
qed

lemma splitTargetCell_wrap:
  assumes s: "sized target" and room: "splitRootRequiredSize target dir \<le> axisSize dir target"
    and d: "\<not> splitAxis dir target"
    and ks: "ks = (if before then [NewLeaf (Some np) 0 0 0 0, target] else [target, NewLeaf (Some np) 0 0 0 0])"
  obtains kids where "splitTargetCell dir np before target = Inr (Node (rectOf target) dir kids)"
    "sized (Node (rectOf target) dir kids)" "map shape kids = map shape ks"
proof -
  let ?r = "rectOf target"
  have br: "branching target" using s by (rule sized_branching)
  have "sum_list (map (minSubtreeSize dir) ks) + (int (length ks) - 1) \<le> axisLen dir ?r"
    using room ks by (auto simp: splitRootRequiredSize_def axisSize_def split: if_splits)
  moreover have fl: "minSubtreeSize (flip dir) c \<le> axisLen (flip dir) ?r" if "c \<in> set ks" for c
    using that ks minSubtreeSize_le_axisSize [OF s, of "flip dir"] minSubtreeSize_ge [OF br, of "flip dir"]
    by (auto simp: axisSize_def split: if_splits)
  moreover have "2 \<le> length ks" "\<forall>c \<in> set ks. branching c" using br ks by (auto split: if_splits)
  ultimately obtain sizes where sizes: "frontLoadedMinSizes (map (minSubtreeSize dir) ks) (axisLen dir ?r) = Some sizes"
    "length sizes = length ks"
    "sized (Node ?r dir (resizeChildrenTo ?r dir ks sizes))" "map shape (resizeChildrenTo ?r dir ks sizes) = map shape ks"
    using front_loaded.sized_alloc_children [of ks dir ?r] by metis
  obtain a b where ab: "sizes = [a, b]" using sizes(2) ks by (cases sizes; cases "tl sizes") (auto split: if_splits)
  have "minimums_ok (map (minSubtreeSize dir) ks)"
    using ks minSubtreeSize_ge [OF br] by (auto simp: minimums_ok_def)
  moreover have "1 \<le> axisLen dir ?r"
    using room minSubtreeSize_ge [OF br, of dir] by (simp add: splitRootRequiredSize_def axisSize_def PaneMinSize_def)
  ultimately have "list_all2 (\<le>) (map (minSubtreeSize dir) ks) sizes"
    using front_loaded.alloc_minimums sizes(1,2) ks by (auto split: if_splits)
  then have "PaneMinSize \<le> a \<and> PaneMinSize \<le> b"
    using ab ks minSubtreeSize_ge [OF br, of dir] by (auto split: if_splits)
  moreover have "PaneMinSize \<le> axisLen (flip dir) ?r" using fl [of "NewLeaf (Some np) 0 0 0 0"] ks by (auto split: if_splits)
  ultimately have leaf: "resizeKid dir (\<lambda>a. axisLen a ?r) (NewLeaf (Some np) 0 0 0 0) n =
      (if dir = SplitVertical then NewLeaf (Some np) 0 0 n (rH ?r) else NewLeaf (Some np) 0 0 (rW ?r) n)"
    if "n = a \<or> n = b" for n
    using that by (cases dir) (auto simp: resizeKid_def NewLeaf_def mkRect_def)
  have "splitTargetCell dir np before target = Inr (Node ?r dir (resizeChildrenTo ?r dir ks sizes))"
    using room d sizes(1) ks [symmetric] leaf [of a] leaf [of b]
    by (auto simp: splitTargetCell_def splitAvailable_axis axisSize_def Let_def frontLoadedSubtreeSplitSizes_def
        resizeChildrenTo_def ab resizeKid_def split: if_splits)
  then show ?thesis using that sizes by blast
qed

lemma splitTargetCell_props:
  assumes s: "sized target" and room: "splitRootRequiredSize target dir \<le> axisSize dir target"
  obtains cell where "splitTargetCell dir np before target = Inr cell" "sized cell" "rectOf cell = rectOf target"
    "leafPanes cell = (if before then np # leafPanes target else leafPanes target @ [np])"
    "occupied target \<Longrightarrow> occupied cell" "\<not> IsLeaf cell"
proof (cases "splitAxis dir target")
  case True
  then obtain r cs where t: "target = Node r dir cs" by (cases target) auto
  have room': "splitRootRequiredSize (Node r dir cs) dir \<le> axisLen dir r" using room t by simp
  obtain kids where k: "splitTargetCell dir np before target = Inr (Node r dir kids)" "sized (Node r dir kids)"
    "map shape kids = map shape (if before then NewLeaf (Some np) 0 0 0 0 # cs else cs @ [NewLeaf (Some np) 0 0 0 0])"
    unfolding t by (rule splitTargetCell_same_dir [OF s [unfolded t] room' refl])
  have "occupied (Node r dir kids) = list_all occupied (map shape kids)" by (simp add: list_all_iff)
  then have "occupied (Node r dir kids)" if "occupied target"
    using that t unfolding k(3) by (cases before) (simp_all add: list_all_iff)
  moreover have "leafPanes (Node r dir kids) = (if before then np # leafPanes target else leafPanes target @ [np])"
    using leafPanes_map_shape [OF k(3)] t by (cases before) simp_all
  ultimately show ?thesis using that [OF k(1,2)] t by simp
next
  case False
  obtain kids where k: "splitTargetCell dir np before target = Inr (Node (rectOf target) dir kids)"
    "sized (Node (rectOf target) dir kids)"
    "map shape kids = map shape (if before then [NewLeaf (Some np) 0 0 0 0, target] else [target, NewLeaf (Some np) 0 0 0 0])"
    by (rule splitTargetCell_wrap [OF s room False refl])
  have "occupied (Node (rectOf target) dir kids) = list_all occupied (map shape kids)" by (simp add: list_all_iff)
  then have "occupied (Node (rectOf target) dir kids)" if "occupied target"
    using that unfolding k(3) by (cases before) (simp_all add: list_all_iff)
  moreover have "leafPanes (Node (rectOf target) dir kids) = (if before then np # leafPanes target else leafPanes target @ [np])"
    using leafPanes_map_shape [OF k(3)] by (cases before) simp_all
  ultimately show ?thesis using that [OF k(1,2)] by simp
qed

lemma splitTargetCell_room:
  "axisSize dir target < splitRootRequiredSize target dir \<Longrightarrow>
     splitTargetCell dir np before target = Inl (ErrSpace (axisSize dir target) (splitRootRequiredSize target dir))"
  by (simp add: splitTargetCell_def splitAvailable_axis Let_def)

lemma splitAtPath_root_ok:
  assumes ok: "window_ok w" and np: "fresh np (Root w)"
  shows "window_ok (snd (splitAtPath [] dir np before opts w))"
proof (cases "splitRootRequiredSize (Root w) dir \<le> axisSize dir (Root w)")
  case True
  have t: "tree_ok w" using ok by (rule window_ok_tree)
  then have s: "sized (Root w)" "occupied (Root w)" by (auto simp: tree_ok_def panes_ok_def)
  obtain cell where c: "splitTargetCell dir np before (Root w) = Inr cell" "sized cell" "rectOf cell = rectOf (Root w)"
    "leafPanes cell = (if before then np # leafPanes (Root w) else leafPanes (Root w) @ [np])" "occupied cell"
    using splitTargetCell_props [OF s(1) True] s(2) by metis
  have "mset (leafPanes cell) = add_mset np (mset (leafPanes (Root w)))" using c(4) by simp
  then have t1: "tree_ok (w\<lparr>Root := cell\<rparr>)" "np \<in> set (leafPanes cell)"
    using tree_ok_add [OF t c(2,3,5) _ np] by auto
  have "window_ok (resizePTYsPreservingZoomedPaneSize (w\<lparr>Root := FixOffsets cell\<rparr>))"
    using tree_ok_FixOffsets(2) [OF t1(1)] by simp
  then show ?thesis
    using c(1) t1(2) window_ok_setActive
    by (simp add: splitAtPath_def Let_def shouldEqualizeAnchoredLeadAfterRootSplit_def)
next
  case False
  then show ?thesis using ok splitTargetCell_room by (simp add: splitAtPath_def Let_def)
qed

lemma SplitRootWithOptions_ok:
  assumes "window_ok w" "fresh np (Root w)"
  shows "window_ok (snd (SplitRootWithOptions dir np opts w))"
proof -
  obtain w1 where w1: "unzoomIf (\<not> KeepFocus opts) w = (Inr (), w1)" "window_ok w1" "Root w1 = Root w"
    using unzoomIf_ok [OF assms(1)] by metis
  then show ?thesis
    using window_ok_mode [OF w1(2)] splitAtPath_root_ok [OF w1(2)] assms(2)
    by (simp add: SplitRootWithOptions_def splitRootTargetWithOptions_def)
qed

section \<open>Closing keeps the invariant\<close>

lemma not_anchored [simp]: "\<not> hasAnchoredLead w \<Longrightarrow> anchoredLeadWidthColumns w = []"
  by (simp add: anchoredLeadWidthColumns_def)

lemma ResizeAll_same:
  assumes "sized c" "rectOf c = mkRect x y w h"
  shows "ResizeAll w h c = FixOffsets c"
  using assms by (simp add: ResizeAll_def resizeToAxis_def axisSize_def)

lemma setRect_same [simp]: "rectOf c = r \<Longrightarrow> setRect r c = c"
  by (cases c) auto

lemma getAt_shape:
  "getAt p c = Some l \<Longrightarrow> shape c' = shape c \<Longrightarrow> \<exists>l'. getAt p c' = Some l' \<and> shape l' = shape l"
proof (induction p c arbitrary: c' rule: getAt.induct)
  case (3 i p r d cs)
  then obtain r' cs' where c': "c' = Node r' d cs'" "map shape cs' = map shape cs" by (cases c') auto
  have i: "i < length cs" "getAt p (cs ! i) = Some l" using "3.prems"(1) by (auto split: if_splits)
  have "length cs' = length cs" "shape (cs' ! i) = shape (cs ! i)"
    using c'(2) i(1) by (metis length_map, metis length_map nth_map)
  then show ?case using "3.IH" [OF i(1) i(2)] i c'(1) by simp
qed auto

lemma getAt_FixOffsets:
  "getAt p c = Some l \<Longrightarrow> \<exists>l'. getAt p (FixOffsets c) = Some l' \<and> shape l' = shape l"
  by (rule getAt_shape) simp_all

lemma focusAnyLeaf_fold:
  assumes "ActivePane w = Some a" "pane_ID a = i"
    "\<exists>c \<in> set cs. cellPane c \<noteq> None" "\<forall>c \<in> set cs. \<forall>q. cellPane c = Some q \<longrightarrow> pane_ID q \<noteq> i"
  defines "step \<equiv> \<lambda>c w. case (ActivePane w, cellPane c) of
           (Some a, Some q) \<Rightarrow> if pane_ID a = i then setActive q w else w
         | _ \<Rightarrow> w"
  shows "\<exists>c \<in> set cs. \<exists>q. cellPane c = Some q \<and> fold step cs w = setActive q w"
  using assms(1-4)
proof (induction cs)
  case (Cons c cs)
  show ?case
  proof (cases "cellPane c")
    case None
    then show ?thesis using Cons by (simp add: step_def)
  next
    case (Some q)
    have "fold step cs (setActive q w) = setActive q w" for cs
      using Some Cons.prems(4) by (induction cs) (auto simp: step_def split: option.splits)
    then show ?thesis using Some Cons.prems by (simp add: step_def)
  qed
qed simp

lemma focusAnyLeaf_ok:
  assumes "ActivePane w = Some a" "pane_ID a = i" "leafPanes (Root w) \<noteq> []"
    "i \<notin> pane_ID ` set (leafPanes (Root w))"
  shows "\<exists>q \<in> set (leafPanes (Root w)). focusAnyLeaf i w = setActive q w"
proof -
  have "\<exists>c \<in> set (Walk (Root w)). cellPane c \<noteq> None"
    using assms(3) set_leafPanes by (metis last_in_set option.distinct(1))
  moreover have "\<forall>c \<in> set (Walk (Root w)). \<forall>q. cellPane c = Some q \<longrightarrow> pane_ID q \<noteq> i"
    using assms(4) set_leafPanes by (metis imageI)
  ultimately show ?thesis
    using focusAnyLeaf_fold [OF assms(1,2), of "Walk (Root w)"] set_leafPanes unfolding focusAnyLeaf_def by blast
qed

lemma tree_ok_remove:
  assumes "tree_ok w" "sized (Root w')" "rectOf (Root w') = rectOf (Root w)" "occupied (Root w')"
    "mset (leafPanes (Root w)) = add_mset q (mset (leafPanes (Root w')))"
    "ActivePane w' = Some a" "a \<in> set (leafPanes (Root w'))"
    "ZoomedPaneID w' = (if ZoomedPaneID w = pane_ID q then 0 else ZoomedPaneID w)"
    "Width w' = Width w" "Height w' = Height w" "LeadPaneID w' = LeadPaneID w" "Ultra w' = Ultra w"
    "setsizeFails w' = setsizeFails w"
  shows "tree_ok w'"
proof -
  have p: "panes_ok (Root w')" using panes_ok_remove [OF _ assms(5,4)] assms(1) by (simp add: tree_ok_def)
  have "set (leafPanes (Root w)) = insert q (set (leafPanes (Root w')))"
    using mset_eq_setD [of "leafPanes (Root w)" "q # leafPanes (Root w')"] assms(5) by simp
  then have "zoom_ok w'" using assms(1,8) by (auto simp: tree_ok_def zoom_ok_def)
  then show ?thesis using assms p by (simp add: tree_ok_def active_ok_def mode_ok_def)
qed

lemma length_Walk: "occupied c \<Longrightarrow> length (Walk c) = length (leafPanes c)"
proof (induction c)
  case (Node r d cs)
  then show ?case by (induction cs) auto
qed auto

text \<open>The focus after a close: kept when the closed pane \<open>q\<close> did not have it, else on a pane that is left.\<close>

lemma close_focus:
  assumes "ActivePane w = Some a" "getAt rp (Root w) = Some k" "leafPanes (Root w) \<noteq> []"
    "pane_ID q \<notin> pane_ID ` set (leafPanes (Root w))"
    "if pane_ID a = pane_ID q then a = q else a \<in> set (leafPanes (Root w))"
  defines "w' \<equiv> if pane_ID a = pane_ID q then focusAfterClose (pane_ID q) (Some rp) w else w"
  shows "\<exists>b \<in> set (leafPanes (Root w)). (a \<noteq> q \<longrightarrow> b = a) \<and> (w' = setActive b w \<or> w' = w \<and> b = a)"
proof (cases "pane_ID a = pane_ID q")
  case True
  show ?thesis
  proof (cases "cellPane k")
    case (Some x)
    then have "x \<in> set (leafPanes (Root w))" using assms(2) getAt_leafPanes by blast
    then show ?thesis using True assms(2,5) Some by (auto simp: focusAfterClose_def w'_def)
  next
    case None
    then show ?thesis using focusAnyLeaf_ok [OF assms(1) True assms(3,4)] True assms(2,5)
      by (auto simp: focusAfterClose_def w'_def)
  qed
qed (use assms in auto)

text \<open>
  Closing a pane of a window with more than one: the pane, and only it, leaves the layout; focus
  stays, or moves to a pane that is shown.
\<close>

text \<open>Refitting a tree that is well formed gives every emulator the size of its leaf.\<close>

lemma refit_emulators:
  assumes t: "tree_ok w" and e: "\<And>j. emulator (heap w j) = emulator (heap w0 j)"
  shows "\<forall>c \<in> set (Walk (Root (resizePTYs (w\<lparr>Root := FixOffsets (Root w)\<rparr>)))). \<forall>p. cellPane c = Some p \<longrightarrow>
    emulator (paneAt p (resizePTYs (w\<lparr>Root := FixOffsets (Root w)\<rparr>))) = map_option (\<lambda>_. leafSize c) (emulator (paneAt p w0))"
  using emulator_resizePTYsExcept [of "w\<lparr>Root := FixOffsets (Root w)\<rparr>" _ _ 0] layout_ok_FixOffsets [of w] t e
  by (auto simp: resizePTYs_def tree_ok_def layout_ok_def)

text \<open>What closing a leaf leaves behind, before any window state is touched.\<close>

lemma CloseCell_leaf:
  assumes t: "tree_ok w" and q: "q \<in> set (leafPanes (Root w))" and two: "length (leafPanes (Root w)) > 1"
  obtains path c root rp k pre post where "FindPane (pane_ID q) (Root w) = Some (path, c)" "CloseCell path (Root w) = (root, Some rp)"
    "getAt rp root = Some k" "sized root" "rectOf root = mkRect 0 0 (Width w) (Height w)" "occupied root"
    "leafPanes (Root w) = pre @ [q] @ post" "leafPanes root = pre @ post" "pane_ID q \<notin> pane_ID ` set (leafPanes root)"
proof -
  have s: "sized (Root w)" "panes_ok (Root w)" "occupied (Root w)" using t by (auto simp: tree_ok_def panes_ok_def)
  obtain path r l where f: "FindPane (pane_ID q) (Root w) = Some (path, Leaf r l)" "Pane l = Some q" "getAt path (Root w) = Some (Leaf r l)"
    using FindPane_ok [OF s(2) q] by metis
  have path: "path \<noteq> []" using f(3) two length_Walk [OF s(3)] by (cases path) auto
  obtain root res where close: "CloseCell path (Root w) = (root, res)" by fastforce
  note cp = CloseCell_props [OF s(1) path f(3,2) close]
  obtain rp k where rp: "res = Some rp" "getAt rp root = Some k" using cp(3) by auto
  obtain pre post where pp: "leafPanes (Root w) = pre @ [q] @ post" "leafPanes root = pre @ post" using cp(4) by auto
  have "pane_ID q \<notin> pane_ID ` set (leafPanes root)" using s(2) pp by (auto simp: panes_ok_def)
  then show thesis using that f(1) close rp cp t s(3) pp by (simp add: tree_ok_def)
qed

lemma ClosePane_success:
  assumes ok: "window_ok w" and q: "q \<in> set (leafPanes (Root w))" and two: "length (leafPanes (Root w)) > 1"
  obtains w' where "ClosePane (pane_ID q) w = (Inr (), w')" "window_ok w'"
    "\<exists>pre post. leafPanes (Root w) = pre @ [q] @ post \<and> leafPanes (Root w') = pre @ post"
    "ActivePane w \<noteq> Some q \<longrightarrow> ActivePane w' = ActivePane w"
    "ZoomedPaneID w' = (if ZoomedPaneID w = pane_ID q then 0 else ZoomedPaneID w)"
    "\<forall>c \<in> set (Walk (Root w')). \<forall>p. cellPane c = Some p \<longrightarrow>
       emulator (paneAt p w') = map_option (\<lambda>_. leafSize c) (emulator (paneAt p w))"
proof -
  let ?i = "pane_ID q"
  have t: "tree_ok w" using ok by (rule window_ok_tree)
  then have s: "panes_ok (Root w)" "occupied (Root w)" by (auto simp: tree_ok_def panes_ok_def)
  obtain path c root rp k pre post where f: "FindPane ?i (Root w) = Some (path, c)" "CloseCell path (Root w) = (root, Some rp)"
    "getAt rp root = Some k" and cp: "sized root" "rectOf root = mkRect 0 0 (Width w) (Height w)" "occupied root"
    and pp: "leafPanes (Root w) = pre @ [q] @ post" "leafPanes root = pre @ post" and notin: "?i \<notin> pane_ID ` set (leafPanes root)"
    using CloseCell_leaf [OF t q two] by metis
  define w2 where "w2 = (if ZoomedPaneID w = ?i then w\<lparr>ZoomedPaneID := 0\<rparr> else w)"
  have w2: "Root w2 = Root w" "Width w2 = Width w" "Height w2 = Height w" "ActivePane w2 = ActivePane w"
    "LeadPaneID w2 = 0" "Ultra w2 = None" "setsizeFails w2 = setsizeFails w"
    "ZoomedPaneID w2 = (if ZoomedPaneID w = ?i then 0 else ZoomedPaneID w)"
    using ok by (auto simp: w2_def window_ok_defs)
  define w3 where "w3 = w2\<lparr>Root := FixOffsets root\<rparr>"
  have col: "collapseToRoot (root, Some rp) w2 = w3"
    using cp(2) w2 ResizeAll_same [OF cp(1,2)] by (simp add: collapseToRoot_def w3_def)
  have na: "\<not> hasAnchoredLead w2" "\<not> hasAnchoredLead w3" "\<not> hasAnchoredLead w"
    using w2 ok by (simp_all add: w3_def hasAnchoredLead_def window_ok_defs)
  obtain a where a: "ActivePane w = Some a" "a \<in> set (leafPanes (Root w))" using ok by (auto simp: window_ok_defs)
  have w3: "ActivePane w3 = Some a" "Root w3 = FixOffsets root" "Width w3 = Width w" "Height w3 = Height w" "LeadPaneID w3 = 0"
    "Ultra w3 = None" "setsizeFails w3 = setsizeFails w" "ZoomedPaneID w3 = (if ZoomedPaneID w = ?i then 0 else ZoomedPaneID w)"
    using w2 a(1) by (simp_all add: w3_def)
  obtain k' where k': "getAt rp (Root w3) = Some k'" using getAt_FixOffsets [OF f(3)] w3(2) by auto
  have aq: "if pane_ID a = ?i then a = q else a \<in> set (leafPanes (Root w3))"
    using a(2) pp w3(2) notin by (auto simp: image_iff) (metis UnI1 UnI2)+
  have "leafPanes (Root w3) \<noteq> []" using two pp w3(2) by auto
  then obtain b w5 where w5: "w5 = (if pane_ID a = ?i then focusAfterClose ?i (Some rp) w3 else w3)"
    and b0: "b \<in> set (leafPanes (Root w3))" "a \<noteq> q \<longrightarrow> b = a" "w5 = setActive b w3 \<or> w5 = w3 \<and> b = a"
    using close_focus [OF w3(1) k' _ _ aq] notin w3(2) by auto
  from b0 have b: "b \<in> set (leafPanes root)" "a \<noteq> q \<longrightarrow> b = a" "ActivePane w5 = Some b" "Root w5 = FixOffsets root"
    "Width w5 = Width w" "Height w5 = Height w" "LeadPaneID w5 = 0" "Ultra w5 = None" "setsizeFails w5 = setsizeFails w"
    "ZoomedPaneID w5 = (if ZoomedPaneID w = ?i then 0 else ZoomedPaneID w)"
    using w3 by (elim disjE; simp)+
  let ?w = "resizePTYs (w5\<lparr>Root := FixOffsets (Root w5)\<rparr>)"
  have t5: "tree_ok w5"
    by (rule tree_ok_remove [OF t, where q = q and a = b]) (use b cp pp ok in \<open>auto simp: window_ok_defs\<close>)
  then have "window_ok ?w" by (rule tree_ok_FixOffsets(1))
  moreover have "ClosePane ?i w = (Inr (), ?w)"
  proof -
    have "?i \<noteq> 0" using s(1) q by (metis imageI panes_ok_def)
    then have "LeadPaneID w \<noteq> ?i" using ok by (simp add: window_ok_defs)
    then show ?thesis
      using f(1) two length_Walk [OF s(2)] window_ok_mode(1) [OF ok] w2(1) f(2) col na w5 w3(1)
      by (cases "ZoomedPaneID w = ?i") (simp_all add: ClosePane_def mustFindPane_def Let_def w2_def)
  qed
  moreover have "emulator (heap w5 j) = emulator (heap w j)" for j
    using b0(3) by (auto simp: w3_def w2_def)
  note refit_emulators [OF t5 this]
  ultimately show ?thesis using that [of ?w] b(2-4,10) a(1) pp by (auto simp: w3(2))
qed

lemma ClosePane_ok:
  assumes ok: "window_ok w"
  shows "window_ok (snd (ClosePane i w))"
proof (cases rule: mustFindPane_ok [OF ok, of i])
  case 1
  then show ?thesis using window_ok_mode [OF ok] ok by (simp add: ClosePane_def)
next
  case (2 path r l q)
  show ?thesis
  proof (cases "length (leafPanes (Root w)) > 1")
    case True
    obtain w' where "ClosePane (pane_ID q) w = (Inr (), w')" "window_ok w'"
      using ClosePane_success [OF ok 2(5) True] by metis
    then show ?thesis using 2 by simp
  next
    case False
    then show ?thesis using ok 2 window_ok_mode [OF ok] length_Walk [of "Root w"]
      by (simp add: ClosePane_def window_ok_def panes_ok_def Let_def)
  qed
qed

end
