(* ===== verification/Window_Move.thy ===== *)
theory Window_Move
  imports Window_Split
begin

text \<open>
  Zoom and focus, and the operations that move panes about without adding or removing any:
  swapping, reordering, rotating, moving into another split or column (\<^verbatim>\<open>window.go\<close>,
  \<^verbatim>\<open>window_navigate.go\<close>, \<^verbatim>\<open>window_spiral.go\<close>), replacing and splicing panes.
\<close>

section \<open>Zoom and focus\<close>

definition Zoom :: "uint32 \<Rightarrow> window \<Rightarrow> unit wres" where
  "Zoom paneID w0 =
     (if ZoomedPaneID w0 = paneID then Unzoom w0
      else andThen (unzoomIf True) (\<lambda>_ w1.
        andThen (mustFindPane paneID) (\<lambda>(path, cell) w.
          if length (Walk (Root w)) \<le> 1 then err ErrZoomOnePane w
          else case cellPane cell of
            None \<Rightarrow> err Panic w
          | Some q \<Rightarrow>
              Pane_Resize q (Width w) (PaneContentHeight (Height w)) (setActive q (w\<lparr>ZoomedPaneID := paneID\<rparr>)))
        (snd (ultraShowPane paneID w1))) w0)"

definition FocusPane :: "pane \<Rightarrow> window \<Rightarrow> window" where
  "FocusPane p w =
     (case (if ZoomedPaneID w \<noteq> 0 \<and> pane_ID p \<noteq> ZoomedPaneID w then Unzoom w else ok () w) of
        (Inl e, w1) \<Rightarrow> w1
      | (Inr u, w1) \<Rightarrow> setActive p (snd (ultraShowPane (pane_ID p) w1)))"

text \<open>The edge, range and candidate tests of \<^verbatim>\<open>findDirectional\<close>.\<close>

definition directionEdge :: "string \<Rightarrow> bool \<Rightarrow> LayoutCell \<Rightarrow> window \<Rightarrow> int" where
  "directionEdge direction wrap c w =
     (if direction = ''up'' then (if wrap then Height w + 1 else cY c)
      else if direction = ''down'' then (if wrap then 0 else cY c + cH c + 1)
      else if direction = ''left'' then (if wrap then Width w + 1 else cX c)
      else if direction = ''right'' then (if wrap then 0 else cX c + cW c + 1)
      else 0)"

definition directionCandidate :: "string \<Rightarrow> int \<Rightarrow> LayoutCell \<Rightarrow> LayoutCell \<Rightarrow> bool" where
  "directionCandidate direction edge activeCell c =
     (let vertical = (direction = ''up'' \<or> direction = ''down'');
          checkNear = (direction = ''down'' \<or> direction = ''right'');
          (rangeStart, rangeEnd) = (if vertical then (cX activeCell, cX activeCell + cW activeCell)
                                    else (cY activeCell, cY activeCell + cH activeCell));
          (candStart, candEnd, candEdge) =
            (if vertical then (cX c, cX c + cW c, if checkNear then cY c else cY c + cH c + 1)
             else (cY c, cY c + cH c, if checkNear then cX c else cX c + cW c + 1))
      in candEdge = edge \<and> \<not> (candStart \<ge> rangeEnd \<or> candEnd \<le> rangeStart))"

definition findDirectional :: "LayoutCell \<Rightarrow> string \<Rightarrow> bool \<Rightarrow> window \<Rightarrow> pane option" where
  "findDirectional activeCell direction wrap w =
     (let edge = directionEdge direction wrap activeCell w in
      map_option fst
        (foldl (\<lambda>best c.
             case cellPane c of
               None \<Rightarrow> best
             | Some p \<Rightarrow>
                 if (case ActivePane w of Some a \<Rightarrow> pane_ID p = pane_ID a | None \<Rightarrow> False) then best
                 else if \<not> directionCandidate direction edge activeCell c then best
                 else (case best of
                         None \<Rightarrow> Some (p, ActivePoint (paneAt p w))
                       | Some (b, bestActivePoint) \<Rightarrow>
                           if ActivePoint (paneAt p w) > bestActivePoint
                           then Some (p, ActivePoint (paneAt p w)) else best))
           None (Walk (Root w))))"

text \<open>\<^verbatim>\<open>Focus\<close> for one window; a nil active pane is dereferenced (\<open>Panic\<close>).\<close>

definition Focus :: "string \<Rightarrow> window \<Rightarrow> unit wres" where
  "Focus direction w0 =
     (case unzoomIf True w0 of
        (Inl e, w) \<Rightarrow> ok () w
      | (Inr u, w) \<Rightarrow>
          (let panes = Panes w in
           if length panes \<le> 1 then ok () w
           else case ActivePane w of
             None \<Rightarrow> err Panic w
           | Some a \<Rightarrow>
               if direction = ''next'' then
                 (case List.find (\<lambda>i. pane_ID (panes ! i) = pane_ID a) [0..<length panes] of
                    Some i \<Rightarrow>
                      (let nxt = panes ! ((i + 1) mod length panes)
                       in ok () (setActive nxt (snd (ultraShowPane (pane_ID nxt) w))))
                  | None \<Rightarrow> ok () w)
               else
                 (case FindPane (pane_ID a) (Root w) of
                    None \<Rightarrow> ok () w
                  | Some (path, activeCell) \<Rightarrow>
                      (case findDirectional activeCell direction False w of
                         Some best \<Rightarrow> ok () (setActive best w)
                       | None \<Rightarrow>
                           (case findDirectional activeCell direction True w of
                              Some best \<Rightarrow> ok () (setActive best w)
                            | None \<Rightarrow> ok () w)))))"

section \<open>Reordering children\<close>

definition reorderLayoutChildren :: "'a list \<Rightarrow> nat \<Rightarrow> nat \<Rightarrow> bool \<Rightarrow> 'a list" where
  "reorderLayoutChildren children fromIdx targetIdx before =
     (if fromIdx = targetIdx then children
      else let moving = children ! fromIdx;
               rest = removeAt fromIdx children;
               insertIdx = (if \<not> before then targetIdx + 1 else targetIdx);
               insertIdx' = (if fromIdx < targetIdx then insertIdx - 1 else insertIdx)
           in insertAt insertIdx' moving rest)"

fun mapChildren :: "(LayoutCell list \<Rightarrow> LayoutCell list) \<Rightarrow> LayoutCell \<Rightarrow> LayoutCell" where
  "mapChildren f (Leaf r l) = Leaf r l"
| "mapChildren f (Node r d cs) = Node r d (f cs)"

definition rootChildForPaneID :: "uint32 \<Rightarrow> window \<Rightarrow> nat wres" where
  "rootChildForPaneID paneID w =
     (if IsLeadPane paneID w then err ErrLeadPane w
      else if IsLeaf (logicalRoot w) then err ErrNoRootSplit w
      else andThen (mustFindPane paneID) (\<lambda>(path, cell) w.
             let lp = logicalRootPath w in
             if take (length lp) path = lp \<and> length lp < length path then ok (path ! length lp) w
             else err Panic w) w)"

definition splitGroupForPaneID :: "uint32 \<Rightarrow> window \<Rightarrow> (nat list \<times> nat) wres" where
  "splitGroupForPaneID paneID w =
     (if IsLeadPane paneID w then err ErrLeadPane w
      else andThen (mustFindPane paneID) (\<lambda>(path, cell) w.
             if path = [] then err (ErrNoSplitGroup paneID) w
             else ok (butlast path, last path) w) w)"

definition editTree :: "nat list \<Rightarrow> (LayoutCell list \<Rightarrow> LayoutCell list) \<Rightarrow> window \<Rightarrow> window" where
  "editTree path f w = finishTreeMutation (w\<lparr>Root := updAt path (mapChildren f) (Root w)\<rparr>)"

definition SwapTree :: "uint32 \<Rightarrow> uint32 \<Rightarrow> window \<Rightarrow> unit wres" where
  "SwapTree id1 id2 w0 =
     (if Ultra w0 \<noteq> None then err ErrUltraLayout w0
      else andThen (rootChildForPaneID id1) (\<lambda>idx1.
           andThen (rootChildForPaneID id2) (\<lambda>idx2 w1.
             if idx1 = idx2 then err (ErrSameGroup id1 id2) w1
             else andThen (unzoomIf True) (\<lambda>_ w.
                    ok () (editTree (logicalRootPath w) (swapAt idx1 idx2) w)) w1)) w0)"

definition MovePane :: "uint32 \<Rightarrow> uint32 \<Rightarrow> bool \<Rightarrow> window \<Rightarrow> unit wres" where
  "MovePane paneID targetPaneID before w0 =
     (if paneID = targetPaneID then ok () w0
      else if Ultra w0 \<noteq> None then err ErrUltraLayout w0
      else if IsLeadPane paneID w0 \<or> IsLeadPane targetPaneID w0 then err ErrLeadPane w0
      else andThen (mustFindPane paneID) (\<lambda>(sourcePath, sourceCell).
           andThen (mustFindPane targetPaneID) (\<lambda>(targetPath, targetCell) w1.
             if sourcePath \<noteq> [] \<and> targetPath \<noteq> [] \<and> butlast sourcePath = butlast targetPath then
               andThen (unzoomIf True) (\<lambda>_ w.
                 ok () (editTree (butlast sourcePath)
                   (\<lambda>cs. reorderLayoutChildren cs (last sourcePath) (last targetPath) before) w)) w1
             else
               andThen (rootChildForPaneID paneID) (\<lambda>fromIdx.
               andThen (rootChildForPaneID targetPaneID) (\<lambda>targetIdx w2.
                 if fromIdx = targetIdx then err (ErrSameGroup paneID targetPaneID) w2
                 else andThen (unzoomIf True) (\<lambda>_ w.
                        ok () (editTree (logicalRootPath w)
                          (\<lambda>cs. reorderLayoutChildren cs fromIdx targetIdx before) w)) w2)) w1)) w0)"

definition movePaneWithinSplitGroup :: "uint32 \<Rightarrow> int \<Rightarrow> window \<Rightarrow> unit wres" where
  "movePaneWithinSplitGroup paneID delta w0 =
     (if Ultra w0 \<noteq> None then err ErrUltraLayout w0
      else andThen (splitGroupForPaneID paneID) (\<lambda>(parent, idx) w1.
        let count = length (Children (the (getAt parent (Root w1))));
            targetIdx = nat (int idx + delta)
        in if delta < 0 \<and> idx = 0 then err (ErrAlreadyFirst paneID) w1
           else if delta > 0 \<and> int idx = int count - 1 then err (ErrAlreadyLast paneID) w1
           else andThen (unzoomIf True) (\<lambda>_ w.
                  ok () (editTree parent (\<lambda>cs. reorderLayoutChildren cs idx targetIdx (delta < 0)) w)) w1) w0)"

definition MovePaneUp :: "uint32 \<Rightarrow> window \<Rightarrow> unit wres" where
  "MovePaneUp paneID = movePaneWithinSplitGroup paneID (- 1)"

definition MovePaneDown :: "uint32 \<Rightarrow> window \<Rightarrow> unit wres" where
  "MovePaneDown paneID = movePaneWithinSplitGroup paneID 1"

section \<open>Exchanging panes\<close>

fun setLeafPane :: "pane option \<Rightarrow> LayoutCell \<Rightarrow> LayoutCell" where
  "setLeafPane p (Leaf r l) = Leaf r (l\<lparr>Pane := p\<rparr>)"
| "setLeafPane p (Node r d cs) = Node r d cs"

definition SwapPanes :: "uint32 \<Rightarrow> uint32 \<Rightarrow> window \<Rightarrow> unit wres" where
  "SwapPanes id1 id2 w0 =
     (if id1 = id2 then ok () w0
      else if IsLeadPane id1 w0 \<or> IsLeadPane id2 w0 then err ErrLeadPane w0
      else if Ultra w0 \<noteq> None then ultraSwap id1 id2 w0
      else andThen (mustFindPane id1) (\<lambda>(path1, cell1).
           andThen (mustFindPane id2) (\<lambda>(path2, cell2) w.
             ok () (resizePTYs (w\<lparr>Root := updAt path2 (setLeafPane (cellPane cell1))
                                   (updAt path1 (setLeafPane (cellPane cell2)) (Root w))\<rparr>)))) w0)"

definition paneLeavesIn :: "LayoutCell \<Rightarrow> (nat list \<times> LayoutCell) list" where
  "paneLeavesIn root = filter (\<lambda>(p, c). cellPane c \<noteq> None) (WalkAt root)"

definition activeCellIndex :: "pane \<Rightarrow> (nat list \<times> LayoutCell) list \<Rightarrow> nat option" where
  "activeCellIndex a cells = List.find (\<lambda>i. cellHasPaneID (pane_ID a) (snd (cells ! i))) [0..<length cells]"

text \<open>\<^verbatim>\<open>SwapPaneForward\<close> and \<^verbatim>\<open>SwapPaneBackward\<close>: the partner is the next or previous leaf, cyclically.\<close>

definition swapWithNeighbour :: "bool \<Rightarrow> window \<Rightarrow> unit wres" where
  "swapWithNeighbour forward w =
     (if (case ActivePane w of Some a \<Rightarrow> IsLeadPane (pane_ID a) w | None \<Rightarrow> False) then err ErrLeadPane w
      else let cells = paneLeavesIn (logicalRoot w); n = length cells in
        if n \<le> 1 then ok () w
        else case ActivePane w of
          None \<Rightarrow> err Panic w
        | Some a \<Rightarrow>
            (case activeCellIndex a cells of
               None \<Rightarrow> err ErrActiveNotFound w
             | Some idx \<Rightarrow>
                 (let other = (if forward then (idx + 1) mod n else (idx + n - 1) mod n)
                  in SwapPanes (CellPaneID (snd (cells ! idx))) (CellPaneID (snd (cells ! other))) w)))"

definition SwapPaneForward :: "window \<Rightarrow> unit wres" where
  "SwapPaneForward = swapWithNeighbour True"

definition SwapPaneBackward :: "window \<Rightarrow> unit wres" where
  "SwapPaneBackward = swapWithNeighbour False"

definition RotatePanes :: "bool \<Rightarrow> window \<Rightarrow> unit wres" where
  "RotatePanes forward w =
     (if Ultra w \<noteq> None then err ErrUltraLayout w
      else let cells = paneLeavesIn (logicalRoot w); panes = map (cellPane \<circ> snd) cells in
        if length cells \<le> 1 then ok () w
        else let rotated = (if forward then last panes # butlast panes else tl panes @ [hd panes])
             in ok () (resizePTYs (w\<lparr>Root :=
                  fold (\<lambda>((path, cell), p) root. updAt (logicalRootPath w @ path) (setLeafPane p) root)
                    (zip cells rotated) (Root w)\<rparr>)))"

section \<open>Zoom and focus keep the invariant\<close>

lemma ultraShowPane_split [simp]: "Ultra w = None \<Longrightarrow> ultraShowPane i w = (False, w)"
  by (simp add: ultraShowPane_def)

lemma Panes_split [simp]: "Ultra w = None \<Longrightarrow> Panes w = leafPanes (Root w)"
  by (simp add: Panes_def)

lemma window_ok_zoom:
  assumes ok: "window_ok w" and q: "q \<in> set (leafPanes (Root w))" and z: "ZoomedPaneID w = 0"
  shows "window_ok (snd (Pane_Resize q cols rows (setActive q (w\<lparr>ZoomedPaneID := pane_ID q\<rparr>))))"
proof -
  let ?w = "setActive q (w\<lparr>ZoomedPaneID := pane_ID q\<rparr>)"
  have "terminals_ok ?w" using ok z by (auto simp: window_ok_def terminals_ok_def)
  then have "terminals_ok (snd (Pane_Resize q cols rows ?w))"
    by (rule terminals_ok_Pane_Resize_zoomed) (use ok q in \<open>auto simp: window_ok_defs\<close>)
  then show ?thesis using ok q by (auto simp: window_ok_defs)
qed

lemma Zoom_kept:
  assumes ok: "window_ok w"
  shows "kept (leafPanes (Root w)) (snd (Zoom i w))"
proof (cases "ZoomedPaneID w = i")
  case True
  show ?thesis
  proof (cases "i = 0")
    case True
    then show ?thesis using \<open>ZoomedPaneID w = i\<close> ok by (simp add: Zoom_def kept_def Unzoom_def)
  next
    case False
    then obtain w' where "Unzoom w = (Inr (), w')" "window_ok w'" "Root w' = Root w" using Unzoom_ok [OF ok] True by metis
    then show ?thesis using True by (simp add: Zoom_def kept_def)
  qed
next
  case False
  obtain w1 where w1: "unzoomIf True w = (Inr (), w1)" "window_ok w1" "ZoomedPaneID w1 = 0" "Root w1 = Root w"
    using unzoomIf_ok [OF ok, of True] by metis
  show ?thesis
  proof (cases rule: mustFindPane_ok [OF w1(2), of i])
    case 1
    then show ?thesis using w1 False window_ok_mode [OF w1(2)] by (simp add: Zoom_def kept_def)
  next
    case (2 path r l q)
    then show ?thesis
      using w1 False window_ok_mode [OF w1(2)] window_ok_zoom [OF w1(2) 2(5) w1(3)] by (simp add: Zoom_def kept_def)
  qed
qed

lemma FocusPane_kept:
  assumes ok: "window_ok w" and p: "p \<in> set (leafPanes (Root w))"
  shows "kept (leafPanes (Root w)) (FocusPane p w)"
proof (cases "ZoomedPaneID w \<noteq> 0 \<and> pane_ID p \<noteq> ZoomedPaneID w")
  case True
  then obtain w1 where "Unzoom w = (Inr (), w1)" "window_ok w1" "Root w1 = Root w" using Unzoom_ok [OF ok] by metis
  then show ?thesis using True p window_ok_setActive window_ok_mode(1) by (simp add: FocusPane_def kept_def)
next
  case False
  then show ?thesis using ok p window_ok_setActive window_ok_mode(1) by (auto simp: FocusPane_def kept_def)
qed

lemma findDirectional_shown:
  assumes "findDirectional c direction wrap w = Some p"
  shows "p \<in> set (leafPanes (Root w))"
proof -
  define step where "step = (\<lambda>best k.
             case cellPane k of
               None \<Rightarrow> best
             | Some p \<Rightarrow>
                 if (case ActivePane w of Some a \<Rightarrow> pane_ID p = pane_ID a | None \<Rightarrow> False) then best
                 else if \<not> directionCandidate direction (directionEdge direction wrap c w) c k then best
                 else (case best of
                         None \<Rightarrow> Some (p, ActivePoint (paneAt p w))
                       | Some (b, bestActivePoint) \<Rightarrow>
                           if ActivePoint (paneAt p w) > bestActivePoint
                           then Some (p, ActivePoint (paneAt p w)) else best))"
  have "foldl step None cs = Some (p, ap) \<Longrightarrow> p \<in> set (panesOf cs)" for cs p ap
  proof (induction cs arbitrary: p ap rule: rev_induct)
    case (snoc k cs)
    have mono: "set (panesOf cs) \<subseteq> set (panesOf (cs @ [k]))" by (auto simp: set_panesOf)
    have new: "cellPane k = Some q \<Longrightarrow> q \<in> set (panesOf (cs @ [k]))" for q by (auto simp: set_panesOf)
    show ?case
    proof (cases "foldl step None cs")
      case None
      then show ?thesis using snoc.prems new by (auto simp: step_def split: option.splits if_splits)
    next
      case (Some b)
      then obtain q aq where b: "foldl step None cs = Some (q, aq)" by (cases b) auto
      then have "q \<in> set (panesOf (cs @ [k]))" using snoc.IH mono by blast
      then show ?thesis using snoc.prems b new by (auto simp: step_def split: option.splits if_splits)
    qed
  qed simp
  then show ?thesis
    using assms by (fastforce simp: findDirectional_def step_def Let_def panesOf_Walk [symmetric])
qed

lemma Focus_kept:
  assumes ok: "window_ok w"
  shows "kept (leafPanes (Root w)) (snd (Focus direction w))"
proof -
  obtain w1 where w1: "unzoomIf True w = (Inr (), w1)" "window_ok w1" "Root w1 = Root w"
    using unzoomIf_ok [OF ok, of True] by metis
  note mode = window_ok_mode(1) [OF w1(2)]
  let ?ps = "leafPanes (Root w1)"
  obtain a where a: "ActivePane w1 = Some a" using w1(2) by (auto simp: window_ok_defs)
  have nth: "?ps ! (j mod length ?ps) \<in> set ?ps" if "\<not> length ?ps \<le> 1" for j
    using that by (intro nth_mem mod_less_divisor) linarith
  show ?thesis
    using w1 a mode nth window_ok_setActive [OF w1(2)] findDirectional_shown [where w = w1]
    by (auto simp: Focus_def kept_def Let_def split: option.splits)
qed

section \<open>Permuting children keeps the invariant\<close>

lemma mset_insertAt [simp]: "mset (insertAt i x xs) = add_mset x (mset xs)"
proof -
  have "mset xs = mset (take i xs) + mset (drop i xs)" by (metis append_take_drop_id mset_append)
  then show ?thesis by (simp add: insertAt_def)
qed

lemma mset_removeAt: "i < length xs \<Longrightarrow> add_mset (xs ! i) (mset (removeAt i xs)) = mset xs"
  by (subst (3) id_take_nth_drop [of i xs]) (simp_all add: removeAt_def)

lemma mset_reorderLayoutChildren:
  "i < length cs \<Longrightarrow> mset (reorderLayoutChildren cs i j before) = mset cs"
  by (simp add: reorderLayoutChildren_def Let_def mset_removeAt)

lemma mset_swapAt: "i < length cs \<Longrightarrow> j < length cs \<Longrightarrow> mset (swapAt i j cs) = mset cs"
  unfolding swapAt_def by (rule mset_swap)

lemma sum_list_perm: "mset xs = mset ys \<Longrightarrow> sum_list (map f xs) = sum_list (map f ys)" for f :: "'a \<Rightarrow> int"
  by (metis mset_map sum_mset_sum_list)

lemma mset_leafPanes_perm:
  "mset cs' = mset cs \<Longrightarrow> mset (concat (map leafPanes cs')) = mset (concat (map leafPanes cs))"
proof -
  have "mset (concat (map leafPanes xs)) = sum_mset (image_mset (mset \<circ> leafPanes) (mset xs))" for xs
    by (induction xs) auto
  then show "mset cs' = mset cs \<Longrightarrow> ?thesis" by simp
qed

lemma editTree_kept:
  assumes ok: "window_ok w" and p: "getAt path (Root w) = Some (Node r d cs)" and perm: "mset (f cs) = mset cs"
  shows "kept (leafPanes (Root w)) (editTree path f w)"
proof -
  have t: "tree_ok w" "sized (Root w)" "occupied (Root w)"
    using window_ok_tree [OF ok] by (auto simp: tree_ok_def panes_ok_def)
  have sn: "sized (Node r d cs)" using getAt_sized [OF t(2) p] .
  have len: "length (f cs) = length cs" and set: "set (f cs) = set cs"
    using perm by (metis size_mset, metis mset_eq_setD)
  have sf: "sized (mapChildren f (Node r d cs))" using sn len set sum_list_perm [OF perm] by simp
  let ?root = "updAt path (mapChildren f) (Root w)"
  have sr: "sized ?root" using sized_updAt [OF t(2) p, of "mapChildren f"] sf by simp
  have rect: "rectOf ?root = rectOf (Root w)"
    using p rectOf_updAt by (cases "path = []") auto
  have occ: "occupied ?root"
    using occupied_updAt [OF t(3) p, of "mapChildren f"] occupied_getAt [OF t(3) p] set by simp
  obtain pre post where "leafPanes (Root w) = pre @ leafPanes (Node r d cs) @ post"
    "leafPanes ?root = pre @ leafPanes (mapChildren f (Node r d cs)) @ post"
    using leafPanes_updAt [OF p] by metis
  then have m: "mset (leafPanes ?root) = mset (leafPanes (Root w))"
    using mset_leafPanes_perm [OF perm] by simp
  have "tree_ok (w\<lparr>Root := ?root\<rparr>)" using tree_ok_perm [OF t(1) sr rect m occ] .
  from tree_ok_FixOffsets(1) [OF this] m show ?thesis by (simp add: editTree_def finishTreeMutation_def kept_def)
qed

text \<open>An edit after unzooming: the tree is the one the paths were looked up in.\<close>

lemma unzoom_editTree_kept:
  assumes "window_ok w" "getAt path (Root w) = Some (Node r d cs)" "mset (f cs) = mset cs"
  shows "kept (leafPanes (Root w)) (snd (andThen (unzoomIf True) (\<lambda>_ w. ok () (editTree path f w)) w))"
proof -
  obtain w1 where w1: "unzoomIf True w = (Inr (), w1)" "window_ok w1" "Root w1 = Root w"
    using unzoomIf_ok [OF assms(1)] by metis
  then show ?thesis using editTree_kept [OF w1(2), of path r d cs f] assms(2,3) by simp
qed

lemma unzoom_editTree_root_kept:
  assumes "window_ok w" "Root w = Node r d cs" "mset (f cs) = mset cs"
  shows "kept (leafPanes (Root w)) (snd (andThen (unzoomIf True) (\<lambda>_ w. ok () (editTree (logicalRootPath w) f w)) w))"
proof -
  obtain w1 where w1: "unzoomIf True w = (Inr (), w1)" "window_ok w1" "Root w1 = Root w"
    using unzoomIf_ok [OF assms(1)] by metis
  then show ?thesis using editTree_kept [OF w1(2), of "[]" r d cs f] assms(2,3) window_ok_mode(7) [OF w1(2)] by simp
qed

lemma rootChildForPaneID_ok:
  assumes ok: "window_ok w"
  obtains e where "rootChildForPaneID i w = (Inl e, w)"
  | idx r d cs where "rootChildForPaneID i w = (Inr idx, w)" "Root w = Node r d cs" "idx < length cs"
proof (cases "Root w")
  case (Leaf r l)
  then show ?thesis using that(1) window_ok_mode [OF ok] by (simp add: rootChildForPaneID_def)
next
  case (Node r d cs)
  show ?thesis
  proof (cases rule: mustFindPane_ok [OF ok, of i])
    case 1
    then show ?thesis using that(1) window_ok_mode [OF ok] Node by (simp add: rootChildForPaneID_def)
  next
    case (2 path r' l q)
    then obtain j p where "path = j # p" "j < length cs" using Node by (cases path) (auto split: if_splits)
    then show ?thesis
      using that(2) [of j r d cs] 2 window_ok_mode [OF ok] Node by (simp add: rootChildForPaneID_def)
  qed
qed

lemma SwapTree_kept:
  assumes ok: "window_ok w"
  shows "kept (leafPanes (Root w)) (snd (SwapTree id1 id2 w))"
proof (cases rule: rootChildForPaneID_ok [OF ok, of id1])
  case 1
  then show ?thesis using ok window_ok_mode [OF ok] by (simp add: SwapTree_def kept_def)
next
  case one: (2 i r d cs)
  show ?thesis
  proof (cases rule: rootChildForPaneID_ok [OF ok, of id2])
    case 1
    then show ?thesis using one ok window_ok_mode [OF ok] by (simp add: SwapTree_def kept_def)
  next
    case (2 j r' d' cs')
    then show ?thesis
      using one ok window_ok_mode [OF ok] unzoom_editTree_root_kept [OF ok one(2), of "swapAt i j"]
      by (simp add: SwapTree_def kept_def mset_swapAt)
  qed
qed

lemma MovePane_kept:
  assumes ok: "window_ok w"
  shows "kept (leafPanes (Root w)) (snd (MovePane i j before w))"
proof (cases "i = j")
  case True
  then show ?thesis using ok by (simp add: MovePane_def kept_def)
next
  case False
  note mode = window_ok_mode [OF ok]
  show ?thesis
  proof (cases rule: mustFindPane_ok [OF ok, of i])
    case 1
    then show ?thesis using ok mode False by (simp add: MovePane_def kept_def)
  next
    case src: (2 p r l q)
    show ?thesis
    proof (cases rule: mustFindPane_ok [OF ok, of j])
      case 1
      then show ?thesis using ok mode False src by (simp add: MovePane_def kept_def)
    next
      case tgt: (2 p' r' l' q')
      show ?thesis
      proof (cases "p \<noteq> [] \<and> p' \<noteq> [] \<and> butlast p = butlast p'")
        case True
        obtain pr d cs where "getAt (butlast p) (Root w) = Some (Node pr d cs)" "last p < length cs"
          using getAt_snoc [of p "Root w" "Leaf r l"] True src by auto
        then show ?thesis
          using unzoom_editTree_kept [OF ok, of "butlast p" pr d cs "\<lambda>cs. reorderLayoutChildren cs (last p) (last p') before"]
            ok mode False src tgt True by (simp add: MovePane_def kept_def mset_reorderLayoutChildren)
      next
        case far: False
        show ?thesis
        proof (cases rule: rootChildForPaneID_ok [OF ok, of i])
          case 1
          then show ?thesis using ok mode False src tgt far by (auto simp: MovePane_def kept_def)
        next
          case a: (2 x rr d cs)
          show ?thesis
          proof (cases rule: rootChildForPaneID_ok [OF ok, of j])
            case 1
            then show ?thesis using ok mode False src tgt far a by (auto simp: MovePane_def kept_def)
          next
            case (2 y rr' d' cs')
            then show ?thesis
              using ok mode False src tgt far a
                unzoom_editTree_root_kept [OF ok a(2), of "\<lambda>cs. reorderLayoutChildren cs x y before"]
              by (auto simp: MovePane_def kept_def mset_reorderLayoutChildren)
          qed
        qed
      qed
    qed
  qed
qed

lemma movePaneWithinSplitGroup_kept:
  assumes ok: "window_ok w"
  shows "kept (leafPanes (Root w)) (snd (movePaneWithinSplitGroup i delta w))"
proof (cases rule: mustFindPane_ok [OF ok, of i])
  case 1
  then show ?thesis using ok window_ok_mode [OF ok] by (simp add: movePaneWithinSplitGroup_def kept_def splitGroupForPaneID_def)
next
  case (2 p r l q)
  note mode = window_ok_mode [OF ok]
  show ?thesis
  proof (cases "p = []")
    case True
    then show ?thesis using ok mode 2 by (simp add: movePaneWithinSplitGroup_def kept_def splitGroupForPaneID_def)
  next
    case False
    obtain pr d cs where "getAt (butlast p) (Root w) = Some (Node pr d cs)" "last p < length cs"
      using getAt_snoc [OF False, of "Root w" "Leaf r l"] 2 by auto
    then show ?thesis
      using unzoom_editTree_kept [OF ok, of "butlast p" pr d cs
          "\<lambda>cs. reorderLayoutChildren cs (last p) (nat (int (last p) + delta)) (delta < 0)"] ok mode False 2
      by (simp add: movePaneWithinSplitGroup_def kept_def splitGroupForPaneID_def Let_def mset_reorderLayoutChildren)
  qed
qed

section \<open>Exchanging panes keeps the invariant\<close>

text \<open>Writing a pane into a leaf, seen on the list of leaves with their paths.\<close>

lemma distinct_WalkAt: "distinct (map fst (WalkAt c))"
proof (induction c)
  case (Node r d cs)
  have "distinct (concat (map (\<lambda>(i, c). map ((#) i) (map fst (WalkAt c))) (zip is cs)))"
    if "distinct is" "length is = length cs" "\<forall>c \<in> set cs. distinct (map fst (WalkAt c))" for "is" and cs
    using that(2,1,3)
    by (induction "is" cs rule: list_induct2) (auto simp: distinct_map inj_on_def set_zip)
  then have "distinct (concat (map (\<lambda>(i, c). map ((#) i) (map fst (WalkAt c))) (zip [0..<length cs] cs)))"
    using Node by simp
  moreover have "map fst (WalkAt (Node r d cs)) =
      concat (map (\<lambda>(i, c). map ((#) i) (map fst (WalkAt c))) (zip [0..<length cs] cs))"
    by (auto simp: map_concat o_def split_def intro!: arg_cong [where f = concat])
  ultimately show ?case by simp
qed simp

lemma WalkAt_setLeafPane:
  "getAt p c = Some (Leaf r l) \<Longrightarrow>
     WalkAt (updAt p (setLeafPane q) c) = map (\<lambda>(p', k). (p', if p' = p then setLeafPane q k else k)) (WalkAt c)"
proof (induction p "setLeafPane q" c rule: updAt.induct)
  case (3 i p r' d cs)
  then have i: "i < length cs" "getAt p (cs ! i) = Some (Leaf r l)" by (auto split: if_splits)
  let ?F = "\<lambda>p (p', k). (p', if p' = p then setLeafPane q k else k)"
  have IH: "WalkAt (updAt p (setLeafPane q) (cs ! i)) = map (?F p) (WalkAt (cs ! i))" using 3 i by blast
  have "map (\<lambda>(j, c). map (\<lambda>(p, leaf). (j # p, leaf)) (WalkAt c)) (zip [0..<length cs] (cs[i := updAt p (setLeafPane q) (cs ! i)])) =
      map (map (?F (i # p)) \<circ> (\<lambda>(j, c). map (\<lambda>(p, leaf). (j # p, leaf)) (WalkAt c))) (zip [0..<length cs] cs)"
    using IH i(1) by (intro nth_equalityI) (auto simp: nth_list_update split: prod.splits)
  then show ?case using i(1) by (simp add: map_concat)
qed auto

lemma leafPanes_WalkAt: "leafPanes c = List.map_filter (cellPane \<circ> snd) (WalkAt c)"
  by (simp add: leafPanes_def map_snd_WalkAt [symmetric] map_filter_def filter_map o_def)

lemma occupied_WalkAt: "occupied c \<longleftrightarrow> (\<forall>(p, l) \<in> set (WalkAt c). cellPane l \<noteq> None)"
proof -
  have "occupied c \<longleftrightarrow> (\<forall>l \<in> set (Walk c). cellPane l \<noteq> None)" by (induction c) auto
  then show ?thesis by (auto simp: map_snd_WalkAt [symmetric])
qed

lemma setLeafPane_geometry [simp]:
  "rectOf (setLeafPane q c) = rectOf c" "sized (setLeafPane q c) = sized c" "IsLeaf (setLeafPane q c) = IsLeaf c"
  "IsLeaf c \<Longrightarrow> cellPane (setLeafPane q c) = q"
  by (cases c; simp)+

lemma updAt_setLeafPane_geometry:
  assumes "sized root" "getAt p root = Some (Leaf r l)"
  shows "sized (updAt p (setLeafPane q) root)" "rectOf (updAt p (setLeafPane q) root) = rectOf root"
proof -
  show "sized (updAt p (setLeafPane q) root)"
    using sized_updAt [OF assms, of "setLeafPane q"] getAt_sized [OF assms] by simp
  show "rectOf (updAt p (setLeafPane q) root) = rectOf root"
    using rectOf_updAt assms by (cases "p = []") auto
qed

lemma leafPanes_setLeafPane:
  assumes "getAt p c = Some (Leaf r l)" "Pane l = Some q"
  obtains pre post where "leafPanes c = pre @ [q] @ post" "leafPanes (updAt p (setLeafPane (Some q')) c) = pre @ [q'] @ post"
proof -
  obtain pre post where "leafPanes c = pre @ leafPanes (Leaf r l) @ post"
    "\<And>f. leafPanes (updAt p f c) = pre @ leafPanes (f (Leaf r l)) @ post"
    using leafPanes_updAt [OF assms(1)] by blast
  then show ?thesis using that [of pre post] assms(2) by simp
qed

lemma placedKids_member: "placedKids d x y cs \<Longrightarrow> i < length cs \<Longrightarrow> placed (cs ! i)"
proof (induction cs arbitrary: i x y)
  case (Cons c cs)
  then show ?case by (cases i) (auto split: if_splits)
qed simp

lemma placedKids_update:
  "placedKids d x y cs \<Longrightarrow> i < length cs \<Longrightarrow> rectOf k = rectOf (cs ! i) \<Longrightarrow> placed k \<Longrightarrow> placedKids d x y (cs[i := k])"
proof (induction cs arbitrary: i x y)
  case (Cons c cs)
  then show ?case by (cases i) (auto split: if_splits)
qed simp

text \<open>Positions only look at rectangles.\<close>

lemma placed_updAt_rect:
  "placed c \<Longrightarrow> getAt p c = Some k \<Longrightarrow> rectOf (f k) = rectOf k \<Longrightarrow> placed (f k) \<Longrightarrow> placed (updAt p f c)"
proof (induction p f c rule: updAt.induct)
  case (3 i p f r d cs)
  then have i: "i < length cs" "getAt p (cs ! i) = Some k" by (auto split: if_splits)
  have "placed (cs ! i)" using "3.prems"(1) i(1) by (auto dest: placedKids_member)
  then have "placed (updAt p f (cs ! i))" using 3 i by blast
  moreover have "rectOf (updAt p f (cs ! i)) = rectOf (cs ! i)"
    using rectOf_updAt i(2) "3.prems"(3) by (cases "p = []") auto
  ultimately show ?case using "3.prems"(1) i(1) placedKids_update by simp
qed auto

text \<open>Two leaves exchange their panes: the tree keeps its geometry and its panes.\<close>

lemma exchange_leaves:
  assumes ok: "window_ok w" and ne: "p1 \<noteq> p2"
    and a: "getAt p1 (Root w) = Some (Leaf r1 l1)" "Pane l1 = Some q1"
    and b: "getAt p2 (Root w) = Some (Leaf r2 l2)" "Pane l2 = Some q2"
  defines "root \<equiv> updAt p2 (setLeafPane (Some q1)) (updAt p1 (setLeafPane (Some q2)) (Root w))"
  shows "window_ok (resizePTYs (w\<lparr>Root := root\<rparr>))" "mset (leafPanes root) = mset (leafPanes (Root w))"
proof -
  have t: "tree_ok w" "sized (Root w)" "occupied (Root w)"
    using window_ok_tree [OF ok] by (auto simp: tree_ok_def panes_ok_def)
  let ?r1 = "updAt p1 (setLeafPane (Some q2)) (Root w)"
  let ?r2 = "updAt p2 (setLeafPane (Some q1)) ?r1"
  have "(p2, Leaf r2 l2) \<in> set (WalkAt ?r1)"
    using WalkAt_setLeafPane [OF a(1), of "Some q2"] getAt_WalkAt [OF b(1)] ne by force
  then have g2: "getAt p2 ?r1 = Some (Leaf r2 l2)" using WalkAt_getAt by blast
  note geo1 = updAt_setLeafPane_geometry [OF t(2) a(1), of "Some q2"]
  note geo2 = updAt_setLeafPane_geometry [OF geo1(1) g2, of "Some q1"]
  obtain x y where xy: "leafPanes (Root w) = x @ [q1] @ y" "leafPanes ?r1 = x @ [q2] @ y"
    by (rule leafPanes_setLeafPane [OF a])
  obtain u v where uv: "leafPanes ?r1 = u @ [q2] @ v" "leafPanes ?r2 = u @ [q1] @ v"
    by (rule leafPanes_setLeafPane [OF g2 b(2)])
  have m1: "add_mset q1 (mset (leafPanes ?r1)) = add_mset q2 (mset (leafPanes (Root w)))" using xy by simp
  have m2: "add_mset q2 (mset (leafPanes ?r2)) = add_mset q1 (mset (leafPanes ?r1))" using uv by simp
  have m: "mset (leafPanes ?r2) = mset (leafPanes (Root w))" using m1 m2 by simp
  have occ: "occupied ?r2"
    using occupied_updAt [OF occupied_updAt [OF t(3) a(1), of "setLeafPane (Some q2)"] g2, of "setLeafPane (Some q1)"] by simp
  have "tree_ok (w\<lparr>Root := ?r2\<rparr>)"
    using tree_ok_perm [OF t(1) geo2(1) _ m occ] geo1(2) geo2(2) by simp
  moreover have "placed ?r2"
    using placed_updAt_rect [OF placed_updAt_rect [OF _ a(1), of "setLeafPane (Some q2)"] g2, of "setLeafPane (Some q1)"] ok
    by (simp add: window_ok_defs)
  ultimately have "window_ok (resizePTYs (w\<lparr>Root := ?r2\<rparr>))"
    by (intro window_ok_resizePTYs) (auto simp: tree_ok_def layout_ok_def)
  then show "window_ok (resizePTYs (w\<lparr>Root := root\<rparr>))" "mset (leafPanes root) = mset (leafPanes (Root w))"
    using m by (simp_all add: root_def)
qed

lemma SwapPanes_kept:
  assumes ok: "window_ok w"
  shows "kept (leafPanes (Root w)) (snd (SwapPanes i j w))"
proof (cases "i = j")
  case True
  then show ?thesis using ok by (simp add: SwapPanes_def kept_def)
next
  case ij: False
  note mode = window_ok_mode [OF ok]
  show ?thesis
  proof (cases rule: mustFindPane_ok [OF ok, of i])
    case 1
    then show ?thesis using ok mode ij by (simp add: SwapPanes_def kept_def)
  next
    case a: (2 p1 r1 l1 q1)
    show ?thesis
    proof (cases rule: mustFindPane_ok [OF ok, of j])
      case 1
      then show ?thesis using ok mode ij a by (simp add: SwapPanes_def kept_def)
    next
      case b: (2 p2 r2 l2 q2)
      have ne: "p1 \<noteq> p2" using a b ij by auto
      show ?thesis using exchange_leaves [OF ok ne a(2,3) b(2,3)] a b ij mode by (simp add: SwapPanes_def kept_def)
    qed
  qed
qed

text \<open>Writing a pane into every leaf.\<close>

lemma WalkAt_write:
  assumes "\<forall>(p, q) \<in> set as. \<exists>l. (p, l) \<in> set (WalkAt c)" "distinct (map fst as)"
  shows "WalkAt (fold (\<lambda>(p, q). updAt p (setLeafPane q)) as c) =
    map (\<lambda>(p, k). (p, case map_of as p of Some q \<Rightarrow> setLeafPane q k | None \<Rightarrow> k)) (WalkAt c)"
  using assms
proof (induction as arbitrary: c)
  case Nil
  show ?case by (simp add: split_def)
next
  case (Cons a as)
  obtain p q where a: "a = (p, q)" by (cases a)
  obtain l where "(p, l) \<in> set (WalkAt c)" using Cons.prems(1) a by auto
  then obtain r i where leaf: "getAt p c = Some (Leaf r i)" using WalkAt_getAt by (metis IsLeaf.elims(2))
  let ?c = "updAt p (setLeafPane q) c"
  have W: "WalkAt ?c = map (\<lambda>(p', k). (p', if p' = p then setLeafPane q k else k)) (WalkAt c)"
    by (rule WalkAt_setLeafPane [OF leaf])
  have "\<forall>(p', q') \<in> set as. \<exists>l. (p', l) \<in> set (WalkAt ?c)"
    using Cons.prems(1) unfolding W by (fastforce simp: a)
  then have IH: "WalkAt (fold (\<lambda>(p, q). updAt p (setLeafPane q)) as ?c) =
      map (\<lambda>(p, k). (p, case map_of as p of Some q \<Rightarrow> setLeafPane q k | None \<Rightarrow> k)) (WalkAt ?c)"
    using Cons by simp
  have "map_of as p = None" using Cons.prems(2) a by (simp add: map_of_eq_None_iff)
  then have "map (\<lambda>(p, k). (p, case map_of as p of Some q \<Rightarrow> setLeafPane q k | None \<Rightarrow> k)) (WalkAt ?c) =
      map (\<lambda>(p', k). (p', case map_of (a # as) p' of Some q \<Rightarrow> setLeafPane q k | None \<Rightarrow> k)) (WalkAt c)"
    unfolding W map_map a by (intro map_cong refl) auto
  moreover have "fold (\<lambda>(p, q). updAt p (setLeafPane q)) (a # as) c = fold (\<lambda>(p, q). updAt p (setLeafPane q)) as ?c"
    by (simp only: a fold_simps prod.case)
  ultimately show ?case using IH by simp
qed

lemma write_geometry:
  "sized c \<Longrightarrow> placed c \<Longrightarrow> \<forall>(p, q) \<in> set as. \<exists>l. (p, l) \<in> set (WalkAt c) \<Longrightarrow>
   sized (fold (\<lambda>(p, q). updAt p (setLeafPane q)) as c) \<and> placed (fold (\<lambda>(p, q). updAt p (setLeafPane q)) as c) \<and>
   rectOf (fold (\<lambda>(p, q). updAt p (setLeafPane q)) as c) = rectOf c"
proof (induction as arbitrary: c)
  case (Cons a as)
  obtain p q where a: "a = (p, q)" by (cases a)
  obtain l where "(p, l) \<in> set (WalkAt c)" using Cons.prems(3) a by auto
  then obtain r i where leaf: "getAt p c = Some (Leaf r i)" using WalkAt_getAt by (metis IsLeaf.elims(2))
  let ?c = "updAt p (setLeafPane q) c"
  note g = updAt_setLeafPane_geometry [OF Cons.prems(1) leaf, of q]
  have "placed ?c" by (rule placed_updAt_rect [OF Cons.prems(2) leaf]) simp_all
  moreover have "\<forall>(p', q') \<in> set as. \<exists>l. (p', l) \<in> set (WalkAt ?c)"
    using Cons.prems(3) unfolding WalkAt_setLeafPane [OF leaf] by (fastforce simp: a)
  ultimately show ?case using Cons.IH [OF g(1)] g(2) by (simp add: a)
qed simp

lemma write_all_panes:
  assumes "length ps = length (WalkAt c)"
  defines "c' \<equiv> fold (\<lambda>(p, q). updAt p (setLeafPane q)) (zip (map fst (WalkAt c)) (map Some ps)) c"
  shows "leafPanes c' = ps" "occupied c'"
proof -
  let ?as = "zip (map fst (WalkAt c)) (map Some ps)"
  have W: "WalkAt c' = map (\<lambda>(p, k). (p, case map_of ?as p of Some q \<Rightarrow> setLeafPane q k | None \<Rightarrow> k)) (WalkAt c)"
    unfolding c'_def by (rule WalkAt_write) (use assms(1) distinct_WalkAt in \<open>auto simp: set_zip dest: nth_mem\<close>, metis nth_mem prod.collapse)
  have panes: "map (cellPane \<circ> snd) (WalkAt c') = map Some ps"
  proof (rule nth_equalityI)
    fix i assume i: "i < length (map (cellPane \<circ> snd) (WalkAt c'))"
    then have i': "i < length (WalkAt c)" by (simp add: W)
    obtain p k where pk: "WalkAt c ! i = (p, k)" by fastforce
    have "map_of ?as p = Some (Some (ps ! i))"
      using map_of_zip_nth [of "map fst (WalkAt c)" "map Some ps" i] distinct_WalkAt assms(1) i' pk by simp
    moreover have "IsLeaf k" using WalkAt_getAt i' pk by (metis nth_mem)
    ultimately show "map (cellPane \<circ> snd) (WalkAt c') ! i = map Some ps ! i" using i' pk assms(1) by (simp add: W)
  qed (simp add: W assms(1))
  have "List.map_filter f xs = ys" if "map f xs = map Some ys" for f :: "nat list \<times> LayoutCell \<Rightarrow> pane option" and xs ys
    using that by (induction xs arbitrary: ys) (auto simp: map_filter_def Cons_eq_map_conv)
  then show "leafPanes c' = ps" using panes by (simp add: leafPanes_WalkAt)
  have "cellPane l \<noteq> None" if "(p, l) \<in> set (WalkAt c')" for p l
  proof -
    have "cellPane l \<in> set (map (cellPane \<circ> snd) (WalkAt c'))" using that by force
    then show ?thesis unfolding panes by auto
  qed
  then show "occupied c'" by (auto simp: occupied_WalkAt)
qed

lemma mset_rotate:
  "xs \<noteq> [] \<Longrightarrow> mset (last xs # butlast xs) = mset xs" "xs \<noteq> [] \<Longrightarrow> mset (tl xs @ [hd xs]) = mset xs"
proof -
  assume "xs \<noteq> []"
  then have "mset xs = mset (butlast xs @ [last xs])" by simp
  then show "mset (last xs # butlast xs) = mset xs" by simp
qed (cases xs; simp)

text \<open>Rotation moves every pane one leaf on, and keeps the leaves.\<close>

lemma occupied_cellPanes:
  assumes "occupied r"
  shows "map (cellPane \<circ> snd) (WalkAt r) = map Some (leafPanes r)"
proof -
  have "map (cellPane \<circ> snd) xs = map Some (List.map_filter (cellPane \<circ> snd) xs)"
    if "\<forall>(p, l) \<in> set xs. cellPane l \<noteq> None" for xs :: "(nat list \<times> LayoutCell) list"
    using that by (induction xs) (auto simp: map_filter_def)
  then show ?thesis using assms by (simp add: leafPanes_WalkAt occupied_WalkAt)
qed

lemma fold_cell_paths:
  fixes xs :: "(nat list \<times> LayoutCell) list"
  shows "fold (\<lambda>((path, cell), p) root. updAt path (setLeafPane p) root) (zip xs qs) r =
    fold (\<lambda>(p, q). updAt p (setLeafPane q)) (zip (map fst xs) qs) r"
proof (induction xs arbitrary: qs r)
  case (Cons x xs)
  then show ?case by (cases qs) (auto split: prod.splits)
qed simp

lemma RotatePanes_success:
  assumes ok: "window_ok w"
  obtains w' where "RotatePanes forward w = (Inr (), w')" "window_ok w'"
    "leafPanes (Root w') = (if length (leafPanes (Root w)) \<le> 1 then leafPanes (Root w)
       else if forward then last (leafPanes (Root w)) # butlast (leafPanes (Root w))
       else tl (leafPanes (Root w)) @ [hd (leafPanes (Root w))])"
proof -
  let ?r = "Root w" and ?ps = "leafPanes (Root w)"
  have t: "tree_ok w" "sized ?r" "occupied ?r" "placed ?r"
    using window_ok_tree [OF ok] ok by (auto simp: tree_ok_def panes_ok_def window_ok_defs)
  note mode = window_ok_mode [OF ok]
  have cells: "paneLeavesIn ?r = WalkAt ?r"
    using t(3) by (auto simp: paneLeavesIn_def occupied_WalkAt filter_id_conv)
  note ps = occupied_cellPanes [OF t(3)]
  have len: "length (WalkAt ?r) = length ?ps" using ps by (metis length_map)
  define rot where "rot = (if forward then last ?ps # butlast ?ps else tl ?ps @ [hd ?ps])"
  show ?thesis
  proof (cases "length ?ps \<le> 1")
    case True
    then show ?thesis using that [of w] ok mode cells len by (simp add: RotatePanes_def Let_def)
  next
    case False
    then have ne: "?ps \<noteq> []" by auto
    have rl: "length rot = length (WalkAt ?r)" using ne len by (simp add: rot_def)
    let ?root = "fold (\<lambda>(p, q). updAt p (setLeafPane q)) (zip (map fst (WalkAt ?r)) (map Some rot)) ?r"
    have "\<forall>(p, q) \<in> set (zip (map fst (WalkAt ?r)) (map Some rot)). \<exists>l. (p, l) \<in> set (WalkAt ?r)"
      by (force dest: set_zip_leftD)
    then have g: "sized ?root" "placed ?root" "rectOf ?root = rectOf ?r" using write_geometry [OF t(2,4)] by auto
    note all = write_all_panes [OF rl]
    have m: "mset (leafPanes ?root) = mset ?ps" using all(1) mset_rotate [OF ne] by (simp add: rot_def)
    have "tree_ok (w\<lparr>Root := ?root\<rparr>)" using tree_ok_perm [OF t(1) g(1,3) m all(2)] .
    then have wok: "window_ok (resizePTYs (w\<lparr>Root := ?root\<rparr>))"
      using g(2) by (intro window_ok_resizePTYs) (auto simp: tree_ok_def layout_ok_def)
    have rot': "(if forward then last (map Some ?ps) # butlast (map Some ?ps) else tl (map Some ?ps) @ [hd (map Some ?ps)]) = map Some rot"
      using ne by (simp add: rot_def last_map map_butlast map_tl hd_map)
    have "RotatePanes forward w = (Inr (), resizePTYs (w\<lparr>Root := ?root\<rparr>))"
      unfolding RotatePanes_def Let_def mode(6,7) cells ps rot' using mode(1) False len by (simp add: fold_cell_paths)
    then show ?thesis using that wok all(1) False by (simp add: rot_def)
  qed
qed

lemma RotatePanes_kept:
  assumes "window_ok w"
  shows "kept (leafPanes (Root w)) (snd (RotatePanes forward w))"
proof -
  let ?ps = "leafPanes (Root w)"
  obtain w' where w': "RotatePanes forward w = (Inr (), w')" "window_ok w'"
    "leafPanes (Root w') = (if length ?ps \<le> 1 then ?ps
       else if forward then last ?ps # butlast ?ps else tl ?ps @ [hd ?ps])"
    by (rule RotatePanes_success [OF assms])
  have "mset (leafPanes (Root w')) = mset ?ps" using w'(3) mset_rotate [of ?ps] by (cases "?ps = []") auto
  then show ?thesis using w'(1,2) by (simp add: kept_def)
qed

lemma emulator_unzoomIf:
  "emulator (heap (snd (unzoomIf b w)) i) = None \<longleftrightarrow> emulator (heap w i) = None"
  by (auto simp: unzoomIf_def Unzoom_def Let_def emulator_Pane_Resize split: option.splits)

lemma window_dims: "window_ok w \<Longrightarrow> 0 < Width w \<and> Width w < 2147483648 \<and> 0 < Height w \<and> Height w < 2147483648"
  using sized_axisSize_pos [of "Root w" SplitVertical] sized_axisSize_pos [of "Root w" SplitHorizontal]
  by (simp add: window_ok_defs axisSize_def)

lemma Zoom_success:
  assumes ok: "window_ok w" and q: "q \<in> set (leafPanes (Root w))" and two: "1 < length (leafPanes (Root w))"
    and z: "ZoomedPaneID w \<noteq> pane_ID q"
  obtains w' where "Zoom (pane_ID q) w = (Inr (), w')" "window_ok w'" "Root w' = Root w" "ZoomedPaneID w' = pane_ID q"
    "ActivePane w' = Some q" "Width w' = Width w" "Height w' = Height w"
    "emulator (paneAt q w) \<noteq> None \<Longrightarrow> emulator (paneAt q w') = Some (Width w, PaneContentHeight (Height w))"
proof -
  obtain w1 where w1: "unzoomIf True w = (Inr (), w1)" "window_ok w1" "ZoomedPaneID w1 = 0" "Root w1 = Root w"
    "Width w1 = Width w" "Height w1 = Height w"
    using unzoomIf_ok [OF ok, of True] by metis
  have p: "panes_ok (Root w1)" "q \<in> set (leafPanes (Root w1))" using w1 q by (simp_all add: window_ok_def)
  obtain path r l where f: "FindPane (pane_ID q) (Root w1) = Some (path, Leaf r l)" "Pane l = Some q"
    using FindPane_ok [OF p] by metis
  let ?z = "setActive q (w1\<lparr>ZoomedPaneID := pane_ID q\<rparr>)"
  let ?w = "snd (Pane_Resize q (Width w) (PaneContentHeight (Height w)) ?z)"
  have "length (Walk (Root w1)) > 1" using two length_Walk [of "Root w1"] p(1) w1(4) by (simp add: panes_ok_def)
  then have "Zoom (pane_ID q) w = (Inr (), ?w)"
    using z w1 f window_ok_mode(1) [OF w1(2)] Pane_Resize_Inr [of ?z] w1(2)
    by (simp add: Zoom_def mustFindPane_def window_ok_defs)
  moreover have "emulator (paneAt q ?w) = Some (Width w, PaneContentHeight (Height w))" if "emulator (paneAt q w) \<noteq> None"
  proof -
    have "emulator (paneAt q w1) \<noteq> None" using emulator_unzoomIf [of True w] w1(1) that by simp
    then show ?thesis
      using window_dims [OF ok] PaneContentHeight_bounds(1) [of "Height w"] PaneContentHeight_bounds(2) [of "Height w" "Height w"]
      by (auto simp: emulator_Pane_Resize int32_id)
  qed
  ultimately show ?thesis
    using that [of ?w] window_ok_zoom [OF w1(2) p(2) w1(3)] w1 by simp
qed

end
