(* ===== verification/Window_Splice.thy ===== *)
theory Window_Splice
  imports Window_Move
begin

text \<open>
  Moving a pane to another place of the tree (\<^verbatim>\<open>MovePaneIntoSplit\<close>, \<^verbatim>\<open>MovePaneToRootEdge\<close>,
  \<^verbatim>\<open>MovePaneToColumn\<close>), replacing panes, and exchanging a pane for a subtree and back.
\<close>

section \<open>Moving a pane into a split\<close>

definition restoreActivePaneByID :: "uint32 \<Rightarrow> pane \<Rightarrow> window \<Rightarrow> window" where
  "restoreActivePaneByID activePaneID preferred w =
     (if activePaneID = pane_ID preferred then setActive preferred w
      else case (if activePaneID \<noteq> 0 then FindPane activePaneID (Root w) else None) of
             Some (path, cell) \<Rightarrow>
               (case cellPane cell of Some q \<Rightarrow> setActive q w | None \<Rightarrow> setActive preferred w)
           | None \<Rightarrow> setActive preferred w)"

definition activePaneID :: "window \<Rightarrow> uint32" where
  "activePaneID w = (case ActivePane w of Some a \<Rightarrow> pane_ID a | None \<Rightarrow> 0)"

definition MovePaneIntoSplit :: "uint32 \<Rightarrow> uint32 \<Rightarrow> SplitDir \<Rightarrow> bool \<Rightarrow> window \<Rightarrow> unit wres" where
  "MovePaneIntoSplit paneID targetPaneID dir insertFirst w0 =
     (if paneID = targetPaneID then ok () w0
      else if Ultra w0 \<noteq> None then err ErrUltraLayout w0
      else if IsLeadPane paneID w0 \<or> IsLeadPane targetPaneID w0 then err ErrLeadPane w0
      else andThen (mustFindPane paneID) (\<lambda>(sourcePath, sourceCell).
           andThen (mustFindPane targetPaneID) (\<lambda>(targetPath, targetCell) w1.
             if \<not> canSplitCell targetCell dir then err (ErrSpace (splitAvailable targetCell dir) (2 * PaneMinSize + 1)) w1
             else case cellPane sourceCell of
               None \<Rightarrow> err Panic w1
             | Some sourcePane \<Rightarrow>
                 andThen (unzoomIf True) (\<lambda>_.
                 andThen (ClosePane paneID) (\<lambda>_.
                 andThen (mustFindPane targetPaneID) (\<lambda>(path, cell) w2.
                   case splitWithOrder path dir (Some sourcePane) insertFirst (Root w2) of
                     Inl e \<Rightarrow> err (ErrLayout e) w2
                   | Inr (root, newPath, existingPath) \<Rightarrow>
                       andThen (resizeCellPane True (the (getAt newPath root))) (\<lambda>_.
                       andThen (resizeCellPane True (the (getAt existingPath root))) (\<lambda>_ w3.
                         let w4 = resizePTYsPreservingZoomedPaneSize (w3\<lparr>Root := FixOffsets (Root w3)\<rparr>)
                         in ok () (restoreActivePaneByID (activePaneID w1) sourcePane w4)))
                       (w2\<lparr>Root := root\<rparr>)))) w1)) w0)"

definition MovePaneToRootEdge :: "uint32 \<Rightarrow> SplitDir \<Rightarrow> bool \<Rightarrow> window \<Rightarrow> unit wres" where
  "MovePaneToRootEdge paneID dir insertFirst w0 =
     (if Ultra w0 \<noteq> None then err ErrUltraLayout w0
      else if IsLeadPane paneID w0 then err ErrLeadPane w0
      else let required = splitRootRequiredSize (logicalRoot w0) dir;
               available = splitAvailable (logicalRoot w0) dir
           in if available < required then err (ErrSpace available required) w0
              else andThen (mustFindPane paneID) (\<lambda>(sourcePath, sourceCell) w1.
                case cellPane sourceCell of
                  None \<Rightarrow> err Panic w1
                | Some sourcePane \<Rightarrow>
                    andThen (unzoomIf True) (\<lambda>_.
                    andThen (ClosePane paneID) (\<lambda>_ w2.
                    andThen (splitSubtreeRootWithOptions (logicalRootPath w2) dir sourcePane insertFirst defaultSplitOptions)
                      (\<lambda>_ w3. ok () (restoreActivePaneByID (activePaneID w1) sourcePane w3)) w2)) w1) w0)"

section \<open>Columns\<close>

definition ColumnIndexForPaneID :: "uint32 \<Rightarrow> window \<Rightarrow> nat wres" where
  "ColumnIndexForPaneID paneID w =
     andThen (mustFindPane paneID) (\<lambda>(path, cell) w.
       if IsLeadPane paneID w then ok 0 w
       else let columnBase = (if hasAnchoredLead w then 1 else 0); root = logicalRoot w in
         if IsLeaf root \<or> \<not> splitAxis SplitVertical root then ok columnBase w
         else andThen (rootChildForPaneID paneID) (\<lambda>idx. ok (columnBase + idx)) w) w"

definition columnContainerForPaneID :: "uint32 \<Rightarrow> window \<Rightarrow> nat list wres" where
  "columnContainerForPaneID paneID w =
     andThen (mustFindPane paneID) (\<lambda>(path, cell) w.
       if IsLeaf (Root w) \<or> \<not> splitAxis SplitVertical (Root w) then ok [] w
       else andThen (rootChildForPaneID paneID) (\<lambda>idx w. ok (logicalRootPath w @ [idx]) w) w) w"

definition firstOtherPaneID :: "LayoutCell \<Rightarrow> uint32 \<Rightarrow> uint32 option" where
  "firstOtherPaneID cell exclude =
     (case List.find (\<lambda>q. pane_ID q \<noteq> exclude \<and> pane_ID q \<noteq> 0) (leafPanes cell) of
        Some q \<Rightarrow> Some (pane_ID q)
      | None \<Rightarrow> None)"

definition wrapColumnWithBottomPane :: "pane \<Rightarrow> LayoutCell \<Rightarrow> LayoutCell" where
  "wrapColumnWithBottomPane p column =
     (let r = rectOf column;
          size2 = go_div (rH r - 1) 2;
          size1 = rH r - 1 - size2
      in Node r SplitHorizontal
           [ResizeSubtree (rW r) size1 column, NewLeaf (Some p) (rX r) (rY r + size1 + 1) (rW r) size2])"

definition appendPaneToColumn :: "pane \<Rightarrow> LayoutCell \<Rightarrow> LayoutCell" where
  "appendPaneToColumn p column =
     (case column of
        Leaf r l \<Rightarrow> wrapColumnWithBottomPane p column
      | Node r d cs \<Rightarrow>
          if d = SplitHorizontal then distributeEqual (Node r d (cs @ [NewLeaf (Some p) 0 0 0 0]))
          else wrapColumnWithBottomPane p column)"

text \<open>
  Where a cell that stays in the tree is found after the leaf at \<open>p\<close> was closed: its index
  shifts when an earlier sibling left, and its path shortens when its parent collapsed.
\<close>

definition pathAfterClose :: "nat list \<Rightarrow> nat \<Rightarrow> nat list \<Rightarrow> nat list" where
  "pathAfterClose p siblings q =
     (let parent = butlast p; n = length parent in
      if p \<noteq> [] \<and> n < length q \<and> take n q = parent then
        (let i = q ! n; rest = drop (Suc n) q in
         if siblings = 2 then parent @ rest
         else if i > last p then parent @ (i - 1) # rest
         else q)
      else q)"

definition MovePaneToColumn :: "uint32 \<Rightarrow> uint32 \<Rightarrow> window \<Rightarrow> unit wres" where
  "MovePaneToColumn paneID targetPaneID w0 =
     (if Ultra w0 \<noteq> None then err ErrUltraLayout w0
      else if (case leadColumn w0 of
                 Some col \<Rightarrow> (FindPane paneID col \<noteq> None) \<noteq> (FindPane targetPaneID col \<noteq> None)
               | None \<Rightarrow> False) then err ErrAcrossLead w0
      else andThen (mustFindPane paneID) (\<lambda>(sourcePath, sourceCell).
           andThen (columnContainerForPaneID paneID) (\<lambda>sourceColumn.
           andThen (columnContainerForPaneID targetPaneID) (\<lambda>destColumn w1.
             let destCell = the (getAt destColumn (Root w1));
                 sameColumn = (sourceColumn = destColumn);
                 anchor = (if sameColumn \<and> paneID = targetPaneID then firstOtherPaneID destCell paneID
                           else Some targetPaneID);
                 needsRoom = (sameColumn \<or> IsLeaf destCell \<or> \<not> splitAxis SplitHorizontal destCell)
             in case (anchor, cellPane sourceCell) of
                  (None, _) \<Rightarrow> ok () w1
                | (Some anchorPaneID, None) \<Rightarrow> err Panic w1
                | (Some anchorPaneID, Some sourcePane) \<Rightarrow>
                    if needsRoom \<and> cH destCell < 2 * PaneMinSize + 1
                    then err (ErrColumnSpace (cH destCell) (2 * PaneMinSize + 1)) w1
                    else andThen (unzoomIf True) (\<lambda>_ w2.
                      let sourceWasActive = (case ActivePane w2 of Some a \<Rightarrow> pane_ID a = paneID | None \<Rightarrow> False);
                          siblings = length (Children (the (getAt (butlast sourcePath) (Root w2))))
                      in andThen (ClosePane paneID) (\<lambda>_.
                         andThen (if sameColumn \<and> destColumn = [] then ok []
                                  else if sameColumn then columnContainerForPaneID anchorPaneID
                                  else ok (pathAfterClose sourcePath siblings destColumn)) (\<lambda>path w3.
                           let w4 = finishTreeMutation (w3\<lparr>Root := updAt path (appendPaneToColumn sourcePane) (Root w3)\<rparr>)
                           in ok () (if sourceWasActive then setActive sourcePane w4 else w4))) w2) w1))) w0)"

section \<open>Replacing and splicing\<close>

definition ReplacePane :: "uint32 \<Rightarrow> pane \<Rightarrow> window \<Rightarrow> unit wres" where
  "ReplacePane oldPaneID replacement w0 =
     (let wasActive = (case ActivePane w0 of Some a \<Rightarrow> pane_ID a = oldPaneID | None \<Rightarrow> False) in
      if Ultra w0 \<noteq> None then
        (case ultraReplacePane oldPaneID replacement w0 of
           (False, w) \<Rightarrow> err (ErrNotFound oldPaneID) w
         | (True, w) \<Rightarrow> ok () (rebuildUltraTree (if wasActive then w\<lparr>ActivePane := Some replacement\<rparr> else w)))
      else andThen (mustFindPane oldPaneID) (\<lambda>(path, cell) w.
        let w1 = finishTreeMutationPreservingZoomedPaneSize
                   (w\<lparr>Root := updAt path (setLeafPane (Some replacement)) (Root w)\<rparr>)
        in ok () (if wasActive then setActive replacement w1 else w1)) w0)"

text \<open>
  The loop of \<^verbatim>\<open>SplicePane\<close>: sizes and positions of the new leaves, and the resizing of their
  terminals, which stops at the first failure (the Go slice then keeps nil entries for the panes
  that were not reached; the model keeps the leaves that were built).
\<close>

fun spliceLeaves :: "pane list \<Rightarrow> int \<Rightarrow> int \<Rightarrow> int \<Rightarrow> int list \<Rightarrow> LayoutCell list" where
  "spliceLeaves [] x y h ws = []"
| "spliceLeaves (p # ps) x y h ws = NewLeaf (Some p) x y (hd ws) h # spliceLeaves ps (x + hd ws + 1) y h (tl ws)"

fun resizeSpliced :: "LayoutCell list \<Rightarrow> window \<Rightarrow> nat wres" where
  "resizeSpliced [] w = ok 0 w"
| "resizeSpliced (c # cs) w = andThen (resizeCellPane True c) (\<lambda>_ w1. andThen (resizeSpliced cs) (\<lambda>n. ok (Suc n)) w1) w"

definition spliceWidths :: "nat \<Rightarrow> int \<Rightarrow> int list" where
  "spliceWidths n available =
     (let each = go_div available (int n)
      in replicate (n - 1) each @ [available - each * (int n - 1)])"

definition SplicePane :: "uint32 \<Rightarrow> pane list \<Rightarrow> window \<Rightarrow> nat list list wres" where
  "SplicePane oldPaneID newPanes w0 =
     (if newPanes = [] then err ErrNothingToSplice w0
      else if Ultra w0 \<noteq> None \<and> length newPanes > 1 then err ErrUltraLayout w0
      else if Ultra w0 \<noteq> None then
        andThen (ReplacePane oldPaneID (hd newPanes)) (\<lambda>_ w.
          ok (case FindPane (pane_ID (hd newPanes)) (Root w) of Some (path, cell) \<Rightarrow> [path] | None \<Rightarrow> []) w) w0
      else andThen (mustFindPane oldPaneID) (\<lambda>(path, cell) w1.
        let w2 = (if ZoomedPaneID w1 = oldPaneID then w1\<lparr>ZoomedPaneID := 0\<rparr> else w1);
            wasActive = (case ActivePane w2 of Some a \<Rightarrow> pane_ID a = oldPaneID | None \<Rightarrow> False);
            focus = (\<lambda>w. if wasActive then setActive (hd newPanes) w else w);
            n = length newPanes;
            available = cW cell - (int n - 1)
        in if n = 1 then
             andThen (Pane_Resize (hd newPanes) (cW cell) (PaneContentHeight (cH cell))) (\<lambda>_ w. ok [path] (focus w))
               (w2\<lparr>Root := updAt path (setLeafPane (Some (hd newPanes))) (Root w2)\<rparr>)
           else if available < int n * PaneMinSize then err (ErrSpliceSpace (int n) (cW cell)) w2
           else let
             leaves = spliceLeaves newPanes (cX cell) (cY cell) (cH cell) (spliceWidths n available);
             w3 = w2\<lparr>Root := updAt path (\<lambda>c. Node (rectOf c) SplitVertical leaves) (Root w2)\<rparr>
           in andThen (resizeSpliced leaves) (\<lambda>_ w.
                let w4 = focus w
                in ok (map (\<lambda>i. path @ [i]) [0..<n]) (w4\<lparr>Root := FixOffsets (Root w4)\<rparr>)) w3) w0)"

definition proxyFor :: "string \<Rightarrow> pane \<Rightarrow> bool" where
  "proxyFor hostName p \<longleftrightarrow> pane_IsProxy p \<and> pane_Host p = hostName"

definition allProxyLeavesForHost :: "string \<Rightarrow> LayoutCell \<Rightarrow> bool" where
  "allProxyLeavesForHost hostName cell \<longleftrightarrow> leafPanes cell \<noteq> [] \<and> list_all (proxyFor hostName) (leafPanes cell)"

definition unspliceTarget :: "string \<Rightarrow> LayoutCell \<Rightarrow> nat list option" where
  "unspliceTarget hostName root =
     (case List.find (\<lambda>(p, c). case cellPane c of Some q \<Rightarrow> proxyFor hostName q | None \<Rightarrow> False) (WalkAt root) of
        None \<Rightarrow> None
      | Some (p, c) \<Rightarrow>
          if p \<noteq> [] \<and> allProxyLeavesForHost hostName (the (getAt (butlast p) root)) then Some (butlast p) else Some p)"

fun becomeLeaf :: "pane \<Rightarrow> LayoutCell \<Rightarrow> LayoutCell" where
  "becomeLeaf q (Leaf r l) = Leaf r (l\<lparr>Pane := Some q\<rparr>)"
| "becomeLeaf q (Node r d cs) = Leaf r \<lparr>Pane = Some q, PaneID = 0, Slot = 0, LeadSlot = False\<rparr>"

definition UnsplicePane :: "string \<Rightarrow> pane \<Rightarrow> window \<Rightarrow> unit wres" where
  "UnsplicePane hostName replacement w0 =
     (if Ultra w0 \<noteq> None then ultraUnsplice hostName replacement w0
      else case unspliceTarget hostName (Root w0) of
        None \<Rightarrow> err (ErrNoSplicedPanes hostName) w0
      | Some path \<Rightarrow>
          (let root = updAt path (becomeLeaf replacement) (Root w0); cell = the (getAt path root) in
           andThen (Pane_Resize replacement (cW cell) (PaneContentHeight (cH cell))) (\<lambda>_ w.
             let w1 = (if (case ActivePane w of
                             None \<Rightarrow> True
                           | Some a \<Rightarrow> pane_Host a = hostName \<or> FindPane (pane_ID a) (Root w) = None)
                       then setActive replacement w else w)
             in ok () (resizePTYs (w1\<lparr>Root := FixOffsets (Root w1)\<rparr>)))
           (w0\<lparr>Root := root\<rparr>)))"

definition ApplyLayout ::
  "LayoutCell option \<Rightarrow> pane option \<Rightarrow> int \<Rightarrow> int \<Rightarrow> uint32 \<Rightarrow> uint32 \<Rightarrow> window \<Rightarrow> unit wres" where
  "ApplyLayout root0 activePane width0 height0 zoomedPaneID leadPaneID w =
     (case root0 of
        None \<Rightarrow> err ErrMissingRoot w
      | Some r0 \<Rightarrow>
          (let width = (if width0 \<le> 0 then cW r0 else width0);
               height = (if height0 \<le> 0 then cH r0 else height0);
               root = ResizeAll width height (setRect ((rectOf r0)\<lparr>rX := 0, rY := 0\<rparr>) r0)
           in ok () (resizePTYs (w\<lparr>Ultra := None, ultraLead := None, Root := root, Width := width, Height := height,
                ZoomedPaneID := zoomedPaneID, LeadPaneID := leadPaneID,
                ActivePane := (case activePane of Some a \<Rightarrow> Some a | None \<Rightarrow> firstPaneInSubtree root)\<rparr>))))"

definition SplicePaneWithLayout :: "uint32 \<Rightarrow> LayoutCell option \<Rightarrow> pane option \<Rightarrow> window \<Rightarrow> unit wres" where
  "SplicePaneWithLayout oldPaneID subtree0 activePane w0 =
     (case subtree0 of
        None \<Rightarrow> err ErrMissingSubtree w0
      | Some s0 \<Rightarrow>
          if Ultra w0 \<noteq> None then err ErrUltraLayout w0
          else andThen (mustFindPane oldPaneID) (\<lambda>(path, cell) w1.
            let w2 = (if ZoomedPaneID w1 = oldPaneID then w1\<lparr>ZoomedPaneID := 0\<rparr> else w1);
                subtree = FixOffsets (ResizeSubtree (cW cell) (cH cell)
                            (setRect ((rectOf s0)\<lparr>rX := cX cell, rY := cY cell\<rparr>) s0));
                w3 = w2\<lparr>Root := updAt path (\<lambda>_. subtree) (Root w2)\<rparr>;
                w4 = (case (case activePane of Some a \<Rightarrow> Some a | None \<Rightarrow> firstPaneInSubtree subtree) of
                        Some a \<Rightarrow> setActive a w3
                      | None \<Rightarrow> w3)
            in ok () (resizePTYs (w4\<lparr>Root := FixOffsets (Root w4)\<rparr>))) w0)"

end
