(* ===== verification/Window_Size.thy ===== *)
theory Window_Size
  imports Window_Split
begin

text \<open>
  Resizing (\<^verbatim>\<open>window_resize.go\<close>): the whole window, a border, a pane towards a direction, and
  equalizing columns and rows; and the planning of column-fill spawns (\<^verbatim>\<open>column_fill.go\<close>).
\<close>

section \<open>The window and its borders\<close>

definition Window_Resize :: "int \<Rightarrow> int \<Rightarrow> window \<Rightarrow> window" where
  "Window_Resize width height w0 =
     (let w = w0\<lparr>Width := width, Height := height\<rparr> in
      if Ultra w \<noteq> None then rebuildUltraTree w
      else resizePTYsPreservingZoomedPaneSize (w\<lparr>Root := ResizeAll width height (Root w)\<rparr>))"

text \<open>The change of a child next to a moved border: its own size, then its subtree.\<close>

definition growChild :: "SplitDir \<Rightarrow> int \<Rightarrow> LayoutCell \<Rightarrow> LayoutCell" where
  "growChild d delta c =
     (let c1 = setAxisSize d (axisSize d c + delta) c
      in if \<not> IsLeaf c1 then ResizeSubtree (cW c1) (cH c1) c1 else c1)"

definition clampBorderDelta :: "int \<Rightarrow> int \<Rightarrow> int \<Rightarrow> int" where
  "clampBorderDelta leftSize rightSize delta =
     (let d1 = (if delta > 0 \<and> rightSize - delta < PaneMinSize then rightSize - PaneMinSize else delta)
      in if d1 < 0 \<and> leftSize + d1 < PaneMinSize then - (leftSize - PaneMinSize) else d1)"

definition ResizeBorder :: "int \<Rightarrow> int \<Rightarrow> int \<Rightarrow> window \<Rightarrow> bool \<times> window" where
  "ResizeBorder x y delta w =
     (if Ultra w \<noteq> None then (False, w)
      else case FindBorderNear x y (Root w) of
        None \<Rightarrow> (False, w)
      | Some hit \<Rightarrow>
          if delta = 0 then (False, w)
          else let
            i = hitIndex hit; d = hitDir hit;
            cs = Children (the (getAt (hitPath hit) (Root w)));
            delta' = clampBorderDelta (axisSize d (cs ! i)) (axisSize d (cs ! Suc i)) delta
          in if delta' = 0 then (False, w)
             else let
               edit = (\<lambda>c. withChildren (cs[i := growChild d delta' (cs ! i),
                                            Suc i := growChild d (- delta') (cs ! Suc i)]) c);
               root = updAt (hitPath hit) edit (Root w)
             in (True, resizePTYs (w\<lparr>Root := FixOffsets root\<rparr>)))"

section \<open>Transfers between siblings\<close>

definition transferEdges :: "nat \<Rightarrow> nat \<Rightarrow> resizeEdge \<times> resizeEdge" where
  "transferEdges growerIdx donorIdx =
     (if donorIdx < growerIdx then (resizeFromStart, resizeFromEnd) else (resizeFromEnd, resizeFromStart))"

text \<open>\<^verbatim>\<open>transferAxisSize\<close>: the grower and the donor afterwards, and how much moved.\<close>

definition transferAxisSize ::
  "LayoutCell \<Rightarrow> LayoutCell \<Rightarrow> SplitDir \<Rightarrow> int \<Rightarrow> resizeEdge \<Rightarrow> resizeEdge \<Rightarrow> (LayoutCell \<times> LayoutCell) \<times> int" where
  "transferAxisSize grower donor axis needed growerEdge donorEdge =
     (let available = resizeCheck axis donor in
      if available = 0 then ((grower, donor), 0)
      else let amount = (if available > needed then needed else available)
           in ((resizeToAxisFromEdge axis (axisSize axis grower + amount) growerEdge grower,
                resizeToAxisFromEdge axis (axisSize axis donor - amount) donorEdge donor), amount))"

text \<open>The loop of \<^verbatim>\<open>transferSiblingRange\<close>, over the donor indices in the order it visits them.\<close>

fun transferSiblingRange ::
  "nat \<Rightarrow> SplitDir \<Rightarrow> int \<Rightarrow> nat list \<Rightarrow> LayoutCell list \<Rightarrow> LayoutCell list \<times> int" where
  "transferSiblingRange growerIdx axis remaining [] siblings = (siblings, remaining)"
| "transferSiblingRange growerIdx axis remaining (donorIdx # rest) siblings =
     (if remaining > 0 then
        (let (growerEdge, donorEdge) = transferEdges growerIdx donorIdx;
             ((grower, donor), moved) =
               transferAxisSize (siblings ! growerIdx) (siblings ! donorIdx) axis remaining growerEdge donorEdge
         in transferSiblingRange growerIdx axis (remaining - moved) rest
              (siblings[growerIdx := grower, donorIdx := donor]))
      else (siblings, remaining))"

definition resizePaneGrow :: "nat \<Rightarrow> SplitDir \<Rightarrow> int \<Rightarrow> LayoutCell list \<Rightarrow> LayoutCell list \<times> int" where
  "resizePaneGrow idx axis needed siblings =
     (case transferSiblingRange idx axis needed [idx + 1..<length siblings] siblings of
        (siblings1, remaining1) \<Rightarrow>
          if remaining1 = 0 then (siblings1, needed)
          else (case transferSiblingRange idx axis remaining1 (rev [0..<idx]) siblings1 of
                  (siblings2, remaining2) \<Rightarrow> (siblings2, needed - remaining2)))"

definition resizePaneShrink :: "nat \<Rightarrow> SplitDir \<Rightarrow> int \<Rightarrow> LayoutCell list \<Rightarrow> LayoutCell list \<times> int" where
  "resizePaneShrink idx axis needed siblings =
     (case transferSiblingRange (idx + 1) axis needed (rev [0..<idx + 1]) siblings of
        (siblings1, remaining1) \<Rightarrow> (siblings1, needed - remaining1))"

definition parseDirection :: "string \<Rightarrow> int \<Rightarrow> (SplitDir \<times> int) option" where
  "parseDirection direction delta =
     (if direction = ''left'' then Some (SplitVertical, - delta)
      else if direction = ''right'' then Some (SplitVertical, delta)
      else if direction = ''up'' then Some (SplitHorizontal, - delta)
      else if direction = ''down'' then Some (SplitHorizontal, delta)
      else None)"

text \<open>
  The walk from the leaf to the nearest ancestor that splits along the axis: the candidates are
  the proper prefixes of the leaf's path, longest first.
\<close>

fun nearestSplit :: "SplitDir \<Rightarrow> LayoutCell \<Rightarrow> nat list \<Rightarrow> nat \<Rightarrow> nat option" where
  "nearestSplit axis root path 0 = None"
| "nearestSplit axis root path (Suc n) =
     (if splitAxis axis (the (getAt (take n path) root)) then Some n else nearestSplit axis root path n)"

definition resizeSiblings :: "nat \<Rightarrow> SplitDir \<Rightarrow> int \<Rightarrow> LayoutCell list \<Rightarrow> (LayoutCell list \<times> int) option" where
  "resizeSiblings idx0 axis change siblings =
     (if length siblings < 2 then None
      else let idx = (if Suc idx0 = length siblings then idx0 - 1 else idx0) in
        if Suc idx \<ge> length siblings then None
        else Some (if change > 0 then resizePaneGrow idx axis change siblings
                   else resizePaneShrink idx axis (- change) siblings))"

definition ResizePane :: "uint32 \<Rightarrow> string \<Rightarrow> int \<Rightarrow> window \<Rightarrow> bool \<times> window" where
  "ResizePane paneID direction delta w0 =
     (if delta \<le> 0 \<or> Ultra w0 \<noteq> None then (False, w0)
      else if IsLeadPane paneID w0 then (False, w0)
      else case unzoomIf True w0 of
        (Inl e, w) \<Rightarrow> (False, w)
      | (Inr u, w) \<Rightarrow>
          (case parseDirection direction delta of
             None \<Rightarrow> (False, w)
           | Some (axis, change) \<Rightarrow>
               (case FindPane paneID (Root w) of
                  None \<Rightarrow> (False, w)
                | Some (path, leaf) \<Rightarrow>
                    (case nearestSplit axis (Root w) path (length path) of
                       None \<Rightarrow> (False, w)
                     | Some n \<Rightarrow>
                         (case resizeSiblings (path ! n) axis change (Children (the (getAt (take n path) (Root w)))) of
                            None \<Rightarrow> (False, w)
                          | Some (siblings, moved) \<Rightarrow>
                              if moved = 0 then (False, w\<lparr>Root := updAt (take n path) (withChildren siblings) (Root w)\<rparr>)
                              else (True, resizePTYs
                                (w\<lparr>Root := FixOffsets (updAt (take n path) (withChildren siblings) (Root w))\<rparr>)))))))"

definition ResizeActive :: "string \<Rightarrow> int \<Rightarrow> window \<Rightarrow> bool \<times> window" where
  "ResizeActive direction delta w =
     (case ActivePane w of None \<Rightarrow> (False, w) | Some a \<Rightarrow> ResizePane (pane_ID a) direction delta w)"

section \<open>Equalizing\<close>

fun horizontalLeafCount :: "LayoutCell \<Rightarrow> nat" where
  "horizontalLeafCount (Leaf r l) = 1"
| "horizontalLeafCount (Node r d cs) =
     (if d \<noteq> SplitHorizontal then 0
      else if (\<exists>c \<in> set cs. horizontalLeafCount c = 0) then 0
      else sum_list (map horizontalLeafCount cs))"

text \<open>The columns, as paths from the cell.\<close>

fun collectEqualizeColumns :: "LayoutCell \<Rightarrow> nat list list" where
  "collectEqualizeColumns (Leaf r l) = []"
| "collectEqualizeColumns (Node r d cs) =
     (if horizontalLeafCount (Node r d cs) > 1 then [[]]
      else concat (map (\<lambda>(i, c). map (\<lambda>p. i # p) (collectEqualizeColumns c)) (zip [0..<length cs] cs)))"

definition equalizeLeafHeightTargets :: "LayoutCell \<Rightarrow> int list" where
  "equalizeLeafHeightTargets c =
     (let leafCount = horizontalLeafCount c in
      if leafCount < 2 then [] else equalSplitSizes (cH c) (int leafCount))"

definition equalizeLeafHeightsNeeded :: "LayoutCell \<Rightarrow> bool" where
  "equalizeLeafHeightsNeeded c =
     list_ex (\<lambda>(leaf, target). cH leaf \<noteq> target) (zip (Walk c) (equalizeLeafHeightTargets c))"

lemma size_ResizeSubtree [simp]: "size (ResizeSubtree w h c) = size c"
  by (metis shape_ResizeSubtree size_shape)

text \<open>
  \<open>equalizeKids\<close> is the loop over the children; each is given the height of its slice of the
  targets and then handled with that slice.
\<close>

function (sequential) equalizeLeafHeightsWithTargets :: "int list \<Rightarrow> LayoutCell \<Rightarrow> LayoutCell"
  and equalizeKids :: "int \<Rightarrow> int list \<Rightarrow> LayoutCell list \<Rightarrow> LayoutCell list" where
  "equalizeLeafHeightsWithTargets targets (Leaf r l) =
     (if targets = [] then Leaf r l else ResizeSubtree (rW r) (hd targets) (Leaf r l))"
| "equalizeLeafHeightsWithTargets targets (Node r d cs) =
     (if targets = [] then Node r d cs else Node r d (equalizeKids (rW r) targets cs))"
| "equalizeKids width targets [] = []"
| "equalizeKids width targets (c # cs) =
     (let leafCount = horizontalLeafCount c;
          childTargets = take leafCount targets;
          targetHeight = int leafCount - 1 + sum_list childTargets
      in equalizeLeafHeightsWithTargets childTargets (ResizeSubtree width targetHeight c)
           # equalizeKids width (drop leafCount targets) cs)"
  by pat_completeness auto
termination
  by (relation "measure (\<lambda>x. case x of Inl (t, c) \<Rightarrow> size c | Inr (w, t, cs) \<Rightarrow> size_list size cs)") auto

definition equalizeLeafHeights :: "LayoutCell \<Rightarrow> LayoutCell" where
  "equalizeLeafHeights c =
     (let targets = equalizeLeafHeightTargets c in
      if targets = [] then c else equalizeLeafHeightsWithTargets targets c)"

definition equalizeWidthsNeeded :: "LayoutCell \<Rightarrow> window \<Rightarrow> bool" where
  "equalizeWidthsNeeded logical w =
     (if \<not> hasAnchoredLead w then equalizeAxisNeeded SplitVertical logical
      else if anchoredLeadColumnsWidthChanged w then True
      else equalizeAxisNeeded SplitVertical logical)"

definition equalizeWidths :: "window \<Rightarrow> window" where
  "equalizeWidths w =
     (let w1 = (if \<not> hasAnchoredLead w then w else equalizeAnchoredLeadColumns w)
      in w1\<lparr>Root := updAt (logicalRootPath w) (equalizeAxisRecursive SplitVertical) (Root w1)\<rparr>)"

text \<open>The tree work: widths first, then every column whose rows still need it.\<close>

definition equalizeTree :: "bool \<Rightarrow> bool \<Rightarrow> nat list \<Rightarrow> nat list list \<Rightarrow> window \<Rightarrow> window" where
  "equalizeTree widthChanged heightChanged base columns w =
     (let w1 = (if widthChanged then equalizeWidths w else w)
      in if heightChanged then
           w1\<lparr>Root := fold (\<lambda>p. updAt (base @ p)
                (\<lambda>c. if equalizeLeafHeightsNeeded c then equalizeLeafHeights c else c)) columns (Root w1)\<rparr>
         else w1)"

definition equalizeWithOptions :: "bool \<Rightarrow> bool \<Rightarrow> SplitOptions \<Rightarrow> window \<Rightarrow> bool \<times> window" where
  "equalizeWithOptions widths heights opts w0 =
     (if (\<not> widths \<and> \<not> heights) \<or> Ultra w0 \<noteq> None then (False, w0)
      else let
        logical = logicalRoot w0;
        base = logicalRootPath w0;
        widthChanged = (widths \<and> equalizeWidthsNeeded logical w0);
        columns = (if heights then collectEqualizeColumns logical else []);
        heightChanged = list_ex (\<lambda>p. equalizeLeafHeightsNeeded (the (getAt p logical))) columns
      in if \<not> widthChanged \<and> \<not> heightChanged then (False, w0)
         else case unzoomIf (\<not> KeepFocus opts) w0 of
           (Inl e, w) \<Rightarrow> (False, w)
         | (Inr u, w) \<Rightarrow>
             (let w2 = equalizeTree widthChanged heightChanged base columns w;
                  w3 = w2\<lparr>Root := FixOffsets (Root w2)\<rparr>
              in (True, if KeepFocus opts then resizePTYsPreservingZoomedPaneSize w3 else resizePTYs w3)))"

definition Equalize :: "bool \<Rightarrow> bool \<Rightarrow> window \<Rightarrow> bool \<times> window" where
  "Equalize widths heights = equalizeWithOptions widths heights defaultSplitOptions"

section \<open>Column-fill spawn planning\<close>

record ColumnFillSpawnPlan =
  InheritPaneID :: uint32
  SplitTargetPaneID :: uint32
  RootSplit :: bool

type_synonym columnFillColumn = "int \<times> int \<times> LayoutCell list"

definition collectColumnFillColumns :: "LayoutCell \<Rightarrow> columnFillColumn list" where
  "collectColumnFillColumns root =
     (let leaves = sort_key (\<lambda>c. (cX c, cW c, cY c, CellPaneID c)) (filter (\<lambda>c. cellPane c \<noteq> None) (Walk root))
      in foldl (\<lambda>columns leaf.
             case rev columns of
               (x, w, ls) # before \<Rightarrow>
                 if x = cX leaf \<and> w = cW leaf then rev before @ [(x, w, ls @ [leaf])]
                 else columns @ [(cX leaf, cW leaf, [leaf])]
             | [] \<Rightarrow> [(cX leaf, cW leaf, [leaf])])
           [] leaves)"

definition shortestColumn :: "nat \<Rightarrow> columnFillColumn list \<Rightarrow> columnFillColumn option" where
  "shortestColumn maxPanes columns =
     foldl (\<lambda>best column.
         if length (snd (snd column)) \<ge> maxPanes then best
         else case best of
                None \<Rightarrow> Some column
              | Some b \<Rightarrow> if length (snd (snd column)) < length (snd (snd b)) then Some column else best)
       None columns"

definition PlanColumnFillSpawn :: "window \<Rightarrow> werror + ColumnFillSpawnPlan" where
  "PlanColumnFillSpawn w =
     (if Ultra w \<noteq> None then
        (case (case ActivePane w of
                 Some a \<Rightarrow> Some a
               | None \<Rightarrow> (case Panes w of p # ps \<Rightarrow> Some p | [] \<Rightarrow> None)) of
           None \<Rightarrow> Inl ErrNoPanes
         | Some p \<Rightarrow> Inr \<lparr>InheritPaneID = pane_ID p, SplitTargetPaneID = 0, RootSplit = True\<rparr>)
      else let columns = collectColumnFillColumns (logicalRoot w) in
        if columns = [] then Inl ErrNoPanes
        else case shortestColumn (length columns + 1) columns of
               Some (x, cw, leaves) \<Rightarrow>
                 Inr \<lparr>InheritPaneID = CellPaneID (last leaves), SplitTargetPaneID = CellPaneID (last leaves),
                      RootSplit = False\<rparr>
             | None \<Rightarrow>
                 Inr \<lparr>InheritPaneID = CellPaneID (last (snd (snd (last columns)))), SplitTargetPaneID = 0,
                      RootSplit = True\<rparr>)"

section \<open>Resizing keeps the invariant\<close>

lemma tree_ok_shape:
  assumes "tree_ok w" "sized root" "rectOf root = rectOf (Root w)" "shape root = shape (Root w)"
  shows "tree_ok (w\<lparr>Root := root\<rparr>)"
proof -
  have l: "leafPanes root = leafPanes (Root w)" "occupied root = occupied (Root w)"
    using assms(4) leafPanes_cong occupied_cong by metis+
  show ?thesis
    using assms l by (intro tree_ok_Root) (auto simp: tree_ok_def panes_ok_def active_ok_def zoom_ok_def)
qed

lemma Window_Resize_kept:
  assumes ok: "window_ok w" and min: "minSubtreeSize SplitVertical (Root w) \<le> width" "minSubtreeSize SplitHorizontal (Root w) \<le> height"
    and max: "width < 2147483648" "height < 2147483648"
  shows "kept (leafPanes (Root w)) (Window_Resize width height w)"
proof -
  have s: "sized (Root w)" using ok by (simp add: window_ok_defs)
  let ?root = "ResizeAll width height (Root w)"
  note ra = ResizeAll_props [OF s, where w = width and h = height]
  have "rectOf ?root = mkRect 0 0 width height"
  proof -
    have "cX ?root = cX (Root w)" "cY ?root = cY (Root w)"
      by (simp_all add: ResizeAll_def pos_resizeToAxis)
    moreover have "cW ?root = width" "cH ?root = height"
      using ra(4) [where a = SplitVertical] ra(4) [where a = SplitHorizontal] min by (simp_all add: axisSize_def)
    moreover have "cX (Root w) = 0" "cY (Root w) = 0" using ok by (simp_all add: window_ok_defs)
    ultimately show ?thesis by (simp add: mkRect_def)
  qed
  then have "window_ok (resizePTYsPreservingZoomedPaneSize (w\<lparr>Width := width, Height := height, Root := ?root\<rparr>))"
    using ok ra(1-3) max leafPanes_cong [OF ra(3)] occupied_cong [OF ra(3)]
    by (intro window_ok_resizePTYs) (simp_all add: window_ok_defs panes_ok_def)
  then show ?thesis using window_ok_mode(1) [OF ok] leafPanes_cong [OF ra(3)] by (simp add: Window_Resize_def Let_def kept_def)
qed

subsection \<open>Transfers\<close>

text \<open>A list of siblings that fill a parent: what a transfer keeps.\<close>

definition siblings_ok :: "SplitDir \<Rightarrow> int \<Rightarrow> LayoutCell list \<Rightarrow> LayoutCell list \<Rightarrow> bool" where
  "siblings_ok d n cs cs' \<longleftrightarrow> length cs' = length cs \<and> (\<forall>c \<in> set cs'. sized c \<and> axisSize (flip d) c = n) \<and>
     sum_list (map (axisSize d) cs') = sum_list (map (axisSize d) cs) \<and> map shape cs' = map shape cs"

lemma siblings_ok_refl: "(\<forall>c \<in> set cs. sized c \<and> axisSize (flip d) c = n) \<Longrightarrow> siblings_ok d n cs cs"
  by (simp add: siblings_ok_def)

lemma transferAxisSize_props:
  assumes g: "sized grower" and d: "sized donor" and n: "0 < needed"
    and t: "transferAxisSize grower donor a needed ge de = ((grower', donor'), moved)"
  shows "0 \<le> moved" "moved \<le> needed" "moved = min needed (axisSize a donor - minSubtreeSize a donor)"
    "sized grower' \<and> sized donor' \<and> shape grower' = shape grower \<and> shape donor' = shape donor"
    "axisSize a grower' = axisSize a grower + moved" "axisSize a donor' = axisSize a donor - moved"
    "axisSize (flip a) grower' = axisSize (flip a) grower" "axisSize (flip a) donor' = axisSize (flip a) donor"
proof -
  have rc: "resizeCheck a donor = axisSize a donor - minSubtreeSize a donor" "0 \<le> resizeCheck a donor"
    using resizeCheck_eq [OF d] resizeCheck_nonneg [OF d] by auto
  have gm: "minSubtreeSize a grower \<le> axisSize a grower" using minSubtreeSize_le_axisSize [OF g] .
  have "0 \<le> moved \<and> moved = min needed (axisSize a donor - minSubtreeSize a donor) \<and>
    resized_ok a grower (axisSize a grower + moved) grower' \<and> resized_ok a donor (axisSize a donor - moved) donor' \<and>
    shape grower' = shape grower \<and> shape donor' = shape donor"
  proof (cases "resizeCheck a donor = 0")
    case True
    then show ?thesis using t rc g d n by (auto simp: transferAxisSize_def resized_ok_def)
  next
    case False
    then have m: "moved = min needed (resizeCheck a donor)"
      "grower' = resizeToAxisFromEdge a (axisSize a grower + moved) ge grower"
      "donor' = resizeToAxisFromEdge a (axisSize a donor - moved) de donor"
      using t by (auto simp: transferAxisSize_def Let_def min_def split: if_splits)
    have "max (axisSize a grower + moved) (minSubtreeSize a grower) = axisSize a grower + moved"
      "max (axisSize a donor - moved) (minSubtreeSize a donor) = axisSize a donor - moved" "0 \<le> moved"
      using m(1) rc gm n by linarith+
    then show ?thesis
      using resizeToAxisFromEdge_props [OF g, of a "axisSize a grower + moved" ge]
        resizeToAxisFromEdge_props [OF d, of a "axisSize a donor - moved" de] rc(1) m(1) by (simp add: m(2,3))
  qed
  then show "0 \<le> moved" "moved \<le> needed" "moved = min needed (axisSize a donor - minSubtreeSize a donor)"
    "sized grower' \<and> sized donor' \<and> shape grower' = shape grower \<and> shape donor' = shape donor"
    "axisSize a grower' = axisSize a grower + moved" "axisSize a donor' = axisSize a donor - moved"
    "axisSize (flip a) grower' = axisSize (flip a) grower" "axisSize (flip a) donor' = axisSize (flip a) donor"
    by (auto simp: resized_ok_def)
qed

lemma transferSiblingRange_ok:
  assumes "\<forall>c \<in> set cs. sized c \<and> axisSize (flip a) c = n" "0 \<le> remaining"
    "\<forall>i \<in> set donors. i < length cs \<and> i \<noteq> g" "g < length cs"
    "transferSiblingRange g a remaining donors cs = (cs', remaining')"
  shows "siblings_ok a n cs cs' \<and> 0 \<le> remaining' \<and> remaining' \<le> remaining \<and>
    axisSize a (cs' ! g) = axisSize a (cs ! g) + (remaining - remaining')"
  using assms
proof (induction g a remaining donors cs rule: transferSiblingRange.induct)
  case (2 g a remaining i rest cs)
  show ?case
  proof (cases "remaining > 0")
    case True
    obtain ge de where e: "transferEdges g i = (ge, de)" by fastforce
    obtain gr dn m where t: "transferAxisSize (cs ! g) (cs ! i) a remaining ge de = ((gr, dn), m)"
      by (metis prod.exhaust)
    let ?cs = "cs[g := gr, i := dn]"
    have idx: "i < length cs" "i \<noteq> g" "g < length cs" using "2.prems" by auto
    note p = transferAxisSize_props [OF _ _ True t]
    have sz: "sized (cs ! g)" "sized (cs ! i)" "axisSize (flip a) (cs ! g) = n" "axisSize (flip a) (cs ! i) = n"
      using "2.prems"(1) idx by auto
    have "\<forall>c \<in> set ?cs. sized c \<and> axisSize (flip a) c = n"
      using p [OF sz(1,2)] sz "2.prems"(1)
      by (auto dest!: subsetD [OF set_update_subset_insert])
    moreover have rec: "transferSiblingRange g a (remaining - m) rest ?cs = (cs', remaining')"
      using "2.prems"(5) True e t by simp
    ultimately have IH: "siblings_ok a n ?cs cs' \<and> 0 \<le> remaining' \<and> remaining' \<le> remaining - m \<and>
        axisSize a (cs' ! g) = axisSize a (?cs ! g) + (remaining - m - remaining')"
      using "2.IH" [OF True e [symmetric] refl t [symmetric] refl refl] "2.prems"(2-4) p(1,2) [OF sz(1,2)] by auto
    have "sum_list (map (axisSize a) ?cs) = sum_list (map (axisSize a) cs)"
      using idx p [OF sz(1,2)] by (simp add: sum_list_update_int)
    moreover have "map shape ?cs = map shape cs"
      using idx p(4) [OF sz(1,2)] by (simp add: map_update list_update_id) (metis list_update_id map_update nth_list_update_neq)
    moreover have "axisSize a (?cs ! g) = axisSize a (cs ! g) + m" using idx p [OF sz(1,2)] by simp
    ultimately show ?thesis using IH p(1) [OF sz(1,2)] by (simp add: siblings_ok_def)
  next
    case False
    then show ?thesis using 2 siblings_ok_refl by auto
  qed
qed (auto simp: siblings_ok_refl)

lemma resizeSiblings_Some:
  assumes "resizeSiblings i a change cs = Some res" "i < length cs"
  obtains idx where "Suc idx < length cs"
    "res = (if change > 0 then resizePaneGrow idx a change cs else resizePaneShrink idx a (- change) cs)"
proof -
  let ?idx = "if Suc i = length cs then i - 1 else i"
  have "\<not> Suc ?idx \<ge> length cs" using assms by (simp add: resizeSiblings_def Let_def split: if_splits)
  then show ?thesis using assms that [of ?idx] by (simp add: resizeSiblings_def Let_def del: Suc_le_eq split: if_split_asm)
qed

lemma resizeSiblings_ok:
  assumes kids: "\<forall>c \<in> set cs. sized c \<and> axisSize (flip a) c = n" and i: "i < length cs"
    and r: "resizeSiblings i a change cs = Some (cs', moved)"
  shows "siblings_ok a n cs cs'" "0 \<le> moved" "change \<noteq> 0 \<longrightarrow> moved \<le> \<bar>change\<bar>"
proof -
  obtain idx where len: "Suc idx < length cs"
    and res: "(cs', moved) = (if change > 0 then resizePaneGrow idx a change cs else resizePaneShrink idx a (- change) cs)"
    by (rule resizeSiblings_Some [OF r i])
  have "siblings_ok a n cs cs' \<and> 0 \<le> moved \<and> (change \<noteq> 0 \<longrightarrow> moved \<le> \<bar>change\<bar>)"
  proof (cases "change > 0")
    case True
    then have g: "resizePaneGrow idx a change cs = (cs', moved)"
      using res by simp
    obtain cs1 r1 where t1: "transferSiblingRange idx a change [idx + 1..<length cs] cs = (cs1, r1)" by fastforce
    have p1: "siblings_ok a n cs cs1 \<and> 0 \<le> r1 \<and> r1 \<le> change"
      using transferSiblingRange_ok [OF kids _ _ _ t1] True len by auto
    show ?thesis
    proof (cases "r1 = 0")
      case True
      then show ?thesis using g t1 p1 by (simp add: resizePaneGrow_def)
    next
      case False
      obtain cs2 r2 where t2: "transferSiblingRange idx a r1 (rev [0..<idx]) cs1 = (cs2, r2)" by fastforce
      have k1: "\<forall>c \<in> set cs1. sized c \<and> axisSize (flip a) c = n" "length cs1 = length cs"
        using p1 by (simp_all add: siblings_ok_def)
      then have "siblings_ok a n cs1 cs2 \<and> 0 \<le> r2 \<and> r2 \<le> r1"
        using transferSiblingRange_ok [OF k1(1) _ _ _ t2] p1 len by auto
      then show ?thesis using g t1 t2 p1 False by (auto simp: resizePaneGrow_def siblings_ok_def)
    qed
  next
    case False
    then have g: "resizePaneShrink idx a (- change) cs = (cs', moved)"
      using res by simp
    obtain cs1 r1 where t1: "transferSiblingRange (idx + 1) a (- change) (rev [0..<idx + 1]) cs = (cs1, r1)" by fastforce
    have "siblings_ok a n cs cs1 \<and> 0 \<le> r1 \<and> r1 \<le> - change"
      using transferSiblingRange_ok [OF kids _ _ _ t1] False len by auto
    then show ?thesis using g t1 False by (auto simp: resizePaneShrink_def)
  qed
  then show "siblings_ok a n cs cs'" "0 \<le> moved" "change \<noteq> 0 \<longrightarrow> moved \<le> \<bar>change\<bar>" by auto
qed

lemma siblings_ok_Node:
  assumes "sized (Node r d cs)" "siblings_ok d (axisLen (flip d) r) cs cs'"
  shows "sized (withChildren cs' (Node r d cs))" "shape (withChildren cs' (Node r d cs)) = shape (Node r d cs)"
  using assms by (auto simp: siblings_ok_def)

lemma nearestSplit_Some:
  "nearestSplit axis root path m = Some n \<Longrightarrow> n < m \<and> splitAxis axis (the (getAt (take n path) root))"
  by (induction m) (auto split: if_splits)

lemma siblings_ok_same_size:
  assumes "siblings_ok d n cs cs'" "sized (Node r d cs)" "n = axisLen (flip d) r" "getAt p root = Some (Node r d cs)" "sized root"
  shows "sized (updAt p (withChildren cs') root)" "rectOf (updAt p (withChildren cs') root) = rectOf root"
    "shape (updAt p (withChildren cs') root) = shape root"
proof -
  note n = siblings_ok_Node [OF assms(2) assms(1) [unfolded assms(3)]]
  note u = updAt_same_shape [OF assms(5,4), of "withChildren cs'", OF n(1) _ n(2)]
  show "sized (updAt p (withChildren cs') root)" "rectOf (updAt p (withChildren cs') root) = rectOf root"
    "shape (updAt p (withChildren cs') root) = shape root"
    by (rule u; simp)+
qed

text \<open>When nothing moved, nothing changed.\<close>

lemma transferAxisSize_unmoved:
  "sized donor \<Longrightarrow> 0 < needed \<Longrightarrow> transferAxisSize grower donor a needed ge de = (p, 0) \<Longrightarrow> p = (grower, donor)"
  by (cases "resizeCheck a donor = 0") (simp_all add: transferAxisSize_def Let_def split: if_splits)

lemma transferSiblingRange_unmoved:
  assumes "\<forall>c \<in> set cs. sized c \<and> axisSize (flip a) c = n" "\<forall>i \<in> set donors. i < length cs \<and> i \<noteq> g" "g < length cs"
    "0 < remaining" "transferSiblingRange g a remaining donors cs = (cs', remaining)"
  shows "cs' = cs"
  using assms
proof (induction donors)
  case (Cons i rest)
  obtain ge de where e: "transferEdges g i = (ge, de)" by fastforce
  obtain gr dn m where t: "transferAxisSize (cs ! g) (cs ! i) a remaining ge de = ((gr, dn), m)"
    by (metis prod.exhaust)
  have sz: "sized (cs ! g)" "sized (cs ! i)" using Cons.prems by auto
  note p = transferAxisSize_props [OF sz Cons.prems(4) t]
  let ?cs = "cs[g := gr, i := dn]"
  have rec: "transferSiblingRange g a (remaining - m) rest ?cs = (cs', remaining)"
    using Cons.prems(4,5) e t by simp
  have "\<forall>c \<in> set ?cs. sized c \<and> axisSize (flip a) c = n"
    using p Cons.prems(1-3) by (auto dest!: subsetD [OF set_update_subset_insert])
  then have "remaining \<le> remaining - m"
    using transferSiblingRange_ok [OF _ _ _ _ rec, of n] p(1,2) Cons.prems(2,3) by auto
  then have m: "m = 0" using p(1) by simp
  then have "gr = cs ! g" "dn = cs ! i" using transferAxisSize_unmoved [OF sz(2) Cons.prems(4)] t by auto
  then show ?case using Cons rec m by simp
qed simp

lemma resizeSiblings_unmoved:
  assumes kids: "\<forall>c \<in> set cs. sized c \<and> axisSize (flip a) c = n" and i: "i < length cs" and c: "change \<noteq> 0"
    and r: "resizeSiblings i a change cs = Some (cs', 0)"
  shows "cs' = cs"
proof -
  obtain idx where len: "Suc idx < length cs"
    and res: "(cs', 0) = (if change > 0 then resizePaneGrow idx a change cs else resizePaneShrink idx a (- change) cs)"
    by (rule resizeSiblings_Some [OF r i])
  show ?thesis
  proof (cases "change > 0")
    case True
    then have g: "resizePaneGrow idx a change cs = (cs', 0)"
      using res by simp
    obtain cs1 r1 where t1: "transferSiblingRange idx a change [idx + 1..<length cs] cs = (cs1, r1)" by fastforce
    have p1: "siblings_ok a n cs cs1 \<and> 0 \<le> r1 \<and> r1 \<le> change"
      using transferSiblingRange_ok [OF kids _ _ _ t1] True len by auto
    obtain cs2 r2 where t2: "transferSiblingRange idx a r1 (rev [0..<idx]) cs1 = (cs2, r2)" by fastforce
    have r1: "r1 \<noteq> 0" using g t1 True by (auto simp: resizePaneGrow_def split: if_splits)
    then have r2: "r2 = change" "cs' = cs2" using g t1 t2 by (auto simp: resizePaneGrow_def)
    have k1: "\<forall>c \<in> set cs1. sized c \<and> axisSize (flip a) c = n" "length cs1 = length cs"
      using p1 by (simp_all add: siblings_ok_def)
    then have "r2 \<le> r1" using transferSiblingRange_ok [OF k1(1) _ _ _ t2] p1 len by auto
    then have e: "r1 = change" using r2 p1 by simp
    have "cs1 = cs"
      by (rule transferSiblingRange_unmoved [OF kids _ _ True t1 [unfolded e]]) (use len in auto)
    then have "transferSiblingRange idx a change (rev [0..<idx]) cs = (cs', change)" using t2 r2 e by simp
    then show ?thesis
      by (rule transferSiblingRange_unmoved [OF kids _ _ True, rotated 2]) (use len in auto)
  next
    case False
    then have "resizePaneShrink idx a (- change) cs = (cs', 0)"
      using res by simp
    then have "transferSiblingRange (idx + 1) a (- change) (rev [0..<idx + 1]) cs = (cs', - change)"
      by (auto simp: resizePaneShrink_def split: prod.splits)
    then show ?thesis
      by (rule transferSiblingRange_unmoved [OF kids, rotated 3]) (use len c False in auto)
  qed
qed

text \<open>Moving a border of a pane: whatever the direction and distance, the invariant is kept.\<close>

text \<open>The last step of a resize: the siblings traded cells, and only a trade that moved any is laid out.\<close>

lemma resizeSiblings_kept:
  assumes ok: "window_ok w" and node: "getAt p (Root w) = Some (Node r axis cs)" and k: "k < length cs"
    and rs: "resizeSiblings k axis change cs = Some (cs', moved)" and change: "change \<noteq> 0"
  defines "root \<equiv> updAt p (withChildren cs') (Root w)"
  shows "kept (leafPanes (Root w)) (if moved = 0 then w\<lparr>Root := root\<rparr> else resizePTYs (w\<lparr>Root := FixOffsets root\<rparr>))"
proof -
  have t: "tree_ok w" "sized (Root w)" using window_ok_tree [OF ok] by (auto simp: tree_ok_def)
  have sn: "sized (Node r axis cs)" using getAt_sized [OF t(2) node] .
  then have kids: "\<forall>c \<in> set cs. sized c \<and> axisSize (flip axis) c = axisLen (flip axis) r" by simp
  have so: "siblings_ok axis (axisLen (flip axis) r) cs cs'"
    using resizeSiblings_ok(1) [OF kids k] rs by blast
  note same = siblings_ok_same_size [OF so sn refl node t(2)]
  have "tree_ok (w\<lparr>Root := root\<rparr>)" using tree_ok_shape [OF t(1) same] by (simp add: root_def)
  from tree_ok_FixOffsets(1) [OF this] have "window_ok (resizePTYs (w\<lparr>Root := FixOffsets root\<rparr>))" by simp
  moreover have "window_ok (w\<lparr>Root := root\<rparr>)" if "moved = 0"
    using resizeSiblings_unmoved [OF kids k, of change cs'] change rs that updAt_fixed [OF node] ok
    by (simp add: root_def)
  moreover have "leafPanes root = leafPanes (Root w)"
    using leafPanes_cong [OF same(3)] by (simp add: root_def)
  ultimately show ?thesis by (simp add: kept_def)
qed

lemma ResizePane_cases:
  assumes ok: "window_ok w"
  obtains (same) w1 where "window_ok w1" "Root w1 = Root w" "snd (ResizePane i direction delta w) = w1"
  | (resized) w1 p r axis cs k change cs' moved where "window_ok w1" "Root w1 = Root w"
      "getAt p (Root w1) = Some (Node r axis cs)" "k < length cs"
      "resizeSiblings k axis change cs = Some (cs', moved)" "change \<noteq> 0"
      "snd (ResizePane i direction delta w) =
        (if moved = 0 then w1\<lparr>Root := updAt p (withChildren cs') (Root w1)\<rparr>
         else resizePTYs (w1\<lparr>Root := FixOffsets (updAt p (withChildren cs') (Root w1))\<rparr>))"
proof -
  obtain w1 where w1: "unzoomIf True w = (Inr (), w1)" "window_ok w1" "Root w1 = Root w"
    using unzoomIf_ok [OF ok] by metis
  note defs = w1(1) window_ok_mode [OF ok] ResizePane_def
  consider "delta \<le> 0" | "delta > 0" "parseDirection direction delta = None"
    | axis change where "delta > 0" "parseDirection direction delta = Some (axis, change)"
        "FindPane i (Root w1) = None"
    | axis change path leaf where "delta > 0" "parseDirection direction delta = Some (axis, change)"
        "FindPane i (Root w1) = Some (path, leaf)"
    by (metis linorder_not_less option.exhaust surj_pair)
  then show thesis
  proof cases
    case 1 then show ?thesis using same [OF ok] by (simp add: ResizePane_def)
  next
    case 2 then show ?thesis using same [OF w1(2,3)] by (simp add: defs)
  next
    case 3 then show ?thesis using same [OF w1(2,3)] by (simp add: defs)
  next
    case (4 axis change path leaf)
    have leaf: "getAt path (Root w1) = Some leaf" using FindPane_Some [of i "Root w1" path leaf] 4(3) by metis
    have change: "change \<noteq> 0" using 4(1,2) by (auto simp: parseDirection_def split: if_splits)
    show ?thesis
    proof (cases "nearestSplit axis (Root w1) path (length path)")
      case None
      then show ?thesis using 4 same [OF w1(2,3)] by (simp add: defs)
    next
      case near: (Some n)
      have n: "n < length path" "splitAxis axis (the (getAt (take n path) (Root w1)))"
        using nearestSplit_Some [OF near] by auto
      obtain r cs where node: "getAt (take n path) (Root w1) = Some (Node r axis cs)" "path ! n < length cs"
        using getAt_take [OF leaf n(1)] n(2) by auto
      show ?thesis
      proof (cases "resizeSiblings (path ! n) axis change cs")
        case None
        then show ?thesis using 4 near node same [OF w1(2,3)] by (simp add: defs)
      next
        case (Some res)
        then show ?thesis
          using 4 near node resized [OF w1(2,3) node _ change] by (cases res) (simp add: defs)
      qed
    qed
  qed
qed

lemma ResizePane_kept:
  assumes ok: "window_ok w"
  shows "kept (leafPanes (Root w)) (snd (ResizePane i direction delta w))"
  using ok
proof (cases rule: ResizePane_cases [where i = i and direction = direction and delta = delta])
  case (same w1)
  then show ?thesis by (simp add: kept_def)
next
  case (resized w1 p r axis cs k change cs' moved)
  show ?thesis using resizeSiblings_kept [OF resized(1,3-6)] resized(2,7) by simp
qed

subsection \<open>Equalizing\<close>

lemma horizontalLeafCount_shape [simp]: "horizontalLeafCount (shape c) = horizontalLeafCount c"
  by (induction c) (auto simp: o_def cong: map_cong)

lemma horizontalLeafCount_cong: "shape c = shape c' \<Longrightarrow> horizontalLeafCount c = horizontalLeafCount c'"
  by (metis horizontalLeafCount_shape)

text \<open>A pure column of rows: its leaves are its rows, and its minimum height is theirs.\<close>

lemma horizontalLeafCount_min:
  "branching c \<Longrightarrow> 0 < horizontalLeafCount c \<Longrightarrow>
     minSubtreeSize SplitHorizontal c = (PaneMinSize + 1) * int (horizontalLeafCount c) - 1"
proof (induction c)
  case (Node r d cs)
  then have d: "d = SplitHorizontal" "\<forall>c \<in> set cs. 0 < horizontalLeafCount c" "cs \<noteq> []"
    "\<forall>c \<in> set cs. branching c" by (auto split: if_splits)
  then have kid: "minSubtreeSize SplitHorizontal c = (PaneMinSize + 1) * int (horizontalLeafCount c) - 1"
    if "c \<in> set cs" for c using Node.IH that by blast
  have "sum_list (map (minSubtreeSize SplitHorizontal) cs) =
      (PaneMinSize + 1) * int (sum_list (map horizontalLeafCount cs)) - int (length cs)"
    using kid by (induction cs) (auto simp: algebra_simps)
  then show ?case using d by auto
qed simp

lemma length_Walk_column: "0 < horizontalLeafCount c \<Longrightarrow> length (Walk c) = horizontalLeafCount c"
proof (induction c)
  case (Node r d cs)
  then have "\<forall>c \<in> set cs. 0 < horizontalLeafCount c" "d = SplitHorizontal" by (auto split: if_splits)
  then show ?case using Node.IH by (auto simp: length_concat o_def intro!: arg_cong [where f = sum_list])
qed simp

lemma sum_list_ge_length: "(\<forall>t \<in> set ts. k \<le> t) \<Longrightarrow> k * int (length ts) \<le> sum_list ts" for k :: int
  using sum_list_const_le [of ts k "\<lambda>x. x"] by simp

text \<open>A child is first resized to exactly the height its share of the targets needs.\<close>

lemma equalizeChild_resized:
  assumes c: "branching c" "0 < horizontalLeafCount c" "minSubtreeSize SplitVertical c \<le> width"
    and len: "length ts = horizontalLeafCount c" and ge: "\<forall>t \<in> set ts. PaneMinSize \<le> t"
  defines "c' \<equiv> ResizeSubtree width (int (horizontalLeafCount c) - 1 + sum_list ts) c"
  shows "sized c'" "horizontalLeafCount c' = horizontalLeafCount c" "shape c' = shape c"
    "axisSize SplitVertical c' = width" "axisSize SplitHorizontal c' = sum_list ts + int (length ts) - 1"
proof -
  let ?h = "int (horizontalLeafCount c) - 1 + sum_list ts"
  have "minSubtreeSize SplitHorizontal c \<le> ?h"
    using horizontalLeafCount_min [OF c(1,2)] sum_list_ge_length [OF ge] len by (simp add: algebra_simps)
  then have "minSubtreeSize b c \<le> dims width ?h b" for b using c(3) by (cases b) auto
  then have ax: "axisSize a c' = dims width ?h a" for a
    unfolding c'_def by (rule ResizeSubtree_exact [OF c(1)])
  show "sized c'" "horizontalLeafCount c' = horizontalLeafCount c" "shape c' = shape c"
    using ResizeSubtree_props [OF c(1)] horizontalLeafCount_cong [of c' c] by (simp_all add: c'_def)
  show "axisSize SplitVertical c' = width" "axisSize SplitHorizontal c' = sum_list ts + int (length ts) - 1"
    using ax len by simp_all
qed

lemma equalizeLeafHeightsWithTargets_props:
  "sized c \<Longrightarrow> 0 < horizontalLeafCount c \<Longrightarrow> length targets = horizontalLeafCount c \<Longrightarrow>
     \<forall>t \<in> set targets. PaneMinSize \<le> t \<Longrightarrow> cH c = sum_list targets + int (length targets) - 1 \<Longrightarrow>
   sized (equalizeLeafHeightsWithTargets targets c) \<and>
   rectOf (equalizeLeafHeightsWithTargets targets c) = rectOf c \<and>
   shape (equalizeLeafHeightsWithTargets targets c) = shape c \<and>
   map cH (Walk (equalizeLeafHeightsWithTargets targets c)) = targets"
  "\<forall>c \<in> set cs. branching c \<and> 0 < horizontalLeafCount c \<and> minSubtreeSize SplitVertical c \<le> width \<Longrightarrow>
     length ts = sum_list (map horizontalLeafCount cs) \<Longrightarrow> \<forall>t \<in> set ts. PaneMinSize \<le> t \<Longrightarrow>
   (\<forall>c \<in> set (equalizeKids width ts cs). sized c \<and> axisSize SplitVertical c = width) \<and>
   sum_list (map (axisSize SplitHorizontal) (equalizeKids width ts cs)) =
     sum_list ts + int (length ts) - int (length cs) \<and>
   map shape (equalizeKids width ts cs) = map shape cs \<and>
   concat (map (\<lambda>c. map cH (Walk c)) (equalizeKids width ts cs)) = ts"
proof (induction targets c and width ts cs rule: equalizeLeafHeightsWithTargets_equalizeKids.induct)
  case (1 targets r l)
  then obtain t where t: "targets = [t]" by (auto simp: length_Suc_conv)
  then show ?case using 1 by auto
next
  case (2 targets r d cs)
  then have d: "d = SplitHorizontal" "\<forall>c \<in> set cs. 0 < horizontalLeafCount c" "targets \<noteq> []"
    "horizontalLeafCount (Node r d cs) = sum_list (map horizontalLeafCount cs)" by (auto split: if_splits)
  note s = "2.prems"(1)
  have "minSubtreeSize SplitVertical c \<le> rW r" if "c \<in> set cs" for c
    using sized_flip_min(1) [OF s that] d(1) by simp
  then have pre: "\<forall>c \<in> set cs. branching c \<and> 0 < horizontalLeafCount c \<and> minSubtreeSize SplitVertical c \<le> rW r"
    using d(2) sized_branching [OF s] by auto
  let ?ks = "equalizeKids (rW r) targets cs"
  have IH: "(\<forall>c \<in> set ?ks. sized c \<and> axisSize SplitVertical c = rW r) \<and>
      sum_list (map (axisSize SplitHorizontal) ?ks) = sum_list targets + int (length targets) - int (length cs) \<and>
      map shape ?ks = map shape cs \<and> concat (map (\<lambda>c. map cH (Walk c)) ?ks) = targets"
    using "2.IH" [OF d(3) pre] "2.prems"(3,4) d(4) by simp
  then have "length ?ks = length cs" by (metis length_map)
  then show ?case using IH s d "2.prems"(5) by (auto simp: map_concat o_def)
next
  case (4 width ts c cs)
  let ?k = "horizontalLeafCount c" and ?c = "ResizeSubtree width (int (horizontalLeafCount c) - 1 + sum_list (take (horizontalLeafCount c) ts)) c"
  let ?t = "take ?k ts"
  have c: "branching c" "0 < ?k" "minSubtreeSize SplitVertical c \<le> width" using "4.prems"(1) by auto
  have len: "length ?t = ?k" "length (drop ?k ts) = sum_list (map horizontalLeafCount cs)" using "4.prems"(2) by auto
  have ge: "\<forall>t \<in> set ?t. PaneMinSize \<le> t" "\<forall>t \<in> set (drop ?k ts). PaneMinSize \<le> t"
    using "4.prems"(3) by (auto dest: in_set_takeD in_set_dropD)
  note ch = equalizeChild_resized [OF c len(1) ge(1)]
  have IH1: "sized (equalizeLeafHeightsWithTargets ?t ?c) \<and>
      rectOf (equalizeLeafHeightsWithTargets ?t ?c) = rectOf ?c \<and>
      shape (equalizeLeafHeightsWithTargets ?t ?c) = shape ?c \<and>
      map cH (Walk (equalizeLeafHeightsWithTargets ?t ?c)) = ?t"
    using "4.IH"(1) [OF refl refl refl] ch c(2) len(1) ge(1) by (simp add: axisSize_def)
  have IH2: "(\<forall>c \<in> set (equalizeKids width (drop ?k ts) cs). sized c \<and> axisSize SplitVertical c = width) \<and>
     sum_list (map (axisSize SplitHorizontal) (equalizeKids width (drop ?k ts) cs)) =
       sum_list (drop ?k ts) + int (length (drop ?k ts)) - int (length cs) \<and>
     map shape (equalizeKids width (drop ?k ts) cs) = map shape cs \<and>
     concat (map (\<lambda>c. map cH (Walk c)) (equalizeKids width (drop ?k ts) cs)) = drop ?k ts"
    using "4.IH"(2) [OF refl refl refl _ len(2) ge(2)] "4.prems"(1) by simp
  have sums: "sum_list ts = sum_list ?t + sum_list (drop ?k ts)" by (metis append_take_drop_id sum_list_append)
  have head: "axisSize a (equalizeLeafHeightsWithTargets ?t ?c) = axisSize a ?c" for a using IH1 by (simp add: axisSize_def)
  show ?case
    using IH1 IH2 ch(3-5) head sums len "4.prems"(2) by (simp add: Let_def)
qed auto

lemma equalSplitSizes_ge:
  assumes "0 < n" "(PaneMinSize + 1) * n - 1 \<le> span"
  shows "\<forall>t \<in> set (equalSplitSizes span n). PaneMinSize \<le> t"
proof -
  define each where "each = (span - (n - 1)) div n"
  have pos: "PaneMinSize * n \<le> span - (n - 1)" using assms(2) by (simp add: algebra_simps)
  then have e: "go_div (span - (n - 1)) n = each"
    using assms(1) by (simp add: each_def go_div_nonneg PaneMinSize_def)
  have "PaneMinSize \<le> each" unfolding each_def using zdiv_mono1 [OF pos assms(1)] assms(1) by simp
  moreover have "each * n \<le> span - (n - 1)"
    using minus_mod_eq_div_mult [of "span - (n - 1)" n] pos_mod_sign [OF assms(1), of "span - (n - 1)"]
    unfolding each_def by linarith
  ultimately have "PaneMinSize \<le> span - (n - 1) - each * (n - 1)" by (simp add: algebra_simps)
  then show ?thesis
    using \<open>PaneMinSize \<le> each\<close> assms(1) e
    by (auto simp: equalSplitSizes_def Let_def dest!: subsetD [OF set_update_subset_insert])
qed

lemma equalizeLeafHeights_props:
  assumes s: "sized c" and k: "1 < horizontalLeafCount c"
  shows "sized (equalizeLeafHeights c)" "rectOf (equalizeLeafHeights c) = rectOf c"
    "shape (equalizeLeafHeights c) = shape c"
    "map cH (Walk (equalizeLeafHeights c)) = equalSplitSizes (cH c) (int (horizontalLeafCount c))"
proof -
  let ?n = "int (horizontalLeafCount c)" and ?t = "equalSplitSizes (cH c) (int (horizontalLeafCount c))"
  have "(PaneMinSize + 1) * ?n - 1 \<le> cH c"
    using horizontalLeafCount_min [OF sized_branching [OF s]] k minSubtreeSize_le_axisSize [OF s, of SplitHorizontal]
    by (simp add: axisSize_def)
  then have "\<forall>t \<in> set ?t. PaneMinSize \<le> t" using equalSplitSizes_ge [of ?n "cH c"] k by simp
  moreover have "cH c = sum_list ?t + int (length ?t) - 1" using sum_equalSplitSizes [of ?n "cH c"] k by simp
  ultimately have p: "sized (equalizeLeafHeightsWithTargets ?t c) \<and>
   rectOf (equalizeLeafHeightsWithTargets ?t c) = rectOf c \<and>
   shape (equalizeLeafHeightsWithTargets ?t c) = shape c \<and> map cH (Walk (equalizeLeafHeightsWithTargets ?t c)) = ?t"
    using equalizeLeafHeightsWithTargets_props(1) [OF s, of ?t] k by simp
  have "length ?t \<noteq> 0" using k by simp
  then have "?t \<noteq> []" by (metis list.size(3))
  then have "equalizeLeafHeights c = equalizeLeafHeightsWithTargets ?t c"
    using k by (simp add: equalizeLeafHeights_def equalizeLeafHeightTargets_def Let_def)
  then show "sized (equalizeLeafHeights c)" "rectOf (equalizeLeafHeights c) = rectOf c"
    "shape (equalizeLeafHeights c) = shape c" "map cH (Walk (equalizeLeafHeights c)) = ?t" using p by simp_all
qed

lemma collectEqualizeColumns_getAt:
  "p \<in> set (collectEqualizeColumns c) \<Longrightarrow> \<exists>k. getAt p c = Some k \<and> 1 < horizontalLeafCount k"
proof (induction c arbitrary: p)
  case (Node r d cs)
  show ?case
  proof (cases "horizontalLeafCount (Node r d cs) > 1")
    case True
    then show ?thesis using Node.prems by simp
  next
    case False
    then obtain i q where "p = i # q" "i < length cs" "q \<in> set (collectEqualizeColumns (cs ! i))"
      using Node.prems by (auto simp del: horizontalLeafCount.simps simp: set_zip)
    then show ?thesis using Node.IH [of "cs ! i" q] by simp
  qed
qed simp

lemma equalizeColumns_fold:
  assumes "sized root" "\<forall>p \<in> set ps. \<exists>k. getAt p root = Some k \<and> 1 < horizontalLeafCount k"
  defines "f \<equiv> \<lambda>c. if equalizeLeafHeightsNeeded c then equalizeLeafHeights c else c"
  shows "sized (fold (\<lambda>p. updAt p f) ps root) \<and> rectOf (fold (\<lambda>p. updAt p f) ps root) = rectOf root \<and>
    shape (fold (\<lambda>p. updAt p f) ps root) = shape root"
  using assms(1,2)
proof (induction ps arbitrary: root)
  case (Cons p ps)
  obtain k where k: "getAt p root = Some k" "1 < horizontalLeafCount k" using Cons.prems(2) by auto
  have sk: "sized k" using getAt_sized [OF Cons.prems(1) k(1)] .
  have f: "sized (f k)" "rectOf (f k) = rectOf k" "shape (f k) = shape k"
    using equalizeLeafHeights_props [OF sk k(2)] sk by (simp_all add: f_def)
  note u = updAt_same_shape [OF Cons.prems(1) k(1), of f, OF f]
  have "\<exists>k. getAt q (updAt p f root) = Some k \<and> 1 < horizontalLeafCount k" if "q \<in> set ps" for q
  proof -
    obtain k0 where "getAt q root = Some k0" "1 < horizontalLeafCount k0" using Cons.prems(2) \<open>q \<in> set ps\<close> by auto
    then show ?thesis using getAt_shape [of q root k0 "updAt p f root"] u(3) by (metis horizontalLeafCount_cong)
  qed
  then show ?case using Cons.IH [of "updAt p f root"] u by simp
qed simp

lemma equalizeWithOptions_kept:
  assumes ok: "window_ok w"
  shows "kept (leafPanes (Root w)) (snd (equalizeWithOptions widths heights opts w))"
proof -
  obtain w1 where w1: "unzoomIf (\<not> KeepFocus opts) w = (Inr (), w1)" "window_ok w1" "Root w1 = Root w"
    using unzoomIf_ok [OF ok] by metis
  note mode = window_ok_mode [OF ok] and mode1 = window_ok_mode [OF w1(2)]
  have t: "tree_ok w1" "sized (Root w1)" using window_ok_tree [OF w1(2)] by (auto simp: tree_ok_def)
  let ?cols = "if heights then collectEqualizeColumns (Root w) else []"
  let ?f = "\<lambda>c. if equalizeLeafHeightsNeeded c then equalizeLeafHeights c else c"
  have widths_ok: "tree_ok (if b then equalizeWidths w1 else w1) \<and> shape (Root (if b then equalizeWidths w1 else w1)) = shape (Root w1)" for b
    using tree_ok_shape [OF t(1) equalizeAxisRecursive_props(1,3,2) [OF t(2)]] equalizeAxisRecursive_props(2) [OF t(2)] mode1 t(1)
    by (simp add: equalizeWidths_def)
  have heights_ok: "tree_ok (w2\<lparr>Root := fold (\<lambda>p. updAt p ?f) ?cols (Root w2)\<rparr>) \<and>
      shape (fold (\<lambda>p. updAt p ?f) ?cols (Root w2)) = shape (Root w1)" if t2: "tree_ok w2" "shape (Root w2) = shape (Root w1)" for w2
  proof -
    have "\<exists>k. getAt p (Root w2) = Some k \<and> 1 < horizontalLeafCount k" if p: "p \<in> set ?cols" for p
    proof -
      obtain k where "getAt p (Root w) = Some k" "1 < horizontalLeafCount k"
        using collectEqualizeColumns_getAt [of p "Root w"] p by (auto split: if_splits)
      then show ?thesis using getAt_shape [of p "Root w" k "Root w2"] t2(2) w1(3) by (metis horizontalLeafCount_cong)
    qed
    then show ?thesis
      using equalizeColumns_fold [of "Root w2" ?cols] t2 tree_ok_shape [OF t2(1)] by (simp add: tree_ok_def)
  qed
  have et: "tree_ok (equalizeTree a b [] ?cols w1) \<and> shape (Root (equalizeTree a b [] ?cols w1)) = shape (Root w1)" for a b
    using widths_ok [of a] heights_ok [of "if a then equalizeWidths w1 else w1"]
    unfolding equalizeTree_def Let_def by (cases b) simp_all
  note fin = tree_ok_FixOffsets [OF conjunct1 [OF et]] and lp = leafPanes_cong [OF conjunct2 [OF et]]
  define wc where "wc = (widths \<and> equalizeWidthsNeeded (Root w) w)"
  define hc where "hc = list_ex (\<lambda>p. equalizeLeafHeightsNeeded (the (getAt p (Root w)))) ?cols"
  have "equalizeWithOptions widths heights opts w =
    (if (\<not> widths \<and> \<not> heights) \<or> \<not> wc \<and> \<not> hc then (False, w)
     else let w2 = equalizeTree wc hc [] ?cols w1; w3 = w2\<lparr>Root := FixOffsets (Root w2)\<rparr>
          in (True, if KeepFocus opts then resizePTYsPreservingZoomedPaneSize w3 else resizePTYs w3))"
    using mode w1(1) by (simp only: equalizeWithOptions_def Let_def wc_def hc_def) simp
  then show ?thesis using ok fin lp w1(3) by (simp add: Let_def kept_def)
qed

text \<open>A range of donors gives what it can: the distance to the minimums, up to the amount wanted.\<close>

lemma transferSiblingRange_exact:
  assumes "\<forall>c \<in> set cs. sized c" "0 \<le> remaining" "distinct donors"
    "\<forall>i \<in> set donors. i < length cs \<and> i \<noteq> g" "g < length cs"
  shows "snd (transferSiblingRange g a remaining donors cs) =
    max 0 (remaining - sum_list (map (\<lambda>i. resizeCheck a (cs ! i)) donors))"
  using assms
proof (induction g a remaining donors cs rule: transferSiblingRange.induct)
  case (2 g a remaining i rest cs)
  have slack: "0 \<le> sum_list (map (\<lambda>j. resizeCheck a (cs ! j)) is)" if "\<forall>j \<in> set is. j < length cs" for "is"
    using that "2.prems"(1) resizeCheck_nonneg by (intro sum_list_nonneg) auto
  show ?case
  proof (cases "remaining > 0")
    case True
    obtain ge de where e: "transferEdges g i = (ge, de)" by fastforce
    obtain gr dn m where t: "transferAxisSize (cs ! g) (cs ! i) a remaining ge de = ((gr, dn), m)"
      by (metis prod.exhaust)
    let ?cs = "cs[g := gr, i := dn]"
    have idx: "i < length cs" "i \<noteq> g" "g < length cs" "i \<notin> set rest" using "2.prems" by auto
    have sz: "sized (cs ! g)" "sized (cs ! i)" using "2.prems"(1) idx by auto
    note p = transferAxisSize_props [OF sz True t]
    have m: "m = min remaining (resizeCheck a (cs ! i))" using p(3) resizeCheck_eq [OF sz(2)] by simp
    have "\<forall>c \<in> set ?cs. sized c"
      using p(4) "2.prems"(1) by (auto dest!: subsetD [OF set_update_subset_insert])
    then have "snd (transferSiblingRange g a (remaining - m) rest ?cs) =
        max 0 (remaining - m - sum_list (map (\<lambda>j. resizeCheck a (?cs ! j)) rest))"
      using "2.IH" [OF True e [symmetric] refl t [symmetric] refl refl] "2.prems" p(2) by auto
    moreover have "x \<noteq> i \<and> x \<noteq> g" if "x \<in> set rest" for x using that idx "2.prems"(4) by auto
    then have "map (\<lambda>j. resizeCheck a (?cs ! j)) rest = map (\<lambda>j. resizeCheck a (cs ! j)) rest"
      by (intro map_cong refl) (metis nth_list_update_neq)
    ultimately have "snd (transferSiblingRange g a remaining (i # rest) cs) =
        max 0 (remaining - m - sum_list (map (\<lambda>j. resizeCheck a (cs ! j)) rest))"
      using True e t by simp
    then show ?thesis using m slack [of rest] "2.prems"(4) by (auto simp: min_def)
  next
    case False
    then show ?thesis using slack [of "i # rest"] "2.prems" by auto
  qed
qed simp

lemma transferSiblingRange_others:
  "j \<noteq> g \<Longrightarrow> j \<notin> set donors \<Longrightarrow> fst (transferSiblingRange g a remaining donors cs) ! j = cs ! j"
proof (induction g a remaining donors cs rule: transferSiblingRange.induct)
  case (2 g a remaining i rest cs)
  obtain ge de where e: "transferEdges g i = (ge, de)" by fastforce
  obtain gr dn m where t: "transferAxisSize (cs ! g) (cs ! i) a remaining ge de = ((gr, dn), m)"
    by (metis prod.exhaust)
  show ?case
    using "2.IH" [OF _ e [symmetric] refl t [symmetric] refl refl] "2.prems" e t by (cases "remaining > 0") auto
qed simp

text \<open>
  Growing a cell takes from its siblings exactly the amount that is wanted or, if they have
  less to spare, everything above their minimums; the siblings keep their total size and none
  falls under its minimum.
\<close>

theorem resizePaneGrow_exact:
  assumes "\<forall>c \<in> set cs. sized c \<and> axisSize (flip axis) c = n" "idx < length cs" "0 < needed"
  shows "case resizePaneGrow idx axis needed cs of (cs', moved) \<Rightarrow>
    moved = min needed (sum_list (map (\<lambda>i. resizeCheck axis (cs ! i)) ([idx + 1..<length cs] @ rev [0..<idx]))) \<and>
    siblings_ok axis n cs cs' \<and> axisSize axis (cs' ! idx) = axisSize axis (cs ! idx) + moved"
proof -
  let ?sl = "\<lambda>is. sum_list (map (\<lambda>i. resizeCheck axis (cs ! i)) is)"
  have sz: "\<forall>c \<in> set cs. sized c" using assms(1) by blast
  have slack: "0 \<le> ?sl is" if "\<forall>j \<in> set is. j < length cs" for "is"
    using that sz resizeCheck_nonneg by (intro sum_list_nonneg) auto
  obtain cs1 r1 where t1: "transferSiblingRange idx axis needed [idx + 1..<length cs] cs = (cs1, r1)" by fastforce
  have ok1: "siblings_ok axis n cs cs1 \<and> 0 \<le> r1 \<and> r1 \<le> needed \<and>
      axisSize axis (cs1 ! idx) = axisSize axis (cs ! idx) + (needed - r1)"
    by (rule transferSiblingRange_ok [OF assms(1) _ _ assms(2) t1]) (use assms(3) in auto)
  have r1: "r1 = max 0 (needed - ?sl [idx + 1..<length cs])"
    using transferSiblingRange_exact [OF sz, of needed "[idx + 1..<length cs]" idx axis] assms(2,3) t1 by simp
  obtain cs2 r2 where t2: "transferSiblingRange idx axis r1 (rev [0..<idx]) cs1 = (cs2, r2)" by fastforce
  have sib: "\<forall>c \<in> set cs1. sized c \<and> axisSize (flip axis) c = n" "length cs1 = length cs" "\<forall>c \<in> set cs1. sized c"
    using ok1 by (auto simp: siblings_ok_def)
  have ok2: "siblings_ok axis n cs1 cs2 \<and> 0 \<le> r2 \<and> r2 \<le> r1 \<and>
      axisSize axis (cs2 ! idx) = axisSize axis (cs1 ! idx) + (r1 - r2)"
    by (rule transferSiblingRange_ok [OF sib(1) _ _ _ t2]) (use assms(2) ok1 sib(2) in auto)
  have eq: "map (\<lambda>i. resizeCheck axis (cs1 ! i)) (rev [0..<idx]) = map (\<lambda>i. resizeCheck axis (cs ! i)) (rev [0..<idx])"
    using transferSiblingRange_others [of _ idx "[idx + 1..<length cs]" axis needed cs] t1 by (intro map_cong) auto
  have r2: "r2 = max 0 (r1 - ?sl (rev [0..<idx]))"
    unfolding eq [symmetric] using transferSiblingRange_exact [OF sib(3), of r1 "rev [0..<idx]" idx axis] assms(2) ok1 sib(2) t2 by simp
  have "siblings_ok axis n cs cs2" using ok1 ok2 by (auto simp: siblings_ok_def)
  then show ?thesis
    using ok1 ok2 r1 r2 t1 t2 slack [of "[idx + 1..<length cs]"] slack [of "rev [0..<idx]"] assms(2)
    by (auto simp: resizePaneGrow_def)
qed

theorem resizePaneGrow_exact_witness:
  "snd (resizePaneGrow 0 SplitVertical 99 [NewLeaf None 0 0 40 24, NewLeaf None 41 0 40 24, NewLeaf None 82 0 10 24]) = 46"
proof -
  let ?cs = "[NewLeaf None 0 0 40 24, NewLeaf None 41 0 40 24, NewLeaf None 82 0 10 24]"
  have "list_all (\<lambda>c. sized c \<and> axisSize (flip SplitVertical) c = 24) ?cs"
    "min 99 (sum_list (map (\<lambda>i. resizeCheck SplitVertical (?cs ! i)) ([0 + 1..<length ?cs] @ rev [0..<0]))) = (46 :: int)"
    by code_simp+
  then show ?thesis
    using resizePaneGrow_exact [of ?cs SplitVertical 24 0 99] by (auto simp: list_all_iff split: prod.splits)
qed

end
