(* ===== verification/State_Machine.thy ===== *)
theory State_Machine
  imports Main
begin

text \<open>
  Runs of a component that is driven by a sequence of operations: the states reachable from an
  initial state, and the interface of an invariant (it holds initially, and every operation
  that is allowed in a state keeps it). The components interpret the interface on their own
  operations.
\<close>

inductive reachable :: "('s \<Rightarrow> bool) \<Rightarrow> ('s \<Rightarrow> 'a \<Rightarrow> bool) \<Rightarrow> ('a \<Rightarrow> 's \<Rightarrow> 's) \<Rightarrow> 's \<Rightarrow> bool"
  for init :: "'s \<Rightarrow> bool" and allowed :: "'s \<Rightarrow> 'a \<Rightarrow> bool" and perform :: "'a \<Rightarrow> 's \<Rightarrow> 's" where
  start: "init s \<Longrightarrow> reachable init allowed perform s"
| step: "reachable init allowed perform s \<Longrightarrow> allowed s a \<Longrightarrow> reachable init allowed perform (perform a s)"

fun runs :: "('s \<Rightarrow> 'a \<Rightarrow> bool) \<Rightarrow> ('a \<Rightarrow> 's \<Rightarrow> 's) \<Rightarrow> 's \<Rightarrow> 'a list \<Rightarrow> bool" where
  "runs allowed perform s [] \<longleftrightarrow> True"
| "runs allowed perform s (a # as) \<longleftrightarrow> allowed s a \<and> runs allowed perform (perform a s) as"

lemma reachable_runs:
  "reachable init allowed perform s \<Longrightarrow> runs allowed perform s as \<Longrightarrow>
     reachable init allowed perform (fold perform as s)"
  by (induction as arbitrary: s) (auto intro: reachable.step)

lemma reachable_iff_runs:
  "reachable init allowed perform t \<longleftrightarrow> (\<exists>s as. init s \<and> runs allowed perform s as \<and> t = fold perform as s)"
proof
  have snoc: "runs allowed perform s (as @ [a]) \<longleftrightarrow>
      runs allowed perform s as \<and> allowed (fold perform as s) a" for s as a
    by (induction as arbitrary: s) auto
  show "\<exists>s as. init s \<and> runs allowed perform s as \<and> t = fold perform as s"
    if "reachable init allowed perform t"
    using that
  proof induction
    case (start s)
    then show ?case by (intro exI [of _ s] exI [of _ "[]"]) simp
  next
    case (step t a)
    then obtain s as where "init s" "runs allowed perform s as" "t = fold perform as s" by blast
    then show ?case using step.hyps(2) by (intro exI [of _ s] exI [of _ "as @ [a]"]) (simp add: snoc)
  qed
qed (auto intro: reachable_runs reachable.start)

locale invariant_system =
  fixes init :: "'s \<Rightarrow> bool" and allowed :: "'s \<Rightarrow> 'a \<Rightarrow> bool" and perform :: "'a \<Rightarrow> 's \<Rightarrow> 's"
    and inv :: "'s \<Rightarrow> bool"
  assumes inv_init: "init s \<Longrightarrow> inv s"
    and inv_step: "inv s \<Longrightarrow> allowed s a \<Longrightarrow> inv (perform a s)"
begin

lemma inv_reachable: "reachable init allowed perform s \<Longrightarrow> inv s"
  by (induction rule: reachable.induct) (auto intro: inv_init inv_step)

lemma inv_runs: "inv s \<Longrightarrow> runs allowed perform s as \<Longrightarrow> inv (fold perform as s)"
  by (induction as arbitrary: s) (auto intro: inv_step)

end

end
