(* ===== verification/Window_Steps.thy ===== *)
theory Window_Steps
  imports Window_Splice Window_Size State_Machine
begin

text \<open>
  A window in split layout as a state machine: the operations of the previous theories as one
  type of commands, in any order and any number, and the invariant of the reachable windows.
\<close>

datatype window_op =
    OpSplit uint32 SplitDir pane SplitOptions
  | OpSplitRoot SplitDir pane SplitOptions
  | OpClose uint32
  | OpResize int int
  | OpResizePane uint32 string int
  | OpEqualize bool bool SplitOptions
  | OpZoom uint32
  | OpUnzoom
  | OpFocus string
  | OpFocusPane pane
  | OpSwapTree uint32 uint32
  | OpMovePane uint32 uint32 bool
  | OpMoveUp uint32
  | OpMoveDown uint32
  | OpSwap uint32 uint32
  | OpSwapForward
  | OpSwapBackward
  | OpRotate bool

fun perform_op :: "window_op \<Rightarrow> window \<Rightarrow> window" where
  "perform_op (OpSplit i dir p opts) w = snd (SplitPaneWithOptions i dir p opts w)"
| "perform_op (OpSplitRoot dir p opts) w = snd (SplitRootWithOptions dir p opts w)"
| "perform_op (OpClose i) w = snd (ClosePane i w)"
| "perform_op (OpResize width height) w = Window_Resize width height w"
| "perform_op (OpResizePane i direction delta) w = snd (ResizePane i direction delta w)"
| "perform_op (OpEqualize widths heights opts) w = snd (equalizeWithOptions widths heights opts w)"
| "perform_op (OpZoom i) w = snd (Zoom i w)"
| "perform_op OpUnzoom w = snd (Unzoom w)"
| "perform_op (OpFocus direction) w = snd (Focus direction w)"
| "perform_op (OpFocusPane p) w = FocusPane p w"
| "perform_op (OpSwapTree i j) w = snd (SwapTree i j w)"
| "perform_op (OpMovePane i j before) w = snd (MovePane i j before w)"
| "perform_op (OpMoveUp i) w = snd (MovePaneUp i w)"
| "perform_op (OpMoveDown i) w = snd (MovePaneDown i w)"
| "perform_op (OpSwap i j) w = snd (SwapPanes i j w)"
| "perform_op OpSwapForward w = snd (SwapPaneForward w)"
| "perform_op OpSwapBackward w = snd (SwapPaneBackward w)"
| "perform_op (OpRotate forward) w = snd (RotatePanes forward w)"

text \<open>
  What the callers provide: a pane object that is added is a new one with an ID of its own, a
  pane that is focused is one of the window, and the window is not made smaller than its layout.
\<close>

fun allowed_op :: "window \<Rightarrow> window_op \<Rightarrow> bool" where
  "allowed_op w (OpSplit i dir p opts) \<longleftrightarrow> fresh p (Root w)"
| "allowed_op w (OpSplitRoot dir p opts) \<longleftrightarrow> fresh p (Root w)"
| "allowed_op w (OpResize width height) \<longleftrightarrow>
     minSubtreeSize SplitVertical (Root w) \<le> width \<and> minSubtreeSize SplitHorizontal (Root w) \<le> height \<and>
     width < 2147483648 \<and> height < 2147483648"
| "allowed_op w (OpFocusPane p) \<longleftrightarrow> p \<in> set (leafPanes (Root w))"
| "allowed_op w a \<longleftrightarrow> True"

definition new_window :: "window \<Rightarrow> bool" where
  "new_window w \<longleftrightarrow> (\<exists>p width height w0. w = NewWindow p width height w0 \<and> pane_ID p \<noteq> 0 \<and>
     PaneMinSize \<le> width \<and> width < 2147483648 \<and> PaneMinSize \<le> height \<and> height < 2147483648 \<and>
     (\<forall>n. \<not> setsizeFails w0 n) \<and>
     (emulator (paneAt p w0) = None \<or> emulator (paneAt p w0) = Some (width, PaneContentHeight height)))"

lemma new_window_ok: "new_window w \<Longrightarrow> window_ok w"
  by (auto simp: new_window_def NewWindow_def window_ok_defs panes_ok_def terminals_ok_def leafSize_def
      NewLeaf_def mkRect_def)

lemma Unzoom_kept: "window_ok w \<Longrightarrow> kept (leafPanes (Root w)) (snd (Unzoom w))"
  by (cases "ZoomedPaneID w = 0") (simp add: Unzoom_def, metis Unzoom_ok kept_Root snd_conv)

lemma swapWithNeighbour_kept: "window_ok w \<Longrightarrow> kept (leafPanes (Root w)) (snd (swapWithNeighbour forward w))"
  using SwapPanes_kept by (auto simp: swapWithNeighbour_def Let_def split: option.splits)

text \<open>Only splits and closing change the panes of a window.\<close>

fun changes_panes :: "window_op \<Rightarrow> bool" where
  "changes_panes (OpSplit i dir p opts) \<longleftrightarrow> True"
| "changes_panes (OpSplitRoot dir p opts) \<longleftrightarrow> True"
| "changes_panes (OpClose i) \<longleftrightarrow> True"
| "changes_panes a \<longleftrightarrow> False"

lemma perform_op_kept:
  "window_ok w \<Longrightarrow> allowed_op w a \<Longrightarrow> \<not> changes_panes a \<Longrightarrow> kept (leafPanes (Root w)) (perform_op a w)"
  by (cases a) (simp_all add: Window_Resize_kept ResizePane_kept equalizeWithOptions_kept Zoom_kept Unzoom_kept
      Focus_kept FocusPane_kept SwapTree_kept MovePane_kept MovePaneUp_def MovePaneDown_def
      movePaneWithinSplitGroup_kept SwapPanes_kept SwapPaneForward_def SwapPaneBackward_def
      swapWithNeighbour_kept RotatePanes_kept)

lemma perform_op_ok: "window_ok w \<Longrightarrow> allowed_op w a \<Longrightarrow> window_ok (perform_op a w)"
  using perform_op_kept [of w a] SplitPaneWithOptions_ok SplitRootWithOptions_ok ClosePane_ok
  by (cases "changes_panes a") (auto simp: kept_def elim!: changes_panes.elims)

interpretation split_window: invariant_system new_window allowed_op perform_op window_ok
  by unfold_locales (auto intro: new_window_ok perform_op_ok)

end
