(* ===== verification/Sample_Window.thy ===== *)
theory Sample_Window
  imports Window_Steps
begin

text \<open>
  A concrete window: 80 columns and 24 rows, three panes after two splits. The properties are
  applied to it.
\<close>

definition demo_pane :: "nat \<Rightarrow> pane" where
  "demo_pane n = \<lparr>pane_ptr = n, pane_ID = of_nat n, pane_Name = ''p'', pane_Host = ''h'', pane_IsProxy = False\<rparr>"

definition demo_base :: window where
  "demo_base = \<lparr>win_ID = 0, win_Name = [], Root = NewLeaf None 0 0 0 0, ActivePane = None, Width = 0, Height = 0,
     ZoomedPaneID = 0, LeadPaneID = 0, Ultra = None, ultraLead = None, activePointCounter = 0,
     heap = (\<lambda>_. \<lparr>ActivePoint = 0, emulator = Some (80, 23), paneHistorySeq = 0, ptmx = True\<rparr>),
     setsizeFails = (\<lambda>_. False), setsizeCalls = 0\<rparr>"

definition demo_start :: window where
  "demo_start = NewWindow (demo_pane 1) 80 24 demo_base"

definition demo_ops :: "window_op list" where
  "demo_ops = [OpSplit 1 SplitVertical (demo_pane 2) defaultSplitOptions, OpSplit 2 SplitHorizontal (demo_pane 3) defaultSplitOptions]"

definition demo_window :: window where
  "demo_window = fold perform_op demo_ops demo_start"

lemma demo_start_new: "new_window demo_start"
  unfolding new_window_def demo_start_def
  by (intro exI [of _ "demo_pane 1"] exI [of _ 80] exI [of _ 24] exI [of _ demo_base])
    (simp add: demo_pane_def demo_base_def PaneMinSize_def PaneContentHeight_def StatusLineRows_def)

lemma demo_runs: "runs allowed_op perform_op demo_start demo_ops"
  by code_simp

lemma demo_window_ok: "window_ok demo_window"
  unfolding demo_window_def by (rule split_window.inv_runs [OF new_window_ok [OF demo_start_new] demo_runs])

text \<open>The panes and the cells of that window.\<close>

lemma demo_window_panes: "leafPanes (Root demo_window) = [demo_pane 1, demo_pane 2, demo_pane 3]"
  by code_simp

lemma demo_window_cells:
  "map (\<lambda>c. (cX c, cY c, cW c, cH c)) (Walk (Root demo_window)) = [(0, 0, 40, 24), (41, 0, 39, 12), (41, 13, 39, 11)]"
  by code_simp

end
