(* ===== verification/Findings.thy ===== *)
theory Findings
  imports Sample_Window
begin

text \<open>
  Places where the code does not do what it means to: each is shown by a run of the model on a
  concrete window.
\<close>

text \<open>A narrow window: a column of two rows, the lower one split in two, and a second column.\<close>

definition narrow_window :: window where
  "narrow_window = (NewWindow (demo_pane 1) 26 24 demo_base)\<lparr>Root := FixOffsets (Node (mkRect 0 0 26 24) SplitVertical
     [Node (mkRect 0 0 13 24) SplitHorizontal
        [NewLeaf (Some (demo_pane 1)) 0 0 13 12,
         Node (mkRect 0 0 13 11) SplitVertical
           [NewLeaf (Some (demo_pane 2)) 0 0 6 11, NewLeaf (Some (demo_pane 3)) 0 0 6 11]],
      NewLeaf (Some (demo_pane 4)) 0 0 12 24])\<rparr>"

text \<open>
  Dragging the border of that window to the far left stops at the minimum of one pane, but the left column
  needs room for two and a border: the children of the root get wider than the root.
\<close>

theorem ResizeBorder_overflow:
  "sized (Root narrow_window) \<and>
   (let w = snd (ResizeBorder 13 5 (- 20) narrow_window)
    in cW (Root w) = 26 \<and> map cW (Children (Root w)) = [5, 23])"
  by code_simp

text \<open>A window of four columns.\<close>

definition four_columns :: window where
  "four_columns = (NewWindow (demo_pane 1) 26 24 demo_base)\<lparr>Root := FixOffsets (Node (mkRect 0 0 26 24) SplitVertical
     [NewLeaf (Some (demo_pane 1)) 0 0 5 24, NewLeaf (Some (demo_pane 2)) 0 0 5 24,
      NewLeaf (Some (demo_pane 3)) 0 0 5 24, NewLeaf (Some (demo_pane 4)) 0 0 8 24])\<rparr>"

text \<open>
  Making a pane the lead of a window with many columns: the lead takes its least width of 20
  columns and the columns to its right do not fit in what is left.
\<close>

theorem SetLead_overflow:
  "sized (Root four_columns) \<and>
   (let w = snd (SetLead 1 four_columns) in cW (Root w) = 26 \<and> map cW (Children (Root w)) = [20, 8])"
  by code_simp

text \<open>Seven columns, the first of them wide enough to be split.\<close>

definition seven_columns :: window where
  "seven_columns = (NewWindow (demo_pane 1) 23 24 demo_base)\<lparr>Root := FixOffsets (Node (mkRect 0 0 23 24) SplitVertical
     (NewLeaf (Some (demo_pane 1)) 0 0 5 24 # map (\<lambda>n. NewLeaf (Some (demo_pane n)) 0 0 2 24) [2..<8]))\<rparr>"

text \<open>
  Moving the last pane into a split of the first: there is room for it, so the pane is taken out of the layout,
  which makes the other columns equally wide. Then the first is too narrow, the move fails, and the
  pane is in the layout no more.
\<close>

theorem MovePaneIntoSplit_loses_pane:
  "sized (Root seven_columns) \<and>
   (let (r, w) = MovePaneIntoSplit 7 1 SplitVertical False seven_columns
    in r = Inl (ErrLayout (ErrNoSpace 3 5)) \<and> map pane_ID (leafPanes (Root w)) = [1, 2, 3, 4, 5, 6])"
  by code_simp

text \<open>
  C34. Closing a pane while another one, \<open>z\<close>, is zoomed: \<open>z\<close> stays on the whole window, but its
  terminal is resized to the cell behind it.
\<close>

theorem ClosePane_shrinks_zoomed_terminal:
  assumes "window_ok w" "z \<in> set (leafPanes (Root w))" "ZoomedPaneID w = pane_ID z" "q \<in> set (leafPanes (Root w))" "q \<noteq> z"
  shows "\<exists>w'. ClosePane (pane_ID q) w = (Inr (), w') \<and> ZoomedPaneID w' = pane_ID z \<and>
    (\<exists>c \<in> set (Walk (Root w')). cellPane c = Some z \<and>
       emulator (paneAt z w') = map_option (\<lambda>_. (cW c, PaneContentHeight (cH c))) (emulator (paneAt z w)))"
proof -
  have "1 < length (leafPanes (Root w))"
    using assms(2,4,5) by (cases "leafPanes (Root w)"; cases "tl (leafPanes (Root w))") auto
  then obtain w' where w': "ClosePane (pane_ID q) w = (Inr (), w')"
    "\<exists>pre post. leafPanes (Root w) = pre @ [q] @ post \<and> leafPanes (Root w') = pre @ post"
    "ZoomedPaneID w' = (if ZoomedPaneID w = pane_ID q then 0 else ZoomedPaneID w)"
    "\<forall>c \<in> set (Walk (Root w')). \<forall>p. cellPane c = Some p \<longrightarrow>
       emulator (paneAt p w') = map_option (\<lambda>_. leafSize c) (emulator (paneAt p w))"
    using ClosePane_success [OF assms(1,4)] by metis
  have "distinct (map pane_ID (leafPanes (Root w)))" using assms(1) by (simp add: window_ok_def panes_ok_def)
  then have "pane_ID q \<noteq> pane_ID z" using assms(2,4,5) distinct_map_inj by metis
  moreover have "z \<in> set (leafPanes (Root w'))" using w'(2) assms(2,5) by auto
  then obtain c where "c \<in> set (Walk (Root w'))" "cellPane c = Some z" using set_leafPanes by metis
  ultimately show ?thesis using w' assms(3) by (auto simp: leafSize_def)
qed

theorem ClosePane_shrinks_zoomed_terminal_witness:
  "\<exists>w w'. Zoom 1 demo_window = (Inr (), w) \<and> ClosePane 3 w = (Inr (), w') \<and> ZoomedPaneID w' = 1"
proof -
  have id: "pane_ID (demo_pane 1) = 1" "pane_ID (demo_pane 3) = 3" "demo_pane 3 \<noteq> demo_pane 1" "ZoomedPaneID demo_window \<noteq> 1"
    by code_simp+
  obtain w where "Zoom 1 demo_window = (Inr (), w)" "window_ok w" "Root w = Root demo_window" "ZoomedPaneID w = 1"
    by (rule Zoom_success [OF demo_window_ok, of "demo_pane 1"]) (use id in \<open>simp_all add: demo_window_panes\<close>)
  then show ?thesis
    using ClosePane_shrinks_zoomed_terminal [of w "demo_pane 1" "demo_pane 3"] id by (auto simp: demo_window_panes)
qed

text \<open>
  When resizing a terminal fails, a split returns the error, but the pane that the caller will
  discard is already in the layout.
\<close>

theorem split_error_leaves_pane:
  "let r = SplitPaneWithOptions 1 SplitVertical (demo_pane 2) defaultSplitOptions (demo_start\<lparr>setsizeFails := \<lambda>_. True\<rparr>)
   in fst r = Inl ErrSetsize \<and> leafPanes (Root (snd r)) = [demo_pane 1, demo_pane 2] \<and> ActivePane (snd r) = Some (demo_pane 1)"
  by code_simp

end
