(* ===== verification/Slot_Table.thy ===== *)
theory Slot_Table
  imports Main
begin

text \<open>
  The interface the ultra layout relies on for its slots: a table from slot numbers to panes in
  which a pane keeps its slot until it is cleared, and a new pane takes the lowest free slot.
  The laws say what a lookup returns after each operation; the lemmas that follow from them are
  proved once, for every table that keeps the laws.
\<close>

locale slot_table =
  fixes lookup :: "'t \<Rightarrow> nat \<Rightarrow> 'p option"
    and place :: "'p \<Rightarrow> 't \<Rightarrow> 't \<times> nat"
    and clear :: "nat \<Rightarrow> 't \<Rightarrow> 't"
    and trim :: "'t \<Rightarrow> 't"
  assumes lookup_place: "place p t = (t', i) \<Longrightarrow> lookup t' = (lookup t)(i \<mapsto> p)"
    and place_free: "place p t = (t', i) \<Longrightarrow> lookup t i = None"
    and place_lowest: "place p t = (t', i) \<Longrightarrow> j < i \<Longrightarrow> lookup t j \<noteq> None"
    and lookup_clear: "lookup (clear i t) = (lookup t)(i := None)"
    and lookup_trim: "lookup (trim t) = lookup t"
begin

lemma place_keeps_slots: "lookup t j = Some q \<Longrightarrow> lookup (fst (place p t)) j = Some q"
  using lookup_place [of p t] place_free [of p t] by (cases "place p t") (auto simp: fun_upd_apply)

lemma clear_keeps_slots: "j \<noteq> i \<Longrightarrow> lookup (trim (clear i t)) j = lookup t j"
  by (simp add: lookup_trim lookup_clear)

lemma clear_frees_slot: "lookup (trim (clear i t)) i = None"
  by (simp add: lookup_trim lookup_clear)

text \<open>A pane placed after another one left takes a slot at or below the one that became free.\<close>

lemma place_after_clear: "place p (trim (clear i t)) = (t', k) \<Longrightarrow> k \<le> i"
  using place_lowest [of p "trim (clear i t)" t' k i] clear_frees_slot by (metis not_le)

lemma ran_place: "place p t = (t', i) \<Longrightarrow> ran (lookup t') = insert p (ran (lookup t))"
  using lookup_place place_free by (metis ran_map_upd)

text \<open>No pane is in two slots, as long as a pane that is placed was in none.\<close>

lemma inj_place:
  assumes "inj_on (lookup t) (dom (lookup t))" "place p t = (t', i)" "p \<notin> ran (lookup t)"
  shows "inj_on (lookup t') (dom (lookup t'))"
  using assms lookup_place [OF assms(2)] by (force simp: inj_on_def ran_def dom_def split: if_splits)

lemma inj_clear:
  "inj_on (lookup t) (dom (lookup t)) \<Longrightarrow> inj_on (lookup (trim (clear i t))) (dom (lookup (trim (clear i t))))"
  by (auto simp: lookup_trim lookup_clear inj_on_def dom_def)

end

end
