(* ===== verification/Ultra_Laws.thy ===== *)
theory Ultra_Laws
  imports Window_Split Slot_Table State_Machine
begin

text \<open>
  The ultra layout keeps its promises: slots are stable, a new pane takes the lowest empty one,
  trimming drops only empty pages, and whatever happens the visible page shows exactly the lead
  and the panes of its slots.
\<close>

section \<open>The slot table\<close>

definition slotAt :: "UltraLayout \<Rightarrow> nat \<Rightarrow> pane option" where
  "slotAt u i = (if i < length (Slots u) then Slots u ! i else None)"

lemma insertSlot_props:
  assumes "insertSlot p ss = (ss', i)"
  shows "i \<le> length ss" "i < length ss \<longrightarrow> ss ! i = None \<and> ss' = ss[i := Some p]" "i = length ss \<longrightarrow> ss' = ss @ [Some p]"
    "\<forall>j < i. ss ! j \<noteq> None"
proof -
  have "i \<le> length ss \<and> (i < length ss \<longrightarrow> ss ! i = None \<and> ss' = ss[i := Some p]) \<and>
      (i = length ss \<longrightarrow> ss' = ss @ [Some p]) \<and> (\<forall>j < i. ss ! j \<noteq> None)"
    using assms
  proof (induction ss arbitrary: ss' i)
    case (Cons s ss)
    show ?case
    proof (cases s)
      case (Some q)
      obtain ss1 k where k: "insertSlot p ss = (ss1, k)" by fastforce
      then show ?thesis using Cons Some by (auto simp: less_Suc_eq_0_disj)
    qed (use Cons in auto)
  qed simp
  then show "i \<le> length ss" "i < length ss \<longrightarrow> ss ! i = None \<and> ss' = ss[i := Some p]" "i = length ss \<longrightarrow> ss' = ss @ [Some p]"
    "\<forall>j < i. ss ! j \<noteq> None" by blast+
qed

lemma slotAt_clampPage [simp]: "slotAt (clampPage u) = slotAt u"
  by (rule ext) (simp add: slotAt_def clampPage_def Let_def)

lemma trimSlots_prefix:
  "\<exists>n. trimSlots per ss = take n ss \<and> list_all (\<lambda>s. s = None) (drop n ss)"
proof (induction per ss rule: trimSlots.induct)
  case (1 per ss)
  show ?case
  proof (cases "length ss > per \<and> list_all (\<lambda>s. s = None) (drop ((length ss - 1) div per * per) ss)")
    case True
    let ?st = "(length ss - 1) div per * per"
    obtain n where n: "trimSlots per (take ?st ss) = take n (take ?st ss)" "list_all (\<lambda>s. s = None) (drop n (take ?st ss))"
      using 1 True by blast
    have "drop (min n ?st) ss = drop n (take ?st ss) @ drop ?st ss"
      by (cases "n \<le> ?st") (auto simp: drop_take min_def, metis append_take_drop_id drop_drop le_add_diff_inverse2)
    then have "list_all (\<lambda>s. s = None) (drop (min n ?st) ss)" using n(2) True by simp
    moreover have "trimSlots per ss = take (min n ?st) ss" using n(1) True by (subst trimSlots.simps) (simp add: Let_def)
    ultimately show ?thesis by blast
  next
    case False
    then show ?thesis by (intro exI [of _ "length ss"]) (subst trimSlots.simps, auto simp: Let_def)
  qed
qed

lemma slotAt_trimEmptyPages [simp]: "slotAt (trimEmptyPages u) = slotAt u"
proof -
  obtain n where n: "trimSlots (AgentSlotsPerPage u) (Slots u) = take n (Slots u)" "list_all (\<lambda>s. s = None) (drop n (Slots u))"
    using trimSlots_prefix by blast
  have "Slots u ! i = None" if "\<not> i < n" "i < length (Slots u)" for i
    using that n(2) by (auto simp: list_all_length nth_append dest!: spec [of _ "i - n"])
  then show ?thesis by (intro ext) (auto simp: trimEmptyPages_def n(1) slotAt_def)
qed

interpretation slots: slot_table slotAt ultra_insert clearSlot trimEmptyPages
proof
  fix p :: pane and t t' :: UltraLayout and i j :: nat
  assume ins: "ultra_insert p t = (t', i)"
  then have s: "insertSlot p (Slots t) = (Slots t', i)" by (auto simp: ultra_insert_def split: prod.splits)
  note ip = insertSlot_props [OF s]
  show "slotAt t' = (slotAt t)(i \<mapsto> p)"
    using ip(1-3) by (cases "i < length (Slots t)") (auto simp: slotAt_def fun_eq_iff nth_append)
  show "slotAt t i = None" using ip(2) by (simp add: slotAt_def)
  show "slotAt t j \<noteq> None" if "j < i" using that ip(1,4) by (auto simp: slotAt_def)
next
  show "slotAt (clearSlot i t) = (slotAt t)(i := None)" for i t
    by (auto simp: slotAt_def clearSlot_def fun_eq_iff)
qed simp

text \<open>After trimming, the table ends with the first page or with a page that holds a pane.\<close>

lemma trimSlots_minimal:
  "per < length (trimSlots per ss) \<Longrightarrow>
     \<exists>s \<in> set (drop ((length (trimSlots per ss) - 1) div per * per) (trimSlots per ss)). s \<noteq> None"
proof (induction per ss rule: trimSlots.induct)
  case (1 per ss)
  show ?case
  proof (cases "length ss > per \<and> list_all (\<lambda>s. s = None) (drop ((length ss - 1) div per * per) ss)")
    case True
    then have "trimSlots per ss = trimSlots per (take ((length ss - 1) div per * per) ss)"
      by (subst trimSlots.simps) (simp add: Let_def)
    then show ?thesis using 1 True by simp
  next
    case False
    then have t: "trimSlots per ss = ss" by (subst trimSlots.simps) (auto simp: Let_def)
    then show ?thesis using False 1(2) by (auto simp: list_all_iff)
  qed
qed

section \<open>The visible page\<close>

text \<open>The leaves of the grid hold the cells in order.\<close>

lemma leafPanes_ultraRowLeaves:
  "length ws \<le> length cells \<Longrightarrow>
     concat (map leafPanes (ultraRowLeaves cells x y h ws)) = present (map fst (take (length ws) cells))"
proof (induction ws arbitrary: cells x)
  case (Cons w ws)
  then obtain c cs where "cells = c # cs" by (cases cells) auto
  then show ?case using Cons by (cases c) (auto simp: ultraLeaf_def split: option.splits)
qed simp

lemma present_append [simp]: "present (xs @ ys) = present xs @ present ys"
  by (induction xs rule: present.induct) auto

lemma present_Cons: "present (s # ss) = (case s of None \<Rightarrow> present ss | Some p \<Rightarrow> p # present ss)"
  by (cases s) simp_all

lemma set_present: "p \<in> set (present ss) \<longleftrightarrow> Some p \<in> set ss"
  by (induction ss rule: present.induct) auto

lemma leafPanes_ultraRowCells:
  "0 < length colW \<Longrightarrow> length hs * length colW \<le> length cells \<Longrightarrow>
     concat (map leafPanes (ultraRowCells cells width colW y hs)) = present (map fst (take (length hs * length colW) cells))"
proof (induction hs arbitrary: cells y)
  case (Cons h hs)
  have "present (map fst (take (length colW) cells)) =
      leafPanes (if length colW = 1 then ultraLeaf (hd cells) 0 y width h
        else Node (mkRect 0 y width h) SplitVertical (ultraRowLeaves cells 0 y h colW))"
    using Cons.prems leafPanes_ultraRowLeaves [of colW cells 0 y h]
    by (cases cells) (auto simp: ultraLeaf_def take_Suc length_Suc_conv split: option.splits prod.splits)
  then show ?case using Cons by (simp add: take_add)
qed simp

text \<open>The slots of the visible page, and what the rebuilt tree shows.\<close>

definition pageSlots :: "UltraLayout \<Rightarrow> pane option list" where
  "pageSlots u = map (\<lambda>k. slotAt u (nat (Page u) * AgentSlotsPerPage u + k)) [0..<AgentSlotsPerPage u]"

lemma ValidateUltraGridD:
  assumes "ValidateUltraGrid (Rows u) (Cols u)"
  shows "1 \<le> Rows u" "1 \<le> Cols u" "int (AgentSlotsPerPage u) = Rows u * Cols u - 1" "0 < AgentSlotsPerPage u"
  using assms by (auto simp: ValidateUltraGrid_def AgentSlotsPerPage_def Let_def)

lemma leafPanes_ultraTree:
  assumes "ValidateUltraGrid (Rows u) (Cols u)"
  shows "leafPanes (ultraTree w u) =
    (case (if LeadPaneID w = 0 then None else ultraLead w) of Some p \<Rightarrow> [p] | None \<Rightarrow> []) @ present (pageSlots u)"
proof -
  note v = ValidateUltraGridD [OF assms]
  let ?cols = "raiseToMin (equalSplitSizes (Width w) (Cols u))" and ?rows = "raiseToMin (equalSplitSizes (Height w) (Rows u))"
  let ?lead = "if LeadPaneID w = 0 then None else ultraLead w"
  have n: "nat (Rows u * Cols u) = Suc (AgentSlotsPerPage u)" using v(3) by linarith
  have len: "length ?cols = nat (Cols u)" "length ?rows = nat (Rows u)" by (simp_all add: raiseToMin_def)
  have cells: "map fst (ultraCells w u) = ?lead # pageSlots u"
    unfolding ultraCells_def Let_def n upt_conv_Cons [OF zero_less_Suc] pageSlots_def
    by (simp add: map_Suc_upt [symmetric] o_def slotAt_def del: upt_Suc)
  then have "length (ultraCells w u) = Suc (AgentSlotsPerPage u)"
    by (metis length_map length_Cons length_upt diff_zero pageSlots_def)
  then have full: "length ?rows * length ?cols = length (ultraCells w u)"
    using n v(1,2) by (simp add: len nat_mult_distrib)
  have "leafPanes (ultraTree w u) = concat (map leafPanes (ultraRowCells (ultraCells w u) (Width w) ?cols 0 ?rows))"
  proof (cases "Rows u = 1")
    case True
    then have "length ?rows = 1" using len by simp
    then obtain h where "?rows = [h]" by (auto simp: length_Suc_conv)
    then show ?thesis using True by (simp add: ultraTree_def Let_def)
  qed (simp add: ultraTree_def Let_def)
  also have "\<dots> = present (map fst (ultraCells w u))"
    using leafPanes_ultraRowCells [of ?cols ?rows "ultraCells w u" "Width w" 0] full v(2) by (simp add: len)
  finally show ?thesis unfolding cells by (auto split: option.splits)
qed

section \<open>The invariant of a window in ultra layout\<close>

abbreviation slotPanes :: "UltraLayout \<Rightarrow> pane list" where
  "slotPanes u \<equiv> present (Slots u)"

lemma set_slotPanes: "p \<in> set (slotPanes u) \<longleftrightarrow> (\<exists>i. slotAt u i = Some p)"
  using in_set_conv_nth [of "Some p" "Slots u"] unfolding set_present slotAt_def by (metis option.distinct(1))

lemma slotIndex_Some:
  "slotIndex i ss = Some k \<Longrightarrow> k < length ss \<and> (\<exists>p. ss ! k = Some p \<and> pane_ID p = i)"
  by (induction ss arbitrary: k) (auto split: option.splits if_splits)

lemma slotIndex_None: "slotIndex i ss = None \<longleftrightarrow> i \<notin> pane_ID ` set (present ss)"
  by (induction ss rule: present.induct) auto

lemma slot_unique:
  "distinct (map pane_ID (present ss)) \<Longrightarrow> i < length ss \<Longrightarrow> j < length ss \<Longrightarrow>
   ss ! i = Some p \<Longrightarrow> ss ! j = Some q \<Longrightarrow> pane_ID p = pane_ID q \<Longrightarrow> i = j"
proof (induction ss arbitrary: i j)
  case (Cons s ss)
  have mem: "ss ! k = Some x \<Longrightarrow> k < length ss \<Longrightarrow> pane_ID x \<in> pane_ID ` set (present ss)" for k x
    using set_present [of x ss] by (metis imageI nth_mem)
  show ?case
  proof (cases i; cases j)
    fix i' j' assume "i = Suc i'" "j = Suc j'"
    then show ?thesis using Cons by (auto simp: present_Cons split: option.splits if_splits)
  next
    fix i' assume "i = Suc i'" "j = 0"
    then show ?thesis using Cons.prems mem [of i' p] by (auto simp: present_Cons)
  next
    fix j' assume "i = 0" "j = Suc j'"
    then show ?thesis using Cons.prems mem [of j' q] by (auto simp: present_Cons)
  qed simp
qed simp

text \<open>What the operations need of a window before its tree is rebuilt.\<close>

definition ultra_table_ok :: "window \<Rightarrow> UltraLayout \<Rightarrow> bool" where
  "ultra_table_ok w u \<longleftrightarrow> Ultra w = Some u \<and> ValidateUltraGrid (Rows u) (Cols u) \<and>
     (LeadPaneID w = 0 \<longleftrightarrow> ultraLead w = None) \<and> (\<forall>p. ultraLead w = Some p \<longrightarrow> pane_ID p = LeadPaneID w) \<and>
     distinct (map pane_ID (ultraPanes w)) \<and> 0 \<notin> pane_ID ` set (ultraPanes w) \<and> ultraPanes w \<noteq> [] \<and>
     (\<forall>n. \<not> setsizeFails w n) \<and> (\<forall>a. ActivePane w = Some a \<longrightarrow> a \<in> set (ultraPanes w))"

definition ultra_ok :: "window \<Rightarrow> bool" where
  "ultra_ok w \<longleftrightarrow> (\<exists>u. ultra_table_ok w u \<and> 0 \<le> Page u \<and> Page u < PageCount u \<and> Root w = ultraTree w u \<and>
     (\<exists>a. ActivePane w = Some a \<and> (a \<in> set (leafPanes (Root w)) \<or> leafPanes (Root w) = [])))"

lemma ultraPanes_eq:
  assumes "ultra_table_ok w u"
  shows "ultraPanes w = (case ultraLead w of Some p \<Rightarrow> [p] | None \<Rightarrow> []) @ slotPanes u"
  using assms by (auto simp: ultra_table_ok_def ultraPanes_def split: option.splits)

lemma set_pageSlots:
  assumes "0 < AgentSlotsPerPage u" "0 \<le> Page u"
  shows "p \<in> set (present (pageSlots u)) \<longleftrightarrow> (\<exists>i. slotAt u i = Some p \<and> PageOfSlot u i = Page u)"
proof -
  let ?per = "AgentSlotsPerPage u"
  have "(\<exists>k < ?per. slotAt u (nat (Page u) * ?per + k) = Some p) \<longleftrightarrow> (\<exists>i. slotAt u i = Some p \<and> int (i div ?per) = Page u)"
  proof
    assume "\<exists>k < ?per. slotAt u (nat (Page u) * ?per + k) = Some p"
    then obtain k where "k < ?per" "slotAt u (nat (Page u) * ?per + k) = Some p" by blast
    then show "\<exists>i. slotAt u i = Some p \<and> int (i div ?per) = Page u"
      using assms by (intro exI [of _ "nat (Page u) * ?per + k"]) simp
  next
    assume "\<exists>i. slotAt u i = Some p \<and> int (i div ?per) = Page u"
    then obtain i where "slotAt u i = Some p" "i div ?per = nat (Page u)" by auto
    then show "\<exists>k < ?per. slotAt u (nat (Page u) * ?per + k) = Some p"
      using assms(1) by (intro exI [of _ "i mod ?per"]) (metis div_mult_mod_eq mod_less_divisor)
  qed
  then show ?thesis by (force simp: pageSlots_def set_present PageOfSlot_def image_iff)
qed

text \<open>The panes a window shows are the visible ones among those it has.\<close>

lemma ultraTree_shows:
  assumes t: "ultra_table_ok w u" and page: "0 \<le> Page u"
  shows "set (leafPanes (ultraTree w u)) = {p \<in> set (ultraPanes w). ultraVisible (pane_ID p) w}"
proof (rule set_eqI)
  fix p
  have v: "ValidateUltraGrid (Rows u) (Cols u)" "Ultra w = Some u" using t by (auto simp: ultra_table_ok_def)
  have d: "distinct (map pane_ID (ultraPanes w))" using t by (simp add: ultra_table_ok_def)
  then have ds: "distinct (map pane_ID (slotPanes u))" by (auto simp: ultraPanes_eq [OF t])
  have slot: "SlotOf u (pane_ID p) = Some i" if "slotAt u i = Some p" for i
  proof -
    have i: "i < length (Slots u)" "Slots u ! i = Some p" using that by (auto simp: slotAt_def split: if_splits)
    have "pane_ID p \<in> pane_ID ` set (slotPanes u)" using that set_slotPanes by blast
    then obtain k where k: "SlotOf u (pane_ID p) = Some k" using slotIndex_None [of "pane_ID p" "Slots u"] by (auto simp: SlotOf_def)
    then show ?thesis using slotIndex_Some [of "pane_ID p" "Slots u" k] slot_unique [OF ds i(1) _ i(2)] by (auto simp: SlotOf_def)
  qed
  have lead: "ultraLead w = Some p \<Longrightarrow> LeadPaneID w \<noteq> 0 \<and> pane_ID p = LeadPaneID w" using t by (auto simp: ultra_table_ok_def)
  have nolead: "pane_ID p \<noteq> LeadPaneID w" if "slotAt u i = Some p" "LeadPaneID w \<noteq> 0" for i
  proof -
    have "pane_ID p \<in> pane_ID ` set (slotPanes u)" using that set_slotPanes by blast
    then show ?thesis using d t that(2) by (auto simp: ultraPanes_eq [OF t] ultra_table_ok_def split: option.splits)
  qed
  have "p \<in> set (leafPanes (ultraTree w u)) \<longleftrightarrow> ultraLead w = Some p \<or> (\<exists>i. slotAt u i = Some p \<and> PageOfSlot u i = Page u)"
    using set_pageSlots [OF ValidateUltraGridD(4) [OF v(1)] page, of p] t
    by (auto simp: leafPanes_ultraTree [OF v(1)] ultra_table_ok_def split: option.splits)
  also have "\<dots> \<longleftrightarrow> p \<in> set (ultraPanes w) \<and> ultraVisible (pane_ID p) w"
    using slot lead nolead v(2) set_slotPanes [of p u]
    by (auto simp: ultraPanes_eq [OF t] ultraVisible_def split: option.splits) metis+
  finally show "p \<in> set (leafPanes (ultraTree w u)) \<longleftrightarrow> p \<in> {p \<in> set (ultraPanes w). ultraVisible (pane_ID p) w}" by simp
qed

section \<open>Rebuilding the tree\<close>

lemma clampPage_simps [simp]:
  "Rows (clampPage u) = Rows u" "Cols (clampPage u) = Cols u" "Slots (clampPage u) = Slots u"
  "AutoPromote (clampPage u) = AutoPromote u" "AgentSlotsPerPage (clampPage u) = AgentSlotsPerPage u"
  "PageCount (clampPage u) = PageCount u"
  by (simp_all add: clampPage_def Let_def AgentSlotsPerPage_def PageCount_def)

lemma PageCount_pos: "1 \<le> PageCount u"
  by (simp add: PageCount_def Let_def)

lemma clampPage_range: "0 \<le> Page (clampPage u) \<and> Page (clampPage u) < PageCount u"
  using PageCount_pos [of u] by (auto simp: clampPage_def Let_def)

lemma clampPage_id: "0 \<le> Page u \<Longrightarrow> Page u < PageCount u \<Longrightarrow> clampPage u = u"
  by (simp add: clampPage_def Let_def)

lemma resizeHidden_frame: "\<exists>h n. resizeHidden u c w = w\<lparr>heap := h, setsizeCalls := n\<rparr>"
  unfolding resizeHidden_def Let_def
  by (rule fold_frame) (auto intro: no_frame Pane_Resize_frame split: option.splits prod.splits)

lemmas resizeHidden_fields [simp] = frame_fields [OF resizeHidden_frame]

lemma keepActiveVisible_fields [simp]:
  "Root (keepActiveVisible u w) = Root w" "Width (keepActiveVisible u w) = Width w" "Height (keepActiveVisible u w) = Height w"
  "ZoomedPaneID (keepActiveVisible u w) = ZoomedPaneID w" "LeadPaneID (keepActiveVisible u w) = LeadPaneID w"
  "Ultra (keepActiveVisible u w) = Ultra w" "ultraLead (keepActiveVisible u w) = ultraLead w"
  "setsizeFails (keepActiveVisible u w) = setsizeFails w"
  by (auto simp: keepActiveVisible_def split: option.splits list.splits)

lemma ultraTree_cong:
  "Width w' = Width w \<Longrightarrow> Height w' = Height w \<Longrightarrow> LeadPaneID w' = LeadPaneID w \<Longrightarrow> ultraLead w' = ultraLead w \<Longrightarrow>
     ultraTree w' u = ultraTree w u"
  by (simp add: ultraTree_def ultraCells_def Let_def cong: if_cong)

lemma ultraPanes_cong:
  "LeadPaneID w' = LeadPaneID w \<Longrightarrow> ultraLead w' = ultraLead w \<Longrightarrow> Slots (the (Ultra w')) = Slots (the (Ultra w)) \<Longrightarrow>
     ultraPanes w' = ultraPanes w"
  by (simp add: ultraPanes_def split: option.splits)

lemma rebuildUltraTree_fields:
  assumes "Ultra w = Some u"
  shows "Ultra (rebuildUltraTree w) = Some (clampPage u)" "Root (rebuildUltraTree w) = ultraTree w (clampPage u)"
    "LeadPaneID (rebuildUltraTree w) = LeadPaneID w" "ultraLead (rebuildUltraTree w) = ultraLead w"
    "Width (rebuildUltraTree w) = Width w" "Height (rebuildUltraTree w) = Height w"
    "ZoomedPaneID (rebuildUltraTree w) = ZoomedPaneID w" "setsizeFails (rebuildUltraTree w) = setsizeFails w"
    "ActivePane (rebuildUltraTree w) = ActivePane (keepActiveVisible (clampPage u)
       (w\<lparr>Ultra := Some (clampPage u), Root := ultraTree w (clampPage u)\<rparr>))"
proof -
  have "ultraTree (w\<lparr>Ultra := Some (clampPage u)\<rparr>) (clampPage u) = ultraTree w (clampPage u)" by (rule ultraTree_cong) simp_all
  then show "Ultra (rebuildUltraTree w) = Some (clampPage u)" "Root (rebuildUltraTree w) = ultraTree w (clampPage u)"
    "LeadPaneID (rebuildUltraTree w) = LeadPaneID w" "ultraLead (rebuildUltraTree w) = ultraLead w"
    "Width (rebuildUltraTree w) = Width w" "Height (rebuildUltraTree w) = Height w"
    "ZoomedPaneID (rebuildUltraTree w) = ZoomedPaneID w" "setsizeFails (rebuildUltraTree w) = setsizeFails w"
    "ActivePane (rebuildUltraTree w) = ActivePane (keepActiveVisible (clampPage u)
       (w\<lparr>Ultra := Some (clampPage u), Root := ultraTree w (clampPage u)\<rparr>))"
    using assms by (simp_all add: rebuildUltraTree_def Let_def split: option.splits)
qed

text \<open>The focus after a rebuild: on a shown pane, if any is shown.\<close>

lemma keepActiveVisible_shown:
  assumes t: "ultra_table_ok w u" and root: "Root w = ultraTree w u" and page: "0 \<le> Page u"
  obtains a where "ActivePane (keepActiveVisible u w) = Some a" "a \<in> set (ultraPanes w)"
    "a \<in> set (leafPanes (Root w)) \<or> leafPanes (Root w) = []"
    "\<And>b. ActivePane w = Some b \<Longrightarrow> ultraVisible (pane_ID b) w \<Longrightarrow> a = b"
proof (cases "\<exists>b. ActivePane w = Some b \<and> ultraVisible (pane_ID b) w")
  case True
  then obtain b where b: "ActivePane w = Some b" "ultraVisible (pane_ID b) w" by blast
  then have "b \<in> set (ultraPanes w)" using t by (auto simp: ultra_table_ok_def)
  then have "b \<in> set (leafPanes (Root w))" unfolding root ultraTree_shows [OF t page] using b(2) by simp
  moreover have "keepActiveVisible u w = w" using b by (simp add: keepActiveVisible_def)
  ultimately show ?thesis using b \<open>b \<in> set (ultraPanes w)\<close> by (intro that [of b]) simp_all
next
  case False
  then have "case ActivePane w of None \<Rightarrow> True | Some p \<Rightarrow> \<not> ultraVisible (pane_ID p) w" by (auto split: option.splits)
  then have k: "keepActiveVisible u w = (case (if LeadPaneID w = 0 then None else ultraLead w) of
      Some lead \<Rightarrow> setActive lead w
    | None \<Rightarrow> (case leafPanes (Root w) of p # ps \<Rightarrow> setActive p w
        | [] \<Rightarrow> (case slotPanes u of p # ps \<Rightarrow> setActive p w | [] \<Rightarrow> w)))"
    by (cases "leafPanes (Root w)") (simp_all add: keepActiveVisible_def firstPaneInSubtree_def split: option.splits)
  have v: "ValidateUltraGrid (Rows u) (Cols u)" "ultraPanes w \<noteq> []" using t by (auto simp: ultra_table_ok_def)
  have leaves: "leafPanes (Root w) = (case (if LeadPaneID w = 0 then None else ultraLead w) of Some p \<Rightarrow> [p] | None \<Rightarrow> []) @ present (pageSlots u)"
    using leafPanes_ultraTree [OF v(1)] root by simp
  have sub: "set (leafPanes (Root w)) \<subseteq> set (ultraPanes w)" using ultraTree_shows [OF t page] root by auto
  have lead: "LeadPaneID w = 0 \<longleftrightarrow> ultraLead w = None" using t by (auto simp: ultra_table_ok_def)
  show ?thesis
  proof (cases "ultraLead w")
    case (Some p)
    then show ?thesis using that [of p] k lead False leaves by (auto simp: ultraPanes_eq [OF t])
  next
    case None
    show ?thesis
    proof (cases "leafPanes (Root w)")
      case (Cons p ps)
      then show ?thesis using that [of p] k None False sub by auto
    next
      case Nil
      then obtain p ps where "slotPanes u = p # ps" using v(2) None by (cases "slotPanes u") (auto simp: ultraPanes_eq [OF t])
      then show ?thesis using that [of p] k None False Nil by (auto simp: ultraPanes_eq [OF t])
    qed
  qed
qed

lemma rebuild_ok:
  assumes t: "ultra_table_ok w u"
  shows "ultra_ok (rebuildUltraTree w)" "ultraPanes (rebuildUltraTree w) = ultraPanes w"
    "\<And>b. ActivePane w = Some b \<Longrightarrow> ultraVisible (pane_ID b) (w\<lparr>Ultra := Some (clampPage u)\<rparr>) \<Longrightarrow> ActivePane (rebuildUltraTree w) = Some b"
proof -
  let ?w = "w\<lparr>Ultra := Some (clampPage u), Root := ultraTree w (clampPage u)\<rparr>"
  have u: "Ultra w = Some u" using t by (simp add: ultra_table_ok_def)
  note rf = rebuildUltraTree_fields [OF u]
  show up: "ultraPanes (rebuildUltraTree w) = ultraPanes w" by (rule ultraPanes_cong) (simp_all add: rf u)
  have up1: "ultraPanes ?w = ultraPanes w" by (rule ultraPanes_cong) (simp_all add: u)
  have t1: "ultra_table_ok ?w (clampPage u)" using t unfolding ultra_table_ok_def up1 by simp
  have r1: "Root ?w = ultraTree ?w (clampPage u)" using ultraTree_cong [of ?w w "clampPage u"] by simp
  obtain a where a: "ActivePane (keepActiveVisible (clampPage u) ?w) = Some a" "a \<in> set (ultraPanes ?w)"
    "a \<in> set (leafPanes (Root ?w)) \<or> leafPanes (Root ?w) = []"
    "\<And>b. ActivePane ?w = Some b \<Longrightarrow> ultraVisible (pane_ID b) ?w \<Longrightarrow> a = b"
    using keepActiveVisible_shown [OF t1 r1] clampPage_range by blast
  have "ultra_table_ok (rebuildUltraTree w) (clampPage u)"
    using t1 a(1,2) unfolding ultra_table_ok_def up up1 by (simp add: rf)
  moreover have "Root (rebuildUltraTree w) = ultraTree (rebuildUltraTree w) (clampPage u)"
    using ultraTree_cong [of "rebuildUltraTree w" w "clampPage u"] by (simp add: rf)
  ultimately show "ultra_ok (rebuildUltraTree w)"
    unfolding ultra_ok_def using clampPage_range [of u] a(1,3) by (intro exI [of _ "clampPage u"]) (simp add: rf)
  show "ActivePane (rebuildUltraTree w) = Some b" if "ActivePane w = Some b" "ultraVisible (pane_ID b) (w\<lparr>Ultra := Some (clampPage u)\<rparr>)" for b
    using that a(1,4) rf(9) by (simp add: ultraVisible_def)
qed

section \<open>Operations\<close>

subsection \<open>The panes of an edited table\<close>

lemma mset_present: "mset (present ss) = image_mset the (filter_mset (\<lambda>s. s \<noteq> None) (mset ss))"
  by (induction ss rule: present.induct) auto

lemma mset_present_perm: "mset xs = mset ys \<Longrightarrow> mset (present xs) = mset (present ys)"
  by (simp add: mset_present)

lemma mset_present_swapAt: "i < length ss \<Longrightarrow> j < length ss \<Longrightarrow> mset (present (swapAt i j ss)) = mset (present ss)"
  unfolding swapAt_def by (intro mset_present_perm mset_swap)

lemma present_clear:
  assumes "i < length ss" "ss ! i = Some p"
  shows "mset (present ss) = add_mset p (mset (present (ss[i := None])))"
proof -
  have "ss = take i ss @ Some p # drop (Suc i) ss" using assms id_take_nth_drop by metis
  moreover have "ss[i := None] = take i ss @ None # drop (Suc i) ss" using assms(1) by (rule upd_conv_take_nth_drop)
  ultimately show ?thesis by (metis add_mset_add_single mset.simps(2) mset_append present.simps(2,3) present_append union_mset_add_mset_right)
qed

lemma present_insertSlot: "mset (present (fst (insertSlot p ss))) = add_mset p (mset (present ss))"
proof (induction ss)
  case (Cons s ss)
  then show ?case by (cases s) (auto simp: split_def Let_def)
qed simp

lemma present_trimSlots: "present (trimSlots per ss) = present ss"
proof -
  obtain n where n: "trimSlots per ss = take n ss" "list_all (\<lambda>s. s = None) (drop n ss)" using trimSlots_prefix by blast
  have "present xs = []" if "list_all (\<lambda>s. s = None) xs" for xs :: "pane option list"
    using that by (induction xs rule: present.induct) auto
  then show ?thesis using n present_append [of "take n ss" "drop n ss"] by simp
qed

lemma slotPanes_simps [simp]:
  "slotPanes (trimEmptyPages u) = slotPanes u" "Rows (trimEmptyPages u) = Rows u" "Cols (trimEmptyPages u) = Cols u"
  "Rows (clearSlot i u) = Rows u" "Cols (clearSlot i u) = Cols u"
  "Rows (fst (ultra_insert p u)) = Rows u" "Cols (fst (ultra_insert p u)) = Cols u"
  "mset (slotPanes (fst (ultra_insert p u))) = add_mset p (mset (slotPanes u))"
  using present_insertSlot [of p "Slots u"]
  by (simp_all add: trimEmptyPages_def clearSlot_def ultra_insert_def present_trimSlots split_def Let_def)

lemma slotPanes_clear: "SlotOf u i = Some k \<Longrightarrow> \<exists>p. pane_ID p = i \<and> Slots u ! k = Some p \<and>
    mset (slotPanes u) = add_mset p (mset (slotPanes (clearSlot k u)))"
  using slotIndex_Some [of i "Slots u" k] present_clear [of k "Slots u"] by (auto simp: SlotOf_def clearSlot_def)

subsection \<open>Every operation keeps the invariant\<close>

definition ultra_kept :: "pane multiset \<Rightarrow> window \<Rightarrow> bool" where
  "ultra_kept ps w \<longleftrightarrow> ultra_ok w \<and> mset (ultraPanes w) = ps"

lemma ultra_kept_self [simp]: "ultra_ok w \<Longrightarrow> ultra_kept (mset (ultraPanes w)) w"
  by (simp add: ultra_kept_def)

lemma ultra_table_cong:
  assumes "ultra_table_ok w u" "Ultra w' = Some u'" "ValidateUltraGrid (Rows u') (Cols u')"
    "LeadPaneID w' = 0 \<longleftrightarrow> ultraLead w' = None" "\<And>p. ultraLead w' = Some p \<Longrightarrow> pane_ID p = LeadPaneID w'"
    "mset (ultraPanes w') = mset (ultraPanes w)" "setsizeFails w' = setsizeFails w"
    "ActivePane w' = None \<or> ActivePane w' = ActivePane w"
  shows "ultra_table_ok w' u'"
proof -
  have "set (ultraPanes w') = set (ultraPanes w)" "ultraPanes w' \<noteq> [] \<longleftrightarrow> ultraPanes w \<noteq> []"
    using assms(6) by (metis mset_eq_setD, metis mset_zero_iff)
  moreover have "distinct (map pane_ID (ultraPanes w'))" using assms(1) distinct_map_mset [OF assms(6), of pane_ID] unfolding ultra_table_ok_def by blast
  ultimately show ?thesis using assms by (auto simp: ultra_table_ok_def)
qed

lemma rebuild_kept:
  assumes "ultra_table_ok w u" "mset (ultraPanes w) = ps"
  shows "ultra_kept ps (rebuildUltraTree w)"
  using rebuild_ok(1,2) [OF assms(1)] assms(2) by (simp add: ultra_kept_def)

lemma ultra_okD:
  assumes "ultra_ok w"
  obtains u where "ultra_table_ok w u" "Ultra w = Some u" "0 \<le> Page u" "Page u < PageCount u"
    "ValidateUltraGrid (Rows u) (Cols u)" "LeadPaneID w = 0 \<longleftrightarrow> ultraLead w = None" "\<forall>n. \<not> setsizeFails w n"
    "Root w = ultraTree w u"
  using assms by (auto simp: ultra_ok_def ultra_table_ok_def)

lemma ultra_ok_cong:
  assumes "Root w' = Root w" "Ultra w' = Ultra w" "LeadPaneID w' = LeadPaneID w" "ultraLead w' = ultraLead w"
    "ActivePane w' = ActivePane w" "setsizeFails w' = setsizeFails w" "Width w' = Width w" "Height w' = Height w"
  shows "ultra_ok w' = ultra_ok w" "ultraPanes w' = ultraPanes w"
proof -
  show u: "ultraPanes w' = ultraPanes w" by (rule ultraPanes_cong) (simp_all add: assms)
  have "ultraTree w' u = ultraTree w u" for u by (rule ultraTree_cong) (simp_all add: assms)
  then show "ultra_ok w' = ultra_ok w" by (simp add: ultra_ok_def ultra_table_ok_def assms u)
qed

lemma ultra_unzoomIf:
  assumes "ultra_ok w"
  obtains w' where "unzoomIf b w = (Inr (), w')" "ultra_ok w'" "ultraPanes w' = ultraPanes w" "Ultra w' = Ultra w"
    "LeadPaneID w' = LeadPaneID w" "ultraLead w' = ultraLead w" "ActivePane w' = ActivePane w"
proof -
  obtain u where "\<forall>n. \<not> setsizeFails w n" using ultra_okD [OF assms] by metis
  then have nf: "\<forall>n. \<not> setsizeFails (w\<lparr>ZoomedPaneID := 0\<rparr>) n" by simp
  define w' where "w' = snd (unzoomIf b w)"
  have "unzoomIf b w = (Inr (), w')" "Root w' = Root w" "Ultra w' = Ultra w" "LeadPaneID w' = LeadPaneID w" "ultraLead w' = ultraLead w"
    "ActivePane w' = ActivePane w" "setsizeFails w' = setsizeFails w" "Width w' = Width w" "Height w' = Height w"
    unfolding w'_def using Pane_Resize_Inr [OF nf]
    by (auto simp: unzoomIf_def Unzoom_def Let_def split: option.splits)
  then show ?thesis using that [of w'] ultra_ok_cong [of w' w] assms by simp
qed

lemma UltraSetPage_kept:
  assumes "ultra_ok w"
  shows "ultra_kept (mset (ultraPanes w)) (snd (UltraSetPage page w))"
proof -
  obtain u where u: "Ultra w = Some u" using ultra_okD [OF assms] by metis
  obtain w1 where w1: "unzoomIf True w = (Inr (), w1)" "ultra_ok w1" "ultraPanes w1 = ultraPanes w" "Ultra w1 = Ultra w"
    using ultra_unzoomIf [OF assms] by metis
  obtain u1 where u1: "ultra_table_ok w1 u1" "Ultra w1 = Some u1" using ultra_okD [OF w1(2)] by metis
  let ?w = "w1\<lparr>Ultra := Some (u1\<lparr>Page := page\<rparr>)\<rparr>"
  have up: "ultraPanes ?w = ultraPanes w1" by (rule ultraPanes_cong) (simp_all add: u1(2))
  have "ultra_table_ok ?w (u1\<lparr>Page := page\<rparr>)"
    by (rule ultra_table_cong [OF u1(1)]) (use u1(1) up in \<open>auto simp: ultra_table_ok_def\<close>)
  from rebuild_kept [OF this] show ?thesis
    using up w1 u u1(2) assms by (simp add: UltraSetPage_def)
qed

lemma UltraStepPage_kept: "ultra_ok w \<Longrightarrow> ultra_kept (mset (ultraPanes w)) (snd (UltraStepPage delta w))"
  using UltraSetPage_kept by (auto simp: UltraStepPage_def Let_def split: option.splits)

text \<open>The panes of a window whose lead and lead ID agree.\<close>

lemma ultraPanes_lead:
  "Ultra w = Some u \<Longrightarrow> (LeadPaneID w = 0 \<longleftrightarrow> ultraLead w = None) \<Longrightarrow>
     ultraPanes w = (case ultraLead w of Some p \<Rightarrow> [p] | None \<Rightarrow> []) @ slotPanes u"
  by (auto simp: ultraPanes_def split: option.splits)

lemma ultra_table_remove:
  assumes "ultra_table_ok w u" "Ultra w' = Some u'" "ValidateUltraGrid (Rows u') (Cols u')"
    "LeadPaneID w' = 0 \<longleftrightarrow> ultraLead w' = None" "\<And>p. ultraLead w' = Some p \<Longrightarrow> pane_ID p = LeadPaneID w'"
    "mset (ultraPanes w) = add_mset p (mset (ultraPanes w'))" "1 < length (ultraPanes w)" "setsizeFails w' = setsizeFails w"
    "ActivePane w' = (if map_option pane_ID (ActivePane w) = Some (pane_ID p) then None else ActivePane w)"
  shows "ultra_table_ok w' u'"
proof -
  have m: "mset (ultraPanes w) = mset (p # ultraPanes w')" using assms(6) by simp
  then have set: "set (ultraPanes w) = insert p (set (ultraPanes w'))" by (metis mset_eq_setD list.set(2))
  have "length (ultraPanes w) = Suc (length (ultraPanes w'))" using m by (metis mset_eq_length length_Cons)
  then have "ultraPanes w' \<noteq> []" using assms(7) by auto
  moreover have "distinct (map pane_ID (p # ultraPanes w'))"
    using assms(1) distinct_map_mset [OF m, of pane_ID] unfolding ultra_table_ok_def by blast
  ultimately show ?thesis using assms set by (auto simp: ultra_table_ok_def split: if_splits)
qed

lemma ultra_table_add:
  assumes "ultra_table_ok w u" "Ultra w' = Some u'" "ValidateUltraGrid (Rows u') (Cols u')"
    "LeadPaneID w' = LeadPaneID w" "ultraLead w' = ultraLead w"
    "mset (ultraPanes w') = add_mset p (mset (ultraPanes w))" "pane_ID p \<noteq> 0" "pane_ID p \<notin> pane_ID ` set (ultraPanes w)"
    "setsizeFails w' = setsizeFails w" "ActivePane w' = ActivePane w"
  shows "ultra_table_ok w' u'"
proof -
  have m: "mset (ultraPanes w') = mset (p # ultraPanes w)" using assms(6) by simp
  then have set: "set (ultraPanes w') = insert p (set (ultraPanes w))" by (metis mset_eq_setD list.set(2))
  have "distinct (map pane_ID (ultraPanes w'))"
    using assms(1,8) distinct_map_mset [OF m, of pane_ID] unfolding ultra_table_ok_def by simp
  moreover have "ultraPanes w' \<noteq> []" using set by auto
  ultimately show ?thesis using assms set unfolding ultra_table_ok_def by auto
qed

text \<open>A table without one of the panes, focused elsewhere if that pane was active, is rebuilt.\<close>

lemma rebuild_removed:
  assumes u: "ultra_table_ok w u" "Ultra w = Some u" "ValidateUltraGrid (Rows u) (Cols u)" and big: "\<not> PaneCount w \<le> 1"
    and w2: "Ultra w2 = Some u2" "Rows u2 = Rows u" "Cols u2 = Cols u" "setsizeFails w2 = setsizeFails w"
      "LeadPaneID w2 = 0 \<longleftrightarrow> ultraLead w2 = None" "\<And>p. ultraLead w2 = Some p \<Longrightarrow> pane_ID p = LeadPaneID w2"
      "ActivePane w2 = (if map_option pane_ID (ActivePane w) = Some i then None else ActivePane w)"
    and p: "pane_ID p = i" "mset (ultraPanes w) = add_mset p (mset (ultraPanes w2))"
  shows "\<exists>p. pane_ID p = i \<and> mset (ultraPanes w) = add_mset p (mset (ultraPanes (rebuildUltraTree w2))) \<and> ultra_ok (rebuildUltraTree w2)"
proof -
  have "1 < length (ultraPanes w)" using big u(2) by (simp add: PaneCount_def Panes_def)
  then have t: "ultra_table_ok w2 u2" using w2 u(3) p by (intro ultra_table_remove [OF u(1), of w2 u2 p]) simp_all
  show ?thesis using rebuild_ok(1,2) [OF t] p by auto
qed

lemma ultraClose_kept:
  assumes w: "ultra_ok w" and i: "i \<noteq> 0" and res: "ultraClose i w = (r, w')"
  shows "case r of Inl e \<Rightarrow> ultra_kept (mset (ultraPanes w)) w'
    | Inr x \<Rightarrow> \<exists>p. pane_ID p = i \<and> mset (ultraPanes w) = add_mset p (mset (ultraPanes w')) \<and> ultra_ok w'"
proof -
  obtain u where u: "ultra_table_ok w u" "Ultra w = Some u" "ValidateUltraGrid (Rows u) (Cols u)"
    "LeadPaneID w = 0 \<longleftrightarrow> ultraLead w = None" using ultra_okD [OF w] by metis
  define w1 where "w1 = (if ZoomedPaneID w = i then w\<lparr>ZoomedPaneID := 0\<rparr> else w)"
  have w1 [simp]: "Ultra w1 = Ultra w" "LeadPaneID w1 = LeadPaneID w" "ultraLead w1 = ultraLead w" "ActivePane w1 = ActivePane w"
    "setsizeFails w1 = setsizeFails w" "Root w1 = Root w" "Width w1 = Width w" "Height w1 = Height w" by (simp_all add: w1_def)
  define fin :: "window \<Rightarrow> window" where "fin w2 = (if (case ActivePane w of Some p \<Rightarrow> pane_ID p = i | None \<Rightarrow> False) then w2\<lparr>ActivePane := None\<rparr> else w2)" for w2
  have fin [simp]: "Ultra (fin w2) = Ultra w2" "LeadPaneID (fin w2) = LeadPaneID w2" "ultraLead (fin w2) = ultraLead w2"
    "setsizeFails (fin w2) = setsizeFails w2"
    "ActivePane w2 = ActivePane w \<Longrightarrow> ActivePane (fin w2) = (if map_option pane_ID (ActivePane w) = Some i then None else ActivePane w)" for w2
    by (auto simp: fin_def split: option.splits)
  have cl: "ultraClose i w = (if PaneCount w \<le> 1 then err ErrLastPane w
      else if LeadPaneID w = i then ok () (rebuildUltraTree (fin (w1\<lparr>LeadPaneID := 0, ultraLead := None\<rparr>)))
      else (case SlotOf u i of None \<Rightarrow> err (ErrNotFound i) w1
        | Some idx \<Rightarrow> ok () (rebuildUltraTree (fin (w1\<lparr>Ultra := Some (trimEmptyPages (clearSlot idx u))\<rparr>)))))"
    using u(2) by (cases "SlotOf u i") (simp_all add: ultraClose_def w1_def [symmetric] fin_def Let_def)
  note lead = rebuild_removed [OF u(1-3), where i = i]
  have upw: "ultraPanes w = (case ultraLead w of Some p \<Rightarrow> [p] | None \<Rightarrow> []) @ slotPanes u" by (rule ultraPanes_lead [OF u(2,4)])
  consider (last) "PaneCount w \<le> 1" | (isLead) p where "\<not> PaneCount w \<le> 1" "LeadPaneID w = i" "ultraLead w = Some p" "pane_ID p = i"
    | (none) "\<not> PaneCount w \<le> 1" "LeadPaneID w \<noteq> i" "SlotOf u i = None" | (slot) k where "\<not> PaneCount w \<le> 1" "LeadPaneID w \<noteq> i" "SlotOf u i = Some k"
    using i u(1,4) by (cases "ultraLead w"; cases "SlotOf u i") (auto simp: ultra_table_ok_def)
  then show ?thesis
  proof cases
    case last
    then show ?thesis using cl res w by auto
  next
    case (isLead p)
    let ?w = "fin (w1\<lparr>LeadPaneID := 0, ultraLead := None\<rparr>)"
    have "ultraPanes ?w = slotPanes u" using ultraPanes_lead [of ?w u] u(2) by simp
    then show ?thesis using lead [of ?w u p] isLead u(2) cl res upw by simp
  next
    case none
    then have "r = Inl (ErrNotFound i)" "w' = w1" using cl res by auto
    then show ?thesis using ultra_ok_cong [of w1 w] w by (simp add: ultra_kept_def)
  next
    case (slot k)
    let ?u = "trimEmptyPages (clearSlot k u)"
    let ?w = "fin (w1\<lparr>Ultra := Some ?u\<rparr>)"
    obtain p where p: "pane_ID p = i" "mset (slotPanes u) = add_mset p (mset (slotPanes (clearSlot k u)))" using slotPanes_clear [OF slot(3)] by blast
    have "ultraPanes ?w = (case ultraLead w of Some p \<Rightarrow> [p] | None \<Rightarrow> []) @ slotPanes (clearSlot k u)"
      using ultraPanes_lead [of ?w ?u] u(4) by simp
    then show ?thesis using lead [of ?w ?u p] slot u(1,4) p cl res upw by (simp add: ultra_table_ok_def)
  qed
qed

subsection \<open>A pane whose page is shown is in the layout\<close>

lemma PageOfSlot_range:
  assumes "i < length (Slots u)" "0 < AgentSlotsPerPage u"
  shows "0 \<le> PageOfSlot u i" "PageOfSlot u i < PageCount u"
proof -
  let ?per = "AgentSlotsPerPage u"
  have "i div ?per \<le> (length (Slots u) - 1) div ?per" using assms(1) by (intro div_le_mono) simp
  also have "\<dots> < (length (Slots u) - 1 + ?per) div ?per" using assms(2) by (simp add: div_add_self2)
  also have "length (Slots u) - 1 + ?per = length (Slots u) + ?per - 1" using assms(1) by simp
  finally show "PageOfSlot u i < PageCount u" by (simp add: PageOfSlot_def PageCount_def Let_def)
qed (simp add: PageOfSlot_def)

lemma AgentSlotsPerPage_update [simp]:
  "AgentSlotsPerPage (u\<lparr>Page := n\<rparr>) = AgentSlotsPerPage u" "AgentSlotsPerPage (u\<lparr>Slots := ss\<rparr>) = AgentSlotsPerPage u"
  "PageOfSlot (u\<lparr>Page := n\<rparr>) i = PageOfSlot u i" "PageOfSlot (u\<lparr>Slots := ss\<rparr>) i = PageOfSlot u i"
  "PageCount (u\<lparr>Page := n\<rparr>) = PageCount u" "slotAt (u\<lparr>Page := n\<rparr>) = slotAt u"
  by (auto simp: AgentSlotsPerPage_def PageOfSlot_def PageCount_def slotAt_def)

lemma rebuild_shows_slot:
  assumes t: "ultra_table_ok w u" and i: "slotAt u i = Some p" and page: "Page u = PageOfSlot u i"
  shows "p \<in> set (leafPanes (Root (rebuildUltraTree w)))"
proof -
  have v: "ValidateUltraGrid (Rows u) (Cols u)" "Ultra w = Some u" using t by (auto simp: ultra_table_ok_def)
  note per = ValidateUltraGridD(4) [OF v(1)]
  have "i < length (Slots u)" using i by (simp add: slotAt_def split: if_splits)
  then have pg: "0 \<le> Page u" "Page u < PageCount u" using PageOfSlot_range [OF _ per] page by simp_all
  have "p \<in> set (present (pageSlots u))" using set_pageSlots [OF per pg(1)] i page by auto
  then show ?thesis by (simp add: rebuildUltraTree_fields(2) [OF v(2)] clampPage_id [OF pg] leafPanes_ultraTree [OF v(1)])
qed

lemma ultra_setActive:
  assumes "ultra_kept ps w" "p \<in> set (leafPanes (Root w))"
  shows "ultra_kept ps (setActive p w)"
proof -
  obtain u where u: "ultra_table_ok w u" "0 \<le> Page u" "Page u < PageCount u" "Root w = ultraTree w u"
    using assms(1) by (auto simp: ultra_kept_def ultra_ok_def)
  have up: "ultraPanes (setActive p w) = ultraPanes w" by (rule ultraPanes_cong) simp_all
  have "p \<in> set (ultraPanes w)" using assms(2) ultraTree_shows [OF u(1,2)] u(4) by auto
  then have "ultra_table_ok (setActive p w) u" using u(1) unfolding ultra_table_ok_def up by simp
  moreover have "Root (setActive p w) = ultraTree (setActive p w) u" using ultraTree_cong [of "setActive p w" w u] u(4) by simp
  ultimately show ?thesis using u assms unfolding ultra_kept_def ultra_ok_def up by (auto intro!: exI [of _ u])
qed

lemma ultraInsert_kept:
  assumes w: "ultra_ok w" and p: "pane_ID p \<noteq> 0" "pane_ID p \<notin> pane_ID ` set (ultraPanes w)"
  shows "ultra_kept (add_mset p (mset (ultraPanes w))) (snd (ultraInsert p opts w))"
    "fst (ultraInsert p opts w) = Inr p"
    "\<not> KeepFocus opts \<Longrightarrow> ActivePane (snd (ultraInsert p opts w)) = Some p \<and> p \<in> set (leafPanes (Root (snd (ultraInsert p opts w))))"
proof -
  obtain u where u: "ultra_table_ok w u" "Ultra w = Some u" "ValidateUltraGrid (Rows u) (Cols u)"
    "LeadPaneID w = 0 \<longleftrightarrow> ultraLead w = None" using ultra_okD [OF w] by metis
  obtain u1 idx where ui: "ultra_insert p u = (u1, idx)" by fastforce
  then have u1: "Rows u1 = Rows u" "Cols u1 = Cols u" "mset (slotPanes u1) = add_mset p (mset (slotPanes u))"
    using slotPanes_simps(6-8) [of p u] by simp_all
  define u2 where "u2 = (if \<not> KeepFocus opts then u1\<lparr>Page := PageOfSlot u1 idx\<rparr> else u1)"
  have u2: "Rows u2 = Rows u" "Cols u2 = Cols u" "Slots u2 = Slots u1" "slotAt u2 = slotAt u1" by (simp_all add: u2_def u1)
  let ?w = "w\<lparr>Ultra := Some u2\<rparr>"
  have m: "mset (ultraPanes ?w) = add_mset p (mset (ultraPanes w))"
    using ultraPanes_lead [of ?w u2] ultraPanes_lead [of w u] u(2,4) u1(3) u2(3) by simp
  have t: "ultra_table_ok ?w u2" by (rule ultra_table_add [OF u(1), of _ _ p]) (use u(3) u2 p m in auto)
  have idx: "slotAt u2 idx = Some p" using slots.lookup_place [OF ui] u2(4) by simp
  have res: "ultraInsert p opts w = ok p (if \<not> KeepFocus opts then setActive p (rebuildUltraTree ?w) else rebuildUltraTree ?w)"
    using u(2) ui by (simp add: ultraInsert_def u2_def Let_def)
  have k: "ultra_kept (add_mset p (mset (ultraPanes w))) (rebuildUltraTree ?w)" by (rule rebuild_kept [OF t m])
  have shown: "p \<in> set (leafPanes (Root (rebuildUltraTree ?w)))" if "\<not> KeepFocus opts"
    by (rule rebuild_shows_slot [OF t idx]) (use that in \<open>simp add: u2_def\<close>)
  show "ultra_kept (add_mset p (mset (ultraPanes w))) (snd (ultraInsert p opts w))"
    using res k ultra_setActive [OF k] shown by (cases "KeepFocus opts") simp_all
  show "fst (ultraInsert p opts w) = Inr p" using res by simp
  show "ActivePane (snd (ultraInsert p opts w)) = Some p \<and> p \<in> set (leafPanes (Root (snd (ultraInsert p opts w))))" if "\<not> KeepFocus opts"
    using that shown res by simp
qed

lemma retable_kept:
  assumes "ultra_table_ok w u" "Ultra w' = Some u'" "Rows u' = Rows u" "Cols u' = Cols u"
    "LeadPaneID w' = 0 \<longleftrightarrow> ultraLead w' = None" "\<And>p. ultraLead w' = Some p \<Longrightarrow> pane_ID p = LeadPaneID w'"
    "mset (ultraPanes w') = mset (ultraPanes w)" "setsizeFails w' = setsizeFails w" "ActivePane w' = ActivePane w"
  shows "ultra_kept (mset (ultraPanes w)) (rebuildUltraTree w')"
proof -
  have "ultra_table_ok w' u'"
    by (rule ultra_table_cong [OF assms(1)]) (use assms in \<open>auto simp: ultra_table_ok_def\<close>)
  from rebuild_kept [OF this assms(7)] show ?thesis .
qed

text \<open>Moving panes between slots: only the slots change, and they hold the same panes.\<close>

lemma reslot_kept:
  assumes "ultra_table_ok w u" "Rows u' = Rows u" "Cols u' = Cols u" "mset (slotPanes u') = mset (slotPanes u)"
  shows "ultra_kept (mset (ultraPanes w)) (rebuildUltraTree (w\<lparr>Ultra := Some u'\<rparr>))"
proof -
  have u: "Ultra w = Some u" "LeadPaneID w = 0 \<longleftrightarrow> ultraLead w = None" using assms(1) by (auto simp: ultra_table_ok_def)
  have "mset (ultraPanes (w\<lparr>Ultra := Some u'\<rparr>)) = mset (ultraPanes w)"
    using ultraPanes_lead [of "w\<lparr>Ultra := Some u'\<rparr>" u'] ultraPanes_lead [OF u] u(2) assms(4) by simp
  then show ?thesis using assms by (intro retable_kept [OF assms(1), of _ u']) (auto simp: ultra_table_ok_def)
qed

lemma ultraShowPane_kept:
  assumes "ultra_ok w"
  shows "ultra_kept (mset (ultraPanes w)) (snd (ultraShowPane i w))"
proof -
  obtain u where u: "ultra_table_ok w u" "Ultra w = Some u" using ultra_okD [OF assms] by metis
  then show ?thesis using assms reslot_kept [OF u(1)] by (auto simp: ultraShowPane_def split: option.splits)
qed

text \<open>The pane that was asked for is shown.\<close>

lemma ultraShowPane_shows:
  assumes "ultra_ok w" "p \<in> set (ultraPanes w)"
  shows "p \<in> set (leafPanes (Root (snd (ultraShowPane (pane_ID p) w))))"
proof -
  obtain u where u: "ultra_table_ok w u" "Ultra w = Some u" "0 \<le> Page u" "Root w = ultraTree w u"
    "LeadPaneID w = 0 \<longleftrightarrow> ultraLead w = None" using ultra_okD [OF assms(1)] by metis
  have d: "distinct (map pane_ID (ultraPanes w))" using u(1) by (simp add: ultra_table_ok_def)
  show ?thesis
  proof (cases "ultraVisible (pane_ID p) w")
    case True
    then show ?thesis using assms(2) u ultraTree_shows [OF u(1,3)] by (simp add: ultraShowPane_def)
  next
    case False
    then have "ultraLead w \<noteq> Some p" using u by (auto simp: ultraVisible_def ultra_table_ok_def)
    then have "p \<in> set (slotPanes u)" using assms(2) ultraPanes_eq [OF u(1)] by (auto split: option.splits)
    then obtain k where k: "SlotOf u (pane_ID p) = Some k" using slotIndex_None by (metis SlotOf_def image_eqI not_None_eq)
    then obtain q where q: "k < length (Slots u)" "Slots u ! k = Some q" "pane_ID q = pane_ID p" using slotIndex_Some by (metis SlotOf_def)
    then have "q \<in> set (slotPanes u)" using set_present nth_mem by metis
    then have "q = p" using q(3) assms(2) d ultraPanes_eq [OF u(1)] by (auto simp: distinct_map dest!: inj_onD)
    let ?u = "u\<lparr>Page := PageOfSlot u k\<rparr>" and ?w = "w\<lparr>Ultra := Some (u\<lparr>Page := PageOfSlot u k\<rparr>)\<rparr>"
    have up: "ultraPanes ?w = ultraPanes w" by (rule ultraPanes_cong) (simp_all add: u(2))
    then have t: "ultra_table_ok ?w ?u" using u(1) by (intro ultra_table_cong [OF u(1)]) (auto simp: ultra_table_ok_def)
    have "p \<in> set (leafPanes (Root (rebuildUltraTree ?w)))"
      by (rule rebuild_shows_slot [OF t, of k]) (use q \<open>q = p\<close> in \<open>simp_all add: slotAt_def\<close>)
    then show ?thesis using u(2) False k by (simp add: ultraShowPane_def)
  qed
qed

lemma ultraSwap_kept:
  assumes "ultra_ok w"
  shows "ultra_kept (mset (ultraPanes w)) (snd (ultraSwap i j w))"
proof -
  obtain u where u: "ultra_table_ok w u" "Ultra w = Some u" using ultra_okD [OF assms] by metis
  have "mset (present (swapAt a b (Slots u))) = mset (slotPanes u)" if "SlotOf u i = Some a" "SlotOf u j = Some b" for a b
    using that slotIndex_Some mset_present_swapAt unfolding SlotOf_def by metis
  then show ?thesis using u assms reslot_kept [OF u(1)] by (auto simp: ultraSwap_def split: option.splits)
qed

text \<open>A promotion swaps a slot of the visible page with the slot of the hidden pane.\<close>

lemma UltraPromote_swaps:
  assumes u: "Ultra w = Some u"
  obtains (refused) "UltraPromote i busy w = (False, w)"
  | (swapped) k src where "SlotOf u i = Some src" "k < length (Slots u)" "src < length (Slots u)"
      "nat (Page u) * AgentSlotsPerPage u \<le> k" "k < nat (Page u) * AgentSlotsPerPage u + AgentSlotsPerPage u"
      "UltraPromote i busy w = (True, rebuildUltraTree (w\<lparr>Ultra := Some
         ((if Slots u ! k = None then trimEmptyPages else id) (u\<lparr>Slots := swapAt k src (Slots u)\<rparr>))\<rparr>))"
      "\<And>q. Slots u ! k = Some q \<Longrightarrow> map_option pane_ID (ActivePane w) \<noteq> Some (pane_ID q) \<and> (\<forall>f. busy = Some f \<longrightarrow> f (pane_ID q))"
proof (cases "UltraPaneHidden i w")
  case False
  then show ?thesis using refused u by (simp add: UltraPromote_def)
next
  case True
  then obtain src where src: "SlotOf u i = Some src" using u by (auto simp: UltraPaneHidden_def)
  then have src': "src < length (Slots u)" using slotIndex_Some by (metis SlotOf_def)
  define page where "page = [nat (Page u) * AgentSlotsPerPage u..<min (nat (Page u) * AgentSlotsPerPage u + AgentSlotsPerPage u) (length (Slots u))]"
  have page: "k < length (Slots u)" "nat (Page u) * AgentSlotsPerPage u \<le> k" "k < nat (Page u) * AgentSlotsPerPage u + AgentSlotsPerPage u"
    if "k \<in> set page" for k using that by (auto simp: page_def)
  show ?thesis
  proof (cases "List.find (\<lambda>i. Slots u ! i = None) page")
    case (Some k)
    then have "k \<in> set page" "Slots u ! k = None" by (auto simp: find_Some_iff)
    then show ?thesis using swapped [OF src page(1) src' page(2,3), of k] u True src Some
      by (simp add: UltraPromote_def page_def [symmetric] Let_def swapAt_def)
  next
    case None
    define cs where "cs = sort_key (\<lambda>i. ActivePoint (paneAt (the (Slots u ! i)) w)) (filter (\<lambda>k.
      case Slots u ! k of None \<Rightarrow> False | Some p \<Rightarrow> pane_ID p \<noteq> (case ActivePane w of Some p \<Rightarrow> pane_ID p | None \<Rightarrow> 0) \<and>
        (case busy of Some f \<Rightarrow> f (pane_ID p) | None \<Rightarrow> True)) page)"
    have pr: "UltraPromote i busy w = (case cs of [] \<Rightarrow> (False, w)
        | to # rest \<Rightarrow> (True, rebuildUltraTree (w\<lparr>Ultra := Some (u\<lparr>Slots := swapAt to src (Slots u)\<rparr>)\<rparr>)))"
      using u True src None by (simp add: UltraPromote_def page_def [symmetric] cs_def Let_def)
    show ?thesis
    proof (cases cs)
      case (Cons k rest)
      then have "k \<in> set cs" by simp
      then have "k \<in> set page" "Slots u ! k \<noteq> None"
        "\<And>q. Slots u ! k = Some q \<Longrightarrow> map_option pane_ID (ActivePane w) \<noteq> Some (pane_ID q) \<and> (\<forall>f. busy = Some f \<longrightarrow> f (pane_ID q))"
        by (auto simp: cs_def split: option.splits)
      then show ?thesis using swapped [OF src page(1) src' page(2,3), of k] pr Cons by auto
    qed (use refused pr in simp)
  qed
qed

lemma UltraPromote_kept:
  assumes "ultra_ok w"
  shows "ultra_kept (mset (ultraPanes w)) (snd (UltraPromote i busy w))"
proof -
  obtain u where u: "ultra_table_ok w u" "Ultra w = Some u" using ultra_okD [OF assms] by metis
  show ?thesis
  proof (cases rule: UltraPromote_swaps [OF u(2), of i busy, case_names refused swapped])
    case (swapped k src)
    then show ?thesis unfolding swapped(6) snd_conv by (intro reslot_kept [OF u(1)]) (simp_all add: mset_present_swapAt)
  qed (use assms in simp)
qed

lemma ultraSetLead_kept:
  assumes w: "ultra_ok w"
  shows "ultra_kept (mset (ultraPanes w)) (snd (ultraSetLead i w))"
proof -
  obtain u where u: "ultra_table_ok w u" "Ultra w = Some u" "LeadPaneID w = 0 \<longleftrightarrow> ultraLead w = None"
    using ultra_okD [OF w] by metis
  show ?thesis
  proof (cases "LeadPaneID w = i \<or> SlotOf u i = None")
    case True
    then show ?thesis using w u(2) by (auto simp: ultraSetLead_def)
  next
    case False
    then obtain k where k: "SlotOf u i = Some k" by blast
    obtain p where p: "pane_ID p = i" "Slots u ! k = Some p" "mset (slotPanes u) = add_mset p (mset (slotPanes (clearSlot k u)))"
      using slotPanes_clear [OF k] by blast
    then have "p \<in># mset (ultraPanes w)" unfolding ultraPanes_eq [OF u(1)] by simp
    then have i: "i \<noteq> 0" using p(1) u(1) by (auto simp: ultra_table_ok_def)
    define u2 where "u2 = (case ultraLead w of Some prev \<Rightarrow> fst (ultra_insert prev (clearSlot k u)) | None \<Rightarrow> clearSlot k u)"
    let ?w = "w\<lparr>LeadPaneID := i, ultraLead := Some p, Ultra := Some (trimEmptyPages u2)\<rparr>"
    have u2: "Rows u2 = Rows u" "Cols u2 = Cols u" by (auto simp: u2_def split: option.splits)
    have "mset (ultraPanes ?w) = mset (ultraPanes w)"
      using ultraPanes_lead [of ?w "trimEmptyPages u2"] ultraPanes_lead [OF u(2,3)] p i by (simp add: u2_def split: option.splits)
    then have "ultra_kept (mset (ultraPanes w)) (rebuildUltraTree ?w)"
      by (intro retable_kept [OF u(1), of _ "trimEmptyPages u2"]) (use p i u2 in auto)
    moreover have "snd (ultraSetLead i w) = rebuildUltraTree ?w"
      using False u(2,3) k p by (simp add: ultraSetLead_def u2_def Let_def split: option.splits)
    ultimately show ?thesis by simp
  qed
qed

lemma ultraUnsetLead_kept:
  assumes w: "ultra_ok w"
  shows "ultra_kept (mset (ultraPanes w)) (snd (ultraUnsetLead w))"
proof -
  obtain u where u: "ultra_table_ok w u" "Ultra w = Some u" "LeadPaneID w = 0 \<longleftrightarrow> ultraLead w = None"
    using ultra_okD [OF w] by metis
  show ?thesis
  proof (cases "ultraLead w")
    case None
    then show ?thesis using w u by (simp add: ultraUnsetLead_def)
  next
    case (Some q)
    let ?u = "fst (ultra_insert q u)"
    let ?w = "w\<lparr>Ultra := Some ?u, LeadPaneID := 0, ultraLead := None\<rparr>"
    have "mset (ultraPanes ?w) = mset (ultraPanes w)"
      using ultraPanes_lead [of ?w ?u] ultraPanes_lead [OF u(2,3)] Some by simp
    then have "ultra_kept (mset (ultraPanes w)) (rebuildUltraTree ?w)"
      by (intro retable_kept [OF u(1), of _ ?u]) auto
    then show ?thesis using Some u by (simp add: ultraUnsetLead_def)
  qed
qed

end
