(* ===== verification/Ultra_Steps.thy ===== *)
theory Ultra_Steps
  imports Window_Steps Ultra_Laws
begin

text \<open>
  A window in ultra layout as a state machine: the window's operations as they act there, in any
  order, and the switch between the two layouts.
\<close>

section \<open>The window's operations in ultra layout\<close>

definition ultra_fresh :: "pane \<Rightarrow> window \<Rightarrow> bool" where
  "ultra_fresh p w \<longleftrightarrow> pane_ID p \<noteq> 0 \<and> pane_ID p \<notin> pane_ID ` set (ultraPanes w)"

lemma ultra_SplitPane:
  assumes "ultra_ok w" "ultra_fresh p w"
  shows "ultra_kept (add_mset p (mset (ultraPanes w))) (snd (SplitPaneWithOptions i dir p opts w))"
    "ultra_kept (add_mset p (mset (ultraPanes w))) (snd (SplitRootWithOptions dir p opts w))"
proof -
  obtain w1 where w1: "unzoomIf (\<not> KeepFocus opts) w = (Inr (), w1)" "ultra_ok w1" "ultraPanes w1 = ultraPanes w"
    "Ultra w1 = Ultra w" using ultra_unzoomIf [OF assms(1)] by metis
  obtain u where "Ultra w1 = Some u" using ultra_okD [OF w1(2)] by metis
  then show "ultra_kept (add_mset p (mset (ultraPanes w))) (snd (SplitPaneWithOptions i dir p opts w))"
    "ultra_kept (add_mset p (mset (ultraPanes w))) (snd (SplitRootWithOptions dir p opts w))"
    using w1 assms(2) ultraInsert_kept(1) [OF w1(2), of p opts]
    by (simp_all add: SplitPaneWithOptions_def SplitRootWithOptions_def ultra_fresh_def)
qed

lemma ultra_Ultra: "ultra_ok w \<Longrightarrow> Ultra w \<noteq> None"
  using ultra_okD by (metis option.distinct(1))

lemma ultra_SetLead:
  assumes "ultra_ok w"
  shows "ultra_kept (mset (ultraPanes w)) (snd (SetLead i w))"
proof -
  obtain w1 where w1: "unzoomIf True w = (Inr (), w1)" "ultra_ok w1" "ultraPanes w1 = ultraPanes w" "Ultra w1 = Ultra w"
    using ultra_unzoomIf [OF assms(1)] by metis
  then show ?thesis using assms ultraSetLead_kept [OF w1(2), of i] ultra_Ultra [OF w1(2)]
    by (auto simp: SetLead_def)
qed

lemma ultra_UnsetLead: "ultra_ok w \<Longrightarrow> ultra_kept (mset (ultraPanes w)) (snd (UnsetLead w))"
  using ultraUnsetLead_kept ultra_Ultra by (simp add: UnsetLead_def)

lemma ultra_SwapPanes: "ultra_ok w \<Longrightarrow> ultra_kept (mset (ultraPanes w)) (snd (SwapPanes i j w))"
  using ultraSwap_kept ultra_Ultra by (simp add: SwapPanes_def)

lemma ultra_show_and_focus:
  assumes "ultra_ok w" "p \<in> set (ultraPanes w)"
  shows "ultra_kept (mset (ultraPanes w)) (setActive p (snd (ultraShowPane (pane_ID p) w)))"
  by (rule ultra_setActive [OF ultraShowPane_kept [OF assms(1)] ultraShowPane_shows [OF assms]])

lemma ultra_Unzoom:
  assumes "ultra_ok w"
  shows "ultra_kept (mset (ultraPanes w)) (snd (Unzoom w))"
proof (cases "ZoomedPaneID w = 0")
  case False
  then have "unzoomIf True w = Unzoom w" by (simp add: unzoomIf_def)
  then show ?thesis using ultra_unzoomIf [OF assms, of True] by (metis snd_conv ultra_kept_def)
qed (use assms in \<open>simp add: Unzoom_def\<close>)

lemma ultra_FocusPane:
  assumes "ultra_ok w" "p \<in> set (ultraPanes w)"
  shows "ultra_kept (mset (ultraPanes w)) (FocusPane p w) \<and> ActivePane (FocusPane p w) = Some p \<and>
    p \<in> set (leafPanes (Root (FocusPane p w)))"
proof -
  let ?b = "pane_ID p \<noteq> ZoomedPaneID w"
  obtain w1 where w1: "unzoomIf ?b w = (Inr (), w1)" "ultra_ok w1" "ultraPanes w1 = ultraPanes w"
    using ultra_unzoomIf [OF assms(1), of ?b] by metis
  then have "FocusPane p w = setActive p (snd (ultraShowPane (pane_ID p) w1))"
    by (simp add: FocusPane_def unzoomIf_def split: if_splits)
  then show ?thesis using ultra_show_and_focus [OF w1(2), of p] ultraShowPane_shows [OF w1(2), of p] w1(3) assms(2) by simp
qed

lemma ultra_Focus:
  assumes "ultra_ok w"
  shows "ultra_kept (mset (ultraPanes w)) (snd (Focus direction w))"
proof -
  obtain w1 where w1: "unzoomIf True w = (Inr (), w1)" "ultra_ok w1" "ultraPanes w1 = ultraPanes w"
    using ultra_unzoomIf [OF assms, of True] by metis
  have ps: "Panes w1 = ultraPanes w" using ultra_Ultra [OF w1(2)] w1(3) by (simp add: Panes_def)
  have k: "ultra_kept (mset (ultraPanes w)) w1" using w1 by (simp add: ultra_kept_def)
  have nth: "ultraPanes w ! (j mod length (ultraPanes w)) \<in> set (ultraPanes w)" if "\<not> length (ultraPanes w) \<le> 1" for j
    using that by (intro nth_mem mod_less_divisor) linarith
  obtain a where a: "ActivePane w1 = Some a" using w1(2) by (auto simp: ultra_ok_def)
  show ?thesis
    using w1(1,3) a nth k ultra_setActive [OF k] findDirectional_shown [where w = w1] ultra_show_and_focus [OF w1(2)]
    by (auto simp: Focus_def ps Let_def split: option.splits)
qed

lemma ultra_Zoom:
  assumes "ultra_ok w"
  shows "ultra_kept (mset (ultraPanes w)) (snd (Zoom i w))"
proof -
  obtain w1 where w1: "unzoomIf True w = (Inr (), w1)" "ultra_ok w1" "ultraPanes w1 = ultraPanes w"
    using ultra_unzoomIf [OF assms, of True] by metis
  define w2 where "w2 = snd (ultraShowPane i w1)"
  have k: "ultra_kept (mset (ultraPanes w)) w2" using ultraShowPane_kept [OF w1(2)] w1(3) by (simp add: w2_def)
  have zoom: "ultra_kept (mset (ultraPanes w)) (snd (Pane_Resize q c r (setActive q (w2\<lparr>ZoomedPaneID := i\<rparr>))))"
    if "q \<in> set (leafPanes (Root w2))" for q c r
  proof -
    have "ultra_kept (mset (ultraPanes w)) (w2\<lparr>ZoomedPaneID := i\<rparr>)" using k ultra_ok_cong [of "w2\<lparr>ZoomedPaneID := i\<rparr>" w2] by (simp add: ultra_kept_def)
    then have "ultra_kept (mset (ultraPanes w)) (setActive q (w2\<lparr>ZoomedPaneID := i\<rparr>))" using ultra_setActive that by simp
    then show ?thesis using ultra_ok_cong [of "snd (Pane_Resize q c r (setActive q (w2\<lparr>ZoomedPaneID := i\<rparr>)))" "setActive q (w2\<lparr>ZoomedPaneID := i\<rparr>)"]
      by (simp add: ultra_kept_def)
  qed
  show ?thesis
  proof (cases "FindPane i (Root w2)")
    case None
    then show ?thesis using ultra_Unzoom [OF assms] w1(1) k by (simp add: Zoom_def w2_def [symmetric] mustFindPane_def)
  next
    case (Some hit)
    then obtain path cell q where hit: "FindPane i (Root w2) = Some (path, cell)" "getAt path (Root w2) = Some cell" "cellPane cell = Some q"
      by (metis FindPane_Some surj_pair)
    then show ?thesis using ultra_Unzoom [OF assms] w1(1) k zoom getAt_leafPanes [OF hit(2,3)]
      by (simp add: Zoom_def w2_def [symmetric] mustFindPane_def)
  qed
qed

lemma ultra_Resize:
  assumes "ultra_ok w"
  shows "ultra_kept (mset (ultraPanes w)) (Window_Resize width height w)"
proof -
  obtain u where u: "ultra_table_ok w u" "Ultra w = Some u" using ultra_okD [OF assms] by metis
  let ?w = "w\<lparr>Width := width, Height := height\<rparr>"
  have "ultraPanes ?w = ultraPanes w" by (rule ultraPanes_cong) simp_all
  then have "ultra_kept (mset (ultraPanes w)) (rebuildUltraTree ?w)"
    using u by (intro retable_kept [OF u(1), of ?w u]) (auto simp: ultra_table_ok_def)
  then show ?thesis using u(2) by (simp add: Window_Resize_def)
qed

lemma ultra_table_replace:
  assumes t: "ultra_table_ok w u" and "Ultra w' = Some u'" "Rows u' = Rows u" "Cols u' = Cols u"
    "LeadPaneID w' = 0 \<longleftrightarrow> ultraLead w' = None" "\<And>p. ultraLead w' = Some p \<Longrightarrow> pane_ID p = LeadPaneID w'"
    and m: "mset (ultraPanes w) = add_mset old ps" "mset (ultraPanes w') = add_mset new ps" and new: "ultra_fresh new w"
    and "setsizeFails w' = setsizeFails w"
    and a: "ActivePane w' = (if map_option pane_ID (ActivePane w) = Some (pane_ID old) then Some new else ActivePane w)"
  shows "ultra_table_ok w' u'"
proof -
  obtain xs where xs: "mset xs = ps" using ex_mset by blast
  have mm: "mset (ultraPanes w) = mset (old # xs)" "mset (ultraPanes w') = mset (new # xs)" using m xs by simp_all
  have set: "set (ultraPanes w) = insert old (set xs)" "set (ultraPanes w') = insert new (set xs)"
    using mm by (metis mset_eq_setD list.set(2))+
  have "distinct (map pane_ID (old # xs))"
    using t distinct_map_mset [OF mm(1), of pane_ID] unfolding ultra_table_ok_def by blast
  then have "distinct (map pane_ID (ultraPanes w'))"
    using new distinct_map_mset [OF mm(2), of pane_ID] set(1) by (auto simp: ultra_fresh_def)
  moreover have "0 \<notin> pane_ID ` set (ultraPanes w')" "ultraPanes w' \<noteq> []"
    using t new set by (auto simp: ultra_table_ok_def ultra_fresh_def)
  ultimately show ?thesis using assms set by (auto simp: ultra_table_ok_def split: if_splits)
qed

text \<open>Replacing a pane: the replacement takes its place, lead or slot, and its focus.\<close>

lemma rebuild_replaced:
  assumes u: "ultra_table_ok w u" and p: "ultra_fresh p w"
    and w2: "Ultra w2 = Some u2" "Rows u2 = Rows u" "Cols u2 = Cols u" "LeadPaneID w2 = 0 \<longleftrightarrow> ultraLead w2 = None"
      "\<And>q. ultraLead w2 = Some q \<Longrightarrow> pane_ID q = LeadPaneID w2" "mset (ultraPanes w) = add_mset old ps"
      "mset (ultraPanes w2) = add_mset p ps" "setsizeFails w2 = setsizeFails w" "pane_ID old = i"
      "ActivePane w2 = (if map_option pane_ID (ActivePane w) = Some i then Some p else ActivePane w)"
  shows "\<exists>old ps. pane_ID old = i \<and> mset (ultraPanes w) = add_mset old ps \<and> ultra_kept (add_mset p ps) (rebuildUltraTree w2)"
proof -
  have "ultra_table_ok w2 u2" by (rule ultra_table_replace [OF u, of _ _ old ps p]) (use w2 p in simp_all)
  from rebuild_kept [OF this, of "add_mset p ps"] show ?thesis using w2 by auto
qed

lemma ultra_ReplacePane:
  assumes w: "ultra_ok w" and p: "ultra_fresh p w" and i: "i \<noteq> 0" and res: "ReplacePane i p w = (r, w')"
  shows "case r of Inl e \<Rightarrow> w' = w
    | Inr x \<Rightarrow> \<exists>old ps. pane_ID old = i \<and> mset (ultraPanes w) = add_mset old ps \<and> ultra_kept (add_mset p ps) w'"
proof -
  obtain u where u: "ultra_table_ok w u" "Ultra w = Some u" "LeadPaneID w = 0 \<longleftrightarrow> ultraLead w = None"
    using ultra_okD [OF w] by metis
  note upw = ultraPanes_lead [OF u(2,3)]
  define act where "act = (case ActivePane w of Some a \<Rightarrow> pane_ID a = i | None \<Rightarrow> False)"
  define fin :: "window \<Rightarrow> window" where "fin w2 = (if act then w2\<lparr>ActivePane := Some p\<rparr> else w2)" for w2
  have fin [simp]: "Ultra (fin w2) = Ultra w2" "LeadPaneID (fin w2) = LeadPaneID w2" "ultraLead (fin w2) = ultraLead w2"
    "setsizeFails (fin w2) = setsizeFails w2" "ultraPanes (fin w2) = ultraPanes w2"
    "ActivePane w2 = ActivePane w \<Longrightarrow> ActivePane (fin w2) = (if map_option pane_ID (ActivePane w) = Some i then Some p else ActivePane w)" for w2
    by (auto simp: fin_def act_def ultraPanes_def split: option.splits)
  have rp: "ReplacePane i p w = (case ultraReplacePane i p w of
      (False, w2) \<Rightarrow> err (ErrNotFound i) w2 | (True, w2) \<Rightarrow> ok () (rebuildUltraTree (fin w2)))"
    using u(2) by (simp add: ReplacePane_def fin_def act_def [symmetric] split: prod.splits bool.splits)
  note replaced = rebuild_replaced [OF u(1) p, where i = i]
  consider (lead) q where "LeadPaneID w = i" "ultraLead w = Some q" "pane_ID q = i" | (slot) k where "LeadPaneID w \<noteq> i" "SlotOf u i = Some k"
    | (none) "LeadPaneID w \<noteq> i" "SlotOf u i = None"
    using i u(1,3) by (cases "ultraLead w"; cases "SlotOf u i") (auto simp: ultra_table_ok_def)
  then show ?thesis
  proof cases
    case (lead q)
    let ?w = "w\<lparr>ultraLead := Some p, LeadPaneID := pane_ID p\<rparr>"
    have "mset (ultraPanes ?w) = add_mset p (mset (slotPanes u))" using ultraPanes_lead [of ?w u] u(2) p by (simp add: ultra_fresh_def)
    then have "\<exists>old ps. pane_ID old = i \<and> mset (ultraPanes w) = add_mset old ps \<and> ultra_kept (add_mset p ps) (rebuildUltraTree (fin ?w))"
      using u(2) p lead upw by (intro replaced [of "fin ?w" u q "mset (slotPanes u)"]) (auto simp: ultra_fresh_def)
    moreover have "ReplacePane i p w = ok () (rebuildUltraTree (fin ?w))" using rp u(2) lead by (simp add: ultraReplacePane_def)
    ultimately show ?thesis using res by simp
  next
    case (slot k)
    obtain old where old: "pane_ID old = i" "k < length (Slots u)" "Slots u ! k = Some old"
      using slotIndex_Some slot(2) by (metis SlotOf_def)
    let ?u = "u\<lparr>Slots := (Slots u)[k := Some p]\<rparr>"
    let ?w = "w\<lparr>Ultra := Some ?u\<rparr>" and ?ps = "mset (case ultraLead w of Some p \<Rightarrow> [p] | None \<Rightarrow> []) + mset (present ((Slots u)[k := None]))"
    have "mset (ultraPanes ?w) = add_mset p ?ps"
      using ultraPanes_lead [of ?w ?u] u(3) present_clear [of k "(Slots u)[k := Some p]" p] old(2) by simp
    moreover have "mset (ultraPanes w) = add_mset old ?ps" using upw present_clear [OF old(2,3)] by simp
    ultimately have "\<exists>old ps. pane_ID old = i \<and> mset (ultraPanes w) = add_mset old ps \<and> ultra_kept (add_mset p ps) (rebuildUltraTree (fin ?w))"
      using u(1,3) old(1) by (intro replaced [of "fin ?w" ?u old ?ps]) (simp_all add: ultra_table_ok_def)
    moreover have "ReplacePane i p w = ok () (rebuildUltraTree (fin ?w))" using rp u(2) slot by (simp add: ultraReplacePane_def)
    ultimately show ?thesis using res by simp
  next
    case none
    then show ?thesis using rp u(2) res by (simp add: ultraReplacePane_def)
  qed
qed

section \<open>Between the layouts\<close>

text \<open>Enabling the grid keeps every pane; without a lead they fill the slots by increasing ID.\<close>

lemma rebuild_shows_visible:
  assumes t: "ultra_table_ok w u" and p: "p \<in> set (ultraPanes w)" "ultraVisible (pane_ID p) (w\<lparr>Ultra := Some (clampPage u)\<rparr>)"
  shows "p \<in> set (leafPanes (Root (rebuildUltraTree w)))"
proof -
  have u: "Ultra w = Some u" using t by (simp add: ultra_table_ok_def)
  note rf = rebuildUltraTree_fields [OF u]
  obtain v where v: "ultra_table_ok (rebuildUltraTree w) v" "Ultra (rebuildUltraTree w) = Some v" "0 \<le> Page v"
    "Root (rebuildUltraTree w) = ultraTree (rebuildUltraTree w) v" using ultra_okD [OF rebuild_ok(1) [OF t]] by metis
  have "ultraVisible (pane_ID p) (rebuildUltraTree w)" using p(2) by (simp add: ultraVisible_def rf)
  then show ?thesis unfolding v(4) ultraTree_shows [OF v(1,3)] rebuild_ok(2) [OF t] using p(1) by simp
qed

lemma rebuild_shows_active:
  assumes t: "ultra_table_ok w u" and a: "ActivePane w = Some a"
  shows "ultra_kept (mset (ultraPanes w)) (rebuildUltraTree (ultraShowPaneIfActive w)) \<and>
    ActivePane (rebuildUltraTree (ultraShowPaneIfActive w)) = Some a \<and>
    a \<in> set (leafPanes (Root (rebuildUltraTree (ultraShowPaneIfActive w)))) \<and>
    (\<exists>n. Ultra (rebuildUltraTree (ultraShowPaneIfActive w)) = Some (u\<lparr>Page := n\<rparr>))"
proof -
  have u: "Ultra w = Some u" "ValidateUltraGrid (Rows u) (Cols u)" "a \<in> set (ultraPanes w)" using t a by (auto simp: ultra_table_ok_def)
  have clamp: "\<exists>n. clampPage (v\<lparr>Page := m\<rparr>) = v\<lparr>Page := n\<rparr>" for v :: UltraLayout and m by (auto simp: clampPage_def Let_def)
  show ?thesis
  proof (cases "SlotOf u (pane_ID a)")
    case None
    then have same: "ultraShowPaneIfActive w = w" using u(1) a by (simp add: ultraShowPaneIfActive_def)
    have "a \<notin> set (slotPanes u)" using None slotIndex_None by (metis SlotOf_def image_eqI)
    then have "ultraLead w = Some a" using u(3) ultraPanes_eq [OF t] by (auto split: option.splits)
    then have "ultraVisible (pane_ID a) (w\<lparr>Ultra := Some (clampPage u)\<rparr>)" using t by (auto simp: ultraVisible_def ultra_table_ok_def)
    then show ?thesis
      using rebuild_kept [OF t refl] rebuild_ok(3) [OF t a] rebuild_shows_visible [OF t u(3)] rebuildUltraTree_fields(1) [OF u(1)] clamp [of "Page u" u] same by simp
  next
    case (Some k)
    let ?u = "u\<lparr>Page := PageOfSlot u k\<rparr>" and ?w = "w\<lparr>Ultra := Some (u\<lparr>Page := PageOfSlot u k\<rparr>)\<rparr>"
    have k: "k < length (Slots u)" using Some slotIndex_Some by (metis SlotOf_def)
    have up: "ultraPanes ?w = ultraPanes w" by (rule ultraPanes_cong) (simp_all add: u(1))
    have t': "ultra_table_ok ?w ?u" using t up by (intro ultra_table_cong [OF t]) (auto simp: ultra_table_ok_def)
    have "clampPage ?u = ?u" using PageOfSlot_range [OF k ValidateUltraGridD(4) [OF u(2)]] by (intro clampPage_id) simp_all
    then have "ultraVisible (pane_ID a) (?w\<lparr>Ultra := Some (clampPage ?u)\<rparr>)" using Some by (simp add: ultraVisible_def SlotOf_def)
    moreover have "ultraShowPaneIfActive w = ?w" using u(1) a Some by (simp add: ultraShowPaneIfActive_def)
    ultimately show ?thesis
      using rebuild_kept [OF t' refl] rebuild_ok(3) [OF t', of a] rebuild_shows_visible [OF t', of a] u(3) rebuildUltraTree_fields(1) [of ?w ?u] a up \<open>clampPage ?u = ?u\<close> by auto
  qed
qed

lemma present_map_Some [simp]: "present (map Some xs) = xs"
  by (induction xs) simp_all

lemma EnableUltra_enters:
  assumes ok: "window_ok w" and v: "ValidateUltraGrid rows cols" and res: "EnableUltra rows cols auto w = (r, w')"
  shows "r = Inr () \<and> ultra_kept (mset (leafPanes (Root w))) w' \<and> ActivePane w' = ActivePane w \<and>
    (\<exists>a \<in> set (leafPanes (Root w')). ActivePane w' = Some a) \<and> LeadPaneID w' = 0 \<and>
    (\<exists>n. Ultra w' = Some \<lparr>Rows = rows, Cols = cols, Page = n, Slots = map Some (sort_key pane_ID (leafPanes (Root w))), AutoPromote = auto\<rparr>)"
proof -
  obtain w1 where w1: "unzoomIf True w = (Inr (), w1)" "window_ok w1" "Root w1 = Root w" "ActivePane w1 = ActivePane w"
    using unzoomIf_ok [OF ok, of True] by metis
  note mode = window_ok_mode [OF w1(2)]
  define ps where "ps = sort_key pane_ID (leafPanes (Root w))"
  define u where "u = \<lparr>Rows = rows, Cols = cols, Page = 0, Slots = map Some ps, AutoPromote = auto\<rparr>"
  define w2 where "w2 = w1\<lparr>ultraLead := None, Ultra := Some u\<rparr>"
  have m: "LeadPaneID w1 = 0" "Ultra w1 = None" "\<forall>n. \<not> setsizeFails w1 n" using w1(2) by (auto simp: window_ok_defs)
  have res': "EnableUltra rows cols auto w = ok () (rebuildUltraTree (ultraShowPaneIfActive w2))"
    using v w1 m by (simp add: EnableUltra_def Let_def w2_def u_def ps_def Panes_def)
  obtain a where a: "ActivePane w = Some a" "a \<in> set (leafPanes (Root w))" using w1 by (auto simp: window_ok_defs)
  have up: "ultraPanes w2 = ps" using ultraPanes_lead [of w2 u] m(1) by (simp add: w2_def u_def)
  have pm: "mset ps = mset (leafPanes (Root w))" by (simp add: ps_def)
  then have "set ps = set (leafPanes (Root w))" by (rule mset_eq_setD)
  moreover have "distinct (map pane_ID ps)" "0 \<notin> pane_ID ` set (leafPanes (Root w))"
    using w1(2,3) distinct_map_mset [OF pm, of pane_ID] by (auto simp: window_ok_def panes_ok_def)
  ultimately have t: "ultra_table_ok w2 u"
    unfolding ultra_table_ok_def up using v m a w1(4) by (auto simp: w2_def u_def)
  have "LeadPaneID (rebuildUltraTree (ultraShowPaneIfActive w2)) = 0"
    using m(1) by (auto simp: ultraShowPaneIfActive_def w2_def rebuildUltraTree_fields split: option.splits)
  moreover have "ActivePane w2 = Some a" using a(1) w1(4) by (simp add: w2_def)
  note rebuild_shows_active [OF t this]
  moreover have "\<And>n. u\<lparr>Page := n\<rparr> = \<lparr>Rows = rows, Cols = cols, Page = n, Slots = map Some ps, AutoPromote = auto\<rparr>" by (simp add: u_def)
  ultimately show ?thesis unfolding up pm using a(1) res res' by (auto simp: ps_def)
qed

lemma EnableUltra_regrids:
  assumes ok: "ultra_ok w" and v: "ValidateUltraGrid rows cols" and res: "EnableUltra rows cols auto w = (r, w')"
  shows "r = Inr () \<and> ultra_kept (mset (ultraPanes w)) w' \<and> ActivePane w' = ActivePane w \<and>
    (\<exists>u'. Ultra w' = Some u' \<and> slotAt u' = slotAt (the (Ultra w)))"
proof -
  obtain w1 where w1: "unzoomIf True w = (Inr (), w1)" "ultra_ok w1" "ultraPanes w1 = ultraPanes w" "Ultra w1 = Ultra w" "ActivePane w1 = ActivePane w"
    using ultra_unzoomIf [OF ok, of True] by metis
  obtain u where u: "ultra_table_ok w1 u" "Ultra w1 = Some u" "LeadPaneID w1 = 0 \<longleftrightarrow> ultraLead w1 = None"
    using ultra_okD [OF w1(2)] by metis
  obtain a where a: "ActivePane w1 = Some a" using w1(2) by (auto simp: ultra_ok_def)
  define v1 where "v1 = u\<lparr>Rows := rows, Cols := cols, AutoPromote := auto\<rparr>"
  let ?u = "trimEmptyPages v1"
  let ?w = "w1\<lparr>Ultra := Some ?u\<rparr>"
  have "slotPanes v1 = slotPanes u" "slotAt v1 = slotAt u" by (auto simp: v1_def slotAt_def)
  then have up: "ultraPanes ?w = ultraPanes w"
    using ultraPanes_lead [of ?w ?u] ultraPanes_lead [OF u(2,3)] u(3) w1(3) by simp
  then have "ultra_table_ok ?w ?u"
    by (intro ultra_table_cong [OF u(1)]) (use u v w1(3) in \<open>auto simp: ultra_table_ok_def v1_def\<close>)
  note shown = rebuild_shows_active [OF this, of a]
  have "EnableUltra rows cols auto w = ok () (rebuildUltraTree (ultraShowPaneIfActive ?w))"
    using v w1(1) u(2) by (simp add: EnableUltra_def v1_def)
  moreover have "Ultra w = Some u" "ActivePane w = Some a" using w1(4,5) u(2) a by simp_all
  ultimately show ?thesis using res shown a up \<open>slotAt v1 = slotAt u\<close> by auto
qed

text \<open>Disabling it lays the lead and the agents out again, in the order of their slots.\<close>

lemma leafPanes_gridRowLeaves: "concat (map leafPanes (gridRowLeaves ps x y h ws)) = present ps"
  by (induction ps arbitrary: x ws) (auto simp: NewLeaf_def present_Cons split: option.splits)

lemma leafPanes_gridRow: "leafPanes (gridRow ps x y width h) = present ps"
  by (auto simp: gridRow_def leafPanes_gridRowLeaves NewLeaf_def present_Cons split: list.splits option.splits)

lemma leafPanes_gridRows:
  "concat (map leafPanes (gridRows cols ps x y width hs)) = present (take (length hs * cols) ps)"
proof (induction hs arbitrary: ps y)
  case (Cons h hs)
  have "present (take (length (h # hs) * cols) ps) = present (take cols ps) @ present (take (length hs * cols) (drop cols ps))"
    by (simp add: take_add)
  then show ?case using Cons by (simp add: leafPanes_gridRow)
qed simp

lemma leafPanes_buildGridTree: "ps \<noteq> [] \<Longrightarrow> leafPanes (buildGridTree ps cols x y width height) = present ps"
proof -
  assume ne: "ps \<noteq> []"
  define c where "c = (if cols < 1 then 1 else nat cols)"
  define n where "n = (length ps + c - 1) div c"
  have c: "1 \<le> c" by (auto simp: c_def)
  then have "length ps + c - 1 < (n + 1) * c" unfolding n_def by (metis add.commute dividend_less_div_times less_le_trans mult.commute mult_Suc zero_less_one Suc_eq_plus1)
  then have fit: "length ps \<le> n * c" using c by simp
  moreover have "n \<noteq> 0" using fit ne by (cases n) auto
  moreover have "present ps = (case ps ! 0 of Some p \<Rightarrow> [p] | None \<Rightarrow> [])" if "length ps = 1"
    using that by (auto simp: length_Suc_conv present_Cons split: option.splits)
  ultimately show ?thesis
    unfolding buildGridTree_def Let_def c_def [symmetric] n_def [symmetric]
    by (auto simp: leafPanes_gridRow leafPanes_gridRows NewLeaf_def split: option.splits)
qed

lemma DisableUltra_leaves:
  assumes ok: "ultra_ok w" and res: "DisableUltra w = (r, w')"
  shows "r = Inr () \<and> Ultra w' = None \<and> leafPanes (Root w') = ultraPanes w \<and>
    (\<exists>a. ActivePane w' = Some a \<and> a \<in> set (leafPanes (Root w'))) \<and> ActivePane w' = ActivePane w"
proof -
  obtain u where u: "ultra_table_ok w u" "Ultra w = Some u" "LeadPaneID w = 0 \<longleftrightarrow> ultraLead w = None"
    using ultra_okD [OF ok] by metis
  have lead: "leadPane w = ultraLead w" using u by (auto simp: leadPane_def)
  note up = ultraPanes_lead [OF u(2,3)]
  obtain a where a: "ActivePane w = Some a" "a \<in> set (ultraPanes w)" using ok by (auto simp: ultra_ok_def ultra_table_ok_def)
  define root where "root = (case ultraLead w of
      None \<Rightarrow> buildGridTree (map Some (slotPanes u)) (Cols u) 0 0 (Width w) (Height w)
    | Some q \<Rightarrow> if slotPanes u = [] then NewLeaf (Some q) 0 0 (Width w) (Height w)
        else let leadW0 = max 20 (go_div (Width w) 3); cap = go_div (Width w * 4) 5;
                 leadW = (if leadW0 > cap then cap else leadW0); rightW = Width w - leadW - 1
             in Node (mkRect 0 0 (Width w) (Height w)) SplitVertical
                  [NewLeaf (Some q) 0 0 leadW (Height w), buildGridTree (map Some (slotPanes u)) (Cols u) (leadW + 1) 0 rightW (Height w)])"
  have "ultraPanes w \<noteq> []" using a(2) by auto
  then have leaves: "leafPanes root = ultraPanes w"
    using up by (auto simp: root_def Let_def leafPanes_buildGridTree NewLeaf_def split: option.splits)
  then have "FindPane (pane_ID a) (FixOffsets root) \<noteq> None" using a(2) by (simp add: FindPane_None)
  then have "DisableUltra w = ok () (resizePTYs (w\<lparr>Ultra := None, Root := FixOffsets root\<rparr>))"
    using u(2) a up lead unfolding DisableUltra_def by (auto simp: root_def [symmetric] Let_def split: option.splits)
  then show ?thesis using res leaves a by auto
qed

section \<open>Turning pages\<close>

lemma go_mod_wrap: "0 < n \<Longrightarrow> go_mod (go_mod a n + n) n = a mod n"
proof -
  assume n: "0 < n"
  then have "0 \<le> go_mod a n + n" using go_mod_bound [of n a] by linarith
  moreover have "go_mod a n mod n = a mod n" unfolding go_mod_def by (metis mod_mult_self1 diff_conv_add_uminus mult_minus_left)
  ultimately show ?thesis using n by simp
qed

lemma UltraStepPage_mod:
  assumes "ultra_ok w" "Ultra w = Some u"
  shows "\<exists>w'. UltraStepPage d w = (Inr (), w') \<and> ultra_ok w' \<and> Ultra w' = Some (u\<lparr>Page := (Page u + d) mod PageCount u\<rparr>)"
proof -
  let ?n = "(Page u + d) mod PageCount u"
  have pc: "0 < PageCount u" using PageCount_pos [of u] by simp
  then have r: "0 \<le> ?n" "?n < PageCount u" by simp_all
  obtain w1 where w1: "unzoomIf True w = (Inr (), w1)" "Ultra w1 = Ultra w" using ultra_unzoomIf [OF assms(1), of True] by metis
  have "clampPage (u\<lparr>Page := ?n\<rparr>) = u\<lparr>Page := ?n\<rparr>" using r by (intro clampPage_id) simp_all
  then have "\<exists>w'. UltraStepPage d w = (Inr (), w') \<and> Ultra w' = Some (u\<lparr>Page := ?n\<rparr>)"
    using assms(2) w1 r by (auto simp: UltraStepPage_def UltraSetPage_def go_mod_wrap [OF pc] rebuildUltraTree_fields)
  then show ?thesis using UltraStepPage_kept [OF assms(1), of d] by (auto simp: ultra_kept_def)
qed

section \<open>The state machine\<close>

datatype ultra_op =
    UltraSplit uint32 SplitDir pane SplitOptions
  | UltraSplitRoot SplitDir pane SplitOptions
  | UltraClosePane uint32
  | UltraReplace uint32 pane
  | UltraLead uint32
  | UltraNoLead
  | UltraSwapPanes uint32 uint32
  | UltraFocus string
  | UltraFocusPane pane
  | UltraZoom uint32
  | UltraUnzoom
  | UltraPage int
  | UltraStep int
  | UltraPromotePane uint32 "(uint32 \<Rightarrow> bool) option"
  | UltraRegrid int int bool
  | UltraResize int int

fun perform_ultra :: "ultra_op \<Rightarrow> window \<Rightarrow> window" where
  "perform_ultra (UltraSplit i dir p opts) w = snd (SplitPaneWithOptions i dir p opts w)"
| "perform_ultra (UltraSplitRoot dir p opts) w = snd (SplitRootWithOptions dir p opts w)"
| "perform_ultra (UltraClosePane i) w = snd (ClosePane i w)"
| "perform_ultra (UltraReplace i p) w = snd (ReplacePane i p w)"
| "perform_ultra (UltraLead i) w = snd (SetLead i w)"
| "perform_ultra UltraNoLead w = snd (UnsetLead w)"
| "perform_ultra (UltraSwapPanes i j) w = snd (SwapPanes i j w)"
| "perform_ultra (UltraFocus direction) w = snd (Focus direction w)"
| "perform_ultra (UltraFocusPane p) w = FocusPane p w"
| "perform_ultra (UltraZoom i) w = snd (Zoom i w)"
| "perform_ultra UltraUnzoom w = snd (Unzoom w)"
| "perform_ultra (UltraPage n) w = snd (UltraSetPage n w)"
| "perform_ultra (UltraStep n) w = snd (UltraStepPage n w)"
| "perform_ultra (UltraPromotePane i busy) w = snd (UltraPromote i busy w)"
| "perform_ultra (UltraRegrid rows cols auto) w = snd (EnableUltra rows cols auto w)"
| "perform_ultra (UltraResize width height) w = Window_Resize width height w"

text \<open>The callers add panes with IDs of their own and focus panes of the window; no pane has ID 0.\<close>

fun allowed_ultra :: "window \<Rightarrow> ultra_op \<Rightarrow> bool" where
  "allowed_ultra w (UltraSplit i dir p opts) \<longleftrightarrow> ultra_fresh p w"
| "allowed_ultra w (UltraSplitRoot dir p opts) \<longleftrightarrow> ultra_fresh p w"
| "allowed_ultra w (UltraClosePane i) \<longleftrightarrow> i \<noteq> 0"
| "allowed_ultra w (UltraReplace i p) \<longleftrightarrow> i \<noteq> 0 \<and> ultra_fresh p w"
| "allowed_ultra w (UltraFocusPane p) \<longleftrightarrow> p \<in> set (ultraPanes w)"
| "allowed_ultra w a \<longleftrightarrow> True"

text \<open>The windows the grid starts from: a window in split layout, and a valid grid.\<close>

definition enabled_ultra :: "window \<Rightarrow> bool" where
  "enabled_ultra w \<longleftrightarrow> (\<exists>w0 rows cols auto. window_ok w0 \<and> ValidateUltraGrid rows cols \<and> EnableUltra rows cols auto w0 = (Inr (), w))"

fun changes_ultra_panes :: "ultra_op \<Rightarrow> bool" where
  "changes_ultra_panes (UltraSplit i dir p opts) \<longleftrightarrow> True"
| "changes_ultra_panes (UltraSplitRoot dir p opts) \<longleftrightarrow> True"
| "changes_ultra_panes (UltraClosePane i) \<longleftrightarrow> True"
| "changes_ultra_panes (UltraReplace i p) \<longleftrightarrow> True"
| "changes_ultra_panes a \<longleftrightarrow> False"

lemma EnableUltra_kept:
  "ultra_ok w \<Longrightarrow> ultra_kept (mset (ultraPanes w)) (snd (EnableUltra rows cols auto w))"
  by (cases "ValidateUltraGrid rows cols") (metis EnableUltra_regrids prod.collapse, simp add: EnableUltra_def)

lemma perform_ultra_kept:
  "ultra_ok w \<Longrightarrow> allowed_ultra w a \<Longrightarrow> \<not> changes_ultra_panes a \<Longrightarrow> ultra_kept (mset (ultraPanes w)) (perform_ultra a w)"
  by (cases a) (simp_all add: ultra_SetLead ultra_UnsetLead ultra_SwapPanes ultra_Focus ultra_FocusPane ultra_Zoom
      ultra_Unzoom UltraSetPage_kept UltraStepPage_kept UltraPromote_kept EnableUltra_kept ultra_Resize)

lemma perform_ultra_ok: "ultra_ok w \<Longrightarrow> allowed_ultra w a \<Longrightarrow> ultra_ok (perform_ultra a w)"
proof (cases "changes_ultra_panes a")
  case True
  assume w: "ultra_ok w" and a: "allowed_ultra w a"
  have "ultra_ok (snd (ClosePane i w))" if "i \<noteq> 0" for i
    using ultraClose_kept [OF w that] ultra_Ultra [OF w] unfolding ClosePane_def
    by (cases "ultraClose i w") (fastforce simp: ultra_kept_def split: sum.splits)
  moreover have "ultra_ok (snd (ReplacePane i p w))" if "i \<noteq> 0" "ultra_fresh p w" for i p
    using ultra_ReplacePane [OF w that(2,1)] w by (cases "ReplacePane i p w") (fastforce simp: ultra_kept_def split: sum.splits)
  ultimately show ?thesis using True a ultra_SplitPane [OF w] by (auto simp: ultra_kept_def elim!: changes_ultra_panes.elims)
next
  case False
  then show "ultra_ok w \<Longrightarrow> allowed_ultra w a \<Longrightarrow> ?thesis" using perform_ultra_kept by (simp add: ultra_kept_def)
qed

interpretation ultra_window: invariant_system enabled_ultra allowed_ultra perform_ultra ultra_ok
  by unfold_locales (auto simp: enabled_ultra_def ultra_kept_def dest: EnableUltra_enters intro: perform_ultra_ok)

end
