(* ===== verification/Snapshot.thy ===== *)
theory Snapshot
  imports Ultra_Steps
begin

text \<open>
  Snapshots of a window (\<^verbatim>\<open>snapshot.go\<close>, the types of \<^verbatim>\<open>proto\<close>): what the server sends to its clients
  and writes to a checkpoint, and how a window is rebuilt from it after a restart. Pane objects are
  looked up by ID in a map the caller provides. Of a pane's snapshot the model has the identity and
  what the layout adds to it; the descriptive fields (task, colour, branch, tracked items) are
  copied through and left out.
\<close>

section \<open>Cells\<close>

datatype CellSnapshot =
  CellSnapshot (csRect: rect) (csIsLeaf: bool) (csDir: int) (csPaneID: uint32) (csSlot: int) (csLeadSlot: bool)
    (csChildren: "CellSnapshot list")

fun dirInt :: "SplitDir \<Rightarrow> int" where
  "dirInt SplitVertical = 0"
| "dirInt SplitHorizontal = 1"

fun snapshotCell :: "LayoutCell \<Rightarrow> CellSnapshot" where
  "snapshotCell (Leaf r l) =
     CellSnapshot r True (- 1) (case Pane l of Some p \<Rightarrow> pane_ID p | None \<Rightarrow> 0) (Slot l) (LeadSlot l) []"
| "snapshotCell (Node r d cs) = CellSnapshot r False (dirInt d) 0 0 False (map snapshotCell cs)"

text \<open>
  Rebuilding a tree, for the client (leaves know only the pane's ID) and for the server (leaves get
  the pane object). The trees of the model have no leaf with children and no third direction: a
  snapshot that has them does not come from \<open>snapshotCell\<close>.
\<close>

definition dirOf :: "int \<Rightarrow> SplitDir" where
  "dirOf n = (if n = 0 then SplitVertical else SplitHorizontal)"

fun RebuildLayout :: "CellSnapshot \<Rightarrow> LayoutCell" where
  "RebuildLayout (CellSnapshot r isLeaf dir paneID slot leadSlot children) =
     (if isLeaf then Leaf r \<lparr>Pane = None, PaneID = paneID, Slot = slot, LeadSlot = leadSlot\<rparr>
      else Node r (dirOf dir) (map RebuildLayout children))"

fun rebuildCellWithPanes :: "(uint32 \<rightharpoonup> pane) \<Rightarrow> CellSnapshot \<Rightarrow> LayoutCell" where
  "rebuildCellWithPanes paneMap (CellSnapshot r isLeaf dir paneID slot leadSlot children) =
     (if isLeaf then Leaf r \<lparr>Pane = paneMap paneID, PaneID = paneID, Slot = slot, LeadSlot = leadSlot\<rparr>
      else Node r (dirOf dir) (map (rebuildCellWithPanes paneMap) children))"

section \<open>Windows\<close>

record UltraSnapshot =
  us_Rows :: int
  us_Cols :: int
  us_Page :: int
  us_Pages :: int
  us_Slots :: "uint32 list"
  us_AutoPromote :: bool

record PaneSnapshot =
  ps_ID :: uint32
  ps_Name :: string
  ps_Host :: string
  ps_ColumnIndex :: int
  ps_Lead :: bool
  ps_Slot :: int
  ps_Hidden :: bool

record WindowSnapshot =
  ws_ID :: uint32
  ws_Name :: string
  ws_Index :: int
  ws_ActivePaneID :: uint32
  ws_Zoomed :: bool
  ws_ZoomedPaneID :: uint32
  ws_LeadPaneID :: uint32
  ws_Root :: CellSnapshot
  ws_Panes :: "PaneSnapshot list"
  ws_Ultra :: "UltraSnapshot option"

record LayoutSnapshot =
  ls_SessionName :: string
  ls_Width :: int
  ls_Height :: int
  ls_ActivePaneID :: uint32
  ls_ZoomedPaneID :: uint32
  ls_LeadPaneID :: uint32
  ls_Root :: CellSnapshot
  ls_Panes :: "PaneSnapshot list"
  ls_Ultra :: "UltraSnapshot option"

definition snapshotUltra :: "window \<Rightarrow> UltraSnapshot option" where
  "snapshotUltra w =
     map_option (\<lambda>u. \<lparr>us_Rows = Rows u, us_Cols = Cols u, us_Page = Page u, us_Pages = PageCount u,
       us_Slots = SlotIDs u, us_AutoPromote = AutoPromote u\<rparr>) (Ultra w)"

definition ToSnapshot :: "pane \<Rightarrow> PaneSnapshot" where
  "ToSnapshot p = \<lparr>ps_ID = pane_ID p, ps_Name = pane_Name p, ps_Host = pane_Host p, ps_ColumnIndex = 0,
     ps_Lead = False, ps_Slot = 0, ps_Hidden = False\<rparr>"

definition snapshotPane :: "window \<Rightarrow> pane \<Rightarrow> PaneSnapshot" where
  "snapshotPane w p =
     (let s1 = (case fst (ColumnIndexForPaneID (pane_ID p) w) of
                  Inr n \<Rightarrow> (ToSnapshot p)\<lparr>ps_ColumnIndex := int n\<rparr> | Inl e \<Rightarrow> ToSnapshot p);
          s2 = (if LeadPaneID w \<noteq> 0 \<and> pane_ID p = LeadPaneID w then s1\<lparr>ps_Lead := True\<rparr> else s1)
      in case Ultra w of
           None \<Rightarrow> s2
         | Some u \<Rightarrow>
             (case SlotOf u (pane_ID p) of
                Some idx \<Rightarrow> s2\<lparr>ps_Slot := int idx + 1, ps_Hidden := \<not> ultraVisible (pane_ID p) w\<rparr>
              | None \<Rightarrow> s2))"

definition snapshotCore :: "window \<Rightarrow> CellSnapshot \<times> PaneSnapshot list \<times> uint32 \<times> uint32 \<times> uint32" where
  "snapshotCore w =
     (snapshotCell (Root w), map (snapshotPane w) (Panes w),
      (case ActivePane w of Some p \<Rightarrow> pane_ID p | None \<Rightarrow> 0), ZoomedPaneID w, LeadPaneID w)"

definition SnapshotLayout :: "string \<Rightarrow> window \<Rightarrow> LayoutSnapshot" where
  "SnapshotLayout sessionName w =
     (case snapshotCore w of (root, panes, active, zoomed, lead) \<Rightarrow>
        \<lparr>ls_SessionName = sessionName, ls_Width = Width w, ls_Height = Height w, ls_ActivePaneID = active,
         ls_ZoomedPaneID = zoomed, ls_LeadPaneID = lead, ls_Root = root, ls_Panes = panes,
         ls_Ultra = snapshotUltra w\<rparr>)"

definition SnapshotWindow :: "int \<Rightarrow> window \<Rightarrow> WindowSnapshot" where
  "SnapshotWindow index w =
     (case snapshotCore w of (root, panes, active, zoomed, lead) \<Rightarrow>
        \<lparr>ws_ID = win_ID w, ws_Name = win_Name w, ws_Index = index, ws_ActivePaneID = active,
         ws_Zoomed = (zoomed \<noteq> 0), ws_ZoomedPaneID = zoomed, ws_LeadPaneID = lead,
         ws_Root = root, ws_Panes = panes, ws_Ultra = snapshotUltra w\<rparr>)"

section \<open>Restoring\<close>

definition restoreUltra :: "UltraSnapshot option \<Rightarrow> (uint32 \<rightharpoonup> pane) \<Rightarrow> window \<Rightarrow> window" where
  "restoreUltra us0 paneMap w =
     (case us0 of
        None \<Rightarrow> w
      | Some us \<Rightarrow>
          if \<not> ValidateUltraGrid (us_Rows us) (us_Cols us) then w
          else let
            slots = map (\<lambda>i. if i \<noteq> 0 then paneMap i else None) (us_Slots us);
            u = \<lparr>Rows = us_Rows us, Cols = us_Cols us, Page = us_Page us, Slots = slots, AutoPromote = us_AutoPromote us\<rparr>;
            seen1 = {i \<in> set (us_Slots us). i \<noteq> 0 \<and> paneMap i \<noteq> None};
            w1 = w\<lparr>ultraLead := None\<rparr>;
            (w2, seen) =
              (if LeadPaneID w1 \<noteq> 0 then
                 (case paneMap (LeadPaneID w1) of
                    Some p \<Rightarrow> (w1\<lparr>ultraLead := Some p\<rparr>, insert (LeadPaneID w1) seen1)
                  | None \<Rightarrow> (w1\<lparr>LeadPaneID := 0\<rparr>, seen1))
               else (w1, seen1));
            u2 = fold (\<lambda>p u. if pane_ID p \<notin> seen then fst (ultra_insert p u) else u) (Panes w2) u
          in rebuildUltraTree (w2\<lparr>Ultra := Some (trimEmptyPages u2)\<rparr>))"

text \<open>
  The window under construction has the terminals and the counters of the running server, given by
  \<open>w0\<close>. The first function, for single-window checkpoints, falls back on any pane of the map when
  the active one is unknown: \<open>anyPane\<close> is the pane Go's map iteration yields first.
\<close>

definition RebuildFromSnapshot ::
  "LayoutSnapshot \<Rightarrow> (uint32 \<rightharpoonup> pane) \<Rightarrow> ((uint32 \<rightharpoonup> pane) \<Rightarrow> pane option) \<Rightarrow> window \<Rightarrow> window" where
  "RebuildFromSnapshot snap paneMap anyPane w0 =
     (let root = rebuildCellWithPanes paneMap (ls_Root snap);
          activePane = (case paneMap (ls_ActivePaneID snap) of Some p \<Rightarrow> Some p | None \<Rightarrow> anyPane paneMap)
      in restoreUltra (ls_Ultra snap) paneMap
           (w0\<lparr>win_ID := 0, win_Name := [], Root := root, ActivePane := activePane, Width := ls_Width snap,
              Height := ls_Height snap, ZoomedPaneID := ls_ZoomedPaneID snap, LeadPaneID := ls_LeadPaneID snap,
              Ultra := None, ultraLead := None\<rparr>))"

definition RebuildWindowFromSnapshot :: "WindowSnapshot \<Rightarrow> int \<Rightarrow> int \<Rightarrow> (uint32 \<rightharpoonup> pane) \<Rightarrow> window \<Rightarrow> window" where
  "RebuildWindowFromSnapshot ws width height paneMap w0 =
     (let root = rebuildCellWithPanes paneMap (ws_Root ws);
          activePane = (case paneMap (ws_ActivePaneID ws) of Some p \<Rightarrow> Some p | None \<Rightarrow> firstPaneInSubtree root);
          (winW, winH) = (if cW root \<le> 0 \<or> cH root \<le> 0 then (width, height) else (cW root, cH root))
      in restoreUltra (ws_Ultra ws) paneMap
           (w0\<lparr>win_ID := ws_ID ws, win_Name := ws_Name ws, Root := root, ActivePane := activePane, Width := winW,
              Height := winH, ZoomedPaneID := ws_ZoomedPaneID ws, LeadPaneID := ws_LeadPaneID ws,
              Ultra := None, ultraLead := None\<rparr>))"

section \<open>What a round trip keeps\<close>

text \<open>A restored leaf also carries the ID of its pane.\<close>

fun withPaneIDs :: "LayoutCell \<Rightarrow> LayoutCell" where
  "withPaneIDs (Leaf r l) = Leaf r (l\<lparr>PaneID := (case Pane l of Some p \<Rightarrow> pane_ID p | None \<Rightarrow> 0)\<rparr>)"
| "withPaneIDs (Node r d cs) = Node r d (map withPaneIDs cs)"

definition knows :: "(uint32 \<rightharpoonup> pane) \<Rightarrow> pane list \<Rightarrow> bool" where
  "knows paneMap ps \<longleftrightarrow> (\<forall>p \<in> set ps. paneMap (pane_ID p) = Some p) \<and> paneMap 0 = None"

lemma rebuild_snapshotCell: "knows paneMap (leafPanes c) \<Longrightarrow> rebuildCellWithPanes paneMap (snapshotCell c) = withPaneIDs c"
proof (induction c)
  case (Leaf r l)
  then show ?case by (auto simp: knows_def split: option.splits)
next
  case (Node r d cs)
  then have "rebuildCellWithPanes paneMap (snapshotCell c) = withPaneIDs c" if "c \<in> set cs" for c
    using that by (auto simp: knows_def)
  then show ?case by (cases d) (simp_all add: dirOf_def)
qed

lemma leafPanes_withPaneIDs [simp]: "leafPanes (withPaneIDs c) = leafPanes c"
proof (induction c)
  case (Node r d cs)
  then show ?case by (simp add: o_def cong: map_cong)
qed (simp split: option.splits)

lemma rectOf_withPaneIDs [simp]: "rectOf (withPaneIDs c) = rectOf c"
  by (cases c) simp_all

text \<open>Geometry is kept, cell by cell.\<close>

lemma Walk_withPaneIDs: "Walk (withPaneIDs c) = map withPaneIDs (Walk c)"
  by (induction c) (simp_all add: map_concat o_def cong: map_cong)

lemma axisSize_withPaneIDs [simp]: "axisSize d (withPaneIDs c) = axisSize d c"
  by (simp add: axisSize_def)

lemma sized_withPaneIDs [simp]: "sized (withPaneIDs c) = sized c"
proof (induction c)
  case (Node r d cs)
  then show ?case by (auto simp: o_def)
qed simp

lemma placed_withPaneIDs [simp]:
  "placed (withPaneIDs c) = placed c" "placedKids d x y (map withPaneIDs cs) = placedKids d x y cs"
  by (induction c and d x y cs rule: placed_placedKids.induct) simp_all

lemma cellPane_withPaneIDs [simp]: "cellPane (withPaneIDs c) = cellPane c"
  by (cases c) simp_all

lemma occupied_withPaneIDs [simp]: "occupied (withPaneIDs c) = occupied c"
  by (induction c) auto

lemma RebuildLayout_Walk:
  "map (\<lambda>l. (rectOf l, CellPaneID l)) (Walk (RebuildLayout (snapshotCell c))) =
   map (\<lambda>l. (rectOf l, case cellPane l of Some p \<Rightarrow> pane_ID p | None \<Rightarrow> 0)) (Walk c)"
proof (induction c)
  case (Node r d cs)
  then show ?case by (simp add: map_concat o_def cong: map_cong)
qed simp

lemma knows_cong: "set ps \<subseteq> set qs \<Longrightarrow> knows m qs \<Longrightarrow> knows m ps"
  by (auto simp: knows_def)

text \<open>A window in split layout.\<close>

lemma restore_split:
  assumes ok: "window_ok w" and m: "knows paneMap (leafPanes (Root w))" and h: "heap w0 = heap w" "\<forall>n. \<not> setsizeFails w0 n"
    and w': "w' = RebuildWindowFromSnapshot (SnapshotWindow index w) width height paneMap w0"
  shows "Root w' = withPaneIDs (Root w) \<and> ActivePane w' = ActivePane w \<and> Width w' = Width w \<and> Height w' = Height w \<and>
    ZoomedPaneID w' = ZoomedPaneID w \<and> win_ID w' = win_ID w \<and> win_Name w' = win_Name w \<and> window_ok w'"
proof -
  have mode: "Ultra w = None" "LeadPaneID w = 0" using ok by (auto simp: window_ok_defs)
  obtain a where a: "ActivePane w = Some a" "a \<in> set (leafPanes (Root w))" using ok by (auto simp: window_ok_defs)
  have r: "rectOf (Root w) = mkRect 0 0 (Width w) (Height w)" "0 < Width w" "0 < Height w" using ok window_dims [OF ok] by (auto simp: window_ok_defs)
  have "paneMap (pane_ID a) = Some a" using m a(2) by (simp add: knows_def)
  then have w'_eq: "w' = w0\<lparr>win_ID := win_ID w, win_Name := win_Name w, Root := withPaneIDs (Root w), ActivePane := Some a, Width := Width w,
      Height := Height w, ZoomedPaneID := ZoomedPaneID w, LeadPaneID := 0, Ultra := None, ultraLead := None\<rparr>"
    using a(1) mode r unfolding w' RebuildWindowFromSnapshot_def SnapshotWindow_def snapshotCore_def snapshotUltra_def restoreUltra_def
    by (simp add: rebuild_snapshotCell [OF m] mkRect_def)
  have "window_ok w'"
    using ok a h unfolding w'_eq window_ok_def
    by (auto simp: layout_ok_def panes_ok_def active_ok_def zoom_ok_def mode_ok_def terminals_ok_def leafSize_def Walk_withPaneIDs)
  then show ?thesis unfolding w'_eq using a by simp
qed

text \<open>A window in ultra layout: the table of slots is restored, without empty pages at its end.\<close>

lemma SlotIDs_restored:
  assumes "knows paneMap (slotPanes u)" "0 \<notin> pane_ID ` set (slotPanes u)"
  shows "map (\<lambda>i. if i \<noteq> 0 then paneMap i else None) (SlotIDs u) = Slots u"
proof -
  have "(if i \<noteq> 0 then paneMap i else None) = s" if "s \<in> set (Slots u)" "i = (case s of Some p \<Rightarrow> pane_ID p | None \<Rightarrow> 0)" for s i
  proof (cases s)
    case (Some p)
    then have "p \<in> set (slotPanes u)" using that(1) by (simp add: set_present)
    then show ?thesis using that assms Some by (auto simp: knows_def image_iff)
  qed (use that in simp)
  then show ?thesis unfolding SlotIDs_def by (simp add: o_def map_idI)
qed

lemma fold_unchanged: "(\<And>x. x \<in> set xs \<Longrightarrow> \<not> P x) \<Longrightarrow> fold (\<lambda>x u. if P x then f x u else u) xs u = u"
  by (induction xs) auto

lemma clampPage_trimEmptyPages [simp]: "clampPage (trimEmptyPages u) = trimEmptyPages u"
proof -
  let ?v = "u\<lparr>Slots := trimSlots (AgentSlotsPerPage u) (Slots u)\<rparr>"
  have "clampPage (clampPage ?v) = clampPage ?v" using clampPage_range [of ?v] by (intro clampPage_id) simp_all
  then show ?thesis by (simp add: trimEmptyPages_def)
qed

text \<open>Every pane of the tree was found in a slot or is the lead, so no pane is inserted anew.\<close>

lemma restoreUltra_known:
  assumes t: "ultra_table_ok v u" and m: "knows paneMap (ultraPanes v)"
    and w: "LeadPaneID w = LeadPaneID v" "Ultra w = None" "set (leafPanes (Root w)) \<subseteq> set (ultraPanes v)"
  shows "restoreUltra (snapshotUltra v) paneMap w = rebuildUltraTree (w\<lparr>ultraLead := ultraLead v, Ultra := Some (trimEmptyPages u)\<rparr>)"
proof -
  have tf: "Ultra v = Some u" "ValidateUltraGrid (Rows u) (Cols u)" "LeadPaneID v = 0 \<longleftrightarrow> ultraLead v = None"
    "\<And>p. ultraLead v = Some p \<Longrightarrow> pane_ID p = LeadPaneID v" "0 \<notin> pane_ID ` set (ultraPanes v)" using t by (auto simp: ultra_table_ok_def)
  note up = ultraPanes_eq [OF t]
  have slots: "map (\<lambda>i. if i \<noteq> 0 then paneMap i else None) (SlotIDs u) = Slots u"
    using m tf(5) by (intro SlotIDs_restored) (auto simp: up knows_def)
  have u: "\<lparr>Rows = Rows u, Cols = Cols u, Page = Page u, Slots = Slots u, AutoPromote = AutoPromote u\<rparr> = u" by simp
  have agent: "pane_ID p \<in> {i \<in> set (SlotIDs u). i \<noteq> 0 \<and> paneMap i \<noteq> None}" if "p \<in> set (slotPanes u)" for p
  proof -
    have "Some p \<in> set (Slots u)" using that by (simp add: set_present)
    then have "pane_ID p \<in> set (SlotIDs u)" unfolding SlotIDs_def by (force simp: image_iff)
    then show ?thesis using that m tf(5) by (auto simp: up knows_def image_iff)
  qed
  show ?thesis
  proof (cases "ultraLead v")
    case None
    have "pane_ID p \<in> {i \<in> set (SlotIDs u). i \<noteq> 0 \<and> paneMap i \<noteq> None}" if "p \<in> set (leafPanes (Root w))" for p
      using that w(3) agent by (auto simp: up None)
    then show ?thesis using None tf w(1,2) slots
      by (simp add: restoreUltra_def snapshotUltra_def Let_def Panes_def fold_unchanged u)
  next
    case (Some q)
    then have lead: "paneMap (LeadPaneID v) = Some q" "pane_ID q = LeadPaneID v" "LeadPaneID v \<noteq> 0" using m tf by (auto simp: up knows_def)
    have "pane_ID p \<in> insert (LeadPaneID v) {i \<in> set (SlotIDs u). i \<noteq> 0 \<and> paneMap i \<noteq> None}" if "p \<in> set (leafPanes (Root w))" for p
      using that w(3) agent lead(2) by (auto simp: up Some)
    then show ?thesis using Some tf lead w(1,2) slots
      by (simp add: restoreUltra_def snapshotUltra_def Let_def Panes_def fold_unchanged u)
  qed
qed

lemma restore_ultra:
  assumes ok: "ultra_ok w" and u: "Ultra w = Some u" and m: "knows paneMap (ultraPanes w)" and h: "\<forall>n. \<not> setsizeFails w0 n"
    and root: "0 < cW (Root w)" "0 < cH (Root w)"
    and w': "w' = RebuildWindowFromSnapshot (SnapshotWindow index w) width height paneMap w0"
  shows "ultra_ok w' \<and> Ultra w' = Some (trimEmptyPages u) \<and> ultraPanes w' = ultraPanes w \<and> LeadPaneID w' = LeadPaneID w \<and>
    ultraLead w' = ultraLead w \<and> ZoomedPaneID w' = ZoomedPaneID w \<and>
    (\<forall>a. ActivePane w = Some a \<and> ultraVisible (pane_ID a) (w\<lparr>Ultra := Some (trimEmptyPages u)\<rparr>) \<longrightarrow> ActivePane w' = Some a)"
proof -
  obtain t: "ultra_table_ok w u" and rt: "Root w = ultraTree w u" and page: "0 \<le> Page u" using ultra_okD [OF ok] u by (metis option.inject)
  have tf: "ValidateUltraGrid (Rows u) (Cols u)" "LeadPaneID w = 0 \<longleftrightarrow> ultraLead w = None"
    "\<And>p. ultraLead w = Some p \<Longrightarrow> pane_ID p = LeadPaneID w" "0 \<notin> pane_ID ` set (ultraPanes w)" using t by (auto simp: ultra_table_ok_def)
  note up = ultraPanes_eq [OF t]
  obtain a where a: "ActivePane w = Some a" "a \<in> set (ultraPanes w)" using ok t by (auto simp: ultra_ok_def ultra_table_ok_def)
  have leaves: "set (leafPanes (Root w)) \<subseteq> set (ultraPanes w)" using ultraTree_shows [OF t page] rt by auto
  note rc = rebuild_snapshotCell [OF knows_cong [OF leaves m]]
  define w1 where "w1 = w0\<lparr>win_ID := win_ID w, win_Name := win_Name w, Root := withPaneIDs (Root w), ActivePane := Some a,
    Width := cW (Root w), Height := cH (Root w), ZoomedPaneID := ZoomedPaneID w, LeadPaneID := LeadPaneID w, Ultra := None, ultraLead := None\<rparr>"
  let ?u = "trimEmptyPages u"
  let ?w = "w1\<lparr>ultraLead := ultraLead w, Ultra := Some ?u\<rparr>"
  have "w' = restoreUltra (snapshotUltra w) paneMap w1"
    using a(1) root m a(2) unfolding w' RebuildWindowFromSnapshot_def SnapshotWindow_def snapshotCore_def w1_def by (simp add: rc knows_def)
  also have "\<dots> = rebuildUltraTree ?w" using leaves by (intro restoreUltra_known [OF t m]) (simp_all add: w1_def)
  finally have w'_eq: "w' = rebuildUltraTree ?w" .
  have upw: "ultraPanes ?w = ultraPanes w" using ultraPanes_lead [of ?w ?u] tf(2) by (simp add: up w1_def)
  have t': "ultra_table_ok ?w ?u" using t a h unfolding ultra_table_ok_def upw by (auto simp: w1_def)
  have act: "ActivePane w' = Some a" if "ultraVisible (pane_ID a) (w\<lparr>Ultra := Some ?u\<rparr>)"
    using rebuild_ok(3) [OF t', of a] that unfolding w'_eq by (simp add: w1_def ultraVisible_def)
  have f: "Ultra ?w = Some ?u" by simp
  show ?thesis using rebuild_ok(1,2) [OF t'] rebuildUltraTree_fields [OF f] upw act a(1) unfolding w'_eq by (simp add: w1_def)
qed

end
