(* ===== verification/Ultra_Properties.thy ===== *)
theory Ultra_Properties
  imports Ultra_Steps Sample_Window
begin

text \<open>
  What the ultra layout promises its user, stated on the window's operations, and a concrete
  window the statements are applied to.
\<close>

definition demo_ultra :: window where
  "demo_ultra = snd (EnableUltra 1 2 True demo_window)"

lemma demo_ultra_enabled:
  "enabled_ultra demo_ultra" "ultra_kept (mset [demo_pane 1, demo_pane 2, demo_pane 3]) demo_ultra"
  "\<exists>n. Ultra demo_ultra = Some \<lparr>Rows = 1, Cols = 2, Page = n, Slots = map Some [demo_pane 1, demo_pane 2, demo_pane 3], AutoPromote = True\<rparr>"
  "LeadPaneID demo_ultra = 0"
proof -
  have v: "ValidateUltraGrid 1 2" by code_simp
  have so: "sort_key pane_ID [demo_pane 1, demo_pane 2, demo_pane 3] = [demo_pane 1, demo_pane 2, demo_pane 3]" by (simp add: demo_pane_def word_le_nat_alt)
  note e = EnableUltra_enters [OF demo_window_ok v, of True "fst (EnableUltra 1 2 True demo_window)" demo_ultra, unfolded demo_window_panes so]
  have "EnableUltra 1 2 True demo_window = (Inr (), demo_ultra)" using e by (simp add: demo_ultra_def prod_eq_iff)
  then show "enabled_ultra demo_ultra" unfolding enabled_ultra_def using demo_window_ok v by blast
  show "ultra_kept (mset [demo_pane 1, demo_pane 2, demo_pane 3]) demo_ultra" "LeadPaneID demo_ultra = 0"
    "\<exists>n. Ultra demo_ultra = Some \<lparr>Rows = 1, Cols = 2, Page = n, Slots = map Some [demo_pane 1, demo_pane 2, demo_pane 3], AutoPromote = True\<rparr>"
    using e by (simp_all add: demo_ultra_def prod_eq_iff)
qed

lemma demo_ultra_ok: "ultra_ok demo_ultra"
  by (rule ultra_window.inv_init [OF demo_ultra_enabled(1)])

lemma demo_ultra_panes: "ultraPanes demo_ultra = [demo_pane 1, demo_pane 2, demo_pane 3]"
  using demo_ultra_enabled(3,4) by (auto simp: ultraPanes_def split: option.splits)

section \<open>Properties\<close>

text \<open>
  C3. After any sequence of the operations of \<open>ultra_op\<close>, from the moment the grid was enabled: the
  layout shows the lead and the panes on the visible page, all of them and no others; the page
  exists; no pane is in two places; and the focus is on a pane of the window, which is shown unless
  the layout shows no pane at all (an empty page without a lead, see \<open>empty_page_hides_focus\<close>).
\<close>

theorem reachable_ultra_ok:
  assumes "reachable enabled_ultra allowed_ultra perform_ultra w"
  shows "\<exists>u a. Ultra w = Some u \<and> 0 \<le> Page u \<and> Page u < PageCount u \<and> distinct (map pane_ID (ultraPanes w)) \<and>
    set (leafPanes (Root w)) = {p \<in> set (ultraPanes w). ultraVisible (pane_ID p) w} \<and>
    ActivePane w = Some a \<and> a \<in> set (ultraPanes w) \<and> (leafPanes (Root w) = [] \<or> a \<in> set (leafPanes (Root w)))"
proof -
  from ultra_window.inv_reachable [OF assms] obtain u where u: "ultra_table_ok w u" "Ultra w = Some u" "0 \<le> Page u" "Page u < PageCount u"
    "Root w = ultraTree w u" by (rule ultra_okD)
  moreover obtain a where "ActivePane w = Some a" "a \<in> set (leafPanes (Root w)) \<or> leafPanes (Root w) = []"
    using ultra_window.inv_reachable [OF assms] by (auto simp: ultra_ok_def)
  ultimately show ?thesis using ultraTree_shows [OF u(1,3)] by (auto simp: ultra_table_ok_def)
qed

theorem reachable_ultra_ok_witness:
  "\<exists>u. Ultra (perform_ultra (UltraStep 1) demo_ultra) = Some u \<and> 0 \<le> Page u \<and> Page u < PageCount u"
  using reachable_ultra_ok [OF reachable.step [where init = enabled_ultra, OF reachable.start, OF demo_ultra_enabled(1), of allowed_ultra "UltraStep 1"]] by auto

text \<open>
  Turning to an empty page, in a window without a lead, takes the focus off the screen: the layout shows no pane,
  and the focused pane is on a hidden page. (Closing a pane leaves such a page when later pages are
  in use, as in the window the theorem is applied to.)
\<close>

theorem empty_page_hides_focus:
  assumes ok: "ultra_ok w" and u: "Ultra w = Some u" and lead: "LeadPaneID w = 0"
    and page: "0 \<le> n" "n < PageCount u" "\<And>i. PageOfSlot u i = n \<Longrightarrow> slotAt u i = None"
  shows "\<exists>w' a. UltraSetPage n w = (Inr (), w') \<and> leafPanes (Root w') = [] \<and> ActivePane w' = Some a \<and> UltraPaneHidden (pane_ID a) w'"
proof -
  obtain w1 where w1: "unzoomIf True w = (Inr (), w1)" "Ultra w1 = Ultra w" "LeadPaneID w1 = LeadPaneID w"
    using ultra_unzoomIf [OF ok] by metis
  let ?u = "u\<lparr>Page := n\<rparr>"
  define w' where "w' = rebuildUltraTree (w1\<lparr>Ultra := Some ?u\<rparr>)"
  have set: "UltraSetPage n w = (Inr (), w')" using u w1 page(1,2) by (simp add: UltraSetPage_def w'_def)
  have "clampPage ?u = ?u" using page(1,2) by (intro clampPage_id) (simp_all add: PageCount_def AgentSlotsPerPage_def)
  then have w': "Ultra w' = Some ?u" "LeadPaneID w' = 0"
    using rebuildUltraTree_fields [of "w1\<lparr>Ultra := Some ?u\<rparr>" ?u] w1(3) lead by (simp_all add: w'_def)
  have ok': "ultra_ok w'" using UltraSetPage_kept [OF ok, of n] set by (simp add: ultra_kept_def)
  have hidden: "\<not> ultraVisible i w'" for i
    using page(3) w' slotIndex_Some [of i "Slots u"]
    by (fastforce simp: ultraVisible_def SlotOf_def slotAt_def PageOfSlot_def AgentSlotsPerPage_def split: option.splits)
  obtain a where a: "ActivePane w' = Some a" "a \<in> set (ultraPanes w')" and t: "ultra_table_ok w' ?u" "Root w' = ultraTree w' ?u"
    using ok' w'(1) by (auto simp: ultra_ok_def ultra_table_ok_def)
  have "leafPanes (Root w') = []" using ultraTree_shows [OF t(1)] t(2) page(1) hidden by simp
  moreover have "UltraPaneHidden (pane_ID a) w'"
    using a(2) w' hidden t(1) slotIndex_None [of "pane_ID a" "Slots u"]
    by (auto simp: UltraPaneHidden_def SlotOf_def ultraPanes_eq [OF t(1)] ultra_table_ok_def)
  ultimately show ?thesis using set a(1) by blast
qed

theorem empty_page_hides_focus_witness:
  "\<exists>w' a. UltraSetPage 1 (perform_ultra (UltraClosePane 2) demo_ultra) = (Inr (), w') \<and> leafPanes (Root w') = [] \<and>
     ActivePane w' = Some a \<and> UltraPaneHidden (pane_ID a) w'"
proof -
  let ?w = "perform_ultra (UltraClosePane 2) demo_ultra"
  have ok: "ultra_ok ?w" by (rule perform_ultra_ok [OF demo_ultra_ok]) simp
  obtain n where n: "Ultra demo_ultra = Some \<lparr>Rows = 1, Cols = 2, Page = n, Slots = map Some [demo_pane 1, demo_pane 2, demo_pane 3], AutoPromote = True\<rparr>"
    using demo_ultra_enabled(3) by blast
  let ?u = "\<lparr>Rows = 1, Cols = 2, Page = n, Slots = [Some (demo_pane 1), None, Some (demo_pane 3)], AutoPromote = True\<rparr>"
  have count: "PaneCount demo_ultra = 3" using demo_ultra_panes n by (simp add: PaneCount_def Panes_def)
  have "trimSlots 1 [Some (demo_pane 1), None, Some (demo_pane 3)] = [Some (demo_pane 1), None, Some (demo_pane 3)]"
    by (subst trimSlots.simps) simp
  then have trim: "trimEmptyPages ?u = clampPage ?u" by (simp add: trimEmptyPages_def AgentSlotsPerPage_def)
  have w: "Ultra ?w = Some (clampPage (clampPage ?u))" "LeadPaneID ?w = 0"
    using n count demo_ultra_enabled(4) trim
    by (auto simp: ClosePane_def ultraClose_def SlotOf_def demo_pane_def clearSlot_def Let_def rebuildUltraTree_fields)
  have pages: "1 < PageCount (clampPage (clampPage ?u))" by (simp add: PageCount_def AgentSlotsPerPage_def)
  have empty: "slotAt (clampPage (clampPage ?u)) i = None" if "PageOfSlot (clampPage (clampPage ?u)) i = 1" for i
    using that by (simp add: PageOfSlot_def slotAt_def AgentSlotsPerPage_def)
  show ?thesis by (rule empty_page_hides_focus [OF ok w _ pages empty]) simp_all
qed

text \<open>
  In ultra layout no operation but splitting, closing and replacing changes the panes of the
  window: turning pages, promoting, swapping, choosing a lead, zooming, regridding and resizing
  lose none and duplicate none.
\<close>

theorem ultra_operations_keep_panes:
  assumes "ultra_ok w" "allowed_ultra w a" "\<not> changes_ultra_panes a"
  shows "mset (ultraPanes (perform_ultra a w)) = mset (ultraPanes w)"
  using perform_ultra_kept [OF assms] by (simp add: ultra_kept_def)

theorem ultra_operations_keep_panes_witness:
  "mset (ultraPanes (perform_ultra (UltraLead 2) demo_ultra)) = mset [demo_pane 1, demo_pane 2, demo_pane 3]"
  using ultra_operations_keep_panes [OF demo_ultra_ok, of "UltraLead 2"] by (simp add: demo_ultra_panes)

text \<open>
  C22. A grid of the given size over a window in split layout without lead: every pane goes to a slot, none
  is lost, and the page of the focused pane is shown with its focus. The slots are filled by increasing pane
  ID, as the comment at the sort says; the comment of \<^verbatim>\<open>EnableUltra\<close>, that panes keep the order
  of the walk, is not true of the code: \<open>EnableUltra_reorders\<close>.
\<close>

theorem EnableUltra_correct:
  assumes "window_ok w" "ValidateUltraGrid rows cols"
  shows "\<exists>w' n. EnableUltra rows cols auto w = (Inr (), w') \<and> ActivePane w' = ActivePane w \<and>
    Ultra w' = Some \<lparr>Rows = rows, Cols = cols, Page = n, Slots = map Some (sort_key pane_ID (leafPanes (Root w))), AutoPromote = auto\<rparr> \<and>
    (\<exists>a \<in> set (leafPanes (Root w')). ActivePane w' = Some a)"
proof -
  obtain r w' where w': "EnableUltra rows cols auto w = (r, w')" by fastforce
  from EnableUltra_enters [OF assms w'] w' show ?thesis by blast
qed

theorem EnableUltra_correct_witness:
  "\<exists>w' n. EnableUltra 1 2 True demo_window = (Inr (), w') \<and>
     Ultra w' = Some \<lparr>Rows = 1, Cols = 2, Page = n, Slots = map Some [demo_pane 1, demo_pane 2, demo_pane 3], AutoPromote = True\<rparr>"
proof -
  have "ValidateUltraGrid 1 2" "sort_key pane_ID [demo_pane 1, demo_pane 2, demo_pane 3] = [demo_pane 1, demo_pane 2, demo_pane 3]"
    by (code_simp, simp add: demo_pane_def)
  then show ?thesis using EnableUltra_correct [OF demo_window_ok, of 1 2 True] unfolding demo_window_panes by auto
qed

text \<open>
  A window whose panes are out of order in the walk (after a rotation): the grid puts them in the
  order of their IDs.
\<close>

theorem EnableUltra_reorders:
  "let w = snd (RotatePanes True demo_window)
   in map pane_ID (leafPanes (Root w)) = [3, 1, 2] \<and>
      map_option (\<lambda>u. map (map_option pane_ID) (Slots u)) (Ultra (snd (EnableUltra 1 2 True w))) = Some [Some 1, Some 2, Some 3]"
proof -
  obtain w where w: "RotatePanes True demo_window = (Inr (), w)" "window_ok w" "leafPanes (Root w) = [demo_pane 3, demo_pane 1, demo_pane 2]"
    by (rule RotatePanes_success [OF demo_window_ok, of True]) (simp add: demo_window_panes)
  have "ValidateUltraGrid 1 2" by code_simp
  moreover have "sort_key pane_ID [demo_pane 3, demo_pane 1, demo_pane 2] = [demo_pane 1, demo_pane 2, demo_pane 3]" by (simp add: demo_pane_def word_le_nat_alt)
  ultimately show ?thesis
    using EnableUltra_enters [OF w(2), of 1 2 True "fst (EnableUltra 1 2 True w)" "snd (EnableUltra 1 2 True w)"] w
    by (auto simp: demo_pane_def)
qed

text \<open>
  Leaving the ultra layout gives a split layout with the lead first and the agents in the
  order of their slots, hidden ones included, and leaves the focus where it was.
\<close>

theorem DisableUltra_correct:
  assumes "ultra_ok w"
  shows "\<exists>w'. DisableUltra w = (Inr (), w') \<and> Ultra w' = None \<and> leafPanes (Root w') = ultraPanes w \<and> ActivePane w' = ActivePane w"
  using DisableUltra_leaves [OF assms] by (metis surj_pair)

theorem DisableUltra_correct_witness: "\<exists>w'. DisableUltra demo_ultra = (Inr (), w') \<and> leafPanes (Root w') = [demo_pane 1, demo_pane 2, demo_pane 3]"
  using DisableUltra_correct [OF demo_ultra_ok] by (auto simp: demo_ultra_panes)

text \<open>
  C21. Slots are stable. Closing an agent empties its slot and moves no other pane, even when an
  empty page is dropped; the next pane that is added takes an empty slot, the lowest one, which is
  at or below the slot that became free, and again moves no other pane.
\<close>

theorem ultra_slots_stable:
  assumes "ultra_ok w" "Ultra w = Some u" "SlotOf u i = Some k" "1 < PaneCount w" "ultra_fresh p w"
  shows "\<exists>w1 u1 w2 u2 j. ClosePane i w = (Inr (), w1) \<and> Ultra w1 = Some u1 \<and> slotAt u1 = (slotAt u)(k := None) \<and>
    SplitPaneWithOptions t dir p opts w1 = (Inr p, w2) \<and> Ultra w2 = Some u2 \<and>
    slotAt u1 j = None \<and> (\<forall>j' < j. slotAt u1 j' \<noteq> None) \<and> j \<le> k \<and> slotAt u2 = (slotAt u1)(j \<mapsto> p)"
proof -
  obtain q where q: "pane_ID q = i" "k < length (Slots u)" "Slots u ! k = Some q" using slotIndex_Some assms(3) by (metis SlotOf_def)
  have t: "ultra_table_ok w u" using ultra_okD [OF assms(1)] assms(2) by (metis option.inject)
  have "q \<in> set (slotPanes u)" using q nth_mem set_present by metis
  then have i: "i \<noteq> 0" "LeadPaneID w \<noteq> i" using q(1) t by (auto simp: ultra_table_ok_def ultraPanes_eq [OF t] split: option.splits)
  have "\<exists>w1. ClosePane i w = (Inr (), w1) \<and> Ultra w1 = Some (clampPage (trimEmptyPages (clearSlot k u)))"
    using assms(2-4) i(2) by (cases "ZoomedPaneID w = i") (auto simp: ClosePane_def ultraClose_def Let_def rebuildUltraTree_fields)
  then obtain w1 where w1: "ClosePane i w = (Inr (), w1)" "Ultra w1 = Some (clampPage (trimEmptyPages (clearSlot k u)))" by blast
  let ?u1 = "clampPage (trimEmptyPages (clearSlot k u))"
  have s1: "slotAt ?u1 = (slotAt u)(k := None)" by (simp add: slots.lookup_clear)
  have ok1: "ultra_ok w1" using ultraClose_kept [OF assms(1) i(1)] w1(1) assms(2) by (fastforce simp: ClosePane_def)
  obtain w1' where w1': "unzoomIf (\<not> KeepFocus opts) w1 = (Inr (), w1')" "Ultra w1' = Ultra w1" using ultra_unzoomIf [OF ok1] by metis
  obtain v j where v: "ultra_insert p ?u1 = (v, j)" by fastforce
  have "\<exists>w2 u2. SplitPaneWithOptions t dir p opts w1 = (Inr p, w2) \<and> Ultra w2 = Some u2 \<and> slotAt u2 = slotAt v"
    using w1' w1(2) v by (auto simp: SplitPaneWithOptions_def ultraInsert_def rebuildUltraTree_fields Let_def)
  moreover have "slotAt v = (slotAt ?u1)(j \<mapsto> p)" "slotAt ?u1 j = None" "\<forall>j' < j. slotAt ?u1 j' \<noteq> None"
    using slots.lookup_place [OF v] slots.place_free [OF v] slots.place_lowest [OF v] by auto
  moreover have "j \<le> k" using calculation(4) s1 by (metis fun_upd_same not_le)
  ultimately show ?thesis using w1 s1 by metis
qed

theorem ultra_slots_stable_witness:
  "\<exists>w1 u1. ClosePane 2 demo_ultra = (Inr (), w1) \<and> Ultra w1 = Some u1 \<and> slotAt u1 0 = Some (demo_pane 1) \<and>
     slotAt u1 1 = None \<and> slotAt u1 2 = Some (demo_pane 3)"
proof -
  obtain n where u: "Ultra demo_ultra = Some \<lparr>Rows = 1, Cols = 2, Page = n, Slots = map Some [demo_pane 1, demo_pane 2, demo_pane 3], AutoPromote = True\<rparr>"
    using demo_ultra_enabled(3) by blast
  have "1 < PaneCount demo_ultra" "ultra_fresh (demo_pane 4) demo_ultra"
    using u by (simp_all add: PaneCount_def Panes_def demo_ultra_panes ultra_fresh_def demo_pane_def)
  moreover have "slotIndex 2 (map Some [demo_pane 1, demo_pane 2, demo_pane 3]) = Some 1" by (simp add: demo_pane_def)
  ultimately obtain w1 u1 where "ClosePane 2 demo_ultra = (Inr (), w1)" "Ultra w1 = Some u1" "slotAt u1 = (slotAt (the (Ultra demo_ultra)))(1 := None)"
    using ultra_slots_stable [OF demo_ultra_ok u, of 2 1 "demo_pane 4"] u by (fastforce simp: SlotOf_def)
  moreover have "slotAt (the (Ultra demo_ultra)) 0 = Some (demo_pane 1)" "slotAt (the (Ultra demo_ultra)) 2 = Some (demo_pane 3)"
    using u by (simp_all add: slotAt_def)
  ultimately show ?thesis by auto
qed

text \<open>
  Stepping through the pages wraps at both ends: a step of any size, forwards or backwards,
  leads to the page modulo their number, and the same step back returns to the first page.
\<close>

theorem UltraStepPage_wraps:
  assumes "ultra_ok w" "Ultra w = Some u"
  shows "\<exists>w1 w2. UltraStepPage d w = (Inr (), w1) \<and> Ultra w1 = Some (u\<lparr>Page := (Page u + d) mod PageCount u\<rparr>) \<and>
    UltraStepPage (- d) w1 = (Inr (), w2) \<and> Ultra w2 = Some u"
proof -
  have page: "0 \<le> Page u" "Page u < PageCount u" using ultra_okD [OF assms(1)] assms(2) by (metis option.inject)+
  obtain w1 where w1: "UltraStepPage d w = (Inr (), w1)" "ultra_ok w1" "Ultra w1 = Some (u\<lparr>Page := (Page u + d) mod PageCount u\<rparr>)"
    using UltraStepPage_mod [OF assms] by blast
  obtain w2 where w2: "UltraStepPage (- d) w1 = (Inr (), w2)"
    "Ultra w2 = Some (u\<lparr>Page := ((Page u + d) mod PageCount u + (- d)) mod PageCount u\<rparr>)"
    using UltraStepPage_mod [OF w1(2,3), of "- d"] by auto
  have "((Page u + d) mod PageCount u + (- d)) mod PageCount u = Page u"
    using page mod_add_left_eq [of "Page u + d" "PageCount u" "- d"] by simp
  then show ?thesis using w1 w2 by auto
qed

theorem UltraStepPage_wraps_witness:
  "\<exists>w1 n. UltraStepPage 4 demo_ultra = (Inr (), w1) \<and> map_option Page (Ultra w1) = Some ((n + 4) mod 3) \<and> map_option Page (Ultra demo_ultra) = Some n"
proof -
  obtain n where u: "Ultra demo_ultra = Some \<lparr>Rows = 1, Cols = 2, Page = n, Slots = map Some [demo_pane 1, demo_pane 2, demo_pane 3], AutoPromote = True\<rparr>"
    using demo_ultra_enabled(3) by blast
  show ?thesis using UltraStepPage_wraps [OF demo_ultra_ok u, of 4] u by (auto simp: PageCount_def AgentSlotsPerPage_def)
qed

text \<open>
  Trimming drops empty pages from the end of the table and nothing else: every slot holds what
  it held, and what is left is the first page or ends with a page that has a pane.
\<close>

theorem trimEmptyPages_exact:
  "slotAt (trimEmptyPages u) = slotAt u \<and>
   (length (Slots (trimEmptyPages u)) \<le> AgentSlotsPerPage u \<or>
    (\<exists>p i. slotAt u i = Some p \<and> PageOfSlot u i = int ((length (Slots (trimEmptyPages u)) - 1) div AgentSlotsPerPage u)))"
proof -
  let ?per = "AgentSlotsPerPage u" and ?ss = "Slots (trimEmptyPages u)"
  have ss: "?ss = trimSlots ?per (Slots u)" by (simp add: trimEmptyPages_def)
  have "\<exists>p i. slotAt u i = Some p \<and> PageOfSlot u i = int ((length ?ss - 1) div ?per)" if long: "?per < length ?ss"
  proof -
    obtain p where "Some p \<in> set (drop ((length ?ss - 1) div ?per * ?per) ?ss)"
      using trimSlots_minimal [of ?per "Slots u"] long ss by auto
    then obtain j where j: "(length ?ss - 1) div ?per * ?per + j < length ?ss" "?ss ! ((length ?ss - 1) div ?per * ?per + j) = Some p"
      unfolding in_set_conv_nth by (auto simp: less_diff_conv add.commute)
    let ?i = "(length ?ss - 1) div ?per * ?per + j"
    have "0 < ?per" by (simp add: AgentSlotsPerPage_def Let_def)
    then have "(length ?ss - 1) div ?per \<le> ?i div ?per" by (simp add: div_add1_eq)
    moreover have "?i div ?per \<le> (length ?ss - 1) div ?per" using j(1) by (intro div_le_mono) simp
    moreover have "slotAt u ?i = Some p" using j slotAt_trimEmptyPages [of u] by (metis slotAt_def)
    ultimately show ?thesis by (intro exI [of _ p] exI [of _ ?i]) (simp add: PageOfSlot_def)
  qed
  then show ?thesis by force
qed

text \<open>
  Focusing a pane of the window, hidden or not, turns to its page: it is shown, and focused.
\<close>

theorem FocusPane_shows:
  assumes "ultra_ok w" "p \<in> set (ultraPanes w)"
  shows "ActivePane (FocusPane p w) = Some p \<and> p \<in> set (leafPanes (Root (FocusPane p w))) \<and>
    mset (ultraPanes (FocusPane p w)) = mset (ultraPanes w)"
  using ultra_FocusPane [OF assms] by (simp add: ultra_kept_def)

theorem FocusPane_shows_witness: "demo_pane 2 \<in> set (leafPanes (Root (FocusPane (demo_pane 2) demo_ultra)))"
  using FocusPane_shows [OF demo_ultra_ok, of "demo_pane 2"] by (simp add: demo_ultra_panes)

text \<open>
  A promotion brings a hidden pane onto the visible page: it swaps its slot with one slot of
  that page and changes nothing else. The slot is an empty one, if any; a pane that has to leave
  is never the focused one, nor one the caller calls idle.
\<close>

theorem UltraPromote_correct:
  assumes "ultra_ok w" "Ultra w = Some u" "UltraPromote i busy w = (True, w')"
  shows "\<exists>k src u'. SlotOf u i = Some src \<and> PageOfSlot u k = Page u \<and> PageOfSlot u src \<noteq> Page u \<and>
    Ultra w' = Some u' \<and> Page u' = Page u \<and> slotAt u' = (slotAt u)(k := slotAt u src, src := slotAt u k) \<and>
    (\<forall>q. slotAt u k = Some q \<longrightarrow> map_option pane_ID (ActivePane w) \<noteq> Some (pane_ID q) \<and> (\<forall>f. busy = Some f \<longrightarrow> f (pane_ID q)))"
proof -
  obtain t: "ultra_table_ok w u" and page: "0 \<le> Page u" "Page u < PageCount u" using ultra_okD [OF assms(1)] assms(2) by (metis option.inject)
  have hid: "UltraPaneHidden i w" using assms(2,3) by (auto simp: UltraPromote_def split: if_splits)
  note per = ValidateUltraGridD(4) [of u]
  show ?thesis
  proof (cases rule: UltraPromote_swaps [OF assms(2), of i busy, case_names refused swapped])
    case (swapped k src)
    let ?u1 = "u\<lparr>Slots := swapAt k src (Slots u)\<rparr>"
    let ?u' = "clampPage ((if Slots u ! k = None then trimEmptyPages else id) ?u1)"
    have u': "Ultra w' = Some ?u'" using swapped(6) assms(3) by (simp add: rebuildUltraTree_fields)
    have s: "slotAt ?u' = (slotAt u)(k := slotAt u src, src := slotAt u k)"
    proof -
      have "slotAt ?u1 = (slotAt u)(k := slotAt u src, src := slotAt u k)"
        using swapped(2,3) by (auto simp: slotAt_def swapAt_def fun_eq_iff nth_list_update)
      then show ?thesis by simp
    qed
    have "0 < AgentSlotsPerPage u" using t per by (simp add: ultra_table_ok_def)
    have "k div AgentSlotsPerPage u = nat (Page u)" using swapped(4,5) by (intro div_nat_eqI) (simp_all add: mult.commute)
    then have k: "PageOfSlot u k = Page u" using page(1) by (simp add: PageOfSlot_def)
    have "k < length (Slots ?u')"
    proof -
      obtain p where "slotAt u src = Some p" using slotIndex_Some swapped(1) by (metis SlotOf_def slotAt_def)
      then have "slotAt ?u' k \<noteq> None" unfolding s by (cases "k = src") simp_all
      then show ?thesis unfolding slotAt_def by metis
    qed
    moreover have per': "AgentSlotsPerPage ?u' = AgentSlotsPerPage u" by (simp add: trimEmptyPages_def)
    ultimately have "Page u < PageCount ?u'"
      using PageOfSlot_range(2) [of k ?u'] \<open>0 < AgentSlotsPerPage u\<close> k by (simp add: PageOfSlot_def)
    then have "Page ?u' = Page u" using page by (auto simp: trimEmptyPages_def clampPage_def Let_def)
    moreover have "PageOfSlot u src \<noteq> Page u"
      using hid swapped(1) assms(2) by (auto simp: UltraPaneHidden_def ultraVisible_def split: if_splits)
    ultimately show ?thesis using swapped(1,2,7) u' s k by (intro exI [of _ k] exI [of _ src] exI [of _ ?u']) (auto simp: slotAt_def)
  qed (use assms(3) in simp)
qed

definition demo_grid :: UltraLayout where
  "demo_grid = \<lparr>Rows = 1, Cols = 3, Page = 0, Slots = map Some [demo_pane 1, demo_pane 2, demo_pane 3], AutoPromote = True\<rparr>"

definition demo_paged :: window where
  "demo_paged = (let w = demo_base\<lparr>ActivePane := Some (demo_pane 1), Width := 80, Height := 24, Ultra := Some demo_grid\<rparr>
     in w\<lparr>Root := ultraTree w demo_grid\<rparr>)"

lemma demo_paged_table: "Ultra demo_paged = Some demo_grid" "LeadPaneID demo_paged = 0" "ActivePane demo_paged = Some (demo_pane 1)"
    "ultraLead demo_paged = None" "setsizeFails demo_paged = (\<lambda>_. False)" "ultraPanes demo_paged = [demo_pane 1, demo_pane 2, demo_pane 3]"
    "Root demo_paged = ultraTree demo_paged demo_grid"
  by (simp_all add: demo_paged_def Let_def demo_base_def demo_grid_def ultraPanes_def ultraTree_def ultraCells_def)

lemma demo_paged_ok: "ultra_ok demo_paged"
proof -
  have v: "ValidateUltraGrid (Rows demo_grid) (Cols demo_grid)" "present (pageSlots demo_grid) = [demo_pane 1, demo_pane 2]"
    "0 \<le> Page demo_grid" "Page demo_grid < PageCount demo_grid" by code_simp+
  moreover have "ultra_table_ok demo_paged demo_grid"
    unfolding ultra_table_ok_def demo_paged_table using v(1) by (simp add: demo_pane_def)
  ultimately show ?thesis
    unfolding ultra_ok_def demo_paged_table leafPanes_ultraTree [OF v(1)] by (auto simp: demo_paged_table)
qed

theorem UltraPromote_correct_witness:
  "\<exists>u'. fst (UltraPromote 3 None demo_paged) \<and> Ultra (snd (UltraPromote 3 None demo_paged)) = Some u' \<and>
     Page u' = 0 \<and> SlotOf demo_grid 3 = Some 2"
proof -
  have "SlotOf demo_grid 3 = Some 2" "Page demo_grid = 0" by code_simp+
  moreover have "fst (UltraPromote 3 None demo_paged)"
    by (simp add: UltraPromote_def UltraPaneHidden_def ultraVisible_def SlotOf_def PageOfSlot_def demo_paged_table demo_grid_def
        demo_pane_def AgentSlotsPerPage_def upt_rec numeral_2_eq_2)
  ultimately show ?thesis using UltraPromote_correct [OF demo_paged_ok demo_paged_table(1), of 3 None "snd (UltraPromote 3 None demo_paged)"]
    by (auto simp: prod_eq_iff)
qed

end
