(* ===== verification/Snapshot_Properties.thy ===== *)
theory Snapshot_Properties
  imports Snapshot Ultra_Properties
begin

text \<open>A window survives a restart of the server, and a client sees the cells the server has.\<close>

section \<open>Properties\<close>

text \<open>
  C24. A window in split layout that is written to a snapshot and rebuilt from it, with the same
  pane objects, is the same window: the tree cell by cell, the sizes, the focus, the zoomed pane
  and the window's identity; and it is again a well-formed window. (A restored leaf also records
  the ID of its pane.)
\<close>

theorem snapshot_roundtrip:
  assumes "window_ok w" "knows paneMap (leafPanes (Root w))" "heap w0 = heap w" "\<forall>n. \<not> setsizeFails w0 n"
    "w' = RebuildWindowFromSnapshot (SnapshotWindow index w) width height paneMap w0"
  shows "Root w' = withPaneIDs (Root w) \<and> leafPanes (Root w') = leafPanes (Root w) \<and> ActivePane w' = ActivePane w \<and>
    Width w' = Width w \<and> Height w' = Height w \<and> ZoomedPaneID w' = ZoomedPaneID w \<and> win_ID w' = win_ID w \<and>
    win_Name w' = win_Name w \<and> window_ok w'"
  using restore_split [OF assms] by simp

definition demo_panes :: "uint32 \<rightharpoonup> pane" where
  "demo_panes = map_of (map (\<lambda>p. (pane_ID p, p)) [demo_pane 1, demo_pane 2, demo_pane 3])"

lemma demo_panes_known: "knows demo_panes [demo_pane 1, demo_pane 2, demo_pane 3]"
  by (simp add: knows_def demo_panes_def demo_pane_def)

theorem snapshot_roundtrip_witness:
  "leafPanes (Root (RebuildWindowFromSnapshot (SnapshotWindow 1 demo_window) 0 0 demo_panes demo_window)) = [demo_pane 1, demo_pane 2, demo_pane 3]"
proof -
  have k: "knows demo_panes (leafPanes (Root demo_window))" unfolding demo_window_panes by (rule demo_panes_known)
  have "\<forall>n. \<not> setsizeFails demo_window n" using demo_window_ok by (simp add: window_ok_def mode_ok_def)
  from snapshot_roundtrip [OF demo_window_ok k refl this refl, of 1 0 0] show ?thesis unfolding demo_window_panes by blast
qed

text \<open>
  C25. A window in ultra layout comes back with every pane in its slot, the empty pages at the end
  of the table dropped, with its lead and the zoomed pane, with a tree that is built from the
  table, and with its focus if the focused pane is shown; panes on hidden pages are not lost.
\<close>

theorem ultra_snapshot_roundtrip:
  assumes "ultra_ok w" "Ultra w = Some u" "knows paneMap (ultraPanes w)" "\<forall>n. \<not> setsizeFails w0 n" "0 < cW (Root w)" "0 < cH (Root w)"
    "w' = RebuildWindowFromSnapshot (SnapshotWindow index w) width height paneMap w0"
  shows "ultra_ok w' \<and> Ultra w' = Some (trimEmptyPages u) \<and> ultraPanes w' = ultraPanes w \<and> LeadPaneID w' = LeadPaneID w \<and>
    ultraLead w' = ultraLead w \<and> ZoomedPaneID w' = ZoomedPaneID w \<and>
    (\<forall>a. ActivePane w = Some a \<and> ultraVisible (pane_ID a) (w\<lparr>Ultra := Some (trimEmptyPages u)\<rparr>) \<longrightarrow> ActivePane w' = Some a)"
  by (rule restore_ultra [OF assms])

theorem ultra_snapshot_roundtrip_witness:
  "Ultra (RebuildWindowFromSnapshot (SnapshotWindow 1 demo_paged) 0 0 demo_panes demo_paged) = Some (trimEmptyPages demo_grid)"
proof -
  have k: "knows demo_panes (ultraPanes demo_paged)" unfolding demo_paged_table by (rule demo_panes_known)
  have "0 < cW (Root demo_paged)" "0 < cH (Root demo_paged)" by code_simp+
  with ultra_snapshot_roundtrip [OF demo_paged_ok demo_paged_table(1) k _ _ _ refl, of demo_paged 1 0 0]
  show ?thesis by (simp add: demo_paged_table)
qed

text \<open>
  The tree a client rebuilds has the cells of the server's tree, in order: the same rectangles
  and the same pane IDs (0 for a cell without a pane).
\<close>

theorem client_layout_agrees:
  "map (\<lambda>l. (rectOf l, CellPaneID l)) (Walk (RebuildLayout (snapshotCell c))) =
   map (\<lambda>l. (rectOf l, case cellPane l of Some p \<Rightarrow> pane_ID p | None \<Rightarrow> 0)) (Walk c)"
  by (rule RebuildLayout_Walk)

end
