(* ===== verification/Mouse.thy ===== *)
theory Mouse
  imports "HOL-Library.Word" State_Machine
begin

text \<open>
  The parser of mouse reports in the terminal input (\<^verbatim>\<open>mouse.go\<close>): a state machine that is fed
  one byte at a time, recognises SGR sequences \<^verbatim>\<open>ESC [ < Cb ; Cx ; Cy M\<close> (or \<^verbatim>\<open>m\<close>), and hands every
  other byte back as ordinary input. The buffer is a list of bytes here; \<open>Mouse_Buffer\<close> has the
  same parser over the slice and the backing array the Go code uses.
\<close>

unbundle bit_operations_syntax

type_synonym byte = "8 word"

section \<open>Events\<close>

datatype Button = ButtonLeft | ButtonMiddle | ButtonRight | ButtonNone | ScrollUp | ScrollDown | ScrollLeft | ScrollRight

datatype Action = Press | Release | Motion

record Event =
  ev_Button :: Button
  ev_Action :: Action
  ev_X :: int
  ev_Y :: int
  ev_LastX :: int
  ev_LastY :: int
  ev_Shift :: bool
  ev_Alt :: bool
  ev_Ctrl :: bool

text \<open>The zero value \<^verbatim>\<open>Event{}\<close>.\<close>

definition zeroEvent :: Event where
  "zeroEvent = \<lparr>ev_Button = ButtonLeft, ev_Action = Press, ev_X = 0, ev_Y = 0, ev_LastX = 0, ev_LastY = 0,
     ev_Shift = False, ev_Alt = False, ev_Ctrl = False\<rparr>"

section \<open>Parameters\<close>

definition isDigit :: "byte \<Rightarrow> bool" where
  "isDigit b \<longleftrightarrow> 0x30 \<le> b \<and> b \<le> 0x39"

definition digitsValue :: "byte list \<Rightarrow> int" where
  "digitsValue ds = foldl (\<lambda>v d. v * 10 + (uint d - 48)) 0 ds"

text \<open>
  \<^verbatim>\<open>strconv.Atoi\<close> on 64 bit: an optional sign, at least one digit and nothing else; a number
  outside the range of \<^verbatim>\<open>int\<close> is an error.
\<close>

definition Atoi :: "byte list \<Rightarrow> int option" where
  "Atoi s =
     (case s of
        [] \<Rightarrow> None
      | c # cs \<Rightarrow>
          (let (neg, ds) = (if c = 0x2d then (True, cs) else if c = 0x2b then (False, cs) else (False, s)) in
           if ds = [] \<or> \<not> list_all isDigit ds then None
           else let v = digitsValue ds in
             if neg then (if v > 2 ^ 63 then None else Some (- v))
             else (if v \<ge> 2 ^ 63 then None else Some v)))"

fun splitSemicolons :: "byte list \<Rightarrow> byte list list" where
  "splitSemicolons [] = [[]]"
| "splitSemicolons (c # cs) =
     (if c = 0x3b then [] # splitSemicolons cs
      else case splitSemicolons cs of p # ps \<Rightarrow> (c # p) # ps | [] \<Rightarrow> [[c]])"

definition buttonOf :: "int \<Rightarrow> Button" where
  "buttonOf btnBits =
     (if btnBits = 0 then ButtonLeft
      else if btnBits = 1 then ButtonMiddle
      else if btnBits = 2 then ButtonRight
      else if btnBits = 3 then ButtonNone
      else if btnBits = 64 then ScrollUp
      else if btnBits = 65 then ScrollDown
      else if btnBits = 66 then ScrollLeft
      else if btnBits = 67 then ScrollRight
      else ButtonNone)"

definition parseParams :: "byte list \<Rightarrow> bool \<Rightarrow> Event option" where
  "parseParams paramBytes isRelease =
     (case splitSemicolons paramBytes of
        [p0, p1, p2] \<Rightarrow>
          (case (Atoi p0, Atoi p1, Atoi p2) of
             (Some cb, Some cx, Some cy) \<Rightarrow>
               Some \<lparr>ev_Button = buttonOf (cb AND NOT (4 OR 8 OR 16 OR 32)),
                     ev_Action = (if isRelease then Release else if cb AND 32 \<noteq> 0 then Motion else Press),
                     ev_X = cx - 1, ev_Y = cy - 1, ev_LastX = 0, ev_LastY = 0,
                     ev_Shift = (cb AND 4 \<noteq> 0), ev_Alt = (cb AND 8 \<noteq> 0), ev_Ctrl = (cb AND 16 \<noteq> 0)\<rparr>
           | _ \<Rightarrow> None)
      | _ \<Rightarrow> None)"

definition isCSIParamByte :: "byte \<Rightarrow> bool" where
  "isCSIParamByte b \<longleftrightarrow> b \<ge> 0x30 \<and> b \<le> 0x3f"

definition isCSIIntermediateByte :: "byte \<Rightarrow> bool" where
  "isCSIIntermediateByte b \<longleftrightarrow> b \<ge> 0x20 \<and> b \<le> 0x2f"

definition isCSIFinalByte :: "byte \<Rightarrow> bool" where
  "isCSIFinalByte b \<longleftrightarrow> b \<ge> 0x40 \<and> b \<le> 0x7e"

section \<open>The parser\<close>

datatype parseState = stateNone | stateEsc | stateBracket | stateLt | stateCSI | stateParams

record Parser =
  buf :: "byte list"
  state :: parseState
  lastX :: int
  lastY :: int
  hasLast :: bool

definition newParser :: Parser where
  "newParser = \<lparr>buf = [], state = stateNone, lastX = 0, lastY = 0, hasLast = False\<rparr>"

text \<open>The result of \<^verbatim>\<open>Feed\<close>: an event and whether there is one, and the bytes that are given back.\<close>

type_synonym fed = "Event \<times> bool \<times> byte list"

definition consumed :: fed where
  "consumed = (zeroEvent, False, [])"

definition parser_flush :: "byte \<Rightarrow> Parser \<Rightarrow> fed \<times> Parser" where
  "parser_flush extra p =
     ((zeroEvent, False, buf p @ (if extra \<noteq> 0 then [extra] else [])), p\<lparr>state := stateNone, buf := []\<rparr>)"

definition push :: "byte \<Rightarrow> Parser \<Rightarrow> Parser" where
  "push b p = p\<lparr>buf := buf p @ [b]\<rparr>"

text \<open>The event of a complete report: the position of the previous one is filled in and updated.\<close>

definition reportEvent :: "Event \<Rightarrow> Parser \<Rightarrow> fed \<times> Parser" where
  "reportEvent ev p =
     (((if hasLast p then ev\<lparr>ev_LastX := lastX p, ev_LastY := lastY p\<rparr>
        else ev\<lparr>ev_LastX := ev_X ev, ev_LastY := ev_Y ev\<rparr>), True, []),
      p\<lparr>lastX := ev_X ev, lastY := ev_Y ev, hasLast := True\<rparr>)"

definition Feed :: "byte \<Rightarrow> Parser \<Rightarrow> fed \<times> Parser" where
  "Feed b p =
     (case state p of
        stateNone \<Rightarrow>
          if b = 0x1b then (consumed, p\<lparr>state := stateEsc, buf := [b]\<rparr>)
          else ((zeroEvent, False, [b]), p)
      | stateEsc \<Rightarrow>
          if b = 0x5b then (consumed, push b (p\<lparr>state := stateBracket\<rparr>))
          else parser_flush b p
      | stateBracket \<Rightarrow>
          if b = 0x3c then (consumed, push b (p\<lparr>state := stateLt\<rparr>))
          else if isCSIFinalByte b then parser_flush 0 (push b p)
          else if isCSIIntermediateByte b \<or> isCSIParamByte b then (consumed, push b (p\<lparr>state := stateCSI\<rparr>))
          else parser_flush b p
      | stateCSI \<Rightarrow>
          (let p1 = push b p in
           if length (buf p1) > 64 then parser_flush 0 p1
           else if isCSIFinalByte b then parser_flush 0 p1
           else if isCSIIntermediateByte b \<or> isCSIParamByte b then (consumed, p1)
           else parser_flush 0 p1)
      | stateLt \<Rightarrow> (consumed, push b (p\<lparr>state := stateParams\<rparr>))
      | stateParams \<Rightarrow>
          if b = 0x4d \<or> b = 0x6d then
            (case parseParams (drop 3 (buf p)) (b = 0x6d) of
               Some ev \<Rightarrow> reportEvent ev (p\<lparr>state := stateNone, buf := []\<rparr>)
             | None \<Rightarrow> (consumed, p\<lparr>state := stateNone, buf := []\<rparr>))
          else if isDigit b \<or> b = 0x3b then
            (let p1 = push b p in if length (buf p1) > 32 then parser_flush 0 p1 else (consumed, p1))
          else parser_flush b p)"

definition FlushPending :: "Parser \<Rightarrow> byte list \<times> Parser" where
  "FlushPending p =
     (if state p \<noteq> stateEsc \<or> buf p = [] then ([], p)
      else case parser_flush 0 p of ((ev, m, out), p') \<Rightarrow> (out, p'))"

section \<open>A whole input\<close>

text \<open>
  What the caller's loop does with an input: events are dispatched, the bytes given back are
  collected. A chunk records one or the other; a report that is malformed gives neither.
\<close>

datatype chunk = Mouse Event | Input "byte list"

fun feedAll :: "byte list \<Rightarrow> Parser \<Rightarrow> chunk list \<times> Parser" where
  "feedAll [] p = ([], p)"
| "feedAll (b # bs) p =
     (let ((ev, isMouse, flushed), p1) = Feed b p; (rest, p2) = feedAll bs p1
      in ((if isMouse then [Mouse ev] else if flushed = [] then [] else [Input flushed]) @ rest, p2))"

fun InputLooksLikeMouse_from :: "bool \<Rightarrow> byte list \<Rightarrow> Parser \<Rightarrow> bool" where
  "InputLooksLikeMouse_from sawMouse [] p = (if sawMouse then True else state p = stateLt \<or> state p = stateParams)"
| "InputLooksLikeMouse_from sawMouse (b # bs) p =
     (let ((ev, isMouse, flushed), p1) = Feed b p
      in if isMouse then InputLooksLikeMouse_from True bs p1
         else if length flushed > 0 then False
         else InputLooksLikeMouse_from sawMouse bs p1)"

definition InputLooksLikeMouse :: "byte list \<Rightarrow> Parser \<Rightarrow> bool" where
  "InputLooksLikeMouse raw p = InputLooksLikeMouse_from False raw p"

end
