(* ===== verification/Mouse_Laws.thy ===== *)
theory Mouse_Laws
  imports Mouse
begin

text \<open>
  What becomes of every byte of an input: it is cut into pieces that are handed back or are complete
  mouse reports. A report a terminal sends is recognised, however the input is cut into reads.
\<close>

section \<open>What is buffered\<close>

text \<open>In every state the buffer holds what has been seen of the current sequence, and not too much.\<close>

definition parser_ok :: "Parser \<Rightarrow> bool" where
  "parser_ok p \<longleftrightarrow>
     (case state p of
        stateNone \<Rightarrow> buf p = []
      | stateEsc \<Rightarrow> buf p = [0x1b]
      | stateBracket \<Rightarrow> buf p = [0x1b, 0x5b]
      | stateLt \<Rightarrow> buf p = [0x1b, 0x5b, 0x3c]
      | stateCSI \<Rightarrow> take 2 (buf p) = [0x1b, 0x5b] \<and> 2 < length (buf p) \<and> length (buf p) \<le> 64
      | stateParams \<Rightarrow> take 3 (buf p) = [0x1b, 0x5b, 0x3c] \<and> 3 < length (buf p) \<and> length (buf p) \<le> 32)"

lemma Feed_ok: "parser_ok p \<Longrightarrow> parser_ok (snd (Feed b p))"
  by (cases "state p")
    (auto simp: parser_ok_def Feed_def parser_flush_def push_def reportEvent_def Let_def split: option.splits)

interpretation mouse: invariant_system "\<lambda>p. p = newParser" "\<lambda>p b. True" "\<lambda>b p. snd (Feed b p)" parser_ok
  by unfold_locales (simp add: newParser_def parser_ok_def, rule Feed_ok)

lemma parser_ok_bound: "parser_ok p \<Longrightarrow> length (buf p) \<le> 64"
  by (cases "state p") (auto simp: parser_ok_def)

section \<open>The pieces of an input\<close>

text \<open>
  A piece of the input with what came of it: bytes that are given back, a sequence that is broken off
  by a NUL byte and given back without it, a report with its event (the last position aside), or a
  malformed report that is dropped.
\<close>

definition positioned :: "Event \<Rightarrow> Event \<Rightarrow> bool" where
  "positioned ev ev' \<longleftrightarrow> (\<exists>x y. ev' = ev\<lparr>ev_LastX := x, ev_LastY := y\<rparr>)"

definition segment_ok :: "byte list \<times> chunk list \<Rightarrow> bool" where
  "segment_ok seg \<longleftrightarrow>
     (case seg of (bs, cs) \<Rightarrow>
        cs = [Input bs] \<or>
        (\<exists>broken. bs = 0x1b # broken @ [0] \<and> cs = [Input (0x1b # broken)]) \<or>
        (\<exists>params final. bs = [0x1b, 0x5b, 0x3c] @ params @ [final] \<and> (final = 0x4d \<or> final = 0x6d) \<and>
           (case parseParams params (final = 0x6d) of
              None \<Rightarrow> cs = []
            | Some ev \<Rightarrow> \<exists>ev'. positioned ev ev' \<and> cs = [Mouse ev'])))"

lemma drop_take_prefix: "take n xs = ys \<Longrightarrow> ys @ drop n xs = xs"
  by (metis append_take_drop_id)

lemma Feed_conserves:
  assumes ok: "parser_ok p" and fed: "Feed b p = ((ev, isMouse, flushed), p')"
  obtains (more) "\<not> isMouse" "flushed = []" "buf p' = buf p @ [b]"
  | (piece) "segment_ok (buf p @ [b], if isMouse then [Mouse ev] else if flushed = [] then [] else [Input flushed])" "buf p' = []"
proof (cases "state p = stateParams \<and> (b = 0x4d \<or> b = 0x6d)")
  case True
  then have pre: "take 3 (buf p) = [0x1b, 0x5b, 0x3c]" using ok by (simp add: parser_ok_def)
  have bytes: "buf p @ [b] = [0x1b, 0x5b, 0x3c] @ drop 3 (buf p) @ [b]" using drop_take_prefix [OF pre] by (metis append.assoc)
  have "segment_ok (buf p @ [b], if isMouse then [Mouse ev] else if flushed = [] then [] else [Input flushed])"
  proof (cases "parseParams (drop 3 (buf p)) (b = 0x6d)")
    case None
    then have "\<not> isMouse" "flushed = []" using fed True by (auto simp: Feed_def consumed_def)
    then show ?thesis unfolding segment_ok_def bytes using True None by fastforce
  next
    case (Some e)
    then have "isMouse" "positioned e ev" using fed True by (auto simp: Feed_def reportEvent_def positioned_def split: if_splits)
    then show ?thesis unfolding segment_ok_def bytes using True Some by fastforce
  qed
  moreover have "buf p' = []" using fed True by (auto simp: Feed_def reportEvent_def split: option.splits)
  ultimately show ?thesis using piece by blast
next
  case False
  have "buf p = 0x1b # tl (buf p)" if "state p \<noteq> stateNone"
    using that ok by (cases "state p"; cases "buf p") (auto simp: parser_ok_def)
  moreover have "(\<not> isMouse \<and> flushed = [] \<and> buf p' = buf p @ [b]) \<or> (\<not> isMouse \<and> flushed = buf p @ [b] \<and> buf p' = []) \<or>
      (\<not> isMouse \<and> flushed = buf p \<and> b = 0 \<and> state p \<noteq> stateNone \<and> buf p' = [])"
    using fed False ok
    by (cases "state p") (auto simp: Feed_def parser_ok_def parser_flush_def push_def consumed_def Let_def split: if_splits)
  ultimately show ?thesis using more piece by (auto simp: segment_ok_def) (metis append_Cons list.distinct(1))
qed

lemma feedAll_conserves:
  assumes "parser_ok p"
  obtains segs where "list_all segment_ok segs" "fst (feedAll bs p) = concat (map snd segs)"
    "buf p @ bs = concat (map fst segs) @ buf (snd (feedAll bs p))"
  using assms
proof (induction bs arbitrary: p thesis)
  case Nil
  then show ?case using Nil(1) [of "[]"] by simp
next
  case (Cons b bs)
  obtain ev m fl p1 where fed: "Feed b p = ((ev, m, fl), p1)" by (metis prod.collapse)
  have ok1: "parser_ok p1" using Feed_ok [OF Cons.prems(2), of b] fed by simp
  obtain segs where segs: "list_all segment_ok segs" "fst (feedAll bs p1) = concat (map snd segs)"
    "buf p1 @ bs = concat (map fst segs) @ buf (snd (feedAll bs p1))"
    using Cons.IH [OF _ ok1] by auto
  let ?c = "if m then [Mouse ev] else if fl = [] then [] else [Input fl]"
  have fa: "feedAll (b # bs) p = (?c @ fst (feedAll bs p1), snd (feedAll bs p1))"
    using fed by (simp add: split_def Let_def)
  show ?case
  proof (cases rule: Feed_conserves [OF Cons.prems(2) fed, case_names more piece])
    case more
    then show ?thesis using Cons.prems(1) [of segs] segs unfolding fa by simp
  next
    case piece
    then show ?thesis using Cons.prems(1) [of "(buf p @ [b], ?c) # segs"] segs unfolding fa by simp
  qed
qed

lemma feedAll_ok: "parser_ok p \<Longrightarrow> parser_ok (snd (feedAll bs p))"
proof (induction bs arbitrary: p)
  case (Cons b bs)
  then show ?case using Feed_ok [OF Cons.prems, of b] by (simp add: split_def Let_def)
qed simp

lemma feedAll_append:
  "feedAll (xs @ ys) p = (fst (feedAll xs p) @ fst (feedAll ys (snd (feedAll xs p))), snd (feedAll ys (snd (feedAll xs p))))"
  by (induction xs arbitrary: p) (simp_all add: split_def Let_def)

section \<open>Reports of a terminal\<close>

text \<open>What a terminal sends: decimal numbers, one-based coordinates.\<close>

fun decimal :: "nat \<Rightarrow> byte list" where
  "decimal n = (if n < 10 then [48 + of_nat n] else decimal (n div 10) @ [48 + of_nat (n mod 10)])"

declare decimal.simps [simp del]

definition report :: "nat \<Rightarrow> nat \<Rightarrow> nat \<Rightarrow> bool \<Rightarrow> byte list" where
  "report cb x y release =
     [0x1b, 0x5b, 0x3c] @ decimal cb @ [0x3b] @ decimal (x + 1) @ [0x3b] @ decimal (y + 1) @ [if release then 0x6d else 0x4d]"

definition reported :: "nat \<Rightarrow> nat \<Rightarrow> nat \<Rightarrow> bool \<Rightarrow> Event" where
  "reported cb x y release =
     \<lparr>ev_Button = buttonOf (int cb AND NOT (4 OR 8 OR 16 OR 32)),
      ev_Action = (if release then Release else if int cb AND 32 \<noteq> 0 then Motion else Press),
      ev_X = int x, ev_Y = int y, ev_LastX = 0, ev_LastY = 0,
      ev_Shift = (int cb AND 4 \<noteq> 0), ev_Alt = (int cb AND 8 \<noteq> 0), ev_Ctrl = (int cb AND 16 \<noteq> 0)\<rparr>"

lemma uint_digit: "n < 10 \<Longrightarrow> uint (48 + of_nat n :: byte) = 48 + int n"
proof -
  assume n: "n < 10"
  have "uint (of_nat (48 + n) :: byte) = int (48 + n)" using n unfolding unsigned_of_nat by (simp add: take_bit_nat_eq_self)
  then show ?thesis by simp
qed

lemma isDigit_digit: "n < 10 \<Longrightarrow> isDigit (48 + of_nat n)"
  using uint_digit [of n] unfolding isDigit_def word_le_def by simp

lemma decimal_digits: "list_all isDigit (decimal n) \<and> decimal n \<noteq> []"
proof (induction n rule: decimal.induct)
  case (1 n)
  then show ?case by (subst (1 2) decimal.simps) (auto simp: isDigit_digit)
qed

lemma digitsValue_decimal: "digitsValue (decimal n) = int n"
proof (induction n rule: decimal.induct)
  case (1 n)
  show ?case
  proof (cases "n < 10")
    case True
    then show ?thesis by (subst decimal.simps) (simp add: digitsValue_def uint_digit)
  next
    case False
    then have "digitsValue (decimal n) = digitsValue (decimal (n div 10)) * 10 + (uint (48 + of_nat (n mod 10) :: byte) - 48)"
      by (subst decimal.simps) (simp add: digitsValue_def)
    also have "\<dots> = int (n div 10) * 10 + int (n mod 10)" using 1 False uint_digit [of "n mod 10"] by simp
    finally show ?thesis by (metis of_nat_add of_nat_mult of_nat_numeral div_mult_mod_eq)
  qed
qed

lemma length_decimal: "n < 10 ^ Suc k \<Longrightarrow> length (decimal n) \<le> Suc k"
proof (induction k arbitrary: n)
  case 0
  then show ?case by (subst decimal.simps) simp
next
  case (Suc k)
  then show ?case using Suc.IH [of "n div 10"] by (subst decimal.simps) auto
qed

lemma digit_not: "isDigit b \<Longrightarrow> b \<noteq> 0x2d \<and> b \<noteq> 0x2b \<and> b \<noteq> 0x3b \<and> b \<noteq> 0x4d \<and> b \<noteq> 0x6d"
  by (auto simp: isDigit_def)

lemma Atoi_decimal: "n < 10 ^ 9 \<Longrightarrow> Atoi (decimal n) = Some (int n)"
proof -
  assume n: "n < 10 ^ 9"
  obtain c cs where d: "decimal n = c # cs" using decimal_digits by (metis list.exhaust)
  then have "isDigit c" using decimal_digits [of n] by simp
  then show ?thesis using digit_not [of c] decimal_digits [of n] digitsValue_decimal [of n] n
    by (simp add: Atoi_def d Let_def)
qed

lemma splitSemicolons_digits: "list_all isDigit ds \<Longrightarrow> splitSemicolons ds = [ds]"
  by (induction ds) (auto dest: digit_not)

lemma splitSemicolons_cons: "list_all isDigit ds \<Longrightarrow> splitSemicolons (ds @ 0x3b # rest) = ds # splitSemicolons rest"
  by (induction ds) (auto dest: digit_not)

lemma parseParams_report:
  assumes "cb < 10 ^ 9" "x + 1 < 10 ^ 9" "y + 1 < 10 ^ 9"
  shows "parseParams (decimal cb @ [0x3b] @ decimal (x + 1) @ [0x3b] @ decimal (y + 1)) release = Some (reported cb x y release)"
proof -
  have "splitSemicolons (decimal cb @ [0x3b] @ decimal (x + 1) @ [0x3b] @ decimal (y + 1)) = [decimal cb, decimal (x + 1), decimal (y + 1)]"
    using decimal_digits by (simp add: splitSemicolons_cons splitSemicolons_digits)
  then show ?thesis using assms unfolding parseParams_def by (simp add: Atoi_decimal reported_def)
qed

lemma feedAll_params:
  "state p = stateParams \<Longrightarrow> length (buf p) + length ps \<le> 32 \<Longrightarrow> list_all (\<lambda>b. isDigit b \<or> b = 0x3b) ps \<Longrightarrow>
     feedAll ps p = ([], p\<lparr>buf := buf p @ ps\<rparr>)"
proof (induction ps arbitrary: p)
  case (Cons b ps)
  then have "Feed b p = (consumed, push b p)" by (auto simp: Feed_def push_def Let_def dest: digit_not)
  then show ?case using Cons by (simp add: consumed_def push_def)
qed simp

definition reportBody :: "nat \<Rightarrow> nat \<Rightarrow> nat \<Rightarrow> byte list" where
  "reportBody cb x y = [0x1b, 0x5b, 0x3c] @ decimal cb @ [0x3b] @ decimal (x + 1) @ [0x3b] @ decimal (y + 1)"

lemma report_eq: "report cb x y release = reportBody cb x y @ [if release then 0x6d else 0x4d]"
  by (simp add: report_def reportBody_def)

lemma feedAll_reportBody:
  assumes "cb < 10 ^ 9" "x + 1 < 10 ^ 9" "y + 1 < 10 ^ 9" "parser_ok p" "state p = stateNone"
  shows "feedAll (reportBody cb x y) p = ([], p\<lparr>state := stateParams, buf := reportBody cb x y\<rparr>)"
proof -
  let ?ps = "decimal cb @ [0x3b] @ decimal (x + 1) @ [0x3b] @ decimal (y + 1)"
  obtain c cs where d: "decimal cb = c # cs" using decimal_digits by (metis list.exhaust)
  define qs where "qs = cs @ [0x3b] @ decimal (x + 1) @ [0x3b] @ decimal (y + 1)"
  have ps: "?ps = c # qs" by (simp add: d qs_def)
  have len: "length ?ps \<le> 29" using length_decimal [of cb 8] length_decimal [of "x + 1" 8] length_decimal [of "y + 1" 8] assms by simp
  have ok: "list_all (\<lambda>b. isDigit b \<or> b = 0x3b) ?ps" using decimal_digits by (auto simp: list_all_iff)
  let ?p3 = "p\<lparr>state := stateParams, buf := [0x1b, 0x5b, 0x3c, c]\<rparr>"
  have start: "feedAll [0x1b, 0x5b, 0x3c, c] p = ([], ?p3)"
    using assms(4,5) by (simp add: Feed_def parser_ok_def push_def consumed_def)
  have mid: "feedAll qs ?p3 = ([], ?p3\<lparr>buf := [0x1b, 0x5b, 0x3c, c] @ qs\<rparr>)"
    using feedAll_params [of ?p3 qs] len ok unfolding ps by simp
  have "reportBody cb x y = [0x1b, 0x5b, 0x3c, c] @ qs" unfolding reportBody_def using d by (simp add: qs_def)
  then show ?thesis by (simp add: feedAll_append start mid del: feedAll.simps append_Cons)
qed

lemma feedAll_report:
  assumes "cb < 10 ^ 9" "x + 1 < 10 ^ 9" "y + 1 < 10 ^ 9" "parser_ok p" "state p = stateNone"
  shows "feedAll (report cb x y release) p =
    ([Mouse ((reported cb x y release)\<lparr>ev_LastX := (if hasLast p then lastX p else int x), ev_LastY := (if hasLast p then lastY p else int y)\<rparr>)],
     p\<lparr>lastX := int x, lastY := int y, hasLast := True\<rparr>)"
proof -
  let ?f = "if release then 0x6d else 0x4d :: byte" and ?p = "p\<lparr>state := stateParams, buf := reportBody cb x y\<rparr>"
  let ?q = "?p\<lparr>state := stateNone, buf := []\<rparr>"
  have "drop 3 (reportBody cb x y) = decimal cb @ [0x3b] @ decimal (x + 1) @ [0x3b] @ decimal (y + 1)" by (simp add: reportBody_def)
  then have "parseParams (drop 3 (reportBody cb x y)) release = Some (reported cb x y release)"
    using parseParams_report [OF assms(1-3), of release] by simp
  then have "Feed ?f ?p = reportEvent (reported cb x y release) ?q" by (cases release) (simp_all add: Feed_def)
  moreover have "?q = p" using assms(4,5) by (cases p) (simp add: parser_ok_def)
  moreover have "ev_X (reported cb x y release) = int x" "ev_Y (reported cb x y release) = int y" by (simp_all add: reported_def)
  ultimately show ?thesis by (simp add: report_eq feedAll_append feedAll_reportBody [OF assms] reportEvent_def)
qed

text \<open>The only escape byte of a report is its first byte, and there is no NUL in it.\<close>

lemma report_bytes: "b \<in> set (tl (report cb x y release)) \<Longrightarrow> b \<noteq> 0x1b \<and> b \<noteq> 0"
proof -
  have "b \<noteq> 0x1b \<and> b \<noteq> 0" if "b \<in> set (decimal n)" for n
    using that decimal_digits [of n] by (auto simp: list_all_iff isDigit_def)
  then show "b \<in> set (tl (report cb x y release)) \<Longrightarrow> ?thesis" by (auto simp: report_def split: if_splits)
qed

end
