(* ===== verification/Mouse_Buffer.thy ===== *)
theory Mouse_Buffer
  imports Mouse_Laws
begin

text \<open>
  The mouse parser over the buffer the Go code has: a slice of bytes, that is a length and a
  backing array in memory, which \<^verbatim>\<open>append\<close> writes to in place while its capacity lasts. It refines
  the parser over lists as long as nobody else writes to the array. \<^verbatim>\<open>InputLooksLikeMouse\<close> has a
  value receiver: it works on a copy of the parser that shares the array.
\<close>

section \<open>Slices of bytes\<close>

record memory =
  arrays :: "nat \<Rightarrow> byte list"
  nextArray :: nat

record slice =
  sl_array :: nat
  sl_len :: nat

definition bytesOf :: "slice \<Rightarrow> memory \<Rightarrow> byte list" where
  "bytesOf s m = take (sl_len s) (arrays m (sl_array s))"

text \<open>
  \<^verbatim>\<open>append(s, b)\<close>: in place if the capacity allows, else into a new array. How much larger the new
  array is, is up to the runtime: \<open>grow n\<close> is the capacity it chooses for \<open>n\<close> bytes.
\<close>

definition appendByte :: "(nat \<Rightarrow> nat) \<Rightarrow> byte \<Rightarrow> slice \<Rightarrow> memory \<Rightarrow> slice \<times> memory" where
  "appendByte grow b s m =
     (let a = arrays m (sl_array s); n = sl_len s in
      if n < length a then (s\<lparr>sl_len := n + 1\<rparr>, m\<lparr>arrays := (arrays m)(sl_array s := a[n := b])\<rparr>)
      else (\<lparr>sl_array = nextArray m, sl_len = n + 1\<rparr>,
            m\<lparr>arrays := (arrays m)(nextArray m := take n a @ [b] @ replicate (grow (n + 1) - (n + 1)) 0),
              nextArray := nextArray m + 1\<rparr>))"

definition emptied :: "slice \<Rightarrow> slice" where
  "emptied s = s\<lparr>sl_len := 0\<rparr>"

section \<open>The parser over a slice\<close>

record SParser =
  sbuf :: slice
  sstate :: parseState
  slastX :: int
  slastY :: int
  shasLast :: bool

type_synonym sfed = "fed \<times> SParser \<times> memory"

definition sflush :: "byte \<Rightarrow> SParser \<Rightarrow> memory \<Rightarrow> sfed" where
  "sflush extra p m =
     ((zeroEvent, False, bytesOf (sbuf p) m @ (if extra \<noteq> 0 then [extra] else [])),
      p\<lparr>sstate := stateNone, sbuf := emptied (sbuf p)\<rparr>, m)"

definition spush :: "(nat \<Rightarrow> nat) \<Rightarrow> byte \<Rightarrow> SParser \<Rightarrow> memory \<Rightarrow> SParser \<times> memory" where
  "spush grow b p m = (let (s, m1) = appendByte grow b (sbuf p) m in (p\<lparr>sbuf := s\<rparr>, m1))"

definition sreportEvent :: "Event \<Rightarrow> SParser \<Rightarrow> fed \<times> SParser" where
  "sreportEvent ev p =
     (((if shasLast p then ev\<lparr>ev_LastX := slastX p, ev_LastY := slastY p\<rparr>
        else ev\<lparr>ev_LastX := ev_X ev, ev_LastY := ev_Y ev\<rparr>), True, []),
      p\<lparr>slastX := ev_X ev, slastY := ev_Y ev, shasLast := True\<rparr>)"

definition sFeed :: "(nat \<Rightarrow> nat) \<Rightarrow> byte \<Rightarrow> SParser \<Rightarrow> memory \<Rightarrow> sfed" where
  "sFeed grow b p m =
     (case sstate p of
        stateNone \<Rightarrow>
          if b = 0x1b then (consumed, spush grow b (p\<lparr>sstate := stateEsc, sbuf := emptied (sbuf p)\<rparr>) m)
          else ((zeroEvent, False, [b]), p, m)
      | stateEsc \<Rightarrow>
          if b = 0x5b then (consumed, spush grow b (p\<lparr>sstate := stateBracket\<rparr>) m)
          else sflush b p m
      | stateBracket \<Rightarrow>
          if b = 0x3c then (consumed, spush grow b (p\<lparr>sstate := stateLt\<rparr>) m)
          else if isCSIFinalByte b then (case spush grow b p m of (p1, m1) \<Rightarrow> sflush 0 p1 m1)
          else if isCSIIntermediateByte b \<or> isCSIParamByte b then (consumed, spush grow b (p\<lparr>sstate := stateCSI\<rparr>) m)
          else sflush b p m
      | stateCSI \<Rightarrow>
          (case spush grow b p m of (p1, m1) \<Rightarrow>
             if sl_len (sbuf p1) > 64 then sflush 0 p1 m1
             else if isCSIFinalByte b then sflush 0 p1 m1
             else if isCSIIntermediateByte b \<or> isCSIParamByte b then (consumed, p1, m1)
             else sflush 0 p1 m1)
      | stateLt \<Rightarrow> (consumed, spush grow b (p\<lparr>sstate := stateParams\<rparr>) m)
      | stateParams \<Rightarrow>
          if b = 0x4d \<or> b = 0x6d then
            (case parseParams (drop 3 (bytesOf (sbuf p) m)) (b = 0x6d) of
               Some ev \<Rightarrow> (case sreportEvent ev (p\<lparr>sstate := stateNone, sbuf := emptied (sbuf p)\<rparr>) of (r, p1) \<Rightarrow> (r, p1, m))
             | None \<Rightarrow> (consumed, p\<lparr>sstate := stateNone, sbuf := emptied (sbuf p)\<rparr>, m))
          else if isDigit b \<or> b = 0x3b then
            (case spush grow b p m of (p1, m1) \<Rightarrow>
               if sl_len (sbuf p1) > 32 then sflush 0 p1 m1 else (consumed, p1, m1))
          else sflush b p m)"

fun sfeedAll :: "(nat \<Rightarrow> nat) \<Rightarrow> byte list \<Rightarrow> SParser \<Rightarrow> memory \<Rightarrow> chunk list \<times> SParser \<times> memory" where
  "sfeedAll grow [] p m = ([], p, m)"
| "sfeedAll grow (b # bs) p m =
     (let ((ev, isMouse, flushed), p1, m1) = sFeed grow b p m; (rest, p2, m2) = sfeedAll grow bs p1 m1
      in ((if isMouse then [Mouse ev] else if flushed = [] then [] else [Input flushed]) @ rest, p2, m2))"

text \<open>The value receiver: the copy of the parser is dropped at the end, what it wrote to memory stays.\<close>

fun sInputLooksLikeMouse_from :: "(nat \<Rightarrow> nat) \<Rightarrow> bool \<Rightarrow> byte list \<Rightarrow> SParser \<Rightarrow> memory \<Rightarrow> bool \<times> memory" where
  "sInputLooksLikeMouse_from grow sawMouse [] p m =
     ((if sawMouse then True else sstate p = stateLt \<or> sstate p = stateParams), m)"
| "sInputLooksLikeMouse_from grow sawMouse (b # bs) p m =
     (let ((ev, isMouse, flushed), p1, m1) = sFeed grow b p m
      in if isMouse then sInputLooksLikeMouse_from grow True bs p1 m1
         else if length flushed > 0 then (False, m1)
         else sInputLooksLikeMouse_from grow sawMouse bs p1 m1)"

definition sInputLooksLikeMouse :: "(nat \<Rightarrow> nat) \<Rightarrow> byte list \<Rightarrow> SParser \<Rightarrow> memory \<Rightarrow> bool \<times> memory" where
  "sInputLooksLikeMouse grow raw p m = sInputLooksLikeMouse_from grow False raw p m"

definition newSParser :: SParser where
  "newSParser = \<lparr>sbuf = \<lparr>sl_array = 0, sl_len = 0\<rparr>, sstate = stateNone, slastX = 0, slastY = 0, shasLast = False\<rparr>"

definition newMemory :: memory where
  "newMemory = \<lparr>arrays = (\<lambda>_. []), nextArray = 1\<rparr>"

section \<open>Refinement\<close>

definition parserOf :: "SParser \<Rightarrow> memory \<Rightarrow> Parser" where
  "parserOf p m = \<lparr>buf = bytesOf (sbuf p) m, state = sstate p, lastX = slastX p, lastY = slastY p, hasLast = shasLast p\<rparr>"

definition slice_ok :: "slice \<Rightarrow> memory \<Rightarrow> bool" where
  "slice_ok s m \<longleftrightarrow> sl_len s \<le> length (arrays m (sl_array s)) \<and> sl_array s < nextArray m"

lemma bytesOf_emptied [simp]: "bytesOf (emptied s) m = []"
  by (simp add: bytesOf_def emptied_def)

lemma length_bytesOf: "slice_ok s m \<Longrightarrow> length (bytesOf s m) = sl_len s"
  by (simp add: bytesOf_def slice_ok_def)

lemma emptied_ok [simp]: "slice_ok s m \<Longrightarrow> slice_ok (emptied s) m"
  by (simp add: slice_ok_def emptied_def)

lemma appendByte_bytes:
  assumes "slice_ok s m" "appendByte grow b s m = (s', m')"
  shows "bytesOf s' m' = bytesOf s m @ [b]" "slice_ok s' m'"
    "\<And>i. i < nextArray m \<Longrightarrow> i \<noteq> sl_array s \<Longrightarrow> arrays m' i = arrays m i" "nextArray m \<le> nextArray m'"
  using assms
  by (auto simp: appendByte_def bytesOf_def slice_ok_def Let_def take_Suc_conv_app_nth split: if_splits)

lemma parserOf_update [simp]:
  "parserOf (p\<lparr>sstate := st\<rparr>) m = (parserOf p m)\<lparr>state := st\<rparr>"
  "parserOf (p\<lparr>sstate := st, sbuf := emptied (sbuf p)\<rparr>) m = (parserOf p m)\<lparr>state := st, buf := []\<rparr>"
  "state (parserOf p m) = sstate p" "buf (parserOf p m) = bytesOf (sbuf p) m" "hasLast (parserOf p m) = shasLast p"
  "lastX (parserOf p m) = slastX p" "lastY (parserOf p m) = slastY p"
  by (simp_all add: parserOf_def)

lemma spush_refines:
  assumes "slice_ok (sbuf p) m" "spush grow b p m = (p', m')"
  shows "parserOf p' m' = push b (parserOf p m) \<and> slice_ok (sbuf p') m' \<and>
    sl_len (sbuf p') = length (buf (push b (parserOf p m)))"
proof -
  obtain s where s: "appendByte grow b (sbuf p) m = (s, m')" "p' = p\<lparr>sbuf := s\<rparr>"
    using assms(2) by (auto simp: spush_def split: prod.splits)
  note a = appendByte_bytes [OF assms(1) s(1)]
  have "sl_len s = length (bytesOf s m')" by (simp add: length_bytesOf [OF a(2)])
  then show ?thesis using a s(2) by (simp add: parserOf_def push_def)
qed

lemma sflush_refines:
  "slice_ok (sbuf p) m \<Longrightarrow> sflush e p m = (r, p', m') \<Longrightarrow> parser_flush e (parserOf p m) = (r, parserOf p' m') \<and> slice_ok (sbuf p') m'"
  by (auto simp: sflush_def parser_flush_def)

lemma spush_in_state:
  assumes ok: "slice_ok (sbuf p) m"
  shows "spush grow b (p\<lparr>sstate := st\<rparr>) m = (p2, m2) \<Longrightarrow>
      parserOf p2 m2 = push b ((parserOf p m)\<lparr>state := st\<rparr>) \<and> slice_ok (sbuf p2) m2"
    and "spush grow b (p\<lparr>sstate := st, sbuf := emptied (sbuf p)\<rparr>) m = (p2, m2) \<Longrightarrow>
      parserOf p2 m2 = (parserOf p m)\<lparr>state := st, buf := [b]\<rparr> \<and> slice_ok (sbuf p2) m2"
  using spush_refines [of "p\<lparr>sstate := st\<rparr>" m grow b p2 m2]
    spush_refines [of "p\<lparr>sstate := st, sbuf := emptied (sbuf p)\<rparr>" m grow b p2 m2] ok
  by (simp_all add: push_def)

lemma sFeed_refines:
  assumes ok: "slice_ok (sbuf p) m" and fed: "sFeed grow b p m = (r, p', m')"
  shows "Feed b (parserOf p m) = (r, parserOf p' m') \<and> slice_ok (sbuf p') m'"
proof -
  obtain p1 m1 where pm: "spush grow b p m = (p1, m1)" by fastforce
  note push1 = spush_refines [OF ok pm]
  note push2 = spush_in_state(1) [OF ok] and push3 = spush_in_state(2) [OF ok]
  note flush0 = sflush_refines [OF ok, of _ r p' m']
  have flush1: "parser_flush e (push b (parserOf p m)) = (r, parserOf p' m') \<and> slice_ok (sbuf p') m'" if "sflush e p1 m1 = (r, p', m')" for e
    using sflush_refines [of p1 m1 e r p' m'] push1 that by simp
  show ?thesis
  proof (cases "sstate p")
    case stateNone
    then show ?thesis using fed ok push3 by (auto simp: sFeed_def Feed_def split: if_splits)
  next
    case stateEsc
    then show ?thesis using fed push2 flush0 by (auto simp: sFeed_def Feed_def split: if_splits)
  next
    case stateBracket
    then show ?thesis using fed push2 flush0 flush1 pm by (auto simp: sFeed_def Feed_def split: if_splits)
  next
    case stateLt
    then show ?thesis using fed push2 by (auto simp: sFeed_def Feed_def)
  next
    case stateCSI
    then show ?thesis using fed push1 flush1 pm by (auto simp: sFeed_def Feed_def Let_def split: if_splits)
  next
    case stateParams
    consider (final) "b = 0x4d \<or> b = 0x6d" | (param) "\<not> (b = 0x4d \<or> b = 0x6d)" "isDigit b \<or> b = 0x3b"
      | (other) "\<not> (b = 0x4d \<or> b = 0x6d)" "\<not> (isDigit b \<or> b = 0x3b)" by blast
    then show ?thesis
    proof cases
      case final
      then show ?thesis using fed ok stateParams
        by (cases "parseParams (drop 3 (bytesOf (sbuf p) m)) (b = 0x6d)")
          (auto simp: sFeed_def Feed_def sreportEvent_def reportEvent_def parserOf_def)
    next
      case param
      then show ?thesis using fed push1 flush1 pm stateParams by (auto simp: sFeed_def Feed_def Let_def split: if_splits)
    next
      case other
      then show ?thesis using fed flush0 stateParams by (auto simp: sFeed_def Feed_def)
    qed
  qed
qed

lemma sfeedAll_refines:
  "slice_ok (sbuf p) m \<Longrightarrow> sfeedAll grow bs p m = (cs, p', m') \<Longrightarrow>
     feedAll bs (parserOf p m) = (cs, parserOf p' m') \<and> slice_ok (sbuf p') m'"
proof (induction bs arbitrary: p m cs)
  case (Cons b bs)
  obtain r p1 m1 where f: "sFeed grow b p m = (r, p1, m1)" by (metis prod.collapse)
  obtain cs1 where "sfeedAll grow bs p1 m1 = (cs1, p', m')" using Cons.prems(2) f by (auto simp: Let_def split: prod.splits)
  then show ?case using Cons.IH [of p1 m1 cs1] sFeed_refines [OF Cons.prems(1) f] Cons.prems(2) f by (auto simp: Let_def split: prod.splits)
qed simp

lemma sInputLooksLikeMouse_from_refines:
  "slice_ok (sbuf p) m \<Longrightarrow> fst (sInputLooksLikeMouse_from grow saw raw p m) = InputLooksLikeMouse_from saw raw (parserOf p m)"
proof (induction raw arbitrary: p m saw)
  case (Cons b bs)
  obtain ev k fl p1 m1 where f: "sFeed grow b p m = ((ev, k, fl), p1, m1)" by (metis prod.collapse)
  then show ?case using Cons.IH sFeed_refines [OF Cons.prems f] by simp
qed simp

end
