(* ===== verification/Mouse_Properties.thy ===== *)
theory Mouse_Properties
  imports Mouse_Buffer
begin

text \<open>What the mouse parser promises its caller, and where the code does not keep it.\<close>

section \<open>A report that is cut\<close>

definition cut_first :: "byte list" where
  "cut_first = [0x1b, 0x5b, 0x3c, 0x30, 0x3b, 0x31, 0x3b]"

definition cut_rest :: "byte list" where
  "cut_rest = [0x35, 0x4d, 0x1b, 0x5b, 0x3c, 0x36, 0x34, 0x3b, 0x37]"

section \<open>Properties\<close>

text \<open>
  C26. What becomes of every byte. Whatever bytes arrive, the input is cut into pieces, in order and
  without gaps: pieces that are handed back unchanged, complete mouse reports with their events, and
  at the end what is still buffered, at most 64 bytes. Only two kinds of pieces lose bytes: a malformed
  report (\<^verbatim>\<open>ESC [ <\<close> to \<^verbatim>\<open>M\<close> or \<^verbatim>\<open>m\<close> with parameters that are not three numbers) is dropped, and a
  sequence that a NUL byte breaks off is handed back without that NUL.
\<close>

theorem mouse_input_pieces:
  assumes "parser_ok p" "feedAll bs p = (cs, p')"
  shows "\<exists>segs. list_all segment_ok segs \<and> cs = concat (map snd segs) \<and> buf p @ bs = concat (map fst segs) @ buf p' \<and>
    parser_ok p' \<and> length (buf p') \<le> 64"
proof -
  obtain segs where segs: "list_all segment_ok segs" "fst (feedAll bs p) = concat (map snd segs)"
    "buf p @ bs = concat (map fst segs) @ buf (snd (feedAll bs p))" using feedAll_conserves [OF assms(1)] by blast
  have ok: "parser_ok p'" using feedAll_ok [OF assms(1), of bs] assms(2) by simp
  show ?thesis using segs assms(2) ok parser_ok_bound [OF ok] by (intro exI [of _ segs]) simp
qed

theorem mouse_input_pieces_witness:
  "\<exists>segs. list_all segment_ok segs \<and> [0x1b, 0x5b, 0x41, 0x1b, 0, 0x71] = concat (map fst segs) \<and>
     concat (map snd segs) = [Input [0x1b, 0x5b, 0x41], Input [0x1b], Input [0x71]]"
proof -
  have "feedAll [0x1b, 0x5b, 0x41, 0x1b, 0, 0x71] newParser = ([Input [0x1b, 0x5b, 0x41], Input [0x1b], Input [0x71]], newParser)" by code_simp
  from mouse_input_pieces [OF _ this] show ?thesis by (auto simp: newParser_def parser_ok_def)
qed

text \<open>
  C27. A mouse report of a terminal gives its event: button, modifiers and zero-based position, with
  the position of the event before it. It does so when it arrives in two reads, wherever the cut
  is, and although the caller flushes a lone escape byte at the end of each read; the only cut
  that breaks the report is the one right after its escape byte.
\<close>

theorem report_roundtrip:
  assumes "cb < 10 ^ 9" "x + 1 < 10 ^ 9" "y + 1 < 10 ^ 9" "parser_ok p" "state p = stateNone"
    "report cb x y release = first @ second" "length first \<noteq> 1" "second \<noteq> []"
    "feedAll first p = (cs1, p1)" "FlushPending p1 = (flushed, p2)" "feedAll second p2 = (cs2, p3)"
  shows "cs1 = [] \<and> flushed = [] \<and>
    cs2 = [Mouse ((reported cb x y release)\<lparr>ev_LastX := (if hasLast p then lastX p else int x), ev_LastY := (if hasLast p then lastY p else int y)\<rparr>)] \<and>
    p3 = p\<lparr>lastX := int x, lastY := int y, hasLast := True\<rparr>"
proof -
  obtain rest where "reportBody cb x y = first @ rest"
    using assms(6,8) unfolding report_eq by (metis butlast_append butlast_snoc)
  then have cs1: "cs1 = []" using feedAll_reportBody [OF assms(1-5)] assms(9) by (simp add: feedAll_append)
  have hd: "first = hd (report cb x y release) # tl first" "set (tl first) \<subseteq> set (tl (report cb x y release))" if "first \<noteq> []"
    using that assms(6) by (cases first; simp)+
  have "state p1 \<noteq> stateEsc"
  proof
    assume esc: "state p1 = stateEsc"
    have ok1: "parser_ok p1" using feedAll_ok [OF assms(4), of first] assms(9) by simp
    obtain pre where "first = pre @ [0x1b]"
      using feedAll_conserves [OF assms(4), of first] assms(4,5,9) ok1 esc by (auto simp: parser_ok_def)
    then show False using assms(7) hd report_bytes [of "0x1b" cb x y release] by (cases pre) auto
  qed
  then have "flushed = []" "p2 = p1" using assms(10) by (auto simp: FlushPending_def)
  then show ?thesis using feedAll_report [OF assms(1-5), of release] assms(6,9,11) cs1 by (simp add: feedAll_append)
qed

theorem report_roundtrip_witness:
  "\<exists>p1 p3. feedAll [0x1b, 0x5b, 0x3c, 0x30, 0x3b] newParser = ([], p1) \<and>
     feedAll [0x33, 0x3b, 0x35, 0x4d] p1 = ([Mouse ((reported 0 2 4 False)\<lparr>ev_LastX := 2, ev_LastY := 4\<rparr>)], p3)"
proof -
  have r: "report 0 2 4 False = [0x1b, 0x5b, 0x3c, 0x30, 0x3b] @ [0x33, 0x3b, 0x35, 0x4d]" by code_simp
  obtain cs1 p1 where f1: "feedAll [0x1b, 0x5b, 0x3c, 0x30, 0x3b] newParser = (cs1, p1)" by fastforce
  obtain fl p2 where fp: "FlushPending p1 = (fl, p2)" by fastforce
  obtain cs2 p3 where f2: "feedAll [0x33, 0x3b, 0x35, 0x4d] p2 = (cs2, p3)" by fastforce
  have "p2 = p1" using fp f1 by (auto simp: FlushPending_def newParser_def Feed_def push_def consumed_def isDigit_def)
  then show ?thesis using report_roundtrip [OF _ _ _ _ _ r _ _ f1 fp f2] f1 f2 by (simp add: newParser_def parser_ok_def)
qed

text \<open>
  A NUL byte after an escape byte is lost: the escape byte is given back alone. (\<^verbatim>\<open>flush\<close> takes
  0 to mean that there is no further byte.)
\<close>

theorem escape_NUL_lost:
  assumes "parser_ok p" "state p = stateNone"
  shows "feedAll [0x1b, 0] p = ([Input [0x1b]], p)"
  using assms by (cases p) (simp add: parser_ok_def Feed_def consumed_def parser_flush_def)

theorem escape_NUL_lost_witness: "feedAll [0x1b, 0] newParser = ([Input [0x1b]], newParser)"
  by (rule escape_NUL_lost) (simp_all add: newParser_def parser_ok_def)

text \<open>
  C28. The parser over a slice and its backing array behaves as the parser over a list of bytes, for
  every input and however the runtime grows the array, and so does the answer of
  \<^verbatim>\<open>InputLooksLikeMouse\<close>; between two sequences that call leaves the parser as it was.
\<close>

theorem slice_parser_refines:
  assumes "slice_ok (sbuf p) m"
  shows "(case sfeedAll grow bs p m of (cs, p', m') \<Rightarrow> feedAll bs (parserOf p m) = (cs, parserOf p' m') \<and> slice_ok (sbuf p') m') \<and>
    (case sInputLooksLikeMouse grow bs p m of (looks, m') \<Rightarrow>
       looks = InputLooksLikeMouse bs (parserOf p m) \<and> (sl_len (sbuf p) = 0 \<longrightarrow> parserOf p m' = parserOf p m))"
proof -
  obtain cs p1 m1 where f: "sfeedAll grow bs p m = (cs, p1, m1)" by (metis prod.collapse)
  obtain looks m2 where l: "sInputLooksLikeMouse grow bs p m = (looks, m2)" by fastforce
  have "fst (sInputLooksLikeMouse grow bs p m) = InputLooksLikeMouse bs (parserOf p m)"
    unfolding sInputLooksLikeMouse_def InputLooksLikeMouse_def by (rule sInputLooksLikeMouse_from_refines [OF assms])
  moreover have "parserOf p m2 = parserOf p m" if "sl_len (sbuf p) = 0" using that by (simp add: parserOf_def bytesOf_def)
  ultimately show ?thesis unfolding f l prod.case using sfeedAll_refines [OF assms f] l by auto
qed

theorem slice_parser_refines_witness:
  "\<exists>p m. sfeedAll (\<lambda>n. 8) cut_first newSParser newMemory = ([], p, m) \<and> parserOf p m = newParser\<lparr>state := stateParams, buf := cut_first\<rparr>"
proof -
  have "slice_ok (sbuf newSParser) newMemory" "parserOf newSParser newMemory = newParser"
    "feedAll cut_first newParser = ([], newParser\<lparr>state := stateParams, buf := cut_first\<rparr>)"
    by (simp add: newSParser_def newMemory_def slice_ok_def, simp add: newSParser_def newMemory_def parserOf_def newParser_def bytesOf_def, code_simp)
  then show ?thesis using slice_parser_refines [of newSParser newMemory, where grow = "\<lambda>n. 8" and bs = cut_first] by (auto split: prod.splits)
qed

text \<open>
  C35. In the middle of a sequence it does not: \<^verbatim>\<open>InputLooksLikeMouse\<close> writes to the array the parser
  still reads. A report \<^verbatim>\<open>ESC [ < 0 ; 1 ; 5 M\<close> that is cut before the 5, with the start of another
  one after it, gives its event when the rest is fed, and gives none when the caller asks
  \<^verbatim>\<open>InputLooksLikeMouse\<close> about the rest first. (A new array has room for eight bytes.)
\<close>

theorem InputLooksLikeMouse_clobbers:
  assumes "grow 1 = 8"
  shows "\<exists>p m m' ev. sfeedAll grow cut_first newSParser newMemory = ([], p, m) \<and>
    sInputLooksLikeMouse grow cut_rest p m = (True, m') \<and>
    fst (sfeedAll grow cut_rest p m) = [Mouse ev] \<and> fst (sfeedAll grow cut_rest p m') = []"
proof -
  let ?p = "newSParser\<lparr>sstate := stateParams, sbuf := \<lparr>sl_array = 1, sl_len = 7\<rparr>\<rparr>"
  let ?mem = "\<lambda>a. \<lparr>arrays = (\<lambda>_. [])(1 := a), nextArray = 2\<rparr>"
  have upd: "(x # xs)[numeral k := v] = x # xs[pred_numeral k := v]" for x :: byte and xs k v by (simp add: numeral_eq_Suc)
  have rep: "replicate 7 (0 :: byte) = [0, 0, 0, 0, 0, 0, 0]" by (simp add: numeral_eq_Suc)
  note run = newSParser_def newMemory_def sFeed_def spush_def appendByte_def emptied_def consumed_def isDigit_def sreportEvent_def bytesOf_def
    upd rep
  obtain ev where ev: "parseParams [0x30, 0x3b, 0x31, 0x3b, 0x35] False = Some ev"
    using parseParams_report [of 0 0 4 False] by (simp add: decimal.simps)
  have bad: "parseParams [0x36, 0x34, 0x3b, 0x37, 0x35] False = None" by code_simp
  have first: "sfeedAll grow cut_first newSParser newMemory = ([], ?p, ?mem (cut_first @ [0]))"
    using assms by (simp add: cut_first_def run)
  moreover have "sInputLooksLikeMouse grow cut_rest ?p (?mem (cut_first @ [0])) = (True, ?mem [0x1b, 0x5b, 0x3c, 0x36, 0x34, 0x3b, 0x37, 0x35])"
    using ev by (simp add: sInputLooksLikeMouse_def cut_first_def cut_rest_def run)
  moreover have "\<exists>ev'. fst (sfeedAll grow cut_rest ?p (?mem (cut_first @ [0]))) = [Mouse ev']"
    using ev by (simp add: cut_first_def cut_rest_def run)
  moreover have "fst (sfeedAll grow cut_rest ?p (?mem [0x1b, 0x5b, 0x3c, 0x36, 0x34, 0x3b, 0x37, 0x35])) = []"
    using bad by (simp add: cut_rest_def run)
  ultimately show ?thesis by blast
qed

theorem InputLooksLikeMouse_clobbers_witness:
  "\<exists>p m m' ev. sInputLooksLikeMouse (\<lambda>n. 8 * ((n + 7) div 8)) cut_rest p m = (True, m') \<and>
     fst (sfeedAll (\<lambda>n. 8 * ((n + 7) div 8)) cut_rest p m) = [Mouse ev] \<and> fst (sfeedAll (\<lambda>n. 8 * ((n + 7) div 8)) cut_rest p m') = []"
  using InputLooksLikeMouse_clobbers [of "\<lambda>n. 8 * ((n + 7) div 8)"] by auto

end
