(* ===== verification/Go_Strings.thy ===== *)
theory Go_Strings
  imports Amux_Prelude "HOL-Library.Char_ord" "HOL-Library.List_Lexorder"
begin

text \<open>
  What the code uses of Go's strings: a string is the list of its bytes (characters of codes 0 to
  255, ordered by code), with UTF-8 validation, trimming of white space and decimal numbers.
\<close>

section \<open>UTF-8\<close>

abbreviation byteOf :: "char \<Rightarrow> nat" where
  "byteOf c \<equiv> of_char c"

definition isCont :: "char \<Rightarrow> bool" where
  "isCont c \<longleftrightarrow> 0x80 \<le> byteOf c \<and> byteOf c \<le> 0xBF"

definition between :: "nat \<Rightarrow> nat \<Rightarrow> char \<Rightarrow> bool" where
  "between lo hi c \<longleftrightarrow> lo \<le> byteOf c \<and> byteOf c \<le> hi"

text \<open>The runes of a valid UTF-8 string; \<open>None\<close> when it is not valid.\<close>

fun runes :: "string \<Rightarrow> nat list option" where
  "runes [] = Some []"
| "runes (a # s) =
     (if byteOf a < 0x80 then map_option ((#) (byteOf a)) (runes s)
      else case s of
        [] \<Rightarrow> None
      | b # s2 \<Rightarrow>
          if between 0xC2 0xDF a then
            (if isCont b then map_option ((#) ((byteOf a - 0xC0) * 64 + (byteOf b - 0x80))) (runes s2) else None)
          else (case s2 of
            [] \<Rightarrow> None
          | c # s3 \<Rightarrow>
              if between 0xE0 0xEF a then
                (if (if byteOf a = 0xE0 then between 0xA0 0xBF b else if byteOf a = 0xED then between 0x80 0x9F b else isCont b) \<and> isCont c
                 then map_option ((#) ((byteOf a - 0xE0) * 4096 + (byteOf b - 0x80) * 64 + (byteOf c - 0x80))) (runes s3) else None)
              else (case s3 of
                [] \<Rightarrow> None
              | d # s4 \<Rightarrow>
                  if between 0xF0 0xF4 a \<and>
                     (if byteOf a = 0xF0 then between 0x90 0xBF b else if byteOf a = 0xF4 then between 0x80 0x8F b else isCont b) \<and>
                     isCont c \<and> isCont d
                  then map_option ((#) ((byteOf a - 0xF0) * 262144 + (byteOf b - 0x80) * 4096 + (byteOf c - 0x80) * 64 + (byteOf d - 0x80)))
                         (runes s4)
                  else None)))"

definition utf8Valid :: "string \<Rightarrow> bool" where
  "utf8Valid s \<longleftrightarrow> runes s \<noteq> None"

text \<open>\<^verbatim>\<open>unicode.IsControl\<close>: the category Cc.\<close>

definition isControl :: "nat \<Rightarrow> bool" where
  "isControl r \<longleftrightarrow> r < 0x20 \<or> 0x7F \<le> r \<and> r \<le> 0x9F"

section \<open>White space\<close>

text \<open>\<^verbatim>\<open>strings.TrimSpace\<close>: the encodings of the Unicode white space characters.\<close>

definition spaceEncodings :: "string list" where
  "spaceEncodings =
     [[CHR 0x09], [CHR 0x0A], [CHR 0x0B], [CHR 0x0C], [CHR 0x0D], [CHR 0x20], [CHR 0xC2, CHR 0x85], [CHR 0xC2, CHR 0xA0],
      [CHR 0xE1, CHR 0x9A, CHR 0x80]] @
     map (\<lambda>c. [CHR 0xE2, CHR 0x80, c])
       [CHR 0x80, CHR 0x81, CHR 0x82, CHR 0x83, CHR 0x84, CHR 0x85, CHR 0x86, CHR 0x87, CHR 0x88, CHR 0x89, CHR 0x8A,
        CHR 0xA8, CHR 0xA9, CHR 0xAF] @
     [[CHR 0xE2, CHR 0x81, CHR 0x9F], [CHR 0xE3, CHR 0x80, CHR 0x80]]"

definition spacePrefix :: "string list \<Rightarrow> string \<Rightarrow> nat" where
  "spacePrefix encs s = (case List.find (\<lambda>e. take (length e) s = e) encs of Some e \<Rightarrow> length e | None \<Rightarrow> 0)"

function trimLeft :: "string list \<Rightarrow> string \<Rightarrow> string" where
  "trimLeft encs s = (let n = spacePrefix encs s in if n = 0 \<or> s = [] then s else trimLeft encs (drop n s))"
  by pat_completeness auto

termination
  by (relation "measure (\<lambda>(encs, s). length s)") auto

declare trimLeft.simps [simp del]

definition TrimSpace :: "string \<Rightarrow> string" where
  "TrimSpace s = rev (trimLeft (map rev spaceEncodings) (rev (trimLeft spaceEncodings s)))"

section \<open>Numbers\<close>

text \<open>Decimal numbers, and \<^verbatim>\<open>%06d\<close>.\<close>

fun showNat :: "nat \<Rightarrow> string" where
  "showNat n = (if n < 10 then [char_of (48 + n)] else showNat (n div 10) @ [char_of (48 + n mod 10)])"

declare showNat.simps [simp del]

definition padded6 :: "nat \<Rightarrow> string" where
  "padded6 n = replicate (6 - length (showNat n)) (CHR ''0'') @ showNat n"

definition digitChar :: "char \<Rightarrow> bool" where
  "digitChar c \<longleftrightarrow> between 0x30 0x39 c"

text \<open>\<^verbatim>\<open>strconv.ParseUint(s, 10, bits)\<close>.\<close>

definition decimalValue :: "string \<Rightarrow> nat" where
  "decimalValue s = foldl (\<lambda>v c. v * 10 + (byteOf c - 48)) 0 s"

definition ParseUint :: "nat \<Rightarrow> string \<Rightarrow> nat option" where
  "ParseUint bits s =
     (if s = [] \<or> \<not> list_all digitChar s then None
      else let v = decimalValue s in if v < 2 ^ bits then Some v else None)"

text \<open>Printing and parsing, and the order of padded numbers.\<close>

lemma byteOf_digit [simp]: "n < 10 \<Longrightarrow> byteOf (char_of (48 + n)) = 48 + n" for n :: nat
  by simp

lemma showNat_digits: "list_all digitChar (showNat n) \<and> showNat n \<noteq> []"
proof (induction n rule: showNat.induct)
  case (1 n)
  have d: "digitChar (char_of (48 + k))" if "k < 10" for k :: nat using that by (simp add: digitChar_def between_def)
  show ?case using 1 d [of n] d [of "n mod 10"] by (subst (1 2) showNat.simps) auto
qed

lemma decimalValue_snoc [simp]: "decimalValue (s @ [c]) = decimalValue s * 10 + (byteOf c - 48)"
  by (simp add: decimalValue_def)

lemma decimalValue_showNat: "decimalValue (showNat n) = n"
proof (induction n rule: showNat.induct)
  case (1 n)
  show ?case
  proof (cases "n < 10")
    case True
    then show ?thesis by (subst showNat.simps) (simp add: decimalValue_def)
  next
    case False
    then have "decimalValue (showNat n) = decimalValue (showNat (n div 10)) * 10 + n mod 10"
      using byteOf_digit [of "n mod 10"] by (subst showNat.simps) simp
    then show ?thesis using 1 False by simp
  qed
qed

lemma decimalValue_zeros: "decimalValue (replicate k (CHR ''0'') @ s) = decimalValue s"
  by (induction k) (simp_all add: decimalValue_def)

lemma padded6_digits: "list_all digitChar (padded6 n) \<and> padded6 n \<noteq> []"
proof -
  have "digitChar (CHR ''0'')" by (simp add: digitChar_def between_def)
  then show ?thesis using showNat_digits [of n] by (auto simp: padded6_def list_all_iff set_replicate_conv_if)
qed

lemma decimalValue_padded6: "decimalValue (padded6 n) = n"
  by (simp add: padded6_def decimalValue_zeros decimalValue_showNat)

lemma ParseUint_padded6: "n < 2 ^ bits \<Longrightarrow> ParseUint bits (padded6 n) = Some n"
  using padded6_digits [of n] by (simp add: ParseUint_def decimalValue_padded6)

lemma length_showNat: "n < 10 ^ Suc k \<Longrightarrow> length (showNat n) \<le> Suc k"
proof (induction k arbitrary: n)
  case 0
  then show ?case by (subst showNat.simps) simp
next
  case (Suc k)
  then show ?case using Suc.IH [of "n div 10"] by (subst showNat.simps) auto
qed

lemma length_padded6: "n < 10 ^ 6 \<Longrightarrow> length (padded6 n) = 6"
  using length_showNat [of n 5] by (simp add: padded6_def)

text \<open>Strings of digits of equal length are ordered as numbers.\<close>

lemma decimalValue_Cons: "decimalValue (c # s) = (byteOf c - 48) * 10 ^ length s + decimalValue s"
proof (induction s rule: rev_induct)
  case (snoc d s)
  then show ?case using decimalValue_snoc [of "c # s" d] by simp
qed (simp add: decimalValue_def)

lemma decimalValue_bound: "list_all digitChar s \<Longrightarrow> decimalValue s < 10 ^ length s"
proof (induction s rule: rev_induct)
  case (snoc d s)
  then have "decimalValue s < 10 ^ length s" "byteOf d - 48 < 10" by (auto simp: digitChar_def between_def)
  then show ?case by simp
qed (simp add: decimalValue_def)

lemma digits_order:
  "list_all digitChar s \<Longrightarrow> list_all digitChar t \<Longrightarrow> length s = length t \<Longrightarrow> s < t \<longleftrightarrow> decimalValue s < decimalValue t"
proof (induction s arbitrary: t)
  case (Cons c s)
  then obtain d u where t: "t = d # u" "length s = length u" by (cases t) auto
  let ?n = "10 ^ length u :: nat"
  have b: "decimalValue s < ?n" "decimalValue u < ?n" using decimalValue_bound [of s] decimalValue_bound [of u] Cons.prems t by auto
  have cd: "48 \<le> byteOf c" "48 \<le> byteOf d" using Cons.prems t by (auto simp: digitChar_def between_def)
  have lt: "x * ?n + decimalValue s < y * ?n + decimalValue u" if "x < y" for x y
  proof -
    have "(x + 1) * ?n \<le> y * ?n" using that by (intro mult_le_mono1) simp
    then show ?thesis using b(1) by simp
  qed
  have gt: "x * ?n + decimalValue u < y * ?n + decimalValue s" if "x < y" for x y
  proof -
    have "(x + 1) * ?n \<le> y * ?n" using that by (intro mult_le_mono1) simp
    then show ?thesis using b(2) by simp
  qed
  have ih: "s < u \<longleftrightarrow> decimalValue s < decimalValue u" using Cons t by simp
  have eq: "c = d \<longleftrightarrow> byteOf c = byteOf d" by simp
  consider "byteOf c < byteOf d" | "byteOf c = byteOf d" | "byteOf d < byteOf c" by linarith
  then show ?case
  proof cases
    case 1
    then show ?thesis using lt [of "byteOf c - 48" "byteOf d - 48"] cd t by (simp add: decimalValue_Cons less_char_def)
  next
    case 2
    then have "c = d" using eq by blast
    then show ?thesis unfolding t(1) using ih t(2) by (simp only: decimalValue_Cons Cons_less_Cons) simp
  next
    case 3
    then have "c \<noteq> d" "byteOf d - 48 < byteOf c - 48" using cd eq by auto
    moreover have "\<not> c < d" using 3 by (simp add: less_char_def)
    ultimately have "\<not> c # s < d # u" "decimalValue (d # u) < decimalValue (c # s)"
      using gt t(2) by (simp_all only: decimalValue_Cons Cons_less_Cons simp_thms)
    then show ?thesis unfolding t(1) using order.asym by blast
  qed
qed simp

lemma padded6_order: "m < 10 ^ 6 \<Longrightarrow> n < 10 ^ 6 \<Longrightarrow> padded6 m < padded6 n \<longleftrightarrow> m < n"
  using digits_order [of "padded6 m" "padded6 n"] padded6_digits length_padded6 [of m] length_padded6 [of n]
  by (simp add: decimalValue_padded6)

end
