(* ===== verification/Mailbox.thy ===== *)
theory Mailbox
  imports Go_Strings State_Machine "HOL-Library.AList"
begin

text \<open>
  The mailbox of a session (\<^verbatim>\<open>mailbox/store.go\<close>): panes send each other messages, and the store keeps
  them with the state of every delivery. A Go map is an association list with distinct keys, in the order the
  map is iterated; a time is the number of nanoseconds since the zero time, so that \<^verbatim>\<open>IsZero\<close> is
  being 0. The clock is an argument of the operations that read it. The JSON encoder and the hash
  are arguments too (\<open>codec\<close>).
\<close>

section \<open>Data\<close>

type_synonym MessageID = string
type_synonym ThreadID = string
type_synonym time = int

record PaneAddress =
  addr_ID :: uint32
  addr_Name :: string
  addr_Host :: string

record MessagePart =
  part_Name :: string
  part_ContentType :: string
  part_Encoding :: string
  part_Bytes :: string
  part_Size :: nat

type_synonym metadata = "(string \<times> string) list"

record Message =
  msg_ID :: MessageID
  msg_ThreadID :: ThreadID
  msg_InReplyTo :: MessageID
  msg_Replies :: "MessageID list"
  msg_Sender :: PaneAddress
  msg_Recipients :: "PaneAddress list"
  msg_Topics :: "string list"
  msg_Groups :: "string list"
  msg_Subject :: string
  msg_Parts :: "MessagePart list"
  msg_Metadata :: metadata
  msg_CreatedAt :: time
  msg_UpdatedAt :: time
  msg_ExpiresAt :: time

record DeliveryState =
  del_MessageID :: MessageID
  del_Recipient :: PaneAddress
  del_DeliveredAt :: time
  del_ReadAt :: time
  del_AckedAt :: time
  del_AckStatus :: string
  del_AckNote :: string
  del_LastEventSeq :: uint64

record DeliverySummary =
  sum_MessageID :: MessageID
  sum_Sender :: PaneAddress
  sum_Recipient :: PaneAddress
  sum_Subject :: string
  sum_Topics :: "string list"
  sum_Groups :: "string list"
  sum_ThreadID :: ThreadID
  sum_InReplyTo :: MessageID
  sum_CreatedAt :: time
  sum_DeliveredAt :: time
  sum_ReadAt :: time
  sum_AckedAt :: time
  sum_AckStatus :: string
  sum_AckNote :: string
  sum_LastEventSeq :: uint64
  sum_BodySize :: nat
  sum_PartCount :: nat

record SendRequest =
  req_Sender :: PaneAddress
  req_Recipients :: "PaneAddress list"
  req_Topics :: "string list"
  req_Groups :: "string list"
  req_Subject :: string
  req_Body :: string
  req_Parts :: "MessagePart list"
  req_Metadata :: metadata
  req_ReplyTo :: MessageID
  req_ThreadID :: ThreadID
  req_ExpiresAt :: time

record Limits =
  SubjectBytes :: int
  PartBytes :: int
  TotalBodyBytes :: int
  MetadataBytes :: int
  AckNoteBytes :: int
  RecipientsPerMsg :: int
  StoredMessages :: int
  StoredMailboxBytes :: int

definition DefaultLimits :: Limits where
  "DefaultLimits = \<lparr>SubjectBytes = 512, PartBytes = 64 * 1024, TotalBodyBytes = 256 * 1024, MetadataBytes = 16 * 1024,
     AckNoteBytes = 4 * 1024, RecipientsPerMsg = 128, StoredMessages = 10000, StoredMailboxBytes = 64 * 1024 * 1024\<rparr>"

definition normalizeLimits :: "Limits \<Rightarrow> Limits" where
  "normalizeLimits l =
     (let d = DefaultLimits; pick = (\<lambda>f. if f l = 0 then f d else f l)
      in \<lparr>SubjectBytes = pick SubjectBytes, PartBytes = pick PartBytes, TotalBodyBytes = pick TotalBodyBytes,
          MetadataBytes = pick MetadataBytes, AckNoteBytes = pick AckNoteBytes, RecipientsPerMsg = pick RecipientsPerMsg,
          StoredMessages = pick StoredMessages, StoredMailboxBytes = pick StoredMailboxBytes\<rparr>)"

text \<open>The deliveries of a recipient, by message.\<close>

type_synonym inbox = "(MessageID \<times> DeliveryState) list"

record Store =
  nextSeq :: uint64
  messages :: "(MessageID \<times> Message) list"
  deliveries :: "(uint32 \<times> inbox) list"
  threads :: "(ThreadID \<times> MessageID list) list"
  limits :: Limits

definition NewStore :: "Limits \<Rightarrow> Store" where
  "NewStore l = \<lparr>nextSeq = 1, messages = [], deliveries = [], threads = [], limits = normalizeLimits l\<rparr>"

text \<open>\<^verbatim>\<open>encoding/json\<close> on metadata (validity of a value, length of the encoded map), and the hash.\<close>

record codec =
  json_Valid :: "string \<Rightarrow> bool"
  json_Length :: "metadata \<Rightarrow> nat"
  sha256_hex :: "string \<Rightarrow> string"

text \<open>Errors, by the check that reports them.\<close>

datatype addressError = NoPaneID | NoPaneName
datatype recipientsError = NoRecipients | TooManyRecipients nat int | DuplicateRecipient uint32
datatype subjectError = SubjectTooLong int | SubjectNotUTF8 | SubjectControl nat
datatype labelError = InvalidLabel string | DuplicateLabel string
datatype partError = PartTooLong int | PartEmpty | PartNotUTF8 | PartControl nat | PartEncodingUnknown string
datatype bodyError = BodyAndParts | NoBody | BodyTooLong int | BadPart string partError
datatype metadataError = NoMetadataKey | ReservedKey string | InvalidJSON string | MetadataTooLong int
datatype threadError = NoReplyParent MessageID | OtherThread ThreadID ThreadID | NoThreadRef | NoThread string
datatype lookupError = NoRecipientID | NoMessage MessageID | NotDelivered MessageID uint32
datatype snapshotError =
    NoMessageID | DuplicateMessage MessageID | NoDeliveryMessageID | NoDeliveryRecipient
  | MissingMessage MessageID | DuplicateDelivery MessageID uint32

datatype mailboxError =
    StoreFull int
  | BytesFull nat int
  | BadAddress string addressError
  | BadRecipients recipientsError
  | BadSubject subjectError
  | BadLabel string labelError
  | BadBody bodyError
  | BadMetadata metadataError
  | BadThread threadError
  | BadLookup lookupError
  | BadSnapshot snapshotError
  | AckNoteTooLong int

section \<open>Checks\<close>

definition validateAddress :: "string \<Rightarrow> PaneAddress \<Rightarrow> mailboxError + PaneAddress" where
  "validateAddress role addr =
     (if addr_ID addr = 0 then Inl (BadAddress role NoPaneID)
      else if TrimSpace (addr_Name addr) = [] then Inl (BadAddress role NoPaneName)
      else Inr addr)"

fun validateEach :: "uint32 list \<Rightarrow> PaneAddress list \<Rightarrow> mailboxError + PaneAddress list" where
  "validateEach seen [] = Inr []"
| "validateEach seen (addr # rest) =
     (case validateAddress ''recipient'' addr of
        Inl e \<Rightarrow> Inl e
      | Inr recipient \<Rightarrow>
          if addr_ID recipient \<in> set seen then Inl (BadRecipients (DuplicateRecipient (addr_ID recipient)))
          else map_sum id ((#) recipient) (validateEach (addr_ID recipient # seen) rest))"

definition validateRecipients :: "PaneAddress list \<Rightarrow> int \<Rightarrow> mailboxError + PaneAddress list" where
  "validateRecipients src limit =
     (if src = [] then Inl (BadRecipients NoRecipients)
      else if limit > 0 \<and> int (length src) > limit then Inl (BadRecipients (TooManyRecipients (length src) limit))
      else validateEach [] src)"

definition validateSubject :: "string \<Rightarrow> int \<Rightarrow> mailboxError option" where
  "validateSubject subject limit =
     (if int (length subject) > limit then Some (BadSubject (SubjectTooLong limit))
      else case runes subject of
        None \<Rightarrow> Some (BadSubject SubjectNotUTF8)
      | Some rs \<Rightarrow> map_option (\<lambda>r. BadSubject (SubjectControl r)) (List.find isControl rs))"

definition isAlnum :: "char \<Rightarrow> bool" where
  "isAlnum c \<longleftrightarrow> between 0x41 0x5A c \<or> between 0x61 0x7A c \<or> between 0x30 0x39 c"

text \<open>\<^verbatim>\<open>labelRE\<close>: a letter or digit, then up to 63 of those and of \<^verbatim>\<open>._/-\<close>.\<close>

fun labelMatches :: "string \<Rightarrow> bool" where
  "labelMatches [] \<longleftrightarrow> False"
| "labelMatches (c # cs) \<longleftrightarrow> isAlnum c \<and> length cs \<le> 63 \<and> list_all (\<lambda>d. isAlnum d \<or> d \<in> set ''._/-'') cs"

fun validateLabels_from :: "string \<Rightarrow> string list \<Rightarrow> string list \<Rightarrow> mailboxError + string list" where
  "validateLabels_from kind seen [] = Inr []"
| "validateLabels_from kind seen (label # rest) =
     (if \<not> labelMatches label then Inl (BadLabel kind (InvalidLabel label))
      else if label \<in> set seen then Inl (BadLabel kind (DuplicateLabel label))
      else map_sum id ((#) label) (validateLabels_from kind (label # seen) rest))"

definition validateLabels :: "string \<Rightarrow> string list \<Rightarrow> mailboxError + string list" where
  "validateLabels kind src = validateLabels_from kind [] src"

definition DefaultContentType :: string where "DefaultContentType = ''text/plain; charset=utf-8''"
definition EncodingUTF8 :: string where "EncodingUTF8 = ''utf-8''"
definition EncodingBase64 :: string where "EncodingBase64 = ''base64''"

definition normalizePart :: "nat \<Rightarrow> MessagePart \<Rightarrow> int \<Rightarrow> mailboxError + MessagePart" where
  "normalizePart i part0 limit =
     (let part1 = (if part_ContentType part0 = [] then part0\<lparr>part_ContentType := DefaultContentType\<rparr> else part0);
          part2 = (if part_Encoding part1 = [] then part1\<lparr>part_Encoding := EncodingUTF8\<rparr> else part1);
          part3 = (if part_Name part2 = [] then part2\<lparr>part_Name := ''part-'' @ showNat (i + 1)\<rparr> else part2);
          part = part3\<lparr>part_Size := length (part_Bytes part3)\<rparr>;
          bad = (\<lambda>e. Inl (BadBody (BadPart (part_Name part) e)))
      in if limit > 0 \<and> int (part_Size part) > limit then bad (PartTooLong limit)
         else if part_Size part = 0 then bad PartEmpty
         else if part_Encoding part = EncodingUTF8 then
           (if \<not> utf8Valid (part_Bytes part) then bad PartNotUTF8
            else case List.find (\<lambda>c. byteOf c < 0x20 \<and> c \<noteq> CHR 0x0A \<and> c \<noteq> CHR 0x09) (part_Bytes part) of
              Some c \<Rightarrow> bad (PartControl (byteOf c))
            | None \<Rightarrow> Inr part)
         else if part_Encoding part = EncodingBase64 then Inr part
         else bad (PartEncodingUnknown (part_Encoding part)))"

fun normalizeParts_from :: "nat \<Rightarrow> nat \<Rightarrow> MessagePart list \<Rightarrow> int \<Rightarrow> int \<Rightarrow> mailboxError + MessagePart list \<times> nat" where
  "normalizeParts_from i size0 [] partLimit totalLimit = Inr ([], size0)"
| "normalizeParts_from i size0 (part # rest) partLimit totalLimit =
     (case normalizePart i part partLimit of
        Inl e \<Rightarrow> Inl e
      | Inr normalized \<Rightarrow>
          (let size0' = size0 + part_Size normalized in
           if totalLimit > 0 \<and> int size0' > totalLimit then Inl (BadBody (BodyTooLong totalLimit))
           else map_sum id (\<lambda>(out, n). (normalized # out, n)) (normalizeParts_from (i + 1) size0' rest partLimit totalLimit)))"

definition normalizeParts :: "string \<Rightarrow> MessagePart list \<Rightarrow> int \<Rightarrow> int \<Rightarrow> mailboxError + MessagePart list \<times> nat" where
  "normalizeParts body parts0 partLimit totalLimit =
     (if body \<noteq> [] \<and> parts0 \<noteq> [] then Inl (BadBody BodyAndParts)
      else let parts = (if body \<noteq> [] then [\<lparr>part_Name = ''body'', part_ContentType = DefaultContentType,
                          part_Encoding = EncodingUTF8, part_Bytes = body, part_Size = 0\<rparr>] else parts0)
           in if parts = [] then Inl (BadBody NoBody) else normalizeParts_from 0 0 parts partLimit totalLimit)"

definition metadataByteSize :: "codec \<Rightarrow> metadata \<Rightarrow> nat" where
  "metadataByteSize codec metadata = (if metadata = [] then 0 else json_Length codec metadata)"

fun checkMetadata :: "codec \<Rightarrow> metadata \<Rightarrow> mailboxError option" where
  "checkMetadata codec [] = None"
| "checkMetadata codec ((key, val) # rest) =
     (if key = [] then Some (BadMetadata NoMetadataKey)
      else if take 5 key = ''amux.'' then Some (BadMetadata (ReservedKey key))
      else if \<not> json_Valid codec val then Some (BadMetadata (InvalidJSON key))
      else checkMetadata codec rest)"

definition validateMetadata :: "codec \<Rightarrow> metadata \<Rightarrow> int \<Rightarrow> mailboxError + metadata" where
  "validateMetadata codec src limit =
     (case checkMetadata codec src of
        Some e \<Rightarrow> Inl e
      | None \<Rightarrow>
          if src \<noteq> [] \<and> limit > 0 \<and> int (metadataByteSize codec src) > limit then Inl (BadMetadata (MetadataTooLong limit))
          else Inr src)"

section \<open>Sending\<close>

definition messageBodySize :: "Message \<Rightarrow> nat" where
  "messageBodySize msg = sum_list (map part_Size (msg_Parts msg))"

definition validateCanStoreMessage :: "Store \<Rightarrow> mailboxError option" where
  "validateCanStoreMessage s =
     (if StoredMessages (limits s) > 0 \<and> int (length (messages s)) \<ge> StoredMessages (limits s)
      then Some (StoreFull (StoredMessages (limits s))) else None)"

definition storedBytes :: "codec \<Rightarrow> Store \<Rightarrow> nat" where
  "storedBytes codec s = sum_list (map (\<lambda>(i, msg). messageBodySize msg + metadataByteSize codec (msg_Metadata msg)) (messages s))"

definition validateMailboxByteLimit :: "codec \<Rightarrow> nat \<Rightarrow> nat \<Rightarrow> Store \<Rightarrow> mailboxError option" where
  "validateMailboxByteLimit codec bodyBytes metadataBytes s =
     (if StoredMailboxBytes (limits s) \<le> 0 then None
      else let n = bodyBytes + metadataBytes + storedBytes codec s in
        if int n > StoredMailboxBytes (limits s) then Some (BytesFull n (StoredMailboxBytes (limits s))) else None)"

text \<open>The parent of a reply, if any, and the thread.\<close>

definition resolveThread :: "MessageID \<Rightarrow> ThreadID \<Rightarrow> Store \<Rightarrow> mailboxError + MessageID option \<times> ThreadID" where
  "resolveThread replyTo requested s =
     (if replyTo = [] then Inr (None, requested)
      else case map_of (messages s) replyTo of
        None \<Rightarrow> Inl (BadThread (NoReplyParent replyTo))
      | Some parent \<Rightarrow>
          if requested \<noteq> [] \<and> requested \<noteq> msg_ThreadID parent
          then Inl (BadThread (OtherThread requested (msg_ThreadID parent)))
          else Inr (Some replyTo, msg_ThreadID parent))"

definition messageIDFor :: "uint64 \<Rightarrow> MessageID" where
  "messageIDFor seq = ''msg-'' @ padded6 (unat seq)"

definition allocateID :: "Store \<Rightarrow> MessageID \<times> Store" where
  "allocateID s = (messageIDFor (nextSeq s), s\<lparr>nextSeq := nextSeq s + 1\<rparr>)"

definition parseMessageSeq :: "MessageID \<Rightarrow> uint64 option" where
  "parseMessageSeq raw =
     (if take 4 raw \<noteq> ''msg-'' then None else map_option of_nat (ParseUint 64 (drop 4 raw)))"

text \<open>Everything \<^verbatim>\<open>Send\<close> checks before it changes the store.\<close>

record checked =
  ck_sender :: PaneAddress
  ck_recipients :: "PaneAddress list"
  ck_topics :: "string list"
  ck_groups :: "string list"
  ck_parts :: "MessagePart list"
  ck_metadata :: metadata
  ck_parent :: "MessageID option"
  ck_thread :: ThreadID

definition orError :: "'e option \<Rightarrow> 'e + unit" where
  "orError e = (case e of Some x \<Rightarrow> Inl x | None \<Rightarrow> Inr ())"

definition check :: "'e + 'a \<Rightarrow> ('a \<Rightarrow> 'e + 'b) \<Rightarrow> 'e + 'b" where
  "check r k = (case r of Inl e \<Rightarrow> Inl e | Inr x \<Rightarrow> k x)"

definition checkSend :: "codec \<Rightarrow> SendRequest \<Rightarrow> Store \<Rightarrow> mailboxError + checked" where
  "checkSend codec req s =
     check (orError (validateCanStoreMessage s)) (\<lambda>_.
     check (validateAddress ''sender'' (req_Sender req)) (\<lambda>sender.
     check (validateRecipients (req_Recipients req) (RecipientsPerMsg (limits s))) (\<lambda>recipients.
     check (orError (validateSubject (req_Subject req) (SubjectBytes (limits s)))) (\<lambda>_.
     check (validateLabels ''topic'' (req_Topics req)) (\<lambda>topics.
     check (validateLabels ''group'' (req_Groups req)) (\<lambda>groups.
     check (normalizeParts (req_Body req) (req_Parts req) (PartBytes (limits s)) (TotalBodyBytes (limits s))) (\<lambda>(parts, bodySize).
     check (validateMetadata codec (req_Metadata req) (MetadataBytes (limits s))) (\<lambda>metadata.
     check (resolveThread (req_ReplyTo req) (req_ThreadID req) s) (\<lambda>(parent, threadID).
     check (orError (validateMailboxByteLimit codec bodySize (metadataByteSize codec metadata) s)) (\<lambda>_.
       Inr \<lparr>ck_sender = sender, ck_recipients = recipients, ck_topics = topics, ck_groups = groups, ck_parts = parts,
            ck_metadata = metadata, ck_parent = parent, ck_thread = threadID\<rparr>))))))))))"

definition newDelivery :: "MessageID \<Rightarrow> PaneAddress \<Rightarrow> time \<Rightarrow> DeliveryState" where
  "newDelivery i recipient now =
     \<lparr>del_MessageID = i, del_Recipient = recipient, del_DeliveredAt = now, del_ReadAt = 0, del_AckedAt = 0,
      del_AckStatus = [], del_AckNote = [], del_LastEventSeq = 0\<rparr>"

definition inboxOf :: "uint32 \<Rightarrow> Store \<Rightarrow> inbox" where
  "inboxOf recipientID s = (case map_of (deliveries s) recipientID of Some b \<Rightarrow> b | None \<Rightarrow> [])"

definition putDelivery :: "uint32 \<Rightarrow> MessageID \<Rightarrow> DeliveryState \<Rightarrow> Store \<Rightarrow> Store" where
  "putDelivery r i d s = s\<lparr>deliveries := AList.update r (AList.update i d (inboxOf r s)) (deliveries s)\<rparr>"

definition putMessage :: "Message \<Rightarrow> Store \<Rightarrow> Store" where
  "putMessage msg s = s\<lparr>messages := AList.update (msg_ID msg) msg (messages s)\<rparr>"

definition joinThread :: "ThreadID \<Rightarrow> MessageID \<Rightarrow> Store \<Rightarrow> Store" where
  "joinThread t i s =
     s\<lparr>threads := AList.update t ((case map_of (threads s) t of Some ids \<Rightarrow> ids | None \<Rightarrow> []) @ [i]) (threads s)\<rparr>"

text \<open>The parent is the object found before the message is stored, so it is updated first.\<close>

definition linkReply :: "MessageID option \<Rightarrow> MessageID \<Rightarrow> time \<Rightarrow> Store \<Rightarrow> Store" where
  "linkReply parent i now s =
     (case parent of
        None \<Rightarrow> s
      | Some pid \<Rightarrow>
          (case map_of (messages s) pid of
             None \<Rightarrow> s
           | Some p \<Rightarrow> s\<lparr>messages := AList.update pid (p\<lparr>msg_Replies := msg_Replies p @ [i], msg_UpdatedAt := now\<rparr>) (messages s)\<rparr>))"

definition composed :: "SendRequest \<Rightarrow> checked \<Rightarrow> MessageID \<Rightarrow> time \<Rightarrow> Message" where
  "composed req ck i now =
     \<lparr>msg_ID = i, msg_ThreadID = (if ck_thread ck = [] then i else ck_thread ck), msg_InReplyTo = req_ReplyTo req,
      msg_Replies = [], msg_Sender = ck_sender ck, msg_Recipients = ck_recipients ck, msg_Topics = ck_topics ck,
      msg_Groups = ck_groups ck, msg_Subject = req_Subject req, msg_Parts = ck_parts ck, msg_Metadata = ck_metadata ck,
      msg_CreatedAt = now, msg_UpdatedAt = now, msg_ExpiresAt = req_ExpiresAt req\<rparr>"

definition Send :: "codec \<Rightarrow> time \<Rightarrow> SendRequest \<Rightarrow> Store \<Rightarrow> (mailboxError + Message) \<times> Store" where
  "Send codec now req s =
     (case checkSend codec req s of
        Inl e \<Rightarrow> (Inl e, s)
      | Inr ck \<Rightarrow>
          (let (i, s1) = allocateID s;
               msg = composed req ck i now;
               s2 = putMessage msg (linkReply (ck_parent ck) i now s1);
               s3 = joinThread (msg_ThreadID msg) i s2;
               s4 = fold (\<lambda>r. putDelivery (addr_ID r) i (newDelivery i r now)) (ck_recipients ck) s3
           in (Inr msg, s4)))"

section \<open>Looking up\<close>

definition getMessage :: "MessageID \<Rightarrow> Store \<Rightarrow> Message option" where
  "getMessage i s = map_of (messages s) i"

definition messageDelivery :: "MessageID \<Rightarrow> uint32 \<Rightarrow> Store \<Rightarrow> mailboxError + Message \<times> DeliveryState" where
  "messageDelivery i recipientID s =
     (if recipientID = 0 then Inl (BadLookup NoRecipientID)
      else case map_of (messages s) i of
        None \<Rightarrow> Inl (BadLookup (NoMessage i))
      | Some msg \<Rightarrow>
          (case map_of (inboxOf recipientID s) i of
             None \<Rightarrow> Inl (BadLookup (NotDelivered i recipientID))
           | Some d \<Rightarrow> Inr (msg, d)))"

definition summaryFor :: "Message \<Rightarrow> DeliveryState \<Rightarrow> DeliverySummary" where
  "summaryFor msg d =
     \<lparr>sum_MessageID = msg_ID msg, sum_Sender = msg_Sender msg, sum_Recipient = del_Recipient d,
      sum_Subject = msg_Subject msg, sum_Topics = msg_Topics msg, sum_Groups = msg_Groups msg,
      sum_ThreadID = msg_ThreadID msg, sum_InReplyTo = msg_InReplyTo msg, sum_CreatedAt = msg_CreatedAt msg,
      sum_DeliveredAt = del_DeliveredAt d, sum_ReadAt = del_ReadAt d, sum_AckedAt = del_AckedAt d,
      sum_AckStatus = del_AckStatus d, sum_AckNote = del_AckNote d, sum_LastEventSeq = del_LastEventSeq d,
      sum_BodySize = messageBodySize msg, sum_PartCount = length (msg_Parts msg)\<rparr>"

definition store_DeliverySummary :: "MessageID \<Rightarrow> uint32 \<Rightarrow> Store \<Rightarrow> mailboxError + DeliverySummary" where
  "store_DeliverySummary i recipientID s = map_sum id (\<lambda>(msg, d). summaryFor msg d) (messageDelivery i recipientID s)"

definition cloneMessagesByIDs :: "MessageID list \<Rightarrow> Store \<Rightarrow> Message list" where
  "cloneMessagesByIDs ids s = List.map_filter (map_of (messages s)) ids"

definition messagesByThreadID :: "ThreadID \<Rightarrow> Store \<Rightarrow> mailboxError + Message list" where
  "messagesByThreadID t s =
     (case (case map_of (threads s) t of Some ids \<Rightarrow> ids | None \<Rightarrow> []) of
        [] \<Rightarrow> Inl (BadThread (NoThread t))
      | ids \<Rightarrow> Inr (cloneMessagesByIDs (sort ids) s))"

definition messagesByTopic :: "string \<Rightarrow> Store \<Rightarrow> Message list" where
  "messagesByTopic topic s =
     cloneMessagesByIDs (sort (map fst (filter (\<lambda>(i, msg). topic \<in> set (msg_Topics msg)) (messages s)))) s"

definition Thread :: "string \<Rightarrow> Store \<Rightarrow> mailboxError + Message list" where
  "Thread ref0 s =
     (let ref = TrimSpace ref0 in
      if ref = [] then Inl (BadThread NoThreadRef)
      else case map_of (messages s) ref of
        Some msg \<Rightarrow> messagesByThreadID (msg_ThreadID msg) s
      | None \<Rightarrow> if messagesByTopic ref s \<noteq> [] then Inr (messagesByTopic ref s) else Inl (BadThread (NoThread ref)))"

definition List_inbox :: "uint32 \<Rightarrow> bool \<Rightarrow> Store \<Rightarrow> mailboxError + DeliverySummary list" where
  "List_inbox recipientID unreadOnly s =
     (if recipientID = 0 then Inl (BadLookup NoRecipientID)
      else let b = inboxOf recipientID s;
               ids = map fst (filter (\<lambda>(i, d). \<not> (unreadOnly \<and> (del_ReadAt d \<noteq> 0 \<or> del_AckedAt d \<noteq> 0))) b)
           in Inr (map (\<lambda>i. summaryFor (the (map_of (messages s) i)) (the (map_of b i))) (sort ids)))"

definition ListUnread :: "uint32 \<Rightarrow> Store \<Rightarrow> mailboxError + DeliverySummary list" where
  "ListUnread recipientID s = List_inbox recipientID True s"

section \<open>Reading and acknowledging\<close>

definition SetLastEventSeq :: "MessageID \<Rightarrow> uint32 \<Rightarrow> uint64 \<Rightarrow> Store \<Rightarrow> (mailboxError + DeliverySummary) \<times> Store" where
  "SetLastEventSeq i recipientID seq s =
     (case messageDelivery i recipientID s of
        Inl e \<Rightarrow> (Inl e, s)
      | Inr (msg, d) \<Rightarrow>
          (let d' = d\<lparr>del_LastEventSeq := seq\<rparr> in (Inr (summaryFor msg d'), putDelivery recipientID i d' s)))"

definition Read :: "time \<Rightarrow> MessageID \<Rightarrow> uint32 \<Rightarrow> bool \<Rightarrow> Store \<Rightarrow> (mailboxError + Message \<times> DeliveryState) \<times> Store" where
  "Read now i recipientID peek s =
     (case messageDelivery i recipientID s of
        Inl e \<Rightarrow> (Inl e, s)
      | Inr (msg, d) \<Rightarrow>
          if \<not> peek \<and> del_ReadAt d = 0 then
            (let d' = d\<lparr>del_ReadAt := now\<rparr>; msg' = msg\<lparr>msg_UpdatedAt := now\<rparr>
             in (Inr (msg', d'), putDelivery recipientID i d' (s\<lparr>messages := AList.update i msg' (messages s)\<rparr>)))
          else (Inr (msg, d), s))"

definition Ack :: "time \<Rightarrow> MessageID \<Rightarrow> uint32 \<Rightarrow> string \<Rightarrow> string \<Rightarrow> Store \<Rightarrow> (mailboxError + DeliveryState) \<times> Store" where
  "Ack now i recipientID status note s =
     (if int (length note) > AckNoteBytes (limits s) then (Inl (AckNoteTooLong (AckNoteBytes (limits s))), s)
      else case messageDelivery i recipientID s of
        Inl e \<Rightarrow> (Inl e, s)
      | Inr (msg, d) \<Rightarrow>
          if del_AckedAt d = 0 \<or> del_AckStatus d \<noteq> status \<or> del_AckNote d \<noteq> note then
            (let d' = d\<lparr>del_AckedAt := now, del_AckStatus := status, del_AckNote := note\<rparr>; msg' = msg\<lparr>msg_UpdatedAt := now\<rparr>
             in (Inr d', putDelivery recipientID i d' (s\<lparr>messages := AList.update i msg' (messages s)\<rparr>)))
          else (Inr d, s))"

section \<open>Pending deliveries\<close>

text \<open>\<^verbatim>\<open>sort.Search\<close>: the smallest index in \<open>[0, n)\<close> at which a monotone test holds, by bisection.\<close>

function searchFrom :: "(nat \<Rightarrow> bool) \<Rightarrow> nat \<Rightarrow> nat \<Rightarrow> nat" where
  "searchFrom f i j =
     (if i < j then let h = (i + j) div 2 in if \<not> f h then searchFrom f (h + 1) j else searchFrom f i h else i)"
  by pat_completeness auto

termination
  by (relation "measure (\<lambda>(f, i, j). j - i)") auto

declare searchFrom.simps [simp del]

definition Search :: "nat \<Rightarrow> (nat \<Rightarrow> bool) \<Rightarrow> nat" where
  "Search n f = searchFrom f 0 n"

definition drainSummaryNewer :: "DeliverySummary \<Rightarrow> DeliverySummary \<Rightarrow> bool" where
  "drainSummaryNewer left right \<longleftrightarrow>
     (if sum_DeliveredAt left \<noteq> sum_DeliveredAt right then sum_DeliveredAt left > sum_DeliveredAt right
      else sum_MessageID left > sum_MessageID right)"

definition insertDrainLatest :: "DeliverySummary list \<Rightarrow> DeliverySummary \<Rightarrow> nat \<Rightarrow> DeliverySummary list" where
  "insertDrainLatest latest summary limit =
     (let index = Search (length latest) (\<lambda>i. drainSummaryNewer summary (latest ! i)) in
      if index = length latest \<and> length latest \<ge> limit then latest
      else take limit (insertAt index summary latest))"

definition normalizedDrainLatestLimit :: "int \<Rightarrow> nat" where
  "normalizedDrainLatestLimit limit = (if limit \<le> 0 then 5 else nat limit)"

record DrainStatus =
  ds_Unread :: nat
  ds_Unacked :: nat
  ds_Pending :: nat
  ds_PendingFingerprint :: string
  ds_PendingIDs :: "MessageID list"
  ds_Latest :: "DeliverySummary list"

definition emptyDrainStatus :: DrainStatus where
  "emptyDrainStatus = \<lparr>ds_Unread = 0, ds_Unacked = 0, ds_Pending = 0, ds_PendingFingerprint = [], ds_PendingIDs = [], ds_Latest = []\<rparr>"

definition drainStep :: "Store \<Rightarrow> inbox \<Rightarrow> nat \<Rightarrow> MessageID \<Rightarrow> DrainStatus \<Rightarrow> DrainStatus" where
  "drainStep s b latestLimit i status =
     (let d = the (map_of b i); needsRead = (del_ReadAt d = 0); needsAck = (del_AckedAt d = 0);
          status1 = (if needsRead then status\<lparr>ds_Unread := ds_Unread status + 1\<rparr> else status);
          status2 = (if needsAck then status1\<lparr>ds_Unacked := ds_Unacked status1 + 1\<rparr> else status1)
      in if \<not> needsRead \<and> \<not> needsAck then status2
         else status2\<lparr>ds_Pending := ds_Pending status2 + 1, ds_PendingIDs := ds_PendingIDs status2 @ [i],
                ds_Latest := insertDrainLatest (ds_Latest status2) (summaryFor (the (map_of (messages s) i)) d) latestLimit\<rparr>)"

definition showBool :: "bool \<Rightarrow> string" where
  "showBool v = (if v then ''true'' else ''false'')"

definition drainFingerprint :: "codec \<Rightarrow> inbox \<Rightarrow> MessageID list \<Rightarrow> string" where
  "drainFingerprint codec b ids =
     sha256_hex codec (concat (map (\<lambda>i. let d = the (map_of b i)
       in i @ [CHR 0x00] @ showBool (del_ReadAt d = 0) @ [CHR 0x00] @ showBool (del_AckedAt d = 0) @ [CHR 0x0A]) ids))"

definition store_DrainStatus :: "codec \<Rightarrow> uint32 \<Rightarrow> int \<Rightarrow> Store \<Rightarrow> mailboxError + DrainStatus" where
  "store_DrainStatus codec recipientID limit s =
     (if recipientID = 0 then Inl (BadLookup NoRecipientID)
      else let b = inboxOf recipientID s;
               status = fold (drainStep s b (normalizedDrainLatestLimit limit)) (sort (map fst b)) emptyDrainStatus
           in Inr (if ds_Pending status = 0 then status
                   else status\<lparr>ds_PendingFingerprint := drainFingerprint codec b (ds_PendingIDs status)\<rparr>))"

section \<open>Snapshots\<close>

record Snapshot =
  sn_NextSeq :: uint64
  sn_Messages :: "Message list"
  sn_Deliveries :: "DeliveryState list"

text \<open>The copy that is taken in the event loop, and the sorted one that is made of it later.\<close>

definition store_SnapshotSource :: "Store \<Rightarrow> Snapshot" where
  "store_SnapshotSource s =
     \<lparr>sn_NextSeq = nextSeq s, sn_Messages = map snd (messages s), sn_Deliveries = concat (map (\<lambda>(r, b). map snd b) (deliveries s))\<rparr>"

definition materialize :: "Snapshot \<Rightarrow> Snapshot" where
  "materialize src =
     (if sn_NextSeq src = 0 \<and> sn_Messages src = [] \<and> sn_Deliveries src = [] then src
      else \<lparr>sn_NextSeq = sn_NextSeq src, sn_Messages = sort_key msg_ID (sn_Messages src),
            sn_Deliveries = sort_key (\<lambda>d. addr_ID (del_Recipient d)) (sort_key del_MessageID (sn_Deliveries src))\<rparr>)"

definition store_Snapshot :: "Store \<Rightarrow> Snapshot" where
  "store_Snapshot s = materialize (store_SnapshotSource s)"

fun restoreMessages :: "Message list \<Rightarrow> uint64 \<Rightarrow> Store \<Rightarrow> mailboxError + uint64 \<times> Store" where
  "restoreMessages [] maxSeq s = Inr (maxSeq, s)"
| "restoreMessages (msg # rest) maxSeq s =
     (if msg_ID msg = [] then Inl (BadSnapshot NoMessageID)
      else if map_of (messages s) (msg_ID msg) \<noteq> None then Inl (BadSnapshot (DuplicateMessage (msg_ID msg)))
      else let maxSeq' = (case parseMessageSeq (msg_ID msg) of Some seq \<Rightarrow> if seq > maxSeq then seq else maxSeq | None \<Rightarrow> maxSeq);
               s1 = (if msg_ThreadID msg \<noteq> [] then joinThread (msg_ThreadID msg) (msg_ID msg) s else s)
           in restoreMessages rest maxSeq' (putMessage msg s1))"

fun restoreDeliveries :: "DeliveryState list \<Rightarrow> Store \<Rightarrow> mailboxError + Store" where
  "restoreDeliveries [] s = Inr s"
| "restoreDeliveries (d # rest) s =
     (let r = addr_ID (del_Recipient d) in
      if del_MessageID d = [] then Inl (BadSnapshot NoDeliveryMessageID)
      else if r = 0 then Inl (BadSnapshot NoDeliveryRecipient)
      else if map_of (messages s) (del_MessageID d) = None then Inl (BadSnapshot (MissingMessage (del_MessageID d)))
      else if map_of (inboxOf r s) (del_MessageID d) \<noteq> None then Inl (BadSnapshot (DuplicateDelivery (del_MessageID d) r))
      else restoreDeliveries rest (putDelivery r (del_MessageID d) d s))"

definition RestoreSnapshot :: "Snapshot \<Rightarrow> Limits \<Rightarrow> mailboxError + Store" where
  "RestoreSnapshot snap l =
     (let s0 = NewStore l; s1 = (if sn_NextSeq snap \<noteq> 0 then s0\<lparr>nextSeq := sn_NextSeq snap\<rparr> else s0) in
      check (restoreMessages (sn_Messages snap) 0 s1) (\<lambda>(maxSeq, s2).
      check (restoreDeliveries (sn_Deliveries snap) s2) (\<lambda>s3.
        let s4 = (if nextSeq s3 = 0 then s3\<lparr>nextSeq := 1\<rparr> else s3)
        in Inr (if maxSeq \<ge> nextSeq s4 then s4\<lparr>nextSeq := maxSeq + 1\<rparr> else s4))))"

definition MaxLastEventSeq :: "Store \<Rightarrow> uint64" where
  "MaxLastEventSeq s =
     fold (\<lambda>(r, b) m. fold (\<lambda>(i, d) m. if del_LastEventSeq d > m then del_LastEventSeq d else m) b m) (deliveries s) 0"

end
