(* ===== verification/Keyed_Table.thy ===== *)
theory Keyed_Table
  imports Main
begin

text \<open>
  The interface of a table that is updated one key at a time: what a lookup returns after an
  update. Loops that fill such a table from a list of entries are determined by this law alone.
\<close>

lemma option_eqI: "(\<And>x. a = Some x \<longleftrightarrow> b = Some x) \<Longrightarrow> a = b"
  by (cases a; cases b) auto

lemma find_key_distinct:
  "distinct (map key xs) \<Longrightarrow> List.find (\<lambda>x. key x = k) xs = Some x \<longleftrightarrow> x \<in> set xs \<and> key x = k"
  by (induction xs) (auto simp: rev_image_eqI)

lemma find_key_None: "List.find (\<lambda>x. key x = k) xs = None \<longleftrightarrow> k \<notin> key ` set xs"
  by (auto simp: find_None_iff)

locale keyed_table =
  fixes find :: "'k \<Rightarrow> 's \<Rightarrow> 'v option" and put :: "'k \<Rightarrow> 'v \<Rightarrow> 's \<Rightarrow> 's"
  assumes find_put: "find k (put k' v s) = (if k = k' then Some v else find k s)"
begin

lemma find_fold_put:
  "distinct (map key xs) \<Longrightarrow>
     find k (fold (\<lambda>x. put (key x) (val x)) xs s) =
       (case List.find (\<lambda>x. key x = k) xs of Some x \<Rightarrow> Some (val x) | None \<Rightarrow> find k s)"
proof (induction xs arbitrary: s)
  case (Cons x xs)
  then have "k = key x \<Longrightarrow> List.find (\<lambda>x. key x = k) xs = None" by (auto simp: find_key_None)
  then show ?case using Cons by (auto simp: find_put split: option.split)
qed simp

lemma find_fold_put_Some:
  assumes "distinct (map key xs)"
  shows "find k (fold (\<lambda>x. put (key x) (val x)) xs s) = Some v \<longleftrightarrow>
    (if k \<in> key ` set xs then \<exists>x\<in>set xs. key x = k \<and> val x = v else find k s = Some v)"
proof (cases "List.find (\<lambda>x. key x = k) xs")
  case None
  moreover from None have "k \<notin> key ` set xs" by (simp add: find_key_None)
  ultimately show ?thesis using assms by (simp add: find_fold_put)
next
  case (Some x)
  then have x: "x \<in> set xs" "key x = k" using find_key_distinct [OF assms, of k x] by simp_all
  moreover from x have "y = x" if "y \<in> set xs" "key y = k" for y
    using that assms by (metis Some find_key_distinct option.inject)
  ultimately have "(\<exists>y\<in>set xs. key y = k \<and> val y = v) \<longleftrightarrow> val x = v" "k \<in> key ` set xs" by blast+
  then show ?thesis using Some by (simp add: find_fold_put [OF assms])
qed

end

end
