(* ===== verification/Mailbox_Laws.thy ===== *)
theory Mailbox_Laws
  imports Mailbox Keyed_Table
begin

text \<open>
  The laws of the mailbox store: what every operation does to the lookups (messages, deliveries,
  threads), the invariant of the store, and that every operation keeps it.
\<close>

section \<open>Lookups\<close>

definition deliveryOf :: "uint32 \<times> MessageID \<Rightarrow> Store \<Rightarrow> DeliveryState option" where
  "deliveryOf k s = map_of (inboxOf (fst k) s) (snd k)"

definition threadOf :: "ThreadID \<Rightarrow> Store \<Rightarrow> MessageID list" where
  "threadOf t s = (case map_of (threads s) t of Some ids \<Rightarrow> ids | None \<Rightarrow> [])"

definition setMessage :: "MessageID \<Rightarrow> Message \<Rightarrow> Store \<Rightarrow> Store" where
  "setMessage i m s = s\<lparr>messages := AList.update i m (messages s)\<rparr>"

abbreviation setDelivery :: "uint32 \<times> MessageID \<Rightarrow> DeliveryState \<Rightarrow> Store \<Rightarrow> Store" where
  "setDelivery k d \<equiv> putDelivery (fst k) (snd k) d"

lemma putMessage_setMessage: "putMessage m = setMessage (msg_ID m) m"
  by (rule ext) (simp add: putMessage_def setMessage_def)

interpretation msgs: keyed_table getMessage setMessage
  by unfold_locales (simp add: getMessage_def setMessage_def update_conv')

interpretation dels: keyed_table deliveryOf setDelivery
  by unfold_locales (auto simp: deliveryOf_def inboxOf_def putDelivery_def update_conv' prod_eq_iff)

lemma getMessage_other [simp]:
  "getMessage i (putDelivery r j d s) = getMessage i s"
  "getMessage i (joinThread t j s) = getMessage i s"
  "getMessage i (s\<lparr>nextSeq := n\<rparr>) = getMessage i s"
  by (simp_all add: getMessage_def putDelivery_def joinThread_def)

lemma deliveryOf_other [simp]:
  "deliveryOf k (setMessage i m s) = deliveryOf k s"
  "deliveryOf k (joinThread t j s) = deliveryOf k s"
  "deliveryOf k (s\<lparr>nextSeq := n\<rparr>) = deliveryOf k s"
  by (simp_all add: deliveryOf_def inboxOf_def setMessage_def joinThread_def)

lemma threadOf_other [simp]:
  "threadOf t (setMessage i m s) = threadOf t s"
  "threadOf t (putDelivery r j d s) = threadOf t s"
  "threadOf t (s\<lparr>nextSeq := n\<rparr>) = threadOf t s"
  by (simp_all add: threadOf_def putDelivery_def setMessage_def)

lemma threadOf_joinThread [simp]: "threadOf t (joinThread t' i s) = threadOf t s @ (if t = t' then [i] else [])"
  by (auto simp: threadOf_def joinThread_def update_conv')

lemma nextSeq_other [simp]:
  "nextSeq (setMessage i m s) = nextSeq s" "nextSeq (putDelivery r j d s) = nextSeq s" "nextSeq (joinThread t j s) = nextSeq s"
  by (simp_all add: setMessage_def putDelivery_def joinThread_def)

lemma limits_other [simp]:
  "limits (setMessage i m s) = limits s" "limits (putDelivery r j d s) = limits s" "limits (joinThread t j s) = limits s"
  by (simp_all add: setMessage_def putDelivery_def joinThread_def)

lemma messages_other [simp]:
  "messages (putDelivery r j d s) = messages s" "messages (joinThread t j s) = messages s"
  by (simp_all add: putDelivery_def joinThread_def)

lemma deliveries_other [simp]:
  "deliveries (setMessage i m s) = deliveries s" "deliveries (joinThread t j s) = deliveries s"
  by (simp_all add: setMessage_def joinThread_def)

lemma messages_setMessage: "map fst (messages (setMessage i m s)) =
    (if getMessage i s = None then map fst (messages s) @ [i] else map fst (messages s))"
  by (auto simp: setMessage_def getMessage_def update_keys map_of_eq_None_iff)

lemma fold_putDelivery_other [simp]:
  fixes s :: Store
  shows "messages (fold (\<lambda>x. putDelivery (f x) (g x) (h x)) xs s) = messages s"
    "threads (fold (\<lambda>x. putDelivery (f x) (g x) (h x)) xs s) = threads s"
    "limits (fold (\<lambda>x. putDelivery (f x) (g x) (h x)) xs s) = limits s"
    "nextSeq (fold (\<lambda>x. putDelivery (f x) (g x) (h x)) xs s) = nextSeq s"
  by (induction xs arbitrary: s) (simp_all add: putDelivery_def)

lemma fold_putDelivery_lookup [simp]:
  "getMessage i (fold (\<lambda>x. putDelivery (f x) (g x) (h x)) xs s) = getMessage i s"
  "threadOf t (fold (\<lambda>x. putDelivery (f x) (g x) (h x)) xs s) = threadOf t s"
  by (simp_all add: getMessage_def threadOf_def)

text \<open>The keys of the tables stay distinct.\<close>

definition keys_ok :: "Store \<Rightarrow> bool" where
  "keys_ok s \<longleftrightarrow> distinct (map fst (messages s)) \<and> distinct (map fst (deliveries s)) \<and>
     list_all (\<lambda>(r, b). distinct (map fst b)) (deliveries s)"

lemma keys_ok_inbox: "keys_ok s \<Longrightarrow> distinct (map fst (inboxOf r s))"
  by (auto simp: keys_ok_def inboxOf_def list_all_iff split: option.splits dest!: map_of_SomeD)

lemma keys_ok_setMessage [simp]: "keys_ok s \<Longrightarrow> keys_ok (setMessage i m s)"
  by (simp add: keys_ok_def setMessage_def distinct_update)

lemma keys_ok_joinThread [simp]: "keys_ok (joinThread t i s) = keys_ok s"
  by (simp add: keys_ok_def joinThread_def)

lemma keys_ok_nextSeq [simp]: "keys_ok (s\<lparr>nextSeq := n\<rparr>) = keys_ok s"
  by (simp add: keys_ok_def)

lemma list_all_update: "list_all P al \<Longrightarrow> P (k, v) \<Longrightarrow> list_all P (AList.update k v al)"
  by (induction al) auto

lemma keys_ok_putDelivery [simp]: "keys_ok s \<Longrightarrow> keys_ok (putDelivery r i d s)"
  using keys_ok_inbox [of s r] by (auto simp: keys_ok_def putDelivery_def distinct_update intro!: list_all_update)

lemma keys_ok_fold_putDelivery [simp]: "keys_ok s \<Longrightarrow> keys_ok (fold (\<lambda>x. putDelivery (f x) (g x) (h x)) xs s)"
  by (induction xs arbitrary: s) simp_all

section \<open>Message IDs\<close>

lemma parseMessageSeq_messageIDFor: "parseMessageSeq (messageIDFor seq) = Some seq"
proof -
  have "unat seq < 2 ^ 64" using unsigned_less [of seq] by simp
  then show ?thesis by (simp add: parseMessageSeq_def messageIDFor_def ParseUint_padded6)
qed

lemma messageIDFor_inj [simp]: "messageIDFor a = messageIDFor b \<longleftrightarrow> a = b"
  using parseMessageSeq_messageIDFor by (metis option.inject)

lemma messageIDFor_nonempty [simp]: "messageIDFor a \<noteq> []"
  by (simp add: messageIDFor_def)

lemma messageIDFor_order:
  "unat a < 10 ^ 6 \<Longrightarrow> unat b < 10 ^ 6 \<Longrightarrow> messageIDFor a < messageIDFor b \<longleftrightarrow> a < b"
  by (simp add: messageIDFor_def padded6_order word_less_nat_alt)

section \<open>What the checks of Send establish\<close>

lemma check_Inr [simp]: "check r k = Inr y \<longleftrightarrow> (\<exists>x. r = Inr x \<and> k x = Inr y)"
  by (auto simp: check_def split: sum.splits)

lemma orError_Inr [simp]: "orError e = Inr u \<longleftrightarrow> e = None"
  by (auto simp: orError_def split: option.splits)

lemma map_sum_Inr [simp]: "map_sum f g x = Inr y \<longleftrightarrow> (\<exists>z. x = Inr z \<and> y = g z)"
  by (cases x) auto

lemma validateEach_Inr:
  "validateEach seen src = Inr rs \<longleftrightarrow>
     rs = src \<and> distinct (map addr_ID src) \<and> addr_ID ` set src \<inter> set seen = {} \<and>
     list_all (\<lambda>a. addr_ID a \<noteq> 0 \<and> TrimSpace (addr_Name a) \<noteq> []) src"
proof (induction seen src arbitrary: rs rule: validateEach.induct)
  case (2 seen a rest)
  show ?case
  proof (cases "addr_ID a = 0 \<or> TrimSpace (addr_Name a) = [] \<or> addr_ID a \<in> set seen")
    case False
    then show ?thesis using 2 by (auto simp: validateAddress_def)
  qed (auto simp: validateAddress_def)
qed auto

lemma validateRecipients_Inr:
  "validateRecipients src limit = Inr rs \<Longrightarrow>
     rs = src \<and> src \<noteq> [] \<and> distinct (map addr_ID src) \<and> (\<forall>a\<in>set src. addr_ID a \<noteq> 0) \<and> (limit > 0 \<longrightarrow> int (length src) \<le> limit)"
  by (auto simp: validateRecipients_def validateEach_Inr list_all_iff split: if_splits)

lemma normalizeParts_from_size:
  "normalizeParts_from i n parts pl lim = Inr (out, size0) \<Longrightarrow> size0 = n + sum_list (map part_Size out)"
proof (induction parts arbitrary: i n out)
  case (Cons part rest)
  then show ?case by (fastforce simp: Let_def split: sum.splits if_splits prod.splits)
qed simp

lemma normalizeParts_size: "normalizeParts body parts pl lim = Inr (out, size0) \<Longrightarrow> size0 = sum_list (map part_Size out)"
  by (auto simp: normalizeParts_def Let_def simp del: normalizeParts_from.simps split: if_splits dest: normalizeParts_from_size)

lemma validateMetadata_Inr: "validateMetadata codec src limit = Inr md \<Longrightarrow> md = src"
  by (auto simp: validateMetadata_def split: option.splits if_splits)

text \<open>The parent of a reply exists, and a reply joins its thread.\<close>

lemma resolveThread_Inr:
  "resolveThread replyTo requested s = Inr (parent, t) \<longleftrightarrow>
     (replyTo = [] \<and> parent = None \<and> t = requested) \<or>
     (replyTo \<noteq> [] \<and> parent = Some replyTo \<and> (\<exists>p. getMessage replyTo s = Some p \<and> t = msg_ThreadID p \<and> requested \<in> {[], t}))"
  by (auto simp: resolveThread_def getMessage_def split: option.splits if_splits)

lemma checkSend_Inr:
  assumes "checkSend codec req s = Inr ck"
  shows "ck_recipients ck = req_Recipients req" "distinct (map addr_ID (ck_recipients ck))" "\<forall>a\<in>set (ck_recipients ck). addr_ID a \<noteq> 0"
    "ck_recipients ck \<noteq> []" "ck_sender ck = req_Sender req" "ck_metadata ck = req_Metadata req"
    "resolveThread (req_ReplyTo req) (req_ThreadID req) s = Inr (ck_parent ck, ck_thread ck)"
    "StoredMessages (limits s) > 0 \<Longrightarrow> int (length (messages s)) < StoredMessages (limits s)"
    "StoredMailboxBytes (limits s) > 0 \<Longrightarrow>
       int (sum_list (map part_Size (ck_parts ck)) + metadataByteSize codec (ck_metadata ck) + storedBytes codec s) \<le> StoredMailboxBytes (limits s)"
  using assms
  by (auto simp: checkSend_def validateCanStoreMessage_def validateAddress_def validateMailboxByteLimit_def Let_def
      split: if_splits dest!: validateRecipients_Inr normalizeParts_size validateMetadata_Inr)

section \<open>What Send does\<close>

definition replied :: "MessageID \<Rightarrow> time \<Rightarrow> Message \<Rightarrow> Message" where
  "replied i now p = p\<lparr>msg_Replies := msg_Replies p @ [i], msg_UpdatedAt := now\<rparr>"

lemma replied_fields [simp]:
  "msg_ID (replied i now p) = msg_ID p" "msg_ThreadID (replied i now p) = msg_ThreadID p"
  "msg_Recipients (replied i now p) = msg_Recipients p" "msg_InReplyTo (replied i now p) = msg_InReplyTo p"
  "msg_Parts (replied i now p) = msg_Parts p" "msg_Metadata (replied i now p) = msg_Metadata p"
  "msg_Replies (replied i now p) = msg_Replies p @ [i]"
  by (simp_all add: replied_def)

lemma linkReply_eq:
  "linkReply parent i now s =
     (case parent of None \<Rightarrow> s | Some j \<Rightarrow> (case getMessage j s of None \<Rightarrow> s | Some p \<Rightarrow> setMessage j (replied i now p) s))"
  by (auto simp: linkReply_def getMessage_def setMessage_def replied_def split: option.splits)

lemma linkReply_other [simp]:
  "nextSeq (linkReply parent i now s) = nextSeq s" "limits (linkReply parent i now s) = limits s"
  "deliveryOf k (linkReply parent i now s) = deliveryOf k s" "threadOf t (linkReply parent i now s) = threadOf t s"
  by (auto simp: linkReply_eq split: option.splits)

lemma linkReply_keys [simp]: "map fst (messages (linkReply parent i now s)) = map fst (messages s)"
  by (auto simp: linkReply_eq messages_setMessage split: option.splits)

lemma linkReply_keys_ok [simp]: "keys_ok s \<Longrightarrow> keys_ok (linkReply parent i now s)"
  by (auto simp: linkReply_eq split: option.splits)

lemma getMessage_linkReply [simp]:
  "getMessage j (linkReply parent i now s) = (if parent = Some j then map_option (replied i now) (getMessage j s) else getMessage j s)"
  by (auto simp: linkReply_eq msgs.find_put split: option.splits)

text \<open>The state after a message has passed the checks.\<close>

definition sent :: "time \<Rightarrow> SendRequest \<Rightarrow> checked \<Rightarrow> Store \<Rightarrow> Store" where
  "sent now req ck s =
     (let i = messageIDFor (nextSeq s); m = composed req ck i now
      in fold (\<lambda>r. putDelivery (addr_ID r) i (newDelivery i r now)) (ck_recipients ck)
           (joinThread (msg_ThreadID m) i (setMessage i m (linkReply (ck_parent ck) i now (s\<lparr>nextSeq := nextSeq s + 1\<rparr>)))))"

lemma composed_ID [simp]: "msg_ID (composed req ck i now) = i"
  by (simp add: composed_def)

lemma Send_eq:
  "Send codec now req s =
     (case checkSend codec req s of
        Inl e \<Rightarrow> (Inl e, s)
      | Inr ck \<Rightarrow> (Inr (composed req ck (messageIDFor (nextSeq s)) now), sent now req ck s))"
  by (simp add: Send_def sent_def allocateID_def putMessage_setMessage Let_def split: sum.splits)

lemma sent_plain [simp]:
  "nextSeq (sent now req ck s) = nextSeq s + 1" "limits (sent now req ck s) = limits s"
  by (simp_all add: sent_def Let_def)

lemma keys_ok_sent: "keys_ok s \<Longrightarrow> keys_ok (sent now req ck s)"
  by (simp add: sent_def Let_def)

lemma getMessage_sent:
  "getMessage j (sent now req ck s) =
     (if j = messageIDFor (nextSeq s) then Some (composed req ck j now)
      else if ck_parent ck = Some j then map_option (replied (messageIDFor (nextSeq s)) now) (getMessage j s)
      else getMessage j s)"
  by (simp add: sent_def Let_def msgs.find_put)

lemma threadOf_sent:
  "threadOf t (sent now req ck s) =
     threadOf t s @ (if t = msg_ThreadID (composed req ck (messageIDFor (nextSeq s)) now) then [messageIDFor (nextSeq s)] else [])"
  by (simp add: sent_def Let_def)

lemma messages_sent:
  "getMessage (messageIDFor (nextSeq s)) s = None \<Longrightarrow>
     map fst (messages (sent now req ck s)) = map fst (messages s) @ [messageIDFor (nextSeq s)]"
  by (simp add: sent_def Let_def messages_setMessage)

lemma deliveryOf_sent:
  assumes "distinct (map addr_ID (ck_recipients ck))"
  shows "deliveryOf k (sent now req ck s) = Some d \<longleftrightarrow>
    (if fst k \<in> addr_ID ` set (ck_recipients ck) \<and> snd k = messageIDFor (nextSeq s)
     then \<exists>a\<in>set (ck_recipients ck). addr_ID a = fst k \<and> newDelivery (snd k) a now = d
     else deliveryOf k s = Some d)"
proof -
  have "distinct (map (\<lambda>a. (addr_ID a, messageIDFor (nextSeq s))) (ck_recipients ck))"
    using assms by (auto simp: distinct_map inj_on_def)
  from dels.find_fold_put_Some [OF this, of k] show ?thesis by (cases k) (auto simp: sent_def Let_def)
qed

section \<open>The invariant\<close>

text \<open>The IDs are those of the sequence numbers already used, and there is room for another one.\<close>

definition count_ok :: "Store \<Rightarrow> bool" where
  "count_ok s \<longleftrightarrow>
     unat (nextSeq s) = Suc (length (messages s)) \<and> int (length (messages s)) \<le> StoredMessages (limits s) \<and>
     StoredMessages (limits s) < 2 ^ 63 \<and>
     fst ` set (messages s) = (\<lambda>n. messageIDFor (of_nat n)) ` {1..length (messages s)}"

text \<open>Every message is stored under its ID, in a thread, for distinct recipients.\<close>

definition message_ok :: "MessageID \<Rightarrow> Message \<Rightarrow> bool" where
  "message_ok i m \<longleftrightarrow> msg_ID m = i \<and> msg_ThreadID m \<noteq> [] \<and> distinct (map addr_ID (msg_Recipients m)) \<and>
     (\<forall>a\<in>set (msg_Recipients m). addr_ID a \<noteq> 0)"

definition messages_ok :: "Store \<Rightarrow> bool" where
  "messages_ok s \<longleftrightarrow> (\<forall>i m. getMessage i s = Some m \<longrightarrow> message_ok i m)"

text \<open>There is a delivery for each recipient of each message, and no other.\<close>

definition deliveries_ok :: "Store \<Rightarrow> bool" where
  "deliveries_ok s \<longleftrightarrow>
     (\<forall>r i d. deliveryOf (r, i) s = Some d \<longrightarrow> del_MessageID d = i \<and> addr_ID (del_Recipient d) = r \<and>
        (\<exists>m. getMessage i s = Some m \<and> del_Recipient d \<in> set (msg_Recipients m))) \<and>
     (\<forall>i m a. getMessage i s = Some m \<longrightarrow> a \<in> set (msg_Recipients m) \<longrightarrow> deliveryOf (addr_ID a, i) s \<noteq> None)"

text \<open>A thread lists its messages; a message lists its replies, which are in its thread.\<close>

definition threads_ok :: "Store \<Rightarrow> bool" where
  "threads_ok s \<longleftrightarrow>
     (\<forall>t. distinct (threadOf t s) \<and> set (threadOf t s) = {i. \<exists>m. getMessage i s = Some m \<and> msg_ThreadID m = t})"

definition replies_ok :: "Store \<Rightarrow> bool" where
  "replies_ok s \<longleftrightarrow>
     (\<forall>i m. getMessage i s = Some m \<longrightarrow>
        set (msg_Replies m) = {j. \<exists>c. getMessage j s = Some c \<and> msg_InReplyTo c = i} \<and> distinct (msg_Replies m) \<and>
        (msg_InReplyTo m \<noteq> [] \<longrightarrow> (\<exists>p. getMessage (msg_InReplyTo m) s = Some p \<and> msg_ThreadID p = msg_ThreadID m)))"

definition bytes_ok :: "codec \<Rightarrow> Store \<Rightarrow> bool" where
  "bytes_ok codec s \<longleftrightarrow> (StoredMailboxBytes (limits s) > 0 \<longrightarrow> int (storedBytes codec s) \<le> StoredMailboxBytes (limits s))"

definition store_ok :: "codec \<Rightarrow> Store \<Rightarrow> bool" where
  "store_ok codec s \<longleftrightarrow> keys_ok s \<and> count_ok s \<and> messages_ok s \<and> deliveries_ok s \<and> threads_ok s \<and> replies_ok s \<and>
     bytes_ok codec s \<and> normalizeLimits (limits s) = limits s"

lemmas store_ok_parts = store_ok_def keys_ok_def count_ok_def messages_ok_def deliveries_ok_def threads_ok_def replies_ok_def bytes_ok_def

lemma getMessage_keys: "getMessage i s \<noteq> None \<longleftrightarrow> i \<in> fst ` set (messages s)"
  by (metis getMessage_def map_of_eq_None_iff)

lemma of_nat_unat_id: "of_nat (unat w) = w" for w :: uint64
  by simp

lemma unat_seq: "n < 2 ^ 64 \<Longrightarrow> unat (of_nat n :: uint64) = n"
  by (simp add: unat_of_nat)

lemma fresh_ID:
  assumes "count_ok s" shows "getMessage (messageIDFor (nextSeq s)) s = None"
proof (rule ccontr)
  assume "getMessage (messageIDFor (nextSeq s)) s \<noteq> None"
  then have "messageIDFor (nextSeq s) \<in> (\<lambda>n. messageIDFor (of_nat n)) ` {1..length (messages s)}"
    using assms unfolding getMessage_keys count_ok_def by simp
  then obtain n where n: "n \<le> length (messages s)" "nextSeq s = of_nat n" by auto
  have "unat (nextSeq s) = n"
    using assms n unat_seq [of n] by (simp add: count_ok_def)
  then show False using assms n by (simp add: count_ok_def)
qed

lemma NewStore_ok:
  assumes "0 \<le> StoredMessages l" "StoredMessages l < 2 ^ 63" shows "store_ok codec (NewStore l)"
proof -
  have "normalizeLimits (normalizeLimits l) = normalizeLimits l"
    by (simp add: normalizeLimits_def DefaultLimits_def Let_def)
  moreover have "0 \<le> StoredMessages (normalizeLimits l)" "StoredMessages (normalizeLimits l) < 2 ^ 63"
    using assms by (simp_all add: normalizeLimits_def DefaultLimits_def Let_def)
  moreover have "0 < StoredMailboxBytes (normalizeLimits l) \<longrightarrow> storedBytes codec (NewStore l) = 0"
    by (simp add: NewStore_def storedBytes_def)
  ultimately show ?thesis
    by (auto simp: store_ok_parts NewStore_def getMessage_def deliveryOf_def inboxOf_def threadOf_def)
qed

lemma room_positive: "store_ok codec s \<Longrightarrow> 0 < StoredMessages (limits s)"
proof -
  assume "store_ok codec s"
  then have "normalizeLimits (limits s) = limits s" "0 \<le> StoredMessages (limits s)" by (simp_all add: store_ok_def count_ok_def)
  moreover have "StoredMessages (normalizeLimits l) \<noteq> 0" for l by (simp add: normalizeLimits_def DefaultLimits_def Let_def)
  ultimately show ?thesis by (metis less_le)
qed

text \<open>The bytes of the store as a sum over the messages, whatever their order.\<close>

lemma storedBytes_sum:
  assumes "keys_ok s"
  shows "storedBytes codec s =
    (\<Sum>i\<in>fst ` set (messages s). messageBodySize (the (getMessage i s)) + metadataByteSize codec (msg_Metadata (the (getMessage i s))))"
proof -
  have d: "distinct (map fst (messages s))" using assms by (simp add: keys_ok_def)
  have "storedBytes codec s = sum_list (map (\<lambda>i. messageBodySize (the (getMessage i s)) + metadataByteSize codec (msg_Metadata (the (getMessage i s)))) (map fst (messages s)))"
    using d by (auto simp: storedBytes_def getMessage_def map_of_is_SomeI comp_def intro!: arg_cong [of _ _ sum_list])
  then show ?thesis using d by (simp only: sum_list_distinct_conv_sum_set set_map)
qed

section \<open>Send keeps the invariant\<close>

lemma store_okD:
  assumes "store_ok codec s"
  shows "keys_ok s" "count_ok s" "messages_ok s" "deliveries_ok s" "threads_ok s" "replies_ok s" "bytes_ok codec s"
    "normalizeLimits (limits s) = limits s" "getMessage (messageIDFor (nextSeq s)) s = None"
  using assms by (simp_all add: store_ok_def fresh_ID)

lemma stored_nonempty: "store_ok codec s \<Longrightarrow> getMessage i s = Some m \<Longrightarrow> i \<noteq> []"
  using store_okD(2) [of codec s] getMessage_keys [of i s] by (auto simp: count_ok_def)

lemma stored_message: "store_ok codec s \<Longrightarrow> getMessage i s = Some m \<Longrightarrow> message_ok i m"
  using store_okD(3) by (simp add: messages_ok_def)

lemma stored_delivery:
  assumes "store_ok codec s" and "deliveryOf (r, i) s = Some d"
  shows "del_MessageID d = i" "addr_ID (del_Recipient d) = r" "\<exists>m. getMessage i s = Some m \<and> del_Recipient d \<in> set (msg_Recipients m)"
  using store_okD(4) [OF assms(1)] assms(2) unfolding deliveries_ok_def by blast+

lemma parent_of:
  assumes ok: "store_ok codec s" and accepted: "checkSend codec req s = Inr ck"
  shows "ck_parent ck = Some j \<longleftrightarrow> req_ReplyTo req \<noteq> [] \<and> req_ReplyTo req = j"
    and "req_ReplyTo req \<noteq> [] \<Longrightarrow> \<exists>p. getMessage (req_ReplyTo req) s = Some p \<and> msg_ThreadID p = msg_ThreadID (composed req ck i now)"
    and "req_ReplyTo req \<noteq> messageIDFor (nextSeq s)"
proof -
  have t: "[] \<noteq> msg_ThreadID p" if "getMessage j s = Some p" for j p
    using store_okD(3) [OF ok] that by (metis messages_ok_def message_ok_def)
  note r = checkSend_Inr(7) [OF accepted, unfolded resolveThread_Inr]
  show "ck_parent ck = Some j \<longleftrightarrow> req_ReplyTo req \<noteq> [] \<and> req_ReplyTo req = j" using r by auto
  show "\<exists>p. getMessage (req_ReplyTo req) s = Some p \<and> msg_ThreadID p = msg_ThreadID (composed req ck i now)" if "req_ReplyTo req \<noteq> []"
    using r that t by (auto simp: composed_def)
  show "req_ReplyTo req \<noteq> messageIDFor (nextSeq s)"
    using r store_okD(9) [OF ok] messageIDFor_nonempty [of "nextSeq s"] by (metis option.distinct(1))
qed

lemma sent_count_ok:
  assumes ok: "store_ok codec s" and accepted: "checkSend codec req s = Inr ck"
  shows "count_ok (sent now req ck s)"
proof -
  let ?n = "length (messages s)"
  have c: "unat (nextSeq s) = Suc ?n" "int ?n < StoredMessages (limits s)" "StoredMessages (limits s) < 2 ^ 63"
    using store_okD(2) [OF ok] checkSend_Inr(8) [OF accepted] room_positive [OF ok] by (simp_all add: count_ok_def)
  note m = messages_sent [OF store_okD(9) [OF ok], of now req ck]
  have keys: "fst ` set (messages (sent now req ck s)) = insert (messageIDFor (nextSeq s)) (fst ` set (messages s))"
    using arg_cong [OF m, of set] by simp
  have seq: "nextSeq s = of_nat (Suc ?n)" using c(1) of_nat_unat_id [of "nextSeq s"] by simp
  then have ids: "insert (messageIDFor (nextSeq s)) (fst ` set (messages s)) = (\<lambda>n. messageIDFor (of_nat n)) ` {1..Suc ?n}"
    using store_okD(2) [OF ok] by (simp add: count_ok_def atLeastAtMostSuc_conv)
  have "nextSeq s + 1 = of_nat (Suc (Suc ?n))" using seq by simp
  moreover have "Suc (Suc ?n) < 2 ^ 64" using c(2,3) by simp
  ultimately have "unat (nextSeq s + 1) = Suc (Suc ?n)" using unat_seq [of "Suc (Suc ?n)"] by (simp only:)
  moreover have "length (messages (sent now req ck s)) = Suc ?n" using arg_cong [OF m, of length] by simp
  ultimately show ?thesis using c keys ids by (simp add: count_ok_def)
qed

lemma sent_messages_ok:
  assumes ok: "store_ok codec s" and accepted: "checkSend codec req s = Inr ck"
  shows "messages_ok (sent now req ck s)"
proof -
  have "message_ok (messageIDFor (nextSeq s)) (composed req ck (messageIDFor (nextSeq s)) now)"
    using checkSend_Inr(1-3) [OF accepted] by (simp add: message_ok_def composed_def)
  then show ?thesis using store_okD(3) [OF ok] by (auto simp: messages_ok_def getMessage_sent message_ok_def)
qed

lemma sent_deliveries_ok:
  assumes ok: "store_ok codec s" and accepted: "checkSend codec req s = Inr ck"
  shows "deliveries_ok (sent now req ck s)"
proof -
  let ?i = "messageIDFor (nextSeq s)"
  have d: "distinct (map addr_ID (ck_recipients ck))" using checkSend_Inr(2) [OF accepted] .
  have new: "deliveryOf (r, ?i) s = None" for r
    using store_okD(4,9) [OF ok] by (metis deliveries_ok_def not_None_eq option.distinct(1))
  have rec: "msg_Recipients (composed req ck ?i now) = ck_recipients ck" by (simp add: composed_def)
  have look: "deliveryOf (r, j) (sent now req ck s) = Some x \<longleftrightarrow>
      (if j = ?i then \<exists>a\<in>set (ck_recipients ck). addr_ID a = r \<and> x = newDelivery ?i a now else deliveryOf (r, j) s = Some x)" for r j x
    using new by (auto simp: deliveryOf_sent [OF d])
  show ?thesis unfolding deliveries_ok_def
  proof (intro conjI allI impI)
    fix r j x assume "deliveryOf (r, j) (sent now req ck s) = Some x"
    then show "del_MessageID x = j" "addr_ID (del_Recipient x) = r"
      "\<exists>m. getMessage j (sent now req ck s) = Some m \<and> del_Recipient x \<in> set (msg_Recipients m)"
      using store_okD(4) [OF ok] rec by (fastforce simp: look deliveries_ok_def newDelivery_def getMessage_sent split: if_splits)+
  next
    fix j m a assume "getMessage j (sent now req ck s) = Some m" "a \<in> set (msg_Recipients m)"
    then have "\<exists>x. deliveryOf (addr_ID a, j) (sent now req ck s) = Some x"
      unfolding look using store_okD(4) [OF ok] rec by (fastforce simp: deliveries_ok_def getMessage_sent split: if_splits)
    then show "deliveryOf (addr_ID a, j) (sent now req ck s) \<noteq> None" by simp
  qed
qed

text \<open>A message and what it becomes.\<close>

lemma sent_old:
  assumes ok: "store_ok codec s"
  shows "(\<exists>m'. getMessage j (sent now req ck s) = Some m' \<and> P m') \<longleftrightarrow>
    (if j = messageIDFor (nextSeq s) then P (composed req ck j now)
     else \<exists>m. getMessage j s = Some m \<and> P (if ck_parent ck = Some j then replied (messageIDFor (nextSeq s)) now m else m))"
  by (auto simp: getMessage_sent)

lemma sent_threads_ok:
  assumes ok: "store_ok codec s" and accepted: "checkSend codec req s = Inr ck"
  shows "threads_ok (sent now req ck s)"
proof -
  let ?i = "messageIDFor (nextSeq s)"
  have "distinct (threadOf t (sent now req ck s)) \<and>
      set (threadOf t (sent now req ck s)) = {i. \<exists>m. getMessage i (sent now req ck s) = Some m \<and> msg_ThreadID m = t}" for t
  proof -
    have old: "distinct (threadOf t s)" "set (threadOf t s) = {i. \<exists>m. getMessage i s = Some m \<and> msg_ThreadID m = t}"
      using store_okD(5) [OF ok] by (simp_all add: threads_ok_def)
    have "?i \<notin> set (threadOf t s)" using old(2) store_okD(9) [OF ok] by simp
    then show ?thesis using old store_okD(9) [OF ok] by (auto simp: threadOf_sent sent_old [OF ok] split: if_splits)
  qed
  then show ?thesis by (simp add: threads_ok_def)
qed

lemma sent_replies_ok:
  assumes ok: "store_ok codec s" and accepted: "checkSend codec req s = Inr ck"
  shows "replies_ok (sent now req ck s)"
proof -
  let ?i = "messageIDFor (nextSeq s)" and ?m = "composed req ck (messageIDFor (nextSeq s)) now"
  note P = parent_of [OF ok accepted]
  have R: "set (msg_Replies m) = {j. \<exists>c. getMessage j s = Some c \<and> msg_InReplyTo c = i}" "distinct (msg_Replies m)"
      "msg_InReplyTo m \<noteq> [] \<Longrightarrow> \<exists>p. getMessage (msg_InReplyTo m) s = Some p \<and> msg_ThreadID p = msg_ThreadID m"
    if "getMessage i s = Some m" for i m using store_okD(6) [OF ok] that by (simp_all add: replies_ok_def)
  have not_new: "msg_InReplyTo c \<noteq> ?i" if "getMessage j s = Some c" for j c
    using R(3) [OF that] store_okD(9) [OF ok] messageIDFor_nonempty [of "nextSeq s"] by (metis option.distinct(1))
  have m: "msg_Replies ?m = []" "msg_InReplyTo ?m = req_ReplyTo req" by (simp_all add: composed_def)
  have reps: "{j. \<exists>c. getMessage j (sent now req ck s) = Some c \<and> msg_InReplyTo c = i} =
      {j. \<exists>c. getMessage j s = Some c \<and> msg_InReplyTo c = i} \<union> (if req_ReplyTo req = i then {?i} else {})" for i
    using store_okD(9) [OF ok] m(2) by (auto simp: sent_old [OF ok])
  have thread: "\<exists>p. getMessage j (sent now req ck s) = Some p \<and> msg_ThreadID p = t"
    if "\<exists>p. getMessage j s = Some p \<and> msg_ThreadID p = t" for j t using that store_okD(9) [OF ok] by (auto simp: sent_old [OF ok])
  show ?thesis unfolding replies_ok_def reps
  proof (intro allI impI)
    fix i m' assume "getMessage i (sent now req ck s) = Some m'"
    then consider (new) "i = ?i" "m' = ?m" | (old) c where "i \<noteq> ?i" "getMessage i s = Some c"
        "m' = (if ck_parent ck = Some i then replied ?i now c else c)"
      by (auto simp: getMessage_sent split: if_splits)
    then show "set (msg_Replies m') = {j. \<exists>c. getMessage j s = Some c \<and> msg_InReplyTo c = i} \<union> (if req_ReplyTo req = i then {?i} else {}) \<and>
        distinct (msg_Replies m') \<and>
        (msg_InReplyTo m' \<noteq> [] \<longrightarrow> (\<exists>p. getMessage (msg_InReplyTo m') (sent now req ck s) = Some p \<and> msg_ThreadID p = msg_ThreadID m'))"
    proof cases
      case new
      then show ?thesis using m P(3) not_new P(2) [of ?i now] thread by auto
    next
      case old
      have "?i \<notin> set (msg_Replies c)" "i \<noteq> []" using R(1) [OF old(2)] store_okD(9) [OF ok] stored_nonempty [OF ok old(2)] by auto
      then show ?thesis using old R [OF old(2)] P(1) thread by auto
    qed
  qed
qed

lemma sent_bytes_ok:
  assumes ok: "store_ok codec s" and accepted: "checkSend codec req s = Inr ck"
  shows "bytes_ok codec (sent now req ck s)"
proof -
  let ?i = "messageIDFor (nextSeq s)" and ?s = "sent now req ck s"
  let ?size = "\<lambda>m. messageBodySize m + metadataByteSize codec (msg_Metadata m)"
  have k: "keys_ok s" "keys_ok ?s" using store_okD(1) [OF ok] keys_ok_sent by auto
  have dom: "fst ` set (messages ?s) = insert ?i (fst ` set (messages s))"
    using arg_cong [OF messages_sent [OF store_okD(9) [OF ok], of now req ck], of set] by simp
  have fresh: "?i \<notin> fst ` set (messages s)" using store_okD(9) [OF ok] getMessage_keys by blast
  have same: "?size (the (getMessage j ?s)) = ?size (the (getMessage j s))" if "j \<in> fst ` set (messages s)" for j
  proof -
    have "j \<noteq> ?i" "getMessage j s \<noteq> None" using that fresh getMessage_keys by blast+
    then show ?thesis by (auto simp: getMessage_sent messageBodySize_def)
  qed
  have "storedBytes codec ?s = ?size (the (getMessage ?i ?s)) + storedBytes codec s"
    unfolding storedBytes_sum [OF k(1)] storedBytes_sum [OF k(2)] dom using fresh same by (simp cong: sum.cong)
  also have "the (getMessage ?i ?s) = composed req ck ?i now" by (simp add: getMessage_sent)
  finally show ?thesis using checkSend_Inr(9) [OF accepted] by (auto simp: bytes_ok_def composed_def messageBodySize_def)
qed

lemma Send_ok: "store_ok codec s \<Longrightarrow> store_ok codec (snd (Send codec now req s))"
  by (auto simp: Send_eq split: sum.split)
    (simp add: store_ok_def [of codec "sent _ _ _ _"] keys_ok_sent store_okD(1,8) sent_count_ok sent_messages_ok sent_deliveries_ok
      sent_threads_ok sent_replies_ok sent_bytes_ok)

section \<open>Reading and acknowledging keep the invariant\<close>

text \<open>A delivery changes its marks and its message the time of its last change.\<close>

definition marked :: "uint32 \<Rightarrow> MessageID \<Rightarrow> Message \<Rightarrow> DeliveryState \<Rightarrow> time \<Rightarrow> Store \<Rightarrow> Store" where
  "marked r i m d u s = putDelivery r i d (setMessage i (m\<lparr>msg_UpdatedAt := u\<rparr>) s)"

lemma getMessage_marked: "getMessage j (marked r i m d u s) = (if j = i then Some (m\<lparr>msg_UpdatedAt := u\<rparr>) else getMessage j s)"
  by (simp add: marked_def msgs.find_put)

lemma deliveryOf_marked: "deliveryOf k (marked r i m d u s) = (if k = (r, i) then Some d else deliveryOf k s)"
  using dels.find_put [of k "(r, i)" d "setMessage i (m\<lparr>msg_UpdatedAt := u\<rparr>) s"] by (simp add: marked_def)

lemma marked_other [simp]:
  "threadOf t (marked r i m d u s) = threadOf t s" "nextSeq (marked r i m d u s) = nextSeq s" "limits (marked r i m d u s) = limits s"
  by (simp_all add: marked_def)

lemma marked_ok:
  assumes ok: "store_ok codec s" and m: "getMessage i s = Some m" and d: "deliveryOf (r, i) s = Some d"
    and d': "del_MessageID d' = del_MessageID d" "del_Recipient d' = del_Recipient d"
  shows "store_ok codec (marked r i m d' u s)" (is "store_ok codec ?s")
proof -
  have keys: "map fst (messages ?s) = map fst (messages s)" using m by (simp add: marked_def messages_setMessage)
  have fsts: "fst ` set (messages ?s) = fst ` set (messages s)" using arg_cong [OF keys, of set] by simp
  have len: "length (messages ?s) = length (messages s)" using arg_cong [OF keys, of length] by simp
  have old: "(\<exists>c. getMessage j ?s = Some c \<and> P c) \<longleftrightarrow> (\<exists>c. getMessage j s = Some c \<and> P (if j = i then c\<lparr>msg_UpdatedAt := u\<rparr> else c))" for j P
    using m by (auto simp: getMessage_marked)
  have k: "keys_ok ?s" using store_okD(1) [OF ok] by (simp add: marked_def)
  moreover have "count_ok ?s" using store_okD(2) [OF ok] by (simp add: count_ok_def len fsts)
  moreover have "messages_ok ?s" using store_okD(3) [OF ok] m by (auto simp: messages_ok_def getMessage_marked message_ok_def)
  moreover have "deliveries_ok ?s" using store_okD(4) [OF ok] m d d'
    unfolding deliveries_ok_def old by (fastforce simp: getMessage_marked deliveryOf_marked split: if_splits)
  moreover have "threads_ok ?s" using store_okD(5) [OF ok] unfolding threads_ok_def old by (auto cong: conj_cong)
  moreover have "replies_ok ?s" using store_okD(6) [OF ok] m
    unfolding replies_ok_def old by (fastforce simp: getMessage_marked split: if_splits)
  moreover have "storedBytes codec ?s = storedBytes codec s"
    unfolding storedBytes_sum [OF k] storedBytes_sum [OF store_okD(1) [OF ok]] fsts
    using m by (intro sum.cong) (auto simp: getMessage_marked messageBodySize_def)
  ultimately show ?thesis using store_okD(7,8) [OF ok] by (simp add: store_ok_def bytes_ok_def)
qed

lemma messageDelivery_Inr:
  "messageDelivery i r s = Inr (m, d) \<longleftrightarrow> r \<noteq> 0 \<and> getMessage i s = Some m \<and> deliveryOf (r, i) s = Some d"
  by (auto simp: messageDelivery_def getMessage_def deliveryOf_def split: option.splits)

lemma update_same: "map_of al k = Some v \<Longrightarrow> AList.update k v al = al"
  by (induction al) auto

lemma setMessage_same: "getMessage i s = Some m \<Longrightarrow> setMessage i m s = s"
  by (simp add: setMessage_def getMessage_def update_same)

text \<open>The three operations as such marks.\<close>

lemma SetLastEventSeq_eq:
  "SetLastEventSeq i r seq s =
     (case messageDelivery i r s of
        Inl e \<Rightarrow> (Inl e, s)
      | Inr (m, d) \<Rightarrow> (Inr (summaryFor m (d\<lparr>del_LastEventSeq := seq\<rparr>)), marked r i m (d\<lparr>del_LastEventSeq := seq\<rparr>) (msg_UpdatedAt m) s))"
  by (auto simp: SetLastEventSeq_def marked_def messageDelivery_Inr setMessage_same Let_def split: sum.split)

lemma Read_eq:
  "Read now i r peek s =
     (case messageDelivery i r s of
        Inl e \<Rightarrow> (Inl e, s)
      | Inr (m, d) \<Rightarrow>
          if \<not> peek \<and> del_ReadAt d = 0
          then (Inr (m\<lparr>msg_UpdatedAt := now\<rparr>, d\<lparr>del_ReadAt := now\<rparr>), marked r i m (d\<lparr>del_ReadAt := now\<rparr>) now s)
          else (Inr (m, d), s))"
  by (auto simp: Read_def marked_def setMessage_def Let_def split: sum.split)

lemma Ack_eq:
  "Ack now i r status note s =
     (if int (length note) > AckNoteBytes (limits s) then (Inl (AckNoteTooLong (AckNoteBytes (limits s))), s)
      else case messageDelivery i r s of
        Inl e \<Rightarrow> (Inl e, s)
      | Inr (m, d) \<Rightarrow>
          let d' = d\<lparr>del_AckedAt := now, del_AckStatus := status, del_AckNote := note\<rparr>
          in if del_AckedAt d = 0 \<or> del_AckStatus d \<noteq> status \<or> del_AckNote d \<noteq> note then (Inr d', marked r i m d' now s) else (Inr d, s))"
  by (auto simp: Ack_def marked_def setMessage_def Let_def split: sum.split)

lemma SetLastEventSeq_ok: "store_ok codec s \<Longrightarrow> store_ok codec (snd (SetLastEventSeq i r seq s))"
  by (auto simp: SetLastEventSeq_eq messageDelivery_Inr intro: marked_ok split: sum.split)

lemma Read_ok: "store_ok codec s \<Longrightarrow> store_ok codec (snd (Read now i r peek s))"
  by (auto simp: Read_eq messageDelivery_Inr intro: marked_ok split: sum.split)

lemma Ack_ok: "store_ok codec s \<Longrightarrow> store_ok codec (snd (Ack now i r status note s))"
  by (auto simp: Ack_eq messageDelivery_Inr Let_def intro: marked_ok split: sum.split)

end
