(* ===== verification/Mailbox_Snapshot.thy ===== *)
theory Mailbox_Snapshot
  imports Mailbox_Laws "HOL-Library.Multiset"
begin

text \<open>
  Snapshots of the mailbox: which snapshots can be restored, what the restored store holds, and
  that restoring the snapshot of a good store gives a store with the same messages, deliveries,
  threads and next ID.
\<close>

section \<open>Restoring\<close>

text \<open>The loops of \<^const>\<open>RestoreSnapshot\<close>, as folds over snapshots that pass its checks.\<close>

definition addMessage :: "Message \<Rightarrow> Store \<Rightarrow> Store" where
  "addMessage m s = setMessage (msg_ID m) m (if msg_ThreadID m \<noteq> [] then joinThread (msg_ThreadID m) (msg_ID m) s else s)"

definition addDelivery :: "DeliveryState \<Rightarrow> Store \<Rightarrow> Store" where
  "addDelivery d = putDelivery (addr_ID (del_Recipient d)) (del_MessageID d) d"

definition maxSeqOf :: "Message list \<Rightarrow> uint64 \<Rightarrow> uint64" where
  "maxSeqOf ms n = fold (\<lambda>m n. case parseMessageSeq (msg_ID m) of Some seq \<Rightarrow> if seq > n then seq else n | None \<Rightarrow> n) ms n"

lemma getMessage_addMessage: "getMessage i (addMessage m s) = (if i = msg_ID m then Some m else getMessage i s)"
  by (simp add: addMessage_def msgs.find_put)

lemma restoreMessages_Inr:
  "restoreMessages ms n s = Inr y \<longleftrightarrow>
     y = (maxSeqOf ms n, fold addMessage ms s) \<and> distinct (map msg_ID ms) \<and> [] \<notin> msg_ID ` set ms \<and>
     (\<forall>m\<in>set ms. getMessage (msg_ID m) s = None)"
proof (induction ms arbitrary: n s)
  case (Cons m ms)
  let ?s = "addMessage m s"
  let ?n = "case parseMessageSeq (msg_ID m) of Some seq \<Rightarrow> if seq > n then seq else n | None \<Rightarrow> n"
  show ?case
  proof (cases "msg_ID m = [] \<or> getMessage (msg_ID m) s \<noteq> None")
    case False
    then have "restoreMessages (m # ms) n s = restoreMessages ms ?n ?s"
      by (auto simp: addMessage_def putMessage_setMessage getMessage_def Let_def)
    moreover have "maxSeqOf (m # ms) n = maxSeqOf ms ?n" by (simp add: maxSeqOf_def)
    ultimately show ?thesis using Cons.IH [of ?n ?s] False
      by (simp del: restoreMessages.simps add: getMessage_addMessage) (auto simp: image_iff split: if_splits)
  qed (auto simp: getMessage_def)
qed (auto simp: maxSeqOf_def)

definition delivery_key :: "DeliveryState \<Rightarrow> uint32 \<times> MessageID" where
  "delivery_key d = (addr_ID (del_Recipient d), del_MessageID d)"

lemma deliveryOf_addDelivery: "deliveryOf k (addDelivery d s) = (if k = delivery_key d then Some d else deliveryOf k s)"
  using dels.find_put [of k "delivery_key d" d s] by (simp add: addDelivery_def delivery_key_def)

lemma messages_addDelivery [simp]: "messages (addDelivery d s) = messages s" "getMessage i (addDelivery d s) = getMessage i s"
  by (simp_all add: addDelivery_def)

definition restorable :: "Store \<Rightarrow> DeliveryState \<Rightarrow> bool" where
  "restorable s d \<longleftrightarrow> del_MessageID d \<noteq> [] \<and> addr_ID (del_Recipient d) \<noteq> 0 \<and> getMessage (del_MessageID d) s \<noteq> None \<and>
     deliveryOf (delivery_key d) s = None"

lemma restorable_addDelivery: "restorable (addDelivery d s) x \<longleftrightarrow> delivery_key x \<noteq> delivery_key d \<and> restorable s x"
  by (auto simp: restorable_def deliveryOf_addDelivery)

lemma restoreDeliveries_Inr:
  "restoreDeliveries ds s = Inr y \<longleftrightarrow> y = fold addDelivery ds s \<and> distinct (map delivery_key ds) \<and> list_all (restorable s) ds"
proof (induction ds arbitrary: s)
  case (Cons d ds)
  have all: "list_all (restorable (addDelivery d s)) ds \<longleftrightarrow> delivery_key d \<notin> delivery_key ` set ds \<and> list_all (restorable s) ds"
    by (auto simp: list_all_iff restorable_addDelivery image_iff)
  show ?case
  proof (cases "restorable s d")
    case True
    then have "restoreDeliveries (d # ds) s = restoreDeliveries ds (addDelivery d s)"
      by (auto simp: restorable_def addDelivery_def getMessage_def deliveryOf_def delivery_key_def Let_def)
    then show ?thesis using Cons.IH [of "addDelivery d s"] True all by (simp del: restoreDeliveries.simps) blast
  next
    case False
    then show ?thesis by (auto simp: restorable_def getMessage_def deliveryOf_def delivery_key_def Let_def)
  qed
qed auto

lemma check_Inr_unique: "(\<And>x. r = Inr x \<longleftrightarrow> x = a \<and> C) \<Longrightarrow> check r k = Inr y \<longleftrightarrow> C \<and> k a = Inr y"
  by auto

text \<open>A snapshot that can be restored.\<close>

definition snapshot_ok :: "Snapshot \<Rightarrow> bool" where
  "snapshot_ok snap \<longleftrightarrow>
     distinct (map msg_ID (sn_Messages snap)) \<and> [] \<notin> msg_ID ` set (sn_Messages snap) \<and>
     distinct (map delivery_key (sn_Deliveries snap)) \<and>
     (\<forall>d\<in>set (sn_Deliveries snap). addr_ID (del_Recipient d) \<noteq> 0 \<and> del_MessageID d \<in> msg_ID ` set (sn_Messages snap))"

text \<open>The store it gives.\<close>

definition restored :: "Snapshot \<Rightarrow> Limits \<Rightarrow> Store" where
  "restored snap l =
     (let seq = (if sn_NextSeq snap = 0 then 1 else sn_NextSeq snap); top = maxSeqOf (sn_Messages snap) 0;
          s = fold addDelivery (sn_Deliveries snap) (fold addMessage (sn_Messages snap) (NewStore l))
      in s\<lparr>nextSeq := if top \<ge> seq then top + 1 else seq\<rparr>)"

lemma fold_addMessage_nextSeq [simp]: "nextSeq (fold addMessage ms s) = nextSeq s"
  and fold_addMessage_limits [simp]: "limits (fold addMessage ms s) = limits s"
  and fold_addMessage_deliveries [simp]: "deliveries (fold addMessage ms s) = deliveries s"
  by (induction ms arbitrary: s) (simp_all add: addMessage_def)

lemma fold_addDelivery_nextSeq [simp]: "nextSeq (fold addDelivery ds s) = nextSeq s"
  and fold_addDelivery_limits [simp]: "limits (fold addDelivery ds s) = limits s"
  and fold_addDelivery_messages [simp]: "messages (fold addDelivery ds s) = messages s"
  and fold_addDelivery_getMessage [simp]: "getMessage i (fold addDelivery ds s) = getMessage i s"
  and fold_addDelivery_threadOf [simp]: "threadOf t (fold addDelivery ds s) = threadOf t s"
  by (induction ds arbitrary: s) (simp_all add: addDelivery_def)

lemma addMessage_seq: "addMessage m (s\<lparr>nextSeq := n\<rparr>) = (addMessage m s)\<lparr>nextSeq := n\<rparr>"
  by (simp add: addMessage_def setMessage_def joinThread_def)

lemma addDelivery_seq: "addDelivery d (s\<lparr>nextSeq := n\<rparr>) = (addDelivery d s)\<lparr>nextSeq := n\<rparr>"
  by (simp add: addDelivery_def putDelivery_def inboxOf_def)

lemma fold_addMessage_seq: "fold addMessage ms (s\<lparr>nextSeq := n\<rparr>) = (fold addMessage ms s)\<lparr>nextSeq := n\<rparr>"
  by (induction ms arbitrary: s) (simp_all add: addMessage_seq)

lemma fold_addDelivery_seq: "fold addDelivery ds (s\<lparr>nextSeq := n\<rparr>) = (fold addDelivery ds s)\<lparr>nextSeq := n\<rparr>"
  by (induction ds arbitrary: s) (simp_all add: addDelivery_seq)

lemma getMessage_fold_addMessage:
  "distinct (map msg_ID ms) \<Longrightarrow>
     getMessage i (fold addMessage ms s) = Some m \<longleftrightarrow> (if i \<in> msg_ID ` set ms then m \<in> set ms \<and> msg_ID m = i else getMessage i s = Some m)"
proof (induction ms arbitrary: s)
  case (Cons a ms)
  then have "m \<in> set ms \<Longrightarrow> msg_ID m \<noteq> msg_ID a" by (auto simp: rev_image_eqI)
  then show ?case using Cons by (auto simp: getMessage_addMessage)
qed simp

lemma deliveryOf_fold_addDelivery:
  "distinct (map delivery_key ds) \<Longrightarrow>
     deliveryOf k (fold addDelivery ds s) = Some d \<longleftrightarrow>
       (if k \<in> delivery_key ` set ds then d \<in> set ds \<and> delivery_key d = k else deliveryOf k s = Some d)"
  using dels.find_fold_put_Some [of delivery_key ds k "\<lambda>d. d" s d]
  by (simp add: addDelivery_def [abs_def] delivery_key_def)

lemma NewStore_lookups [simp]:
  "getMessage i (NewStore l) = None" "deliveryOf k (NewStore l) = None" "threadOf t (NewStore l) = []"
  by (simp_all add: NewStore_def getMessage_def deliveryOf_def inboxOf_def threadOf_def)

lemma restored_messages:
  assumes "snapshot_ok snap"
  shows "getMessage i (restored snap l) = Some m \<longleftrightarrow> m \<in> set (sn_Messages snap) \<and> msg_ID m = i"
  using assms by (auto simp: restored_def snapshot_ok_def Let_def getMessage_fold_addMessage)

lemma restored_deliveries:
  assumes "snapshot_ok snap"
  shows "deliveryOf k (restored snap l) = Some d \<longleftrightarrow> d \<in> set (sn_Deliveries snap) \<and> delivery_key d = k"
proof -
  have "deliveryOf k (fold addMessage ms (NewStore l)) = None" for ms
    by (simp add: deliveryOf_def inboxOf_def NewStore_def)
  then show ?thesis using assms by (auto simp: restored_def snapshot_ok_def Let_def deliveryOf_fold_addDelivery)
qed

lemma RestoreSnapshot_eq: "RestoreSnapshot snap l = Inr s \<longleftrightarrow> snapshot_ok snap \<and> s = restored snap l"
proof -
  let ?seq = "if sn_NextSeq snap = 0 then 1 else sn_NextSeq snap" and ?top = "maxSeqOf (sn_Messages snap) 0"
  define s1 where "s1 = (NewStore l)\<lparr>nextSeq := ?seq\<rparr>"
  define s2 where "s2 = fold addMessage (sn_Messages snap) s1"
  define s3 where "s3 = fold addDelivery (sn_Deliveries snap) s2"
  have s1: "(if sn_NextSeq snap \<noteq> 0 then (NewStore l)\<lparr>nextSeq := sn_NextSeq snap\<rparr> else NewStore l) = s1"
    by (simp add: NewStore_def s1_def)
  have none: "getMessage i s1 = None" "deliveryOf k s2 = None" for i k
    unfolding s2_def deliveryOf_def inboxOf_def fold_addMessage_deliveries by (simp_all add: s1_def) (simp add: NewStore_def)
  have look: "getMessage i s2 \<noteq> None \<longleftrightarrow> i \<in> msg_ID ` set (sn_Messages snap)" if "distinct (map msg_ID (sn_Messages snap))" for i
    unfolding not_None_eq s2_def getMessage_fold_addMessage [OF that] using none(1) [of i] by auto
  have "restoreMessages (sn_Messages snap) 0 s1 = Inr x \<longleftrightarrow>
      x = (?top, s2) \<and> distinct (map msg_ID (sn_Messages snap)) \<and> [] \<notin> msg_ID ` set (sn_Messages snap)" for x
    unfolding restoreMessages_Inr s2_def using none(1) by blast
  note msgs = check_Inr_unique [OF this]
  have "RestoreSnapshot snap l = Inr s \<longleftrightarrow>
      (distinct (map msg_ID (sn_Messages snap)) \<and> [] \<notin> msg_ID ` set (sn_Messages snap)) \<and>
      check (restoreDeliveries (sn_Deliveries snap) s2) (\<lambda>s3. let s4 = (if nextSeq s3 = 0 then s3\<lparr>nextSeq := 1\<rparr> else s3)
        in Inr (if ?top \<ge> nextSeq s4 then s4\<lparr>nextSeq := ?top + 1\<rparr> else s4)) = Inr s"
    unfolding RestoreSnapshot_def Let_def s1 msgs by (simp only: prod.case)
  also have "\<dots> \<longleftrightarrow> (distinct (map msg_ID (sn_Messages snap)) \<and> [] \<notin> msg_ID ` set (sn_Messages snap)) \<and>
      (distinct (map delivery_key (sn_Deliveries snap)) \<and> list_all (restorable s2) (sn_Deliveries snap)) \<and>
      s = (let s4 = (if nextSeq s3 = 0 then s3\<lparr>nextSeq := 1\<rparr> else s3) in if ?top \<ge> nextSeq s4 then s4\<lparr>nextSeq := ?top + 1\<rparr> else s4)"
    unfolding check_Inr_unique [OF restoreDeliveries_Inr] s3_def Let_def by auto
  finally have A: "RestoreSnapshot snap l = Inr s \<longleftrightarrow> (distinct (map msg_ID (sn_Messages snap)) \<and> [] \<notin> msg_ID ` set (sn_Messages snap)) \<and>
      (distinct (map delivery_key (sn_Deliveries snap)) \<and> list_all (restorable s2) (sn_Deliveries snap)) \<and>
      s = (let s4 = (if nextSeq s3 = 0 then s3\<lparr>nextSeq := 1\<rparr> else s3) in if ?top \<ge> nextSeq s4 then s4\<lparr>nextSeq := ?top + 1\<rparr> else s4)" .
  have B: "(let s4 = (if nextSeq s3 = 0 then s3\<lparr>nextSeq := 1\<rparr> else s3) in if ?top \<ge> nextSeq s4 then s4\<lparr>nextSeq := ?top + 1\<rparr> else s4) = restored snap l"
    unfolding s3_def s2_def s1_def by (simp add: restored_def Let_def fold_addMessage_seq fold_addDelivery_seq)
  show ?thesis
  proof (cases "distinct (map msg_ID (sn_Messages snap)) \<and> [] \<notin> msg_ID ` set (sn_Messages snap)")
    case True
    then have "restorable s2 d \<longleftrightarrow> addr_ID (del_Recipient d) \<noteq> 0 \<and> del_MessageID d \<in> msg_ID ` set (sn_Messages snap)" for d
      using look [of "del_MessageID d"] none(2) by (auto simp: restorable_def)
    then show ?thesis using True unfolding A B by (simp add: snapshot_ok_def list_all_iff)
  qed (auto simp: A snapshot_ok_def)
qed

lemma restoreMessages_Inl: "restoreMessages ms n s = Inl e \<Longrightarrow> \<exists>x. e = BadSnapshot x"
  by (induction ms n s rule: restoreMessages.induct) (auto simp: Let_def split: if_splits)

lemma restoreDeliveries_Inl: "restoreDeliveries ds s = Inl e \<Longrightarrow> \<exists>x. e = BadSnapshot x"
  by (induction ds s rule: restoreDeliveries.induct) (auto simp: Let_def split: if_splits)

lemma RestoreSnapshot_error: "RestoreSnapshot snap l = Inl e \<Longrightarrow> \<exists>x. e = BadSnapshot x"
  by (auto simp: RestoreSnapshot_def check_def Let_def split: sum.splits dest: restoreMessages_Inl restoreDeliveries_Inl)

section \<open>Stores with the same contents\<close>

text \<open>The order in which a table is iterated is not part of the contents.\<close>

definition same_mail :: "Store \<Rightarrow> Store \<Rightarrow> bool" where
  "same_mail s t \<longleftrightarrow>
     (\<forall>i. getMessage i s = getMessage i t) \<and> (\<forall>k. deliveryOf k s = deliveryOf k t) \<and>
     (\<forall>x. mset (threadOf x s) = mset (threadOf x t)) \<and> nextSeq s = nextSeq t \<and> limits s = limits t"

lemma same_keys: "same_mail s t \<Longrightarrow> fst ` set (messages s) = fst ` set (messages t)"
proof -
  assume "same_mail s t"
  then have "i \<in> fst ` set (messages s) \<longleftrightarrow> i \<in> fst ` set (messages t)" for i
    unfolding getMessage_keys [symmetric] by (simp add: same_mail_def)
  then show ?thesis by blast
qed

lemma same_mail_ok:
  assumes same: "same_mail s t" and keys: "keys_ok s" and ok: "store_ok codec t"
  shows "store_ok codec s"
proof -
  have get: "getMessage i s = getMessage i t" "deliveryOf k s = deliveryOf k t" "nextSeq s = nextSeq t" "limits s = limits t" for i k
    using same unfolding same_mail_def by blast+
  have thr: "distinct (threadOf x s) = distinct (threadOf x t)" "set (threadOf x s) = set (threadOf x t)" for x
    using same by (meson same_mail_def mset_eq_imp_distinct_iff mset_eq_setD)+
  have "length (messages s) = length (messages t)"
    using same_keys [OF same] keys store_okD(1) [OF ok] by (simp add: keys_ok_def flip: distinct_card) (metis distinct_card length_map set_map)
  moreover have "storedBytes codec s = storedBytes codec t"
    unfolding storedBytes_sum [OF keys] storedBytes_sum [OF store_okD(1) [OF ok]] same_keys [OF same] by (simp add: get)
  ultimately show ?thesis using ok keys same_keys [OF same]
    by (simp add: store_ok_def count_ok_def messages_ok_def deliveries_ok_def threads_ok_def replies_ok_def bytes_ok_def get thr)
qed

section \<open>The snapshot of a good store\<close>

lemma distinct_keys_mset: "mset xs = mset ys \<Longrightarrow> distinct (map f xs) \<longleftrightarrow> distinct (map f ys)"
  by (metis mset_eq_imp_distinct_iff mset_map)

lemma distinct_nested:
  "distinct (map fst al) \<Longrightarrow> list_all (\<lambda>(r, b). distinct (map fst b)) al \<Longrightarrow>
     distinct (concat (map (\<lambda>(r, b). map (\<lambda>(i, d). (r, i)) b) al))"
proof (induction al)
  case (Cons p al)
  obtain r b where p: "p = (r, b)" by (cases p)
  have "map (\<lambda>(i, d). (r, i)) b = map (Pair r) (map fst b)" by auto
  then have "distinct (map (\<lambda>(i, d). (r, i)) b)" using Cons.prems p by (simp add: distinct_map [of "Pair r"] inj_on_def del: map_map)
  moreover have "r \<notin> fst ` set al" using Cons.prems p by simp
  ultimately show ?case using Cons p by (force simp: image_iff)
qed simp

lemma deliveryOf_entries:
  "keys_ok s \<Longrightarrow> deliveryOf (r, i) s = Some d \<longleftrightarrow> (\<exists>b. (r, b) \<in> set (deliveries s) \<and> (i, d) \<in> set b)"
  by (auto simp: keys_ok_def deliveryOf_def inboxOf_def list_all_iff map_of_is_SomeI split: option.splits dest!: map_of_SomeD
      intro!: map_of_is_SomeI) (metis map_of_eq_Some_iff option.inject)+

lemma getMessage_entries: "keys_ok s \<Longrightarrow> getMessage i s = Some m \<longleftrightarrow> (i, m) \<in> set (messages s)"
  by (simp add: keys_ok_def getMessage_def)

lemma snapshot_messages:
  assumes ok: "store_ok codec s"
  shows "m \<in> set (sn_Messages (store_Snapshot s)) \<longleftrightarrow> getMessage (msg_ID m) s = Some m"
    and "distinct (map msg_ID (sn_Messages (store_Snapshot s)))"
proof -
  have id: "msg_ID m = i" if "(i, m) \<in> set (messages s)" for i m
    using store_okD(1,3) [OF ok] that by (metis getMessage_entries message_ok_def messages_ok_def)
  have ms: "mset (sn_Messages (store_Snapshot s)) = mset (map snd (messages s))"
    by (auto simp: store_Snapshot_def materialize_def store_SnapshotSource_def)
  have "m \<in> set (sn_Messages (store_Snapshot s)) \<longleftrightarrow> (\<exists>i. (i, m) \<in> set (messages s))" unfolding mset_eq_setD [OF ms] by force
  then show "m \<in> set (sn_Messages (store_Snapshot s)) \<longleftrightarrow> getMessage (msg_ID m) s = Some m"
    unfolding getMessage_entries [OF store_okD(1) [OF ok]] using id by blast
  have "map msg_ID (map snd (messages s)) = map fst (messages s)" using id by auto
  then show "distinct (map msg_ID (sn_Messages (store_Snapshot s)))"
    using distinct_keys_mset [OF ms] store_okD(1) [OF ok] by (metis keys_ok_def)
qed

lemma snapshot_deliveries:
  assumes ok: "store_ok codec s"
  shows "d \<in> set (sn_Deliveries (store_Snapshot s)) \<longleftrightarrow> deliveryOf (delivery_key d) s = Some d"
    and "distinct (map delivery_key (sn_Deliveries (store_Snapshot s)))"
proof -
  let ?all = "concat (map (\<lambda>(r, b). map snd b) (deliveries s))"
  have k: "keys_ok s" using store_okD(1) [OF ok] .
  have key: "delivery_key d = (r, i)" if "(r, b) \<in> set (deliveries s)" "(i, d) \<in> set b" for r b i d
    using store_okD(4) [OF ok] deliveryOf_entries [OF k, of r i d] that by (auto simp: deliveries_ok_def delivery_key_def)
  have ms: "mset (sn_Deliveries (store_Snapshot s)) = mset ?all"
    by (auto simp: store_Snapshot_def materialize_def store_SnapshotSource_def)
  have "d \<in> set (sn_Deliveries (store_Snapshot s)) \<longleftrightarrow> (\<exists>r b i. (r, b) \<in> set (deliveries s) \<and> (i, d) \<in> set b)"
  proof -
    have "d \<in> set ?all \<longleftrightarrow> (\<exists>p\<in>set (deliveries s). \<exists>e\<in>set (snd p). d = snd e)" by (auto simp: split_beta)
    then show ?thesis unfolding mset_eq_setD [OF ms] by (metis prod.collapse snd_conv)
  qed
  then show "d \<in> set (sn_Deliveries (store_Snapshot s)) \<longleftrightarrow> deliveryOf (delivery_key d) s = Some d"
    using key deliveryOf_entries [OF k] by (cases "delivery_key d") (metis (no_types))
  have "map delivery_key ?all = concat (map (\<lambda>(r, b). map (\<lambda>(i, d). (r, i)) b) (deliveries s))"
    using key by (auto simp: map_concat comp_def intro!: arg_cong [of _ _ concat])
  then show "distinct (map delivery_key (sn_Deliveries (store_Snapshot s)))"
    using distinct_keys_mset [OF ms] distinct_nested [of "deliveries s"] k unfolding keys_ok_def by metis
qed

lemma snapshot_nextSeq: "sn_NextSeq (store_Snapshot s) = nextSeq s"
  by (simp add: store_Snapshot_def materialize_def store_SnapshotSource_def)

lemma snapshot_restorable:
  assumes ok: "store_ok codec s" shows "snapshot_ok (store_Snapshot s)"
proof -
  have "addr_ID (del_Recipient d) \<noteq> 0 \<and> del_MessageID d \<in> msg_ID ` set (sn_Messages (store_Snapshot s))"
    if "d \<in> set (sn_Deliveries (store_Snapshot s))" for d
  proof -
    have "deliveryOf (addr_ID (del_Recipient d), del_MessageID d) s = Some d"
      using that snapshot_deliveries(1) [OF ok] by (simp add: delivery_key_def)
    then obtain m where m: "getMessage (del_MessageID d) s = Some m" "del_Recipient d \<in> set (msg_Recipients m)"
      using stored_delivery(3) [OF ok] by blast
    then have "message_ok (del_MessageID d) m" using stored_message [OF ok] by blast
    then have "msg_ID m = del_MessageID d" "addr_ID (del_Recipient d) \<noteq> 0" using m(2) by (simp_all add: message_ok_def)
    moreover have "m \<in> set (sn_Messages (store_Snapshot s))" using calculation(1) m(1) snapshot_messages(1) [OF ok, of m] by simp
    ultimately show ?thesis by (metis image_eqI)
  qed
  moreover have "[] \<notin> msg_ID ` set (sn_Messages (store_Snapshot s))"
    using snapshot_messages(1) [OF ok] stored_nonempty [OF ok] by (metis image_iff)
  ultimately show ?thesis using snapshot_messages(2) [OF ok] snapshot_deliveries(2) [OF ok] by (simp add: snapshot_ok_def)
qed

lemma maxSeqOf_bound:
  "(\<And>m seq. m \<in> set ms \<Longrightarrow> parseMessageSeq (msg_ID m) = Some seq \<Longrightarrow> seq < b) \<Longrightarrow> n < b \<Longrightarrow> maxSeqOf ms n < b"
proof (induction ms arbitrary: n)
  case (Cons m ms)
  have "maxSeqOf (m # ms) n = maxSeqOf ms (case parseMessageSeq (msg_ID m) of Some seq \<Rightarrow> if seq > n then seq else n | None \<Rightarrow> n)"
    by (simp add: maxSeqOf_def)
  also have "\<dots> < b" using Cons.prems by (intro Cons.IH) (auto split: option.split)
  finally show ?case .
qed (simp add: maxSeqOf_def)

lemma stored_seq_bound:
  assumes ok: "store_ok codec s" and m: "getMessage i s = Some m" and seq: "parseMessageSeq i = Some seq"
  shows "seq < nextSeq s"
proof -
  obtain n where n: "n \<le> length (messages s)" "i = messageIDFor (of_nat n)"
    using store_okD(2) [OF ok] getMessage_keys [of i s] m by (auto simp: count_ok_def)
  then have "seq = of_nat n" using seq by (simp add: parseMessageSeq_messageIDFor)
  moreover have "unat (of_nat n :: uint64) = n" using store_okD(2) [OF ok] n by (intro unat_seq) (simp add: count_ok_def)
  ultimately show ?thesis using store_okD(2) [OF ok] n by (simp add: count_ok_def word_less_nat_alt)
qed

lemma restored_nextSeq:
  assumes ok: "store_ok codec s" shows "nextSeq (restored (store_Snapshot s) l) = nextSeq s"
proof -
  have "nextSeq s \<noteq> 0" using store_okD(2) [OF ok] by (auto simp: count_ok_def)
  moreover have "maxSeqOf (sn_Messages (store_Snapshot s)) 0 < nextSeq s"
    using stored_seq_bound [OF ok] snapshot_messages(1) [OF ok] calculation
    by (intro maxSeqOf_bound) (auto simp: word_gt_0)
  then have "\<not> nextSeq s \<le> maxSeqOf (sn_Messages (store_Snapshot s)) 0" by (simp only: not_le)
  ultimately show ?thesis by (simp only: restored_def snapshot_nextSeq Let_def if_False) simp
qed

lemma threadOf_fold_addMessage:
  "threadOf t (fold addMessage ms s) = threadOf t s @ map msg_ID (filter (\<lambda>m. msg_ThreadID m \<noteq> [] \<and> msg_ThreadID m = t) ms)"
  by (induction ms arbitrary: s) (auto simp: addMessage_def)

lemma restored_threadOf:
  "threadOf t (restored snap l) = map msg_ID (filter (\<lambda>m. msg_ThreadID m \<noteq> [] \<and> msg_ThreadID m = t) (sn_Messages snap))"
  by (simp add: restored_def Let_def threadOf_fold_addMessage)

lemma restored_keys_ok: "keys_ok (restored snap l)"
proof -
  have "keys_ok s \<Longrightarrow> keys_ok (fold addMessage ms s)" for ms s by (induction ms arbitrary: s) (simp_all add: addMessage_def)
  moreover have "keys_ok s \<Longrightarrow> keys_ok (fold addDelivery ds s)" for ds s by (induction ds arbitrary: s) (simp_all add: addDelivery_def)
  moreover have "keys_ok (NewStore l)" by (simp add: keys_ok_def NewStore_def)
  ultimately show ?thesis by (simp add: restored_def Let_def)
qed

lemma restored_same_mail:
  assumes ok: "store_ok codec s" shows "same_mail (restored (store_Snapshot s) (limits s)) s"
proof -
  let ?snap = "store_Snapshot s" and ?r = "restored (store_Snapshot s) (limits s)"
  note snap = snapshot_restorable [OF ok]
  have get: "getMessage i ?r = getMessage i s" for i
  proof (rule option_eqI)
    show "getMessage i ?r = Some m \<longleftrightarrow> getMessage i s = Some m" for m
      unfolding restored_messages [OF snap] snapshot_messages(1) [OF ok] using stored_message [OF ok, of i m] by (auto simp: message_ok_def)
  qed
  have del: "deliveryOf (r, i) ?r = deliveryOf (r, i) s" for r i
  proof (rule option_eqI)
    show "deliveryOf (r, i) ?r = Some d \<longleftrightarrow> deliveryOf (r, i) s = Some d" for d
      unfolding restored_deliveries [OF snap] snapshot_deliveries(1) [OF ok] delivery_key_def
      using stored_delivery(1,2) [OF ok, of r i d] by auto
  qed
  have thr: "mset (threadOf t ?r) = mset (threadOf t s)" for t
  proof -
    have "distinct (threadOf t ?r)"
      using snapshot_messages(2) [OF ok] by (auto simp: restored_threadOf distinct_map intro: inj_on_subset)
    moreover have "set (threadOf t ?r) = set (threadOf t s)"
    proof (rule set_eqI)
      fix i
      have "i \<in> set (threadOf t ?r) \<longleftrightarrow> (\<exists>m. getMessage (msg_ID m) s = Some m \<and> msg_ThreadID m \<noteq> [] \<and> msg_ThreadID m = t \<and> msg_ID m = i)"
        unfolding restored_threadOf using snapshot_messages(1) [OF ok] by auto
      also have "\<dots> \<longleftrightarrow> (\<exists>m. getMessage i s = Some m \<and> msg_ThreadID m = t)"
        using stored_message [OF ok, of i] by (auto simp: message_ok_def)
      finally show "i \<in> set (threadOf t ?r) \<longleftrightarrow> i \<in> set (threadOf t s)" using store_okD(5) [OF ok] by (simp add: threads_ok_def)
    qed
    ultimately show ?thesis using store_okD(5) [OF ok] set_eq_iff_mset_eq_distinct unfolding threads_ok_def by blast
  qed
  have "limits ?r = limits s" using store_okD(8) [OF ok] by (simp add: restored_def Let_def NewStore_def)
  then show ?thesis using get del thr restored_nextSeq [OF ok] by (simp add: same_mail_def)
qed

text \<open>Taking a snapshot and restoring it.\<close>

lemma restart_ok:
  assumes ok: "store_ok codec s"
  shows "\<exists>t. RestoreSnapshot (store_Snapshot s) (limits s) = Inr t \<and> same_mail t s \<and> store_ok codec t"
  using RestoreSnapshot_eq snapshot_restorable [OF ok] restored_same_mail [OF ok]
    same_mail_ok [OF restored_same_mail [OF ok] restored_keys_ok ok] by blast

end
