(* ===== verification/Mailbox_Drain.thy ===== *)
theory Mailbox_Drain
  imports Mailbox_Laws "HOL-Library.Product_Lexorder" "HOL-Library.Multiset"
begin

text \<open>
  The pending deliveries of a pane: the bisection of \<^verbatim>\<open>sort.Search\<close>, the list of the newest pending
  messages that is kept sorted by insertion and cut at a limit, and the counts.
\<close>

section \<open>Bisection\<close>

lemma searchFrom_correct:
  assumes mono: "\<And>a b. a \<le> b \<Longrightarrow> b < n \<Longrightarrow> f a \<Longrightarrow> f b"
  shows "i \<le> j \<Longrightarrow> j \<le> n \<Longrightarrow> (\<And>k. k < i \<Longrightarrow> \<not> f k) \<Longrightarrow> (\<And>k. j \<le> k \<Longrightarrow> k < n \<Longrightarrow> f k) \<Longrightarrow>
    searchFrom f i j \<le> n \<and> (\<forall>k<n. f k \<longleftrightarrow> searchFrom f i j \<le> k)"
proof (induction "j - i" arbitrary: i j rule: less_induct)
  case less
  let ?h = "(i + j) div 2"
  consider "i = j" | "i < j" "f ?h" | "i < j" "\<not> f ?h" using less.prems(1) by linarith
  then show ?case
  proof cases
    case 1
    then have "searchFrom f i j = j" by (subst searchFrom.simps) simp
    then show ?thesis using less.prems 1 by (auto simp: not_less [symmetric])
  next
    case 2
    then have "searchFrom f i j = searchFrom f i ?h" by (subst searchFrom.simps) (simp add: Let_def)
    moreover have "f k" if "?h \<le> k" "k < n" for k using mono [OF that] 2 by simp
    moreover have "?h - i < j - i" "i \<le> ?h" "?h \<le> n" using 2 less.prems(2) by auto
    ultimately show ?thesis using less.hyps [of ?h i] less.prems(3) by (simp only:) blast
  next
    case 3
    then have "searchFrom f i j = searchFrom f (?h + 1) j" by (subst searchFrom.simps) (simp add: Let_def)
    moreover have h: "j - (?h + 1) < j - i" "?h + 1 \<le> j" "?h < n" using 3 less.prems(2) by auto
    moreover have "\<not> f k" if "k < ?h + 1" for k using mono [of k ?h] that 3(2) h(3) by auto
    ultimately show ?thesis using less.hyps [of j "?h + 1"] less.prems(2,4) by (simp only:) blast
  qed
qed

text \<open>The result splits the range at the first index at which the test holds.\<close>

lemma Search_correct:
  assumes "\<And>a b. a \<le> b \<Longrightarrow> b < n \<Longrightarrow> f a \<Longrightarrow> f b"
  shows "Search n f \<le> n \<and> (\<forall>k<n. f k \<longleftrightarrow> Search n f \<le> k)"
  unfolding Search_def using assms by (intro searchFrom_correct) auto

section \<open>The newest messages\<close>

definition newness :: "DeliverySummary \<Rightarrow> int \<times> string" where
  "newness x = (sum_DeliveredAt x, sum_MessageID x)"

lemma drainSummaryNewer_newness: "drainSummaryNewer x y \<longleftrightarrow> newness y < newness x"
  by (auto simp: drainSummaryNewer_def newness_def)

abbreviation newestFirst :: "DeliverySummary list \<Rightarrow> bool" where
  "newestFirst xs \<equiv> sorted_wrt (\<lambda>x y. newness y \<le> newness x) xs"

definition insertNewest :: "DeliverySummary \<Rightarrow> DeliverySummary list \<Rightarrow> DeliverySummary list" where
  "insertNewest x xs = takeWhile (\<lambda>y. newness x \<le> newness y) xs @ x # dropWhile (\<lambda>y. newness x \<le> newness y) xs"

lemma Search_takeWhile:
  assumes "newestFirst xs"
  shows "Search (length xs) (\<lambda>i. drainSummaryNewer x (xs ! i)) = length (takeWhile (\<lambda>y. newness x \<le> newness y) xs)"
proof -
  let ?f = "\<lambda>i. drainSummaryNewer x (xs ! i)" and ?t = "takeWhile (\<lambda>y. newness x \<le> newness y) xs"
  have mono: "?f b" if "a \<le> b" "b < length xs" "?f a" for a b
    using assms that by (cases "a = b") (auto simp: drainSummaryNewer_newness sorted_wrt_iff_nth_less dest!: le_neq_implies_less intro: le_less_trans)
  have S: "Search (length xs) ?f \<le> length xs \<and> (\<forall>k<length xs. ?f k \<longleftrightarrow> Search (length xs) ?f \<le> k)"
    by (rule Search_correct) (rule mono)
  have len: "length ?t \<le> length xs" by (rule length_takeWhile_le)
  have "\<not> ?f k" if "k < length ?t" for k
    using nth_mem [OF that] takeWhile_nth [OF that] by (auto simp: drainSummaryNewer_newness not_less dest: set_takeWhileD)
  moreover have "?f (length ?t)" if "length ?t < length xs" using nth_length_takeWhile [OF that] by (simp add: drainSummaryNewer_newness)
  ultimately show ?thesis
  proof (intro antisym)
    show "Search (length xs) ?f \<le> length ?t" if "length ?t < length xs \<Longrightarrow> ?f (length ?t)"
      using S that len by (cases "length ?t = length xs") auto
    show "length ?t \<le> Search (length xs) ?f" if "\<And>k. k < length ?t \<Longrightarrow> \<not> ?f k"
    proof (rule ccontr)
      assume "\<not> length ?t \<le> Search (length xs) ?f"
      then have "Search (length xs) ?f < length ?t" by simp
      then show False using S len that by (meson le_refl less_le_trans)
    qed
  qed
qed

lemma insertAt_takeWhile: "insertAt (length (takeWhile P xs)) x xs = takeWhile P xs @ x # dropWhile P xs"
  by (simp add: insertAt_def flip: takeWhile_eq_take dropWhile_eq_drop)

lemma insertDrainLatest_eq:
  assumes "newestFirst xs" and "length xs \<le> limit"
  shows "insertDrainLatest xs x limit = take limit (insertNewest x xs)"
proof -
  let ?P = "\<lambda>y. newness x \<le> newness y"
  have e: "insertDrainLatest xs x limit =
      (if length (takeWhile ?P xs) = length xs \<and> length xs \<ge> limit then xs else take limit (insertNewest x xs))"
    unfolding insertDrainLatest_def Search_takeWhile [OF assms(1)] insertNewest_def insertAt_takeWhile Let_def ..
  have "take limit (insertNewest x xs) = xs" if "length (takeWhile ?P xs) = length xs" "length xs \<ge> limit"
  proof -
    have "takeWhile ?P xs = xs" using that(1) by (metis takeWhile_eq_take take_all_iff le_refl)
    then show ?thesis using that assms(2) by (simp add: insertNewest_def)
  qed
  then show ?thesis unfolding e by auto
qed

lemma take_insertNewest: "take n (insertNewest x (take n xs)) = take n (insertNewest x xs)"
proof (induction xs arbitrary: n)
  case (Cons a xs)
  show ?case
  proof (cases n)
    case (Suc k)
    then show ?thesis using Cons.IH [of k] by (cases k) (auto simp: insertNewest_def)
  qed simp
qed simp

lemma insertNewest_Cons:
  "insertNewest x (a # xs) = (if newness x \<le> newness a then a # insertNewest x xs else x # a # xs)"
  by (simp add: insertNewest_def)

lemma set_insertNewest: "mset (insertNewest x xs) = add_mset x (mset xs)"
  by (induction xs) (auto simp: insertNewest_Cons, simp add: insertNewest_def)

lemma insertNewest_sorted: "newestFirst xs \<Longrightarrow> newestFirst (insertNewest x xs)"
proof (induction xs)
  case (Cons a xs)
  have "set (insertNewest x xs) = insert x (set xs)" using arg_cong [OF set_insertNewest, of set_mset] by simp
  then show ?case using Cons by (auto simp: insertNewest_Cons intro: order_trans less_imp_le)
qed (simp add: insertNewest_def)

lemma fold_insertNewest:
  "newestFirst ys \<Longrightarrow> newestFirst (fold insertNewest xs ys) \<and> mset (fold insertNewest xs ys) = mset xs + mset ys"
  by (induction xs arbitrary: ys) (simp_all add: insertNewest_sorted set_insertNewest)

lemma fold_insertNewest_sort: "inj_on newness (set xs) \<Longrightarrow> fold insertNewest xs [] = rev (sort_key newness xs)"
proof -
  assume inj: "inj_on newness (set xs)"
  have "newestFirst (fold insertNewest xs [])" "mset (fold insertNewest xs []) = mset xs" using fold_insertNewest [of "[]" xs] by simp_all
  then have "sorted (map newness (rev (fold insertNewest xs [])))" "mset xs = mset (rev (fold insertNewest xs []))"
    by (simp_all add: sorted_map sorted_wrt_rev)
  from sort_key_inj_key_eq [OF this(2) inj this(1)] show ?thesis by simp
qed

lemma fold_insertDrainLatest:
  "newestFirst ys \<Longrightarrow> fold (\<lambda>x l. insertDrainLatest l x limit) xs (take limit ys) = take limit (fold insertNewest xs ys)"
proof (induction xs arbitrary: ys)
  case (Cons x xs)
  have "newestFirst (take limit ys)" using Cons.prems by (rule sorted_wrt_take)
  then have "insertDrainLatest (take limit ys) x limit = take limit (insertNewest x ys)"
    by (simp add: insertDrainLatest_eq take_insertNewest)
  then show ?case using Cons by (simp add: insertNewest_sorted)
qed simp

section \<open>The status\<close>

definition pending :: "DeliveryState \<Rightarrow> bool" where
  "pending d \<longleftrightarrow> del_ReadAt d = 0 \<or> del_AckedAt d = 0"

definition pendingIDs :: "inbox \<Rightarrow> MessageID list" where
  "pendingIDs b = filter (\<lambda>i. pending (the (map_of b i))) (sort (map fst b))"

definition pendingSummaries :: "Store \<Rightarrow> inbox \<Rightarrow> DeliverySummary list" where
  "pendingSummaries s b = map (\<lambda>i. summaryFor (the (map_of (messages s) i)) (the (map_of b i))) (pendingIDs b)"

text \<open>The loop over any list of messages.\<close>

lemma fold_drainStep:
  "fold (drainStep s b limit) ids status =
     status\<lparr>ds_Unread := ds_Unread status + length (filter (\<lambda>i. del_ReadAt (the (map_of b i)) = 0) ids),
            ds_Unacked := ds_Unacked status + length (filter (\<lambda>i. del_AckedAt (the (map_of b i)) = 0) ids),
            ds_Pending := ds_Pending status + length (filter (\<lambda>i. pending (the (map_of b i))) ids),
            ds_PendingIDs := ds_PendingIDs status @ filter (\<lambda>i. pending (the (map_of b i))) ids,
            ds_Latest := fold (\<lambda>x l. insertDrainLatest l x limit)
              (map (\<lambda>i. summaryFor (the (map_of (messages s) i)) (the (map_of b i))) (filter (\<lambda>i. pending (the (map_of b i))) ids))
              (ds_Latest status)\<rparr>"
proof (induction ids arbitrary: status)
  case (Cons i ids)
  show ?case unfolding fold_simps comp_apply Cons.IH by (auto simp: drainStep_def pending_def Let_def)
qed simp

lemma pending_newness_inj:
  assumes ok: "store_ok codec s"
  shows "inj_on newness (set (pendingSummaries s (inboxOf r s)))"
proof -
  let ?b = "inboxOf r s"
  have "sum_MessageID (summaryFor (the (map_of (messages s) i)) (the (map_of ?b i))) = i" if "i \<in> set (pendingIDs ?b)" for i
  proof -
    have "map_of ?b i \<noteq> None" using that by (auto simp: pendingIDs_def map_of_eq_None_iff)
    then obtain d where "deliveryOf (r, i) s = Some d" by (auto simp: deliveryOf_def)
    then obtain m where "getMessage i s = Some m" using stored_delivery(3) [OF ok] by blast
    then show ?thesis using stored_message [OF ok] by (auto simp: getMessage_def summaryFor_def message_ok_def)
  qed
  then show ?thesis by (auto simp: inj_on_def pendingSummaries_def newness_def)
qed

lemma length_filter_keys:
  assumes "distinct (map fst b)"
  shows "length (filter (\<lambda>i. P (the (map_of b i))) (sort (map fst b))) = length (filter (\<lambda>(i, d). P d) b)"
proof -
  have "mset (filter (\<lambda>i. P (the (map_of b i))) (sort (map fst b))) = mset (filter (\<lambda>i. P (the (map_of b i))) (map fst b))" by simp
  then have "length (filter (\<lambda>i. P (the (map_of b i))) (sort (map fst b))) = length (filter (\<lambda>i. P (the (map_of b i))) (map fst b))"
    by (rule mset_eq_length)
  also have "filter (\<lambda>i. P (the (map_of b i))) (map fst b) = map fst (filter (\<lambda>(i, d). P d) b)"
    unfolding filter_map comp_def using assms by (intro arg_cong [of _ _ "map fst"] filter_cong) auto
  finally show ?thesis by simp
qed

text \<open>The status of a pane with a number, against its definition by filtering and sorting.\<close>

lemma DrainStatus_eq:
  assumes ok: "store_ok codec s" and r: "r \<noteq> 0"
  shows "store_DrainStatus codec r limit s =
    Inr \<lparr>ds_Unread = length (filter (\<lambda>(i, d). del_ReadAt d = 0) (inboxOf r s)),
         ds_Unacked = length (filter (\<lambda>(i, d). del_AckedAt d = 0) (inboxOf r s)),
         ds_Pending = length (pendingIDs (inboxOf r s)),
         ds_PendingFingerprint = (if pendingIDs (inboxOf r s) = [] then [] else drainFingerprint codec (inboxOf r s) (pendingIDs (inboxOf r s))),
         ds_PendingIDs = pendingIDs (inboxOf r s),
         ds_Latest = take (normalizedDrainLatestLimit limit) (rev (sort_key newness (pendingSummaries s (inboxOf r s))))\<rparr>"
proof -
  let ?b = "inboxOf r s"
  have d: "distinct (map fst ?b)" using keys_ok_inbox store_okD(1) [OF ok] .
  have "fold (\<lambda>x l. insertDrainLatest l x (normalizedDrainLatestLimit limit)) (pendingSummaries s ?b) [] =
      take (normalizedDrainLatestLimit limit) (rev (sort_key newness (pendingSummaries s ?b)))"
    using fold_insertDrainLatest [of "[]" "normalizedDrainLatestLimit limit" "pendingSummaries s ?b"]
      fold_insertNewest_sort [OF pending_newness_inj [OF ok, of r]] by simp
  then show ?thesis
    using length_filter_keys [OF d, of "\<lambda>d. del_ReadAt d = 0"] length_filter_keys [OF d, of "\<lambda>d. del_AckedAt d = 0"] r
    by (simp add: store_DrainStatus_def fold_drainStep emptyDrainStatus_def pendingIDs_def pendingSummaries_def Let_def)
qed

end
