(* ===== verification/Mailbox_Steps.thy ===== *)
theory Mailbox_Steps
  imports Mailbox_Snapshot Mailbox_Drain
begin

text \<open>
  The mailbox as a state machine: it starts empty and is driven by sending, reading,
  acknowledging, recording of event numbers, and restarts of the server, which restore the snapshot in
  the checkpoint. The invariant holds in every state, and nothing a pane can ask about the
  mailbox changes at a restart.
\<close>

section \<open>Steps\<close>

datatype mailbox_op =
    MSend time SendRequest
  | MRead time MessageID uint32 bool
  | MAck time MessageID uint32 string string
  | MSetLastEventSeq MessageID uint32 uint64
  | MRestart

fun mailbox_perform :: "codec \<Rightarrow> mailbox_op \<Rightarrow> Store \<Rightarrow> Store" where
  "mailbox_perform codec (MSend now req) s = snd (Send codec now req s)"
| "mailbox_perform codec (MRead now i r peek) s = snd (Read now i r peek s)"
| "mailbox_perform codec (MAck now i r status note) s = snd (Ack now i r status note s)"
| "mailbox_perform codec (MSetLastEventSeq i r seq) s = snd (SetLastEventSeq i r seq s)"
| "mailbox_perform codec MRestart s = (case RestoreSnapshot (store_Snapshot s) (limits s) of Inl e \<Rightarrow> s | Inr t \<Rightarrow> t)"

text \<open>A new store, with any limits of Go's range that do not make the number of messages unlimited.\<close>

definition mailbox_start :: "Store \<Rightarrow> bool" where
  "mailbox_start s \<longleftrightarrow> (\<exists>l. s = NewStore l \<and> 0 \<le> StoredMessages l \<and> StoredMessages l < 2 ^ 63)"

lemma mailbox_start_default: "mailbox_start (NewStore DefaultLimits)"
  unfolding mailbox_start_def by (intro exI [of _ DefaultLimits]) (simp add: DefaultLimits_def)

definition anyOp :: "Store \<Rightarrow> mailbox_op \<Rightarrow> bool" where
  "anyOp s a \<longleftrightarrow> True"

lemma mailbox_perform_ok: "store_ok codec s \<Longrightarrow> store_ok codec (mailbox_perform codec a s)"
proof (cases a)
  case MRestart
  then show ?thesis if "store_ok codec s" using restart_ok [OF that] by auto
qed (auto intro: Send_ok Read_ok Ack_ok SetLastEventSeq_ok)

interpretation mailbox: invariant_system mailbox_start anyOp "mailbox_perform codec" "store_ok codec" for codec
  by unfold_locales (auto simp: mailbox_start_def intro: NewStore_ok mailbox_perform_ok)

section \<open>Nothing is ever removed\<close>

lemma keeps_messages:
  assumes ok: "store_ok codec s" and i: "getMessage i s \<noteq> None"
  shows "getMessage i (mailbox_perform codec a s) \<noteq> None"
proof (cases a)
  case MRestart
  then show ?thesis using restart_ok [OF ok] i by (auto simp: same_mail_def)
qed (use i in \<open>auto simp: Send_eq Read_eq Ack_eq SetLastEventSeq_eq getMessage_sent getMessage_marked Let_def split: sum.split\<close>)

lemma keeps_limits: "store_ok codec s \<Longrightarrow> limits (mailbox_perform codec a s) = limits s"
proof (cases a)
  case MRestart
  then show ?thesis if "store_ok codec s" using restart_ok [OF that] by (auto simp: same_mail_def)
qed (auto simp: Send_eq Read_eq Ack_eq SetLastEventSeq_eq Let_def split: sum.split)

lemma keeps_messages_fold:
  "store_ok codec s \<Longrightarrow> getMessage i s \<noteq> None \<Longrightarrow> getMessage i (fold (mailbox_perform codec) as s) \<noteq> None"
  by (induction as arbitrary: s) (simp_all add: keeps_messages mailbox_perform_ok del: not_None_eq)

lemma keeps_limits_fold: "store_ok codec s \<Longrightarrow> limits (fold (mailbox_perform codec) as s) = limits s"
  by (induction as arbitrary: s) (simp_all add: keeps_limits mailbox_perform_ok)

lemma store_ok_fold: "store_ok codec s \<Longrightarrow> store_ok codec (fold (mailbox_perform codec) as s)"
  by (induction as arbitrary: s) (simp_all add: mailbox_perform_ok)

lemma messages_grow:
  assumes ok: "store_ok codec s"
  shows "length (messages s) \<le> length (messages (fold (mailbox_perform codec) as s))" (is "_ \<le> length (messages ?t)")
proof -
  have "fst ` set (messages s) \<subseteq> fst ` set (messages ?t)"
    using keeps_messages_fold [OF ok, of _ as] getMessage_keys by blast
  then have "card (set (map fst (messages s))) \<le> card (set (map fst (messages ?t)))" by (intro card_mono) auto
  then show ?thesis
    using store_okD(1) [OF ok] store_okD(1) [OF store_ok_fold [OF ok, of as]] unfolding keys_ok_def by (metis distinct_card length_map)
qed

section \<open>What a restart cannot change\<close>

lemma mset_of_map_of:
  assumes "distinct (map fst b)" "distinct (map fst c)" "map_of b = map_of c" shows "mset b = mset c"
proof -
  have "distinct b" "distinct c" using assms(1,2) by (simp_all add: distinct_map)
  moreover have "set b = set c" using assms by (metis map_of_inject_set)
  ultimately show ?thesis by (simp add: set_eq_iff_mset_eq_distinct)
qed

lemma same_inbox:
  assumes "same_mail s t" "keys_ok s" "keys_ok t"
  shows "map_of (inboxOf r s) = map_of (inboxOf r t)" "mset (inboxOf r s) = mset (inboxOf r t)"
proof -
  show m: "map_of (inboxOf r s) = map_of (inboxOf r t)"
  proof
    show "map_of (inboxOf r s) i = map_of (inboxOf r t) i" for i
      using assms(1) unfolding same_mail_def deliveryOf_def by (metis fst_conv snd_conv)
  qed
  have "distinct (map fst (inboxOf r s))" "distinct (map fst (inboxOf r t))" using assms(2,3) keys_ok_inbox by blast+
  then show "mset (inboxOf r s) = mset (inboxOf r t)" using m by (rule mset_of_map_of)
qed

lemma same_lookup: "same_mail s t \<Longrightarrow> map_of (messages s) = map_of (messages t)"
  by (rule ext) (simp add: same_mail_def getMessage_def)

lemma sort_mset: "mset xs = mset ys \<Longrightarrow> sort xs = sort ys" for xs ys :: "'a::linorder list"
  by (rule properties_for_sort) simp_all

lemma sort_filter_mset: "mset b = mset c \<Longrightarrow> sort (map f (filter P b)) = sort (map f (filter P c))" for f :: "'b \<Rightarrow> 'a::linorder"
  by (rule sort_mset) (simp add: mset_map mset_filter)

lemma List_inbox_same:
  assumes "same_mail s t" "keys_ok s" "keys_ok t"
  shows "List_inbox r u s = List_inbox r u t"
  unfolding List_inbox_def same_lookup [OF assms(1)] same_inbox(1) [OF assms] Let_def
    sort_filter_mset [OF same_inbox(2) [OF assms]] ..

lemma Thread_same:
  assumes same: "same_mail s t" and ok: "store_ok codec s" "store_ok codec t"
  shows "Thread ref s = Thread ref t"
proof -
  have m: "map_of (messages s) = map_of (messages t)" using same_lookup [OF same] .
  have "messagesByThreadID x s = messagesByThreadID x t" for x
  proof -
    have ids: "mset (threadOf x s) = mset (threadOf x t)" using same by (simp add: same_mail_def)
    have e: "messagesByThreadID x s = (if mset (threadOf x s) = {#} then Inl (BadThread (NoThread x))
        else Inr (List.map_filter (map_of (messages s)) (sort (threadOf x s))))" for s
      by (cases "threadOf x s") (simp_all add: messagesByThreadID_def cloneMessagesByIDs_def flip: threadOf_def)
    show ?thesis unfolding e by (simp only: ids sort_mset [OF ids] m)
  qed
  moreover have ms: "mset (messages s) = mset (messages t)"
    using m ok [THEN store_okD(1)] unfolding keys_ok_def by (intro mset_of_map_of) auto
  have "messagesByTopic x s = messagesByTopic x t" for x
    unfolding messagesByTopic_def cloneMessagesByIDs_def m sort_filter_mset [OF ms] ..
  ultimately show ?thesis by (simp only: Thread_def m)
qed

lemma DrainStatus_same:
  assumes same: "same_mail s t" and ok: "store_ok codec s" "store_ok codec t"
  shows "store_DrainStatus codec r limit s = store_DrainStatus codec r limit t"
proof -
  let ?n = "normalizedDrainLatestLimit limit"
  note b = same_inbox [OF same ok [THEN store_okD(1)], of r]
  have ids: "sort (map fst (inboxOf r s)) = sort (map fst (inboxOf r t))" using b(2) by (intro sort_mset) (simp add: mset_map)
  have loop: "drainStep s (inboxOf r s) ?n = drainStep t (inboxOf r t) ?n" by (intro ext) (simp only: drainStep_def same_lookup [OF same] b(1))
  have print: "drainFingerprint codec (inboxOf r s) = drainFingerprint codec (inboxOf r t)" by (intro ext) (simp only: drainFingerprint_def b(1))
  show ?thesis by (simp only: store_DrainStatus_def Let_def ids loop print)
qed

section \<open>Working through a mailbox\<close>

definition handled :: "time \<Rightarrow> uint32 \<Rightarrow> string \<Rightarrow> string \<Rightarrow> MessageID \<Rightarrow> Store \<Rightarrow> Store" where
  "handled now r status note i s = snd (Ack now i r status note (snd (Read now i r False s)))"

lemma handled_ok: "store_ok codec s \<Longrightarrow> store_ok codec (handled now r status note i s)"
  by (simp add: handled_def Read_ok Ack_ok)

lemma Read_limits [simp]: "limits (snd (Read now i r peek s)) = limits s"
  and Ack_limits [simp]: "limits (snd (Ack now i r status note s)) = limits s"
  by (auto simp: Read_eq Ack_eq Let_def split: sum.split)

lemma Read_delivery:
  assumes "r \<noteq> 0" "getMessage i s = Some m" "deliveryOf (r, i) s = Some d"
  shows "deliveryOf k (snd (Read now i r False s)) =
      (if k = (r, i) then Some (if del_ReadAt d = 0 then d\<lparr>del_ReadAt := now\<rparr> else d) else deliveryOf k s)"
    and "\<exists>m'. getMessage i (snd (Read now i r False s)) = Some m'"
proof -
  have "messageDelivery i r s = Inr (m, d)" using assms by (simp add: messageDelivery_Inr)
  then show "deliveryOf k (snd (Read now i r False s)) =
      (if k = (r, i) then Some (if del_ReadAt d = 0 then d\<lparr>del_ReadAt := now\<rparr> else d) else deliveryOf k s)"
    and "\<exists>m'. getMessage i (snd (Read now i r False s)) = Some m'"
    using assms by (simp_all add: Read_eq deliveryOf_marked getMessage_marked)
qed

lemma Ack_delivery:
  assumes "r \<noteq> 0" "getMessage i s = Some m" "deliveryOf (r, i) s = Some d" "int (length note) \<le> AckNoteBytes (limits s)"
  shows "deliveryOf k (snd (Ack now i r status note s)) =
    (if k = (r, i) then Some (if del_AckedAt d = 0 \<or> del_AckStatus d \<noteq> status \<or> del_AckNote d \<noteq> note
       then d\<lparr>del_AckedAt := now, del_AckStatus := status, del_AckNote := note\<rparr> else d) else deliveryOf k s)"
proof -
  have "messageDelivery i r s = Inr (m, d)" using assms by (simp add: messageDelivery_Inr)
  then show ?thesis using assms by (simp add: Ack_eq deliveryOf_marked Let_def)
qed

lemma handled_delivery:
  assumes ok: "store_ok codec s" and r: "r \<noteq> 0" "now \<noteq> 0" "int (length note) \<le> AckNoteBytes (limits s)" and d: "deliveryOf (r, i) s = Some d"
  shows "\<exists>d'. deliveryOf (r, i) (handled now r status note i s) = Some d' \<and> \<not> pending d'"
    and "k \<noteq> (r, i) \<Longrightarrow> deliveryOf k (handled now r status note i s) = deliveryOf k s"
    and "limits (handled now r status note i s) = limits s"
proof -
  let ?s = "snd (Read now i r False s)"
  obtain m where m: "getMessage i s = Some m" using stored_delivery(3) [OF ok d] by blast
  note R = Read_delivery [OF r(1) m d]
  obtain m' where m': "getMessage i ?s = Some m'" using R(2) by blast
  have d': "deliveryOf (r, i) ?s = Some (if del_ReadAt d = 0 then d\<lparr>del_ReadAt := now\<rparr> else d)" using R(1) by simp
  have n: "int (length note) \<le> AckNoteBytes (limits ?s)" using r(3) by simp
  note A = Ack_delivery [OF r(1) m' d' n]
  show "\<exists>d'. deliveryOf (r, i) (handled now r status note i s) = Some d' \<and> \<not> pending d'"
    using r(2) by (auto simp: handled_def A pending_def)
  show "deliveryOf k (handled now r status note i s) = deliveryOf k s" if "k \<noteq> (r, i)" using that by (simp add: handled_def A R(1))
  show "limits (handled now r status note i s) = limits s" by (simp add: handled_def)
qed

lemma all_handled:
  assumes "store_ok codec s" and r: "r \<noteq> 0" "now \<noteq> 0" "int (length note) \<le> AckNoteBytes (limits s)"
    and "\<And>i. i \<in> set ids \<Longrightarrow> deliveryOf (r, i) s \<noteq> None"
    and "\<And>i d. i \<notin> set ids \<Longrightarrow> deliveryOf (r, i) s = Some d \<Longrightarrow> \<not> pending d"
  shows "store_ok codec (fold (handled now r status note) ids s) \<and>
    (\<forall>i d. deliveryOf (r, i) (fold (handled now r status note) ids s) = Some d \<longrightarrow> \<not> pending d)"
  using assms(1,4-)
proof (induction ids arbitrary: s)
  case (Cons i ids)
  let ?s = "handled now r status note i s"
  obtain d where d: "deliveryOf (r, i) s = Some d" using Cons.prems(3) [of i] by auto
  note H = handled_delivery [OF Cons.prems(1) r(1,2) Cons.prems(2) d, where status = status]
  have same: "deliveryOf (r, j) ?s = deliveryOf (r, j) s" if "j \<noteq> i" for j using H(2) [of "(r, j)"] that by simp
  have "store_ok codec ?s" "int (length note) \<le> AckNoteBytes (limits ?s)" using handled_ok Cons.prems(1,2) H(3) by simp_all
  moreover have "deliveryOf (r, j) ?s \<noteq> None" if "j \<in> set ids" for j
    using H(1) same Cons.prems(3) [of j] that by (cases "j = i") auto
  moreover have "\<not> pending x" if "j \<notin> set ids" "deliveryOf (r, j) ?s = Some x" for j x
    using H(1) same [of j] Cons.prems(4) [of j x] that by (cases "j = i") auto
  ultimately show ?case using Cons.IH [of ?s] by simp
qed auto

lemma pendingIDs_iff: "i \<in> set (pendingIDs (inboxOf r s)) \<longleftrightarrow> (\<exists>d. deliveryOf (r, i) s = Some d \<and> pending d)"
proof (cases "map_of (inboxOf r s) i")
  case None
  moreover from None have "i \<notin> fst ` set (inboxOf r s)" by (simp only: map_of_eq_None_iff simp_thms)
  ultimately show ?thesis by (simp add: pendingIDs_def deliveryOf_def)
next
  case (Some d)
  then have "i \<in> fst ` set (inboxOf r s)" by (metis map_of_eq_None_iff option.distinct(1))
  then show ?thesis using Some by (simp add: pendingIDs_def deliveryOf_def)
qed

section \<open>The list of a mailbox\<close>

lemma List_inbox_sorted:
  assumes ok: "store_ok codec s" and few: "StoredMessages (limits s) < 10 ^ 6" and r: "r \<noteq> 0"
  shows "\<exists>ids. List_inbox r unread s = Inr (map (\<lambda>i. summaryFor (the (getMessage i s)) (the (deliveryOf (r, i) s))) ids) \<and>
    sorted_wrt (\<lambda>i j. \<exists>a b. i = messageIDFor a \<and> j = messageIDFor b \<and> a < b) ids \<and>
    set ids = {i. \<exists>d. deliveryOf (r, i) s = Some d \<and> (unread \<longrightarrow> del_ReadAt d = 0 \<and> del_AckedAt d = 0)}"
proof -
  let ?b = "inboxOf r s" and ?P = "\<lambda>d. \<not> (unread \<and> (del_ReadAt d \<noteq> 0 \<or> del_AckedAt d \<noteq> 0))"
  let ?ids = "sort (map fst (filter (\<lambda>(i, d). ?P d) ?b))"
  have b: "distinct (map fst ?b)" using keys_ok_inbox store_okD(1) [OF ok] .
  have set: "set ?ids = {i. \<exists>d. deliveryOf (r, i) s = Some d \<and> ?P d}"
    using b by (force simp: deliveryOf_def)
  have seq: "\<exists>a. i = messageIDFor a \<and> unat a < 10 ^ 6" if i: "i \<in> set ?ids" for i
  proof -
    obtain d where "deliveryOf (r, i) s = Some d" using i unfolding set by blast
    then have "getMessage i s \<noteq> None" using stored_delivery(3) [OF ok] by blast
    then obtain n where n: "i = messageIDFor (of_nat n)" "n \<le> length (messages s)"
      using store_okD(2) [OF ok] unfolding getMessage_keys count_ok_def by auto
    have "int (length (messages s)) < 10 ^ 6" using store_okD(2) [OF ok] few by (simp add: count_ok_def)
    then have "n < 10 ^ 6" using n(2) by simp
    then show ?thesis using n(1) unat_seq [of n] by auto
  qed
  have "distinct ?ids" using b by (auto simp: distinct_map intro: inj_on_subset)
  then have "sorted_wrt (<) ?ids" by (simp add: strict_sorted_iff)
  then have "sorted_wrt (\<lambda>i j. \<exists>a b. i = messageIDFor a \<and> j = messageIDFor b \<and> a < b) ?ids"
  proof (rule sorted_wrt_mono_rel [rotated])
    fix i j assume "i \<in> set ?ids" "j \<in> set ?ids" "i < j"
    then obtain a b where ab: "i = messageIDFor a" "unat a < 10 ^ 6" "j = messageIDFor b" "unat b < 10 ^ 6" using seq by blast
    then have "a < b" using messageIDFor_order \<open>i < j\<close> by blast
    then show "\<exists>a b. i = messageIDFor a \<and> j = messageIDFor b \<and> a < b" using ab by blast
  qed
  moreover have "List_inbox r unread s = Inr (map (\<lambda>i. summaryFor (the (getMessage i s)) (the (deliveryOf (r, i) s))) ?ids)"
    using r by (simp add: List_inbox_def getMessage_def deliveryOf_def Let_def)
  ultimately show ?thesis using set by (intro exI [of _ ?ids]) auto
qed

end
