(* ===== verification/Mailbox_Properties.thy ===== *)
theory Mailbox_Properties
  imports Mailbox_Steps
begin

text \<open>
  The properties of the mailbox, and a small mailbox they are applied to: a message from one pane to
  two others, and a reply.
\<close>

definition mail_codec :: codec where
  "mail_codec = \<lparr>json_Valid = (\<lambda>v. v = ''true''), json_Length = (\<lambda>md. 1 + sum_list (map (\<lambda>(k, v). length k + length v + 4) md)),
     sha256_hex = (\<lambda>s. s)\<rparr>"

definition mail_pane :: "uint32 \<Rightarrow> string \<Rightarrow> PaneAddress" where
  "mail_pane n name = \<lparr>addr_ID = n, addr_Name = name, addr_Host = []\<rparr>"

definition mail_request :: "PaneAddress \<Rightarrow> PaneAddress list \<Rightarrow> string \<Rightarrow> MessageID \<Rightarrow> SendRequest" where
  "mail_request sender recipients body parent =
     \<lparr>req_Sender = sender, req_Recipients = recipients, req_Topics = [], req_Groups = [], req_Subject = ''s'', req_Body = body,
      req_Parts = [], req_Metadata = [], req_ReplyTo = parent, req_ThreadID = [], req_ExpiresAt = 0\<rparr>"

definition first_mail :: SendRequest where
  "first_mail = mail_request (mail_pane 1 ''a'') [mail_pane 2 ''b'', mail_pane 3 ''c''] ''hi'' []"

definition second_mail :: SendRequest where
  "second_mail = mail_request (mail_pane 2 ''b'') [mail_pane 1 ''a''] ''yo'' ''msg-000001''"

definition demo_mailbox :: Store where
  "demo_mailbox = fold (mailbox_perform mail_codec) [MSend 10 first_mail, MSend 20 second_mail] (NewStore DefaultLimits)"

lemma demo_mailbox_ok: "store_ok mail_codec (NewStore DefaultLimits)" "store_ok mail_codec demo_mailbox"
proof -
  show n: "store_ok mail_codec (NewStore DefaultLimits)" by (rule NewStore_ok) (simp_all add: DefaultLimits_def)
  show "store_ok mail_codec demo_mailbox" unfolding demo_mailbox_def by (rule store_ok_fold [OF n])
qed

lemma demo_mailbox_reachable: "reachable mailbox_start anyOp (mailbox_perform mail_codec) demo_mailbox"
  unfolding demo_mailbox_def by (rule reachable_runs) (auto simp: anyOp_def mailbox_start_default intro: reachable.start)

section \<open>Properties\<close>

text \<open>
  C4. In every mailbox that is reached from an empty one by sending, reading, acknowledging,
  recording of event numbers and restarts, in any order: message IDs are used once, every message has a delivery for each
  of its recipients and for nobody else, threads and reply lists hold exactly the messages that name
  them, and the number of messages and of bytes is within the limits.
\<close>

theorem reachable_mailbox_ok:
  assumes "reachable mailbox_start anyOp (mailbox_perform codec) s"
  shows "store_ok codec s"
  using assms by (rule mailbox.inv_reachable)

theorem reachable_mailbox_ok_witness: "store_ok mail_codec demo_mailbox"
  by (rule reachable_mailbox_ok [OF demo_mailbox_reachable])

text \<open>
  C11. A message that is accepted gets a new ID, is stored with the recipients of the request, and is delivered, unread,
  to each of them and to nobody else; the only other change is that the message it replies to
  lists it. A request that is refused changes nothing.
\<close>

theorem Send_delivers:
  assumes "store_ok codec s"
  shows "case Send codec now req s of
      (Inl e, t) \<Rightarrow> t = s
    | (Inr m, t) \<Rightarrow>
        msg_ID m = messageIDFor (nextSeq s) \<and> getMessage (msg_ID m) s = None \<and> getMessage (msg_ID m) t = Some m \<and>
        msg_Recipients m = req_Recipients req \<and> nextSeq t = nextSeq s + 1 \<and>
        (\<forall>r d. deliveryOf (r, msg_ID m) t = Some d \<longleftrightarrow> (\<exists>a. a \<in> set (req_Recipients req) \<and> addr_ID a = r \<and> d = newDelivery (msg_ID m) a now)) \<and>
        (\<forall>i. i = msg_ID m \<or> getMessage i t = (if i = req_ReplyTo req then map_option (replied (msg_ID m) now) (getMessage i s) else getMessage i s)) \<and>
        (\<forall>r i. i = msg_ID m \<or> deliveryOf (r, i) t = deliveryOf (r, i) s)"
proof (cases "checkSend codec req s")
  case (Inl e)
  then show ?thesis by (simp add: Send_eq)
next
  case (Inr ck)
  let ?i = "messageIDFor (nextSeq s)"
  note d = checkSend_Inr(2) [OF Inr]
  have new: "deliveryOf (r, ?i) s = None" for r
    using stored_delivery(3) [OF assms, of r ?i] store_okD(9) [OF assms] by (cases "deliveryOf (r, ?i) s") auto
  have dels: "deliveryOf (r, j) (sent now req ck s) = deliveryOf (r, j) s" if "j \<noteq> ?i" for r j
    by (rule option_eqI) (use that in \<open>simp add: deliveryOf_sent [OF d]\<close>)
  have nil: "getMessage [] s = None" using stored_nonempty [OF assms, of "[]"] by (cases "getMessage [] s") auto
  show ?thesis
    using new dels nil store_okD(9) [OF assms] checkSend_Inr(1) [OF Inr] parent_of(1) [OF assms Inr] parent_of(3) [OF assms Inr]
    by (auto simp: Send_eq Inr getMessage_sent deliveryOf_sent [OF d] composed_def)
qed

theorem Send_delivers_witness:
  "deliveryOf (2, ''msg-000001'') (snd (Send mail_codec 10 first_mail (NewStore DefaultLimits))) = Some (newDelivery ''msg-000001'' (mail_pane 2 ''b'') 10)"
proof -
  have e: "\<exists>m. fst (Send mail_codec 10 first_mail (NewStore DefaultLimits)) = Inr m" "messageIDFor (nextSeq (NewStore DefaultLimits)) = ''msg-000001''"
    "mail_pane 2 ''b'' \<in> set (req_Recipients first_mail)" "addr_ID (mail_pane 2 ''b'') = 2"
  proof -
    have "(case fst (Send mail_codec 10 first_mail (NewStore DefaultLimits)) of Inr m \<Rightarrow> True | Inl e \<Rightarrow> False)" by code_simp
    then show "\<exists>m. fst (Send mail_codec 10 first_mail (NewStore DefaultLimits)) = Inr m" by (auto split: sum.splits)
  qed code_simp+
  obtain m t where mt: "Send mail_codec 10 first_mail (NewStore DefaultLimits) = (Inr m, t)" using e(1) by (metis prod.collapse)
  show ?thesis using Send_delivers [OF demo_mailbox_ok(1), of first_mail 10] e(2-4) unfolding mt by auto
qed

text \<open>
  C20. A restart of the server (the snapshot of the mailbox is restored with the same limits) always
  succeeds and changes nothing that can be asked: messages, deliveries, the lists of mailboxes,
  threads and the pending status are the same, and the next ID too.
\<close>

theorem mailbox_restart:
  assumes "store_ok codec s"
  shows "\<exists>t. RestoreSnapshot (store_Snapshot s) (limits s) = Inr t \<and> store_ok codec t \<and> nextSeq t = nextSeq s \<and>
    (\<forall>i. getMessage i t = getMessage i s) \<and> (\<forall>k. deliveryOf k t = deliveryOf k s) \<and>
    (\<forall>r unread. List_inbox r unread t = List_inbox r unread s) \<and> (\<forall>ref. Thread ref t = Thread ref s) \<and>
    (\<forall>r limit. store_DrainStatus codec r limit t = store_DrainStatus codec r limit s)"
proof -
  obtain t where t: "RestoreSnapshot (store_Snapshot s) (limits s) = Inr t" "same_mail t s" "store_ok codec t"
    using restart_ok [OF assms] by blast
  have "nextSeq t = nextSeq s" "\<forall>i. getMessage i t = getMessage i s" "\<forall>k. deliveryOf k t = deliveryOf k s"
    using t(2) unfolding same_mail_def by blast+
  then show ?thesis
    using t List_inbox_same [OF t(2) store_okD(1) [OF t(3)] store_okD(1) [OF assms]] Thread_same [OF t(2,3) assms]
      DrainStatus_same [OF t(2,3) assms] by blast
qed

theorem mailbox_restart_witness:
  "\<exists>t. RestoreSnapshot (store_Snapshot demo_mailbox) (limits demo_mailbox) = Inr t \<and> getMessage ''msg-000002'' t = getMessage ''msg-000002'' demo_mailbox"
  using mailbox_restart [OF demo_mailbox_ok(2)] by blast

text \<open>
  C30. A snapshot is restored exactly if its messages have distinct, non-empty IDs and its deliveries
  name stored messages and recipients, no pair twice; then every message and delivery of
  it can be looked up, and nothing else. Any other snapshot is reported as a bad snapshot.
\<close>

theorem RestoreSnapshot_complete:
  "if snapshot_ok snap
   then \<exists>s. RestoreSnapshot snap l = Inr s \<and> (\<forall>i m. getMessage i s = Some m \<longleftrightarrow> m \<in> set (sn_Messages snap) \<and> msg_ID m = i) \<and>
          (\<forall>r i d. deliveryOf (r, i) s = Some d \<longleftrightarrow> d \<in> set (sn_Deliveries snap) \<and> addr_ID (del_Recipient d) = r \<and> del_MessageID d = i)
   else \<exists>e. RestoreSnapshot snap l = Inl (BadSnapshot e)"
proof (cases "snapshot_ok snap")
  case True
  then show ?thesis using RestoreSnapshot_eq [of snap l] restored_messages [OF True] restored_deliveries [OF True] by (auto simp: delivery_key_def)
next
  case False
  then show ?thesis using RestoreSnapshot_eq [of snap l] RestoreSnapshot_error [of snap l] by (cases "RestoreSnapshot snap l") auto
qed

text \<open>
  C29. The pending status of a pane, computed in one pass over its deliveries with an insertion by bisection, is what
  it should be: the counts of unread and of unacknowledged deliveries, the pending messages in order of
  their IDs, and the newest pending ones first, cut at the limit.
\<close>

theorem DrainStatus_correct:
  assumes "store_ok codec s" "r \<noteq> 0"
  shows "store_DrainStatus codec r limit s =
    Inr \<lparr>ds_Unread = length (filter (\<lambda>(i, d). del_ReadAt d = 0) (inboxOf r s)),
         ds_Unacked = length (filter (\<lambda>(i, d). del_AckedAt d = 0) (inboxOf r s)),
         ds_Pending = length (pendingIDs (inboxOf r s)),
         ds_PendingFingerprint = (if pendingIDs (inboxOf r s) = [] then [] else drainFingerprint codec (inboxOf r s) (pendingIDs (inboxOf r s))),
         ds_PendingIDs = pendingIDs (inboxOf r s),
         ds_Latest = take (normalizedDrainLatestLimit limit) (rev (sort_key newness (pendingSummaries s (inboxOf r s))))\<rparr>"
  by (rule DrainStatus_eq [OF assms])

theorem DrainStatus_correct_witness:
  "map_sum id ds_PendingIDs (store_DrainStatus mail_codec 2 0 demo_mailbox) = Inr [''msg-000001'']"
proof -
  have "pendingIDs (inboxOf 2 demo_mailbox) = [''msg-000001'']" by code_simp
  then show ?thesis using DrainStatus_correct [OF demo_mailbox_ok(2), of 2 0] by simp
qed

text \<open>
  The bisection of \<^verbatim>\<open>sort.Search\<close> ends, with the first index at which a monotone test holds,
  or the length if there is none.
\<close>

theorem Search_first:
  assumes "\<And>a b. a \<le> b \<Longrightarrow> b < n \<Longrightarrow> f a \<Longrightarrow> f b"
  shows "Search n f \<le> n \<and> (\<forall>k. k < n \<longrightarrow> (f k \<longleftrightarrow> Search n f \<le> k))"
  using Search_correct [of n f] assms by blast

theorem Search_first_witness: "Search 5 (\<lambda>i. 3 \<le> i) = 3"
proof -
  have "Search 5 (\<lambda>i. 3 \<le> i) \<le> 5 \<and> (\<forall>k. k < 5 \<longrightarrow> (3 \<le> k \<longleftrightarrow> Search 5 (\<lambda>i. 3 \<le> i) \<le> k))"
    by (rule Search_first) simp
  then have "3 \<le> k \<longleftrightarrow> Search 5 (\<lambda>i. 3 \<le> i) \<le> k" if "k < 5" for k using that by blast
  from this [of 3] this [of 2] show ?thesis by simp
qed

text \<open>
  With fewer than a million messages (the default limit is ten thousand) the list of a mailbox, which is
  sorted by ID as text, is in the order in which the messages were sent, and it has exactly the
  deliveries (or the unread ones) of the pane.
\<close>

theorem inbox_in_sending_order:
  assumes "store_ok codec s" "StoredMessages (limits s) < 10 ^ 6" "r \<noteq> 0"
  shows "\<exists>ids. List_inbox r unread s = Inr (map (\<lambda>i. summaryFor (the (getMessage i s)) (the (deliveryOf (r, i) s))) ids) \<and>
    sorted_wrt (\<lambda>i j. \<exists>a b. i = messageIDFor a \<and> j = messageIDFor b \<and> a < b) ids \<and>
    set ids = {i. \<exists>d. deliveryOf (r, i) s = Some d \<and> (unread \<longrightarrow> del_ReadAt d = 0 \<and> del_AckedAt d = 0)}"
  by (rule List_inbox_sorted [OF assms])

theorem inbox_in_sending_order_witness:
  "\<exists>ids. List_inbox 2 True demo_mailbox = Inr (map (\<lambda>i. summaryFor (the (getMessage i demo_mailbox)) (the (deliveryOf (2, i) demo_mailbox))) ids)"
proof -
  have "StoredMessages (limits demo_mailbox) < 10 ^ 6" by code_simp
  from inbox_in_sending_order [OF demo_mailbox_ok(2) this, of 2 True] show ?thesis by auto
qed

text \<open>
  A pane that reads and acknowledges every pending message has nothing pending any more: no
  unread, no unacknowledged, no pending delivery and an empty fingerprint.
\<close>

theorem mailbox_drains:
  assumes "store_ok codec s" "r \<noteq> 0" "now \<noteq> 0" "int (length note) \<le> AckNoteBytes (limits s)"
  shows "store_DrainStatus codec r limit (fold (handled now r status note) (pendingIDs (inboxOf r s)) s) = Inr emptyDrainStatus"
proof -
  let ?t = "fold (handled now r status note) (pendingIDs (inboxOf r s)) s"
  have "deliveryOf (r, i) s \<noteq> None" if "i \<in> set (pendingIDs (inboxOf r s))" for i using that by (auto simp: pendingIDs_iff)
  moreover have "\<not> pending d" if "i \<notin> set (pendingIDs (inboxOf r s))" "deliveryOf (r, i) s = Some d" for i d
    using that by (auto simp: pendingIDs_iff)
  ultimately have "store_ok codec ?t \<and> (\<forall>i d. deliveryOf (r, i) ?t = Some d \<longrightarrow> \<not> pending d)" by (rule all_handled [OF assms])
  then have t: "store_ok codec ?t" "deliveryOf (r, i) ?t = Some d \<Longrightarrow> \<not> pending d" for i d by blast+
  have none: "pendingIDs (inboxOf r ?t) = []" using pendingIDs_iff [of _ r ?t] t(2) by (metis list.set_intros(1) neq_Nil_conv)
  have "distinct (map fst (inboxOf r ?t))" using keys_ok_inbox store_okD(1) [OF t(1)] .
  then have "\<not> pending d" if "(i, d) \<in> set (inboxOf r ?t)" for i d using t(2) [of i d] that by (simp add: deliveryOf_def)
  then have "filter (\<lambda>(i, d). del_ReadAt d = 0) (inboxOf r ?t) = []" "filter (\<lambda>(i, d). del_AckedAt d = 0) (inboxOf r ?t) = []"
    by (auto simp: filter_empty_conv pending_def)
  then show ?thesis using DrainStatus_eq [OF t(1) assms(2), of limit] none by (simp add: emptyDrainStatus_def pendingSummaries_def)
qed

theorem mailbox_drains_witness:
  "store_DrainStatus mail_codec 2 0 (fold (handled 30 2 ''ok'' []) (pendingIDs (inboxOf 2 demo_mailbox)) demo_mailbox) = Inr emptyDrainStatus"
proof -
  have "int (length ([] :: string)) \<le> AckNoteBytes (limits demo_mailbox)" by code_simp
  with mailbox_drains [OF demo_mailbox_ok(2), of 2 30 "[]" 0 "''ok''"] show ?thesis by simp
qed

text \<open>
  C37. Messages are never removed: a mailbox that has reached its limit refuses every message from then on, whatever is
  read, acknowledged or expired and however often the server restarts. (The specification of the
  mailbox says that acknowledged and expired messages are pruned.)
\<close>

theorem mailbox_full_forever:
  assumes "store_ok codec s" "int (length (messages s)) = StoredMessages (limits s)"
  shows "Send codec now req (fold (mailbox_perform codec) as s) =
    (Inl (StoreFull (StoredMessages (limits s))), fold (mailbox_perform codec) as s)"
proof -
  let ?t = "fold (mailbox_perform codec) as s"
  have "limits ?t = limits s" "int (length (messages ?t)) \<ge> StoredMessages (limits s)" "0 < StoredMessages (limits s)"
    using keeps_limits_fold messages_grow [OF assms(1), of as] assms room_positive by simp_all
  then show ?thesis by (simp add: Send_def checkSend_def validateCanStoreMessage_def orError_def check_def)
qed

definition tiny_limits :: Limits where
  "tiny_limits = DefaultLimits\<lparr>StoredMessages := 1\<rparr>"

theorem mailbox_full_forever_witness:
  "fst (Send mail_codec 40 first_mail (fold (mailbox_perform mail_codec) [MAck 30 ''msg-000001'' 2 ''ok'' [], MRestart]
     (snd (Send mail_codec 10 first_mail (NewStore tiny_limits))))) = Inl (StoreFull 1)"
proof -
  let ?s = "snd (Send mail_codec 10 first_mail (NewStore tiny_limits))"
  have ok: "store_ok mail_codec ?s" by (intro Send_ok NewStore_ok) (simp_all add: tiny_limits_def)
  have "int (length (messages ?s)) = StoredMessages (limits ?s)" "StoredMessages (limits ?s) = 1" by code_simp+
  with mailbox_full_forever [OF ok, of 40 first_mail "[MAck 30 ''msg-000001'' 2 ''ok'' [], MRestart]"] show ?thesis
    by (simp only: fst_conv)
qed

end
