(* ===== verification/Pane_Ref.thy ===== *)
theory Pane_Ref
  imports Go_Strings Sample_Window Keyed_Table
begin





section \<open>Laws\<close>






section \<open>Property\<close>



end
