(* ===== verification/Copy_Mode.thy ===== *)
theory Copy_Mode
  imports Amux_Prelude
begin

text \<open>
  Copy mode (\<^verbatim>\<open>copymode/copymode.go\<close>): the state of a pane whose scrollback is browsed, its
  viewport, cursor and selection. Text is a list of runes; where the code works on the bytes of a
  string they are the UTF-8 encoding of the runes. The buffer is the frozen copy of the pane that
  the client makes (\<^verbatim>\<open>paneBufferSnapshot\<close> in \<^verbatim>\<open>client/renderer_queries.go\<close>), of which copy mode reads the text.
\<close>

type_synonym rune = nat
type_synonym runes_text = "rune list"

section \<open>Integers and runes\<close>

definition clamp :: "int \<Rightarrow> int \<Rightarrow> int \<Rightarrow> int" where
  "clamp v lo hi = max lo (min v hi)"

text \<open>Arithmetic on counts that the user can make as large as he likes is 64 bit wide.\<close>

definition int64 :: "int \<Rightarrow> int" where
  "int64 v = (v + 2 ^ 63) mod 2 ^ 64 - 2 ^ 63"

text \<open>\<^verbatim>\<open>unicode.IsSpace\<close>.\<close>

definition runeIsSpace :: "rune \<Rightarrow> bool" where
  "runeIsSpace r \<longleftrightarrow>
     r \<in> {0x09, 0x0A, 0x0B, 0x0C, 0x0D, 0x20, 0x85, 0xA0, 0x1680, 0x2028, 0x2029, 0x202F, 0x205F, 0x3000} \<or> 0x2000 \<le> r \<and> r \<le> 0x200A"

text \<open>The bytes of a rune; what is no code point is written as U+FFFD.\<close>

definition encodeRune :: "rune \<Rightarrow> nat list" where
  "encodeRune r0 =
     (let r = (if 0xD800 \<le> r0 \<and> r0 \<le> 0xDFFF \<or> r0 > 0x10FFFF then 0xFFFD else r0) in
      if r < 0x80 then [r]
      else if r < 0x800 then [0xC0 + r div 64, 0x80 + r mod 64]
      else if r < 0x10000 then [0xE0 + r div 4096, 0x80 + r div 64 mod 64, 0x80 + r mod 64]
      else [0xF0 + r div 262144, 0x80 + r div 4096 mod 64, 0x80 + r div 64 mod 64, 0x80 + r mod 64])"

definition utf8 :: "runes_text \<Rightarrow> nat list" where
  "utf8 t = concat (map encodeRune t)"

text \<open>Loops that run down from a position while a test holds for the position before, or up.\<close>

primrec backRun :: "(nat \<Rightarrow> bool) \<Rightarrow> nat \<Rightarrow> nat" where
  "backRun P 0 = 0"
| "backRun P (Suc n) = (if P n then backRun P n else Suc n)"

definition foreRun :: "(nat \<Rightarrow> bool) \<Rightarrow> nat \<Rightarrow> nat \<Rightarrow> nat" where
  "foreRun P i j = i + length (takeWhile P [i..<j])"

section \<open>State\<close>

record paneBuffer =
  scrollback :: "runes_text list"
  screen :: "runes_text list"

definition ScrollbackLen :: "paneBuffer \<Rightarrow> int" where
  "ScrollbackLen b = int (length (scrollback b))"

definition ScrollbackLineText :: "int \<Rightarrow> paneBuffer \<Rightarrow> runes_text" where
  "ScrollbackLineText y b = (if y < 0 \<or> y \<ge> int (length (scrollback b)) then [] else scrollback b ! nat y)"

definition ScreenLineText :: "int \<Rightarrow> paneBuffer \<Rightarrow> runes_text" where
  "ScreenLineText y b = (if y < 0 \<or> y \<ge> int (length (screen b)) then [] else screen b ! nat y)"

record Match =
  LineIdx :: int
  match_Col :: int
  match_Len :: int

text \<open>The actions of the code, and a run-time panic, which unwinds through the callers.\<close>

datatype copyAction = ActionNone | ActionRedraw | ActionExit | ActionYank | ActionPanic

datatype promptMode = promptNone | promptSearchForward | promptSearchBackward | promptGotoLine

record CopyMode =
  cmEmu :: paneBuffer
  cmWidth :: int
  cmHeight :: int
  oy :: int
  cx :: int
  cy :: int
  prompt :: promptMode
  promptBuf :: runes_text
  promptCursor :: int
  searchQuery :: runes_text
  lastSearchForward :: bool
  matches :: "Match list"
  matchIdx :: int
  selecting :: bool
  lineSelect :: bool
  rectSelect :: bool
  selStartX :: int
  selStartY :: int
  selEndX :: int
  selEndY :: int
  pendingCharSearch :: int
  pendingCharSearchCount :: int
  lastCharSearch :: int
  lastCharTarget :: int
  pendingCount :: int
  copyText :: "nat list"
  appendCopy :: bool
  markSet :: bool
  markX :: int
  markY :: int
  showPosition :: bool
  scrollExit :: bool

definition New :: "paneBuffer \<Rightarrow> int \<Rightarrow> int \<Rightarrow> int \<Rightarrow> CopyMode" where
  "New b w h cursorRow =
     \<lparr>cmEmu = b, cmWidth = w, cmHeight = h, oy = 0, cx = 0, cy = clamp cursorRow 0 (max 0 (h - 1)), prompt = promptNone, promptBuf = [],
      promptCursor = 0, searchQuery = [], lastSearchForward = True, matches = [], matchIdx = - 1, selecting = False, lineSelect = False,
      rectSelect = False, selStartX = 0, selStartY = 0, selEndX = 0, selEndY = 0, pendingCharSearch = 0, pendingCharSearchCount = 0,
      lastCharSearch = 0, lastCharTarget = 0, pendingCount = 0, copyText = [], appendCopy = False, markSet = False, markX = 0, markY = 0,
      showPosition = False, scrollExit = False\<rparr>"

definition TotalLines :: "CopyMode \<Rightarrow> int" where
  "TotalLines cm = ScrollbackLen (cmEmu cm) + cmHeight cm"

definition maxOY :: "CopyMode \<Rightarrow> int" where
  "maxOY cm = ScrollbackLen (cmEmu cm)"

definition cursorAbsLine :: "CopyMode \<Rightarrow> int" where
  "cursorAbsLine cm = TotalLines cm - cmHeight cm - oy cm + cy cm"

definition FirstVisibleLine :: "CopyMode \<Rightarrow> int" where
  "FirstVisibleLine cm = max 0 (TotalLines cm - cmHeight cm - oy cm)"

definition lineText :: "int \<Rightarrow> CopyMode \<Rightarrow> runes_text" where
  "lineText absIdx cm =
     (let sbLen = ScrollbackLen (cmEmu cm) in
      if absIdx < sbLen then ScrollbackLineText absIdx (cmEmu cm) else ScreenLineText (absIdx - sbLen) (cmEmu cm))"

definition cursorLineRunes :: "CopyMode \<Rightarrow> runes_text" where
  "cursorLineRunes cm = lineText (cursorAbsLine cm) cm"

section \<open>Selection\<close>

definition updateSelection :: "CopyMode \<Rightarrow> CopyMode" where
  "updateSelection cm =
     (if selecting cm then cm\<lparr>selEndY := cursorAbsLine cm, selEndX := (if lineSelect cm then cmWidth cm - 1 else cx cm)\<rparr> else cm)"

definition normalizedSelection :: "CopyMode \<Rightarrow> int \<times> int \<times> int \<times> int" where
  "normalizedSelection cm =
     (if rectSelect cm then
        (min (selStartY cm) (selEndY cm), min (selStartX cm) (selEndX cm), max (selStartY cm) (selEndY cm), max (selStartX cm) (selEndX cm))
      else
        let (startY, startX, endY, endX) =
              (if selStartY cm > selEndY cm \<or> selStartY cm = selEndY cm \<and> selStartX cm > selEndX cm
               then (selEndY cm, selEndX cm, selStartY cm, selStartX cm) else (selStartY cm, selStartX cm, selEndY cm, selEndX cm))
        in if lineSelect cm then (startY, 0, endY, cmWidth cm - 1) else (startY, startX, endY, endX))"

text \<open>\<^verbatim>\<open>line[a:b]\<close> on a slice, for bounds within it.\<close>

definition slice :: "int \<Rightarrow> int \<Rightarrow> 'a list \<Rightarrow> 'a list" where
  "slice a b l = take (nat (b - a)) (drop (nat a) l)"

definition currentMatchText :: "CopyMode \<Rightarrow> nat list" where
  "currentMatchText cm =
     (if matchIdx cm < 0 \<or> matchIdx cm \<ge> int (length (matches cm)) then []
      else let m = matches cm ! nat (matchIdx cm) in
        if LineIdx m \<noteq> cursorAbsLine cm \<or> cx cm < match_Col m \<or> cx cm \<ge> match_Col m + match_Len m then []
        else let line = lineText (LineIdx m) cm in
          if match_Col m \<ge> int (length line) then [] else utf8 (slice (match_Col m) (min (match_Col m + match_Len m) (int (length line))) line))"

text \<open>The inner lines of a selection; the first and the last one are cut by bytes.\<close>

definition selectedLine :: "CopyMode \<Rightarrow> int \<Rightarrow> int \<Rightarrow> int \<Rightarrow> int \<Rightarrow> int \<Rightarrow> nat list" where
  "selectedLine cm startY startX endY endX y =
     (let line = utf8 (lineText y cm) in
      if y = startY then (if startX < int (length line) then slice startX (int (length line)) line else []) @ [0x0A]
      else if y = endY then (let e = min (endX + 1) (int (length line)) in if e > 0 then slice 0 e line else [])
      else line @ [0x0A])"

definition rectLine :: "CopyMode \<Rightarrow> int \<Rightarrow> int \<Rightarrow> int \<Rightarrow> int \<Rightarrow> nat list" where
  "rectLine cm startX endY endX y =
     (let line = lineText y cm in
      (if startX < int (length line) then utf8 (slice startX (min (endX + 1) (int (length line))) line) else []) @
      (if y \<noteq> endY then [0x0A] else []))"

definition SelectedText :: "CopyMode \<Rightarrow> nat list" where
  "SelectedText cm =
     (if \<not> selecting cm then currentMatchText cm
      else let (startY, startX, endY, endX) = normalizedSelection cm in
        if lineSelect cm then concat (map (\<lambda>y. utf8 (lineText y cm) @ [0x0A]) [startY..endY])
        else if rectSelect cm then concat (map (rectLine cm startX endY endX) [startY..endY])
        else if startY = endY then
          (let line = lineText startY cm in
           if startX \<ge> int (length line) then [] else utf8 (slice startX (min (endX + 1) (int (length line))) line))
        else concat (map (selectedLine cm startY startX endY endX) [startY..endY]))"

definition endOfLineText :: "CopyMode \<Rightarrow> nat list" where
  "endOfLineText cm =
     (let line = lineText (cursorAbsLine cm) cm in if cx cm \<ge> int (length line) then [] else utf8 (slice (cx cm) (int (length line)) line))"

definition scrollToAbsolute :: "int \<Rightarrow> int \<Rightarrow> CopyMode \<Rightarrow> CopyMode" where
  "scrollToAbsolute absY col cm =
     (let cm1 = cm\<lparr>oy := clamp (TotalLines cm - cmHeight cm - absY + cy cm) 0 (maxOY cm)\<rparr>;
          firstVisible = FirstVisibleLine cm1
      in cm1\<lparr>cy := clamp (absY - firstVisible) 0 (cmHeight cm - 1), cx := clamp col 0 (cmWidth cm - 1)\<rparr>)"

definition StartSelection :: "CopyMode \<Rightarrow> copyAction \<times> CopyMode" where
  "StartSelection cm =
     (let absY = cursorAbsLine cm in
      (ActionRedraw, cm\<lparr>lineSelect := False, rectSelect := False, selecting := True, selStartX := cx cm, selStartY := absY,
         selEndX := cx cm, selEndY := absY\<rparr>))"

definition ClearSelection :: "CopyMode \<Rightarrow> copyAction \<times> CopyMode" where
  "ClearSelection cm =
     (if \<not> selecting cm \<and> \<not> lineSelect cm \<and> \<not> rectSelect cm then (ActionNone, cm)
      else (ActionRedraw, cm\<lparr>selecting := False, lineSelect := False, rectSelect := False\<rparr>))"

definition SelectLine :: "CopyMode \<Rightarrow> copyAction \<times> CopyMode" where
  "SelectLine cm =
     (let absY = cursorAbsLine cm in
      (ActionRedraw, cm\<lparr>selecting := True, lineSelect := True, rectSelect := False, selStartX := 0, selStartY := absY,
         selEndX := cmWidth cm - 1, selEndY := absY\<rparr>))"

definition ToggleRectangleSelection :: "CopyMode \<Rightarrow> copyAction \<times> CopyMode" where
  "ToggleRectangleSelection cm =
     (let absY = cursorAbsLine cm;
          cm1 = (if selecting cm then cm
                 else cm\<lparr>selecting := True, selStartX := cx cm, selStartY := absY, selEndX := cx cm, selEndY := absY\<rparr>)
      in (ActionRedraw, updateSelection (cm1\<lparr>lineSelect := False, rectSelect := \<not> rectSelect cm1\<rparr>)))"

definition OtherEnd :: "CopyMode \<Rightarrow> copyAction \<times> CopyMode" where
  "OtherEnd cm =
     (if \<not> selecting cm then (ActionNone, cm)
      else let oldStartX = selStartX cm; oldStartY = selStartY cm;
               cm1 = cm\<lparr>selStartX := selEndX cm, selStartY := selEndY cm, selEndX := oldStartX, selEndY := oldStartY\<rparr>
           in (ActionRedraw, updateSelection (scrollToAbsolute oldStartY oldStartX cm1)))"

section \<open>Scrolling and the cursor\<close>

definition WheelScrollUp :: "int \<Rightarrow> CopyMode \<Rightarrow> copyAction \<times> CopyMode" where
  "WheelScrollUp ls cm =
     (if ls \<le> 0 then (ActionNone, cm)
      else let next = clamp (int64 (oy cm + ls)) 0 (maxOY cm) in
        if next = oy cm then (ActionNone, cm) else (ActionRedraw, updateSelection (cm\<lparr>oy := next\<rparr>)))"

definition WheelScrollDown :: "int \<Rightarrow> CopyMode \<Rightarrow> copyAction \<times> CopyMode" where
  "WheelScrollDown ls cm =
     (if ls \<le> 0 then (ActionNone, cm)
      else let next = clamp (int64 (oy cm - ls)) 0 (maxOY cm) in
        if next = oy cm then (if scrollExit cm \<and> oy cm = 0 then ActionExit else ActionNone, cm)
        else let cm1 = updateSelection (cm\<lparr>oy := next\<rparr>)
             in (if scrollExit cm1 \<and> oy cm1 = 0 then ActionExit else ActionRedraw, cm1))"

definition Resize :: "int \<Rightarrow> int \<Rightarrow> CopyMode \<Rightarrow> CopyMode" where
  "Resize w h cm =
     (let cm1 = cm\<lparr>cmWidth := w, cmHeight := h\<rparr>;
          cm2 = cm1\<lparr>oy := clamp (oy cm1) 0 (maxOY cm1)\<rparr>;
          cm3 = cm2\<lparr>cy := clamp (cy cm2) 0 (cmHeight cm2 - 1)\<rparr>
      in cm3\<lparr>cx := clamp (cx cm3) 0 (cmWidth cm3 - 1)\<rparr>)"

definition SetCursor :: "int \<Rightarrow> int \<Rightarrow> CopyMode \<Rightarrow> copyAction \<times> CopyMode" where
  "SetCursor col0 viewportRow cm =
     (let row = clamp viewportRow 0 (cmHeight cm - 1);
          line = lineText (FirstVisibleLine cm + row) cm;
          maxCol = (if line \<noteq> [] then min (int (length line) - 1) (cmWidth cm - 1) else 0);
          col = clamp col0 0 maxCol
      in if cx cm = col \<and> cy cm = row then (ActionNone, cm)
         else (ActionRedraw, updateSelection (cm\<lparr>cx := col, cy := row\<rparr>)))"

definition SetScrollExit :: "bool \<Rightarrow> CopyMode \<Rightarrow> CopyMode" where
  "SetScrollExit enabled cm = cm\<lparr>scrollExit := enabled\<rparr>"

definition queueCopyText :: "nat list \<Rightarrow> bool \<Rightarrow> CopyMode \<Rightarrow> CopyMode" where
  "queueCopyText t app cm = cm\<lparr>copyText := t, appendCopy := app\<rparr>"

definition ConsumeCopyText :: "CopyMode \<Rightarrow> (nat list \<times> bool) \<times> CopyMode" where
  "ConsumeCopyText cm = ((copyText cm, appendCopy cm), cm\<lparr>copyText := [], appendCopy := False\<rparr>)"

definition consumeCount :: "CopyMode \<Rightarrow> int \<times> CopyMode" where
  "consumeCount cm = (if pendingCount cm \<le> 0 then (1, cm) else (pendingCount cm, cm\<lparr>pendingCount := 0\<rparr>))"

definition consumePendingCharCount :: "CopyMode \<Rightarrow> int \<times> CopyMode" where
  "consumePendingCharCount cm =
     (if pendingCharSearchCount cm \<le> 0 then (1, cm) else (pendingCharSearchCount cm, cm\<lparr>pendingCharSearchCount := 0\<rparr>))"

end
