(* ===== verification/Copy_Motions.thy ===== *)
theory Copy_Motions
  imports Copy_Mode
begin

text \<open>
  The motions of copy mode (\<^verbatim>\<open>copymode/motions.go\<close>, \<^verbatim>\<open>copymode_motions.go\<close>,
  \<^verbatim>\<open>charsearch.go\<close>, \<^verbatim>\<open>structural_motions.go\<close>): lines, words, paragraphs, brackets, search,
  and the search for a character. The tables of the Unicode package are arguments
  (\<open>unicodeTables\<close>).
\<close>

record unicodeTables =
  IsLetter :: "rune \<Rightarrow> bool"
  IsNumber :: "rune \<Rightarrow> bool"
  ToLower :: "rune \<Rightarrow> rune"

section \<open>Lines\<close>

definition moveDown :: "CopyMode \<Rightarrow> bool \<times> CopyMode" where
  "moveDown cm =
     (if cy cm < cmHeight cm - 1 then (True, cm\<lparr>cy := cy cm + 1\<rparr>)
      else if oy cm > 0 then (True, cm\<lparr>oy := oy cm - 1\<rparr>)
      else (False, cm))"

definition moveUp :: "CopyMode \<Rightarrow> bool \<times> CopyMode" where
  "moveUp cm =
     (if cy cm > 0 then (True, cm\<lparr>cy := cy cm - 1\<rparr>)
      else if oy cm < maxOY cm then (True, cm\<lparr>oy := oy cm + 1\<rparr>)
      else (False, cm))"

definition lineEndCol :: "CopyMode \<Rightarrow> int" where
  "lineEndCol cm = (let line = lineText (cursorAbsLine cm) cm; e = int (backRun (\<lambda>i. runeIsSpace (line ! i)) (length line)) - 1 in if e < 0 then 0 else e)"

definition firstNonBlankCol :: "CopyMode \<Rightarrow> int" where
  "firstNonBlankCol cm =
     (let line = lineText (cursorAbsLine cm) cm; i = length (takeWhile runeIsSpace line) in if i < length line then int i else 0)"

definition repeatMotion_step :: "(CopyMode \<Rightarrow> bool \<times> CopyMode) \<Rightarrow> bool \<times> bool \<times> CopyMode \<Rightarrow> bool \<times> bool \<times> CopyMode" where
  "repeatMotion_step move st =
     (case st of (stopped, moved, cm) \<Rightarrow>
        if stopped then st else let (ok, cm') = move cm in if ok then (False, True, cm') else (True, moved, cm'))"

text \<open>A loop of \<open>count\<close> rounds that stops at the first one that cannot move.\<close>

definition repeatMotion :: "int \<Rightarrow> (CopyMode \<Rightarrow> bool \<times> CopyMode) \<Rightarrow> CopyMode \<Rightarrow> copyAction \<times> CopyMode" where
  "repeatMotion count move cm =
     (let (stopped, moved, cm1) = (repeatMotion_step move ^^ nat count) (False, False, cm)
      in if \<not> moved then (ActionNone, cm1) else (ActionRedraw, updateSelection cm1))"

text \<open>Rounds that each may end the mode; a loop goes on if a round does nothing.\<close>

primrec repeatTimes :: "nat \<Rightarrow> copyAction \<Rightarrow> (CopyMode \<Rightarrow> copyAction \<times> CopyMode) \<Rightarrow> CopyMode \<Rightarrow> copyAction \<times> CopyMode" where
  "repeatTimes 0 result f cm = (result, cm)"
| "repeatTimes (Suc n) result f cm =
     (let (action, cm1) = f cm in
      if action \<in> {ActionExit, ActionYank, ActionPanic} then (action, cm1)
      else repeatTimes n (if action = ActionRedraw then ActionRedraw else result) f cm1)"

definition repeatAction :: "int \<Rightarrow> (CopyMode \<Rightarrow> copyAction \<times> CopyMode) \<Rightarrow> CopyMode \<Rightarrow> copyAction \<times> CopyMode" where
  "repeatAction count f cm = repeatTimes (nat count) ActionNone f cm"

definition scrollBy :: "int \<Rightarrow> bool \<Rightarrow> CopyMode \<Rightarrow> copyAction \<times> CopyMode" where
  "scrollBy delta exit cm =
     (let next = clamp (int64 (oy cm + delta)) 0 (maxOY cm) in
      if next = oy cm then (if exit \<and> scrollExit cm \<and> oy cm = 0 then ActionExit else ActionNone, cm)
      else let cm1 = updateSelection (cm\<lparr>oy := next\<rparr>)
           in (if exit \<and> scrollExit cm1 \<and> oy cm1 = 0 then ActionExit else ActionRedraw, cm1))"

definition scrollCursorToRow :: "int \<Rightarrow> CopyMode \<Rightarrow> copyAction \<times> CopyMode" where
  "scrollCursorToRow row cm =
     (let absY = cursorAbsLine cm
      in (ActionRedraw, updateSelection (cm\<lparr>oy := clamp (TotalLines cm - cmHeight cm - absY + row) 0 (maxOY cm),
            cy := clamp row 0 (cmHeight cm - 1)\<rparr>)))"

section \<open>Words\<close>

datatype wordClass = wordClassWhitespace | wordClassWord | wordClassSeparator

definition tmuxWordSeparators :: "rune list" where
  "tmuxWordSeparators = map of_char (''!'' @ [CHR 0x22] @ ''#$%&'' @ [CHR 0x27] @ ''()*+,-./:;<=>?@['' @ [CHR 0x5C] @ '']^'' @ [CHR 0x60] @ ''{|}~'')"

definition classifyWordRune :: "rune \<Rightarrow> wordClass" where
  "classifyWordRune r = (if runeIsSpace r then wordClassWhitespace else wordClassWord)"

definition classifyViWordRune :: "unicodeTables \<Rightarrow> rune \<Rightarrow> wordClass" where
  "classifyViWordRune U r =
     (if runeIsSpace r then wordClassWhitespace
      else if r = of_char (CHR ''_'') \<or> IsLetter U r \<or> IsNumber U r then wordClassWord
      else if r < 0x7F \<and> r \<in> set tmuxWordSeparators then wordClassSeparator
      else wordClassWord)"

record motionCursor =
  mc_cm :: CopyMode
  mc_line :: runes_text
  mc_pos :: int

definition newMotionCursor :: "CopyMode \<Rightarrow> motionCursor" where
  "newMotionCursor cm = (let line = cursorLineRunes cm in \<lparr>mc_cm = cm, mc_line = line, mc_pos = min (cx cm) (int (length line))\<rparr>)"

definition mc_moveDown :: "int \<Rightarrow> motionCursor \<Rightarrow> bool \<times> motionCursor" where
  "mc_moveDown pos mc =
     (let (ok, cm) = moveDown (mc_cm mc) in
      if ok then (True, \<lparr>mc_cm = cm, mc_line = cursorLineRunes cm, mc_pos = pos\<rparr>) else (False, mc\<lparr>mc_cm := cm\<rparr>))"

definition mc_moveUpToEnd :: "motionCursor \<Rightarrow> bool \<times> motionCursor" where
  "mc_moveUpToEnd mc =
     (let (ok, cm) = moveUp (mc_cm mc) in
      if ok then (True, \<lparr>mc_cm = cm, mc_line = cursorLineRunes cm, mc_pos = int (length (cursorLineRunes cm)) - 1\<rparr>)
      else (False, mc\<lparr>mc_cm := cm\<rparr>))"

definition mc_stepForward :: "motionCursor \<Rightarrow> bool \<times> motionCursor" where
  "mc_stepForward mc =
     (if mc_pos mc < int (length (mc_line mc)) - 1 then (True, mc\<lparr>mc_pos := mc_pos mc + 1\<rparr>) else mc_moveDown 0 mc)"

definition skipForward :: "(rune \<Rightarrow> bool) \<Rightarrow> motionCursor \<Rightarrow> motionCursor" where
  "skipForward P mc = mc\<lparr>mc_pos := mc_pos mc + int (length (takeWhile P (drop (nat (mc_pos mc)) (mc_line mc))))\<rparr>"

text \<open>What is left to move down or up; it ends the loops that look for a word on the next lines.\<close>

definition linesBelow :: "CopyMode \<Rightarrow> nat" where
  "linesBelow cm = nat (cmHeight cm - 1 - cy cm) + nat (oy cm)"

definition linesAbove :: "CopyMode \<Rightarrow> nat" where
  "linesAbove cm = nat (cy cm) + nat (maxOY cm - oy cm)"

lemma moveDown_below: "moveDown cm = (True, cm') \<Longrightarrow> linesBelow cm' < linesBelow cm"
  by (auto simp: moveDown_def linesBelow_def split: if_splits)

lemma moveUp_above: "moveUp cm = (True, cm') \<Longrightarrow> linesAbove cm' < linesAbove cm"
  by (auto simp: moveUp_def linesAbove_def maxOY_def split: if_splits)

lemma mc_moveDown_below: "mc_moveDown p mc = (True, mc') \<Longrightarrow> linesBelow (mc_cm mc') < linesBelow (mc_cm mc)"
  by (auto simp: mc_moveDown_def split: prod.splits if_splits dest: moveDown_below)

lemma mc_moveUpToEnd_above: "mc_moveUpToEnd mc = (True, mc') \<Longrightarrow> linesAbove (mc_cm mc') < linesAbove (mc_cm mc)"
  by (auto simp: mc_moveUpToEnd_def split: prod.splits if_splits dest: moveUp_above)

function seekForwardNonWhitespace :: "(rune \<Rightarrow> wordClass) \<Rightarrow> motionCursor \<Rightarrow> bool \<times> motionCursor" where
  "seekForwardNonWhitespace classify mc =
     (let mc1 = skipForward (\<lambda>r. classify r = wordClassWhitespace) mc in
      if mc_pos mc1 < int (length (mc_line mc1)) then (True, mc1)
      else case mc_moveDown 0 mc1 of
        (ok, mc2) \<Rightarrow> if ok then seekForwardNonWhitespace classify mc2 else (False, mc2))"
  by pat_completeness auto

termination
proof (relation "measure (\<lambda>(c, mc). linesBelow (mc_cm mc))", goal_cases)
  case (2 classify mc mc1 ok mc2)
  then have "linesBelow (mc_cm mc2) < linesBelow (mc_cm mc1)" using mc_moveDown_below [of 0 mc1 mc2] by simp
  then show ?case using 2(1) by (simp add: skipForward_def)
qed simp

function seekBackwardNonWhitespace :: "(rune \<Rightarrow> wordClass) \<Rightarrow> motionCursor \<Rightarrow> bool \<times> motionCursor" where
  "seekBackwardNonWhitespace classify mc =
     (let line = mc_line mc;
          p = int (backRun (\<lambda>i. i \<ge> length line \<or> classify (line ! i) = wordClassWhitespace) (nat (mc_pos mc + 1))) - 1;
          mc1 = mc\<lparr>mc_pos := p\<rparr>
      in if mc_pos mc1 \<ge> 0 then (True, mc1)
         else case mc_moveUpToEnd mc1 of
           (ok, mc2) \<Rightarrow> if ok then seekBackwardNonWhitespace classify mc2 else (False, mc2))"
  by pat_completeness auto

termination
proof (relation "measure (\<lambda>(c, mc). linesAbove (mc_cm mc))", goal_cases)
  case (2 classify mc line p mc1 ok mc2)
  then have "linesAbove (mc_cm mc2) < linesAbove (mc_cm mc1)" using mc_moveUpToEnd_above [of mc1 mc2] by simp
  then show ?case using 2 by simp
qed simp

declare seekForwardNonWhitespace.simps [simp del] seekBackwardNonWhitespace.simps [simp del]

definition restoreCursor :: "CopyMode \<Rightarrow> CopyMode \<Rightarrow> CopyMode" where
  "restoreCursor saved cm = cm\<lparr>cx := cx saved, cy := cy saved, oy := oy saved\<rparr>"

definition finishWordMotion :: "int \<Rightarrow> CopyMode \<Rightarrow> copyAction \<times> CopyMode" where
  "finishWordMotion col cm = (ActionRedraw, updateSelection (cm\<lparr>cx := col\<rparr>))"

definition restoreWordMotion :: "CopyMode \<Rightarrow> int \<Rightarrow> CopyMode \<Rightarrow> copyAction \<times> CopyMode" where
  "restoreWordMotion saved col cm = finishWordMotion col (restoreCursor saved cm)"

definition failWordMotion :: "CopyMode \<Rightarrow> CopyMode \<Rightarrow> copyAction \<times> CopyMode" where
  "failWordMotion saved cm = (ActionNone, restoreCursor saved cm)"

definition nextWordStart :: "(rune \<Rightarrow> wordClass) \<Rightarrow> CopyMode \<Rightarrow> copyAction \<times> CopyMode" where
  "nextWordStart classify cm =
     (let cursor0 = newMotionCursor cm;
          cursor1 =
            (if mc_pos cursor0 < int (length (mc_line cursor0)) then
               (let class = classify (mc_line cursor0 ! nat (mc_pos cursor0)) in
                if class \<noteq> wordClassWhitespace then skipForward (\<lambda>r. classify r = class) cursor0 else cursor0)
             else cursor0);
          (found, cursor) = seekForwardNonWhitespace classify cursor1
      in if \<not> found then failWordMotion cm (mc_cm cursor) else finishWordMotion (mc_pos cursor) (mc_cm cursor))"

definition previousWordStart :: "(rune \<Rightarrow> wordClass) \<Rightarrow> bool \<Rightarrow> CopyMode \<Rightarrow> copyAction \<times> CopyMode" where
  "previousWordStart classify stickyTop cm =
     (let cursor0 = newMotionCursor cm;
          (found, cursor) = seekBackwardNonWhitespace classify (cursor0\<lparr>mc_pos := mc_pos cursor0 - 1\<rparr>)
      in if \<not> found then (if stickyTop then restoreWordMotion cm 0 (mc_cm cursor) else failWordMotion cm (mc_cm cursor))
         else let line = mc_line cursor; class = classify (line ! nat (mc_pos cursor));
                  p = int (backRun (\<lambda>i. classify (line ! i) = class) (nat (mc_pos cursor)))
              in finishWordMotion (max 0 p) (mc_cm cursor))"

definition nextWordEnd :: "(rune \<Rightarrow> wordClass) \<Rightarrow> bool \<Rightarrow> CopyMode \<Rightarrow> copyAction \<times> CopyMode" where
  "nextWordEnd classify stickyEnd cm =
     (let cursor0 = newMotionCursor cm;
          (stepped, cursor1) =
            (if mc_pos cursor0 < int (length (mc_line cursor0)) \<and> classify (mc_line cursor0 ! nat (mc_pos cursor0)) \<noteq> wordClassWhitespace
             then mc_stepForward cursor0 else (True, cursor0))
      in if \<not> stepped then failWordMotion cm (mc_cm cursor1)
         else let (found, cursor) = seekForwardNonWhitespace classify cursor1
              in if \<not> found then
                   (if stickyEnd then restoreWordMotion cm (max 0 (int (length (mc_line cursor)) - 1)) (mc_cm cursor)
                    else failWordMotion cm (mc_cm cursor))
                 else let line = mc_line cursor; class = classify (line ! nat (mc_pos cursor));
                          p = int (foreRun (\<lambda>i. classify (line ! (i + 1)) = class) (nat (mc_pos cursor)) (length line - 1))
                      in finishWordMotion (clamp p 0 (cmWidth cm - 1)) (mc_cm cursor))"

text \<open>A key as the number of its byte.\<close>

abbreviation key :: "char \<Rightarrow> int" where
  "key c \<equiv> of_char c"

definition runWordMotion :: "unicodeTables \<Rightarrow> int \<Rightarrow> CopyMode \<Rightarrow> copyAction \<times> CopyMode" where
  "runWordMotion U k cm =
     (if k = key (CHR ''W'') then nextWordStart classifyWordRune cm
      else if k = key (CHR ''B'') then previousWordStart classifyWordRune True cm
      else if k = key (CHR ''E'') then nextWordEnd classifyWordRune True cm
      else if k = key (CHR ''w'') then nextWordStart (classifyViWordRune U) cm
      else if k = key (CHR ''b'') then previousWordStart (classifyViWordRune U) False cm
      else if k = key (CHR ''e'') then nextWordEnd (classifyViWordRune U) False cm
      else (ActionNone, cm))"

text \<open>The bounds of the word at or after the cursor, if there is one on the line.\<close>

definition wordBounds :: "unicodeTables \<Rightarrow> CopyMode \<Rightarrow> (nat \<times> nat) option" where
  "wordBounds U cm =
     (let line = cursorLineRunes cm; cls = classifyViWordRune U in
      if line = [] then None
      else let pos0 = nat (clamp (cx cm) 0 (int (length line) - 1));
               pos = (if cls (line ! pos0) = wordClassWhitespace
                      then foreRun (\<lambda>i. cls (line ! i) = wordClassWhitespace) pos0 (length line) else pos0)
           in if pos \<ge> length line then None
              else let class = cls (line ! pos)
                   in Some (backRun (\<lambda>i. cls (line ! i) = class) pos, foreRun (\<lambda>i. cls (line ! (i + 1)) = class) pos (length line - 1)))"

definition wordUnderCursor :: "unicodeTables \<Rightarrow> CopyMode \<Rightarrow> runes_text" where
  "wordUnderCursor U cm =
     (case wordBounds U cm of None \<Rightarrow> [] | Some (s, e) \<Rightarrow> slice (int s) (int e + 1) (cursorLineRunes cm))"

definition SelectWord :: "unicodeTables \<Rightarrow> CopyMode \<Rightarrow> copyAction \<times> CopyMode" where
  "SelectWord U cm =
     (case wordBounds U cm of
        None \<Rightarrow> (ActionNone, cm)
      | Some (s, e) \<Rightarrow>
          (let absY = cursorAbsLine cm in
           (ActionRedraw, cm\<lparr>selecting := True, lineSelect := False, rectSelect := False, selStartX := int s, selStartY := absY,
              selEndX := int e, selEndY := absY, cx := int e\<rparr>)))"

section \<open>Search\<close>

text \<open>
  The occurrences of a query in a line from a column on, without overlaps. The query is not
  empty.
\<close>

function lineMatches :: "int \<Rightarrow> runes_text \<Rightarrow> runes_text \<Rightarrow> nat \<Rightarrow> Match list" where
  "lineMatches i query line idx =
     (if query = [] \<or> idx + length query > length line then []
      else if take (length query) (drop idx line) = query
      then \<lparr>LineIdx = i, match_Col = int idx, match_Len = int (length query)\<rparr> # lineMatches i query line (idx + length query)
      else lineMatches i query line (idx + 1))"
  by pat_completeness auto

termination
  by (relation "measure (\<lambda>(i, query, line, idx). length line - idx)") (auto simp: length_greater_0_conv [symmetric] simp del: length_greater_0_conv)

declare lineMatches.simps [simp del]

definition allMatches :: "unicodeTables \<Rightarrow> runes_text \<Rightarrow> CopyMode \<Rightarrow> Match list" where
  "allMatches U query cm =
     concat (map (\<lambda>i. lineMatches i (map (ToLower U) query) (map (ToLower U) (lineText i cm)) 0) [0..TotalLines cm - 1])"

definition scrollToMatch :: "CopyMode \<Rightarrow> CopyMode" where
  "scrollToMatch cm =
     (if matchIdx cm < 0 \<or> matchIdx cm \<ge> int (length (matches cm)) then cm
      else let m = matches cm ! nat (matchIdx cm);
               center = go_div (cmHeight cm) 2;
               cm1 = cm\<lparr>oy := clamp (TotalLines cm - cmHeight cm - LineIdx m + center) 0 (maxOY cm)\<rparr>;
               firstVisible = TotalLines cm1 - cmHeight cm1 - oy cm1
           in cm1\<lparr>cy := clamp (LineIdx m - firstVisible) 0 (cmHeight cm1 - 1), cx := match_Col m\<rparr>)"

text \<open>The index of the first, or the last, match that satisfies a test.\<close>

definition firstIndex :: "('a \<Rightarrow> bool) \<Rightarrow> 'a list \<Rightarrow> int \<Rightarrow> int" where
  "firstIndex P l d = (let n = length (takeWhile (\<lambda>x. \<not> P x) l) in if n < length l then int n else d)"

definition lastIndex :: "('a \<Rightarrow> bool) \<Rightarrow> 'a list \<Rightarrow> int \<Rightarrow> int" where
  "lastIndex P l d = (let n = backRun (\<lambda>i. \<not> P (l ! i)) (length l) in if n > 0 then int n - 1 else d)"

definition runSearch :: "unicodeTables \<Rightarrow> bool \<Rightarrow> CopyMode \<Rightarrow> CopyMode" where
  "runSearch U forward cm =
     (let cm0 = cm\<lparr>matches := [], matchIdx := - 1\<rparr> in
      if searchQuery cm0 = [] then cm0
      else let ms = allMatches U (searchQuery cm0) cm0; cm1 = cm0\<lparr>matches := ms\<rparr> in
        if ms = [] then cm1
        else let cursorAbs = cursorAbsLine cm1; cursorCol = cx cm1;
                 i = (if forward
                      then firstIndex (\<lambda>m. LineIdx m > cursorAbs \<or> LineIdx m = cursorAbs \<and> match_Col m \<ge> cursorCol) ms 0
                      else lastIndex (\<lambda>m. LineIdx m < cursorAbs \<or> LineIdx m = cursorAbs \<and> match_Col m \<le> cursorCol) ms (int (length ms) - 1))
             in scrollToMatch (cm1\<lparr>lastSearchForward := forward, matchIdx := i\<rparr>))"

definition nextMatch :: "CopyMode \<Rightarrow> CopyMode" where
  "nextMatch cm =
     (if matches cm = [] then cm
      else scrollToMatch (cm\<lparr>matchIdx := go_mod (matchIdx cm + 1) (int (length (matches cm)))\<rparr>))"

definition prevMatch :: "CopyMode \<Rightarrow> CopyMode" where
  "prevMatch cm =
     (if matches cm = [] then cm
      else scrollToMatch (cm\<lparr>matchIdx := go_mod (matchIdx cm - 1 + int (length (matches cm))) (int (length (matches cm)))\<rparr>))"

definition searchAgain :: "bool \<Rightarrow> CopyMode \<Rightarrow> CopyMode" where
  "searchAgain reverse cm =
     (if matches cm = [] then cm
      else let forward = (if reverse then \<not> lastSearchForward cm else lastSearchForward cm)
           in if forward then nextMatch cm else prevMatch cm)"

definition searchWordUnderCursor :: "unicodeTables \<Rightarrow> bool \<Rightarrow> CopyMode \<Rightarrow> copyAction \<times> CopyMode" where
  "searchWordUnderCursor U forward cm =
     (let query = wordUnderCursor U cm in
      if query = [] then (ActionNone, cm)
      else (ActionRedraw, runSearch U forward (cm\<lparr>searchQuery := query, lastSearchForward := forward\<rparr>)))"

section \<open>Search for a character\<close>

text \<open>The backward search reads the rune before the cursor, which may be beyond the end of the line.\<close>

datatype charHit = NotFound | FoundAt int | IndexPanic

definition findCharOnLine :: "int \<Rightarrow> rune \<Rightarrow> CopyMode \<Rightarrow> charHit" where
  "findCharOnLine cmd r cm =
     (let line = cursorLineRunes cm;
          later = (let i = foreRun (\<lambda>i. line ! i \<noteq> r) (nat (cx cm + 1)) (length line) in if i < length line then FoundAt (int i) else NotFound);
          earlier = (if cx cm - 1 \<ge> int (length line) \<and> cx cm - 1 \<ge> 0 then IndexPanic
                    else let n = backRun (\<lambda>i. line ! i \<noteq> r) (nat (cx cm)) in if n > 0 then FoundAt (int n - 1) else NotFound)
      in if cmd = key (CHR ''f'') then later
         else if cmd = key (CHR ''F'') then earlier
         else if cmd = key (CHR ''t'') then (case later of FoundAt i \<Rightarrow> if i - 1 > cx cm then FoundAt (i - 1) else NotFound | h \<Rightarrow> h)
         else if cmd = key (CHR ''T'') then (case earlier of FoundAt i \<Rightarrow> if i + 1 < cx cm then FoundAt (i + 1) else NotFound | h \<Rightarrow> h)
         else NotFound)"

text \<open>All rounds, or what stopped them.\<close>

primrec charSearchTimes :: "nat \<Rightarrow> int \<Rightarrow> rune \<Rightarrow> CopyMode \<Rightarrow> charHit \<times> CopyMode" where
  "charSearchTimes 0 cmd r cm = (FoundAt (cx cm), cm)"
| "charSearchTimes (Suc n) cmd r cm =
     (case findCharOnLine cmd r cm of FoundAt col \<Rightarrow> charSearchTimes n cmd r (cm\<lparr>cx := col\<rparr>) | h \<Rightarrow> (h, cm))"

definition executeCharSearch :: "int \<Rightarrow> int \<Rightarrow> int \<Rightarrow> CopyMode \<Rightarrow> copyAction \<times> CopyMode" where
  "executeCharSearch cmd target count0 cm =
     (let count = (if count0 \<le> 0 then 1 else count0) in
      case charSearchTimes (nat count) cmd (nat target) cm of
        (NotFound, cm1) \<Rightarrow> (ActionNone, cm1\<lparr>cx := cx cm\<rparr>)
      | (IndexPanic, cm1) \<Rightarrow> (ActionPanic, cm1)
      | (FoundAt col, cm1) \<Rightarrow> (ActionRedraw, updateSelection (cm1\<lparr>lastCharSearch := cmd, lastCharTarget := target\<rparr>)))"

definition reverseCommand :: "int \<Rightarrow> int" where
  "reverseCommand cmd =
     (if cmd = key (CHR ''f'') then key (CHR ''F'') else if cmd = key (CHR ''F'') then key (CHR ''f'')
      else if cmd = key (CHR ''t'') then key (CHR ''T'') else if cmd = key (CHR ''T'') then key (CHR ''t'') else cmd)"

definition repeatCharSearch :: "bool \<Rightarrow> CopyMode \<Rightarrow> copyAction \<times> CopyMode" where
  "repeatCharSearch reverse cm =
     (if lastCharSearch cm = 0 then (ActionNone, cm)
      else let cmd = (if reverse then reverseCommand (lastCharSearch cm) else lastCharSearch cm);
               (result, cm1) = executeCharSearch cmd (lastCharTarget cm) 1 cm
           in if result = ActionPanic then (result, cm1)
              else (result, cm1\<lparr>lastCharSearch := lastCharSearch cm, lastCharTarget := lastCharTarget cm\<rparr>))"

section \<open>Paragraphs and brackets\<close>

definition blankLine :: "int \<Rightarrow> CopyMode \<Rightarrow> bool" where
  "blankLine y cm \<longleftrightarrow> list_all runeIsSpace (lineText y cm)"

text \<open>Up while a test holds for the line, but not beyond line 0; down, but not beyond line \<open>n\<close>.\<close>

primrec climb :: "(nat \<Rightarrow> bool) \<Rightarrow> nat \<Rightarrow> nat" where
  "climb P 0 = 0"
| "climb P (Suc y) = (if P (Suc y) then climb P y else Suc y)"

definition previousParagraph :: "CopyMode \<Rightarrow> copyAction \<times> CopyMode" where
  "previousParagraph cm =
     (let origY = nat (cursorAbsLine cm);
          y1 = climb (\<lambda>y. blankLine (int y) cm) origY;
          y = climb (\<lambda>y. \<not> blankLine (int y) cm) y1
      in if y = origY then (ActionNone, cm) else (ActionRedraw, updateSelection (scrollToAbsolute (int y) 0 cm)))"

definition nextParagraph :: "CopyMode \<Rightarrow> copyAction \<times> CopyMode" where
  "nextParagraph cm =
     (let origY = nat (cursorAbsLine cm); maxY = nat (TotalLines cm - 1);
          y1 = foreRun (\<lambda>y. blankLine (int y) cm) origY maxY;
          y = foreRun (\<lambda>y. \<not> blankLine (int y) cm) y1 maxY
      in if y = origY then (ActionNone, cm) else (ActionRedraw, updateSelection (scrollToAbsolute (int y) 0 cm)))"

text \<open>The runes from a place on, with their places, in the order of reading or against it.\<close>

definition lineFrom :: "int \<Rightarrow> nat \<Rightarrow> CopyMode \<Rightarrow> (int \<times> int \<times> rune) list" where
  "lineFrom y x cm = map (\<lambda>i. (y, int i, lineText y cm ! i)) [x..<length (lineText y cm)]"

definition readFrom :: "int \<Rightarrow> nat \<Rightarrow> CopyMode \<Rightarrow> (int \<times> int \<times> rune) list" where
  "readFrom y x cm = (if y < TotalLines cm then lineFrom y x cm else []) @ concat (map (\<lambda>yy. lineFrom yy 0 cm) [y + 1..TotalLines cm - 1])"

definition readBackFrom :: "int \<Rightarrow> nat \<Rightarrow> CopyMode \<Rightarrow> (int \<times> int \<times> rune) list" where
  "readBackFrom y x cm =
     rev (concat (map (\<lambda>yy. lineFrom yy 0 cm) [0..y - 1]) @ (if y \<ge> 0 then take x (lineFrom y 0 cm) else []))"

definition bracketRunes :: "rune list" where
  "bracketRunes = map of_char ''()[]{}''"

definition findBracketCandidate :: "CopyMode \<Rightarrow> (int \<times> int \<times> rune) option" where
  "findBracketCandidate cm =
     (let y = cursorAbsLine cm; line = lineText y cm in
      if cx cm < int (length line) \<and> line ! nat (cx cm) \<in> set bracketRunes then Some (y, cx cm, line ! nat (cx cm))
      else List.find (\<lambda>(yy, xx, r). r \<in> set bracketRunes) (readFrom y (nat (min (cx cm + 1) (int (length line)))) cm))"

text \<open>The place where the nesting depth comes to 0: \<open>up\<close> opens a level, \<open>down\<close> closes one.\<close>

fun matchScan :: "rune \<Rightarrow> rune \<Rightarrow> nat \<Rightarrow> (int \<times> int \<times> rune) list \<Rightarrow> (int \<times> int) option" where
  "matchScan up down depth [] = None"
| "matchScan up down depth ((y, x, r) # rest) =
     (if r = up then matchScan up down (depth + 1) rest
      else if r = down then (if depth = 1 then Some (y, x) else matchScan up down (depth - 1) rest)
      else matchScan up down depth rest)"

definition findMatchingForward :: "int \<Rightarrow> int \<Rightarrow> rune \<Rightarrow> rune \<Rightarrow> CopyMode \<Rightarrow> (int \<times> int) option" where
  "findMatchingForward y x opening closing cm = matchScan opening closing 1 (readFrom y (nat (x + 1)) cm)"

definition findMatchingBackward :: "int \<Rightarrow> int \<Rightarrow> rune \<Rightarrow> rune \<Rightarrow> CopyMode \<Rightarrow> (int \<times> int) option" where
  "findMatchingBackward y x opening closing cm = matchScan closing opening 1 (readBackFrom y (nat x) cm)"

definition bracketPairs :: "(rune \<times> rune) list" where
  "bracketPairs = [(of_char (CHR ''(''), of_char (CHR '')'')), (of_char (CHR ''[''), of_char (CHR '']'')), (of_char (CHR ''{''), of_char (CHR ''}''))]"

definition matchingBracket :: "CopyMode \<Rightarrow> copyAction \<times> CopyMode" where
  "matchingBracket cm =
     (case findBracketCandidate cm of
        None \<Rightarrow> (ActionNone, cm)
      | Some (y, x, r) \<Rightarrow>
          (case List.find (\<lambda>(opening, closing). r = opening \<or> r = closing) bracketPairs of
             None \<Rightarrow> (ActionNone, cm)
           | Some (opening, closing) \<Rightarrow>
               (case (if r = opening then findMatchingForward y x opening closing cm else findMatchingBackward y x opening closing cm) of
                  None \<Rightarrow> (ActionNone, cm)
                | Some (my, mx) \<Rightarrow> (ActionRedraw, updateSelection (scrollToAbsolute my mx cm)))))"

definition jumpToMark :: "CopyMode \<Rightarrow> copyAction \<times> CopyMode" where
  "jumpToMark cm =
     (if \<not> markSet cm then (ActionNone, cm)
      else let oldX = cx cm; oldY = cursorAbsLine cm; cm1 = scrollToAbsolute (markY cm) (markX cm) cm
           in (ActionRedraw, updateSelection (cm1\<lparr>markX := oldX, markY := oldY\<rparr>)))"

definition startPrompt :: "promptMode \<Rightarrow> CopyMode \<Rightarrow> copyAction \<times> CopyMode" where
  "startPrompt mode cm = (ActionRedraw, cm\<lparr>prompt := mode, promptBuf := [], promptCursor := 0\<rparr>)"

end
