(* ===== verification/Copy_Input.thy ===== *)
theory Copy_Input
  imports Copy_Motions
begin

text \<open>
  The keys of copy mode: how bytes become keys (\<^verbatim>\<open>decodeCopyModeKey\<close>, and \<^verbatim>\<open>bubblesutil.DecodeKey\<close> in a
  prompt), what each key does, and the loop over the input. The text input of the prompt is
  third-party code and an argument (\<open>TextInput\<close>).
\<close>

section \<open>Keys\<close>

definition keyUp :: int where "keyUp = 0x100"
definition keyDown :: int where "keyDown = 0x101"
definition keyLeft :: int where "keyLeft = 0x102"
definition keyRight :: int where "keyRight = 0x103"
definition keyHome :: int where "keyHome = 0x104"
definition keyEnd :: int where "keyEnd = 0x105"
definition keyPageUp :: int where "keyPageUp = 0x106"
definition keyPageDown :: int where "keyPageDown = 0x107"
definition keyCtrlUp :: int where "keyCtrlUp = 0x108"
definition keyCtrlDown :: int where "keyCtrlDown = 0x109"
definition keyAltX :: int where "keyAltX = 0x10A"

lemmas key_codes = keyUp_def keyDown_def keyLeft_def keyRight_def keyHome_def keyEnd_def keyPageUp_def keyPageDown_def
  keyCtrlUp_def keyCtrlDown_def keyAltX_def

definition paramByte :: "nat \<Rightarrow> bool" where
  "paramByte b \<longleftrightarrow> 0x30 \<le> b \<and> b \<le> 0x39 \<or> b = 0x3B"

text \<open>The parameters of a control sequence and its final byte, if it is there; the length of the sequence.\<close>

definition csiParts :: "nat list \<Rightarrow> (nat list \<times> nat \<times> nat) option" where
  "csiParts data =
     (let params = takeWhile paramByte (drop 2 data); e = 2 + length params
      in if e \<ge> length data then None else Some (params, data ! e, e + 1))"

abbreviation bytes :: "string \<Rightarrow> nat list" where
  "bytes s \<equiv> map of_char s"

definition decodeCSI :: "nat list \<Rightarrow> int \<times> nat" where
  "decodeCSI data =
     (case csiParts data of
        None \<Rightarrow> (0x1B, 1)
      | Some (params, final, n) \<Rightarrow>
          if final = 0x7E \<and> params = bytes ''5'' then (keyPageUp, n)
          else if final = 0x7E \<and> params = bytes ''6'' then (keyPageDown, n)
          else if final = 0x41 \<and> (params = bytes ''1;5'' \<or> params = bytes ''5'') then (keyCtrlUp, n)
          else if final = 0x42 \<and> (params = bytes ''1;5'' \<or> params = bytes ''5'') then (keyCtrlDown, n)
          else (0x1B, 1))"

definition decodeCopyModeKey :: "nat list \<Rightarrow> int \<times> nat" where
  "decodeCopyModeKey data =
     (if data = [] then (- 1, 0)
      else if data ! 0 \<noteq> 0x1B then (int (data ! 0), 1)
      else if length data = 1 then (0x1B, 1)
      else if data ! 1 \<noteq> 0x5B \<and> data ! 1 \<noteq> 0x4F then
        (if data ! 1 = 0x78 \<or> data ! 1 = 0x58 then (keyAltX, 2) else (0x1B, 1))
      else if data ! 1 = 0x4F then
        (if length data < 3 then (0x1B, 1)
         else if data ! 2 = 0x48 then (keyHome, 3)
         else if data ! 2 = 0x46 then (keyEnd, 3)
         else (0x1B, 1))
      else if length data < 3 then (0x1B, 1)
      else if data ! 2 = 0x41 then (keyUp, 3)
      else if data ! 2 = 0x42 then (keyDown, 3)
      else if data ! 2 = 0x43 then (keyRight, 3)
      else if data ! 2 = 0x44 then (keyLeft, 3)
      else if data ! 2 = 0x48 then (keyHome, 3)
      else if data ! 2 = 0x46 then (keyEnd, 3)
      else decodeCSI data)"

definition isScrollKey :: "int \<Rightarrow> bool" where
  "isScrollKey k \<longleftrightarrow>
     k \<in> {key (CHR ''j''), key (CHR ''k''), key (CHR ''g''), key (CHR ''G''), key (CHR ''J''), key (CHR ''K''), keyUp, keyDown,
           keyPageUp, keyPageDown, keyCtrlUp, keyCtrlDown, 0x04, 0x15, 0x02, 0x06}"

section \<open>Motion keys\<close>

definition stepLeft :: "CopyMode \<Rightarrow> copyAction \<times> CopyMode" where
  "stepLeft cm = (if cx cm = 0 then (ActionNone, cm) else (ActionRedraw, updateSelection (cm\<lparr>cx := cx cm - 1\<rparr>)))"

definition stepRight :: "CopyMode \<Rightarrow> copyAction \<times> CopyMode" where
  "stepRight cm = (if cx cm \<ge> cmWidth cm - 1 then (ActionNone, cm) else (ActionRedraw, updateSelection (cm\<lparr>cx := cx cm + 1\<rparr>)))"

definition placed_at :: "int \<Rightarrow> int \<Rightarrow> int \<Rightarrow> CopyMode \<Rightarrow> copyAction \<times> CopyMode" where
  "placed_at o' y x cm = (ActionRedraw, updateSelection (cm\<lparr>oy := o', cy := y, cx := x\<rparr>))"

definition handleLineMotionKey :: "int \<Rightarrow> int \<Rightarrow> CopyMode \<Rightarrow> (copyAction \<times> CopyMode) option" where
  "handleLineMotionKey k count cm =
     (if k = key (CHR ''j'') \<or> k = keyDown then Some (repeatMotion count moveDown cm)
      else if k = key (CHR ''k'') \<or> k = keyUp then Some (repeatMotion count moveUp cm)
      else if k = key (CHR ''h'') \<or> k = keyLeft \<or> k = 0x08 \<or> k = 0x7F then Some (repeatAction count stepLeft cm)
      else if k = key (CHR ''l'') \<or> k = keyRight then Some (repeatAction count stepRight cm)
      else if k = 0x04 then Some (scrollBy (int64 (- go_div (cmHeight cm) 2 * count)) False cm)
      else if k = 0x15 then Some (scrollBy (int64 (go_div (cmHeight cm) 2 * count)) False cm)
      else if k = key (CHR ''g'') then Some (placed_at (maxOY cm) 0 0 cm)
      else if k = key (CHR ''G'') then Some (placed_at 0 (cmHeight cm - 1) 0 cm)
      else if k = key (CHR ''0'') \<or> k = keyHome then Some (placed_at (oy cm) (cy cm) 0 cm)
      else if k = key (CHR ''$'') \<or> k = keyEnd then Some (placed_at (oy cm) (cy cm) (lineEndCol cm) cm)
      else if k = key (CHR ''^'') then Some (placed_at (oy cm) (cy cm) (firstNonBlankCol cm) cm)
      else if k = key (CHR ''H'') then Some (placed_at (oy cm) 0 0 cm)
      else if k = key (CHR ''L'') then Some (placed_at (oy cm) (cmHeight cm - 1) 0 cm)
      else if k = key (CHR ''M'') then Some (placed_at (oy cm) (go_div (cmHeight cm - 1) 2) 0 cm)
      else if k = key (CHR ''z'') then Some (scrollCursorToRow (go_div (cmHeight cm - 1) 2) cm)
      else if k = key (CHR ''J'') \<or> k = 0x05 \<or> k = keyCtrlDown then Some (WheelScrollDown count cm)
      else if k = key (CHR ''K'') \<or> k = 0x19 \<or> k = keyCtrlUp then Some (WheelScrollUp count cm)
      else if k = 0x06 \<or> k = keyPageDown then Some (scrollBy (int64 (- cmHeight cm * count)) False cm)
      else if k = 0x02 \<or> k = keyPageUp then Some (scrollBy (int64 (cmHeight cm * count)) False cm)
      else None)"

definition handleWordMotionKey :: "unicodeTables \<Rightarrow> int \<Rightarrow> int \<Rightarrow> CopyMode \<Rightarrow> (copyAction \<times> CopyMode) option" where
  "handleWordMotionKey U k count cm =
     (if k \<in> {key (CHR ''W''), key (CHR ''B''), key (CHR ''E''), key (CHR ''w''), key (CHR ''b''), key (CHR ''e'')}
      then Some (repeatAction count (runWordMotion U k) cm) else None)"

definition handleParagraphMotionKey :: "int \<Rightarrow> int \<Rightarrow> CopyMode \<Rightarrow> (copyAction \<times> CopyMode) option" where
  "handleParagraphMotionKey k count cm =
     (if k = key (CHR ''{'') then Some (repeatAction count previousParagraph cm)
      else if k = key (CHR ''}'') then Some (repeatAction count nextParagraph cm)
      else None)"

definition handleSearchJumpMotionKey :: "unicodeTables \<Rightarrow> int \<Rightarrow> int \<Rightarrow> CopyMode \<Rightarrow> (copyAction \<times> CopyMode) option" where
  "handleSearchJumpMotionKey U k count cm =
     (if k = key (CHR ''/'') then Some (startPrompt promptSearchForward cm)
      else if k = key (CHR ''?'') then Some (startPrompt promptSearchBackward cm)
      else if k = key (CHR '':'') then Some (startPrompt promptGotoLine cm)
      else if k = key (CHR ''n'') then Some (ActionRedraw, searchAgain False cm)
      else if k = key (CHR ''N'') then Some (ActionRedraw, searchAgain True cm)
      else if k = key (CHR ''*'') then Some (searchWordUnderCursor U True cm)
      else if k = key (CHR ''#'') then Some (searchWordUnderCursor U False cm)
      else if k = key (CHR ''r'') then
        Some (ActionRedraw, if searchQuery cm \<noteq> [] then runSearch U (lastSearchForward cm) cm else cm)
      else if k = key (CHR ''X'') then Some (ActionRedraw, cm\<lparr>markSet := True, markX := cx cm, markY := cursorAbsLine cm\<rparr>)
      else if k \<in> {key (CHR ''f''), key (CHR ''F''), key (CHR ''t''), key (CHR ''T'')} then
        Some (ActionNone, cm\<lparr>pendingCharSearch := k, pendingCharSearchCount := count\<rparr>)
      else if k = key (CHR '';'') then Some (repeatAction count (repeatCharSearch False) cm)
      else if k = key (CHR '','') then Some (repeatAction count (repeatCharSearch True) cm)
      else if k = key (CHR ''%'') then Some (repeatAction count matchingBracket cm)
      else if k = keyAltX then Some (if \<not> markSet cm then (ActionNone, cm) else jumpToMark cm)
      else None)"

definition handleMotionKey :: "unicodeTables \<Rightarrow> int \<Rightarrow> int \<Rightarrow> CopyMode \<Rightarrow> (copyAction \<times> CopyMode) option" where
  "handleMotionKey U k count cm =
     (case handleLineMotionKey k count cm of Some r \<Rightarrow> Some r
      | None \<Rightarrow> (case handleWordMotionKey U k count cm of Some r \<Rightarrow> Some r
        | None \<Rightarrow> (case handleParagraphMotionKey k count cm of Some r \<Rightarrow> Some r
          | None \<Rightarrow> handleSearchJumpMotionKey U k count cm)))"

section \<open>Keys outside a prompt\<close>

definition selectLines :: "int \<Rightarrow> CopyMode \<Rightarrow> CopyMode" where
  "selectLines count cm =
     (let cm1 = snd (SelectLine cm); (stopped, moved, cm2) = (repeatMotion_step moveDown ^^ nat (count - 1)) (False, False, cm1)
      in updateSelection cm2)"

definition handleNormalKey :: "unicodeTables \<Rightarrow> int \<Rightarrow> CopyMode \<Rightarrow> copyAction \<times> CopyMode" where
  "handleNormalKey U k cm0 =
     (if key (CHR ''1'') \<le> k \<and> k \<le> key (CHR ''9'') then
        (ActionRedraw, cm0\<lparr>pendingCount := int64 (pendingCount cm0 * 10 + (k - key (CHR ''0'')))\<rparr>)
      else if k = key (CHR ''0'') \<and> pendingCount cm0 > 0 then (ActionRedraw, cm0\<lparr>pendingCount := int64 (pendingCount cm0 * 10)\<rparr>)
      else let (count, cm) = consumeCount cm0 in
        if k = key (CHR ''q'') \<or> k = 0x03 then (ActionExit, cm)
        else if k = 0x1B then ClearSelection (cm\<lparr>pendingCount := 0\<rparr>)
        else if k = key (CHR '' '') then StartSelection cm
        else if k = key (CHR ''v'') \<or> k = 0x16 then ToggleRectangleSelection cm
        else if k = key (CHR ''V'') then (ActionRedraw, selectLines count cm)
        else if k = 0x0D \<or> k = 0x0A then (ActionYank, queueCopyText (SelectedText cm) False cm)
        else if k = key (CHR ''A'') then (ActionYank, queueCopyText (SelectedText cm) True cm)
        else if k = key (CHR ''D'') then (ActionYank, queueCopyText (endOfLineText cm) False cm)
        else if k = key (CHR ''o'') then (if go_mod count 2 = 0 then (ActionNone, cm) else OtherEnd cm)
        else if k = key (CHR ''P'') then (ActionRedraw, cm\<lparr>showPosition := \<not> showPosition cm\<rparr>)
        else if k = key (CHR ''y'') then (ActionYank, queueCopyText (SelectedText cm) False cm)
        else case handleMotionKey U k count cm of Some r \<Rightarrow> r | None \<Rightarrow> (ActionNone, cm))"

section \<open>Keys in a prompt\<close>

datatype moveKey = KUp | KDown | KLeft | KRight | KHome | KEnd | KPgUp | KPgDown | KCtrlUp | KCtrlDown

datatype KeyType = KeyRunes | KeyEnter | KeyEsc | KeyTab | KeyBackspace | KeyDelete | KeyCtrl char | KeyMove moveKey

record KeyMsg =
  msg_Type :: KeyType
  msg_Runes :: runes_text
  msg_Alt :: bool

definition plainKey :: "KeyType \<Rightarrow> KeyMsg" where
  "plainKey t = \<lparr>msg_Type = t, msg_Runes = [], msg_Alt = False\<rparr>"

definition controlKeys :: "(nat \<times> char) list" where
  "controlKeys = [(0x01, CHR ''A''), (0x02, CHR ''B''), (0x04, CHR ''D''), (0x05, CHR ''E''), (0x06, CHR ''F''), (0x0B, CHR ''K''),
     (0x0E, CHR ''N''), (0x10, CHR ''P''), (0x15, CHR ''U''), (0x17, CHR ''W'')]"

definition decodeControlOrRune :: "nat \<Rightarrow> KeyMsg option" where
  "decodeControlOrRune b =
     (if b = 0x0D \<or> b = 0x0A then Some (plainKey KeyEnter)
      else if b = 0x09 then Some (plainKey KeyTab)
      else if b = 0x7F \<or> b = 0x08 then Some (plainKey KeyBackspace)
      else case map_of controlKeys b of
        Some c \<Rightarrow> Some (plainKey (KeyCtrl c))
      | None \<Rightarrow> if 0x20 \<le> b \<and> b \<le> 0x7E then Some \<lparr>msg_Type = KeyRunes, msg_Runes = [b], msg_Alt = False\<rparr> else None)"

definition DecodeKeyCSI :: "nat list \<Rightarrow> KeyMsg \<times> nat" where
  "DecodeKeyCSI data =
     (case csiParts data of
        None \<Rightarrow> (plainKey KeyEsc, 1)
      | Some (params, final, n) \<Rightarrow>
          if final = 0x7E \<and> params = bytes ''3'' then (plainKey KeyDelete, n)
          else if final = 0x7E \<and> params = bytes ''5'' then (plainKey (KeyMove KPgUp), n)
          else if final = 0x7E \<and> params = bytes ''6'' then (plainKey (KeyMove KPgDown), n)
          else if final = 0x41 \<and> (params = bytes ''1;5'' \<or> params = bytes ''5'') then (plainKey (KeyMove KCtrlUp), n)
          else if final = 0x42 \<and> (params = bytes ''1;5'' \<or> params = bytes ''5'') then (plainKey (KeyMove KCtrlDown), n)
          else if final = 0x43 \<and> params = bytes ''1;3'' then ((plainKey (KeyMove KRight))\<lparr>msg_Alt := True\<rparr>, n)
          else if final = 0x44 \<and> params = bytes ''1;3'' then ((plainKey (KeyMove KLeft))\<lparr>msg_Alt := True\<rparr>, n)
          else (plainKey KeyEsc, 1))"

definition letterKeys :: "(nat \<times> moveKey) list" where
  "letterKeys = [(0x41, KUp), (0x42, KDown), (0x43, KRight), (0x44, KLeft), (0x48, KHome), (0x46, KEnd)]"

definition DecodeKey :: "nat list \<Rightarrow> KeyMsg option \<times> nat" where
  "DecodeKey data =
     (if data = [] then (None, 0)
      else if data ! 0 \<noteq> 0x1B then (decodeControlOrRune (data ! 0), 1)
      else if length data = 1 then (Some (plainKey KeyEsc), 1)
      else if data ! 1 \<noteq> 0x5B \<and> data ! 1 \<noteq> 0x4F then
        (if 0x20 \<le> data ! 1 \<and> data ! 1 \<le> 0x7E then (Some \<lparr>msg_Type = KeyRunes, msg_Runes = [data ! 1], msg_Alt = True\<rparr>, 2)
         else (Some (plainKey KeyEsc), 1))
      else if length data < 3 then (Some (plainKey KeyEsc), 1)
      else if data ! 1 = 0x4F then
        (if data ! 2 = 0x48 then (Some (plainKey (KeyMove KHome)), 3)
         else if data ! 2 = 0x46 then (Some (plainKey (KeyMove KEnd)), 3)
         else (Some (plainKey KeyEsc), 1))
      else case map_of letterKeys (data ! 2) of
        Some m \<Rightarrow> (Some (plainKey (KeyMove m)), 3)
      | None \<Rightarrow> (let (msg, n) = DecodeKeyCSI data in (Some msg, n)))"

definition IsInlineEditingKey :: "KeyType \<Rightarrow> bool" where
  "IsInlineEditingKey t \<longleftrightarrow>
     t \<in> {KeyMove KLeft, KeyMove KRight, KeyBackspace, KeyDelete} \<or> t \<in> set (map (\<lambda>(b, c). KeyCtrl c) controlKeys)"

definition IsTextInputKey :: "KeyType \<Rightarrow> bool" where
  "IsTextInputKey t \<longleftrightarrow> t = KeyRunes \<or> t = KeyMove KHome \<or> t = KeyMove KEnd \<or> IsInlineEditingKey t"

text \<open>\<^verbatim>\<open>strconv.Atoi\<close> on the text of a prompt.\<close>

definition promptNumber :: "runes_text \<Rightarrow> int option" where
  "promptNumber t =
     (let (neg, ds) = (case t of c # cs \<Rightarrow> if c = 0x2D then (True, cs) else if c = 0x2B then (False, cs) else (False, t) | [] \<Rightarrow> (False, []));
          v = foldl (\<lambda>v d. v * 10 + (int d - 48)) 0 ds
      in if ds = [] \<or> \<not> list_all (\<lambda>d. 0x30 \<le> d \<and> d \<le> 0x39) ds then None
         else if neg then (if v > 2 ^ 63 then None else Some (- v))
         else (if v \<ge> 2 ^ 63 then None else Some v))"

type_synonym textInput = "KeyMsg \<Rightarrow> runes_text \<times> int \<Rightarrow> runes_text \<times> int"

definition finishPrompt :: "unicodeTables \<Rightarrow> CopyMode \<Rightarrow> CopyMode" where
  "finishPrompt U cm =
     (let buf = promptBuf cm; mode = prompt cm; cm1 = cm\<lparr>prompt := promptNone, promptBuf := [], promptCursor := 0\<rparr>
      in case mode of
           promptSearchForward \<Rightarrow> runSearch U True (cm1\<lparr>searchQuery := buf, lastSearchForward := True\<rparr>)
         | promptSearchBackward \<Rightarrow> runSearch U False (cm1\<lparr>searchQuery := buf, lastSearchForward := False\<rparr>)
         | promptGotoLine \<Rightarrow>
             (case promptNumber buf of Some line \<Rightarrow> updateSelection (cm1\<lparr>oy := clamp line 0 (maxOY cm1)\<rparr>) | None \<Rightarrow> cm1)
         | promptNone \<Rightarrow> cm1)"

definition editPrompt :: "textInput \<Rightarrow> KeyMsg \<Rightarrow> CopyMode \<Rightarrow> copyAction \<times> CopyMode" where
  "editPrompt TextInput msg cm =
     (let unchanged = (promptBuf cm, promptCursor cm); (buf, cur) = TextInput msg unchanged
      in (if (buf, cur) \<noteq> unchanged then ActionRedraw else ActionNone, cm\<lparr>promptBuf := buf, promptCursor := cur\<rparr>))"

definition handlePromptInput :: "unicodeTables \<Rightarrow> textInput \<Rightarrow> nat list \<Rightarrow> CopyMode \<Rightarrow> (copyAction \<times> nat) \<times> CopyMode" where
  "handlePromptInput U TextInput data cm =
     (case DecodeKey data of
        (None, consumed) \<Rightarrow> ((ActionNone, 1), cm)
      | (Some msg, consumed) \<Rightarrow>
          if consumed \<le> 0 then ((ActionNone, 1), cm)
          else if msg_Type msg = KeyEnter then ((ActionRedraw, consumed), finishPrompt U cm)
          else if msg_Type msg = KeyEsc then
            ((ActionRedraw, consumed), cm\<lparr>prompt := promptNone, promptBuf := [], promptCursor := 0\<rparr>)
          else if msg_Type msg = KeyRunes \<and> prompt cm = promptGotoLine \<and> \<not> list_all (\<lambda>r. 0x30 \<le> r \<and> r \<le> 0x39) (msg_Runes msg) then
            ((ActionNone, consumed), cm)
          else if msg_Type msg \<noteq> KeyRunes \<and> \<not> IsTextInputKey (msg_Type msg) then ((ActionNone, consumed), cm)
          else let (action, cm1) = editPrompt TextInput msg cm in ((action, consumed), cm1))"

section \<open>Input\<close>

definition handleInputChunk :: "unicodeTables \<Rightarrow> textInput \<Rightarrow> nat list \<Rightarrow> CopyMode \<Rightarrow> (copyAction \<times> nat) \<times> CopyMode" where
  "handleInputChunk U TextInput data cm =
     (if prompt cm \<noteq> promptNone then handlePromptInput U TextInput data (cm\<lparr>scrollExit := False\<rparr>)
      else let (k, consumed) = decodeCopyModeKey data in
        if pendingCharSearch cm \<noteq> 0 then
          (let cm1 = cm\<lparr>scrollExit := False\<rparr> in
           if k = 0x1B \<or> k < 0 \<or> k > 0xFF then ((ActionNone, consumed), cm1\<lparr>pendingCharSearch := 0, pendingCharSearchCount := 0\<rparr>)
           else let (count, cm2) = consumePendingCharCount cm1;
                    (action, cm3) = executeCharSearch (pendingCharSearch cm2) k count cm2
                in ((action, consumed), if action = ActionPanic then cm3 else cm3\<lparr>pendingCharSearch := 0\<rparr>))
        else let cm1 = (if isScrollKey k then cm else cm\<lparr>scrollExit := False\<rparr>); (action, cm2) = handleNormalKey U k cm1
             in ((action, consumed), cm2))"

text \<open>Every round takes at least one byte.\<close>

lemma csiParts_length: "csiParts data = Some (params, final, n) \<Longrightarrow> 3 \<le> n \<and> n \<le> length data"
  by (auto simp: csiParts_def Let_def split: if_splits)

lemma decodeCSI_consumes: "3 \<le> length data \<Longrightarrow> 1 \<le> snd (decodeCSI data) \<and> snd (decodeCSI data) \<le> length data"
proof (cases "csiParts data")
  case (Some p)
  obtain params final n where p: "p = (params, final, n)" by (cases p)
  then have "1 \<le> n" "n \<le> length data" using csiParts_length [of data params final n] Some by auto
  then show ?thesis if "3 \<le> length data" using that Some p by (simp add: decodeCSI_def)
qed (simp add: decodeCSI_def)

lemma decodeCopyModeKey_consumes: "data \<noteq> [] \<Longrightarrow> 1 \<le> snd (decodeCopyModeKey data) \<and> snd (decodeCopyModeKey data) \<le> length data"
  by (cases data; cases "tl data"; cases "tl (tl data)") (simp_all add: decodeCopyModeKey_def decodeCSI_consumes [of "a # b # c # l" for a b c l, simplified])

lemma handlePromptInput_consumes: "1 \<le> snd (fst (handlePromptInput U TextInput data cm))"
  by (auto simp: handlePromptInput_def Let_def split: prod.splits option.splits)

lemma handleInputChunk_consumes: "data \<noteq> [] \<Longrightarrow> 1 \<le> snd (fst (handleInputChunk U TextInput data cm))"
  using decodeCopyModeKey_consumes [of data] handlePromptInput_consumes
  by (auto simp: handleInputChunk_def Let_def split: prod.splits)

function inputLoop :: "unicodeTables \<Rightarrow> textInput \<Rightarrow> nat list \<Rightarrow> copyAction \<Rightarrow> CopyMode \<Rightarrow> copyAction \<times> CopyMode" where
  "inputLoop U TextInput data result cm =
     (if data = [] then (result, cm)
      else case handleInputChunk U TextInput data cm of
        ((action, consumed), cm1) \<Rightarrow>
          if action \<in> {ActionExit, ActionYank, ActionPanic} then (action, cm1)
          else inputLoop U TextInput (drop consumed data) (if action = ActionRedraw then ActionRedraw else result) cm1)"
  by pat_completeness auto

termination
proof (relation "measure (\<lambda>(U, T, data, r, cm). length data)", goal_cases)
  case (2 U TextInput data result cm p cm1 action consumed)
  then have "1 \<le> consumed" using handleInputChunk_consumes [of data U TextInput cm] by (metis fst_conv snd_conv)
  then show ?case using 2(1) by simp
qed simp

declare inputLoop.simps [simp del]

definition HandleInput :: "unicodeTables \<Rightarrow> textInput \<Rightarrow> nat list \<Rightarrow> CopyMode \<Rightarrow> copyAction \<times> CopyMode" where
  "HandleInput U TextInput data cm = inputLoop U TextInput data ActionNone cm"

end
