(* ===== verification/Copy_Laws.thy ===== *)
theory Copy_Laws
  imports Copy_Input State_Machine
begin

text \<open>
  The invariant of copy mode (the viewport is inside the buffer, the cursor inside the viewport,
  the current match exists), that every operation keeps it, and where the jumps end.
\<close>

section \<open>The invariant\<close>

definition match_ok :: "Match \<Rightarrow> bool" where
  "match_ok m \<longleftrightarrow> 0 \<le> LineIdx m \<and> 0 \<le> match_Col m"

definition cm_ok :: "CopyMode \<Rightarrow> bool" where
  "cm_ok cm \<longleftrightarrow> 1 \<le> cmWidth cm \<and> 1 \<le> cmHeight cm \<and> 0 \<le> oy cm \<and> oy cm \<le> maxOY cm \<and> 0 \<le> cy cm \<and> cy cm \<le> cmHeight cm - 1 \<and> 0 \<le> cx cm \<and>
     list_all match_ok (matches cm) \<and>
     (if matches cm = [] then matchIdx cm = - 1 else 0 \<le> matchIdx cm \<and> matchIdx cm < int (length (matches cm)))"

lemma clamp_bounds: "lo \<le> hi \<Longrightarrow> lo \<le> clamp v lo hi \<and> clamp v lo hi \<le> hi"
  by (simp add: clamp_def)

lemma clamp_id: "lo \<le> v \<Longrightarrow> v \<le> hi \<Longrightarrow> clamp v lo hi = v"
  by (simp add: clamp_def)

lemma maxOY_nonneg [simp]: "0 \<le> maxOY cm"
  by (simp add: maxOY_def ScrollbackLen_def)

lemma maxOY_simps [simp]:
  "maxOY (cm\<lparr>oy := a\<rparr>) = maxOY cm" "maxOY (cm\<lparr>cx := a\<rparr>) = maxOY cm" "maxOY (cm\<lparr>cy := a\<rparr>) = maxOY cm"
  "maxOY (cm\<lparr>cmWidth := a\<rparr>) = maxOY cm" "maxOY (cm\<lparr>cmHeight := a\<rparr>) = maxOY cm" "maxOY (cm\<lparr>matches := ms\<rparr>) = maxOY cm"
  "maxOY (cm\<lparr>matchIdx := a\<rparr>) = maxOY cm"
  by (simp_all add: maxOY_def)

lemma cm_ok_fields [simp]:
  "cm_ok (cm\<lparr>prompt := p\<rparr>) = cm_ok cm" "cm_ok (cm\<lparr>promptBuf := t\<rparr>) = cm_ok cm" "cm_ok (cm\<lparr>promptCursor := a\<rparr>) = cm_ok cm"
  "cm_ok (cm\<lparr>searchQuery := t\<rparr>) = cm_ok cm" "cm_ok (cm\<lparr>lastSearchForward := b\<rparr>) = cm_ok cm"
  "cm_ok (cm\<lparr>selecting := b\<rparr>) = cm_ok cm" "cm_ok (cm\<lparr>lineSelect := b\<rparr>) = cm_ok cm" "cm_ok (cm\<lparr>rectSelect := b\<rparr>) = cm_ok cm"
  "cm_ok (cm\<lparr>selStartX := a\<rparr>) = cm_ok cm" "cm_ok (cm\<lparr>selStartY := a\<rparr>) = cm_ok cm"
  "cm_ok (cm\<lparr>selEndX := a\<rparr>) = cm_ok cm" "cm_ok (cm\<lparr>selEndY := a\<rparr>) = cm_ok cm"
  "cm_ok (cm\<lparr>pendingCharSearch := a\<rparr>) = cm_ok cm" "cm_ok (cm\<lparr>pendingCharSearchCount := a\<rparr>) = cm_ok cm"
  "cm_ok (cm\<lparr>lastCharSearch := a\<rparr>) = cm_ok cm" "cm_ok (cm\<lparr>lastCharTarget := a\<rparr>) = cm_ok cm" "cm_ok (cm\<lparr>pendingCount := a\<rparr>) = cm_ok cm"
  "cm_ok (cm\<lparr>copyText := n\<rparr>) = cm_ok cm" "cm_ok (cm\<lparr>appendCopy := b\<rparr>) = cm_ok cm" "cm_ok (cm\<lparr>markSet := b\<rparr>) = cm_ok cm"
  "cm_ok (cm\<lparr>markX := a\<rparr>) = cm_ok cm" "cm_ok (cm\<lparr>markY := a\<rparr>) = cm_ok cm" "cm_ok (cm\<lparr>showPosition := b\<rparr>) = cm_ok cm"
  "cm_ok (cm\<lparr>scrollExit := b\<rparr>) = cm_ok cm"
  by (simp_all add: cm_ok_def maxOY_def)

lemma cm_ok_place:
  "cm_ok cm \<Longrightarrow> 0 \<le> o' \<Longrightarrow> o' \<le> maxOY cm \<Longrightarrow> 0 \<le> y \<Longrightarrow> y \<le> cmHeight cm - 1 \<Longrightarrow> 0 \<le> x \<Longrightarrow> cm_ok (cm\<lparr>oy := o', cy := y, cx := x\<rparr>)"
  by (simp add: cm_ok_def)

lemma cm_ok_oy [simp]: "cm_ok cm \<Longrightarrow> 0 \<le> o' \<Longrightarrow> o' \<le> maxOY cm \<Longrightarrow> cm_ok (cm\<lparr>oy := o'\<rparr>)"
  and cm_ok_cy [simp]: "cm_ok cm \<Longrightarrow> 0 \<le> y \<Longrightarrow> y \<le> cmHeight cm - 1 \<Longrightarrow> cm_ok (cm\<lparr>cy := y\<rparr>)"
  and cm_ok_cx [simp]: "cm_ok cm \<Longrightarrow> 0 \<le> x \<Longrightarrow> cm_ok (cm\<lparr>cx := x\<rparr>)"
  by (simp_all add: cm_ok_def)

lemma cm_okD:
  assumes "cm_ok cm"
  shows "1 \<le> cmWidth cm" "1 \<le> cmHeight cm" "0 \<le> oy cm" "oy cm \<le> maxOY cm" "0 \<le> cy cm" "cy cm \<le> cmHeight cm - 1" "0 \<le> cx cm"
  using assms by (simp_all add: cm_ok_def)

lemma cm_ok_updateSelection [simp]: "cm_ok (updateSelection cm) = cm_ok cm"
  by (simp add: updateSelection_def)

lemma updateSelection_cursor [simp]:
  "cx (updateSelection cm) = cx cm" "cy (updateSelection cm) = cy cm" "oy (updateSelection cm) = oy cm"
  "cmHeight (updateSelection cm) = cmHeight cm" "cmWidth (updateSelection cm) = cmWidth cm" "cmEmu (updateSelection cm) = cmEmu cm"
  "markX (updateSelection cm) = markX cm" "markY (updateSelection cm) = markY cm" "markSet (updateSelection cm) = markSet cm"
  by (simp_all add: updateSelection_def)

text \<open>The cursor is on a line of the buffer.\<close>

lemma cursorAbsLine_range: "cm_ok cm \<Longrightarrow> 0 \<le> cursorAbsLine cm \<and> cursorAbsLine cm < TotalLines cm"
  by (auto simp: cm_ok_def cursorAbsLine_def TotalLines_def maxOY_def)

section \<open>Jumps\<close>

lemma scrollToAbsolute_ok [simp]: "cm_ok cm \<Longrightarrow> cm_ok (scrollToAbsolute y x cm)"
  by (auto simp: scrollToAbsolute_def Let_def cm_ok_def clamp_def)

lemma scrollToAbsolute_line:
  assumes "cm_ok cm" "0 \<le> y" "y < TotalLines cm"
  shows "cursorAbsLine (scrollToAbsolute y x cm) = y"
  using assms by (auto simp: scrollToAbsolute_def cursorAbsLine_def TotalLines_def FirstVisibleLine_def maxOY_def cm_ok_def clamp_def Let_def
      ScrollbackLen_def max_def min_def)

lemma scrollToMatch_ok [simp]: "cm_ok cm \<Longrightarrow> cm_ok (scrollToMatch cm)"
proof -
  assume ok: "cm_ok cm"
  show ?thesis
  proof (cases "matchIdx cm < 0 \<or> matchIdx cm \<ge> int (length (matches cm))")
    case False
    let ?m = "matches cm ! nat (matchIdx cm)"
    have "match_ok ?m" using False ok by (auto simp: cm_ok_def list_all_length)
    then show ?thesis using ok False clamp_bounds [of 0 "maxOY cm"] clamp_bounds [of 0 "cmHeight cm - 1"]
      by (auto simp: scrollToMatch_def Let_def match_ok_def cm_ok_def)
  qed (use ok in \<open>auto simp: scrollToMatch_def\<close>)
qed

lemma scrollToMatch_cursor:
  assumes "cm_ok cm" "0 \<le> matchIdx cm" "m = matches cm ! nat (matchIdx cm)" "LineIdx m < TotalLines cm"
  shows "cursorAbsLine (scrollToMatch cm) = LineIdx m \<and> cx (scrollToMatch cm) = match_Col m"
proof -
  have i: "matchIdx cm < int (length (matches cm))" "match_ok m" using assms by (auto simp: cm_ok_def list_all_length split: if_splits)
  have h: "1 \<le> cmHeight cm" using assms(1) by (rule cm_okD)
  then have "0 \<le> go_div (cmHeight cm) 2" "go_div (cmHeight cm) 2 < cmHeight cm" by (simp_all add: go_div_def)
  then show ?thesis using i assms
    by (auto simp: scrollToMatch_def cursorAbsLine_def TotalLines_def maxOY_def cm_ok_def clamp_def Let_def match_ok_def ScrollbackLen_def max_def min_def)
qed

section \<open>Operations\<close>

lemma selection_ops_ok [simp]:
  "cm_ok (snd (StartSelection cm)) = cm_ok cm" "cm_ok (snd (ClearSelection cm)) = cm_ok cm"
  "cm_ok (snd (SelectLine cm)) = cm_ok cm" "cm_ok (snd (ToggleRectangleSelection cm)) = cm_ok cm"
  "cm_ok (queueCopyText t b cm) = cm_ok cm" "cm_ok (snd (ConsumeCopyText cm)) = cm_ok cm"
  "cm_ok (snd (consumeCount cm)) = cm_ok cm" "cm_ok (snd (consumePendingCharCount cm)) = cm_ok cm"
  "cm_ok (snd (startPrompt p cm)) = cm_ok cm" "cm_ok (SetScrollExit b cm) = cm_ok cm"
  by (simp_all add: StartSelection_def ClearSelection_def SelectLine_def ToggleRectangleSelection_def queueCopyText_def ConsumeCopyText_def
      consumeCount_def consumePendingCharCount_def startPrompt_def SetScrollExit_def Let_def)

lemma scroll_ops_ok [simp]:
  assumes "cm_ok cm"
  shows "cm_ok (snd (OtherEnd cm))" "cm_ok (snd (WheelScrollUp n cm))" "cm_ok (snd (WheelScrollDown n cm))"
    "cm_ok (snd (scrollBy d e cm))" "cm_ok (snd (scrollCursorToRow r cm))" "cm_ok (snd (jumpToMark cm))"
    "cm_ok (snd (stepLeft cm))" "cm_ok (snd (stepRight cm))"
proof -
  have c: "0 \<le> clamp v 0 (maxOY cm)" "clamp v 0 (maxOY cm) \<le> maxOY cm" for v by (simp_all add: clamp_def)
  have r: "0 \<le> clamp v 0 (cmHeight cm - 1)" "clamp v 0 (cmHeight cm - 1) \<le> cmHeight cm - 1" for v
    using cm_okD(2) [OF assms] by (simp_all add: clamp_def)
  show "cm_ok (snd (OtherEnd cm))" using assms by (simp add: OtherEnd_def Let_def)
  show "cm_ok (snd (WheelScrollUp n cm))" "cm_ok (snd (WheelScrollDown n cm))" "cm_ok (snd (scrollBy d e cm))"
    using assms c by (simp_all add: WheelScrollUp_def WheelScrollDown_def scrollBy_def Let_def)
  show "cm_ok (snd (scrollCursorToRow r cm))" for r using assms c r by (simp add: scrollCursorToRow_def Let_def)
  show "cm_ok (snd (jumpToMark cm))" using assms by (simp add: jumpToMark_def Let_def)
  show "cm_ok (snd (stepLeft cm))" "cm_ok (snd (stepRight cm))" using assms cm_okD(7) [OF assms] by (simp_all add: stepLeft_def stepRight_def)
qed

lemma SetCursor_ok [simp]: "cm_ok cm \<Longrightarrow> cm_ok (snd (SetCursor c r cm))"
proof -
  assume ok: "cm_ok cm"
  have "0 \<le> clamp r 0 (cmHeight cm - 1) \<and> clamp r 0 (cmHeight cm - 1) \<le> cmHeight cm - 1" using clamp_bounds [of 0 "cmHeight cm - 1" r] cm_okD(2) [OF ok] by simp
  moreover have "0 \<le> clamp c 0 m" for m by (simp add: clamp_def)
  ultimately show ?thesis using ok by (simp add: SetCursor_def Let_def)
qed

lemma Resize_ok [simp]: "cm_ok cm \<Longrightarrow> 1 \<le> w \<Longrightarrow> 1 \<le> h \<Longrightarrow> cm_ok (Resize w h cm)"
  by (auto simp: Resize_def Let_def cm_ok_def clamp_def)

lemma move_ok [simp]: "cm_ok cm \<Longrightarrow> cm_ok (snd (moveDown cm))" "cm_ok cm \<Longrightarrow> cm_ok (snd (moveUp cm))"
  by (auto simp: moveDown_def moveUp_def cm_ok_def)

lemma move_ok': "moveDown cm = (b, cm') \<Longrightarrow> cm_ok cm \<Longrightarrow> cm_ok cm'" "moveUp cm = (b, cm') \<Longrightarrow> cm_ok cm \<Longrightarrow> cm_ok cm'"
  by (metis move_ok snd_conv)+

lemma repeatMotion_step_ok:
  assumes "\<And>cm. cm_ok cm \<Longrightarrow> cm_ok (snd (move cm))" "cm_ok cm"
  shows "cm_ok (snd (snd ((repeatMotion_step move ^^ n) (s, m, cm))))"
proof (induction n)
  case (Suc n)
  have "cm_ok (snd (snd st)) \<Longrightarrow> cm_ok (snd (snd (repeatMotion_step move st)))" for st
    using assms(1) [of "snd (snd st)"] by (cases st) (auto simp: repeatMotion_step_def split: prod.splits)
  then show ?case using Suc by simp
qed (simp add: assms)

lemma repeatMotion_ok: "(\<And>cm. cm_ok cm \<Longrightarrow> cm_ok (snd (move cm))) \<Longrightarrow> cm_ok cm \<Longrightarrow> cm_ok (snd (repeatMotion n move cm))"
  using repeatMotion_step_ok [of move cm "nat n" False False]
  by (auto simp: repeatMotion_def split: prod.splits)

lemma repeatTimes_ok: "(\<And>cm. cm_ok cm \<Longrightarrow> cm_ok (snd (f cm))) \<Longrightarrow> cm_ok cm \<Longrightarrow> cm_ok (snd (repeatTimes n a f cm))"
proof (induction n arbitrary: a cm)
  case (Suc n)
  then have "cm_ok (snd (f cm))" by simp
  then show ?case using Suc.IH [OF Suc.prems(1)] by (auto simp: Let_def split: prod.splits)
qed simp

lemma repeatAction_ok: "(\<And>cm. cm_ok cm \<Longrightarrow> cm_ok (snd (f cm))) \<Longrightarrow> cm_ok cm \<Longrightarrow> cm_ok (snd (repeatAction n f cm))"
  by (simp add: repeatAction_def repeatTimes_ok)

lemma selectLines_ok [simp]: "cm_ok cm \<Longrightarrow> cm_ok (selectLines n cm)"
  using repeatMotion_step_ok [of moveDown "snd (SelectLine cm)" "nat (n - 1)" False False]
  by (auto simp: selectLines_def Let_def split: prod.splits)

section \<open>Words\<close>

text \<open>The cursor of a word motion carries the line it is on.\<close>

definition mc_ok :: "motionCursor \<Rightarrow> bool" where
  "mc_ok mc \<longleftrightarrow> cm_ok (mc_cm mc) \<and> mc_line mc = cursorLineRunes (mc_cm mc) \<and> mc_pos mc \<le> int (length (mc_line mc))"

lemma newMotionCursor_ok: "cm_ok cm \<Longrightarrow> mc_ok (newMotionCursor cm)" "cm_ok cm \<Longrightarrow> 0 \<le> mc_pos (newMotionCursor cm)"
  by (auto simp: newMotionCursor_def mc_ok_def Let_def cm_ok_def)

lemma mc_moveDown_ok: "mc_ok mc \<Longrightarrow> mc_moveDown 0 mc = (True, mc') \<Longrightarrow> mc_ok mc' \<and> mc_pos mc' = 0"
  by (auto dest: move_ok' simp: mc_moveDown_def mc_ok_def split: prod.splits if_splits)

lemma mc_moveDown_cm: "mc_ok mc \<Longrightarrow> cm_ok (mc_cm (snd (mc_moveDown p mc)))"
  by (auto dest: move_ok' simp: mc_moveDown_def mc_ok_def split: prod.splits)

lemma mc_moveUpToEnd_ok: "mc_ok mc \<Longrightarrow> mc_moveUpToEnd mc = (True, mc') \<Longrightarrow> mc_ok mc'"
  by (auto dest: move_ok' simp: mc_moveUpToEnd_def mc_ok_def split: prod.splits if_splits)

lemma mc_moveUpToEnd_cm: "mc_ok mc \<Longrightarrow> cm_ok (mc_cm (snd (mc_moveUpToEnd mc)))"
  by (auto dest: move_ok' simp: mc_moveUpToEnd_def mc_ok_def split: prod.splits)

lemma skipForward_ok: "mc_ok mc \<Longrightarrow> 0 \<le> mc_pos mc \<Longrightarrow> mc_ok (skipForward P mc) \<and> 0 \<le> mc_pos (skipForward P mc)"
  using length_takeWhile_le [of P "drop (nat (mc_pos mc)) (mc_line mc)"] by (auto simp: skipForward_def mc_ok_def)

lemma skipForward_stop:
  assumes "0 \<le> mc_pos mc" "mc_pos (skipForward P mc) < int (length (mc_line mc))"
  shows "\<not> P (mc_line mc ! nat (mc_pos (skipForward P mc)))"
proof -
  let ?d = "drop (nat (mc_pos mc)) (mc_line mc)" and ?n = "length (takeWhile P (drop (nat (mc_pos mc)) (mc_line mc)))"
  have "?n < length ?d" using assms by (auto simp: skipForward_def)
  then have "\<not> P (?d ! ?n)" by (rule nth_length_takeWhile)
  moreover have "nat (mc_pos mc) + ?n = nat (mc_pos (skipForward P mc))" using assms(1) by (simp add: skipForward_def nat_add_distrib)
  ultimately show ?thesis using assms by (simp add: skipForward_def nth_drop)
qed

lemma seekForward_ok:
  assumes "mc_ok mc" "0 \<le> mc_pos mc" "seekForwardNonWhitespace c mc = (found, mc')"
  shows "cm_ok (mc_cm mc') \<and> (found \<longrightarrow> mc_ok mc' \<and> 0 \<le> mc_pos mc' \<and> mc_pos mc' < int (length (mc_line mc')) \<and>
           c (mc_line mc' ! nat (mc_pos mc')) \<noteq> wordClassWhitespace)"
  using assms
proof (induction c mc rule: seekForwardNonWhitespace.induct)
  case (1 c mc)
  let ?P = "\<lambda>r. c r = wordClassWhitespace"
  let ?m = "skipForward ?P mc"
  have m: "mc_ok ?m" "0 \<le> mc_pos ?m" "mc_line ?m = mc_line mc" using skipForward_ok [of mc ?P] 1(2,3) by (simp_all add: skipForward_def)
  show ?case
  proof (cases "mc_pos ?m < int (length (mc_line ?m))")
    case True
    then have "(found, mc') = (True, ?m)" using 1(4) by (simp add: seekForwardNonWhitespace.simps [of c mc] Let_def)
    moreover have "\<not> ?P (mc_line mc ! nat (mc_pos ?m))" using skipForward_stop [OF 1(3), of ?P] True m(3) by simp
    ultimately show ?thesis using True m by (auto simp: mc_ok_def)
  next
    case False
    obtain ok m2 where d: "mc_moveDown 0 ?m = (ok, m2)" by (metis surj_pair)
    show ?thesis
    proof (cases ok)
      case True
      then have "mc_ok m2" "mc_pos m2 = 0" using mc_moveDown_ok [OF m(1)] d by auto
      moreover have "seekForwardNonWhitespace c m2 = (found, mc')"
        using 1(4) False d True by (simp add: seekForwardNonWhitespace.simps [of c mc] Let_def)
      ultimately show ?thesis using 1(1) [OF refl False d [symmetric] True] by simp
    next
      case no: False
      then have "(found, mc') = (False, m2)" using 1(4) False d by (simp add: seekForwardNonWhitespace.simps [of c mc] Let_def)
      then show ?thesis using mc_moveDown_cm [OF m(1), of 0] d by simp
    qed
  qed
qed

lemma backRun_le: "backRun P n \<le> n"
  by (induction n) (auto intro: le_SucI)

lemma backRun_stop: "0 < backRun P n \<Longrightarrow> \<not> P (backRun P n - 1)"
  by (induction n) (auto split: if_splits)

lemma foreRun_ge: "i \<le> foreRun P i j"
  by (simp add: foreRun_def)

lemma foreRun_le: "i \<le> j \<Longrightarrow> foreRun P i j \<le> j"
  using length_takeWhile_le [of P "[i..<j]"] by (simp add: foreRun_def)

lemma seekBackward_ok:
  assumes "mc_ok mc" "seekBackwardNonWhitespace c mc = (found, mc')"
  shows "cm_ok (mc_cm mc') \<and> (found \<longrightarrow> mc_ok mc' \<and> 0 \<le> mc_pos mc' \<and> mc_pos mc' < int (length (mc_line mc')) \<and>
           c (mc_line mc' ! nat (mc_pos mc')) \<noteq> wordClassWhitespace)"
  using assms
proof (induction c mc rule: seekBackwardNonWhitespace.induct)
  case (1 c mc)
  let ?P = "\<lambda>i. i \<ge> length (mc_line mc) \<or> c (mc_line mc ! i) = wordClassWhitespace"
  let ?n = "backRun ?P (nat (mc_pos mc + 1))"
  let ?m = "mc\<lparr>mc_pos := int ?n - 1\<rparr>"
  have "int ?n \<le> mc_pos mc + 1 \<or> ?n = 0" using backRun_le [of ?P "nat (mc_pos mc + 1)"] by auto
  then have m: "mc_ok ?m" using 1(2) by (auto simp: mc_ok_def)
  show ?case
  proof (cases "?n = 0")
    case False
    then have "(found, mc') = (True, ?m)" using 1(3) by (simp add: seekBackwardNonWhitespace.simps [of c mc] Let_def)
    moreover have "\<not> ?P (?n - 1)" using backRun_stop [of ?P "nat (mc_pos mc + 1)"] False by simp
    moreover have "nat (int ?n - 1) = ?n - 1" by simp
    ultimately show ?thesis using m False by (auto simp: mc_ok_def)
  next
    case True
    obtain ok m2 where d: "mc_moveUpToEnd ?m = (ok, m2)" by (metis surj_pair)
    show ?thesis
    proof (cases ok)
      case up: True
      then have "mc_ok m2" using mc_moveUpToEnd_ok [OF m] d by auto
      moreover have "seekBackwardNonWhitespace c m2 = (found, mc')"
        using 1(3) True d up by (simp add: seekBackwardNonWhitespace.simps [of c mc] Let_def)
      ultimately show ?thesis using 1(1) [OF refl refl refl _ d [symmetric] up] True by simp
    next
      case False
      then have "(found, mc') = (False, m2)" using 1(3) True d by (simp add: seekBackwardNonWhitespace.simps [of c mc] Let_def)
      then show ?thesis using mc_moveUpToEnd_cm [OF m] d by simp
    qed
  qed
qed

text \<open>A search for a word only scrolls: giving up restores the state.\<close>

definition scrolled :: "CopyMode \<Rightarrow> CopyMode \<Rightarrow> bool" where
  "scrolled cm cm' \<longleftrightarrow> cm' = cm\<lparr>oy := oy cm', cy := cy cm'\<rparr>"

lemma scrolled_refl [simp]: "scrolled cm cm"
  by (simp add: scrolled_def)

lemma scrolled_trans: "scrolled a b \<Longrightarrow> scrolled b c \<Longrightarrow> scrolled a c"
  by (cases a; cases b; cases c) (simp add: scrolled_def)

lemma move_scrolled: "moveDown cm = (b, cm') \<Longrightarrow> scrolled cm cm'" "moveUp cm = (b, cm') \<Longrightarrow> scrolled cm cm'"
  by (auto simp: moveDown_def moveUp_def scrolled_def split: if_splits)

lemma mc_move_scrolled:
  "mc_moveDown p mc = (b, mc') \<Longrightarrow> scrolled (mc_cm mc) (mc_cm mc')"
  "mc_moveUpToEnd mc = (b, mc') \<Longrightarrow> scrolled (mc_cm mc) (mc_cm mc')"
  by (auto simp: mc_moveDown_def mc_moveUpToEnd_def split: prod.splits if_splits dest: move_scrolled)

lemma seekForward_scrolled: "seekForwardNonWhitespace c mc = (found, mc') \<Longrightarrow> scrolled (mc_cm mc) (mc_cm mc')"
proof (induction c mc rule: seekForwardNonWhitespace.induct)
  case (1 c mc)
  let ?m = "skipForward (\<lambda>r. c r = wordClassWhitespace) mc"
  obtain ok m2 where d: "mc_moveDown 0 ?m = (ok, m2)" by (metis surj_pair)
  have m: "mc_cm ?m = mc_cm mc" by (simp add: skipForward_def)
  then have "scrolled (mc_cm mc) (mc_cm m2)" using mc_move_scrolled(1) [OF d] by simp
  then show ?case using 1(2) 1(1) [OF refl _ d [symmetric]] m d
    by (auto simp: seekForwardNonWhitespace.simps [of c mc] Let_def split: if_splits intro: scrolled_trans)
qed

lemma seekBackward_scrolled: "seekBackwardNonWhitespace c mc = (found, mc') \<Longrightarrow> scrolled (mc_cm mc) (mc_cm mc')"
proof (induction c mc rule: seekBackwardNonWhitespace.induct)
  case (1 c mc)
  let ?m = "mc\<lparr>mc_pos := int (backRun (\<lambda>i. i \<ge> length (mc_line mc) \<or> c (mc_line mc ! i) = wordClassWhitespace) (nat (mc_pos mc + 1))) - 1\<rparr>"
  obtain ok m2 where d: "mc_moveUpToEnd ?m = (ok, m2)" by (metis surj_pair)
  then have "scrolled (mc_cm mc) (mc_cm m2)" using mc_move_scrolled(2) [OF d] by simp
  then show ?case using 1(2) 1(1) [OF refl refl refl _ d [symmetric]] d
    by (auto simp: seekBackwardNonWhitespace.simps [of c mc] Let_def split: if_splits intro: scrolled_trans)
qed

lemma restoreCursor_scrolled: "scrolled cm cm' \<Longrightarrow> restoreCursor cm cm' = cm"
  by (cases cm; cases cm') (simp add: restoreCursor_def scrolled_def)

lemma finishWordMotion_ok: "cm_ok cm \<Longrightarrow> 0 \<le> c \<Longrightarrow> cm_ok (snd (finishWordMotion c cm))"
  by (simp add: finishWordMotion_def)

lemma giveUp_ok:
  assumes "cm_ok cm" "scrolled cm cm'"
  shows "cm_ok (snd (failWordMotion cm cm'))" "0 \<le> c \<Longrightarrow> cm_ok (snd (restoreWordMotion cm c cm'))"
  using assms by (simp_all add: failWordMotion_def restoreWordMotion_def restoreCursor_scrolled finishWordMotion_ok)

text \<open>The start of the next word: where the cursor goes, or that nothing changes.\<close>

lemma nextWordStart_cases:
  assumes ok: "cm_ok cm"
  obtains (fail) "nextWordStart c cm = (ActionNone, cm)"
  | (word) mc where "nextWordStart c cm = finishWordMotion (mc_pos mc) (mc_cm mc)" "mc_ok mc" "0 \<le> mc_pos mc"
      "mc_pos mc < int (length (mc_line mc))" "c (mc_line mc ! nat (mc_pos mc)) \<noteq> wordClassWhitespace" "scrolled cm (mc_cm mc)"
proof -
  let ?m0 = "newMotionCursor cm"
  define m1 where "m1 = (if mc_pos ?m0 < int (length (mc_line ?m0)) then
               (let class = c (mc_line ?m0 ! nat (mc_pos ?m0)) in
                if class \<noteq> wordClassWhitespace then skipForward (\<lambda>r. c r = class) ?m0 else ?m0) else ?m0)"
  have m0: "mc_ok ?m0" "0 \<le> mc_pos ?m0" using newMotionCursor_ok [OF ok] by simp_all
  then have m1: "mc_ok m1" "0 \<le> mc_pos m1" unfolding m1_def Let_def using skipForward_ok [of ?m0] by simp_all
  have cm: "mc_cm m1 = cm" by (simp add: m1_def Let_def skipForward_def newMotionCursor_def)
  obtain found mc where s: "seekForwardNonWhitespace c m1 = (found, mc)" by (metis surj_pair)
  have sc: "scrolled cm (mc_cm mc)" using seekForward_scrolled [OF s] cm by simp
  have r: "nextWordStart c cm = (if \<not> found then failWordMotion cm (mc_cm mc) else finishWordMotion (mc_pos mc) (mc_cm mc))"
    using s by (simp add: nextWordStart_def m1_def Let_def)
  show thesis
  proof (cases found)
    case True
    then show ?thesis using word [of mc] seekForward_ok [OF m1 s] r sc by simp
  qed (use fail r sc in \<open>simp add: failWordMotion_def restoreCursor_scrolled\<close>)
qed

lemma nextWordStart_ok [simp]:
  assumes "cm_ok cm"
  shows "cm_ok (snd (nextWordStart c cm))"
  using assms by (rule nextWordStart_cases [of cm c]) (simp_all add: assms finishWordMotion_ok mc_ok_def)

lemma previousWordStart_ok [simp]:
  assumes ok: "cm_ok cm"
  shows "cm_ok (snd (previousWordStart c sticky cm))"
proof -
  let ?m = "(newMotionCursor cm)\<lparr>mc_pos := mc_pos (newMotionCursor cm) - 1\<rparr>"
  have m: "mc_ok ?m" using newMotionCursor_ok(1) [OF ok] by (auto simp: mc_ok_def)
  obtain found mc where s: "seekBackwardNonWhitespace c ?m = (found, mc)" by (metis surj_pair)
  have "scrolled cm (mc_cm mc)" using seekBackward_scrolled [OF s] by (simp add: newMotionCursor_def Let_def)
  then show ?thesis using s seekBackward_ok [OF m s] giveUp_ok [OF ok]
    by (auto simp: previousWordStart_def Let_def finishWordMotion_ok)
qed

lemma mc_stepForward_ok:
  assumes "mc_ok mc" "0 \<le> mc_pos mc" "mc_stepForward mc = (b, mc')"
  shows "cm_ok (mc_cm mc') \<and> scrolled (mc_cm mc) (mc_cm mc') \<and> (b \<longrightarrow> mc_ok mc' \<and> 0 \<le> mc_pos mc')"
  using assms mc_moveDown_cm [of mc 0] mc_moveDown_ok [of mc mc'] mc_move_scrolled(1) [of 0 mc b mc']
  by (auto simp: mc_stepForward_def mc_ok_def split: if_splits)

lemma nextWordEnd_ok [simp]:
  assumes ok: "cm_ok cm"
  shows "cm_ok (snd (nextWordEnd c sticky cm))"
proof -
  let ?m0 = "newMotionCursor cm"
  define st where "st = (if mc_pos ?m0 < int (length (mc_line ?m0)) \<and> c (mc_line ?m0 ! nat (mc_pos ?m0)) \<noteq> wordClassWhitespace
             then mc_stepForward ?m0 else (True, ?m0))"
  obtain stepped m1 where m1: "st = (stepped, m1)" by (metis surj_pair)
  obtain found mc where s: "seekForwardNonWhitespace c m1 = (found, mc)" by (metis surj_pair)
  have cm: "mc_cm ?m0 = cm" by (simp add: newMotionCursor_def Let_def)
  have k: "cm_ok (mc_cm m1)" "scrolled cm (mc_cm m1)" "stepped \<Longrightarrow> mc_ok m1 \<and> 0 \<le> mc_pos m1"
    using mc_stepForward_ok [of ?m0 stepped m1] ok m1 cm newMotionCursor_ok [OF ok] by (auto simp: st_def split: if_splits)
  have sc: "scrolled cm (mc_cm mc)" using seekForward_scrolled [OF s] k(2) by (rule scrolled_trans [rotated])
  have r: "nextWordEnd c sticky cm =
     (if \<not> stepped then failWordMotion cm (mc_cm m1)
      else if \<not> found then (if sticky then restoreWordMotion cm (max 0 (int (length (mc_line mc)) - 1)) (mc_cm mc) else failWordMotion cm (mc_cm mc))
      else finishWordMotion (clamp (int (foreRun (\<lambda>i. c (mc_line mc ! (i + 1)) = c (mc_line mc ! nat (mc_pos mc))) (nat (mc_pos mc)) (length (mc_line mc) - 1)))
              0 (cmWidth cm - 1)) (mc_cm mc))"
    using m1 s by (simp add: nextWordEnd_def st_def [symmetric] Let_def)
  have "0 \<le> clamp v 0 (cmWidth cm - 1)" for v by (simp add: clamp_def)
  moreover have "stepped \<Longrightarrow> cm_ok (mc_cm mc)" using seekForward_ok [OF _ _ s] k by simp
  ultimately show ?thesis using r giveUp_ok [OF ok] sc k by (simp add: finishWordMotion_ok)
qed

lemma runWordMotion_ok [simp]: "cm_ok cm \<Longrightarrow> cm_ok (snd (runWordMotion U k cm))"
  by (simp add: runWordMotion_def)

lemma SelectWord_ok [simp]: "cm_ok cm \<Longrightarrow> cm_ok (snd (SelectWord U cm))"
  by (simp add: SelectWord_def Let_def split: option.splits prod.splits)

section \<open>Search\<close>

definition occursAt :: "runes_text \<Rightarrow> runes_text \<Rightarrow> nat \<Rightarrow> bool" where
  "occursAt q l p \<longleftrightarrow> p + length q \<le> length l \<and> take (length q) (drop p l) = q"

lemma lineMatches_sound:
  "m \<in> set (lineMatches i q l idx) \<Longrightarrow>
     \<exists>p. m = \<lparr>LineIdx = i, match_Col = int p, match_Len = int (length q)\<rparr> \<and> idx \<le> p \<and> occursAt q l p"
proof (induction i q l idx rule: lineMatches.induct)
  case (1 i q l idx)
  have n: "\<not> (q = [] \<or> idx + length q > length l)" using 1(3) by (subst (asm) lineMatches.simps) (simp split: if_splits)
  show ?case
  proof (cases "take (length q) (drop idx l) = q")
    case True
    then consider "m = \<lparr>LineIdx = i, match_Col = int idx, match_Len = int (length q)\<rparr>" | "m \<in> set (lineMatches i q l (idx + length q))"
      using 1(3) n by (subst (asm) lineMatches.simps) auto
    then show ?thesis using 1(1) [OF n True] True n by cases (auto simp: occursAt_def)
  next
    case False
    then have "m \<in> set (lineMatches i q l (idx + 1))" using 1(3) n by (subst (asm) lineMatches.simps) simp
    then show ?thesis using 1(2) [OF n False] by auto
  qed
qed

lemma lineMatches_complete:
  "occursAt q l p \<Longrightarrow> q \<noteq> [] \<Longrightarrow> idx \<le> p \<Longrightarrow>
     \<exists>m \<in> set (lineMatches i q l idx). match_Col m \<le> int p \<and> int p < match_Col m + match_Len m"
proof (induction i q l idx rule: lineMatches.induct)
  case (1 i q l idx)
  have n: "\<not> (q = [] \<or> idx + length q > length l)" using 1(3-5) by (auto simp: occursAt_def)
  show ?case
  proof (cases "take (length q) (drop idx l) = q")
    case True
    then show ?thesis using 1(1) [OF n True 1(3,4)] n 1(5) by (subst lineMatches.simps) (cases "p < idx + length q", auto)
  next
    case False
    then have "idx + 1 \<le> p" using 1(3,5) by (cases "idx = p") (auto simp: occursAt_def)
    then show ?thesis using 1(2) [OF n False 1(3,4)] n False by (subst lineMatches.simps) auto
  qed
qed

lemma allMatches_sound:
  assumes "m \<in> set (allMatches U q cm)"
  shows "0 \<le> LineIdx m \<and> LineIdx m < TotalLines cm \<and> 0 \<le> match_Col m \<and> match_Len m = int (length q) \<and>
    occursAt (map (ToLower U) q) (map (ToLower U) (lineText (LineIdx m) cm)) (nat (match_Col m))"
  using assms by (auto simp: allMatches_def dest!: lineMatches_sound)

lemma allMatches_ok: "list_all match_ok (allMatches U q cm)"
  using allMatches_sound [of _ U q cm] by (auto simp: list_all_iff match_ok_def)

lemma firstIndex_range: "l \<noteq> [] \<Longrightarrow> 0 \<le> firstIndex P l 0 \<and> firstIndex P l 0 < int (length l)"
  by (auto simp: firstIndex_def Let_def)

lemma lastIndex_range: "l \<noteq> [] \<Longrightarrow> 0 \<le> lastIndex P l (int (length l) - 1) \<and> lastIndex P l (int (length l) - 1) < int (length l)"
  using backRun_le [of "\<lambda>i. \<not> P (l ! i)" "length l"] by (auto simp: lastIndex_def Let_def Suc_le_eq neq_Nil_conv)

lemma runSearch_ok [simp]:
  assumes "cm_ok cm"
  shows "cm_ok (runSearch U fw cm)"
proof -
  let ?ms = "allMatches U (searchQuery cm) (cm\<lparr>matches := [], matchIdx := - 1\<rparr>)"
  have e: "cm_ok (cm\<lparr>matches := [], matchIdx := - 1\<rparr>)" "cm_ok (cm\<lparr>matchIdx := - 1, matches := []\<rparr>)"
    using assms by (simp_all add: cm_ok_def maxOY_def)
  have k: "cm_ok (cm\<lparr>matches := ?ms, lastSearchForward := b, matchIdx := i\<rparr>)" if "?ms \<noteq> []" "0 \<le> i" "i < int (length ?ms)" for i b
    using assms that allMatches_ok by (simp add: cm_ok_def maxOY_def)
  show ?thesis
  proof (cases "searchQuery cm = [] \<or> ?ms = []")
    case True
    then show ?thesis using e by (auto simp: runSearch_def Let_def)
  next
    case False
    then show ?thesis using k firstIndex_range [of ?ms] lastIndex_range [of ?ms]
      by (auto simp: runSearch_def Let_def intro!: scrollToMatch_ok)
  qed
qed

lemma nextMatch_ok [simp]: "cm_ok cm \<Longrightarrow> cm_ok (nextMatch cm)" "cm_ok cm \<Longrightarrow> cm_ok (prevMatch cm)"
proof -
  assume ok: "cm_ok cm"
  have "cm_ok (cm\<lparr>matchIdx := go_mod i (int (length (matches cm)))\<rparr>)" if "0 \<le> i" "matches cm \<noteq> []" for i
    using ok that pos_mod_bound [of "int (length (matches cm))" i] by (simp add: cm_ok_def)
  moreover have "matches cm \<noteq> [] \<Longrightarrow> 0 \<le> matchIdx cm + 1" "matches cm \<noteq> [] \<Longrightarrow> 0 \<le> matchIdx cm - 1 + int (length (matches cm))"
    using ok by (auto simp: cm_ok_def neq_Nil_conv)
  ultimately show "cm_ok (nextMatch cm)" "cm_ok (prevMatch cm)" using ok
    by (auto simp: nextMatch_def prevMatch_def simp del: go_mod_nonneg intro!: scrollToMatch_ok)
qed

lemma searchAgain_ok [simp]: "cm_ok cm \<Longrightarrow> cm_ok (searchAgain b cm)"
  by (simp add: searchAgain_def Let_def)

lemma searchWordUnderCursor_ok [simp]: "cm_ok cm \<Longrightarrow> cm_ok (snd (searchWordUnderCursor U b cm))"
  by (simp add: searchWordUnderCursor_def Let_def)

section \<open>Characters, paragraphs, brackets\<close>

lemma foreRun_hit: "foreRun P i j < j \<Longrightarrow> \<not> P (foreRun P i j)"
  using nth_length_takeWhile [of P "[i..<j]"] by (simp add: foreRun_def)

lemma findCharOnLine_nonneg: "0 \<le> cx cm \<Longrightarrow> findCharOnLine cmd r cm = FoundAt c \<Longrightarrow> 0 \<le> c"
  by (auto simp: findCharOnLine_def Let_def split: if_splits charHit.splits)

lemma charSearchTimes_ok: "cm_ok cm \<Longrightarrow> cm_ok (snd (charSearchTimes n cmd r cm))"
proof (induction n arbitrary: cm)
  case (Suc n)
  then show ?case using findCharOnLine_nonneg [of cm cmd r] cm_okD(7) [of cm] by (auto split: charHit.splits)
qed simp

lemma executeCharSearch_ok [simp]: "cm_ok cm \<Longrightarrow> cm_ok (snd (executeCharSearch cmd t n cm))"
  using charSearchTimes_ok [of cm "nat (if n \<le> 0 then 1 else n)" cmd "nat t"] cm_okD(7) [of cm]
  by (auto simp: executeCharSearch_def Let_def split: prod.splits charHit.splits)

lemma repeatCharSearch_ok [simp]: "cm_ok cm \<Longrightarrow> cm_ok (snd (repeatCharSearch b cm))"
  using executeCharSearch_ok [of cm "if b then reverseCommand (lastCharSearch cm) else lastCharSearch cm" "lastCharTarget cm" 1]
  by (auto simp: repeatCharSearch_def Let_def split: prod.splits simp del: executeCharSearch_ok)

lemma paragraph_ok [simp]: "cm_ok cm \<Longrightarrow> cm_ok (snd (previousParagraph cm))" "cm_ok cm \<Longrightarrow> cm_ok (snd (nextParagraph cm))"
  by (simp_all add: previousParagraph_def nextParagraph_def Let_def)

lemma matchingBracket_ok [simp]: "cm_ok cm \<Longrightarrow> cm_ok (snd (matchingBracket cm))"
  by (auto simp: matchingBracket_def split: option.splits)

section \<open>Keys\<close>

lemma placed_at_ok:
  "cm_ok cm \<Longrightarrow> 0 \<le> o' \<Longrightarrow> o' \<le> maxOY cm \<Longrightarrow> 0 \<le> y \<Longrightarrow> y \<le> cmHeight cm - 1 \<Longrightarrow> 0 \<le> x \<Longrightarrow> cm_ok (snd (placed_at o' y x cm))"
  by (simp add: placed_at_def cm_ok_place)

lemma lineCols_nonneg [simp]: "0 \<le> lineEndCol cm" "0 \<le> firstNonBlankCol cm"
  by (simp_all add: lineEndCol_def firstNonBlankCol_def Let_def)

lemma handleLineMotionKey_ok:
  assumes ok: "cm_ok cm" and r: "handleLineMotionKey k n cm = Some r"
  shows "cm_ok (snd r)"
proof -
  have h: "0 \<le> go_div (cmHeight cm - 1) 2" "go_div (cmHeight cm - 1) 2 \<le> cmHeight cm - 1" using cm_okD(2) [OF ok] by simp_all
  have p: "cm_ok (snd (placed_at o' y x cm))" if "0 \<le> o'" "o' \<le> maxOY cm" "0 \<le> y" "y \<le> cmHeight cm - 1" "0 \<le> x" for o' y x
    using placed_at_ok [OF ok] that by simp
  have m: "cm_ok (snd (repeatMotion n moveDown cm))" "cm_ok (snd (repeatMotion n moveUp cm))"
    "cm_ok (snd (repeatAction n stepLeft cm))" "cm_ok (snd (repeatAction n stepRight cm))"
    using ok by (simp_all add: repeatMotion_ok repeatAction_ok)
  show ?thesis
    using r [symmetric] ok m cm_okD [OF ok] p h
    by (simp add: handleLineMotionKey_def split: if_splits)
qed

lemma handleMotionKey_ok:
  assumes ok: "cm_ok cm" and r: "handleMotionKey U k n cm = Some r"
  shows "cm_ok (snd r)"
proof -
  have w: "cm_ok (snd r)" if "handleWordMotionKey U k n cm = Some r"
    using that [symmetric] ok by (simp add: handleWordMotionKey_def repeatAction_ok split: if_splits)
  have p: "cm_ok (snd r)" if "handleParagraphMotionKey k n cm = Some r"
    using that [symmetric] ok by (simp add: handleParagraphMotionKey_def repeatAction_ok split: if_splits)
  have j: "cm_ok (snd r)" if "handleSearchJumpMotionKey U k n cm = Some r"
    using that [symmetric] ok by (simp add: handleSearchJumpMotionKey_def repeatAction_ok split: if_splits)
  show ?thesis using r w p j handleLineMotionKey_ok [OF ok] by (auto simp: handleMotionKey_def split: option.splits)
qed

lemma handleNormalKey_ok [simp]:
  assumes "cm_ok cm"
  shows "cm_ok (snd (handleNormalKey U k cm))"
proof -
  obtain n cm1 where c: "consumeCount cm = (n, cm1)" by (metis surj_pair)
  then have ok: "cm_ok cm1" using selection_ops_ok(7) [of cm] assms by simp
  show ?thesis using assms c ok handleMotionKey_ok [OF ok]
    by (simp add: handleNormalKey_def split: option.splits)
qed

lemma finishPrompt_ok [simp]: "cm_ok cm \<Longrightarrow> cm_ok (finishPrompt U cm)"
  by (simp add: finishPrompt_def Let_def clamp_def split: promptMode.splits option.splits)

lemma editPrompt_ok [simp]: "cm_ok (snd (editPrompt T msg cm)) = cm_ok cm"
  by (simp add: editPrompt_def Let_def split: prod.splits)

lemma ok_results:
  "editPrompt T msg cm = (a, cm') \<Longrightarrow> cm_ok cm \<Longrightarrow> cm_ok cm'" "handleNormalKey U k cm = (a, cm') \<Longrightarrow> cm_ok cm \<Longrightarrow> cm_ok cm'"
  "executeCharSearch c t n cm = (a, cm') \<Longrightarrow> cm_ok cm \<Longrightarrow> cm_ok cm'" "consumePendingCharCount cm = (n, cm') \<Longrightarrow> cm_ok cm \<Longrightarrow> cm_ok cm'"
  by (metis editPrompt_ok handleNormalKey_ok executeCharSearch_ok selection_ops_ok(8) snd_conv)+

lemma handlePromptInput_ok [simp]: "cm_ok cm \<Longrightarrow> cm_ok (snd (handlePromptInput U T data cm))"
  by (auto simp: handlePromptInput_def Let_def split: prod.splits option.splits dest: ok_results)

lemma handleInputChunk_ok:
  assumes "cm_ok cm" "handleInputChunk U T data cm = (r, cm')"
  shows "cm_ok cm'"
proof (cases "prompt cm \<noteq> promptNone")
  case True
  then show ?thesis using assms handlePromptInput_ok [of "cm\<lparr>scrollExit := False\<rparr>" U T data]
    by (simp add: handleInputChunk_def del: handlePromptInput_ok)
next
  case False
  then show ?thesis using assms by (auto simp: handleInputChunk_def Let_def split: prod.splits if_splits dest!: ok_results)
qed

lemma inputLoop_ok: "cm_ok cm \<Longrightarrow> cm_ok (snd (inputLoop U T data r cm))"
proof (induction U T data r cm rule: inputLoop.induct)
  case (1 U T data r cm)
  obtain a n cm1 where c: "handleInputChunk U T data cm = ((a, n), cm1)" by (metis prod.collapse)
  have "cm_ok cm1" using handleInputChunk_ok [OF 1(2) c] .
  then show ?case using 1(1) [OF _ c [symmetric] refl] 1(2) c by (subst inputLoop.simps) simp
qed

lemma HandleInput_ok [simp]: "cm_ok cm \<Longrightarrow> cm_ok (snd (HandleInput U T data cm))"
  by (simp add: HandleInput_def inputLoop_ok)

end
