(* ===== verification/Copy_Steps.thy ===== *)
theory Copy_Steps
  imports Copy_Laws State_Machine
begin

text \<open>
  Copy mode as the client drives it: entered on a pane, then fed with keys, mouse events and
  changes of the size of the pane.
\<close>

datatype copy_op =
    OpInput "nat list"
  | OpWheel bool int
  | OpSetCursor int int
  | OpSetScrollExit bool
  | OpStartSelection
  | OpClearSelection
  | OpSelectLine
  | OpSelectWord
  | OpToggleRectangle
  | OpOtherEnd
  | OpConsumeCopy
  | OpResizeTo int int

fun copy_perform :: "unicodeTables \<Rightarrow> textInput \<Rightarrow> copy_op \<Rightarrow> CopyMode \<Rightarrow> CopyMode" where
  "copy_perform U T (OpInput data) cm = snd (HandleInput U T data cm)"
| "copy_perform U T (OpWheel up n) cm = snd (if up then WheelScrollUp n cm else WheelScrollDown n cm)"
| "copy_perform U T (OpSetCursor c r) cm = snd (SetCursor c r cm)"
| "copy_perform U T (OpSetScrollExit b) cm = SetScrollExit b cm"
| "copy_perform U T OpStartSelection cm = snd (StartSelection cm)"
| "copy_perform U T OpClearSelection cm = snd (ClearSelection cm)"
| "copy_perform U T OpSelectLine cm = snd (SelectLine cm)"
| "copy_perform U T OpSelectWord cm = snd (SelectWord U cm)"
| "copy_perform U T OpToggleRectangle cm = snd (ToggleRectangleSelection cm)"
| "copy_perform U T OpOtherEnd cm = snd (OtherEnd cm)"
| "copy_perform U T OpConsumeCopy cm = snd (ConsumeCopyText cm)"
| "copy_perform U T (OpResizeTo w h) cm = Resize w h cm"

fun copy_allowed :: "CopyMode \<Rightarrow> copy_op \<Rightarrow> bool" where
  "copy_allowed cm (OpResizeTo w h) \<longleftrightarrow> 1 \<le> w \<and> 1 \<le> h"
| "copy_allowed cm op \<longleftrightarrow> True"

definition copy_init :: "CopyMode \<Rightarrow> bool" where
  "copy_init cm \<longleftrightarrow> (\<exists>b w h row. 1 \<le> w \<and> 1 \<le> h \<and> cm = New b w h row)"

lemma New_ok: "1 \<le> w \<Longrightarrow> 1 \<le> h \<Longrightarrow> cm_ok (New b w h row)"
  by (auto simp: New_def cm_ok_def clamp_def)

lemma copy_perform_ok: "cm_ok cm \<Longrightarrow> copy_allowed cm op \<Longrightarrow> cm_ok (copy_perform U T op cm)"
  by (cases op) simp_all

interpretation copy: invariant_system copy_init copy_allowed "copy_perform U T" cm_ok
  by unfold_locales (auto simp: copy_init_def New_ok copy_perform_ok)

lemma copy_runs_reachable:
  "1 \<le> w \<Longrightarrow> 1 \<le> h \<Longrightarrow> runs copy_allowed (copy_perform U T) (New b w h row) ops \<Longrightarrow>
     reachable copy_init copy_allowed (copy_perform U T) (fold (copy_perform U T) ops (New b w h row))"
  by (rule reachable_runs [OF reachable.start]) (auto simp: copy_init_def)

end
