(* ===== verification/Copy_Overlay.thy ===== *)
theory Copy_Overlay
  imports Copy_Laws Go_Strings "HOL-Library.AList"
begin

text \<open>
  What copy mode shows (\<^verbatim>\<open>copymode/overlay.go\<close>, \<^verbatim>\<open>render.go\<close>): the spans of the viewport that
  are highlighted, as the selection or as matches of the search, and the text of the status bar.
\<close>

section \<open>Model\<close>

datatype SelectionMode = SelectionModeCharacter | SelectionModeLine | SelectionModeRectangle

record SelectionRange =
  StartLine :: int
  StartCol :: int
  EndLine :: int
  EndCol :: int
  sel_Mode :: SelectionMode

datatype HighlightKind = HighlightSelection | HighlightSearchMatch | HighlightCurrentMatch

record HighlightSpan =
  span_StartCol :: int
  span_EndCol :: int
  span_Kind :: HighlightKind

record HighlightLine =
  hl_Row :: int
  hl_Spans :: "HighlightSpan list"

record ViewportOverlay =
  CursorPosition :: "int \<times> int"
  overlay_Selection :: "SelectionRange option"
  HighlightedLines :: "HighlightLine list"

text \<open>The builder maps rows to their spans; its rows in the order of their first span.\<close>

type_synonym highlightBuilder = "(int \<times> HighlightSpan list) list"

definition spansOf :: "int \<Rightarrow> highlightBuilder \<Rightarrow> HighlightSpan list" where
  "spansOf row b = (case map_of b row of Some spans \<Rightarrow> spans | None \<Rightarrow> [])"

definition builder_add :: "int \<Rightarrow> int \<Rightarrow> int \<Rightarrow> HighlightKind \<Rightarrow> highlightBuilder \<Rightarrow> highlightBuilder" where
  "builder_add row startCol endCol kind b =
     (if endCol \<le> startCol then b
      else AList.update row (spansOf row b @ [\<lparr>span_StartCol = startCol, span_EndCol = endCol, span_Kind = kind\<rparr>]) b)"

definition build :: "highlightBuilder \<Rightarrow> HighlightLine list" where
  "build b = map (\<lambda>row. \<lparr>hl_Row = row, hl_Spans = spansOf row b\<rparr>) (sort (map fst b))"

definition selectionMode :: "CopyMode \<Rightarrow> SelectionMode" where
  "selectionMode cm =
     (if lineSelect cm then SelectionModeLine else if rectSelect cm then SelectionModeRectangle else SelectionModeCharacter)"

definition selectionCols :: "CopyMode \<Rightarrow> int \<times> int \<times> int \<times> int \<Rightarrow> int \<Rightarrow> int \<times> int" where
  "selectionCols cm sel absIdx =
     (case sel of (startY, startX, endY, endX) \<Rightarrow>
        if rectSelect cm then (startX, endX + 1)
        else (if absIdx = startY then startX else 0, if absIdx = endY then endX + 1 else cmWidth cm))"

definition selectionRange :: "CopyMode \<Rightarrow> highlightBuilder \<Rightarrow> SelectionRange option \<times> highlightBuilder" where
  "selectionRange cm b =
     (if \<not> selecting cm then (None, b)
      else let (startY, startX, endY, endX) = normalizedSelection cm;
               firstVisible = FirstVisibleLine cm;
               lastVisible = firstVisible + cmHeight cm - 1;
               b1 = fold (\<lambda>absIdx b. let (colStart, colEnd) = selectionCols cm (startY, startX, endY, endX) absIdx
                                     in builder_add (absIdx - firstVisible) colStart colEnd HighlightSelection b)
                      [max startY firstVisible..min endY lastVisible] b
           in (Some \<lparr>StartLine = startY, StartCol = startX, EndLine = endY, EndCol = endX, sel_Mode = selectionMode cm\<rparr>, b1))"

definition addMatch :: "CopyMode \<Rightarrow> nat \<Rightarrow> highlightBuilder \<Rightarrow> highlightBuilder" where
  "addMatch cm i b =
     (let m = matches cm ! i; firstVisible = FirstVisibleLine cm; lastVisible = firstVisible + cmHeight cm - 1
      in if LineIdx m < firstVisible \<or> LineIdx m > lastVisible then b
         else builder_add (LineIdx m - firstVisible) (match_Col m) (match_Col m + match_Len m)
                (if int i = matchIdx cm then HighlightCurrentMatch else HighlightSearchMatch) b)"

definition addMatchHighlights :: "CopyMode \<Rightarrow> highlightBuilder \<Rightarrow> highlightBuilder" where
  "addMatchHighlights cm b = fold (addMatch cm) [0..<length (matches cm)] b"

definition viewportOverlay :: "CopyMode \<Rightarrow> ViewportOverlay" where
  "viewportOverlay cm =
     (let (sel, b) = selectionRange cm []
      in \<lparr>CursorPosition = (cx cm, cy cm), overlay_Selection = sel, HighlightedLines = build (addMatchHighlights cm b)\<rparr>)"

fun joinWith :: "'a list \<Rightarrow> 'a list list \<Rightarrow> 'a list" where
  "joinWith sep [] = []"
| "joinWith sep [x] = x"
| "joinWith sep (x # y # zs) = x @ sep @ joinWith sep (y # zs)"

text \<open>The status bar; the text of a prompt is given as bytes.\<close>

definition SearchBarText :: "CopyMode \<Rightarrow> nat list" where
  "SearchBarText cm =
     (let number = (\<lambda>v::int. map of_char ((if v < 0 then ''-'' else []) @ showNat (nat \<bar>v\<bar>)));
          promptPart = (case prompt cm of
              promptSearchForward \<Rightarrow> [of_char (CHR ''/'') # utf8 (promptBuf cm)]
            | promptSearchBackward \<Rightarrow> [of_char (CHR ''?'') # utf8 (promptBuf cm)]
            | promptGotoLine \<Rightarrow> [of_char (CHR '':'') # utf8 (promptBuf cm)]
            | promptNone \<Rightarrow> []);
          countPart = (if pendingCount cm > 0 \<and> prompt cm = promptNone then [number (pendingCount cm)] else []);
          positionPart = (if showPosition cm
            then [[of_char (CHR ''['')] @ number (oy cm) @ [of_char (CHR ''/'')] @ number (maxOY cm) @ [of_char (CHR '']'')]] else [])
      in joinWith [0x20] (promptPart @ countPart @ positionPart))"

section \<open>Laws\<close>

lemma spansOf_add:
  "spansOf row (builder_add r s e k b) =
     spansOf row b @ (if row = r \<and> s < e then [\<lparr>span_StartCol = s, span_EndCol = e, span_Kind = k\<rparr>] else [])"
  by (simp add: builder_add_def spansOf_def update_conv')

lemma builder_add_distinct: "distinct (map fst b) \<Longrightarrow> distinct (map fst (builder_add r s e k b))"
  by (simp add: builder_add_def distinct_update)

lemma fold_builder_add:
  assumes "distinct l"
  shows "spansOf row (fold (\<lambda>i. builder_add (i - f) (s i) (e i) k) l b) =
     spansOf row b @ (if row + f \<in> set l \<and> s (row + f) < e (row + f) then [\<lparr>span_StartCol = s (row + f), span_EndCol = e (row + f), span_Kind = k\<rparr>] else [])"
  using assms
proof (induction l arbitrary: b)
  case (Cons i l)
  show ?case
  proof (cases "row = i - f")
    case True
    then have "i = row + f" by simp
    then show ?thesis using Cons by (simp add: spansOf_add)
  qed (use Cons in \<open>auto simp: spansOf_add\<close>)
qed simp

lemma selectionRange_spans:
  assumes "normalizedSelection cm = (startY, startX, endY, endX)" "0 \<le> row" "row < cmHeight cm"
  shows "spansOf row (snd (selectionRange cm [])) =
    (let y = row + FirstVisibleLine cm; (s, e) = selectionCols cm (startY, startX, endY, endX) y in
     if selecting cm \<and> startY \<le> y \<and> y \<le> endY \<and> s < e
     then [\<lparr>span_StartCol = s, span_EndCol = e, span_Kind = HighlightSelection\<rparr>] else [])"
  using assms fold_builder_add [of "[max startY (FirstVisibleLine cm)..min endY (FirstVisibleLine cm + cmHeight cm - 1)]" row "FirstVisibleLine cm"
      "\<lambda>y. fst (selectionCols cm (startY, startX, endY, endX) y)" "\<lambda>y. snd (selectionCols cm (startY, startX, endY, endX) y)" HighlightSelection "[]"]
  by (auto simp: selectionRange_def Let_def case_prod_beta spansOf_def [of _ "[]"])

definition matchSpan :: "CopyMode \<Rightarrow> nat \<Rightarrow> HighlightSpan" where
  "matchSpan cm i = \<lparr>span_StartCol = match_Col (matches cm ! i), span_EndCol = match_Col (matches cm ! i) + match_Len (matches cm ! i),
     span_Kind = (if int i = matchIdx cm then HighlightCurrentMatch else HighlightSearchMatch)\<rparr>"

lemma addMatchHighlights_spans:
  assumes "0 \<le> row" "row < cmHeight cm"
  shows "spansOf row (addMatchHighlights cm b) =
    spansOf row b @ map (matchSpan cm) (filter (\<lambda>i. LineIdx (matches cm ! i) = row + FirstVisibleLine cm \<and> 0 < match_Len (matches cm ! i)) [0..<length (matches cm)])"
proof -
  have "spansOf row (fold (addMatch cm) l b) =
    spansOf row b @ map (matchSpan cm) (filter (\<lambda>i. LineIdx (matches cm ! i) = row + FirstVisibleLine cm \<and> 0 < match_Len (matches cm ! i)) l)" for l
    using assms by (induction l arbitrary: b) (auto simp: addMatch_def Let_def spansOf_add matchSpan_def)
  then show ?thesis by (simp add: addMatchHighlights_def)
qed

text \<open>Every row that has spans is a line of the overlay, once, and the lines are in order.\<close>

lemma build_spans:
  assumes "\<And>r. (r \<in> set (map fst b)) = (spansOf r b \<noteq> [])"
  shows "(\<exists>l \<in> set (build b). hl_Row l = row \<and> sp \<in> set (hl_Spans l)) \<longleftrightarrow> sp \<in> set (spansOf row b)"
  using assms [of row] by (auto simp: build_def)

definition builder_ok :: "highlightBuilder \<Rightarrow> bool" where
  "builder_ok b \<longleftrightarrow> distinct (map fst b) \<and> list_all (\<lambda>(r, spans). spans \<noteq> []) b"

lemma builder_ok_add [simp]:
  assumes "builder_ok b"
  shows "builder_ok (builder_add r s e k b)"
proof -
  have "list_all (\<lambda>(r, spans). spans \<noteq> []) (AList.update r (xs @ [x]) b)" for x xs
    using assms unfolding builder_ok_def by (induction b) auto
  then show ?thesis using builder_add_distinct assms by (simp add: builder_ok_def builder_add_def)
qed

lemma builder_ok_rows: "builder_ok b \<Longrightarrow> (r \<in> set (map fst b)) = (spansOf r b \<noteq> [])"
proof (cases "map_of b r")
  case (Some spans)
  then show ?thesis if "builder_ok b" using that map_of_SomeD [OF Some] by (force simp: builder_ok_def spansOf_def list_all_iff)
qed (simp add: spansOf_def map_of_eq_None_iff [symmetric])

lemma builder_ok_fold: "(\<And>x b. builder_ok b \<Longrightarrow> builder_ok (g x b)) \<Longrightarrow> builder_ok b \<Longrightarrow> builder_ok (fold g l b)"
  by (induction l arbitrary: b) auto

lemma overlay_builder_ok: "builder_ok (addMatchHighlights cm (snd (selectionRange cm [])))"
proof -
  have "builder_ok []" by (simp add: builder_ok_def)
  then have "builder_ok (snd (selectionRange cm []))"
    by (auto simp: selectionRange_def Let_def case_prod_beta intro!: builder_ok_fold)
  then show ?thesis unfolding addMatchHighlights_def by (rule builder_ok_fold [rotated]) (simp add: addMatch_def Let_def)
qed

section \<open>What is shown\<close>

text \<open>A cell of the viewport is highlighted if a span of its row covers its column.\<close>

definition highlighted :: "HighlightKind set \<Rightarrow> int \<Rightarrow> int \<Rightarrow> ViewportOverlay \<Rightarrow> bool" where
  "highlighted kinds row col ov \<longleftrightarrow>
     (\<exists>l \<in> set (HighlightedLines ov). hl_Row l = row \<and>
        (\<exists>sp \<in> set (hl_Spans l). span_Kind sp \<in> kinds \<and> span_StartCol sp \<le> col \<and> col < span_EndCol sp))"

text \<open>The selected places: the rectangle, or what lies between the ends in reading order.\<close>

definition selectedAt :: "CopyMode \<Rightarrow> int \<Rightarrow> int \<Rightarrow> bool" where
  "selectedAt cm y x \<longleftrightarrow> selecting cm \<and>
     (case normalizedSelection cm of (startY, startX, endY, endX) \<Rightarrow>
        if rectSelect cm then startY \<le> y \<and> y \<le> endY \<and> startX \<le> x \<and> x \<le> endX
        else (startY < y \<or> startY = y \<and> startX \<le> x) \<and> (y < endY \<or> y = endY \<and> x \<le> endX))"

lemma highlighted_spans:
  "highlighted kinds row col (viewportOverlay cm) \<longleftrightarrow>
     (\<exists>sp \<in> set (spansOf row (addMatchHighlights cm (snd (selectionRange cm [])))). span_Kind sp \<in> kinds \<and> span_StartCol sp \<le> col \<and> col < span_EndCol sp)"
proof -
  have "HighlightedLines (viewportOverlay cm) = build (addMatchHighlights cm (snd (selectionRange cm [])))"
    by (simp add: viewportOverlay_def Let_def case_prod_beta)
  then show ?thesis using build_spans [OF builder_ok_rows [OF overlay_builder_ok], of cm row]
    by (simp add: highlighted_def) blast
qed

lemma highlighted_selection:
  assumes "0 \<le> row" "row < cmHeight cm" "0 \<le> col" "col < cmWidth cm"
  shows "highlighted {HighlightSelection} row col (viewportOverlay cm) \<longleftrightarrow> selectedAt cm (row + FirstVisibleLine cm) col"
proof -
  obtain startY startX endY endX where n: "normalizedSelection cm = (startY, startX, endY, endX)" by (metis prod_cases4)
  have "highlighted {HighlightSelection} row col (viewportOverlay cm) \<longleftrightarrow>
      (\<exists>sp \<in> set (spansOf row (snd (selectionRange cm []))). span_Kind sp = HighlightSelection \<and> span_StartCol sp \<le> col \<and> col < span_EndCol sp)"
    by (auto simp: highlighted_spans addMatchHighlights_spans [OF assms(1,2)] matchSpan_def split: if_splits)
  also have "\<dots> \<longleftrightarrow> selectedAt cm (row + FirstVisibleLine cm) col"
    using assms by (auto simp: selectionRange_spans [OF n assms(1,2)] selectionCols_def selectedAt_def n Let_def)
  finally show ?thesis .
qed

lemma highlighted_matches:
  assumes "0 \<le> row" "row < cmHeight cm"
  shows "highlighted {HighlightSearchMatch, HighlightCurrentMatch} row col (viewportOverlay cm) \<longleftrightarrow>
    (\<exists>m \<in> set (matches cm). LineIdx m = row + FirstVisibleLine cm \<and> match_Col m \<le> col \<and> col < match_Col m + match_Len m)"
proof -
  obtain startY startX endY endX where n: "normalizedSelection cm = (startY, startX, endY, endX)" by (metis prod_cases4)
  have sel: "span_Kind sp = HighlightSelection" if "sp \<in> set (spansOf row (snd (selectionRange cm [])))" for sp
    using that by (auto simp: selectionRange_spans [OF n assms] Let_def split: prod.splits if_splits)
  have "highlighted {HighlightSearchMatch, HighlightCurrentMatch} row col (viewportOverlay cm) \<longleftrightarrow>
    (\<exists>sp \<in> set (map (matchSpan cm) (filter (\<lambda>i. LineIdx (matches cm ! i) = row + FirstVisibleLine cm \<and> 0 < match_Len (matches cm ! i)) [0..<length (matches cm)])).
       span_StartCol sp \<le> col \<and> col < span_EndCol sp)"
    unfolding highlighted_spans addMatchHighlights_spans [OF assms] set_append bex_Un by (auto dest: sel simp: matchSpan_def)
  also have "\<dots> \<longleftrightarrow> (\<exists>i < length (matches cm). LineIdx (matches cm ! i) = row + FirstVisibleLine cm \<and> match_Col (matches cm ! i) \<le> col \<and>
       col < match_Col (matches cm ! i) + match_Len (matches cm ! i))"
    by (auto simp: matchSpan_def)
  also have "\<dots> \<longleftrightarrow> (\<exists>m \<in> set (matches cm). LineIdx m = row + FirstVisibleLine cm \<and> match_Col m \<le> col \<and> col < match_Col m + match_Len m)"
    by (metis in_set_conv_nth)
  finally show ?thesis .
qed

end
