(* ===== verification/Copy_Brackets.thy ===== *)
theory Copy_Brackets
  imports Copy_Laws
begin

text \<open>
  Bracket matching in copy mode. The buffer is read as one list of places; a bracket and its
  partner split the list around a balanced text, which reads the same from either end.
\<close>

section \<open>Balanced text\<close>

definition level :: "rune \<Rightarrow> rune \<Rightarrow> rune \<Rightarrow> int" where
  "level up down r = (if r = up then 1 else if r = down then - 1 else 0)"

definition bal :: "rune \<Rightarrow> rune \<Rightarrow> (int \<times> int \<times> rune) list \<Rightarrow> int" where
  "bal up down l = (\<Sum>(y, x, r) \<leftarrow> l. level up down r)"

lemma bal_simps [simp]:
  "bal up down [] = 0" "bal up down (a @ b) = bal up down a + bal up down b" "bal up down (p # a) = level up down (snd (snd p)) + bal up down a"
  by (simp_all add: bal_def case_prod_beta)

lemma bal_swap: "up \<noteq> down \<Longrightarrow> bal down up l = - bal up down l"
  by (induction l) (auto simp: level_def)

lemma bal_rev [simp]: "bal up down (rev l) = bal up down l"
  by (induction l) auto

text \<open>The depth stays above 0 before the end and comes back to where it started.\<close>

fun closes :: "rune \<Rightarrow> rune \<Rightarrow> int \<Rightarrow> (int \<times> int \<times> rune) list \<Rightarrow> bool" where
  "closes up down d [] \<longleftrightarrow> d = 1"
| "closes up down d ((y, x, r) # pre) \<longleftrightarrow> 1 \<le> d \<and> closes up down (d + level up down r) pre"

lemma Cons_split_ex: "(\<exists>pre post. p # l = pre @ z # post \<and> P pre) \<longleftrightarrow> p = z \<and> P [] \<or> (\<exists>pre post. l = pre @ z # post \<and> P (p # pre))"
proof
  assume "\<exists>pre post. p # l = pre @ z # post \<and> P pre"
  then obtain pre post where "p # l = pre @ z # post" "P pre" by blast
  then show "p = z \<and> P [] \<or> (\<exists>pre post. l = pre @ z # post \<and> P (p # pre))" by (cases pre) auto
next
  assume "p = z \<and> P [] \<or> (\<exists>pre post. l = pre @ z # post \<and> P (p # pre))"
  then show "\<exists>pre post. p # l = pre @ z # post \<and> P pre" by (metis append_Cons append_Nil)
qed

lemma closes_ends: "closes up down d s \<Longrightarrow> 1 \<le> d \<and> d + bal up down s = 1"
  by (induction up down d s rule: closes.induct) auto

lemma closes_prefix: "closes up down d (q @ s) \<Longrightarrow> 1 \<le> d + bal up down q \<and> d + bal up down (q @ s) = 1"
proof (induction q arbitrary: d)
  case (Cons p q)
  obtain y x r where "p = (y, x, r)" by (metis prod_cases3)
  then show ?case using Cons.IH [of "d + level up down r"] Cons.prems by (simp add: add.assoc)
qed (simp add: closes_ends)

lemma closesI: "(\<And>q s. pre = q @ s \<Longrightarrow> 1 \<le> d + bal up down q) \<Longrightarrow> d + bal up down pre = 1 \<Longrightarrow> closes up down d pre"
proof (induction up down d pre rule: closes.induct)
  case (2 up down d y x r pre)
  have "1 \<le> d" using 2(2) [of "[]"] by simp
  moreover have "1 \<le> d + level up down r + bal up down q" if "pre = q @ s" for q s
    using 2(2) [of "(y, x, r) # q" s] that by (simp add: add.assoc)
  ultimately show ?case using 2(1,3) by (simp add: add.assoc)
qed simp

lemma closes_rev:
  assumes "up \<noteq> down" "closes up down 1 pre"
  shows "closes down up 1 (rev pre)"
proof (rule closesI)
  show "1 \<le> 1 + bal down up q" if "rev pre = q @ s" for q s
  proof -
    have "pre = rev s @ rev q" using that by (metis rev_append rev_rev_ident)
    then show ?thesis using closes_prefix [of up down 1 "rev s" "rev q"] assms(2) bal_swap [OF assms(1), of q] by simp
  qed
  show "1 + bal down up (rev pre) = 1" using closes_prefix [of up down 1 pre "[]"] assms(2) bal_swap [OF assms(1), of pre] by simp
qed

lemma matchScan_iff:
  "up \<noteq> down \<Longrightarrow> 1 \<le> d \<Longrightarrow> matchScan up down d l = Some (y, x) \<longleftrightarrow> (\<exists>pre post. l = pre @ (y, x, down) # post \<and> closes up down (int d) pre)"
proof (induction up down d l rule: matchScan.induct)
  case (2 up down d py px r l)
  have "\<not> closes up down 0 pre" for pre by (cases pre) auto
  then show ?case unfolding Cons_split_ex using 2 by (auto simp: of_nat_diff add.commute level_def)
qed simp

section \<open>Reading the buffer\<close>

definition reading :: "CopyMode \<Rightarrow> (int \<times> int \<times> rune) list" where
  "reading cm = concat (map (\<lambda>y. lineFrom y 0 cm) [0..TotalLines cm - 1])"

lemma lineFrom_split:
  assumes "x < length (lineText y cm)"
  shows "lineFrom y 0 cm = take x (lineFrom y 0 cm) @ (y, int x, lineText y cm ! x) # lineFrom y (x + 1) cm"
proof -
  have "[0..<length (lineText y cm)] = [0..<x] @ x # [x + 1..<length (lineText y cm)]"
    using assms upt_conv_Cons [of x "length (lineText y cm)"] upt_add_eq_append [of 0 x "length (lineText y cm) - x"] by simp
  then show ?thesis by (simp add: lineFrom_def take_map)
qed

lemma reading_split:
  assumes "0 \<le> y" "y < TotalLines cm" "x < length (lineText y cm)"
  shows "reading cm = rev (readBackFrom y x cm) @ (y, int x, lineText y cm ! x) # readFrom y (x + 1) cm"
proof -
  have "[0..TotalLines cm - 1] = [0..y - 1] @ y # [y + 1..TotalLines cm - 1]"
    using assms upto_split1 [of 0 y "TotalLines cm - 1"] upto_rec1 [of y "TotalLines cm - 1"] by simp
  then have "reading cm = concat (map (\<lambda>y. lineFrom y 0 cm) [0..y - 1]) @ lineFrom y 0 cm @ concat (map (\<lambda>y. lineFrom y 0 cm) [y + 1..TotalLines cm - 1])"
    by (simp add: reading_def)
  then show ?thesis using assms(1,2) lineFrom_split [OF assms(3)] by (simp add: readBackFrom_def readFrom_def)
qed

lemma reading_place: "(y, x, r) \<in> set (reading cm) \<Longrightarrow>
    0 \<le> y \<and> y < TotalLines cm \<and> 0 \<le> x \<and> x < int (length (lineText y cm)) \<and> r = lineText y cm ! nat x"
  by (auto simp: reading_def lineFrom_def)

lemma lineFrom_places: "distinct (map (\<lambda>(y, x, r). (y, x)) (lineFrom y x cm))"
  by (simp add: lineFrom_def comp_def distinct_map inj_on_def)

lemma reading_distinct: "distinct (reading cm)"
proof -
  have "distinct (concat (map (\<lambda>y. lineFrom y 0 cm) l))" if "distinct l" for l
    using that by (induction l) (auto simp: distinct_map inj_on_def lineFrom_def)
  then show ?thesis by (simp add: reading_def)
qed

lemma distinct_split: "distinct (a @ p # b) \<Longrightarrow> a @ p # b = a' @ p # b' \<Longrightarrow> a = a' \<and> b = b'"
  by (metis (no_types, lifting) append_Cons_eq_iff distinct_append not_distinct_conv_prefix disjoint_iff distinct.simps(2) list.set_intros(1))

text \<open>The partner of a bracket finds the bracket.\<close>

lemma forward_backward:
  assumes r: "0 \<le> y" "y < TotalLines cm" "0 \<le> x" "x < int (length (lineText y cm))" "lineText y cm ! nat x = opening" "opening \<noteq> closing"
  shows "findMatchingForward y x opening closing cm = Some (my, mx) \<longleftrightarrow>
     (0 \<le> my \<and> my < TotalLines cm \<and> 0 \<le> mx \<and> mx < int (length (lineText my cm)) \<and> lineText my cm ! nat mx = closing \<and>
      findMatchingBackward my mx opening closing cm = Some (y, x))" (is "?f \<longleftrightarrow> ?b")
proof
  have s: "reading cm = rev (readBackFrom y (nat x) cm) @ (y, x, opening) # readFrom y (nat (x + 1)) cm"
    using reading_split [of y cm "nat x"] r by (simp add: nat_add_distrib)
  show ?b if f: ?f
  proof -
    obtain pre post where p: "readFrom y (nat (x + 1)) cm = pre @ (my, mx, closing) # post" "closes opening closing 1 pre"
      using f matchScan_iff [of "opening" "closing" 1] r(6) by (auto simp: findMatchingForward_def)
    have m: "0 \<le> my" "my < TotalLines cm" "0 \<le> mx" "mx < int (length (lineText my cm))" "lineText my cm ! nat mx = closing"
      using reading_place [of my mx "closing" cm] s p(1) by auto
    then have "reading cm = rev (readBackFrom my (nat mx) cm) @ (my, mx, closing) # readFrom my (nat mx + 1) cm"
      using reading_split [of my cm "nat mx"] by simp
    moreover have "reading cm = (rev (readBackFrom y (nat x) cm) @ (y, x, opening) # pre) @ (my, mx, closing) # post" using s p(1) by simp
    ultimately have "rev (readBackFrom my (nat mx) cm) = rev (readBackFrom y (nat x) cm) @ (y, x, opening) # pre"
      using reading_distinct [of cm] distinct_split by metis
    then have "readBackFrom my (nat mx) cm = rev pre @ (y, x, opening) # readBackFrom y (nat x) cm" by (simp add: rev_swap)
    moreover have "closes closing opening 1 (rev pre)" using closes_rev [OF r(6) p(2)] .
    ultimately show ?thesis using m matchScan_iff [of "closing" "opening"] r(6) by (auto simp: findMatchingBackward_def)
  qed
  show ?f if b: ?b
  proof -
    have m: "0 \<le> my" "my < TotalLines cm" "0 \<le> mx" "mx < int (length (lineText my cm))" "lineText my cm ! nat mx = closing" using b by simp_all
    obtain pre post where p: "readBackFrom my (nat mx) cm = pre @ (y, x, opening) # post" "closes closing opening 1 pre"
      using b matchScan_iff [of "closing" "opening" 1] r(6) by (auto simp: findMatchingBackward_def)
    have "reading cm = rev (readBackFrom my (nat mx) cm) @ (my, mx, closing) # readFrom my (nat mx + 1) cm"
      using reading_split [of my cm "nat mx"] m by simp
    then have "reading cm = rev post @ (y, x, opening) # rev pre @ (my, mx, closing) # readFrom my (nat mx + 1) cm" using p(1) by simp
    then have "readFrom y (nat (x + 1)) cm = rev pre @ (my, mx, closing) # readFrom my (nat mx + 1) cm"
      using s reading_distinct [of cm] distinct_split by metis
    moreover have "closes opening closing 1 (rev pre)" using closes_rev [OF _ p(2)] r(6) by simp
    ultimately show ?thesis using matchScan_iff [of "opening" "closing"] r(6) by (auto simp: findMatchingForward_def)
  qed
qed

section \<open>The key\<close>

definition partner :: "CopyMode \<Rightarrow> int \<Rightarrow> int \<Rightarrow> (int \<times> int) option" where
  "partner cm y x =
     (let r = lineText y cm ! nat x in
      case List.find (\<lambda>(opening, closing). r = opening \<or> r = closing) bracketPairs of
        None \<Rightarrow> None
      | Some (opening, closing) \<Rightarrow>
          if r = opening then findMatchingForward y x opening closing cm else findMatchingBackward y x opening closing cm)"

lemma bracketPair:
  assumes "List.find (\<lambda>(opening, closing). r = opening \<or> r = closing) bracketPairs = Some (opening, closing)"
  shows "opening \<noteq> closing" "r = opening \<or> r = closing"
    "List.find (\<lambda>(op, cl). opening = op \<or> opening = cl) bracketPairs = Some (opening, closing)"
    "List.find (\<lambda>(op, cl). closing = op \<or> closing = cl) bracketPairs = Some (opening, closing)"
    "opening \<in> set bracketRunes" "closing \<in> set bracketRunes"
  using assms by (auto simp: bracketPairs_def bracketRunes_def split: if_splits)

definition place_ok :: "CopyMode \<Rightarrow> int \<Rightarrow> int \<Rightarrow> bool" where
  "place_ok cm y x \<longleftrightarrow> 0 \<le> y \<and> y < TotalLines cm \<and> 0 \<le> x \<and> x < int (length (lineText y cm))"

lemma partner_round_trip:
  assumes p: "partner cm y x = Some (my, mx)" and y: "place_ok cm y x"
  shows "place_ok cm my mx \<and> partner cm my mx = Some (y, x) \<and> lineText my cm ! nat mx \<in> set bracketRunes"
proof -
  let ?r = "lineText y cm ! nat x"
  from p obtain op cl where pr: "List.find (\<lambda>(op, cl). ?r = op \<or> ?r = cl) bracketPairs = Some (op, cl)"
    by (auto simp: partner_def Let_def split: option.splits)
  note pair = bracketPair [OF pr]
  have prev: "place_ok cm my mx" "lineText my cm ! nat mx = op" if h: "findMatchingBackward y x op cl cm = Some (my, mx)"
  proof -
    obtain pre post where "readBackFrom y (nat x) cm = pre @ (my, mx, op) # post"
      using h [unfolded findMatchingBackward_def] matchScan_iff [of cl op 1 _ my mx] pair(1) by auto
    then have "(my, mx, op) \<in> set (reading cm)" using reading_split [of y cm "nat x"] y by (auto simp: place_ok_def)
    then show "place_ok cm my mx" "lineText my cm ! nat mx = op" using reading_place [of my mx op cm] by (auto simp: place_ok_def)
  qed
  show ?thesis
  proof (cases "?r = op")
    case True
    then have "findMatchingForward y x op cl cm = Some (my, mx)" using p pr by (simp add: partner_def)
    then show ?thesis using forward_backward [of y cm x op cl my mx] y True pair by (auto simp: place_ok_def partner_def)
  next
    case False
    then have r: "?r = cl" and f: "findMatchingBackward y x op cl cm = Some (my, mx)" using p pr pair(2) by (simp_all add: partner_def)
    then have "findMatchingForward my mx op cl cm = Some (y, x)"
      using forward_backward [of my cm mx op cl y x] prev [OF f] y pair(1) by (simp add: place_ok_def)
    then show ?thesis using prev [OF f] pair by (simp add: partner_def)
  qed
qed

lemma matchingBracket_on_bracket:
  assumes "cx cm < int (length (cursorLineRunes cm))" "cursorLineRunes cm ! nat (cx cm) \<in> set bracketRunes"
  shows "matchingBracket cm = (case partner cm (cursorAbsLine cm) (cx cm) of
     None \<Rightarrow> (ActionNone, cm) | Some (my, mx) \<Rightarrow> (ActionRedraw, updateSelection (scrollToAbsolute my mx cm)))"
  using assms by (auto simp: matchingBracket_def findBracketCandidate_def partner_def cursorLineRunes_def Let_def split: option.splits)

text \<open>What is read depends on the buffer and the height only.\<close>

lemma same_text:
  assumes "cmEmu a = cmEmu b" "cmHeight a = cmHeight b"
  shows "TotalLines a = TotalLines b" "lineText y a = lineText y b" "partner a y x = partner b y x"
proof -
  have t: "TotalLines a = TotalLines b" and l: "lineText y a = lineText y b" for y using assms by (simp_all add: TotalLines_def lineText_def Let_def)
  show "TotalLines a = TotalLines b" "lineText y a = lineText y b" by (fact t, fact l)
  show "partner a y x = partner b y x"
  proof -
    have "findMatchingForward y x o' c' a = findMatchingForward y x o' c' b" "findMatchingBackward y x o' c' a = findMatchingBackward y x o' c' b" for o' c'
      using t l by (simp_all add: findMatchingForward_def findMatchingBackward_def readFrom_def readBackFrom_def lineFrom_def)
    then show ?thesis using l by (simp add: partner_def Let_def split: option.splits)
  qed
qed

end
