(* ===== verification/Copy_Search.thy ===== *)
theory Copy_Search
  imports Copy_Laws
begin

text \<open>
  Searching in copy mode: the matches are the occurrences of the query in the order of reading,
  and a search goes to the nearest one.
\<close>

section \<open>Matches\<close>

text \<open>The matches are in the order of reading and do not overlap.\<close>

definition matchBefore :: "Match \<Rightarrow> Match \<Rightarrow> bool" where
  "matchBefore a b \<longleftrightarrow> LineIdx a < LineIdx b \<or> LineIdx a = LineIdx b \<and> match_Col a + match_Len a \<le> match_Col b"

lemma lineMatches_sorted: "sorted_wrt matchBefore (lineMatches i q l idx)"
proof (induction i q l idx rule: lineMatches.induct)
  case (1 i q l idx)
  have "matchBefore \<lparr>LineIdx = i, match_Col = int idx, match_Len = int (length q)\<rparr> m" if "m \<in> set (lineMatches i q l (idx + length q))" for m
    using lineMatches_sound [OF that] by (auto simp: matchBefore_def)
  then show ?case using 1 by (subst lineMatches.simps) simp
qed

lemma allMatches_sorted: "sorted_wrt matchBefore (allMatches U q cm)"
proof -
  have "sorted_wrt matchBefore (concat (map (\<lambda>i. lineMatches i (f i) (g i) 0) ls))" if "sorted_wrt (<) ls" for f g and ls :: "int list"
    using that
  proof (induction ls)
    case (Cons i ls)
    have "matchBefore a b" if "a \<in> set (lineMatches i (f i) (g i) 0)" "i < j" "b \<in> set (lineMatches j (f j) (g j) 0)" for a b j
      using lineMatches_sound [OF that(1)] lineMatches_sound [OF that(3)] that(2) by (auto simp: matchBefore_def)
    then show ?case using Cons by (auto simp: sorted_wrt_append lineMatches_sorted)
  qed simp
  then show ?thesis by (simp add: allMatches_def sorted_wrt_upto)
qed

lemma allMatches_complete:
  assumes "0 \<le> y" "y < TotalLines cm" "q \<noteq> []" "occursAt (map (ToLower U) q) (map (ToLower U) (lineText y cm)) p"
  shows "\<exists>m \<in> set (allMatches U q cm). LineIdx m = y \<and> match_Col m \<le> int p \<and> int p < match_Col m + match_Len m"
proof -
  obtain m where m: "m \<in> set (lineMatches y (map (ToLower U) q) (map (ToLower U) (lineText y cm)) 0)"
    "match_Col m \<le> int p" "int p < match_Col m + match_Len m"
    using lineMatches_complete [OF assms(4), of 0 y] assms(3) by auto
  moreover have "LineIdx m = y" using lineMatches_sound [OF m(1)] by auto
  ultimately show ?thesis using assms(1,2) by (auto simp: allMatches_def)
qed

lemma firstIndex_first:
  assumes "x \<in> set l" "P x" "sorted_wrt R l" "i = nat (firstIndex P l d)"
  shows "i < length l \<and> P (l ! i) \<and> (x = l ! i \<or> R (l ! i) x)"
proof -
  let ?n = "length (takeWhile (\<lambda>x. \<not> P x) l)"
  have n: "?n < length l" using assms(1,2) by (metis (mono_tags, lifting) length_takeWhile_le nat_less_le set_takeWhileD takeWhile_eq_take take_all_iff order_refl)
  then have i: "i = ?n" using assms(4) by (simp add: firstIndex_def Let_def)
  obtain j where j: "j < length l" "x = l ! j" using assms(1) by (metis in_set_conv_nth)
  have "?n \<le> j" using j assms(2) by (metis (no_types, lifting) not_le_imp_less nth_mem set_takeWhileD takeWhile_nth)
  then show ?thesis using i j n assms(3) nth_length_takeWhile [OF n] by (cases "?n = j") (auto simp: sorted_wrt_iff_nth_less)
qed

section \<open>Where a search goes\<close>

text \<open>A line of the buffer, and a column where the query occurs in it regardless of case.\<close>

definition occurrence :: "unicodeTables \<Rightarrow> runes_text \<Rightarrow> CopyMode \<Rightarrow> int \<Rightarrow> int \<Rightarrow> bool" where
  "occurrence U q cm y x \<longleftrightarrow> 0 \<le> y \<and> y < TotalLines cm \<and> 0 \<le> x \<and> occursAt (map (ToLower U) q) (map (ToLower U) (lineText y cm)) (nat x)"

definition readingLe :: "int \<Rightarrow> int \<Rightarrow> int \<Rightarrow> int \<Rightarrow> bool" where
  "readingLe y x y' x' \<longleftrightarrow> y < y' \<or> y = y' \<and> x \<le> x'"

lemma allMatches_frame: "cmEmu a = cmEmu b \<Longrightarrow> cmHeight a = cmHeight b \<Longrightarrow> allMatches U q a = allMatches U q b"
proof -
  assume e: "cmEmu a = cmEmu b" "cmHeight a = cmHeight b"
  have "lineText i a = lineText i b" for i using e by (simp add: lineText_def Let_def)
  then show ?thesis using e by (simp add: allMatches_def TotalLines_def)
qed

lemma scrollToMatch_frame [simp]:
  "matches (scrollToMatch cm) = matches cm" "cmEmu (scrollToMatch cm) = cmEmu cm" "cmHeight (scrollToMatch cm) = cmHeight cm"
  by (simp_all add: scrollToMatch_def Let_def)

lemma runSearch_matches:
  "searchQuery cm \<noteq> [] \<Longrightarrow> matches (runSearch U fw cm) = allMatches U (searchQuery cm) cm"
  by (simp add: runSearch_def Let_def allMatches_frame [of "cm\<lparr>matches := [], matchIdx := - 1\<rparr>" cm])

lemma runSearch_lands:
  assumes ok: "cm_ok cm" and q: "searchQuery cm \<noteq> []" and ms: "ms = allMatches U (searchQuery cm) cm" "ms \<noteq> []"
  shows "\<exists>m \<in> set ms. cursorAbsLine (runSearch U True cm) = LineIdx m \<and> cx (runSearch U True cm) = match_Col m \<and>
    (\<forall>m' \<in> set ms. readingLe (cursorAbsLine cm) (cx cm) (LineIdx m') (match_Col m') \<longrightarrow>
       readingLe (cursorAbsLine cm) (cx cm) (LineIdx m) (match_Col m) \<and> readingLe (LineIdx m) (match_Col m) (LineIdx m') (match_Col m'))"
proof -
  let ?P = "\<lambda>m. LineIdx m > cursorAbsLine cm \<or> LineIdx m = cursorAbsLine cm \<and> match_Col m \<ge> cx cm"
  define i where "i = firstIndex ?P ms 0"
  let ?c = "cm\<lparr>matches := ms, lastSearchForward := True, matchIdx := i\<rparr>"
  have i: "0 \<le> i" "i < int (length ms)" using firstIndex_range [OF ms(2), of ?P] by (simp_all add: i_def)
  have c: "cm_ok ?c" using ok ms i allMatches_ok by (simp add: cm_ok_def maxOY_def)
  have r: "runSearch U True cm = scrollToMatch ?c"
    using q ms by (simp add: runSearch_def Let_def i_def cursorAbsLine_def TotalLines_def allMatches_frame [of "cm\<lparr>matches := [], matchIdx := - 1\<rparr>" cm])
  let ?m = "ms ! nat i"
  have m: "?m \<in> set ms" using i by simp
  have "LineIdx ?m < TotalLines cm" using allMatches_sound [of ?m U "searchQuery cm" cm] m ms by simp
  then have "cursorAbsLine (scrollToMatch ?c) = LineIdx ?m \<and> cx (scrollToMatch ?c) = match_Col ?m"
    using scrollToMatch_cursor [OF c] i by (simp add: TotalLines_def)
  moreover have "readingLe (cursorAbsLine cm) (cx cm) (LineIdx ?m) (match_Col ?m) \<and> readingLe (LineIdx ?m) (match_Col ?m) (LineIdx m') (match_Col m')"
    if m': "m' \<in> set ms" "readingLe (cursorAbsLine cm) (cx cm) (LineIdx m') (match_Col m')" for m'
  proof -
    have "?P ?m \<and> (m' = ?m \<or> matchBefore ?m m')"
      using firstIndex_first [of m' ms ?P matchBefore "nat i" 0] m' allMatches_sorted [of U "searchQuery cm" cm] ms(1) by (auto simp: i_def readingLe_def)
    moreover have "0 \<le> match_Len ?m" using allMatches_sound [of ?m U "searchQuery cm" cm] m ms(1) by simp
    ultimately show ?thesis by (auto simp: readingLe_def matchBefore_def)
  qed
  ultimately show ?thesis using m r by auto
qed

end
