(* ===== verification/Copy_Properties.thy ===== *)
theory Copy_Properties
  imports Copy_Steps Copy_Overlay Copy_Brackets Copy_Search
begin

text \<open>
  The properties of copy mode: its invariant, that search finds every occurrence and lands on
  one, the round trips of marks and brackets, what the overlay shows, and what the keys do that
  they should not.
\<close>

section \<open>A sample pane\<close>

definition asciiTables :: unicodeTables where
  "asciiTables = \<lparr>IsLetter = (\<lambda>r. 65 \<le> r \<and> r \<le> 90 \<or> 97 \<le> r \<and> r \<le> 122), IsNumber = (\<lambda>r. 48 \<le> r \<and> r \<le> 57),
     ToLower = (\<lambda>r. if 65 \<le> r \<and> r \<le> 90 then r + 32 else r)\<rparr>"

definition appendInput :: textInput where
  "appendInput msg st = (fst st @ msg_Runes msg, snd st + int (length (msg_Runes msg)))"

definition samplePane :: paneBuffer where
  "samplePane = \<lparr>scrollback = [bytes ''make (all'', bytes '' Error 12)''], screen = [bytes ''error'', [], bytes ''x'']\<rparr>"

definition sampleCopy :: CopyMode where
  "sampleCopy = New samplePane 10 3 0"

lemmas sample_copy_defs = sampleCopy_def samplePane_def asciiTables_def appendInput_def

lemma sampleCopy_ok: "cm_ok sampleCopy"
  by (simp add: sampleCopy_def New_ok)

section \<open>Invariant\<close>

text \<open>
  C12. Whatever keys, mouse events and resizes copy mode is fed with, its viewport stays inside the
  buffer, the cursor inside the rows of the viewport and on a line of the buffer, its column is not negative,
  and the current match of the search is one of the matches.
\<close>

theorem reachable_copy_ok:
  assumes "reachable copy_init copy_allowed (copy_perform U T) cm"
  shows "0 \<le> oy cm \<and> oy cm \<le> maxOY cm \<and> 0 \<le> cy cm \<and> cy cm < cmHeight cm \<and> 0 \<le> cx cm \<and>
    0 \<le> cursorAbsLine cm \<and> cursorAbsLine cm < TotalLines cm \<and>
    (if matches cm = [] then matchIdx cm = - 1 else 0 \<le> matchIdx cm \<and> matchIdx cm < int (length (matches cm)))"
proof -
  have ok: "cm_ok cm" using assms by (rule copy.inv_reachable)
  then show ?thesis using cursorAbsLine_range [OF ok] by (auto simp: cm_ok_def)
qed

text \<open>After a search and a smaller pane.\<close>

lemma reachable_copy_ok_witness:
  "let cm = fold (copy_perform asciiTables appendInput) [OpInput (bytes ''/error'' @ [13]), OpResizeTo 4 2, OpWheel True 9, OpSetCursor 7 7] sampleCopy
   in 0 \<le> cursorAbsLine cm \<and> cursorAbsLine cm < TotalLines cm \<and> cy cm < cmHeight cm"
proof -
  let ?ops = "[OpInput (bytes ''/error'' @ [13]), OpResizeTo 4 2, OpWheel True 9, OpSetCursor 7 7]"
  let ?cm = "fold (copy_perform asciiTables appendInput) ?ops sampleCopy"
  have "reachable copy_init copy_allowed (copy_perform asciiTables appendInput) ?cm"
    unfolding sampleCopy_def by (rule copy_runs_reachable) simp_all
  then show ?thesis using reachable_copy_ok [of asciiTables appendInput ?cm] by (simp only: Let_def)
qed

section \<open>Search\<close>

text \<open>
  C17. A search finds exactly the occurrences of the query, regardless of case: every match is an
  occurrence, and every occurrence overlaps a match. If there is one, a search forward puts the cursor on
  a match, on the first one at or after the cursor if there is one there.
\<close>

theorem runSearch_correct:
  assumes ok: "cm_ok cm" and q: "searchQuery cm \<noteq> []"
  shows "let cm' = runSearch U True cm; ms = matches cm' in
    (\<forall>m \<in> set ms. occurrence U (searchQuery cm) cm (LineIdx m) (match_Col m) \<and> match_Len m = int (length (searchQuery cm))) \<and>
    (\<forall>y x. occurrence U (searchQuery cm) cm y x \<longrightarrow> (\<exists>m \<in> set ms. LineIdx m = y \<and> match_Col m \<le> x \<and> x < match_Col m + match_Len m)) \<and>
    (ms \<noteq> [] \<longrightarrow> (\<exists>m \<in> set ms. cursorAbsLine cm' = LineIdx m \<and> cx cm' = match_Col m \<and>
       (\<forall>m' \<in> set ms. readingLe (cursorAbsLine cm) (cx cm) (LineIdx m') (match_Col m') \<longrightarrow>
          readingLe (cursorAbsLine cm) (cx cm) (LineIdx m) (match_Col m) \<and> readingLe (LineIdx m) (match_Col m) (LineIdx m') (match_Col m'))))"
proof -
  have ms: "matches (runSearch U True cm) = allMatches U (searchQuery cm) cm" using q by (rule runSearch_matches)
  have s: "occurrence U (searchQuery cm) cm (LineIdx m) (match_Col m) \<and> match_Len m = int (length (searchQuery cm))"
    if "m \<in> set (allMatches U (searchQuery cm) cm)" for m using allMatches_sound [OF that] by (simp add: occurrence_def)
  have c: "\<exists>m \<in> set (allMatches U (searchQuery cm) cm). LineIdx m = y \<and> match_Col m \<le> x \<and> x < match_Col m + match_Len m"
    if "occurrence U (searchQuery cm) cm y x" for y x
    using allMatches_complete [of y cm "searchQuery cm" U "nat x"] that q by (simp add: occurrence_def)
  show ?thesis unfolding Let_def ms using s c runSearch_lands [OF ok q refl] by blast
qed

lemma runSearch_correct_witness:
  "\<exists>m. m \<in> set (matches (runSearch asciiTables True (sampleCopy\<lparr>searchQuery := bytes ''ERROR''\<rparr>))) \<and> LineIdx m = 1 \<and> match_Col m \<le> 1 \<and>
     1 < match_Col m + match_Len m"
proof -
  let ?cm = "sampleCopy\<lparr>searchQuery := bytes ''ERROR''\<rparr>"
  have "occurrence asciiTables (searchQuery ?cm) ?cm 1 1"
    by (simp add: occurrence_def occursAt_def sample_copy_defs New_def TotalLines_def ScrollbackLen_def lineText_def ScrollbackLineText_def)
  moreover have "cm_ok ?cm" "searchQuery ?cm \<noteq> []" using sampleCopy_ok by simp_all
  ultimately show ?thesis using runSearch_correct [of ?cm asciiTables] unfolding Let_def by blast
qed

section \<open>Round trips\<close>

text \<open>
  Jumping to the mark swaps the cursor and the mark: the cursor is where the mark was, and
  jumping again puts both back, however far the two are apart.
\<close>

theorem jumpToMark_round_trip:
  assumes ok: "cm_ok cm" and mark: "markSet cm" "0 \<le> markY cm" "markY cm < TotalLines cm" "0 \<le> markX cm" "markX cm < cmWidth cm"
    and c: "cx cm < cmWidth cm"
  shows "let cm1 = snd (jumpToMark cm); cm2 = snd (jumpToMark cm1) in
    cursorAbsLine cm1 = markY cm \<and> cx cm1 = markX cm \<and>
    cursorAbsLine cm2 = cursorAbsLine cm \<and> cx cm2 = cx cm \<and> markY cm2 = markY cm \<and> markX cm2 = markX cm"
proof -
  have jump: "cursorAbsLine (snd (jumpToMark a)) = markY a \<and> cx (snd (jumpToMark a)) = markX a \<and>
      markY (snd (jumpToMark a)) = cursorAbsLine a \<and> markX (snd (jumpToMark a)) = cx a \<and> markSet (snd (jumpToMark a)) \<and>
      TotalLines (snd (jumpToMark a)) = TotalLines a \<and> cmWidth (snd (jumpToMark a)) = cmWidth a"
    if "cm_ok a" "markSet a" "0 \<le> markY a" "markY a < TotalLines a" "0 \<le> markX a" "markX a < cmWidth a" for a
    using that scrollToAbsolute_line [of a "markY a" "markX a"]
    by (auto simp: jumpToMark_def Let_def updateSelection_def cursorAbsLine_def TotalLines_def scrollToAbsolute_def clamp_id)
  let ?a = "snd (jumpToMark cm)"
  have a: "cm_ok ?a" using ok by simp
  note first = jump [OF ok mark]
  have "0 \<le> cursorAbsLine cm" "cursorAbsLine cm < TotalLines cm" "0 \<le> cx cm" using cursorAbsLine_range [OF ok] cm_okD(7) [OF ok] by simp_all
  then show ?thesis using first jump [OF a] c by (simp add: Let_def)
qed

lemma jumpToMark_round_trip_witness:
  "let cm = sampleCopy\<lparr>markSet := True, markX := 3, markY := 0\<rparr>; cm2 = snd (jumpToMark (snd (jumpToMark cm)))
   in cursorAbsLine cm2 = 2 \<and> cx cm2 = 0"
proof -
  let ?cm = "sampleCopy\<lparr>markSet := True, markX := 3, markY := 0\<rparr>"
  have "cm_ok ?cm" using sampleCopy_ok by simp
  moreover have "TotalLines ?cm = 5" "cmWidth ?cm = 10" "cx ?cm = 0" "cursorAbsLine ?cm = 2"
    by (simp_all add: sample_copy_defs New_def TotalLines_def ScrollbackLen_def cursorAbsLine_def clamp_def)
  ultimately show ?thesis using jumpToMark_round_trip [of ?cm] by (simp add: Let_def)
qed

text \<open>
  C18. On a bracket, \<^verbatim>\<open>%\<close> goes to a bracket from which \<^verbatim>\<open>%\<close> comes back, over any number of lines
  and brackets between, as long as the lines fit the pane.
\<close>

theorem matchingBracket_round_trip:
  assumes ok: "cm_ok cm" and on: "cx cm < int (length (cursorLineRunes cm))" "cursorLineRunes cm ! nat (cx cm) \<in> set bracketRunes"
    and fit: "\<And>y. int (length (lineText y cm)) \<le> cmWidth cm"
    and jump: "matchingBracket cm = (ActionRedraw, cm')"
  shows "cursorLineRunes cm' ! nat (cx cm') \<in> set bracketRunes \<and>
    (\<exists>cm''. matchingBracket cm' = (ActionRedraw, cm'') \<and> cursorAbsLine cm'' = cursorAbsLine cm \<and> cx cm'' = cx cm)"
proof -
  let ?y = "cursorAbsLine cm" and ?x = "cx cm"
  obtain my mx where p: "partner cm ?y ?x = Some (my, mx)" and cm': "cm' = updateSelection (scrollToAbsolute my mx cm)"
    using jump matchingBracket_on_bracket [OF on] by (auto split: option.splits)
  have here: "place_ok cm ?y ?x" using cursorAbsLine_range [OF ok] cm_okD(7) [OF ok] on(1) by (simp add: place_ok_def cursorLineRunes_def)
  note there = partner_round_trip [OF p here]
  then have m: "0 \<le> my" "my < TotalLines cm" "0 \<le> mx" "mx < cmWidth cm" "mx < int (length (lineText my cm))" using fit [of my] by (simp_all add: place_ok_def)
  have at: "cursorAbsLine (updateSelection (scrollToAbsolute y x a)) = y \<and> cx (updateSelection (scrollToAbsolute y x a)) = x"
    if "cm_ok a" "0 \<le> y" "y < TotalLines a" "0 \<le> x" "x < cmWidth a" for a y x
    using that scrollToAbsolute_line [of a y x] by (simp add: updateSelection_def cursorAbsLine_def TotalLines_def scrollToAbsolute_def Let_def clamp_id)
  have frame: "cmEmu cm' = cmEmu cm" "cmHeight cm' = cmHeight cm" "cmWidth cm' = cmWidth cm" unfolding cm' by (simp_all add: scrollToAbsolute_def Let_def)
  note same = same_text [OF frame(1,2)]
  have c': "cursorAbsLine cm' = my" "cx cm' = mx" using at [OF ok m(1-4)] cm' by simp_all
  have b: "cx cm' < int (length (cursorLineRunes cm'))" "cursorLineRunes cm' ! nat (cx cm') \<in> set bracketRunes"
    using there m c' same by (simp_all add: cursorLineRunes_def)
  have "matchingBracket cm' = (ActionRedraw, updateSelection (scrollToAbsolute ?y ?x cm'))"
    using matchingBracket_on_bracket [OF b] there c' same by simp
  moreover have "cm_ok cm'" using ok cm' by simp
  ultimately show ?thesis using b(2) at [of cm' ?y ?x] here fit [of ?y] same frame by (auto simp: place_ok_def)
qed

text \<open>Over a line end and back.\<close>

lemma matchingBracket_round_trip_witness:
  "\<exists>cm''. matchingBracket (snd (matchingBracket (sampleCopy\<lparr>oy := 2, cx := 5\<rparr>))) = (ActionRedraw, cm'') \<and> cursorAbsLine cm'' = 0 \<and> cx cm'' = 5"
proof -
  let ?cm = "sampleCopy\<lparr>oy := 2, cx := 5\<rparr>"
  have ok: "cm_ok ?cm" using sampleCopy_ok by (simp add: cm_ok_def maxOY_def sample_copy_defs New_def ScrollbackLen_def)
  have y: "cursorAbsLine ?cm = 0" by (simp add: sample_copy_defs New_def TotalLines_def ScrollbackLen_def cursorAbsLine_def clamp_def)
  have on: "cx ?cm < int (length (cursorLineRunes ?cm))" "cursorLineRunes ?cm ! nat (cx ?cm) \<in> set bracketRunes" by code_simp+
  have "lineText y ?cm \<in> set (scrollback samplePane) \<union> set (screen samplePane) \<union> {[]}" for y
    by (auto simp: lineText_def ScrollbackLineText_def ScreenLineText_def ScrollbackLen_def Let_def sampleCopy_def New_def)
  moreover have "\<forall>t \<in> set (scrollback samplePane) \<union> set (screen samplePane) \<union> {[]}. int (length t) \<le> 10" by (simp add: samplePane_def)
  ultimately have "int (length (lineText y ?cm)) \<le> 10" for y by blast
  then have fit: "int (length (lineText y ?cm)) \<le> cmWidth ?cm" for y by (simp add: sampleCopy_def New_def)
  have "fst (matchingBracket ?cm) = ActionRedraw" by code_simp
  then have "matchingBracket ?cm = (ActionRedraw, snd (matchingBracket ?cm))" by (metis prod.collapse)
  then show ?thesis using matchingBracket_round_trip [OF ok on fit] y by simp
qed

section \<open>What is shown\<close>

text \<open>
  C19. The overlay shows the truth: a cell of the viewport is highlighted as selected exactly if it lies in the
  selection (between its ends in the order of reading, or in the rectangle), and as a match exactly if a
  match covers it.
\<close>

theorem overlay_exact:
  assumes "0 \<le> row" "row < cmHeight cm" "0 \<le> col" "col < cmWidth cm"
  shows "(highlighted {HighlightSelection} row col (viewportOverlay cm) \<longleftrightarrow> selectedAt cm (row + FirstVisibleLine cm) col) \<and>
    (highlighted {HighlightSearchMatch, HighlightCurrentMatch} row col (viewportOverlay cm) \<longleftrightarrow>
      (\<exists>m. m \<in> set (matches cm) \<and> LineIdx m = row + FirstVisibleLine cm \<and> match_Col m \<le> col \<and> col < match_Col m + match_Len m))"
  using highlighted_selection [OF assms] highlighted_matches [OF assms(1,2), of col] by auto

lemma overlay_exact_witness:
  "highlighted {HighlightSelection} 0 4 (viewportOverlay (fold (copy_perform asciiTables appendInput) [OpInput (bytes '' jl'')] sampleCopy))"
proof -
  let ?cm = "fold (copy_perform asciiTables appendInput) [OpInput (bytes '' jl'')] sampleCopy"
  have "selectedAt ?cm (0 + FirstVisibleLine ?cm) 4" "0 < cmHeight ?cm" "4 < cmWidth ?cm" by code_simp+
  then show ?thesis using overlay_exact [of 0 ?cm 4] by simp
qed

section \<open>Defects\<close>

lemma findCharOnLine_panic:
  "findCharOnLine cmd r cm = IndexPanic \<longleftrightarrow> (cmd = key (CHR ''F'') \<or> cmd = key (CHR ''T'')) \<and> int (length (cursorLineRunes cm)) < cx cm"
  by (auto simp: findCharOnLine_def Let_def split: charHit.splits)

lemma findCharOnLine_inside: "findCharOnLine cmd r cm = FoundAt c \<Longrightarrow> cx cm \<le> int (length (cursorLineRunes cm)) \<Longrightarrow> c \<le> int (length (cursorLineRunes cm))"
  using foreRun_le [of "nat (cx cm + 1)" "length (cursorLineRunes cm)"] backRun_le [of "\<lambda>i. cursorLineRunes cm ! i \<noteq> r" "nat (cx cm)"]
  by (auto simp: findCharOnLine_def Let_def split: charHit.splits if_splits)

lemma cursorLineRunes_cx [simp]: "cursorLineRunes (cm\<lparr>cx := c\<rparr>) = cursorLineRunes cm"
  by (simp add: cursorLineRunes_def lineText_def cursorAbsLine_def TotalLines_def Let_def)

lemma charSearchTimes_inside: "cx cm \<le> int (length (cursorLineRunes cm)) \<Longrightarrow> fst (charSearchTimes n cmd r cm) \<noteq> IndexPanic"
proof (induction n arbitrary: cm)
  case (Suc n)
  then show ?case using findCharOnLine_panic [of cmd r cm] findCharOnLine_inside [of cmd r cm] by (auto split: charHit.splits)
qed simp

text \<open>
  C36. Searching for a character towards the left panics exactly if the cursor stands beyond the
  column after the end of its line, where moving down from a longer line or the key \<^verbatim>\<open>l\<close> can put it: the
  search starts at the rune before the cursor and does not ask if the line has one.
\<close>

theorem backward_search_panics:
  assumes "cmd = key (CHR ''F'') \<or> cmd = key (CHR ''T'')"
  shows "fst (executeCharSearch cmd target count cm) = ActionPanic \<longleftrightarrow> int (length (cursorLineRunes cm)) < cx cm"
proof -
  let ?n = "nat (if count \<le> 0 then 1 else count)"
  have n: "?n = Suc (?n - 1)" by simp
  have "fst (executeCharSearch cmd target count cm) = ActionPanic \<longleftrightarrow> fst (charSearchTimes ?n cmd (nat target) cm) = IndexPanic"
    by (auto simp: executeCharSearch_def Let_def split: prod.splits charHit.splits)
  also have "\<dots> \<longleftrightarrow> int (length (cursorLineRunes cm)) < cx cm"
  proof (cases "cx cm \<le> int (length (cursorLineRunes cm))")
    case False
    then have "findCharOnLine cmd (nat target) cm = IndexPanic" using assms by (simp add: findCharOnLine_panic)
    then have "fst (charSearchTimes (Suc m) cmd (nat target) cm) = IndexPanic" for m by simp
    then show ?thesis using False n by (metis not_le_imp_less)
  qed (use charSearchTimes_inside in auto)
  finally show ?thesis .
qed

text \<open>The keys \<^verbatim>\<open>jl\<close> on a pane whose second line is empty put the cursor there.\<close>

lemma backward_search_panics_witness:
  "fst (executeCharSearch (key (CHR ''F'')) 120 1 (snd (HandleInput asciiTables appendInput (bytes ''jl'') sampleCopy))) = ActionPanic \<and>
   fst (HandleInput asciiTables appendInput (bytes ''jlFx'') sampleCopy) = ActionPanic"
proof -
  let ?cm = "snd (HandleInput asciiTables appendInput (bytes ''jl'') sampleCopy)"
  have "int (length (cursorLineRunes ?cm)) < cx ?cm" by code_simp
  moreover have "fst (HandleInput asciiTables appendInput (bytes ''jlFx'') sampleCopy) = ActionPanic" by code_simp
  ultimately show ?thesis using backward_search_panics [of "key (CHR ''F'')" 120 1 ?cm] by simp
qed

text \<open>One byte that is a key on its own, or the escape of a sequence that is not known.\<close>

lemma inputLoop_key:
  assumes "prompt cm = promptNone" "pendingCharSearch cm = 0" "decodeCopyModeKey (b # data) = (k, 1)"
  shows "inputLoop U T (b # data) result cm =
    (let (action, cm1) = handleNormalKey U k (if isScrollKey k then cm else cm\<lparr>scrollExit := False\<rparr>)
     in if action \<in> {ActionExit, ActionYank, ActionPanic} then (action, cm1)
        else inputLoop U T data (if action = ActionRedraw then ActionRedraw else result) cm1)"
  using assms by (subst inputLoop.simps) (auto simp: handleInputChunk_def Let_def split: prod.splits)

lemma unknown_sequence: "decodeCopyModeKey [27, 91, 49, 59, 50, 68] = (27, 1)" "b \<noteq> 27 \<Longrightarrow> decodeCopyModeKey (b # data) = (int b, 1)"
proof -
  show "decodeCopyModeKey [27, 91, 49, 59, 50, 68] = (27, 1)" by code_simp
qed (simp add: decodeCopyModeKey_def)

text \<open>
  A control sequence that copy mode does not know is not skipped: its escape clears the
  selection and its other bytes are keys. Shift-Left, which ends in \<^verbatim>\<open>D\<close>, yanks the rest of the
  line, and so leaves copy mode, in every state outside a prompt or a search for a character.
\<close>

theorem shift_left_yanks:
  assumes "prompt cm = promptNone" "pendingCharSearch cm = 0" "lastCharSearch cm = 0"
  shows "fst (HandleInput U T [27, 91, 49, 59, 50, 68] cm) = ActionYank \<and>
    copyText (snd (HandleInput U T [27, 91, 49, 59, 50, 68] cm)) = endOfLineText cm"
  using assms
  by (simp add: HandleInput_def inputLoop_key unknown_sequence isScrollKey_def key_codes handleNormalKey_def consumeCount_def ClearSelection_def Let_def
     handleMotionKey_def handleLineMotionKey_def handleWordMotionKey_def handleParagraphMotionKey_def handleSearchJumpMotionKey_def repeatAction_def
     repeatCharSearch_def int64_def queueCopyText_def endOfLineText_def lineText_def cursorAbsLine_def TotalLines_def)

lemma shift_left_yanks_witness:
  "fst (HandleInput asciiTables appendInput [27, 91, 49, 59, 50, 68] sampleCopy) = ActionYank \<and>
   copyText (snd (HandleInput asciiTables appendInput [27, 91, 49, 59, 50, 68] sampleCopy)) = bytes ''error''"
proof -
  have "endOfLineText sampleCopy = bytes ''error''"
    by (simp add: endOfLineText_def sampleCopy_def New_def samplePane_def cursorAbsLine_def TotalLines_def ScrollbackLen_def lineText_def ScreenLineText_def
        clamp_def slice_def utf8_def encodeRune_def)
  then show ?thesis using shift_left_yanks [of sampleCopy asciiTables appendInput, unfolded sampleCopy_def New_def] unfolding sampleCopy_def New_def by simp
qed

text \<open>Encoded text never starts with a continuation byte.\<close>

lemma encodeRune_head: "\<exists>b bs. encodeRune r = b # bs \<and> (b < 0x80 \<or> 0xC0 \<le> b)"
  by (simp add: encodeRune_def Let_def)

lemma utf8_head: "utf8 t = b # bs \<Longrightarrow> b < 0x80 \<or> 0xC0 \<le> b"
proof (cases t)
  case (Cons r rs)
  obtain c cs where "encodeRune r = c # cs" "c < 0x80 \<or> 0xC0 \<le> c" using encodeRune_head by blast
  then show "utf8 t = b # bs \<Longrightarrow> b < 0x80 \<or> 0xC0 \<le> b" using Cons by (auto simp: utf8_def)
qed (simp add: utf8_def)

text \<open>
  A selection of several lines is cut at columns that count runes, but in the bytes of the
  lines: starting right of a letter that is not ASCII, the yanked text begins within that letter
  and is the encoding of no text. A selection within one line is cut in runes.
\<close>

theorem selection_splits_rune:
  "\<exists>cm. reachable copy_init copy_allowed (copy_perform asciiTables appendInput) cm \<and> (\<forall>t. SelectedText cm \<noteq> utf8 t)"
proof -
  let ?cm0 = "New \<lparr>scrollback = [], screen = [[0xE9, 0x78], [0x79]]\<rparr> 10 2 0"
  let ?cm = "fold (copy_perform asciiTables appendInput) [OpInput (bytes ''l j'')] ?cm0"
  have "reachable copy_init copy_allowed (copy_perform asciiTables appendInput) ?cm" by (rule copy_runs_reachable) simp_all
  moreover have "SelectedText ?cm = [0xA9, 0x78, 0x0A, 0x79]"
  proof -
    have sel: "selecting ?cm" "\<not> lineSelect ?cm" "\<not> rectSelect ?cm" "selStartY ?cm = 0" "selStartX ?cm = 1" "selEndY ?cm = 1" "selEndX ?cm = 1" by code_simp+
    have "scrollback (cmEmu ?cm) = []" "screen (cmEmu ?cm) = [[0xE9, 0x78], [0x79]]" by code_simp+
    then have l: "lineText 0 ?cm = [0xE9, 0x78]" "lineText 1 ?cm = [0x79]" by (simp_all add: lineText_def ScrollbackLen_def ScreenLineText_def)
    have "[0..1 :: int] = [0, 1]" by (simp add: upto.simps)
    then show ?thesis using sel l
      by (simp add: SelectedText_def normalizedSelection_def selectedLine_def utf8_def encodeRune_def slice_def del: fold_simps)
  qed
  then have "SelectedText ?cm \<noteq> utf8 t" for t using utf8_head [of t "0xA9" "[0x78, 0x0A, 0x79]"] by auto
  ultimately show ?thesis by blast
qed

end
