(* ===== verification/Client_UI.thy ===== *)
theory Client_UI
  imports Copy_Input Layout_Tree "HOL-Library.AList"
begin

text \<open>
  The local user interface of a client (\<^verbatim>\<open>client/ui_state.go\<close>, \<^verbatim>\<open>display_panes.go\<close>,
  \<^verbatim>\<open>chooser.go\<close>, \<^verbatim>\<open>window_rename_prompt.go\<close>, \<^verbatim>\<open>pane_rename_prompt.go\<close>): the overlays it shows,
  the reducer that changes them, and the events that tell the server of it. Of a chooser its mode, its
  query and where its entries come from are kept, of a drag the pane that is dragged; what is drawn is left out.
\<close>

section \<open>Events\<close>

definition UIEventDisplayPanesShown :: string where "UIEventDisplayPanesShown = ''display-panes-shown''"
definition UIEventDisplayPanesHidden :: string where "UIEventDisplayPanesHidden = ''display-panes-hidden''"
definition UIEventPrefixMessageShown :: string where "UIEventPrefixMessageShown = ''prefix-message-shown''"
definition UIEventPrefixMessageHidden :: string where "UIEventPrefixMessageHidden = ''prefix-message-hidden''"
definition UIEventChooseTreeShown :: string where "UIEventChooseTreeShown = ''choose-tree-shown''"
definition UIEventChooseTreeHidden :: string where "UIEventChooseTreeHidden = ''choose-tree-hidden''"
definition UIEventChooseWindowShown :: string where "UIEventChooseWindowShown = ''choose-window-shown''"
definition UIEventChooseWindowHidden :: string where "UIEventChooseWindowHidden = ''choose-window-hidden''"
definition UIEventCopyModeShown :: string where "UIEventCopyModeShown = ''copy-mode-shown''"
definition UIEventCopyModeHidden :: string where "UIEventCopyModeHidden = ''copy-mode-hidden''"
definition UIEventInputBusy :: string where "UIEventInputBusy = ''input-busy''"
definition UIEventInputIdle :: string where "UIEventInputIdle = ''input-idle''"
definition UIEventClientFocusGained :: string where "UIEventClientFocusGained = ''client-focus-gained''"

lemmas ui_event_names = UIEventDisplayPanesShown_def UIEventDisplayPanesHidden_def UIEventPrefixMessageShown_def UIEventPrefixMessageHidden_def
  UIEventChooseTreeShown_def UIEventChooseTreeHidden_def UIEventChooseWindowShown_def UIEventChooseWindowHidden_def
  UIEventCopyModeShown_def UIEventCopyModeHidden_def UIEventInputBusy_def UIEventInputIdle_def UIEventClientFocusGained_def

definition stateEvents :: "string list" where
  "stateEvents = [UIEventDisplayPanesShown, UIEventDisplayPanesHidden, UIEventPrefixMessageShown, UIEventPrefixMessageHidden,
     UIEventChooseTreeShown, UIEventChooseTreeHidden, UIEventChooseWindowShown, UIEventChooseWindowHidden, UIEventCopyModeShown,
     UIEventCopyModeHidden, UIEventInputBusy, UIEventInputIdle]"

definition IsKnownUIEvent :: "string \<Rightarrow> bool" where
  "IsKnownUIEvent name \<longleftrightarrow> name \<in> set (stateEvents @ [UIEventClientFocusGained])"

lemma stateEvents_distinct: "distinct (stateEvents @ [UIEventClientFocusGained])"
  by (simp add: stateEvents_def ui_event_names)

section \<open>State\<close>

record TextInputState =
  input_Value :: runes_text
  input_Cursor :: int

record displayPanesState =
  dp_labels :: "(uint32 \<times> char) list"
  dp_targets :: "(char \<times> uint32) list"

datatype chooserMode = chooserModeTree | chooserModeWindow | chooserModeRemote

datatype chooserSource = localChooserSource | remoteChooserSource

record chooserState =
  ch_mode :: chooserMode
  ch_query :: TextInputState
  ch_source :: chooserSource

record windowRenamePromptState =
  wr_input :: TextInputState

record paneRenamePromptState =
  pr_paneRef :: runes_text
  pr_input :: TextInputState

record helpBarState =
  hb_items :: "(string \<times> string) list"

record clientUIState =
  ui_dirty :: bool
  ui_dirtyPanes :: "uint32 set"
  ui_fullRedraw :: bool
  ui_copyModes :: "(uint32 \<times> CopyMode) list"
  ui_displayPanes :: "displayPanesState option"
  ui_paneDrag :: "uint32 option"
  ui_windowTabDrag :: "unit option"
  ui_chooser :: "chooserState option"
  ui_windowRenamePrompt :: "windowRenamePromptState option"
  ui_paneRenamePrompt :: "paneRenamePromptState option"
  ui_helpBar :: "helpBarState option"
  ui_message :: string
  ui_inputIdle :: bool

definition newClientUIState :: clientUIState where
  "newClientUIState = \<lparr>ui_dirty = False, ui_dirtyPanes = {}, ui_fullRedraw = False, ui_copyModes = [], ui_displayPanes = None, ui_paneDrag = None,
     ui_windowTabDrag = None, ui_chooser = None, ui_windowRenamePrompt = None, ui_paneRenamePrompt = None, ui_helpBar = None, ui_message = [],
     ui_inputIdle = True\<rparr>"

fun chooserModeName :: "chooserMode \<Rightarrow> string" where
  "chooserModeName chooserModeTree = ''tree''"
| "chooserModeName chooserModeWindow = ''window''"
| "chooserModeName chooserModeRemote = ''remote''"

fun shownEvent :: "chooserMode \<Rightarrow> string" where
  "shownEvent chooserModeTree = UIEventChooseTreeShown"
| "shownEvent chooserModeWindow = UIEventChooseWindowShown"
| "shownEvent chooserModeRemote = []"

fun hiddenEvent :: "chooserMode \<Rightarrow> string" where
  "hiddenEvent chooserModeTree = UIEventChooseTreeHidden"
| "hiddenEvent chooserModeWindow = UIEventChooseWindowHidden"
| "hiddenEvent chooserModeRemote = []"

section \<open>The reducer\<close>

type_synonym uiResult = "string list \<times> clientUIState"

definition markPaneDirty :: "uint32 \<Rightarrow> clientUIState \<Rightarrow> clientUIState" where
  "markPaneDirty paneID st =
     (let st1 = st\<lparr>ui_dirty := True\<rparr> in if paneID = 0 then st1 else st1\<lparr>ui_dirtyPanes := insert paneID (ui_dirtyPanes st1)\<rparr>)"

definition markRendered :: "clientUIState \<Rightarrow> clientUIState" where
  "markRendered st = st\<lparr>ui_dirty := False, ui_fullRedraw := False, ui_dirtyPanes := {}\<rparr>"

text \<open>The events for what an action hides.\<close>

definition displayPanesEvents :: "clientUIState \<Rightarrow> string list" where
  "displayPanesEvents st = (if ui_displayPanes st \<noteq> None then [UIEventDisplayPanesHidden] else [])"

definition chooserEvents :: "clientUIState \<Rightarrow> string list" where
  "chooserEvents st = (case ui_chooser st of Some ch \<Rightarrow> [hiddenEvent (ch_mode ch)] | None \<Rightarrow> [])"

definition reduceHandleLayout :: "bool \<Rightarrow> clientUIState \<Rightarrow> uiResult" where
  "reduceHandleLayout structureChanged st =
     (if structureChanged then
        (displayPanesEvents st @ chooserEvents st @ (if ui_message st \<noteq> [] then [UIEventPrefixMessageHidden] else []),
         st\<lparr>ui_displayPanes := None, ui_paneDrag := None, ui_windowTabDrag := None, ui_chooser := None, ui_windowRenamePrompt := None,
           ui_paneRenamePrompt := None, ui_helpBar := None, ui_message := [], ui_dirty := True\<rparr>)
      else ([], st\<lparr>ui_dirty := True\<rparr>))"

definition reduceSetInputIdle :: "bool \<Rightarrow> clientUIState \<Rightarrow> uiResult" where
  "reduceSetInputIdle idle st =
     (if ui_inputIdle st = idle then ([], st)
      else ([if idle then UIEventInputIdle else UIEventInputBusy], st\<lparr>ui_inputIdle := idle\<rparr>))"

definition reduceShowChooser :: "chooserState \<Rightarrow> clientUIState \<Rightarrow> uiResult" where
  "reduceShowChooser ch st =
     (let previous = ui_chooser st;
          st1 = st\<lparr>ui_displayPanes := None, ui_paneDrag := None, ui_windowRenamePrompt := None, ui_paneRenamePrompt := None,
                  ui_helpBar := None, ui_chooser := Some ch, ui_dirty := True\<rparr>
      in (displayPanesEvents st @
            (case previous of
               None \<Rightarrow> [shownEvent (ch_mode ch)]
             | Some old \<Rightarrow> if ch_mode old \<noteq> ch_mode ch then [hiddenEvent (ch_mode old), shownEvent (ch_mode ch)] else []),
          st1))"

definition reduceShowWindowRenamePrompt :: "windowRenamePromptState \<Rightarrow> clientUIState \<Rightarrow> uiResult" where
  "reduceShowWindowRenamePrompt p st =
     (displayPanesEvents st @ chooserEvents st,
      st\<lparr>ui_displayPanes := None, ui_paneDrag := None, ui_chooser := None, ui_helpBar := None, ui_paneRenamePrompt := None,
        ui_windowRenamePrompt := Some p, ui_dirty := True\<rparr>)"

definition reduceShowPaneRenamePrompt :: "paneRenamePromptState \<Rightarrow> clientUIState \<Rightarrow> uiResult" where
  "reduceShowPaneRenamePrompt p st =
     (displayPanesEvents st @ chooserEvents st,
      st\<lparr>ui_displayPanes := None, ui_paneDrag := None, ui_chooser := None, ui_windowRenamePrompt := None, ui_helpBar := None,
        ui_paneRenamePrompt := Some p, ui_dirty := True\<rparr>)"

definition reduceShowHelpBar :: "helpBarState \<Rightarrow> clientUIState \<Rightarrow> uiResult" where
  "reduceShowHelpBar bar st =
     (displayPanesEvents st @ chooserEvents st,
      st\<lparr>ui_displayPanes := None, ui_chooser := None, ui_windowRenamePrompt := None, ui_paneRenamePrompt := None, ui_paneDrag := None,
        ui_helpBar := Some bar, ui_dirty := True\<rparr>)"

datatype overlayAction =
    ShowDisplayPanes displayPanesState
  | HideDisplayPanes
  | ShowChooser chooserState
  | HideChooser
  | ShowWindowRenamePrompt windowRenamePromptState
  | HideWindowRenamePrompt
  | ShowPaneRenamePrompt paneRenamePromptState
  | HidePaneRenamePrompt
  | ShowHelpBar helpBarState
  | HideHelpBar

datatype uiAction =
    HandleLayout bool
  | SetInputIdle bool
  | PaneOutput uint32
  | SetMessage string
  | ClearMessage
  | ShowPaneDrag uint32
  | HidePaneDrag
  | ShowWindowTabDrag
  | HideWindowTabDrag
  | EnterCopyMode uint32 CopyMode
  | ExitCopyMode uint32
  | OverlayAction overlayAction

fun reduceOverlay :: "overlayAction \<Rightarrow> clientUIState \<Rightarrow> uiResult" where
  "reduceOverlay (ShowDisplayPanes dp) st =
     (if ui_displayPanes st \<noteq> None then [] else [UIEventDisplayPanesShown], st\<lparr>ui_displayPanes := Some dp, ui_dirty := True\<rparr>)"
| "reduceOverlay HideDisplayPanes st =
     (if ui_displayPanes st = None then ([], st) else ([UIEventDisplayPanesHidden], st\<lparr>ui_displayPanes := None, ui_dirty := True\<rparr>))"
| "reduceOverlay (ShowChooser ch) st = reduceShowChooser ch st"
| "reduceOverlay HideChooser st = (if ui_chooser st = None then ([], st) else (chooserEvents st, st\<lparr>ui_chooser := None, ui_dirty := True\<rparr>))"
| "reduceOverlay (ShowWindowRenamePrompt p) st = reduceShowWindowRenamePrompt p st"
| "reduceOverlay HideWindowRenamePrompt st =
     (if ui_windowRenamePrompt st = None then ([], st) else ([], st\<lparr>ui_windowRenamePrompt := None, ui_dirty := True\<rparr>))"
| "reduceOverlay (ShowPaneRenamePrompt p) st = reduceShowPaneRenamePrompt p st"
| "reduceOverlay HidePaneRenamePrompt st =
     (if ui_paneRenamePrompt st = None then ([], st) else ([], st\<lparr>ui_paneRenamePrompt := None, ui_dirty := True\<rparr>))"
| "reduceOverlay (ShowHelpBar bar) st = reduceShowHelpBar bar st"
| "reduceOverlay HideHelpBar st = (if ui_helpBar st = None then ([], st) else ([], st\<lparr>ui_helpBar := None, ui_dirty := True\<rparr>))"

fun reduce :: "uiAction \<Rightarrow> clientUIState \<Rightarrow> uiResult" where
  "reduce (HandleLayout structureChanged) st = reduceHandleLayout structureChanged st"
| "reduce (SetInputIdle idle) st = reduceSetInputIdle idle st"
| "reduce (PaneOutput paneID) st = ([], markPaneDirty paneID st)"
| "reduce (SetMessage msg) st =
     (let wasVisible = (ui_message st \<noteq> []) in
      (if \<not> wasVisible \<and> msg \<noteq> [] then [UIEventPrefixMessageShown]
       else if wasVisible \<and> msg = [] then [UIEventPrefixMessageHidden] else [],
       st\<lparr>ui_message := msg, ui_dirty := True\<rparr>))"
| "reduce ClearMessage st =
     (if ui_message st = [] then ([], st) else ([UIEventPrefixMessageHidden], st\<lparr>ui_message := [], ui_dirty := True\<rparr>))"
| "reduce (ShowPaneDrag p) st = ([], st\<lparr>ui_paneDrag := Some p, ui_dirty := True\<rparr>)"
| "reduce HidePaneDrag st = (if ui_paneDrag st = None then ([], st) else ([], st\<lparr>ui_paneDrag := None, ui_dirty := True\<rparr>))"
| "reduce ShowWindowTabDrag st = ([], st\<lparr>ui_windowTabDrag := Some (), ui_dirty := True\<rparr>)"
| "reduce HideWindowTabDrag st = (if ui_windowTabDrag st = None then ([], st) else ([], st\<lparr>ui_windowTabDrag := None, ui_dirty := True\<rparr>))"
| "reduce (EnterCopyMode paneID mode) st =
     (if map_of (ui_copyModes st) paneID \<noteq> None then ([], st)
      else (if ui_copyModes st \<noteq> [] then [] else [UIEventCopyModeShown],
            st\<lparr>ui_copyModes := AList.update paneID mode (ui_copyModes st), ui_dirty := True\<rparr>))"
| "reduce (ExitCopyMode paneID) st =
     (let rest = AList.delete paneID (ui_copyModes st)
      in (if ui_copyModes st \<noteq> [] \<and> rest = [] then [UIEventCopyModeHidden] else [], st\<lparr>ui_copyModes := rest, ui_dirty := True\<rparr>))"
| "reduce (OverlayAction a) st = reduceOverlay a st"

definition emitUIEvents :: "string list \<Rightarrow> string list" where
  "emitUIEvents names = filter (\<lambda>name. name \<noteq> []) names"

text \<open>The tabulator key flips a chooser between its views; it tells nobody.\<close>

fun toggleMode :: "chooserSource \<Rightarrow> chooserMode \<Rightarrow> chooserMode" where
  "toggleMode localChooserSource mode = (if mode = chooserModeWindow then chooserModeTree else chooserModeWindow)"
| "toggleMode remoteChooserSource mode = mode"

definition toggleChooserMode :: "clientUIState \<Rightarrow> clientUIState" where
  "toggleChooserMode st =
     (case ui_chooser st of
        None \<Rightarrow> st
      | Some ch \<Rightarrow> let nextMode = toggleMode (ch_source ch) (ch_mode ch)
                   in if nextMode = ch_mode ch then st else st\<lparr>ui_chooser := Some (ch\<lparr>ch_mode := nextMode\<rparr>), ui_dirty := True\<rparr>)"

record CaptureUI =
  cap_CopyMode :: bool
  cap_DisplayPanes :: bool
  cap_Chooser :: string
  cap_Prompt :: string
  cap_InputIdle :: bool

definition captureUI :: "clientUIState \<Rightarrow> CaptureUI" where
  "captureUI st = \<lparr>cap_CopyMode = (ui_copyModes st \<noteq> []), cap_DisplayPanes = (ui_displayPanes st \<noteq> None),
     cap_Chooser = (case ui_chooser st of Some ch \<Rightarrow> chooserModeName (ch_mode ch) | None \<Rightarrow> []),
     cap_Prompt = (if ui_windowRenamePrompt st \<noteq> None then ''rename-window'' else if ui_paneRenamePrompt st \<noteq> None then ''rename-pane'' else []),
     cap_InputIdle = ui_inputIdle st\<rparr>"

end
