(* ===== verification/Server_UI.thy ===== *)
theory Server_UI
  imports Client_UI
begin

text \<open>
  What the server knows of the user interface of a client (\<^verbatim>\<open>server/client_ui.go\<close>): it follows the
  events of the client, answers whether an event has happened, and replays the state to new
  subscribers.
\<close>

definition chooserHidden :: string where "chooserHidden = []"
definition chooserTree :: string where "chooserTree = ''tree''"
definition chooserWindow :: string where "chooserWindow = ''window''"

lemmas chooser_names = chooserHidden_def chooserTree_def chooserWindow_def

record clientConn =
  cc_displayPanesShown :: bool
  cc_chooserMode :: string
  cc_prefixMessageShown :: bool
  cc_copyModeShown :: bool
  cc_inputIdle :: bool
  cc_uiGeneration :: uint64

definition newClientConn :: clientConn where
  "newClientConn = \<lparr>cc_displayPanesShown = False, cc_chooserMode = chooserHidden, cc_prefixMessageShown = False, cc_copyModeShown = False,
     cc_inputIdle = True, cc_uiGeneration = 0\<rparr>"

definition chooserEventState :: "string \<Rightarrow> (string \<times> bool) option" where
  "chooserEventState name =
     (if name = UIEventChooseTreeShown then Some (chooserTree, True)
      else if name = UIEventChooseTreeHidden then Some (chooserTree, False)
      else if name = UIEventChooseWindowShown then Some (chooserWindow, True)
      else if name = UIEventChooseWindowHidden then Some (chooserWindow, False)
      else None)"

text \<open>Whether the state changed; \<open>None\<close> for an unknown event.\<close>

definition applyUIEvent :: "string \<Rightarrow> clientConn \<Rightarrow> bool option \<times> clientConn" where
  "applyUIEvent name cc =
     (case chooserEventState name of
        Some (mode, shown) \<Rightarrow>
          if shown then (if cc_chooserMode cc = mode then (Some False, cc) else (Some True, cc\<lparr>cc_chooserMode := mode\<rparr>))
          else (if cc_chooserMode cc \<noteq> mode then (Some False, cc) else (Some True, cc\<lparr>cc_chooserMode := chooserHidden\<rparr>))
      | None \<Rightarrow>
          if name = UIEventDisplayPanesShown then
            (if cc_displayPanesShown cc then (Some False, cc) else (Some True, cc\<lparr>cc_displayPanesShown := True\<rparr>))
          else if name = UIEventDisplayPanesHidden then
            (if \<not> cc_displayPanesShown cc then (Some False, cc) else (Some True, cc\<lparr>cc_displayPanesShown := False\<rparr>))
          else if name = UIEventPrefixMessageShown then
            (if cc_prefixMessageShown cc then (Some False, cc) else (Some True, cc\<lparr>cc_prefixMessageShown := True\<rparr>))
          else if name = UIEventPrefixMessageHidden then
            (if \<not> cc_prefixMessageShown cc then (Some False, cc) else (Some True, cc\<lparr>cc_prefixMessageShown := False\<rparr>))
          else if name = UIEventCopyModeShown then
            (if cc_copyModeShown cc then (Some False, cc) else (Some True, cc\<lparr>cc_copyModeShown := True\<rparr>))
          else if name = UIEventCopyModeHidden then
            (if \<not> cc_copyModeShown cc then (Some False, cc) else (Some True, cc\<lparr>cc_copyModeShown := False\<rparr>))
          else if name = UIEventInputBusy then
            (if \<not> cc_inputIdle cc then (Some False, cc) else (Some True, cc\<lparr>cc_inputIdle := False\<rparr>))
          else if name = UIEventInputIdle then
            (if cc_inputIdle cc then (Some False, cc) else (Some True, cc\<lparr>cc_inputIdle := True\<rparr>))
          else (None, cc))"

definition matchesUIEvent :: "string \<Rightarrow> clientConn \<Rightarrow> bool" where
  "matchesUIEvent name cc =
     (case chooserEventState name of
        Some (mode, shown) \<Rightarrow> if shown then cc_chooserMode cc = mode else cc_chooserMode cc \<noteq> mode
      | None \<Rightarrow>
          if name = UIEventDisplayPanesShown then cc_displayPanesShown cc
          else if name = UIEventDisplayPanesHidden then \<not> cc_displayPanesShown cc
          else if name = UIEventPrefixMessageShown then cc_prefixMessageShown cc
          else if name = UIEventPrefixMessageHidden then \<not> cc_prefixMessageShown cc
          else if name = UIEventCopyModeShown then cc_copyModeShown cc
          else if name = UIEventCopyModeHidden then \<not> cc_copyModeShown cc
          else if name = UIEventInputBusy then \<not> cc_inputIdle cc
          else if name = UIEventInputIdle then cc_inputIdle cc
          else False)"

definition chooserSnapshotEvent :: "string \<Rightarrow> string \<Rightarrow> string" where
  "chooserSnapshotEvent mode current =
     (if current = mode \<and> mode = chooserTree then UIEventChooseTreeShown
      else if current = mode \<and> mode = chooserWindow then UIEventChooseWindowShown
      else if mode = chooserTree then UIEventChooseTreeHidden
      else if mode = chooserWindow then UIEventChooseWindowHidden
      else [])"

definition currentUIEvents :: "clientConn \<Rightarrow> string list" where
  "currentUIEvents cc =
     [if cc_displayPanesShown cc then UIEventDisplayPanesShown else UIEventDisplayPanesHidden,
      if cc_prefixMessageShown cc then UIEventPrefixMessageShown else UIEventPrefixMessageHidden,
      if cc_copyModeShown cc then UIEventCopyModeShown else UIEventCopyModeHidden,
      if \<not> cc_inputIdle cc then UIEventInputBusy else UIEventInputIdle,
      chooserSnapshotEvent chooserTree (cc_chooserMode cc),
      chooserSnapshotEvent chooserWindow (cc_chooserMode cc)]"

definition displayPanesStateName :: "clientConn \<Rightarrow> string" where
  "displayPanesStateName cc = (if cc_displayPanesShown cc then ''shown'' else ''hidden'')"

definition chooserStateName :: "clientConn \<Rightarrow> string" where
  "chooserStateName cc = (if cc_chooserMode cc = chooserHidden then ''hidden'' else cc_chooserMode cc)"

text \<open>
  The handler of an event: what it sends to subscribers. Focus is an event without a state.
\<close>

definition uiEventCmd :: "string \<Rightarrow> clientConn \<Rightarrow> string list \<times> clientConn" where
  "uiEventCmd name cc =
     (if name = UIEventClientFocusGained then ([name], cc\<lparr>cc_uiGeneration := cc_uiGeneration cc + 1\<rparr>)
      else case applyUIEvent name cc of
        (None, cc1) \<Rightarrow> ([], cc1)
      | (Some changed, cc1) \<Rightarrow> if changed then ([name], cc1\<lparr>cc_uiGeneration := cc_uiGeneration cc1 + 1\<rparr>) else ([], cc1))"

definition receiveEvents :: "string list \<Rightarrow> clientConn \<Rightarrow> clientConn" where
  "receiveEvents names cc = fold (\<lambda>name cc. snd (uiEventCmd name cc)) names cc"

end
