(* ===== verification/UI_Laws.thy ===== *)
theory UI_Laws
  imports Server_UI State_Machine
begin

text \<open>
  A client and the server's record of it, driven by the actions of the client: the record follows
  the user interface, the view of a chooser that was toggled apart, and at most one dialog is open.
\<close>

section \<open>Events\<close>

lemma event_neq [simp]:
  "UIEventDisplayPanesShown \<noteq> []" "UIEventDisplayPanesHidden \<noteq> []" "UIEventPrefixMessageShown \<noteq> []" "UIEventPrefixMessageHidden \<noteq> []"
  "UIEventChooseTreeShown \<noteq> []" "UIEventChooseTreeHidden \<noteq> []" "UIEventChooseWindowShown \<noteq> []" "UIEventChooseWindowHidden \<noteq> []"
  "UIEventCopyModeShown \<noteq> []" "UIEventCopyModeHidden \<noteq> []" "UIEventInputBusy \<noteq> []" "UIEventInputIdle \<noteq> []"
  by (simp_all add: ui_event_names)

text \<open>What an event does to the record, its generation apart.\<close>

definition forget :: "clientConn \<Rightarrow> clientConn" where
  "forget cc = cc\<lparr>cc_uiGeneration := 0\<rparr>"

lemma receiveEvents_simps [simp]:
  "receiveEvents [] cc = cc" "receiveEvents (e # es) cc = receiveEvents es (snd (uiEventCmd e cc))"
  "receiveEvents (es @ fs) cc = receiveEvents fs (receiveEvents es cc)"
  by (simp_all add: receiveEvents_def)

lemma emitUIEvents_simps [simp]:
  "emitUIEvents [] = []" "emitUIEvents (e # es) = (if e = [] then emitUIEvents es else e # emitUIEvents es)"
  "emitUIEvents (es @ fs) = emitUIEvents es @ emitUIEvents fs"
  by (simp_all add: emitUIEvents_def)

lemma handled:
  "snd (uiEventCmd UIEventDisplayPanesShown cc) = (if cc_displayPanesShown cc then cc else cc\<lparr>cc_displayPanesShown := True, cc_uiGeneration := cc_uiGeneration cc + 1\<rparr>)"
  "snd (uiEventCmd UIEventDisplayPanesHidden cc) = (if cc_displayPanesShown cc then cc\<lparr>cc_displayPanesShown := False, cc_uiGeneration := cc_uiGeneration cc + 1\<rparr> else cc)"
  "snd (uiEventCmd UIEventPrefixMessageShown cc) = (if cc_prefixMessageShown cc then cc else cc\<lparr>cc_prefixMessageShown := True, cc_uiGeneration := cc_uiGeneration cc + 1\<rparr>)"
  "snd (uiEventCmd UIEventPrefixMessageHidden cc) = (if cc_prefixMessageShown cc then cc\<lparr>cc_prefixMessageShown := False, cc_uiGeneration := cc_uiGeneration cc + 1\<rparr> else cc)"
  "snd (uiEventCmd UIEventCopyModeShown cc) = (if cc_copyModeShown cc then cc else cc\<lparr>cc_copyModeShown := True, cc_uiGeneration := cc_uiGeneration cc + 1\<rparr>)"
  "snd (uiEventCmd UIEventCopyModeHidden cc) = (if cc_copyModeShown cc then cc\<lparr>cc_copyModeShown := False, cc_uiGeneration := cc_uiGeneration cc + 1\<rparr> else cc)"
  "snd (uiEventCmd UIEventInputBusy cc) = (if cc_inputIdle cc then cc\<lparr>cc_inputIdle := False, cc_uiGeneration := cc_uiGeneration cc + 1\<rparr> else cc)"
  "snd (uiEventCmd UIEventInputIdle cc) = (if cc_inputIdle cc then cc else cc\<lparr>cc_inputIdle := True, cc_uiGeneration := cc_uiGeneration cc + 1\<rparr>)"
  by (simp_all add: uiEventCmd_def applyUIEvent_def chooserEventState_def ui_event_names)

lemma handled_chooser:
  "snd (uiEventCmd UIEventChooseTreeShown cc) = (if cc_chooserMode cc = chooserTree then cc else cc\<lparr>cc_chooserMode := chooserTree, cc_uiGeneration := cc_uiGeneration cc + 1\<rparr>)"
  "snd (uiEventCmd UIEventChooseTreeHidden cc) = (if cc_chooserMode cc = chooserTree then cc\<lparr>cc_chooserMode := chooserHidden, cc_uiGeneration := cc_uiGeneration cc + 1\<rparr> else cc)"
  "snd (uiEventCmd UIEventChooseWindowShown cc) = (if cc_chooserMode cc = chooserWindow then cc else cc\<lparr>cc_chooserMode := chooserWindow, cc_uiGeneration := cc_uiGeneration cc + 1\<rparr>)"
  "snd (uiEventCmd UIEventChooseWindowHidden cc) = (if cc_chooserMode cc = chooserWindow then cc\<lparr>cc_chooserMode := chooserHidden, cc_uiGeneration := cc_uiGeneration cc + 1\<rparr> else cc)"
  by (simp_all add: uiEventCmd_def applyUIEvent_def chooserEventState_def ui_event_names)

section \<open>Invariant\<close>

text \<open>The record says what the client shows; a remote chooser has no events.\<close>

definition shownChooser :: "clientUIState \<Rightarrow> string" where
  "shownChooser st =
     (case ui_chooser st of Some ch \<Rightarrow> (if ch_mode ch = chooserModeRemote then chooserHidden else chooserModeName (ch_mode ch)) | None \<Rightarrow> chooserHidden)"

definition synced :: "clientUIState \<Rightarrow> clientConn \<Rightarrow> bool" where
  "synced st cc \<longleftrightarrow> cc_displayPanesShown cc = (ui_displayPanes st \<noteq> None) \<and> cc_prefixMessageShown cc = (ui_message st \<noteq> []) \<and>
     cc_copyModeShown cc = (ui_copyModes st \<noteq> []) \<and> cc_inputIdle cc = ui_inputIdle st \<and> cc_chooserMode cc = shownChooser st"

text \<open>At most one dialog that takes keys is open.\<close>

definition oneDialog :: "clientUIState \<Rightarrow> bool" where
  "oneDialog st \<longleftrightarrow>
     length (filter id [ui_chooser st \<noteq> None, ui_windowRenamePrompt st \<noteq> None, ui_paneRenamePrompt st \<noteq> None, ui_helpBar st \<noteq> None]) \<le> 1"

lemma oneDialog_reduce: "oneDialog st \<Longrightarrow> oneDialog (snd (reduce a st))"
  by (cases "(a, st)" rule: reduce.cases; cases "(case a of OverlayAction o' \<Rightarrow> o' | _ \<Rightarrow> HideHelpBar, st)" rule: reduceOverlay.cases)
    (auto simp: oneDialog_def reduceHandleLayout_def reduceSetInputIdle_def markPaneDirty_def Let_def reduceShowChooser_def
      reduceShowWindowRenamePrompt_def reduceShowPaneRenamePrompt_def reduceShowHelpBar_def split: if_splits)

lemmas synced_simps = synced_def shownChooser_def displayPanesEvents_def chooserEvents_def handled handled_chooser chooser_names

lemma synced_overlay: "synced st cc \<Longrightarrow> synced (snd (reduceOverlay a st)) (receiveEvents (emitUIEvents (fst (reduceOverlay a st))) cc)"
proof (cases "(a, st)" rule: reduceOverlay.cases)
  case (3 ch st')
  then show ?thesis if "synced st cc" using that
    by (cases "ch_mode ch"; cases "ui_chooser st"; cases "ch_mode (the (ui_chooser st))")
      (auto simp: reduceShowChooser_def Let_def synced_simps)
next
  case (4 st')
  then show ?thesis if "synced st cc" using that
    by (cases "ui_chooser st"; cases "ch_mode (the (ui_chooser st))") (auto simp: synced_simps)
next
  case (5 p st')
  then show ?thesis if "synced st cc" using that
    by (cases "ui_chooser st"; cases "ch_mode (the (ui_chooser st))") (auto simp: reduceShowWindowRenamePrompt_def synced_simps)
next
  case (7 p st')
  then show ?thesis if "synced st cc" using that
    by (cases "ui_chooser st"; cases "ch_mode (the (ui_chooser st))") (auto simp: reduceShowPaneRenamePrompt_def synced_simps)
next
  case (9 bar st')
  then show ?thesis if "synced st cc" using that
    by (cases "ui_chooser st"; cases "ch_mode (the (ui_chooser st))") (auto simp: reduceShowHelpBar_def synced_simps)
qed (auto simp: synced_simps)

lemma update_not_Nil [simp]: "AList.update k v l \<noteq> []"
  by (induction l) auto

lemma synced_reduce: "synced st cc \<Longrightarrow> synced (snd (reduce a st)) (receiveEvents (emitUIEvents (fst (reduce a st))) cc)"
proof (cases "(a, st)" rule: reduce.cases)
  case (1 changed st')
  then show ?thesis if "synced st cc" using that
    by (cases "ui_chooser st"; cases "ch_mode (the (ui_chooser st))") (auto simp: reduceHandleLayout_def synced_simps)
next
  case (12 a' st')
  then show ?thesis if "synced st cc" using that synced_overlay by simp
qed (auto simp: synced_simps reduceSetInputIdle_def markPaneDirty_def Let_def)

section \<open>The composed system\<close>

definition ui_perform :: "uiAction \<Rightarrow> clientUIState \<times> clientConn \<Rightarrow> clientUIState \<times> clientConn" where
  "ui_perform a sys = (let (names, st) = reduce a (fst sys) in (st, receiveEvents (emitUIEvents names) (snd sys)))"

definition ui_ok :: "clientUIState \<times> clientConn \<Rightarrow> bool" where
  "ui_ok sys \<longleftrightarrow> synced (fst sys) (snd sys) \<and> oneDialog (fst sys)"

lemma ui_ok_new: "ui_ok (newClientUIState, newClientConn)"
  by (simp add: ui_ok_def synced_simps oneDialog_def newClientUIState_def newClientConn_def)

text \<open>
  Everything that changes what a client shows: the actions of the reducer, and the key that toggles the view of a
  chooser. A flag of the model remembers whether the view was toggled since a chooser with events came to be shown.
\<close>

datatype ui_op = Act uiAction | ToggleChooser

fun opensChooser :: "uiAction \<Rightarrow> clientUIState \<Rightarrow> bool" where
  "opensChooser (OverlayAction (ShowChooser ch)) st \<longleftrightarrow> ch_mode ch \<noteq> chooserModeRemote \<and> map_option ch_mode (ui_chooser st) \<noteq> Some (ch_mode ch)"
| "opensChooser a st \<longleftrightarrow> False"

fun ui_step :: "ui_op \<Rightarrow> clientUIState \<times> clientConn \<times> bool \<Rightarrow> clientUIState \<times> clientConn \<times> bool" where
  "ui_step (Act a) (st, cc, toggled) = (case ui_perform a (st, cc) of (st', cc') \<Rightarrow> (st', cc', toggled \<and> \<not> opensChooser a st))"
| "ui_step ToggleChooser (st, cc, toggled) = (toggleChooserMode st, cc, toggled \<or> toggleChooserMode st \<noteq> st)"

definition ui_init :: "clientUIState \<times> clientConn \<times> bool \<Rightarrow> bool" where
  "ui_init sys \<longleftrightarrow> sys = (newClientUIState, newClientConn, False)"

text \<open>The part of the record that no chooser touches.\<close>

definition flagsSynced :: "clientUIState \<Rightarrow> clientConn \<Rightarrow> bool" where
  "flagsSynced st cc \<longleftrightarrow> cc_displayPanesShown cc = (ui_displayPanes st \<noteq> None) \<and> cc_prefixMessageShown cc = (ui_message st \<noteq> []) \<and>
     cc_copyModeShown cc = (ui_copyModes st \<noteq> []) \<and> cc_inputIdle cc = ui_inputIdle st"

lemma synced_flags: "synced st cc \<longleftrightarrow> flagsSynced st cc \<and> cc_chooserMode cc = shownChooser st"
  by (auto simp: synced_def flagsSynced_def)

text \<open>
  A record with flags in step differs from one that is in step in its chooser only, and no flag depends on that.
\<close>

definition sameFlags :: "clientConn \<Rightarrow> clientConn \<Rightarrow> bool" where
  "sameFlags cc dd \<longleftrightarrow> cc_displayPanesShown cc = cc_displayPanesShown dd \<and> cc_prefixMessageShown cc = cc_prefixMessageShown dd \<and>
     cc_copyModeShown cc = cc_copyModeShown dd \<and> cc_inputIdle cc = cc_inputIdle dd"

lemma event_flags: "sameFlags cc dd \<Longrightarrow> sameFlags (snd (uiEventCmd name cc)) (snd (uiEventCmd name dd))"
proof -
  assume f: "sameFlags cc dd"
  show ?thesis
  proof (cases "name \<in> set stateEvents")
    case True
    then show ?thesis
      using f unfolding stateEvents_def by (simp, elim disjE) (simp_all add: handled handled_chooser sameFlags_def)
  next
    case False
    then have "snd (uiEventCmd name cc) = (if name = UIEventClientFocusGained then cc\<lparr>cc_uiGeneration := cc_uiGeneration cc + 1\<rparr> else cc)" for cc
      by (simp add: stateEvents_def uiEventCmd_def applyUIEvent_def chooserEventState_def)
    then show ?thesis using f by (simp add: sameFlags_def)
  qed
qed

lemma receive_flags: "sameFlags cc dd \<Longrightarrow> sameFlags (receiveEvents names cc) (receiveEvents names dd)"
  by (induction names arbitrary: cc dd) (simp_all add: event_flags)

lemma flags_perform: "flagsSynced st cc \<Longrightarrow> flagsSynced (fst (ui_perform a (st, cc))) (snd (ui_perform a (st, cc)))"
proof -
  assume f: "flagsSynced st cc"
  let ?dd = "cc\<lparr>cc_chooserMode := shownChooser st\<rparr>"
  have "synced st ?dd" using f by (simp add: synced_flags flagsSynced_def)
  from synced_reduce [OF this, of a] show ?thesis
    using receive_flags [of cc ?dd "emitUIEvents (fst (reduce a st))"]
    by (simp add: synced_flags flagsSynced_def sameFlags_def ui_perform_def case_prod_beta Let_def)
qed

lemma opens_synced:
  assumes "opensChooser a st"
  shows "cc_chooserMode (snd (ui_perform a (st, cc))) = shownChooser (fst (ui_perform a (st, cc)))"
proof -
  obtain ch where ch: "a = OverlayAction (ShowChooser ch)" "ch_mode ch \<noteq> chooserModeRemote" "map_option ch_mode (ui_chooser st) \<noteq> Some (ch_mode ch)"
    using assms by (cases "(a, st)" rule: opensChooser.cases) auto
  then show ?thesis
    by (cases "ch_mode ch"; cases "ui_chooser st")
      (auto simp: ui_perform_def reduceShowChooser_def Let_def synced_simps)
qed

definition ui_sys_ok :: "clientUIState \<times> clientConn \<times> bool \<Rightarrow> bool" where
  "ui_sys_ok sys \<longleftrightarrow> (case sys of (st, cc, toggled) \<Rightarrow> flagsSynced st cc \<and> oneDialog st \<and> (\<not> toggled \<longrightarrow> synced st cc))"

lemma toggle_fields [simp]:
  "ui_displayPanes (toggleChooserMode st) = ui_displayPanes st" "ui_message (toggleChooserMode st) = ui_message st"
  "ui_copyModes (toggleChooserMode st) = ui_copyModes st" "ui_inputIdle (toggleChooserMode st) = ui_inputIdle st"
  "oneDialog (toggleChooserMode st) = oneDialog st"
  by (auto simp: toggleChooserMode_def Let_def oneDialog_def split: option.splits)

interpretation ui: invariant_system ui_init "\<lambda>sys op. True" ui_step ui_sys_ok
proof
  show "ui_sys_ok s" if "ui_init s" for s
    using that ui_ok_new by (simp add: ui_init_def ui_sys_ok_def ui_ok_def synced_flags)
  show "ui_sys_ok (ui_step op s)" if ok: "ui_sys_ok s" and "True" for s op
  proof (cases "(op, s)" rule: ui_step.cases)
    case (1 a st cc toggled)
    have "synced (fst (ui_perform a (st, cc))) (snd (ui_perform a (st, cc)))" if "toggled \<longrightarrow> opensChooser a st"
      using ok that 1 flags_perform [of st cc a] opens_synced [of a st cc] synced_reduce [of st cc a]
      by (cases toggled) (auto simp: ui_sys_ok_def synced_flags ui_perform_def case_prod_beta Let_def)
    then show ?thesis
      using ok 1 flags_perform [of st cc a] oneDialog_reduce [of st a]
      by (auto simp: ui_sys_ok_def ui_perform_def case_prod_beta Let_def)
  next
    case (2 st cc toggled)
    then show ?thesis using ok by (auto simp: ui_sys_ok_def flagsSynced_def)
  qed
qed

end
