(* ===== verification/Client_Prompts.thy ===== *)
theory Client_Prompts
  imports Client_UI Go_Strings
begin

text \<open>
  The pane labels and the two rename prompts of a client: \<^verbatim>\<open>display_panes.go\<close>,
  \<^verbatim>\<open>window_rename_prompt.go\<close>, \<^verbatim>\<open>pane_rename_prompt.go\<close>. Every operation gives the names of the
  events it emits. The text input is an argument, as in copy mode.
\<close>

section \<open>Pane labels\<close>

definition displayPaneLabelAlphabet :: string where
  "displayPaneLabelAlphabet = ''123456789abcdefghijklmnopqrstuvwxyz''"

definition ShowDisplayPanesOn :: "LayoutCell option \<Rightarrow> clientUIState \<Rightarrow> bool \<times> uiResult" where
  "ShowDisplayPanesOn layout st =
     (case layout of
        None \<Rightarrow> (False, [], st)
      | Some c \<Rightarrow>
          let paneIDs = map CellPaneID (Walk c) in
          if paneIDs = [] \<or> length paneIDs > length displayPaneLabelAlphabet then (False, [], st)
          else let keys = take (length paneIDs) displayPaneLabelAlphabet;
                   (names, st1) = reduce (OverlayAction (ShowDisplayPanes \<lparr>dp_labels = zip paneIDs keys, dp_targets = zip keys paneIDs\<rparr>)) st
               in (True, emitUIEvents names, st1))"

definition HideDisplayPanesOn :: "clientUIState \<Rightarrow> bool \<times> uiResult" where
  "HideDisplayPanesOn st =
     (let (names, st1) = reduce (OverlayAction HideDisplayPanes) st in (ui_displayPanes st \<noteq> None, emitUIEvents names, st1))"

definition toLowerLetter :: "char \<Rightarrow> char" where
  "toLowerLetter b = (if of_char b \<ge> (65::nat) \<and> of_char b \<le> (90::nat) then char_of ((of_char b :: nat) - 65 + 97) else b)"

definition ResolveDisplayPaneKey :: "char \<Rightarrow> clientUIState \<Rightarrow> uint32 option" where
  "ResolveDisplayPaneKey b st =
     (case ui_displayPanes st of None \<Rightarrow> None | Some dp \<Rightarrow> map_of (dp_targets dp) (toLowerLetter b))"

section \<open>Rename prompts\<close>

record promptCommand =
  pc_command :: string
  pc_args :: "runes_text list"
  pc_bell :: bool

definition noCommand :: promptCommand where
  "noCommand = \<lparr>pc_command = [], pc_args = [], pc_bell = False\<rparr>"

definition updateInput :: "textInput \<Rightarrow> KeyMsg \<Rightarrow> TextInputState \<Rightarrow> TextInputState" where
  "updateInput T msg inp = (let (v, c) = T msg (input_Value inp, input_Cursor inp) in \<lparr>input_Value = v, input_Cursor = c\<rparr>)"

definition emptyInput :: TextInputState where
  "emptyInput = \<lparr>input_Value = [], input_Cursor = 0\<rparr>"

type_synonym promptResult = "promptCommand \<times> uiResult"

definition ShowWindowRenamePromptOn :: "bool \<Rightarrow> clientUIState \<Rightarrow> bool \<times> uiResult" where
  "ShowWindowRenamePromptOn hasActiveWindow st =
     (if hasActiveWindow
      then let (names, st1) = reduce (OverlayAction (ShowWindowRenamePrompt \<lparr>wr_input = emptyInput\<rparr>)) st in (True, emitUIEvents names, st1)
      else (False, [], st))"

definition applyWindowRenamePromptKey :: "textInput \<Rightarrow> KeyMsg \<Rightarrow> clientUIState \<Rightarrow> clientUIState" where
  "applyWindowRenamePromptKey T msg st =
     (case ui_windowRenamePrompt st of
        None \<Rightarrow> st
      | Some p \<Rightarrow> st\<lparr>ui_windowRenamePrompt := Some (p\<lparr>wr_input := updateInput T msg (wr_input p)\<rparr>), ui_dirty := True\<rparr>)"

definition submitWindowRenamePrompt :: "clientUIState \<Rightarrow> promptResult" where
  "submitWindowRenamePrompt st =
     (case ui_windowRenamePrompt st of
        None \<Rightarrow> (noCommand, [], st)
      | Some p \<Rightarrow>
          if input_Value (wr_input p) = [] then (noCommand\<lparr>pc_bell := True\<rparr>, [], st)
          else let (names, st1) = reduce (OverlayAction HideWindowRenamePrompt) st
               in (\<lparr>pc_command = ''rename-window'', pc_args = [input_Value (wr_input p)], pc_bell = False\<rparr>, emitUIEvents names, st1))"

definition hidePrompt :: "overlayAction \<Rightarrow> clientUIState \<Rightarrow> uiResult" where
  "hidePrompt a st = (let (names, st1) = reduce (OverlayAction a) st in (emitUIEvents names, st1))"

function windowPromptLoop :: "textInput \<Rightarrow> nat list \<Rightarrow> promptCommand \<Rightarrow> clientUIState \<Rightarrow> promptResult" where
  "windowPromptLoop T raw result st =
     (if raw = [] then (result, [], st)
      else case DecodeKey raw of (m, consumed) \<Rightarrow> (case if consumed = 0 then None else m of
        None \<Rightarrow> windowPromptLoop T (tl raw) (result\<lparr>pc_bell := True\<rparr>) st
      | Some msg \<Rightarrow>
          if msg_Type msg = KeyEsc then (noCommand, hidePrompt HideWindowRenamePrompt st)
          else if msg_Type msg = KeyEnter then submitWindowRenamePrompt st
          else if IsTextInputKey (msg_Type msg) then windowPromptLoop T (drop consumed raw) result (applyWindowRenamePromptKey T msg st)
          else windowPromptLoop T (drop consumed raw) (result\<lparr>pc_bell := True\<rparr>) st))"
  by pat_completeness auto

termination
  by (relation "measure (\<lambda>(T, raw, result, st). length raw)") (auto split: if_splits)

definition HandleWindowRenamePromptInput :: "textInput \<Rightarrow> nat list \<Rightarrow> clientUIState \<Rightarrow> promptResult" where
  "HandleWindowRenamePromptInput T raw st =
     (if raw = [] \<or> ui_windowRenamePrompt st = None then (noCommand, [], st) else windowPromptLoop T raw noCommand st)"

definition ShowPaneRenamePromptOn :: "uint32 \<Rightarrow> runes_text option \<Rightarrow> clientUIState \<Rightarrow> bool \<times> uiResult" where
  "ShowPaneRenamePromptOn paneID info st =
     (if paneID = 0 then (False, [], st)
      else case info of
        None \<Rightarrow> (False, [], st)
      | Some name \<Rightarrow>
          let paneRef = (if name = [] then map of_char (showNat (unat paneID)) else name);
              (names, st1) = reduce (OverlayAction (ShowPaneRenamePrompt \<lparr>pr_paneRef = paneRef, pr_input = emptyInput\<rparr>)) st
          in (True, emitUIEvents names, st1))"

definition applyPaneRenamePromptKey :: "textInput \<Rightarrow> KeyMsg \<Rightarrow> clientUIState \<Rightarrow> clientUIState" where
  "applyPaneRenamePromptKey T msg st =
     (case ui_paneRenamePrompt st of
        None \<Rightarrow> st
      | Some p \<Rightarrow> st\<lparr>ui_paneRenamePrompt := Some (p\<lparr>pr_input := updateInput T msg (pr_input p)\<rparr>), ui_dirty := True\<rparr>)"

definition validPaneRenamePromptName :: "runes_text \<Rightarrow> bool" where
  "validPaneRenamePromptName name \<longleftrightarrow> name \<noteq> [] \<and> of_char (CHR ''/'') \<notin> set name \<and> \<not> list_ex runeIsSpace name"

definition submitPaneRenamePrompt :: "clientUIState \<Rightarrow> promptResult" where
  "submitPaneRenamePrompt st =
     (case ui_paneRenamePrompt st of
        None \<Rightarrow> (noCommand, [], st)
      | Some p \<Rightarrow>
          if \<not> validPaneRenamePromptName (input_Value (pr_input p)) then (noCommand\<lparr>pc_bell := True\<rparr>, [], st)
          else let (names, st1) = reduce (OverlayAction HidePaneRenamePrompt) st
               in (\<lparr>pc_command = ''rename'', pc_args = [pr_paneRef p, input_Value (pr_input p)], pc_bell = False\<rparr>, emitUIEvents names, st1))"

function panePromptLoop :: "textInput \<Rightarrow> nat list \<Rightarrow> promptCommand \<Rightarrow> clientUIState \<Rightarrow> promptResult" where
  "panePromptLoop T raw result st =
     (if raw = [] then (result, [], st)
      else case DecodeKey raw of (m, consumed) \<Rightarrow> (case if consumed = 0 then None else m of
        None \<Rightarrow> panePromptLoop T (tl raw) (result\<lparr>pc_bell := True\<rparr>) st
      | Some msg \<Rightarrow>
          if msg_Type msg = KeyEsc then (noCommand, hidePrompt HidePaneRenamePrompt st)
          else if msg_Type msg = KeyEnter then submitPaneRenamePrompt st
          else if IsTextInputKey (msg_Type msg) then panePromptLoop T (drop consumed raw) result (applyPaneRenamePromptKey T msg st)
          else panePromptLoop T (drop consumed raw) (result\<lparr>pc_bell := True\<rparr>) st))"
  by pat_completeness auto

termination
  by (relation "measure (\<lambda>(T, raw, result, st). length raw)") (auto split: if_splits)

declare windowPromptLoop.simps [simp del] panePromptLoop.simps [simp del]

definition HandlePaneRenamePromptInput :: "textInput \<Rightarrow> nat list \<Rightarrow> clientUIState \<Rightarrow> promptResult" where
  "HandlePaneRenamePromptInput T raw st =
     (if raw = [] \<or> ui_paneRenamePrompt st = None then (noCommand, [], st) else panePromptLoop T raw noCommand st)"

end
