(* ===== verification/UI_Properties.thy ===== *)
theory UI_Properties
  imports UI_Laws Client_Prompts Copy_Steps Sample_Window
begin

text \<open>
  The properties of the user interface of a client and of the server's record of it.
\<close>

section \<open>Following a client\<close>

text \<open>What the client shows, for each event that speaks of a state.\<close>

definition showsEvent :: "string \<Rightarrow> clientUIState \<Rightarrow> bool" where
  "showsEvent name st =
     (if name = UIEventDisplayPanesShown then ui_displayPanes st \<noteq> None
      else if name = UIEventDisplayPanesHidden then ui_displayPanes st = None
      else if name = UIEventPrefixMessageShown then ui_message st \<noteq> []
      else if name = UIEventPrefixMessageHidden then ui_message st = []
      else if name = UIEventChooseTreeShown then map_option ch_mode (ui_chooser st) = Some chooserModeTree
      else if name = UIEventChooseTreeHidden then map_option ch_mode (ui_chooser st) \<noteq> Some chooserModeTree
      else if name = UIEventChooseWindowShown then map_option ch_mode (ui_chooser st) = Some chooserModeWindow
      else if name = UIEventChooseWindowHidden then map_option ch_mode (ui_chooser st) \<noteq> Some chooserModeWindow
      else if name = UIEventCopyModeShown then ui_copyModes st \<noteq> []
      else if name = UIEventCopyModeHidden then ui_copyModes st = []
      else if name = UIEventInputBusy then \<not> ui_inputIdle st
      else ui_inputIdle st)"

lemma matches_shown:
  assumes "synced st cc" "name \<in> set stateEvents"
  shows "matchesUIEvent name cc = showsEvent name st"
proof -
  have t: "cc_chooserMode cc = chooserTree \<longleftrightarrow> map_option ch_mode (ui_chooser st) = Some chooserModeTree"
    "cc_chooserMode cc = chooserWindow \<longleftrightarrow> map_option ch_mode (ui_chooser st) = Some chooserModeWindow"
    using assms(1) by (cases "ui_chooser st"; cases "ch_mode (the (ui_chooser st))"; simp add: synced_def shownChooser_def chooser_names)+
  show ?thesis using assms t
    by (simp add: stateEvents_def, elim disjE) (simp_all add: matchesUIEvent_def chooserEventState_def showsEvent_def ui_event_names synced_def)
qed

lemma matches_flags:
  assumes "flagsSynced st cc" "name \<in> set stateEvents" "chooserEventState name = None"
  shows "matchesUIEvent name cc = showsEvent name st"
proof -
  have "synced st (cc\<lparr>cc_chooserMode := shownChooser st\<rparr>)" using assms(1) by (simp add: synced_flags flagsSynced_def)
  from matches_shown [OF this assms(2)] have "matchesUIEvent name (cc\<lparr>cc_chooserMode := shownChooser st\<rparr>) = showsEvent name st" .
  moreover have "matchesUIEvent name (cc\<lparr>cc_chooserMode := shownChooser st\<rparr>) = matchesUIEvent name cc"
    unfolding matchesUIEvent_def assms(3) by (simp cong: if_cong)
  ultimately show ?thesis by simp
qed

text \<open>
  C6. Whatever a client shows and hides, the record that the server keeps from its events agrees
  with it: an event the server is asked for matches exactly if the client is in that state. The
  exception are the events of the choosers after the tabulator key has changed the view of an open one, which
  sends no event (C40); they agree again as soon as a tree or window chooser is opened, unless the one on the screen is of that view already. And of
  the dialogs that take keys (chooser, the two rename prompts, help) at most one is open.
\<close>

theorem reachable_ui_synced:
  assumes "reachable ui_init (\<lambda>sys op. True) ui_step (st, cc, toggled)" "name \<in> set stateEvents"
    "toggled \<Longrightarrow> chooserEventState name = None"
  shows "matchesUIEvent name cc = showsEvent name st \<and> oneDialog st"
  using ui.inv_reachable [OF assms(1)] matches_shown [of st cc name] matches_flags [of st cc name] assms(2,3)
  by (cases toggled) (simp_all add: ui_sys_ok_def)

definition treeChooser :: chooserState where
  "treeChooser = \<lparr>ch_mode = chooserModeTree, ch_query = emptyInput, ch_source = localChooserSource\<rparr>"

lemma reachable_ui_synced_witness:
  "let sys = fold ui_step [Act (OverlayAction (ShowChooser treeChooser)), ToggleChooser, Act (SetMessage ''saved'')] (newClientUIState, newClientConn, False)
   in snd (snd sys) \<and> matchesUIEvent UIEventPrefixMessageShown (fst (snd sys)) \<and> oneDialog (fst sys)"
proof -
  let ?ops = "[Act (OverlayAction (ShowChooser treeChooser)), ToggleChooser, Act (SetMessage ''saved'')]"
  let ?sys = "fold ui_step ?ops (newClientUIState, newClientConn, False)"
  have "reachable ui_init (\<lambda>sys op. True) ui_step (fst ?sys, fst (snd ?sys), snd (snd ?sys))"
    using reachable_runs [OF reachable.start, of ui_init "(newClientUIState, newClientConn, False)" "\<lambda>sys op. True" ui_step ?ops] by (simp add: ui_init_def)
  moreover have "UIEventPrefixMessageShown \<in> set stateEvents" by (simp add: stateEvents_def)
  moreover have "chooserEventState UIEventPrefixMessageShown = None" by code_simp
  moreover have "showsEvent UIEventPrefixMessageShown (fst ?sys) \<and> snd (snd ?sys)" by code_simp
  ultimately show ?thesis
    using reachable_ui_synced [of "fst ?sys" "fst (snd ?sys)" "snd (snd ?sys)" UIEventPrefixMessageShown] by (simp only: Let_def)
qed

lemma flag_events:
  "cc_displayPanesShown (snd (uiEventCmd (if d then UIEventDisplayPanesShown else UIEventDisplayPanesHidden) cc)) = d"
  "cc_prefixMessageShown (snd (uiEventCmd (if d then UIEventDisplayPanesShown else UIEventDisplayPanesHidden) cc)) = cc_prefixMessageShown cc"
  "cc_copyModeShown (snd (uiEventCmd (if d then UIEventDisplayPanesShown else UIEventDisplayPanesHidden) cc)) = cc_copyModeShown cc"
  "cc_inputIdle (snd (uiEventCmd (if d then UIEventDisplayPanesShown else UIEventDisplayPanesHidden) cc)) = cc_inputIdle cc"
  "cc_chooserMode (snd (uiEventCmd (if d then UIEventDisplayPanesShown else UIEventDisplayPanesHidden) cc)) = cc_chooserMode cc"
  "cc_displayPanesShown (snd (uiEventCmd (if d then UIEventPrefixMessageShown else UIEventPrefixMessageHidden) cc)) = cc_displayPanesShown cc"
  "cc_prefixMessageShown (snd (uiEventCmd (if d then UIEventPrefixMessageShown else UIEventPrefixMessageHidden) cc)) = d"
  "cc_copyModeShown (snd (uiEventCmd (if d then UIEventPrefixMessageShown else UIEventPrefixMessageHidden) cc)) = cc_copyModeShown cc"
  "cc_inputIdle (snd (uiEventCmd (if d then UIEventPrefixMessageShown else UIEventPrefixMessageHidden) cc)) = cc_inputIdle cc"
  "cc_chooserMode (snd (uiEventCmd (if d then UIEventPrefixMessageShown else UIEventPrefixMessageHidden) cc)) = cc_chooserMode cc"
  "cc_displayPanesShown (snd (uiEventCmd (if d then UIEventCopyModeShown else UIEventCopyModeHidden) cc)) = cc_displayPanesShown cc"
  "cc_prefixMessageShown (snd (uiEventCmd (if d then UIEventCopyModeShown else UIEventCopyModeHidden) cc)) = cc_prefixMessageShown cc"
  "cc_copyModeShown (snd (uiEventCmd (if d then UIEventCopyModeShown else UIEventCopyModeHidden) cc)) = d"
  "cc_inputIdle (snd (uiEventCmd (if d then UIEventCopyModeShown else UIEventCopyModeHidden) cc)) = cc_inputIdle cc"
  "cc_chooserMode (snd (uiEventCmd (if d then UIEventCopyModeShown else UIEventCopyModeHidden) cc)) = cc_chooserMode cc"
  "cc_displayPanesShown (snd (uiEventCmd (if \<not> d then UIEventInputBusy else UIEventInputIdle) cc)) = cc_displayPanesShown cc"
  "cc_prefixMessageShown (snd (uiEventCmd (if \<not> d then UIEventInputBusy else UIEventInputIdle) cc)) = cc_prefixMessageShown cc"
  "cc_copyModeShown (snd (uiEventCmd (if \<not> d then UIEventInputBusy else UIEventInputIdle) cc)) = cc_copyModeShown cc"
  "cc_inputIdle (snd (uiEventCmd (if \<not> d then UIEventInputBusy else UIEventInputIdle) cc)) = d"
  "cc_chooserMode (snd (uiEventCmd (if \<not> d then UIEventInputBusy else UIEventInputIdle) cc)) = cc_chooserMode cc"
  by (cases d; simp add: handled)+

lemma chooser_events:
  assumes "m \<in> {chooserHidden, chooserTree, chooserWindow}" "cc_chooserMode cc \<in> {chooserHidden, chooserTree, chooserWindow}"
  shows "\<exists>g. receiveEvents [chooserSnapshotEvent chooserTree m, chooserSnapshotEvent chooserWindow m] cc = cc\<lparr>cc_chooserMode := m, cc_uiGeneration := g\<rparr>"
proof -
  have same: "\<exists>g. cc = cc\<lparr>cc_chooserMode := m, cc_uiGeneration := g\<rparr>" if "cc_chooserMode cc = m"
    using that by (intro exI [of _ "cc_uiGeneration cc"]) simp
  consider "m = chooserHidden" | "m = chooserTree" | "m = chooserWindow" using assms(1) by auto
  then show ?thesis using assms(2) same
    by cases (elim insertE emptyE; simp add: chooserSnapshotEvent_def handled_chooser chooser_names; fastforce)+
qed

text \<open>
  The events a new subscriber gets describe the record completely: a record that receives
  them, in whatever state it is, ends in the same state.
\<close>

theorem currentUIEvents_complete:
  assumes "cc_chooserMode cc \<in> {chooserHidden, chooserTree, chooserWindow}"
    and "cc_chooserMode other \<in> {chooserHidden, chooserTree, chooserWindow}"
  shows "forget (receiveEvents (currentUIEvents cc) other) = forget cc"
proof -
  let ?a = "receiveEvents (currentUIEvents cc) other"
  let ?b = "receiveEvents [if cc_displayPanesShown cc then UIEventDisplayPanesShown else UIEventDisplayPanesHidden,
      if cc_prefixMessageShown cc then UIEventPrefixMessageShown else UIEventPrefixMessageHidden,
      if cc_copyModeShown cc then UIEventCopyModeShown else UIEventCopyModeHidden,
      if \<not> cc_inputIdle cc then UIEventInputBusy else UIEventInputIdle] other"
  have b: "cc_displayPanesShown ?b = cc_displayPanesShown cc" "cc_prefixMessageShown ?b = cc_prefixMessageShown cc"
    "cc_copyModeShown ?b = cc_copyModeShown cc" "cc_inputIdle ?b = cc_inputIdle cc" "cc_chooserMode ?b = cc_chooserMode other"
    by (simp_all only: receiveEvents_simps flag_events)
  have "?a = receiveEvents [chooserSnapshotEvent chooserTree (cc_chooserMode cc), chooserSnapshotEvent chooserWindow (cc_chooserMode cc)] ?b"
    by (simp add: currentUIEvents_def)
  then have "\<exists>g. ?a = ?b\<lparr>cc_chooserMode := cc_chooserMode cc, cc_uiGeneration := g\<rparr>"
    using chooser_events [OF assms(1), of ?b] assms(2) b(5) by simp
  then show ?thesis using b by (auto simp: forget_def)
qed

lemma currentUIEvents_complete_witness:
  "let cc = newClientConn\<lparr>cc_chooserMode := chooserWindow, cc_inputIdle := False\<rparr>; other = newClientConn\<lparr>cc_chooserMode := chooserTree\<rparr>
   in forget (receiveEvents (currentUIEvents cc) other) = forget cc"
  using currentUIEvents_complete [of "newClientConn\<lparr>cc_chooserMode := chooserWindow, cc_inputIdle := False\<rparr>" "newClientConn\<lparr>cc_chooserMode := chooserTree\<rparr>"]
  by (simp add: Let_def)

section \<open>Labels and prompts\<close>

lemma alphabet_lower: "list_all (\<lambda>b. toLowerLetter b = b) displayPaneLabelAlphabet" "distinct displayPaneLabelAlphabet"
  by (simp_all add: displayPaneLabelAlphabet_def toLowerLetter_def)

text \<open>
  The labels over the panes are unambiguous: after they are shown, the label of each pane
  leads to that pane, and every key that leads somewhere leads to a pane of the layout.
\<close>

theorem display_pane_labels:
  assumes show_it: "ShowDisplayPanesOn (Some c) st = (True, names, st')" and i: "i < length (Walk c)"
  shows "ResolveDisplayPaneKey (displayPaneLabelAlphabet ! i) st' = Some (CellPaneID (Walk c ! i)) \<and>
    (\<forall>b p. ResolveDisplayPaneKey b st' = Some p \<longrightarrow> p \<in> set (map CellPaneID (Walk c)))"
proof -
  let ?ids = "map CellPaneID (Walk c)" and ?A = displayPaneLabelAlphabet
  let ?keys = "take (length ?ids) ?A"
  have n: "length ?ids \<le> length ?A" and dp: "map_option dp_targets (ui_displayPanes st') = Some (zip ?keys ?ids)"
    using show_it by (simp_all add: ShowDisplayPanesOn_def Let_def split: if_splits) auto
  have r: "ResolveDisplayPaneKey b st' = map_of (zip ?keys ?ids) (toLowerLetter b)" for b
    using dp by (auto simp: ResolveDisplayPaneKey_def)
  have k: "distinct ?keys" "length ?keys = length ?ids" "?A ! i = ?keys ! i" using alphabet_lower n i by (simp_all add: min_def)
  have "toLowerLetter (?A ! i) = ?A ! i" using alphabet_lower(1) n i by (simp add: list_all_length)
  moreover have "map_of (zip ?keys ?ids) (?keys ! i) = Some (?ids ! i)" using k(1,2) i map_of_zip_nth [of ?keys ?ids i] by simp
  ultimately have "ResolveDisplayPaneKey (?A ! i) st' = Some (?ids ! i)" using r k(3) by metis
  moreover have "p \<in> set ?ids" if "ResolveDisplayPaneKey b st' = Some p" for b p
    using that unfolding r by (auto dest!: map_of_SomeD set_zip_rightD)
  ultimately show ?thesis using i by simp
qed

definition twoPanes :: LayoutCell where
  "twoPanes = Node \<lparr>rX = 0, rY = 0, rW = 9, rH = 4\<rparr> SplitVertical [NewLeafByID 7 0 0 4 4, NewLeafByID 9 5 0 4 4]"

lemma display_pane_labels_witness:
  "ResolveDisplayPaneKey (displayPaneLabelAlphabet ! 1) (snd (snd (ShowDisplayPanesOn (Some twoPanes) newClientUIState))) = Some 9"
proof -
  have w: "map CellPaneID (Walk twoPanes) = [7, 9]" by (simp add: twoPanes_def NewLeafByID_def)
  then have "fst (ShowDisplayPanesOn (Some twoPanes) newClientUIState)" by (simp add: ShowDisplayPanesOn_def displayPaneLabelAlphabet_def Let_def)
  then have "ShowDisplayPanesOn (Some twoPanes) newClientUIState =
      (True, fst (snd (ShowDisplayPanesOn (Some twoPanes) newClientUIState)), snd (snd (ShowDisplayPanesOn (Some twoPanes) newClientUIState)))"
    by (metis prod.collapse)
  moreover have "1 < length (Walk twoPanes)" "CellPaneID (Walk twoPanes ! 1) = 9" by (simp_all add: twoPanes_def NewLeafByID_def)
  ultimately show ?thesis using display_pane_labels [of twoPanes newClientUIState _ _ 1] by metis
qed

lemma panePromptLoop_command:
  assumes "ui_paneRenamePrompt st = Some p" "pc_command result = []" "panePromptLoop T raw result st = (cmd, names, st')" "pc_command cmd \<noteq> []"
  shows "pc_command cmd = ''rename'' \<and> (\<exists>v. pc_args cmd = [pr_paneRef p, v] \<and> validPaneRenamePromptName v) \<and> ui_paneRenamePrompt st' = None"
  using assms
proof (induction T raw result st arbitrary: p rule: panePromptLoop.induct)
  case (1 T raw result st)
  have raw: "raw \<noteq> []" using "1.prems"(2-4) by (auto simp: panePromptLoop.simps [of T raw])
  obtain m n where d: "DecodeKey raw = (m, n)" by (metis surj_pair)
  show ?case
  proof (cases "if n = 0 then None else m")
    case None
    then have "panePromptLoop T (tl raw) (result\<lparr>pc_bell := True\<rparr>) st = (cmd, names, st')" using "1.prems"(3) raw d by (simp add: panePromptLoop.simps [of T raw])
    then show ?thesis using "1.IH"(1) [OF raw d [symmetric] None "1.prems"(1)] "1.prems"(2,4) by simp
  next
    case (Some msg)
    let ?st = "applyPaneRenamePromptKey T msg st"
    have st: "ui_paneRenamePrompt ?st = Some (p\<lparr>pr_input := updateInput T msg (pr_input p)\<rparr>)" using "1.prems"(1) by (simp add: applyPaneRenamePromptKey_def)
    note eq = "1.prems"(3) [unfolded panePromptLoop.simps [of T raw]]
    consider "msg_Type msg = KeyEsc" | "msg_Type msg = KeyEnter" | "msg_Type msg \<noteq> KeyEsc" "msg_Type msg \<noteq> KeyEnter" by blast
    then show ?thesis
    proof cases
      case 1
      then show ?thesis using eq raw d Some "1.prems"(4) by (auto simp: noCommand_def)
    next
      case 2
      then have "submitPaneRenamePrompt st = (cmd, names, st')" using eq raw d Some by simp
      then show ?thesis using "1.prems"(1,4) by (auto simp: submitPaneRenamePrompt_def noCommand_def split: if_splits)
    next
      case 3
      show ?thesis
      proof (cases "IsTextInputKey (msg_Type msg)")
        case True
        then have "panePromptLoop T (drop n raw) result ?st = (cmd, names, st')" using eq raw d Some 3 by simp
        then show ?thesis using "1.IH"(2) [OF raw d [symmetric] Some 3 True st] "1.prems"(2,4) by simp
      next
        case False
        then have "panePromptLoop T (drop n raw) (result\<lparr>pc_bell := True\<rparr>) st = (cmd, names, st')" using eq raw d Some 3 by simp
        then show ?thesis using "1.IH"(3) [OF raw d [symmetric] Some 3 False "1.prems"(1)] "1.prems"(2,4) by simp
      qed
    qed
  qed
qed

text \<open>
  C39. Whatever is typed into the prompt that renames a pane, the only command that comes out is to
  rename the pane for which it was opened, to a name without spaces and slashes, and then the prompt is
  closed.
\<close>

theorem pane_rename_safe:
  assumes "ui_paneRenamePrompt st = Some p" "HandlePaneRenamePromptInput T raw st = (cmd, names, st')" "pc_command cmd \<noteq> []"
  shows "pc_command cmd = ''rename'' \<and> (\<exists>v. pc_args cmd = [pr_paneRef p, v] \<and> validPaneRenamePromptName v) \<and> ui_paneRenamePrompt st' = None"
  using assms panePromptLoop_command [of st p noCommand T raw cmd names st']
  by (auto simp: HandlePaneRenamePromptInput_def noCommand_def split: if_splits)

lemma pane_rename_safe_witness:
  "let st = newClientUIState\<lparr>ui_paneRenamePrompt := Some \<lparr>pr_paneRef = bytes ''pane-1'', pr_input = \<lparr>input_Value = bytes ''x'', input_Cursor = 1\<rparr>\<rparr>\<rparr>;
       T = (\<lambda>msg inp. (fst inp @ msg_Runes msg, snd inp + 1))
   in pc_command (fst (HandlePaneRenamePromptInput T (bytes ''y'' @ [13]) st)) = ''rename'' \<and>
      ui_paneRenamePrompt (snd (snd (HandlePaneRenamePromptInput T (bytes ''y'' @ [13]) st))) = None"
proof -
  let ?st = "newClientUIState\<lparr>ui_paneRenamePrompt := Some \<lparr>pr_paneRef = bytes ''pane-1'', pr_input = \<lparr>input_Value = bytes ''x'', input_Cursor = 1\<rparr>\<rparr>\<rparr>"
  let ?T = "\<lambda>msg inp. (fst inp @ msg_Runes msg, snd inp + 1)"
  let ?r = "HandlePaneRenamePromptInput ?T (bytes ''y'' @ [13]) ?st"
  have "pc_command (fst ?r) \<noteq> []"
    by (simp add: HandlePaneRenamePromptInput_def panePromptLoop.simps DecodeKey_def decodeControlOrRune_def controlKeys_def plainKey_def IsTextInputKey_def
        applyPaneRenamePromptKey_def updateInput_def submitPaneRenamePrompt_def validPaneRenamePromptName_def runeIsSpace_def)
  moreover have "ui_paneRenamePrompt ?st = Some \<lparr>pr_paneRef = bytes ''pane-1'', pr_input = \<lparr>input_Value = bytes ''x'', input_Cursor = 1\<rparr>\<rparr>" by simp
  moreover have "?r = (fst ?r, fst (snd ?r), snd (snd ?r))" by (metis prod.collapse)
  ultimately have "pc_command (fst ?r) = ''rename'' \<and> ui_paneRenamePrompt (snd (snd ?r)) = None" using pane_rename_safe by blast
  then show ?thesis by (simp only: Let_def)
qed

section \<open>Defects\<close>

text \<open>
  The record keeps its chooser through every action that neither opens a chooser nor closes one
  whose event it would accept.
\<close>

lemma chooser_kept:
  assumes "ui_chooser st = None" "\<And>ch. a \<noteq> OverlayAction (ShowChooser ch)"
  shows "ui_chooser (fst (ui_perform a (st, cc))) = None \<and> cc_chooserMode (snd (ui_perform a (st, cc))) = cc_chooserMode cc"
  using assms
  by (cases "(a, st)" rule: reduce.cases; cases "(case a of OverlayAction o' \<Rightarrow> o' | _ \<Rightarrow> HideHelpBar, st)" rule: reduceOverlay.cases)
    (auto simp: ui_perform_def reduceHandleLayout_def reduceSetInputIdle_def markPaneDirty_def Let_def reduceShowWindowRenamePrompt_def
      reduceShowPaneRenamePrompt_def reduceShowHelpBar_def displayPanesEvents_def chooserEvents_def handled)

lemma chooser_kept_run:
  assumes "ui_chooser (fst sys) = None" "list_all (\<lambda>a. \<forall>ch. a \<noteq> OverlayAction (ShowChooser ch)) later"
  shows "ui_chooser (fst (fold ui_perform later sys)) = None \<and> cc_chooserMode (snd (fold ui_perform later sys)) = cc_chooserMode (snd sys)"
  using assms
proof (induction later arbitrary: sys)
  case (Cons a as)
  have "ui_chooser (fst (ui_perform a sys)) = None \<and> cc_chooserMode (snd (ui_perform a sys)) = cc_chooserMode (snd sys)"
    using chooser_kept [of "fst sys" a "snd sys"] Cons.prems by simp
  then show ?case using Cons by simp
qed simp

text \<open>
  C40. The tabulator key changes the view of an open chooser without an event. The chooser that is
  then closed is not the one the server knows of, and the server believes that the first one is
  still open until another chooser is opened, whatever else the client does.
\<close>

theorem toggled_chooser_stuck:
  assumes "ui_ok (st, cc)" "ui_chooser st = None" "list_all (\<lambda>a. \<forall>ch. a \<noteq> OverlayAction (ShowChooser ch)) later"
  shows "let shown = ui_perform (OverlayAction (ShowChooser treeChooser)) (st, cc);
             closed = ui_perform (OverlayAction HideChooser) (toggleChooserMode (fst shown), snd shown);
             end = fold ui_perform later closed
         in ui_chooser (fst end) = None \<and> matchesUIEvent UIEventChooseTreeShown (snd end)"
proof -
  let ?shown = "ui_perform (OverlayAction (ShowChooser treeChooser)) (st, cc)"
  let ?closed = "ui_perform (OverlayAction HideChooser) (toggleChooserMode (fst ?shown), snd ?shown)"
  have "cc_chooserMode (snd ?shown) = chooserTree" "ui_chooser (fst ?shown) = Some treeChooser"
    using assms(1,2) by (auto simp: ui_perform_def reduceShowChooser_def displayPanesEvents_def treeChooser_def handled handled_chooser)
  then have "ui_chooser (fst ?closed) = None \<and> cc_chooserMode (snd ?closed) = chooserTree"
    by (simp add: ui_perform_def toggleChooserMode_def treeChooser_def chooserEvents_def handled_chooser chooser_names)
  then show ?thesis using chooser_kept_run [of ?closed later] assms(3)
    by (simp add: Let_def matchesUIEvent_def chooserEventState_def)
qed

lemma toggled_chooser_stuck_witness:
  "let shown = ui_perform (OverlayAction (ShowChooser treeChooser)) (newClientUIState, newClientConn);
       closed = ui_perform (OverlayAction HideChooser) (toggleChooserMode (fst shown), snd shown);
       end = fold ui_perform [HandleLayout True] closed
   in ui_chooser (fst end) = None \<and> matchesUIEvent UIEventChooseTreeShown (snd end)"
proof (rule toggled_chooser_stuck)
  show "ui_ok (newClientUIState, newClientConn)" by (rule ui_ok_new)
qed (simp_all add: newClientUIState_def)

end
