(* ===== verification/Wire_History.thy ===== *)
theory Wire_History
  imports Go_Strings Layout_Tree
begin

text \<open>
  The binary encoding of the retained history of a pane (\<^verbatim>\<open>proto/wire_pane_history.go\<close>): a table
  of styles, lines with run-length encoded cells, and variable-length integers. Bytes are characters;
  the writer gives the bytes it appends, the reader works on a stream of which a given number
  of bytes belongs to the payload.
\<close>

section \<open>Data\<close>

type_synonym uint16 = "16 word"

text \<open>The colours of the terminal library; any other one is known by the four components it reports.\<close>

datatype Color =
    NoColor
  | BasicColor char
  | IndexedColor char
  | RGBColor char char char
  | RGBA char char char char
  | RGBA64 uint16 uint16 uint16 uint16
  | OtherColor uint32 uint32 uint32 uint32

record Style =
  Fg :: Color
  Bg :: Color
  UnderlineColor :: Color
  Underline :: char
  Attrs :: char

record Cell =
  cell_Char :: string
  cell_Style :: Style
  cell_Width :: int

record StyledLine =
  line_Text :: string
  line_Cells :: "Cell list"

text \<open>\<open>EndOfInput\<close> stands for both \<^verbatim>\<open>io.EOF\<close> and \<^verbatim>\<open>io.ErrUnexpectedEOF\<close>.\<close>

datatype wireError = EndOfInput | ClosedPipe | VarintOverflow | TooLarge | UnknownColor | CountMismatch | StyleOutOfRange | TrailingBytes | NegativeWidth | GobError | InvalidChunkSize

definition maxPaneHistoryLineCells :: nat where
  "maxPaneHistoryLineCells = 2 ^ 16"

section \<open>Keys of styles\<close>

record paneHistoryColorKey =
  key_kind :: nat
  key_data :: "char list"

record paneHistoryStyleKey =
  key_fg :: paneHistoryColorKey
  key_bg :: paneHistoryColorKey
  key_underlineColor :: paneHistoryColorKey
  key_underline :: char
  key_attrs :: char

definition putUint16 :: "uint16 \<Rightarrow> string" where
  "putUint16 v = [char_of (unat v div 256), char_of (unat v mod 256)]"

definition padKey :: "nat \<Rightarrow> char list \<Rightarrow> paneHistoryColorKey" where
  "padKey kind data = \<lparr>key_kind = kind, key_data = data @ replicate (8 - length data) (CHR 0x00)\<rparr>"

definition paneHistoryComparableRGBA64 :: "uint16 \<Rightarrow> uint16 \<Rightarrow> uint16 \<Rightarrow> uint16 \<Rightarrow> paneHistoryColorKey" where
  "paneHistoryComparableRGBA64 r g b a = padKey 5 (putUint16 r @ putUint16 g @ putUint16 b @ putUint16 a)"

fun paneHistoryComparableColor :: "Color \<Rightarrow> paneHistoryColorKey" where
  "paneHistoryComparableColor NoColor = padKey 0 []"
| "paneHistoryComparableColor (BasicColor v) = padKey 1 [v]"
| "paneHistoryComparableColor (IndexedColor v) = padKey 2 [v]"
| "paneHistoryComparableColor (RGBColor r g b) = padKey 3 [r, g, b]"
| "paneHistoryComparableColor (RGBA r g b a) = padKey 4 [r, g, b, a]"
| "paneHistoryComparableColor (RGBA64 r g b a) = paneHistoryComparableRGBA64 r g b a"
| "paneHistoryComparableColor (OtherColor r g b a) = paneHistoryComparableRGBA64 (ucast r) (ucast g) (ucast b) (ucast a)"

definition paneHistoryComparableStyle :: "Style \<Rightarrow> paneHistoryStyleKey" where
  "paneHistoryComparableStyle s = \<lparr>key_fg = paneHistoryComparableColor (Fg s), key_bg = paneHistoryComparableColor (Bg s),
     key_underlineColor = paneHistoryComparableColor (UnderlineColor s), key_underline = Underline s, key_attrs = Attrs s\<rparr>"

section \<open>Writing\<close>

text \<open>\<^verbatim>\<open>binary.PutUvarint\<close>: seven bits a byte, the lowest first.\<close>

fun putUvarint :: "nat \<Rightarrow> string" where
  "putUvarint v = (if v < 128 then [char_of v] else char_of (v mod 128 + 128) # putUvarint (v div 128))"

declare putUvarint.simps [simp del]

definition writePaneHistoryString :: "string \<Rightarrow> string" where
  "writePaneHistoryString s = putUvarint (length s) @ s"

fun writePaneHistoryColor :: "Color \<Rightarrow> string" where
  "writePaneHistoryColor NoColor = [CHR 0x00]"
| "writePaneHistoryColor (BasicColor v) = [CHR 0x01, v]"
| "writePaneHistoryColor (IndexedColor v) = [CHR 0x02, v]"
| "writePaneHistoryColor (RGBColor r g b) = [CHR 0x03, r, g, b]"
| "writePaneHistoryColor (RGBA r g b a) = [CHR 0x04, r, g, b, a]"
| "writePaneHistoryColor (RGBA64 r g b a) = CHR 0x05 # putUint16 r @ putUint16 g @ putUint16 b @ putUint16 a"
| "writePaneHistoryColor (OtherColor r g b a) = CHR 0x05 # putUint16 (ucast r) @ putUint16 (ucast g) @ putUint16 (ucast b) @ putUint16 (ucast a)"

definition writePaneHistoryStyle :: "Style \<Rightarrow> string" where
  "writePaneHistoryStyle s = writePaneHistoryColor (Fg s) @ writePaneHistoryColor (Bg s) @ writePaneHistoryColor (UnderlineColor s) @ [Underline s, Attrs s]"

definition paneHistoryMatchesStyledText :: "string list \<Rightarrow> StyledLine list \<Rightarrow> bool" where
  "paneHistoryMatchesStyledText history styled \<longleftrightarrow>
     \<not> (history = [] \<or> length history \<noteq> length styled) \<and> list_all2 (\<lambda>h line. h = line_Text line) history styled"

text \<open>The table of the styles in the order of their first cell, and the index of each key.\<close>

type_synonym styleTable = "Style list \<times> (paneHistoryStyleKey \<times> nat) list"

definition addStyle :: "Cell \<Rightarrow> styleTable \<Rightarrow> styleTable" where
  "addStyle cell tab =
     (case tab of (styles, index) \<Rightarrow>
        let key = paneHistoryComparableStyle (cell_Style cell) in
        if map_of index key \<noteq> None then tab else (styles @ [cell_Style cell], (key, length styles) # index))"

definition paneHistoryStyleTable :: "StyledLine list \<Rightarrow> styleTable" where
  "paneHistoryStyleTable ls = fold (\<lambda>line. fold addStyle (line_Cells line)) ls ([], [])"

definition sameRun :: "Cell \<Rightarrow> Cell \<Rightarrow> bool" where
  "sameRun cell current \<longleftrightarrow> cell_Char cell = cell_Char current \<and> cell_Width cell = cell_Width current \<and>
     paneHistoryComparableStyle (cell_Style cell) = paneHistoryComparableStyle (cell_Style current)"

fun runsFrom :: "nat \<Rightarrow> Cell \<Rightarrow> Cell list \<Rightarrow> (nat \<times> Cell) list" where
  "runsFrom n current [] = [(n, current)]"
| "runsFrom n current (cell # cells) = (if sameRun cell current then runsFrom (n + 1) current cells else (n, current) # runsFrom 1 cell cells)"

fun paneHistoryCellRuns :: "Cell list \<Rightarrow> (nat \<times> Cell) list" where
  "paneHistoryCellRuns [] = []"
| "paneHistoryCellRuns (c # cells) = runsFrom 1 c cells"

fun runCountFrom :: "nat \<Rightarrow> Cell \<Rightarrow> Cell list \<Rightarrow> nat" where
  "runCountFrom n current [] = n"
| "runCountFrom n current (cell # cells) = (if sameRun cell current then runCountFrom n current cells else runCountFrom (n + 1) cell cells)"

fun paneHistoryCellRunCount :: "Cell list \<Rightarrow> nat" where
  "paneHistoryCellRunCount [] = 0"
| "paneHistoryCellRunCount (c # cells) = runCountFrom 1 c cells"

definition writePaneHistoryCellRun :: "nat \<Rightarrow> Cell \<Rightarrow> (paneHistoryStyleKey \<times> nat) list \<Rightarrow> wireError + string" where
  "writePaneHistoryCellRun num cell styleIndex =
     (if cell_Width cell < 0 then Inl NegativeWidth
      else Inr (putUvarint num @ writePaneHistoryString (cell_Char cell) @ putUvarint (nat (cell_Width cell)) @
        putUvarint (case map_of styleIndex (paneHistoryComparableStyle (cell_Style cell)) of Some i \<Rightarrow> i | None \<Rightarrow> 0)))"

definition appendTo :: "wireError + string \<Rightarrow> wireError + string \<Rightarrow> wireError + string" where
  "appendTo a b = (case a of Inl e \<Rightarrow> Inl e | Inr x \<Rightarrow> (case b of Inl e \<Rightarrow> Inl e | Inr y \<Rightarrow> Inr (x @ y)))"

fun writeRunsFrom :: "(paneHistoryStyleKey \<times> nat) list \<Rightarrow> nat \<Rightarrow> Cell \<Rightarrow> Cell list \<Rightarrow> wireError + string" where
  "writeRunsFrom styleIndex num current [] = writePaneHistoryCellRun num current styleIndex"
| "writeRunsFrom styleIndex num current (cell # cells) =
     (if sameRun cell current then writeRunsFrom styleIndex (num + 1) current cells
      else appendTo (writePaneHistoryCellRun num current styleIndex) (writeRunsFrom styleIndex 1 cell cells))"

definition writePaneHistoryCellRuns :: "Cell list \<Rightarrow> (paneHistoryStyleKey \<times> nat) list \<Rightarrow> wireError + string" where
  "writePaneHistoryCellRuns cells styleIndex =
     (case cells of
        [] \<Rightarrow> Inr (putUvarint (paneHistoryCellRunCount cells))
      | c # cs \<Rightarrow> appendTo (Inr (putUvarint (paneHistoryCellRunCount cells))) (writeRunsFrom styleIndex 1 c cs))"

fun cellsTextFrom :: "string \<Rightarrow> Cell list \<Rightarrow> bool" where
  "cellsTextFrom t [] \<longleftrightarrow> t = []"
| "cellsTextFrom t (cell # cells) \<longleftrightarrow> take (length (cell_Char cell)) t = cell_Char cell \<and> cellsTextFrom (drop (length (cell_Char cell)) t) cells"

definition paneHistoryCellsTextEqual :: "string \<Rightarrow> Cell list \<Rightarrow> bool" where
  "paneHistoryCellsTextEqual t cells = cellsTextFrom t cells"

definition paneHistoryCellsText :: "Cell list \<Rightarrow> string" where
  "paneHistoryCellsText cells = concat (map cell_Char cells)"

text \<open>The flags of a line: its text is that of its cells (1), it has cells (2).\<close>

definition writeStyledLine :: "(paneHistoryStyleKey \<times> nat) list \<Rightarrow> StyledLine \<Rightarrow> wireError + string" where
  "writeStyledLine styleIndex line =
     (let hasCells = (line_Cells line \<noteq> []);
          textFromCells = (hasCells \<and> paneHistoryCellsTextEqual (line_Text line) (line_Cells line));
          head = [char_of ((if hasCells then 2 else 0) + (if textFromCells then 1 else (0::nat)))] @
            (if textFromCells then [] else writePaneHistoryString (line_Text line))
      in if hasCells then appendTo (Inr head) (writePaneHistoryCellRuns (line_Cells line) styleIndex) else Inr head)"

definition writeLines :: "(paneHistoryStyleKey \<times> nat) list \<Rightarrow> StyledLine list \<Rightarrow> wireError + string" where
  "writeLines styleIndex ls = foldr (\<lambda>line. appendTo (writeStyledLine styleIndex line)) ls (Inr [])"

definition encodePaneHistoryPayloadFresh :: "string list \<Rightarrow> StyledLine list \<Rightarrow> wireError + string" where
  "encodePaneHistoryPayloadFresh history styled =
     (let fromStyled = paneHistoryMatchesStyledText history styled;
          (styles, styleIndex) = paneHistoryStyleTable styled
      in appendTo
           (Inr ([if fromStyled then CHR 0x01 else CHR 0x00] @ putUvarint (length history) @ putUvarint (length styled) @
              (if fromStyled then [] else concat (map writePaneHistoryString history)) @
              putUvarint (length styles) @ concat (map writePaneHistoryStyle styles)))
           (writeLines styleIndex styled))"

section \<open>Reading\<close>

text \<open>A reader of a stream: how many of its bytes may still be read, and the bytes.\<close>

type_synonym limited = "nat \<times> string"
type_synonym 'a reader = "limited \<Rightarrow> wireError + 'a \<times> limited"

definition give :: "'a \<Rightarrow> 'a reader" where
  "give x st = Inr (x, st)"

definition fail :: "wireError \<Rightarrow> 'a reader" where
  "fail e st = Inl e"

definition andThen :: "'a reader \<Rightarrow> ('a \<Rightarrow> 'b reader) \<Rightarrow> 'b reader" where
  "andThen p f st = (case p st of Inl e \<Rightarrow> Inl e | Inr (x, st') \<Rightarrow> f x st')"

definition ReadByte :: "char reader" where
  "ReadByte st = (case st of (n, bs) \<Rightarrow> if n = 0 \<or> bs = [] then Inl EndOfInput else Inr (hd bs, (n - 1, tl bs)))"

definition ReadFull :: "nat \<Rightarrow> string reader" where
  "ReadFull k st = (case st of (n, bs) \<Rightarrow> if k > n \<or> k > length bs then Inl EndOfInput else Inr (take k bs, (n - k, drop k bs)))"

text \<open>\<^verbatim>\<open>binary.ReadUvarint\<close>: at most ten bytes, and at most one bit in the tenth.\<close>

fun readUvarintFrom :: "nat \<Rightarrow> nat \<Rightarrow> nat \<Rightarrow> string \<Rightarrow> wireError + nat \<times> limited" where
  "readUvarintFrom i x n [] = (if i = 10 then Inl VarintOverflow else Inl EndOfInput)"
| "readUvarintFrom i x n (c # bs) =
     (if i = 10 then Inl VarintOverflow
      else if n = 0 then Inl EndOfInput
      else let b = of_char c in
        if b < (128::nat) then (if i = 9 \<and> b > 1 then Inl VarintOverflow else Inr (x + b * 2 ^ (7 * i), (n - 1, bs)))
        else readUvarintFrom (i + 1) (x + (b - 128) * 2 ^ (7 * i)) (n - 1) bs)"

definition ReadUvarint :: "nat reader" where
  "ReadUvarint st = (case st of (n, bs) \<Rightarrow> readUvarintFrom 0 0 n bs)"

definition readPaneHistoryCount :: "nat \<Rightarrow> nat reader" where
  "readPaneHistoryCount payloadLen = andThen ReadUvarint (\<lambda>n. if n > payloadLen then fail TooLarge else give n)"

definition readPaneHistoryRunLength :: "nat \<Rightarrow> nat reader" where
  "readPaneHistoryRunLength cellsRemaining = andThen ReadUvarint (\<lambda>n. if n > cellsRemaining then fail TooLarge else give n)"

definition remaining :: "nat reader" where
  "remaining st = Inr (fst st, st)"

definition readPaneHistoryString :: "string reader" where
  "readPaneHistoryString = andThen ReadUvarint (\<lambda>n. andThen remaining (\<lambda>r. if n > r then fail EndOfInput else ReadFull n))"

definition getUint16 :: "char \<Rightarrow> char \<Rightarrow> uint16" where
  "getUint16 h l = of_nat (of_char h * 256 + of_char l)"

definition readPaneHistoryColor :: "Color reader" where
  "readPaneHistoryColor = andThen ReadByte (\<lambda>kind.
     if kind = CHR 0x00 then give NoColor
     else if kind = CHR 0x01 then andThen ReadByte (\<lambda>v. give (BasicColor v))
     else if kind = CHR 0x02 then andThen ReadByte (\<lambda>v. give (IndexedColor v))
     else if kind = CHR 0x03 then andThen (ReadFull 3) (\<lambda>b. give (RGBColor (b ! 0) (b ! 1) (b ! 2)))
     else if kind = CHR 0x04 then andThen (ReadFull 4) (\<lambda>b. give (RGBA (b ! 0) (b ! 1) (b ! 2) (b ! 3)))
     else if kind = CHR 0x05 then andThen (ReadFull 8) (\<lambda>b.
       give (RGBA64 (getUint16 (b ! 0) (b ! 1)) (getUint16 (b ! 2) (b ! 3)) (getUint16 (b ! 4) (b ! 5)) (getUint16 (b ! 6) (b ! 7))))
     else fail UnknownColor)"

definition readPaneHistoryStyle :: "Style reader" where
  "readPaneHistoryStyle =
     andThen readPaneHistoryColor (\<lambda>fg. andThen readPaneHistoryColor (\<lambda>bg. andThen readPaneHistoryColor (\<lambda>ul.
     andThen ReadByte (\<lambda>underline. andThen ReadByte (\<lambda>attrs.
       give \<lparr>Fg = fg, Bg = bg, UnderlineColor = ul, Underline = underline, Attrs = attrs\<rparr>)))))"

primrec readMany :: "nat \<Rightarrow> 'a reader \<Rightarrow> 'a list reader" where
  "readMany 0 p = give []"
| "readMany (Suc n) p = andThen p (\<lambda>x. andThen (readMany n p) (\<lambda>xs. give (x # xs)))"

primrec readRuns :: "nat \<Rightarrow> nat \<Rightarrow> Style list \<Rightarrow> nat \<Rightarrow> Cell list reader" where
  "readRuns payloadLen 0 styles cellsRemaining = give []"
| "readRuns payloadLen (Suc k) styles cellsRemaining =
     andThen (readPaneHistoryRunLength cellsRemaining) (\<lambda>runLen.
     andThen readPaneHistoryString (\<lambda>ch.
     andThen (readPaneHistoryCount payloadLen) (\<lambda>w.
     andThen (readPaneHistoryCount payloadLen) (\<lambda>styleIndex.
       if styleIndex \<ge> length styles then fail StyleOutOfRange
       else andThen (readRuns payloadLen k styles (cellsRemaining - runLen)) (\<lambda>cells.
         give (replicate runLen \<lparr>cell_Char = ch, cell_Style = styles ! styleIndex, cell_Width = int w\<rparr> @ cells))))))"

definition lineFlag :: "nat \<Rightarrow> char \<Rightarrow> bool" where
  "lineFlag m flags \<longleftrightarrow> odd ((of_char flags :: nat) div m)"

definition readStyledLine :: "nat \<Rightarrow> Style list \<Rightarrow> StyledLine reader" where
  "readStyledLine payloadLen styles =
     andThen ReadByte (\<lambda>flags.
     andThen (if \<not> lineFlag 1 flags then readPaneHistoryString else give []) (\<lambda>t.
       if lineFlag 2 flags then
         andThen (readPaneHistoryCount payloadLen) (\<lambda>runCount.
         andThen (readRuns payloadLen runCount styles maxPaneHistoryLineCells) (\<lambda>cells.
           give \<lparr>line_Text = (if lineFlag 1 flags then paneHistoryCellsText cells else t), line_Cells = cells\<rparr>))
       else give \<lparr>line_Text = t, line_Cells = []\<rparr>))"

definition StyledLineText :: "StyledLine list \<Rightarrow> string list" where
  "StyledLineText ls = map line_Text ls"

definition decodePaneHistoryPayload :: "nat \<Rightarrow> (string list \<times> StyledLine list) reader" where
  "decodePaneHistoryPayload payloadLen =
     andThen ReadByte (\<lambda>flags.
     andThen (readPaneHistoryCount payloadLen) (\<lambda>historyCount.
     andThen (readPaneHistoryCount payloadLen) (\<lambda>styledCount.
     andThen (if \<not> lineFlag 1 flags then readMany historyCount readPaneHistoryString
              else if historyCount \<noteq> styledCount then fail CountMismatch
              else give (replicate historyCount [])) (\<lambda>history.
     andThen (readPaneHistoryCount payloadLen) (\<lambda>styleCount.
     andThen (readMany styleCount readPaneHistoryStyle) (\<lambda>styles.
     andThen (readMany styledCount (readStyledLine payloadLen styles)) (\<lambda>styled.
       give (if lineFlag 1 flags then StyledLineText styled else history, styled))))))))"

end
