(* ===== verification/Wire_Frames.thy ===== *)
theory Wire_Frames
  imports Wire_History "HOL-Library.AList"
begin

text \<open>
  The frames of a connection (\<^verbatim>\<open>proto/wire.go\<close>) and the cache of encoded histories
  (\<^verbatim>\<open>proto/wire_pane_history.go\<close>). The gob codec of the standard library is a parameter: an
  encoder and a decoder, each with a state that lives as long as the connection. The fields of a
  message that only the gob codec sees are one field of any type. The caches live in a store, because
  the messages for several clients share the cache of a pane.
\<close>

section \<open>Messages\<close>

definition MsgTypePaneOutput :: nat where
  "MsgTypePaneOutput = 15"

definition MsgTypePaneHistory :: nat where
  "MsgTypePaneHistory = 25"

record paneHistoryPayloadRange =
  range_start :: int
  range_end :: int

record 'r ProtoMessage =
  msg_Type :: nat
  msg_PaneID :: uint32
  msg_PaneData :: string
  msg_SourceEpoch :: uint32
  msg_History :: "string list"
  msg_StyledHistory :: "StyledLine list"
  msg_rest :: 'r
  paneHistoryPayloadCache :: "nat option"
  paneHistoryPayloadVersion :: uint64
  paneHistoryRange :: "paneHistoryPayloadRange option"

text \<open>A message of a type whose other fields are zero; \<open>zero\<close> is the zero value of the rest.\<close>

definition newMessage :: "'r \<Rightarrow> nat \<Rightarrow> uint32 \<Rightarrow> 'r ProtoMessage" where
  "newMessage zero t paneID = \<lparr>msg_Type = t, msg_PaneID = paneID, msg_PaneData = [], msg_SourceEpoch = 0, msg_History = [],
     msg_StyledHistory = [], msg_rest = zero, paneHistoryPayloadCache = None, paneHistoryPayloadVersion = 0, paneHistoryRange = None\<rparr>"

section \<open>The cache of encoded histories\<close>

record PaneHistoryPayloadChunk =
  chunk_Start :: int
  chunk_End :: int

record PaneHistoryPayloadCache =
  cache_version :: uint64
  cache_payload :: string
  cache_valid :: bool
  chunkPayloads :: "(paneHistoryPayloadRange \<times> string) list"
  chunkPlans :: "(int \<times> PaneHistoryPayloadChunk list) list"

definition emptyPaneHistoryPayloadCache :: PaneHistoryPayloadCache where
  "emptyPaneHistoryPayloadCache = \<lparr>cache_version = 0, cache_payload = [], cache_valid = False, chunkPayloads = [], chunkPlans = []\<rparr>"

definition cacheGet :: "PaneHistoryPayloadCache option \<Rightarrow> uint64 \<Rightarrow> string option" where
  "cacheGet cache version =
     (case cache of
        None \<Rightarrow> None
      | Some c \<Rightarrow> if \<not> cache_valid c \<or> cache_version c \<noteq> version then None else Some (cache_payload c))"

definition getChunkPayload :: "PaneHistoryPayloadCache option \<Rightarrow> uint64 \<Rightarrow> paneHistoryPayloadRange \<Rightarrow> string option" where
  "getChunkPayload cache version r =
     (case cache of
        None \<Rightarrow> None
      | Some c \<Rightarrow> if cache_version c \<noteq> version \<or> chunkPayloads c = [] then None else map_of (chunkPayloads c) r)"

definition PayloadLen :: "PaneHistoryPayloadCache option \<Rightarrow> uint64 \<Rightarrow> nat option" where
  "PayloadLen cache version = (case cacheGet cache version of None \<Rightarrow> None | Some payload \<Rightarrow> Some (length payload))"

definition ChunkPlan :: "PaneHistoryPayloadCache option \<Rightarrow> uint64 \<Rightarrow> int \<Rightarrow> PaneHistoryPayloadChunk list option" where
  "ChunkPlan cache version maxChunkSize =
     (case cache of
        None \<Rightarrow> None
      | Some c \<Rightarrow> if cache_version c \<noteq> version \<or> chunkPlans c = [] then None else map_of (chunkPlans c) maxChunkSize)"

definition resetForVersionLocked :: "uint64 \<Rightarrow> PaneHistoryPayloadCache \<Rightarrow> PaneHistoryPayloadCache" where
  "resetForVersionLocked version c =
     (if cache_version c = version then c
      else c\<lparr>cache_version := version, cache_payload := [], cache_valid := False, chunkPayloads := [], chunkPlans := []\<rparr>)"

definition StoreChunkPlan :: "uint64 \<Rightarrow> int \<Rightarrow> PaneHistoryPayloadChunk list \<Rightarrow> PaneHistoryPayloadCache option \<Rightarrow> PaneHistoryPayloadCache option" where
  "StoreChunkPlan version maxChunkSize chunks cache =
     (case cache of
        None \<Rightarrow> None
      | Some c \<Rightarrow> let c' = resetForVersionLocked version c in Some (c'\<lparr>chunkPlans := AList.update maxChunkSize chunks (chunkPlans c')\<rparr>))"

definition cacheStore :: "uint64 \<Rightarrow> string \<Rightarrow> PaneHistoryPayloadCache option \<Rightarrow> PaneHistoryPayloadCache option" where
  "cacheStore version payload cache =
     (case cache of
        None \<Rightarrow> None
      | Some c \<Rightarrow> Some ((resetForVersionLocked version c)\<lparr>cache_payload := payload, cache_valid := True\<rparr>))"

definition storeChunkPayload :: "uint64 \<Rightarrow> paneHistoryPayloadRange \<Rightarrow> string \<Rightarrow> PaneHistoryPayloadCache option \<Rightarrow> PaneHistoryPayloadCache option" where
  "storeChunkPayload version r payload cache =
     (case cache of
        None \<Rightarrow> None
      | Some c \<Rightarrow> let c' = resetForVersionLocked version c in Some (c'\<lparr>chunkPayloads := AList.update r payload (chunkPayloads c')\<rparr>))"

type_synonym caches = "nat \<Rightarrow> PaneHistoryPayloadCache"

definition cacheAt :: "caches \<Rightarrow> nat option \<Rightarrow> PaneHistoryPayloadCache option" where
  "cacheAt st ptr = (case ptr of None \<Rightarrow> None | Some a \<Rightarrow> Some (st a))"

definition putCache :: "nat option \<Rightarrow> PaneHistoryPayloadCache option \<Rightarrow> caches \<Rightarrow> caches" where
  "putCache ptr cache st = (case ptr of None \<Rightarrow> st | Some a \<Rightarrow> (case cache of None \<Rightarrow> st | Some c \<Rightarrow> st(a := c)))"

definition SetPaneHistoryPayloadCache :: "nat option \<Rightarrow> uint64 \<Rightarrow> 'r ProtoMessage \<Rightarrow> 'r ProtoMessage" where
  "SetPaneHistoryPayloadCache cache version m = m\<lparr>paneHistoryPayloadCache := cache, paneHistoryPayloadVersion := version, paneHistoryRange := None\<rparr>"

definition SetPaneHistoryPayloadCacheRange :: "nat option \<Rightarrow> uint64 \<Rightarrow> int \<Rightarrow> int \<Rightarrow> 'r ProtoMessage \<Rightarrow> 'r ProtoMessage" where
  "SetPaneHistoryPayloadCacheRange cache version start finish m =
     m\<lparr>paneHistoryPayloadCache := cache, paneHistoryPayloadVersion := version, paneHistoryRange := Some \<lparr>range_start = start, range_end = finish\<rparr>\<rparr>"

definition encodePaneHistoryPayload :: "'r ProtoMessage \<Rightarrow> caches \<Rightarrow> wireError + string \<times> caches" where
  "encodePaneHistoryPayload m st =
     (let cache = cacheAt st (paneHistoryPayloadCache m); version = paneHistoryPayloadVersion m in
      case (case paneHistoryRange m of Some r \<Rightarrow> getChunkPayload cache version r | None \<Rightarrow> cacheGet cache version) of
        Some payload \<Rightarrow> Inr (payload, st)
      | None \<Rightarrow>
          (case encodePaneHistoryPayloadFresh (msg_History m) (msg_StyledHistory m) of
             Inl e \<Rightarrow> Inl e
           | Inr payload \<Rightarrow>
               Inr (payload, putCache (paneHistoryPayloadCache m)
                 (case paneHistoryRange m of
                    Some r \<Rightarrow> storeChunkPayload version r payload cache
                  | None \<Rightarrow> cacheStore version payload cache) st)))"

section \<open>Writing frames\<close>

definition maxMessageSize :: nat where
  "maxMessageSize = 16 * 1024 * 1024"

definition putUint32 :: "uint32 \<Rightarrow> string" where
  "putUint32 v = [char_of (unat v div 16777216), char_of (unat v div 65536 mod 256), char_of (unat v div 256 mod 256), char_of (unat v mod 256)]"

definition getUint32 :: "string \<Rightarrow> uint32" where
  "getUint32 b = of_nat (of_char (b ! 0) * 16777216 + of_char (b ! 1) * 65536 + of_char (b ! 2) * 256 + of_char (b ! 3))"

definition writePaneOutputBinary :: "'r ProtoMessage \<Rightarrow> string" where
  "writePaneOutputBinary m = [CHR 0x01] @ putUint32 (msg_PaneID m) @ putUint32 (of_nat (length (msg_PaneData m))) @ msg_PaneData m"

definition writePaneHistoryBinary :: "'r ProtoMessage \<Rightarrow> caches \<Rightarrow> wireError + string \<times> caches" where
  "writePaneHistoryBinary m st =
     (case encodePaneHistoryPayload m st of
        Inl e \<Rightarrow> Inl e
      | Inr (payload, st') \<Rightarrow> Inr ([CHR 0x02] @ putUint32 (msg_PaneID m) @ putUint32 (of_nat (length payload)) @ payload, st'))"

definition writeGobFrame :: "string \<Rightarrow> string" where
  "writeGobFrame payload = [CHR 0x00] @ putUint32 (of_nat (length payload)) @ payload"

type_synonym ('g, 'r) gobEncoder = "'g \<Rightarrow> 'r ProtoMessage \<Rightarrow> (string \<times> 'g) option"
type_synonym ('d, 'r) gobDecoder = "'d \<Rightarrow> string \<Rightarrow> ('r ProtoMessage \<times> 'd) option"

record 'g Writer =
  gobEnc :: 'g
  binaryPaneHistory :: bool

definition NewWriter :: "'g \<Rightarrow> 'g Writer" where
  "NewWriter g = \<lparr>gobEnc = g, binaryPaneHistory = False\<rparr>"

definition SetBinaryPaneHistory :: "bool \<Rightarrow> 'g Writer option \<Rightarrow> 'g Writer option" where
  "SetBinaryPaneHistory enabled w = (case w of None \<Rightarrow> None | Some w \<Rightarrow> Some (w\<lparr>binaryPaneHistory := enabled\<rparr>))"

definition Writer_WriteMsg :: "('g, 'r) gobEncoder \<Rightarrow> 'r ProtoMessage \<Rightarrow> 'g Writer option \<times> caches \<Rightarrow> wireError + string \<times> 'g Writer option \<times> caches" where
  "Writer_WriteMsg enc m s =
     (case s of
        (None, st) \<Rightarrow> Inl ClosedPipe
      | (Some w, st) \<Rightarrow>
          if msg_Type m = MsgTypePaneOutput \<and> msg_SourceEpoch m = 0 then Inr (writePaneOutputBinary m, Some w, st)
          else if msg_Type m = MsgTypePaneHistory \<and> binaryPaneHistory w then
            (case writePaneHistoryBinary m st of Inl e \<Rightarrow> Inl e | Inr (b, st') \<Rightarrow> Inr (b, Some w, st'))
          else
            (case enc (gobEnc w) m of
               None \<Rightarrow> Inl GobError
             | Some (payload, g) \<Rightarrow> Inr (writeGobFrame payload, Some (w\<lparr>gobEnc := g\<rparr>), st)))"

text \<open>The helper without a connection: a new encoder for every message.\<close>

definition WriteMsg :: "('g, 'r) gobEncoder \<Rightarrow> 'g \<Rightarrow> 'r ProtoMessage \<Rightarrow> wireError + string" where
  "WriteMsg enc g0 m =
     (if msg_Type m = MsgTypePaneOutput \<and> msg_SourceEpoch m = 0 then Inr (writePaneOutputBinary m)
      else case enc g0 m of None \<Rightarrow> Inl GobError | Some (payload, g) \<Rightarrow> Inr (writeGobFrame payload))"

section \<open>Reading frames\<close>

definition readBytes :: "nat \<Rightarrow> string \<Rightarrow> wireError + string \<times> string" where
  "readBytes k bs = (if k > length bs then Inl EndOfInput else Inr (take k bs, drop k bs))"

definition readPaneOutputBinary :: "'r \<Rightarrow> string \<Rightarrow> wireError + 'r ProtoMessage \<times> string" where
  "readPaneOutputBinary zero bs =
     (case readBytes 8 bs of
        Inl e \<Rightarrow> Inl e
      | Inr (hdr, bs1) \<Rightarrow>
          let paneID = getUint32 (take 4 hdr); dataLen = unat (getUint32 (drop 4 hdr)) in
          if dataLen > maxMessageSize then Inl TooLarge
          else case readBytes dataLen bs1 of
            Inl e \<Rightarrow> Inl e
          | Inr (data, bs2) \<Rightarrow> Inr ((newMessage zero MsgTypePaneOutput paneID)\<lparr>msg_PaneData := data\<rparr>, bs2))"

definition readPaneHistoryBinary :: "'r \<Rightarrow> string \<Rightarrow> wireError + 'r ProtoMessage \<times> string" where
  "readPaneHistoryBinary zero bs =
     (case readBytes 8 bs of
        Inl e \<Rightarrow> Inl e
      | Inr (hdr, bs1) \<Rightarrow>
          let paneID = getUint32 (take 4 hdr); payloadLen = unat (getUint32 (drop 4 hdr)) in
          if payloadLen > maxMessageSize then Inl TooLarge
          else case decodePaneHistoryPayload payloadLen (payloadLen, bs1) of
            Inl e \<Rightarrow> Inl e
          | Inr ((history, styled), (left, bs2)) \<Rightarrow>
              if left \<noteq> 0 then Inl TrailingBytes
              else Inr ((newMessage zero MsgTypePaneHistory paneID)\<lparr>msg_History := history, msg_StyledHistory := styled\<rparr>, bs2))"

definition readGobPayload :: "string \<Rightarrow> wireError + string \<times> string" where
  "readGobPayload bs =
     (case readBytes 4 bs of
        Inl e \<Rightarrow> Inl e
      | Inr (hdr, bs1) \<Rightarrow>
          let len = unat (getUint32 hdr) in
          if len > maxMessageSize then Inl TooLarge else readBytes len bs1)"

definition Reader_readMsgGob :: "('d, 'r) gobDecoder \<Rightarrow> 'd \<Rightarrow> string \<Rightarrow> wireError + 'r ProtoMessage \<times> 'd \<times> string" where
  "Reader_readMsgGob dec d bs =
     (case readGobPayload bs of
        Inl e \<Rightarrow> Inl e
      | Inr (data, bs1) \<Rightarrow> (case dec d data of None \<Rightarrow> Inl GobError | Some (m, d') \<Rightarrow> Inr (m, d', bs1)))"

definition Reader_ReadMsg :: "('d, 'r) gobDecoder \<Rightarrow> 'r \<Rightarrow> 'd option \<Rightarrow> string \<Rightarrow> wireError + 'r ProtoMessage \<times> 'd option \<times> string" where
  "Reader_ReadMsg dec zero r bs =
     (case r of
        None \<Rightarrow> Inl ClosedPipe
      | Some d \<Rightarrow>
          (case readBytes 1 bs of
             Inl e \<Rightarrow> Inl e
           | Inr (disc, bs1) \<Rightarrow>
               if disc ! 0 = CHR 0x01 then
                 (case readPaneOutputBinary zero bs1 of Inl e \<Rightarrow> Inl e | Inr (m, bs2) \<Rightarrow> Inr (m, Some d, bs2))
               else if disc ! 0 = CHR 0x02 then
                 (case readPaneHistoryBinary zero bs1 of Inl e \<Rightarrow> Inl e | Inr (m, bs2) \<Rightarrow> Inr (m, Some d, bs2))
               else
                 (case Reader_readMsgGob dec d bs1 of Inl e \<Rightarrow> Inl e | Inr (m, d', bs2) \<Rightarrow> Inr (m, Some d', bs2))))"

text \<open>The helper without a connection decodes from the bytes of the frame that have come, and skips the rest of the frame.\<close>

definition readMsgGob :: "('d, 'r) gobDecoder \<Rightarrow> 'd \<Rightarrow> string \<Rightarrow> wireError + 'r ProtoMessage \<times> string" where
  "readMsgGob dec d0 bs =
     (case readBytes 4 bs of
        Inl e \<Rightarrow> Inl e
      | Inr (hdr, bs1) \<Rightarrow>
          let len = unat (getUint32 hdr) in
          if len > maxMessageSize then Inl TooLarge
          else case dec d0 (take len bs1) of None \<Rightarrow> Inl GobError | Some (m, d) \<Rightarrow> Inr (m, drop len bs1))"

definition ReadMsg :: "('d, 'r) gobDecoder \<Rightarrow> 'r \<Rightarrow> 'd \<Rightarrow> string \<Rightarrow> wireError + 'r ProtoMessage \<times> string" where
  "ReadMsg dec zero d0 bs =
     (case readBytes 1 bs of
        Inl e \<Rightarrow> Inl e
      | Inr (disc, bs1) \<Rightarrow>
          if disc ! 0 = CHR 0x01 then readPaneOutputBinary zero bs1
          else if disc ! 0 = CHR 0x02 then readPaneHistoryBinary zero bs1
          else readMsgGob dec d0 bs1)"

end
