(* ===== verification/History_Chunks.thy ===== *)
theory History_Chunks
  imports Wire_Frames
begin

text \<open>
  Splitting the history of a pane into messages of a bounded size (\<^verbatim>\<open>server/pane_history_chunk.go\<close>). The end
  of a chunk is found by binary search over the encoded size of the chunk; a plan of chunks is
  kept in the cache of the pane.
\<close>

definition paneHistoryChunkThreshold :: int where
  "paneHistoryChunkThreshold = 4 * 1024 * 1024"

definition paneHistoryBinaryFrameHeaderSize :: int where
  "paneHistoryBinaryFrameHeaderSize = 9"

definition lineSlice :: "int \<Rightarrow> int \<Rightarrow> 'a list \<Rightarrow> 'a list" where
  "lineSlice start finish xs = take (nat (finish - start)) (drop (nat start) xs)"

definition newPaneHistoryMessage :: "'r \<Rightarrow> uint32 \<Rightarrow> StyledLine list \<Rightarrow> 'r ProtoMessage" where
  "newPaneHistoryMessage zero paneID history =
     (newMessage zero MsgTypePaneHistory paneID)\<lparr>msg_History := StyledLineText history, msg_StyledHistory := history\<rparr>"

definition newPaneHistoryMessageWithCache :: "'r \<Rightarrow> uint32 \<Rightarrow> StyledLine list \<Rightarrow> nat option \<Rightarrow> uint64 \<Rightarrow> 'r ProtoMessage" where
  "newPaneHistoryMessageWithCache zero paneID history cache version =
     (let msg = newPaneHistoryMessage zero paneID history
      in if cache \<noteq> None then SetPaneHistoryPayloadCache cache version msg else msg)"

definition newPaneHistoryMessageWithCacheRange :: "'r \<Rightarrow> uint32 \<Rightarrow> StyledLine list \<Rightarrow> nat option \<Rightarrow> uint64 \<Rightarrow> int \<Rightarrow> int \<Rightarrow> 'r ProtoMessage" where
  "newPaneHistoryMessageWithCacheRange zero paneID history cache version start finish =
     (let msg = newPaneHistoryMessage zero paneID history
      in if cache \<noteq> None then SetPaneHistoryPayloadCacheRange cache version start finish msg else msg)"

definition estimatePaneHistoryMessageSize :: "('g, 'r) gobEncoder \<Rightarrow> 'g \<Rightarrow> bool \<Rightarrow> 'r ProtoMessage \<Rightarrow> wireError + int" where
  "estimatePaneHistoryMessageSize enc g0 binary msg =
     (case Writer_WriteMsg enc msg (SetBinaryPaneHistory binary (Some (NewWriter g0)), \<lambda>_. emptyPaneHistoryPayloadCache) of
        Inl e \<Rightarrow> Inl e
      | Inr (buf, _) \<Rightarrow> Inr (int (length buf)))"

text \<open>The binary search. \<open>sizeOf mid\<close> is the estimated size of the chunk that ends before line \<open>mid\<close>.\<close>

function chunkSearch :: "(int \<Rightarrow> wireError + int) \<Rightarrow> int \<Rightarrow> int \<Rightarrow> int \<Rightarrow> int \<Rightarrow> wireError + int" where
  "chunkSearch sizeOf maxChunkSize lo hi best =
     (if lo \<le> hi then
        let mid = lo + (hi - lo) div 2 in
        case sizeOf mid of
          Inl e \<Rightarrow> Inl e
        | Inr sz \<Rightarrow>
            if sz \<le> maxChunkSize then chunkSearch sizeOf maxChunkSize (mid + 1) hi mid
            else chunkSearch sizeOf maxChunkSize lo (mid - 1) best
      else Inr best)"
  by pat_completeness auto
termination by (relation "measure (\<lambda>(f, m, lo, hi, best). nat (hi + 1 - lo))") auto

definition findPaneHistoryChunkEnd :: "('g, 'r) gobEncoder \<Rightarrow> 'g \<Rightarrow> 'r \<Rightarrow> uint32 \<Rightarrow> StyledLine list \<Rightarrow> int \<Rightarrow> int \<Rightarrow> bool \<Rightarrow> wireError + int" where
  "findPaneHistoryChunkEnd enc g0 zero paneID history start maxChunkSize binary =
     (case chunkSearch (\<lambda>mid. estimatePaneHistoryMessageSize enc g0 binary (newPaneHistoryMessage zero paneID (lineSlice start mid history)))
         maxChunkSize (start + 1) (int (length history)) start of
        Inl e \<Rightarrow> Inl e
      | Inr best \<Rightarrow> Inr (if best > start then best else start + 1))"

declare chunkSearch.simps [simp del]

lemma findPaneHistoryChunkEnd_progress:
  "findPaneHistoryChunkEnd enc g0 zero paneID history start maxChunkSize binary = Inr finish \<Longrightarrow> start < finish"
  by (auto simp: findPaneHistoryChunkEnd_def split: sum.splits if_splits)

text \<open>The loop both callers have: the chunks from line \<open>start\<close> on.\<close>

function chunksFrom :: "('g, 'r) gobEncoder \<Rightarrow> 'g \<Rightarrow> 'r \<Rightarrow> uint32 \<Rightarrow> StyledLine list \<Rightarrow> int \<Rightarrow> int \<Rightarrow> bool \<Rightarrow> wireError + PaneHistoryPayloadChunk list" where
  "chunksFrom enc g0 zero paneID history start maxChunkSize binary =
     (if start < int (length history) then
        case findPaneHistoryChunkEnd enc g0 zero paneID history start maxChunkSize binary of
          Inl e \<Rightarrow> Inl e
        | Inr finish \<Rightarrow>
            (case chunksFrom enc g0 zero paneID history finish maxChunkSize binary of
               Inl e \<Rightarrow> Inl e
             | Inr chunks \<Rightarrow> Inr (\<lparr>chunk_Start = start, chunk_End = finish\<rparr> # chunks))
      else Inr [])"
  by pat_completeness auto
termination
  by (relation "measure (\<lambda>(enc, g0, zero, paneID, history, start, m, b). nat (int (length history) - start))")
    (auto dest: findPaneHistoryChunkEnd_progress)

declare chunksFrom.simps [simp del]

definition chunkPaneHistoryMessages :: "('g, 'r) gobEncoder \<Rightarrow> 'g \<Rightarrow> 'r \<Rightarrow> uint32 \<Rightarrow> StyledLine list \<Rightarrow> int \<Rightarrow> bool \<Rightarrow> wireError + 'r ProtoMessage list" where
  "chunkPaneHistoryMessages enc g0 zero paneID history maxChunkSize binary =
     (if history = [] then Inr []
      else if maxChunkSize \<le> 0 then Inl InvalidChunkSize
      else case chunksFrom enc g0 zero paneID history 0 maxChunkSize binary of
        Inl e \<Rightarrow> Inl e
      | Inr chunks \<Rightarrow> Inr (map (\<lambda>ch. newPaneHistoryMessage zero paneID (lineSlice (chunk_Start ch) (chunk_End ch) history)) chunks))"

definition paneHistoryMessagesFromCachedChunks ::
    "'r \<Rightarrow> uint32 \<Rightarrow> StyledLine list \<Rightarrow> PaneHistoryPayloadChunk list \<Rightarrow> nat option \<Rightarrow> uint64 \<Rightarrow> 'r ProtoMessage list option" where
  "paneHistoryMessagesFromCachedChunks zero paneID history chunks cache version =
     (if list_ex (\<lambda>ch. chunk_Start ch < 0 \<or> chunk_End ch \<le> chunk_Start ch \<or> chunk_End ch > int (length history)) chunks then None
      else Some (map (\<lambda>ch. newPaneHistoryMessageWithCacheRange zero paneID (lineSlice (chunk_Start ch) (chunk_End ch) history) cache version
        (chunk_Start ch) (chunk_End ch)) chunks))"

definition chunkUncached :: "('g, 'r) gobEncoder \<Rightarrow> 'g \<Rightarrow> 'r \<Rightarrow> uint32 \<Rightarrow> StyledLine list \<Rightarrow> int \<Rightarrow> bool \<Rightarrow> nat option \<Rightarrow> uint64 \<Rightarrow> caches \<Rightarrow>
    wireError + 'r ProtoMessage list \<times> caches" where
  "chunkUncached enc g0 zero paneID history maxChunkSize binary cache version st =
     (if maxChunkSize \<le> 0 then Inl InvalidChunkSize
      else case chunksFrom enc g0 zero paneID history 0 maxChunkSize binary of
        Inl e \<Rightarrow> Inl e
      | Inr chunks \<Rightarrow>
          let messages = map (\<lambda>ch.
                if binary \<and> cache \<noteq> None
                then newPaneHistoryMessageWithCacheRange zero paneID (lineSlice (chunk_Start ch) (chunk_End ch) history) cache version (chunk_Start ch) (chunk_End ch)
                else newPaneHistoryMessage zero paneID (lineSlice (chunk_Start ch) (chunk_End ch) history)) chunks
          in if length messages = 1 then Inr (map (SetPaneHistoryPayloadCache cache version) messages, st)
             else if binary \<and> cache \<noteq> None then Inr (messages, putCache cache (StoreChunkPlan version maxChunkSize chunks (cacheAt st cache)) st)
             else Inr (messages, st))"

definition chunkPaneHistoryMessagesWithCache :: "('g, 'r) gobEncoder \<Rightarrow> 'g \<Rightarrow> 'r \<Rightarrow> uint32 \<Rightarrow> StyledLine list \<Rightarrow> int \<Rightarrow> bool \<Rightarrow> nat option \<Rightarrow> uint64 \<Rightarrow> caches \<Rightarrow>
    wireError + 'r ProtoMessage list \<times> caches" where
  "chunkPaneHistoryMessagesWithCache enc g0 zero paneID history maxChunkSize binary cache version st =
     (if history = [] then Inr ([], st)
      else case (if binary \<and> cache \<noteq> None then
                   (case (case ChunkPlan (cacheAt st cache) version maxChunkSize of
                            Some chunks \<Rightarrow> paneHistoryMessagesFromCachedChunks zero paneID history chunks cache version
                          | None \<Rightarrow> None) of
                      Some messages \<Rightarrow> Some messages
                    | None \<Rightarrow>
                        (case PayloadLen (cacheAt st cache) version of
                           Some payloadLen \<Rightarrow>
                             if int payloadLen + paneHistoryBinaryFrameHeaderSize \<le> maxChunkSize
                             then Some [newPaneHistoryMessageWithCache zero paneID history cache version] else None
                         | None \<Rightarrow> None))
                 else None) of
             Some messages \<Rightarrow> Inr (messages, st)
           | None \<Rightarrow> chunkUncached enc g0 zero paneID history maxChunkSize binary cache version st)"

end
