(* ===== verification/Wire_Laws.thy ===== *)
theory Wire_Laws
  imports Wire_History
begin

text \<open>
  Reading what was written. A reader \<open>p\<close> reads \<open>x\<close> from the bytes \<open>e\<close> if it takes exactly \<open>e\<close> from
  every stream that starts with them.
\<close>

definition reads :: "'a reader \<Rightarrow> string \<Rightarrow> 'a \<Rightarrow> bool" where
  "reads p e x \<longleftrightarrow> (\<forall>n rest. p (length e + n, e @ rest) = Inr (x, (n, rest)))"

lemma reads_give: "reads (give x) [] x"
  by (simp add: reads_def give_def)

lemma reads_andThen: "reads p e x \<Longrightarrow> reads (f x) e' y \<Longrightarrow> reads (andThen p f) (e @ e') y"
  by (simp add: reads_def andThen_def add.assoc)

lemma reads_last: "reads p e x \<Longrightarrow> reads (andThen p (\<lambda>x. give (f x))) e (f x)"
  using reads_andThen [of p e x "\<lambda>x. give (f x)" "[]" "f x"] by (simp add: reads_give)

lemma reads_ReadByte: "reads ReadByte [c] c"
  by (simp add: reads_def ReadByte_def)

lemma reads_ReadFull: "reads (ReadFull (length s)) s s"
  by (simp add: reads_def ReadFull_def)

section \<open>Integers\<close>

lemma uvarint_step:
  assumes "v < 2 ^ (64 - 7 * i)" "i \<le> 9"
  shows "readUvarintFrom i x (length (putUvarint v) + n) (putUvarint v @ rest) = Inr (x + v * 2 ^ (7 * i), (n, rest))"
  using assms
proof (induction v arbitrary: i x rule: putUvarint.induct)
  case (1 v)
  show ?case
  proof (cases "v < 128")
    case True
    then have p: "putUvarint v = [char_of v]" by (simp add: putUvarint.simps [of v])
    have "\<not> Suc 0 < v" if "i = 9" using 1(2) that by simp
    then show ?thesis using True 1(3) by (cases "i = 9") (simp_all add: p)
  next
    case False
    have i: "i < 9"
    proof (rule ccontr)
      assume "\<not> i < 9"
      then have "i = 9" using 1(3) by simp
      then show False using 1(2) False by simp
    qed
    have "v div 128 < 2 ^ (64 - 7 * (i + 1))"
    proof -
      have "64 - 7 * i = (64 - 7 * (i + 1)) + 7" using i by simp
      then have "(2::nat) ^ (64 - 7 * i) = 2 ^ (64 - 7 * (i + 1)) * 128" by (simp only: power_add) simp
      then have "v < 2 ^ (64 - 7 * (i + 1)) * 128" using 1(2) by (simp only:)
      then show ?thesis by (rule less_mult_imp_div_less)
    qed
    then have "readUvarintFrom (i + 1) (x + v mod 128 * 2 ^ (7 * i)) (length (putUvarint (v div 128)) + n) (putUvarint (v div 128) @ rest) =
        Inr (x + v mod 128 * 2 ^ (7 * i) + v div 128 * 2 ^ (7 * (i + 1)), (n, rest))"
      using 1(1) [OF False] i by simp
    moreover have "v mod 128 * 2 ^ (7 * i) + v div 128 * 2 ^ (7 * (i + 1)) = v * 2 ^ (7 * i)"
    proof -
      have "(2::nat) ^ (7 * (i + 1)) = 128 * 2 ^ (7 * i)" by (simp add: power_add)
      then have "v mod 128 * 2 ^ (7 * i) + v div 128 * 2 ^ (7 * (i + 1)) = (v mod 128 + v div 128 * 128) * 2 ^ (7 * i)"
        by (simp only: add_mult_distrib mult.assoc)
      then show ?thesis by (simp only: mod_div_mult_eq)
    qed
    moreover have "(of_char (char_of (v mod 128 + 128)) :: nat) = v mod 128 + 128" by simp
    ultimately show ?thesis using False i by (simp add: putUvarint.simps [of v] add.assoc)
  qed
qed

lemma reads_uvarint: "v < 2 ^ 64 \<Longrightarrow> reads ReadUvarint (putUvarint v) v"
  using uvarint_step [of v 0 0] by (simp add: reads_def ReadUvarint_def)

lemma reads_count: "v \<le> L \<Longrightarrow> L < 2 ^ 64 \<Longrightarrow> reads (readPaneHistoryCount L) (putUvarint v) v"
  using reads_andThen [OF reads_uvarint [of v], of "\<lambda>n. if n > L then fail TooLarge else give n" "[]" v]
  by (simp add: readPaneHistoryCount_def reads_give)

lemma reads_run_length: "v \<le> L \<Longrightarrow> L < 2 ^ 64 \<Longrightarrow> reads (readPaneHistoryRunLength L) (putUvarint v) v"
  using reads_andThen [OF reads_uvarint [of v], of "\<lambda>n. if n > L then fail TooLarge else give n" "[]" v]
  by (simp add: readPaneHistoryRunLength_def reads_give)

lemma reads_string:
  assumes "length s < 2 ^ 64"
  shows "reads readPaneHistoryString (writePaneHistoryString s) s"
proof -
  have "reads (andThen remaining (\<lambda>r. if length s > r then fail EndOfInput else ReadFull (length s))) s s"
    using reads_ReadFull [of s] by (simp add: reads_def andThen_def remaining_def)
  then show ?thesis using reads_andThen [OF reads_uvarint [OF assms]] by (simp add: readPaneHistoryString_def writePaneHistoryString_def)
qed

section \<open>Colours and styles\<close>

text \<open>What a colour becomes on the wire.\<close>

fun wireColor :: "Color \<Rightarrow> Color" where
  "wireColor (OtherColor r g b a) = RGBA64 (ucast r) (ucast g) (ucast b) (ucast a)"
| "wireColor c = c"

definition wireStyle :: "Style \<Rightarrow> Style" where
  "wireStyle s = s\<lparr>Fg := wireColor (Fg s), Bg := wireColor (Bg s), UnderlineColor := wireColor (UnderlineColor s)\<rparr>"

lemma getUint16_put: "getUint16 (char_of (unat v div 256)) (char_of (unat v)) = v"
proof -
  have "unat v < 2 ^ LENGTH(16)" by (rule unsigned_less)
  then have "unat v div 256 < 256" by (simp add: less_mult_imp_div_less)
  moreover have "unat v div 256 * 256 + unat v mod 256 = unat v" by simp
  ultimately have "getUint16 (char_of (unat v div 256)) (char_of (unat v)) = of_nat (unat v)" by (simp add: getUint16_def)
  then show ?thesis by simp
qed

lemma getUint16_putUint16: "getUint16 (putUint16 v ! 0) (putUint16 v ! 1) = v"
  using getUint16_put [of v] by (simp add: putUint16_def)

lemma putUint16_inj: "putUint16 a = putUint16 b \<Longrightarrow> a = b"
  by (metis getUint16_putUint16)

lemma putUint16_length [simp]: "length (putUint16 v) = 2"
  by (simp add: putUint16_def)

lemma reads_color: "reads readPaneHistoryColor (writePaneHistoryColor c) (wireColor c)"
  by (cases c) (simp_all add: reads_def readPaneHistoryColor_def andThen_def ReadByte_def ReadFull_def give_def putUint16_def getUint16_put)

lemma reads_style: "reads readPaneHistoryStyle (writePaneHistoryStyle s) (wireStyle s)"
proof -
  have g: "reads (andThen ReadByte (\<lambda>u. andThen ReadByte (\<lambda>a. give \<lparr>Fg = f, Bg = b, UnderlineColor = l, Underline = u, Attrs = a\<rparr>)))
      ([Underline s] @ [Attrs s]) \<lparr>Fg = f, Bg = b, UnderlineColor = l, Underline = Underline s, Attrs = Attrs s\<rparr>" for f b l
    by (rule reads_andThen [OF reads_ReadByte]) (rule reads_last [OF reads_ReadByte])
  have "wireStyle s = \<lparr>Fg = wireColor (Fg s), Bg = wireColor (Bg s), UnderlineColor = wireColor (UnderlineColor s), Underline = Underline s, Attrs = Attrs s\<rparr>"
    by (cases s) (simp add: wireStyle_def)
  then show ?thesis using reads_andThen [OF reads_color reads_andThen [OF reads_color reads_andThen [OF reads_color g]]]
    by (simp add: readPaneHistoryStyle_def writePaneHistoryStyle_def)
qed

text \<open>Two styles have the same key exactly if they are the same on the wire.\<close>

lemma padKey_eq: "length a \<le> 8 \<Longrightarrow> length b \<le> 8 \<Longrightarrow> padKey k a = padKey k' b \<Longrightarrow> length a = length b \<Longrightarrow> k = k' \<and> a = b"
  by (simp add: padKey_def)

lemma color_key: "paneHistoryComparableColor c = paneHistoryComparableColor c' \<longleftrightarrow> wireColor c = wireColor c'"
proof -
  have r: "paneHistoryComparableColor c = paneHistoryComparableColor (wireColor c)" for c by (cases c) simp_all
  have i: "paneHistoryComparableColor a = paneHistoryComparableColor b \<Longrightarrow> a = b"
    if "a = wireColor c" "b = wireColor c'" for a b
    using that by (cases c; cases c') (auto simp: padKey_def paneHistoryComparableRGBA64_def dest!: putUint16_inj)
  show ?thesis using i [OF refl refl] r by metis
qed

lemma style_key: "paneHistoryComparableStyle s = paneHistoryComparableStyle s' \<longleftrightarrow> wireStyle s = wireStyle s'"
  by (cases s; cases s') (simp add: paneHistoryComparableStyle_def wireStyle_def color_key)

end
