(* ===== verification/Wire_Lines.thy ===== *)
theory Wire_Lines
  imports Wire_Laws
begin

text \<open>
  The lines of a history: the table of styles, runs of cells, and the round trip of a line and of
  the whole payload.
\<close>

section \<open>Runs\<close>

definition wireCell :: "Cell \<Rightarrow> Cell" where
  "wireCell c = c\<lparr>cell_Style := wireStyle (cell_Style c)\<rparr>"

lemma sameRun_wire: "sameRun a b \<Longrightarrow> wireCell a = wireCell b"
  by (cases a; cases b) (simp add: sameRun_def wireCell_def style_key)

lemma runCountFrom_runs: "Suc (runCountFrom n c cs) = n + length (runsFrom k c cs)"
  by (induction n c cs arbitrary: k rule: runCountFrom.induct) auto

lemma runCount_runs: "paneHistoryCellRunCount cells = length (paneHistoryCellRuns cells)"
proof (cases cells)
  case (Cons c cs)
  then show ?thesis using runCountFrom_runs [of 1 c cs 1] by simp
qed simp

lemma runsFrom_expand: "concat (map (\<lambda>(n, c). replicate n (wireCell c)) (runsFrom k c cs)) = replicate k (wireCell c) @ map wireCell cs"
proof (induction k c cs rule: runsFrom.induct)
  case (2 k c d cs)
  then show ?case using sameRun_wire [of d c] by (simp add: replicate_append_same [symmetric])
qed simp

lemma runs_expand: "concat (map (\<lambda>(n, c). replicate n (wireCell c)) (paneHistoryCellRuns cells)) = map wireCell cells"
  by (cases cells) (simp_all add: runsFrom_expand)

lemma runs_sum: "sum_list (map fst (paneHistoryCellRuns cells)) = length cells"
proof -
  have "sum_list (map fst (runsFrom k c cs)) = k + length cs" for k c cs by (induction k c cs rule: runsFrom.induct) auto
  then show ?thesis by (cases cells) simp_all
qed

lemma runs_cells: "(n, c) \<in> set (paneHistoryCellRuns cells) \<Longrightarrow> c \<in> set cells"
proof -
  have "(n, c) \<in> set (runsFrom k d cs) \<Longrightarrow> c \<in> set (d # cs)" for k d cs by (induction k d cs rule: runsFrom.induct) (auto split: if_splits)
  then show "(n, c) \<in> set (paneHistoryCellRuns cells) \<Longrightarrow> c \<in> set cells" by (cases cells) auto
qed

definition lookupStyle :: "(paneHistoryStyleKey \<times> nat) list \<Rightarrow> Cell \<Rightarrow> nat" where
  "lookupStyle idx c = (case map_of idx (paneHistoryComparableStyle (cell_Style c)) of Some i \<Rightarrow> i | None \<Rightarrow> 0)"

definition runBytes :: "(paneHistoryStyleKey \<times> nat) list \<Rightarrow> nat \<times> Cell \<Rightarrow> string" where
  "runBytes idx r = putUvarint (fst r) @ writePaneHistoryString (cell_Char (snd r)) @ putUvarint (nat (cell_Width (snd r))) @ putUvarint (lookupStyle idx (snd r))"

lemma writeRunsFrom_bytes:
  "writeRunsFrom idx k c cs = Inr e \<Longrightarrow> e = concat (map (runBytes idx) (runsFrom k c cs)) \<and> list_all (\<lambda>c. 0 \<le> cell_Width c) (c # cs)"
proof (induction idx k c cs arbitrary: e rule: writeRunsFrom.induct)
  case (2 idx k c d cs)
  show ?case
  proof (cases "sameRun d c")
    case True
    then show ?thesis using 2 by (auto simp: sameRun_def)
  next
    case False
    then obtain a b where "writePaneHistoryCellRun k c idx = Inr a" "writeRunsFrom idx 1 d cs = Inr b" "e = a @ b"
      using 2(3) by (auto simp: appendTo_def split: sum.splits)
    then show ?thesis using 2(2) [OF False] False
      by (auto simp: writePaneHistoryCellRun_def runBytes_def lookupStyle_def split: if_splits)
  qed
qed (auto simp: writePaneHistoryCellRun_def runBytes_def lookupStyle_def split: if_splits)

lemma writeRuns_bytes:
  assumes "writePaneHistoryCellRuns cells idx = Inr e" "cells \<noteq> []"
  shows "e = putUvarint (length (paneHistoryCellRuns cells)) @ concat (map (runBytes idx) (paneHistoryCellRuns cells))"
    "list_all (\<lambda>c. 0 \<le> cell_Width c) cells"
  using assms writeRunsFrom_bytes [of idx 1 "hd cells" "tl cells"]
  by (auto simp: writePaneHistoryCellRuns_def runCount_runs appendTo_def split: list.splits sum.splits)

text \<open>The style of a cell is in the table under the index of its key.\<close>

definition styled_by :: "(paneHistoryStyleKey \<times> nat) list \<Rightarrow> Style list \<Rightarrow> Cell \<Rightarrow> bool" where
  "styled_by idx S c \<longleftrightarrow> lookupStyle idx c < length S \<and> S ! lookupStyle idx c = wireStyle (cell_Style c)"

lemma length_concat_le: "x \<in> set xs \<Longrightarrow> length (f x) \<le> length (concat (map f xs))"
  by (induction xs) auto

lemma length_concat_ge: "(\<And>x. x \<in> set xs \<Longrightarrow> f x \<noteq> []) \<Longrightarrow> length xs \<le> length (concat (map f xs))"
proof (induction xs)
  case (Cons x xs)
  then have "length (f x) \<ge> 1" by (simp add: Suc_leI)
  then show ?case using Cons by simp
qed simp

lemma putUvarint_nonempty [simp]: "putUvarint v \<noteq> []"
  by (simp add: putUvarint.simps [of v])

lemma reads_runs:
  assumes L: "L < 2 ^ 64" and m: "m < 2 ^ 64"
    and cells: "\<And>n c. (n, c) \<in> set rs \<Longrightarrow> styled_by idx S c \<and> 0 \<le> cell_Width c \<and> cell_Width c \<le> int L \<and> length (cell_Char c) \<le> L"
    and S: "length S \<le> L" and sum: "sum_list (map fst rs) \<le> m"
  shows "reads (readRuns L (length rs) S m) (concat (map (runBytes idx) rs)) (concat (map (\<lambda>(n, c). replicate n (wireCell c)) rs))"
  using m cells sum
proof (induction rs arbitrary: m)
  case Nil
  then show ?case by (simp add: reads_give)
next
  case (Cons r rs)
  obtain n c where r: "r = (n, c)" by (metis surj_pair)
  have c: "styled_by idx S c" "0 \<le> cell_Width c" "cell_Width c \<le> int L" "length (cell_Char c) \<le> L" using Cons.prems(2) [of n c] r by auto
  let ?i = "lookupStyle idx c" and ?E = "concat (map (runBytes idx) rs)" and ?X = "concat (map (\<lambda>(n, c). replicate n (wireCell c)) rs)"
  have rest: "reads (readRuns L (length rs) S (m - n)) ?E ?X" using Cons.prems r by (intro Cons.IH) auto
  have w: "\<lparr>cell_Char = cell_Char c, cell_Style = S ! ?i, cell_Width = int (nat (cell_Width c))\<rparr> = wireCell c"
    using c by (cases c) (simp add: wireCell_def styled_by_def)
  have a: "reads (readPaneHistoryRunLength m) (putUvarint n) n" using Cons.prems(1,3) r by (intro reads_run_length) auto
  have b: "reads readPaneHistoryString (writePaneHistoryString (cell_Char c)) (cell_Char c)" using c(4) L by (intro reads_string) simp
  have d: "reads (readPaneHistoryCount L) (putUvarint (nat (cell_Width c))) (nat (cell_Width c))" using c L by (intro reads_count) auto
  have e: "reads (readPaneHistoryCount L) (putUvarint ?i) ?i" using c(1) S L by (intro reads_count) (auto simp: styled_by_def)
  have "reads (andThen (readRuns L (length rs) S (m - n)) (\<lambda>cells. give (replicate n (wireCell c) @ cells))) ?E (replicate n (wireCell c) @ ?X)"
    by (rule reads_last [OF rest])
  then have f: "reads (if ?i \<ge> length S then fail StyleOutOfRange else andThen (readRuns L (length rs) S (m - n)) (\<lambda>cells.
      give (replicate n \<lparr>cell_Char = cell_Char c, cell_Style = S ! ?i, cell_Width = int (nat (cell_Width c))\<rparr> @ cells))) ?E (replicate n (wireCell c) @ ?X)"
    using c(1) w by (simp add: styled_by_def)
  have "reads (readRuns L (Suc (length rs)) S m)
      (putUvarint n @ writePaneHistoryString (cell_Char c) @ putUvarint (nat (cell_Width c)) @ putUvarint ?i @ ?E) (replicate n (wireCell c) @ ?X)"
    unfolding readRuns.simps by (rule reads_andThen [OF a], rule reads_andThen [OF b], rule reads_andThen [OF d], rule reads_andThen [OF e], rule f)
  then show ?case using r by (simp add: runBytes_def [of idx "(n, c)"])
qed

section \<open>Lines\<close>

definition wireLine :: "StyledLine \<Rightarrow> StyledLine" where
  "wireLine line = line\<lparr>line_Cells := map wireCell (line_Cells line)\<rparr>"

lemma cellsTextFrom_text: "cellsTextFrom t cells \<longleftrightarrow> t = paneHistoryCellsText cells"
proof (induction t cells rule: cellsTextFrom.induct)
  case (2 t c cells)
  then show ?case by (metis append_eq_conv_conj append_take_drop_id cellsTextFrom.simps(2) concat.simps(2) list.simps(9) paneHistoryCellsText_def)
qed (simp add: paneHistoryCellsText_def)

lemma cellsText_wire [simp]: "paneHistoryCellsText (map wireCell cells) = paneHistoryCellsText cells"
  by (simp add: paneHistoryCellsText_def wireCell_def comp_def)

lemma reads_cells:
  assumes w: "writePaneHistoryCellRuns cells idx = Inr e" and ne: "cells \<noteq> []" and L: "length e \<le> L" "L < 2 ^ 64"
    and cells: "\<And>c. c \<in> set cells \<Longrightarrow> styled_by idx S c \<and> cell_Width c \<le> int L"
    and S: "length S \<le> L" and num: "length cells \<le> maxPaneHistoryLineCells"
  shows "reads (andThen (readPaneHistoryCount L) (\<lambda>runCount. andThen (readRuns L runCount S maxPaneHistoryLineCells) (\<lambda>cells. give (f cells)))) e (f (map wireCell cells))"
proof -
  let ?rs = "paneHistoryCellRuns cells"
  note e = writeRuns_bytes [OF w ne]
  have len: "length (runBytes idx r) \<le> L" if "r \<in> set ?rs" for r
    using length_concat_le [OF that, of "runBytes idx"] L(1) e(1) by simp
  have "length ?rs \<le> length (concat (map (runBytes idx) ?rs))"
    by (rule length_concat_ge) (simp add: runBytes_def)
  then have n: "length ?rs \<le> L" using L(1) e(1) by simp
  have "reads (readRuns L (length ?rs) S maxPaneHistoryLineCells) (concat (map (runBytes idx) ?rs)) (concat (map (\<lambda>(n, c). replicate n (wireCell c)) ?rs))"
  proof (rule reads_runs [OF L(2)])
    fix n c assume r: "(n, c) \<in> set ?rs"
    then have "c \<in> set cells" by (rule runs_cells)
    then show "styled_by idx S c \<and> 0 \<le> cell_Width c \<and> cell_Width c \<le> int L \<and> length (cell_Char c) \<le> L"
      using cells [of c] e(2) len [OF r] by (auto simp: list_all_iff runBytes_def writePaneHistoryString_def)
  qed (use S num in \<open>auto simp: runs_sum maxPaneHistoryLineCells_def\<close>)
  then have "reads (readRuns L (length ?rs) S maxPaneHistoryLineCells) (concat (map (runBytes idx) ?rs)) (map wireCell cells)" by (simp add: runs_expand)
  then have r: "reads (andThen (readRuns L (length ?rs) S maxPaneHistoryLineCells) (\<lambda>cells. give (f cells))) (concat (map (runBytes idx) ?rs)) (f (map wireCell cells))"
    by (rule reads_last)
  show ?thesis unfolding e(1) by (rule reads_andThen [OF reads_count [OF n L(2)]]) (rule r)
qed

lemma lineFlags [simp]:
  "lineFlag (Suc 0) (CHR 0x00) = False" "lineFlag (Suc 0) (CHR 0x01) = True" "lineFlag (Suc 0) (CHR 0x02) = False" "lineFlag (Suc 0) (CHR 0x03) = True"
  "lineFlag 2 (CHR 0x00) = False" "lineFlag 2 (CHR 0x02) = True" "lineFlag 2 (CHR 0x03) = True"
  by (simp_all add: lineFlag_def)

lemma writeStyledLine_cases:
  assumes "writeStyledLine idx line = Inr e"
  obtains (plain) "line_Cells line = []" "e = [CHR 0x00] @ writePaneHistoryString (line_Text line)"
  | (derived) e' where "line_Cells line \<noteq> []" "line_Text line = paneHistoryCellsText (line_Cells line)"
      "writePaneHistoryCellRuns (line_Cells line) idx = Inr e'" "e = [CHR 0x03] @ e'"
  | (both) e' where "line_Cells line \<noteq> []"
      "writePaneHistoryCellRuns (line_Cells line) idx = Inr e'" "e = [CHR 0x02] @ writePaneHistoryString (line_Text line) @ e'"
proof -
  have chars: "char_of (0::nat) = CHR 0x00" "char_of (Suc (Suc 0)) = CHR 0x02" "char_of (Suc (Suc (Suc 0))) = CHR 0x03" by (simp_all add: char_of_def bit_iff_odd)
  show thesis
    using assms that
    by (cases "line_Cells line = []"; cases "paneHistoryCellsTextEqual (line_Text line) (line_Cells line)")
      (auto simp: writeStyledLine_def appendTo_def Let_def paneHistoryCellsTextEqual_def cellsTextFrom_text chars split: sum.splits)
qed

lemma reads_line:
  assumes w: "writeStyledLine idx line = Inr e" and L: "length e \<le> L" "L < 2 ^ 64"
    and cells: "\<And>c. c \<in> set (line_Cells line) \<Longrightarrow> styled_by idx S c \<and> cell_Width c \<le> int L"
    and S: "length S \<le> L" and num: "length (line_Cells line) \<le> maxPaneHistoryLineCells"
  shows "reads (readStyledLine L S) e (wireLine line)"
  using w
proof (cases rule: writeStyledLine_cases)
  case plain
  have b: "reads readPaneHistoryString (writePaneHistoryString (line_Text line)) (line_Text line)"
    using L plain by (intro reads_string) (simp add: writePaneHistoryString_def)
  have "reads (readStyledLine L S) e \<lparr>line_Text = line_Text line, line_Cells = []\<rparr>"
    unfolding readStyledLine_def plain(2)
    by (rule reads_andThen [OF reads_ReadByte]) (use reads_last [OF b, of "\<lambda>t. \<lparr>line_Text = t, line_Cells = []\<rparr>"] in simp)
  then show ?thesis using plain(1) by (cases line) (simp add: wireLine_def)
next
  case (derived e')
  have c: "reads (andThen (readPaneHistoryCount L) (\<lambda>runCount. andThen (readRuns L runCount S maxPaneHistoryLineCells) (\<lambda>cells.
      give \<lparr>line_Text = paneHistoryCellsText cells, line_Cells = cells\<rparr>))) e'
      \<lparr>line_Text = paneHistoryCellsText (map wireCell (line_Cells line)), line_Cells = map wireCell (line_Cells line)\<rparr>"
    by (rule reads_cells [OF derived(3,1)]) (use assms derived in auto)
  have g: "reads (andThen (give []) (\<lambda>t::string. p)) e' x" if "reads p e' x" for p :: "StyledLine reader" and x
    using reads_andThen [OF reads_give that, of "[]"] by simp
  have "reads (readStyledLine L S) e \<lparr>line_Text = line_Text line, line_Cells = map wireCell (line_Cells line)\<rparr>"
    unfolding readStyledLine_def derived(4) by (rule reads_andThen [OF reads_ReadByte]) (use g [OF c] derived(2) in simp)
  then show ?thesis by (cases line) (simp add: wireLine_def)
next
  case (both e')
  have b: "reads readPaneHistoryString (writePaneHistoryString (line_Text line)) (line_Text line)"
    using L both by (intro reads_string) (simp add: writePaneHistoryString_def)
  have c: "reads (andThen (readPaneHistoryCount L) (\<lambda>runCount. andThen (readRuns L runCount S maxPaneHistoryLineCells) (\<lambda>cells.
      give \<lparr>line_Text = line_Text line, line_Cells = cells\<rparr>))) e' \<lparr>line_Text = line_Text line, line_Cells = map wireCell (line_Cells line)\<rparr>"
    by (rule reads_cells [OF both(2,1)]) (use assms both in auto)
  have "reads (readStyledLine L S) e \<lparr>line_Text = line_Text line, line_Cells = map wireCell (line_Cells line)\<rparr>"
    unfolding readStyledLine_def both(3)
    by (rule reads_andThen [OF reads_ReadByte])
      (use reads_andThen [OF b, of "\<lambda>t. andThen (readPaneHistoryCount L) (\<lambda>runCount. andThen (readRuns L runCount S maxPaneHistoryLineCells) (\<lambda>cells.
        give \<lparr>line_Text = t, line_Cells = cells\<rparr>))", OF c] in simp)
  then show ?thesis by (cases line) (simp add: wireLine_def)
qed

end
