(* ===== verification/Wire_Payload.thy ===== *)
theory Wire_Payload
  imports Wire_Lines
begin

text \<open>The table of styles and the round trip of a whole history payload.\<close>

section \<open>The table of styles\<close>

definition table_ok :: "styleTable \<Rightarrow> bool" where
  "table_ok tab \<longleftrightarrow> (\<forall>k i. map_of (snd tab) k = Some i \<longrightarrow> i < length (fst tab) \<and> paneHistoryComparableStyle (fst tab ! i) = k)"

definition indexed :: "styleTable \<Rightarrow> Cell \<Rightarrow> bool" where
  "indexed tab c \<longleftrightarrow> map_of (snd tab) (paneHistoryComparableStyle (cell_Style c)) \<noteq> None"

lemma addStyle_ok: "table_ok tab \<Longrightarrow> table_ok (addStyle c tab)"
  by (auto simp: table_ok_def addStyle_def Let_def nth_append less_Suc_eq split: prod.splits)

lemma addStyle_indexed: "indexed (addStyle c tab) d \<longleftrightarrow> indexed tab d \<or> paneHistoryComparableStyle (cell_Style d) = paneHistoryComparableStyle (cell_Style c)"
  by (auto simp: indexed_def addStyle_def Let_def split: prod.splits)

lemma addCells_ok: "table_ok tab \<Longrightarrow> table_ok (fold addStyle cs tab)"
  by (induction cs arbitrary: tab) (simp_all add: addStyle_ok)

lemma addCells_indexed: "indexed (fold addStyle cs tab) d \<longleftrightarrow> indexed tab d \<or> paneHistoryComparableStyle (cell_Style d) \<in> (\<lambda>c. paneHistoryComparableStyle (cell_Style c)) ` set cs"
  by (induction cs arbitrary: tab) (simp_all add: addStyle_indexed disj_ac)

lemma addLines_ok: "table_ok tab \<Longrightarrow> table_ok (fold (\<lambda>line. fold addStyle (line_Cells line)) ls tab)"
  by (induction ls arbitrary: tab) (simp_all add: addCells_ok)

lemma addLines_indexed:
  "indexed tab d \<or> d \<in> (\<Union>line\<in>set ls. set (line_Cells line)) \<Longrightarrow> indexed (fold (\<lambda>line. fold addStyle (line_Cells line)) ls tab) d"
proof (induction ls arbitrary: tab)
  case (Cons line ls)
  then have "indexed (fold addStyle (line_Cells line) tab) d \<or> d \<in> (\<Union>line\<in>set ls. set (line_Cells line))"
    by (simp add: addCells_indexed) blast
  then show ?case using Cons.IH by simp
qed simp

lemma table_styles:
  assumes "paneHistoryStyleTable ls = (styles, idx)" "line \<in> set ls" "c \<in> set (line_Cells line)"
  shows "styled_by idx (map wireStyle styles) c"
proof -
  have "table_ok (styles, idx)" using addLines_ok [of "([], [])" ls] assms(1) by (simp add: paneHistoryStyleTable_def table_ok_def)
  moreover have "indexed (styles, idx) c" using addLines_indexed [of "([], [])" c ls] assms by (auto simp: paneHistoryStyleTable_def)
  ultimately show ?thesis by (auto simp: table_ok_def indexed_def styled_by_def lookupStyle_def style_key [symmetric])
qed

section \<open>Lists\<close>

lemma reads_many: "(\<And>x. x \<in> set xs \<Longrightarrow> reads p (w x) (g x)) \<Longrightarrow> reads (readMany (length xs) p) (concat (map w xs)) (map g xs)"
proof (induction xs)
  case (Cons x xs)
  have t: "reads (andThen (readMany (length xs) p) (\<lambda>ys. give (g x # ys))) (concat (map w xs)) (g x # map g xs)"
    using Cons by (intro reads_last) auto
  have "reads p (w x) (g x)" using Cons.prems by simp
  then have "reads (readMany (length (x # xs)) p) (w x @ concat (map w xs)) (g x # map g xs)"
    unfolding list.size(4) add_0_right add_Suc_right readMany.simps by (rule reads_andThen) (rule t)
  then show ?case by simp
qed (simp add: reads_give)

text \<open>
  The interface of a codec: a reader takes exactly the bytes that the writer gives for a valid value, and
  yields the canonical form of the value. Then lists of values can be read back, and no
  encoding is the beginning of another.
\<close>

locale wire_codec =
  fixes valid :: "'a \<Rightarrow> bool" and put :: "'a \<Rightarrow> string" and get :: "'a reader" and canon :: "'a \<Rightarrow> 'a"
  assumes round_trip: "valid x \<Longrightarrow> reads get (put x) (canon x)"
begin

lemma many: "list_all valid xs \<Longrightarrow> reads (readMany (length xs) get) (concat (map put xs)) (map canon xs)"
  using round_trip by (intro reads_many) (simp add: list_all_iff)

lemma prefix_free:
  assumes "valid x" "valid y" "put x @ r = put y @ r'" shows "canon x = canon y \<and> r = r'"
proof -
  let ?n = "length (put x) + length (put y)"
  have "get (?n, put x @ r) = Inr (canon x, (length (put y), r))" using round_trip [OF assms(1)] by (simp add: reads_def)
  moreover have "get (?n, put y @ r') = Inr (canon y, (length (put x), r'))"
    using round_trip [OF assms(2)] by (simp add: reads_def) (metis add.commute)
  ultimately show ?thesis using assms(3) by simp
qed

end

interpretation number_codec: wire_codec "\<lambda>v. v < 2 ^ 64" putUvarint ReadUvarint "\<lambda>v. v"
  by unfold_locales (rule reads_uvarint)

interpretation string_codec: wire_codec "\<lambda>s. length s < 2 ^ 64" writePaneHistoryString readPaneHistoryString "\<lambda>s. s"
  by unfold_locales (rule reads_string)

interpretation color_codec: wire_codec "\<lambda>c. True" writePaneHistoryColor readPaneHistoryColor wireColor
  by unfold_locales (rule reads_color)

interpretation style_codec: wire_codec "\<lambda>s. True" writePaneHistoryStyle readPaneHistoryStyle wireStyle
  by unfold_locales (rule reads_style)

definition lineBytes :: "(paneHistoryStyleKey \<times> nat) list \<Rightarrow> StyledLine \<Rightarrow> string" where
  "lineBytes idx line = (case writeStyledLine idx line of Inr e \<Rightarrow> e | Inl _ \<Rightarrow> [])"

lemma writeLines_bytes:
  "writeLines idx ls = Inr e \<Longrightarrow> e = concat (map (lineBytes idx) ls) \<and> (\<forall>line\<in>set ls. writeStyledLine idx line = Inr (lineBytes idx line))"
  by (induction ls arbitrary: e) (auto simp: writeLines_def appendTo_def lineBytes_def split: sum.splits)

lemma lineBytes_nonempty: "writeStyledLine idx line = Inr e \<Longrightarrow> e \<noteq> []"
  by (erule writeStyledLine_cases) auto

lemma writePaneHistoryString_nonempty [simp]: "writePaneHistoryString s \<noteq> []"
  by (simp add: writePaneHistoryString_def)

lemma writePaneHistoryStyle_nonempty [simp]: "writePaneHistoryStyle s \<noteq> []"
  by (simp add: writePaneHistoryStyle_def)

section \<open>The payload\<close>

lemma list_all2_map_eq: "list_all2 (\<lambda>x y. x = f y) xs ys \<Longrightarrow> xs = map f ys"
  by (induction rule: list_all2_induct) simp_all

lemma matches_text: "paneHistoryMatchesStyledText h s \<Longrightarrow> h = StyledLineText s"
  unfolding paneHistoryMatchesStyledText_def StyledLineText_def by (blast intro: list_all2_map_eq)

lemma StyledLineText_wire [simp]: "StyledLineText (map wireLine s) = StyledLineText s"
  by (simp add: StyledLineText_def wireLine_def)

text \<open>The part that is read in the same way for both flags.\<close>

lemma reads_styled:
  assumes tab: "paneHistoryStyleTable styled = (styles, idx)" and w: "writeLines idx styled = Inr lns" and L: "L < 2 ^ 64"
    and len: "length (putUvarint (length styles) @ concat (map writePaneHistoryStyle styles) @ lns) \<le> L"
    and cells: "\<And>line. line \<in> set styled \<Longrightarrow> length (line_Cells line) \<le> maxPaneHistoryLineCells \<and> (\<forall>c\<in>set (line_Cells line). cell_Width c \<le> int L)"
  shows "reads (andThen (readPaneHistoryCount L) (\<lambda>styleCount. andThen (readMany styleCount readPaneHistoryStyle) (\<lambda>styles.
      andThen (readMany (length styled) (readStyledLine L styles)) (\<lambda>styled. give (f styled)))))
    (putUvarint (length styles) @ concat (map writePaneHistoryStyle styles) @ lns) (f (map wireLine styled))"
proof -
  let ?S = "map wireStyle styles"
  note b = writeLines_bytes [OF w]
  have S: "length styles \<le> L" using length_concat_ge [of styles writePaneHistoryStyle] len by simp
  have l: "reads (readStyledLine L ?S) (lineBytes idx line) (wireLine line)" if m: "line \<in> set styled" for line
  proof (rule reads_line)
    show "length (lineBytes idx line) \<le> L" using length_concat_le [OF m, of "lineBytes idx"] b len by simp
    show "styled_by idx ?S c \<and> cell_Width c \<le> int L" if "c \<in> set (line_Cells line)" for c
      using table_styles [OF tab m that] cells [OF m] that by auto
  qed (use b m L S cells [OF m] in auto)
  have ls: "reads (readMany (length styled) (readStyledLine L ?S)) lns (map wireLine styled)" using reads_many [where w = "lineBytes idx" and g = wireLine, OF l] b by simp
  have ss: "reads (readMany (length styles) readPaneHistoryStyle) (concat (map writePaneHistoryStyle styles)) ?S"
    by (rule style_codec.many) (simp add: list_all_iff)
  show ?thesis
    by (rule reads_andThen [OF reads_count [OF S L]], rule reads_andThen [OF ss], rule reads_last [OF ls])
qed

text \<open>The plain text travels only when the styled text does not already spell it.\<close>

lemma reads_plain:
  fixes history :: "string list" and styled :: "StyledLine list"
  defines "b \<equiv> paneHistoryMatchesStyledText history styled"
  defines "mid \<equiv> if b then [] else concat (map writePaneHistoryString history)"
  assumes L: "length mid < 2 ^ 64"
  shows "reads (if \<not> lineFlag 1 (if b then CHR 0x01 else CHR 0x00) then readMany (length history) readPaneHistoryString
      else if length history \<noteq> length styled then fail CountMismatch else give (replicate (length history) []))
      mid (if b then replicate (length history) [] else history)"
proof (cases b)
  case True
  then show ?thesis by (simp add: mid_def paneHistoryMatchesStyledText_def reads_give b_def)
next
  case False
  have "length s < 2 ^ 64" if "s \<in> set history" for s
    using length_concat_le [OF that, of writePaneHistoryString] False L by (simp add: writePaneHistoryString_def mid_def)
  then show ?thesis using string_codec.many [of history] False by (simp add: list_all_iff mid_def)
qed

lemma reads_payload:
  assumes e: "encodePaneHistoryPayloadFresh history styled = Inr payload" and L: "length payload < 2 ^ 64"
    and cells: "\<And>line. line \<in> set styled \<Longrightarrow> length (line_Cells line) \<le> maxPaneHistoryLineCells \<and> (\<forall>c\<in>set (line_Cells line). cell_Width c \<le> int (length payload))"
  shows "reads (decodePaneHistoryPayload (length payload)) payload (history, map wireLine styled)"
proof -
  obtain styles idx where tab: "paneHistoryStyleTable styled = (styles, idx)" by (metis surj_pair)
  let ?L = "length payload" and ?tail = "\<lambda>lns. putUvarint (length styles) @ concat (map writePaneHistoryStyle styles) @ lns"
  let ?b = "paneHistoryMatchesStyledText history styled"
  let ?mid = "if ?b then [] else concat (map writePaneHistoryString history)"
  obtain lns where lns: "writeLines idx styled = Inr lns"
    and p: "payload = [if ?b then CHR 0x01 else CHR 0x00] @ putUvarint (length history) @ putUvarint (length styled) @ ?mid @ ?tail lns"
    using e tab by (cases "writeLines idx styled") (simp_all add: encodePaneHistoryPayloadFresh_def appendTo_def Let_def)
  have pl: "length payload = 1 + length (putUvarint (length history)) + length (putUvarint (length styled)) + length ?mid + length (?tail lns)"
    by (subst p) simp
  have st: "length styled \<le> ?L"
    using length_concat_ge [of styled "lineBytes idx"] writeLines_bytes [OF lns] lineBytes_nonempty pl by fastforce
  have hi: "length history \<le> ?L"
  proof (cases ?b)
    case True
    then show ?thesis using st by (simp add: paneHistoryMatchesStyledText_def)
  next
    case False
    then show ?thesis using length_concat_ge [of history writePaneHistoryString] pl by simp
  qed
  have t: "reads (andThen (readPaneHistoryCount ?L) (\<lambda>styleCount. andThen (readMany styleCount readPaneHistoryStyle) (\<lambda>styles.
      andThen (readMany (length styled) (readStyledLine ?L styles)) (\<lambda>styled. give (f styled))))) (?tail lns) (f (map wireLine styled))"
    for f :: "StyledLine list \<Rightarrow> string list \<times> StyledLine list"
    by (rule reads_styled [OF tab lns L]) (use pl cells in auto)
  have h: "length ?mid < 2 ^ 64" using pl L by simp
  have "reads (decodePaneHistoryPayload ?L) ([if ?b then CHR 0x01 else CHR 0x00] @ putUvarint (length history) @ putUvarint (length styled) @ ?mid @ ?tail lns)
      (if ?b then StyledLineText (map wireLine styled) else (if ?b then replicate (length history) [] else history), map wireLine styled)"
    unfolding decodePaneHistoryPayload_def
    apply (rule reads_andThen [OF reads_ReadByte])
    apply (rule reads_andThen [OF reads_count [OF hi L]])
    apply (rule reads_andThen [OF reads_count [OF st L]])
    apply (rule reads_andThen [OF reads_plain [OF h]])
    using t [of "\<lambda>styled. (StyledLineText styled, styled)"] t [of "\<lambda>styled. (history, styled)"] by (cases ?b) simp_all
  then have "reads (decodePaneHistoryPayload ?L) payload (if ?b then StyledLineText styled else history, map wireLine styled)"
    by (simp only: p [symmetric] StyledLineText_wire if_cancel if_False cong: if_cong)
  then show ?thesis using matches_text [of history styled] by (cases ?b) simp_all
qed

end
