(* ===== verification/Wire_Cache.thy ===== *)
theory Wire_Cache
  imports History_Chunks Wire_Payload State_Machine
begin

text \<open>
  Laws of the cache of encoded histories and of the chunks of a history: what a cache holds for a
  version of a pane is what encoding that version afresh gives, and a plan of chunks
  covers the history.
\<close>

section \<open>Chunks\<close>

definition freshOf :: "StyledLine list \<Rightarrow> wireError + string" where
  "freshOf ls = encodePaneHistoryPayloadFresh (StyledLineText ls) ls"

lemma estimate_binary:
  "estimatePaneHistoryMessageSize enc g0 True (newPaneHistoryMessage zero paneID ls) =
     (case freshOf ls of Inl e \<Rightarrow> Inl e | Inr p \<Rightarrow> Inr (int (length p) + 9))"
  by (simp add: estimatePaneHistoryMessageSize_def newPaneHistoryMessage_def newMessage_def Writer_WriteMsg_def SetBinaryPaneHistory_def NewWriter_def
      MsgTypePaneOutput_def MsgTypePaneHistory_def writePaneHistoryBinary_def encodePaneHistoryPayload_def cacheAt_def cacheGet_def putCache_def
      freshOf_def putUint32_def split: sum.split)

text \<open>The result of the search is the start or a line up to which the chunk fits, and one more line would not fit.\<close>

lemma chunkSearch_spec:
  assumes "chunkSearch f m lo hi best = Inr r" "best = lo - 1" "best \<le> hi"
  shows "best \<le> r \<and> r \<le> hi \<and> (r = best \<or> (\<exists>s. f r = Inr s \<and> s \<le> m)) \<and> (r = hi \<or> (\<exists>s. f (r + 1) = Inr s \<and> m < s))"
  using assms
proof (induction f m lo hi best rule: chunkSearch.induct)
  case (1 f m lo hi best)
  let ?mid = "lo + (hi - lo) div 2"
  show ?case
  proof (cases "lo \<le> hi")
    case False
    then have "r = best" using 1(3) by (simp add: chunkSearch.simps [of f m lo hi best])
    then show ?thesis using False 1(4,5) by simp
  next
    case True
    then have mid: "lo \<le> ?mid" "?mid \<le> hi" by auto
    obtain s where s: "f ?mid = Inr s"
      using 1(3) True by (cases "f ?mid") (simp_all add: chunkSearch.simps [of f m lo hi best])
    show ?thesis
    proof (cases "s \<le> m")
      case le: True
      then have "chunkSearch f m (?mid + 1) hi ?mid = Inr r" using 1(3) True s by (simp add: chunkSearch.simps [of f m lo hi best] Let_def)
      then have "?mid \<le> r \<and> r \<le> hi \<and> (r = ?mid \<or> (\<exists>s. f r = Inr s \<and> s \<le> m)) \<and> (r = hi \<or> (\<exists>s. f (r + 1) = Inr s \<and> m < s))"
        using 1(1) [OF True refl s le] mid by simp
      then show ?thesis using s le mid 1(4) by (elim conjE disjE) auto
    next
      case gt: False
      then have "chunkSearch f m lo (?mid - 1) best = Inr r" using 1(3) True s by (simp add: chunkSearch.simps [of f m lo hi best] Let_def)
      then have "best \<le> r \<and> r \<le> ?mid - 1 \<and> (r = best \<or> (\<exists>s. f r = Inr s \<and> s \<le> m)) \<and> (r = ?mid - 1 \<or> (\<exists>s. f (r + 1) = Inr s \<and> m < s))"
        using 1(2) [OF True refl s gt] mid 1(4) by simp
      then show ?thesis using s gt mid by auto
    qed
  qed
qed

lemma chunkSearch_succeeds: "(\<And>i. lo \<le> i \<Longrightarrow> i \<le> hi \<Longrightarrow> \<exists>s. f i = Inr s) \<Longrightarrow> \<exists>r. chunkSearch f m lo hi best = Inr r"
proof (induction f m lo hi best rule: chunkSearch.induct)
  case (1 f m lo hi best)
  let ?mid = "lo + (hi - lo) div 2"
  show ?case
  proof (cases "lo \<le> hi")
    case True
    then have mid: "lo \<le> ?mid" "?mid \<le> hi" by auto
    then obtain s where s: "f ?mid = Inr s" using 1(3) by blast
    have "\<exists>r. chunkSearch f m (?mid + 1) hi ?mid = Inr r" if "s \<le> m"
      using 1(1) [OF True refl s that] 1(3) mid by (meson dual_order.trans zle_add1_eq_le less_imp_le)
    moreover have "\<exists>r. chunkSearch f m lo (?mid - 1) best = Inr r" if "\<not> s \<le> m"
      using 1(2) [OF True refl s that] 1(3) mid by auto
    ultimately show ?thesis using True s by (cases "s \<le> m") (simp_all add: chunkSearch.simps [of f m lo hi best] Let_def)
  qed (simp add: chunkSearch.simps [of f m lo hi best])
qed

section \<open>Plans\<close>

fun covers :: "int \<Rightarrow> int \<Rightarrow> PaneHistoryPayloadChunk list \<Rightarrow> bool" where
  "covers start n [] \<longleftrightarrow> start = n"
| "covers start n (ch # chunks) \<longleftrightarrow> chunk_Start ch = start \<and> start < chunk_End ch \<and> chunk_End ch \<le> n \<and> covers (chunk_End ch) n chunks"

abbreviation chunkLines :: "'a list \<Rightarrow> PaneHistoryPayloadChunk \<Rightarrow> 'a list" where
  "chunkLines h ch \<equiv> lineSlice (chunk_Start ch) (chunk_End ch) h"

lemma covers_concat: "covers start (int (length h)) chunks \<Longrightarrow> 0 \<le> start \<Longrightarrow> concat (map (chunkLines h) chunks) = drop (nat start) h"
proof (induction chunks arbitrary: start)
  case (Cons ch chunks)
  then have e: "chunk_Start ch = start" "start < chunk_End ch" "concat (map (chunkLines h) chunks) = drop (nat (chunk_End ch)) h" by auto
  have "nat (chunk_End ch) = nat start + nat (chunk_End ch - start)" using Cons.prems(2) e(2) by simp
  then have "lineSlice start (chunk_End ch) h @ drop (nat (chunk_End ch)) h = drop (nat start) h"
    by (metis add.commute append_take_drop_id drop_drop lineSlice_def)
  then show ?case using e by simp
qed simp

lemma covers_bounds: "covers start n chunks \<Longrightarrow> 0 \<le> start \<Longrightarrow> list_all (\<lambda>ch. 0 \<le> chunk_Start ch \<and> chunk_Start ch < chunk_End ch \<and> chunk_End ch \<le> n) chunks"
  by (induction chunks arbitrary: start) auto

text \<open>A chunk is a single line or fits, and it is as long as can be.\<close>

definition chunk_fits :: "(StyledLine list \<Rightarrow> wireError + int) \<Rightarrow> int \<Rightarrow> StyledLine list \<Rightarrow> PaneHistoryPayloadChunk \<Rightarrow> bool" where
  "chunk_fits est m h ch \<longleftrightarrow> chunk_End ch = chunk_Start ch + 1 \<or> (\<exists>s. est (chunkLines h ch) = Inr s \<and> s \<le> m)"

definition chunk_maximal :: "(StyledLine list \<Rightarrow> wireError + int) \<Rightarrow> int \<Rightarrow> StyledLine list \<Rightarrow> PaneHistoryPayloadChunk \<Rightarrow> bool" where
  "chunk_maximal est m h ch \<longleftrightarrow> chunk_End ch = int (length h) \<or> (\<exists>s. est (lineSlice (chunk_Start ch) (chunk_End ch + 1) h) = Inr s \<and> m < s) \<or>
     (\<exists>s. est (chunkLines h ch) = Inr s \<and> m < s)"

abbreviation estimateLines :: "('g, 'r) gobEncoder \<Rightarrow> 'g \<Rightarrow> 'r \<Rightarrow> uint32 \<Rightarrow> bool \<Rightarrow> StyledLine list \<Rightarrow> wireError + int" where
  "estimateLines enc g0 zero paneID binary ls \<equiv> estimatePaneHistoryMessageSize enc g0 binary (newPaneHistoryMessage zero paneID ls)"

lemma findPaneHistoryChunkEnd_spec:
  assumes "findPaneHistoryChunkEnd enc g0 zero paneID h start m binary = Inr e" "start < int (length h)"
  shows "start < e \<and> e \<le> int (length h) \<and> chunk_fits (estimateLines enc g0 zero paneID binary) m h \<lparr>chunk_Start = start, chunk_End = e\<rparr> \<and>
    chunk_maximal (estimateLines enc g0 zero paneID binary) m h \<lparr>chunk_Start = start, chunk_End = e\<rparr>"
proof -
  let ?f = "\<lambda>mid. estimateLines enc g0 zero paneID binary (lineSlice start mid h)"
  obtain r where r: "chunkSearch ?f m (start + 1) (int (length h)) start = Inr r" "e = (if r > start then r else start + 1)"
    using assms(1) by (auto simp: findPaneHistoryChunkEnd_def split: sum.splits)
  note s = chunkSearch_spec [OF r(1)]
  show ?thesis using s r(2) assms(2) by (cases "r = start") (auto simp: chunk_fits_def chunk_maximal_def)
qed

lemma chunksFrom_spec:
  "chunksFrom enc g0 zero paneID h start m binary = Inr chunks \<Longrightarrow> 0 \<le> start \<Longrightarrow> start \<le> int (length h) \<Longrightarrow>
    covers start (int (length h)) chunks \<and> list_all (chunk_fits (estimateLines enc g0 zero paneID binary) m h) chunks \<and>
    list_all (chunk_maximal (estimateLines enc g0 zero paneID binary) m h) chunks"
proof (induction enc g0 zero paneID h start m binary arbitrary: chunks rule: chunksFrom.induct)
  case (1 enc g0 zero paneID h start m binary)
  show ?case
  proof (cases "start < int (length h)")
    case True
    then obtain e cs where e: "findPaneHistoryChunkEnd enc g0 zero paneID h start m binary = Inr e"
      and cs: "chunksFrom enc g0 zero paneID h e m binary = Inr cs" "chunks = \<lparr>chunk_Start = start, chunk_End = e\<rparr> # cs"
      using 1(2) by (auto simp: chunksFrom.simps [of enc g0 zero paneID h start] split: sum.splits)
    note f = findPaneHistoryChunkEnd_spec [OF e True]
    then show ?thesis using 1(1) [OF True e cs(1)] 1(3) cs(2) by auto
  next
    case False
    then have "chunks = []" using 1(2) by (simp add: chunksFrom.simps [of enc g0 zero paneID h start])
    then show ?thesis using False 1(4) by simp
  qed
qed

lemma chunksFrom_succeeds:
  assumes "\<And>i j. 0 \<le> i \<Longrightarrow> \<exists>s. estimateLines enc g0 zero paneID binary (lineSlice i j h) = Inr s"
  shows "0 \<le> start \<Longrightarrow> \<exists>chunks. chunksFrom enc g0 zero paneID h start m binary = Inr chunks"
  using assms
proof (induction enc g0 zero paneID h start m binary rule: chunksFrom.induct)
  case (1 enc g0 zero paneID h start m binary)
  show ?case
  proof (cases "start < int (length h)")
    case True
    have "\<exists>r. chunkSearch (\<lambda>mid. estimateLines enc g0 zero paneID binary (lineSlice start mid h)) m (start + 1) (int (length h)) start = Inr r"
      by (rule chunkSearch_succeeds) (use 1(2,3) in blast)
    then obtain e where e: "findPaneHistoryChunkEnd enc g0 zero paneID h start m binary = Inr e" by (auto simp: findPaneHistoryChunkEnd_def)
    then have "\<exists>cs. chunksFrom enc g0 zero paneID h e m binary = Inr cs"
      using 1(1) [OF True e] 1(2,3) findPaneHistoryChunkEnd_progress [OF e] by auto
    then show ?thesis using True e by (auto simp: chunksFrom.simps [of enc g0 zero paneID h start])
  qed (simp add: chunksFrom.simps [of enc g0 zero paneID h start])
qed

section \<open>The caches\<close>

text \<open>\<open>content a v\<close> is the history of the pane whose cache is at \<open>a\<close>, at version \<open>v\<close>.\<close>

type_synonym contents = "nat \<Rightarrow> uint64 \<Rightarrow> StyledLine list"

definition binaryEstimate :: "StyledLine list \<Rightarrow> wireError + int" where
  "binaryEstimate ls = (case freshOf ls of Inl e \<Rightarrow> Inl e | Inr p \<Rightarrow> Inr (int (length p) + 9))"

definition rangeLines :: "StyledLine list \<Rightarrow> paneHistoryPayloadRange option \<Rightarrow> StyledLine list" where
  "rangeLines h r = (case r of None \<Rightarrow> h | Some r \<Rightarrow> lineSlice (range_start r) (range_end r) h)"

definition cache_ok :: "(uint64 \<Rightarrow> StyledLine list) \<Rightarrow> PaneHistoryPayloadCache \<Rightarrow> bool" where
  "cache_ok lines_of c \<longleftrightarrow> (let h = lines_of (cache_version c) in
     (cache_valid c \<longrightarrow> freshOf h = Inr (cache_payload c)) \<and>
     (\<forall>r p. map_of (chunkPayloads c) r = Some p \<longrightarrow> freshOf (rangeLines h (Some r)) = Inr p) \<and>
     (\<forall>m chunks. map_of (chunkPlans c) m = Some chunks \<longrightarrow> covers 0 (int (length h)) chunks \<and> list_all (chunk_fits binaryEstimate m h) chunks))"

definition caches_ok :: "contents \<Rightarrow> caches \<Rightarrow> bool" where
  "caches_ok content st \<longleftrightarrow> (\<forall>a. cache_ok (content a) (st a))"

text \<open>A message with a cache carries the history of its pane, or a range of it.\<close>

definition carries :: "contents \<Rightarrow> 'r ProtoMessage \<Rightarrow> bool" where
  "carries content m \<longleftrightarrow>
     (case paneHistoryPayloadCache m of
        None \<Rightarrow> True
      | Some a \<Rightarrow>
          msg_StyledHistory m = rangeLines (content a (paneHistoryPayloadVersion m)) (paneHistoryRange m) \<and>
          msg_History m = StyledLineText (msg_StyledHistory m))"

lemma empty_ok: "cache_ok f emptyPaneHistoryPayloadCache"
  by (simp add: cache_ok_def emptyPaneHistoryPayloadCache_def)

lemma reset_ok: "cache_ok f c \<Longrightarrow> cache_ok f (resetForVersionLocked v c) \<and> cache_version (resetForVersionLocked v c) = v"
  by (cases "cache_version c = v") (simp_all add: cache_ok_def resetForVersionLocked_def Let_def)

lemma cacheStore_ok: "cache_ok f c \<Longrightarrow> freshOf (f v) = Inr p \<Longrightarrow> (\<forall>c'. cacheStore v p (Some c) = Some c' \<longrightarrow> cache_ok f c')"
  using reset_ok [of f c v] by (auto simp: cacheStore_def cache_ok_def Let_def)

lemma storeChunkPayload_ok:
  "cache_ok f c \<Longrightarrow> freshOf (rangeLines (f v) (Some r)) = Inr p \<Longrightarrow> (\<forall>c'. storeChunkPayload v r p (Some c) = Some c' \<longrightarrow> cache_ok f c')"
  using reset_ok [of f c v] by (auto simp: storeChunkPayload_def cache_ok_def Let_def update_conv')

lemma StoreChunkPlan_ok:
  "cache_ok f c \<Longrightarrow> covers 0 (int (length (f v))) chunks \<Longrightarrow> list_all (chunk_fits binaryEstimate m (f v)) chunks \<Longrightarrow>
    (\<forall>c'. StoreChunkPlan v m chunks (Some c) = Some c' \<longrightarrow> cache_ok f c')"
  using reset_ok [of f c v] by (auto simp: StoreChunkPlan_def cache_ok_def Let_def update_conv')

lemma putCache_ok: "caches_ok content st \<Longrightarrow> (\<And>a c. ptr = Some a \<Longrightarrow> cache = Some c \<Longrightarrow> cache_ok (content a) c) \<Longrightarrow> caches_ok content (putCache ptr cache st)"
  by (auto simp: caches_ok_def putCache_def split: option.splits)

lemma cacheGet_fresh: "cache_ok f c \<Longrightarrow> cacheGet (Some c) v = Some p \<Longrightarrow> freshOf (f v) = Inr p"
  by (auto simp: cacheGet_def cache_ok_def Let_def split: if_splits)

lemma getChunkPayload_fresh: "cache_ok f c \<Longrightarrow> getChunkPayload (Some c) v r = Some p \<Longrightarrow> freshOf (rangeLines (f v) (Some r)) = Inr p"
  by (auto simp: getChunkPayload_def cache_ok_def Let_def split: if_splits)

lemma ChunkPlan_covers:
  "cache_ok f c \<Longrightarrow> ChunkPlan (Some c) v m = Some chunks \<Longrightarrow> covers 0 (int (length (f v))) chunks \<and> list_all (chunk_fits binaryEstimate m (f v)) chunks"
  by (auto simp: ChunkPlan_def cache_ok_def Let_def split: if_splits)

text \<open>Encoding through the caches is encoding afresh.\<close>

definition lookupPayload :: "'r ProtoMessage \<Rightarrow> caches \<Rightarrow> string option" where
  "lookupPayload m st = (case paneHistoryRange m of
     Some r \<Rightarrow> getChunkPayload (cacheAt st (paneHistoryPayloadCache m)) (paneHistoryPayloadVersion m) r
   | None \<Rightarrow> cacheGet (cacheAt st (paneHistoryPayloadCache m)) (paneHistoryPayloadVersion m))"

definition rememberPayload :: "'r ProtoMessage \<Rightarrow> caches \<Rightarrow> string \<Rightarrow> PaneHistoryPayloadCache option" where
  "rememberPayload m st p = (case paneHistoryRange m of
     Some r \<Rightarrow> storeChunkPayload (paneHistoryPayloadVersion m) r p (cacheAt st (paneHistoryPayloadCache m))
   | None \<Rightarrow> cacheStore (paneHistoryPayloadVersion m) p (cacheAt st (paneHistoryPayloadCache m)))"

lemma encode_steps:
  "encodePaneHistoryPayload m st =
     (case lookupPayload m st of
        Some p \<Rightarrow> Inr (p, st)
      | None \<Rightarrow> (case encodePaneHistoryPayloadFresh (msg_History m) (msg_StyledHistory m) of
          Inl e \<Rightarrow> Inl e | Inr p \<Rightarrow> Inr (p, putCache (paneHistoryPayloadCache m) (rememberPayload m st p) st)))"
  by (simp only: encodePaneHistoryPayload_def lookupPayload_def rememberPayload_def Let_def)

lemma encode_cached:
  assumes ok: "caches_ok content st" and m: "carries content m"
  shows "case encodePaneHistoryPayload m st of
      Inl e \<Rightarrow> encodePaneHistoryPayloadFresh (msg_History m) (msg_StyledHistory m) = Inl e
    | Inr (p, st') \<Rightarrow> encodePaneHistoryPayloadFresh (msg_History m) (msg_StyledHistory m) = Inr p \<and> caches_ok content st'"
proof -
  let ?v = "paneHistoryPayloadVersion m" and ?h = "msg_StyledHistory m" and ?ptr = "paneHistoryPayloadCache m"
  let ?fresh = "encodePaneHistoryPayloadFresh (msg_History m) (msg_StyledHistory m)"
  have c: "cache_ok (content a) (st a)" for a using ok by (simp add: caches_ok_def)
  have l: "?fresh = freshOf (rangeLines (content a ?v) (paneHistoryRange m))" if "?ptr = Some a" for a
    using m that by (simp add: carries_def freshOf_def)
  have look: "?fresh = Inr p" if "lookupPayload m st = Some p" for p
  proof (cases ?ptr)
    case None
    then show ?thesis using that by (simp add: lookupPayload_def cacheAt_def getChunkPayload_def cacheGet_def split: option.splits)
  next
    case (Some a)
    show ?thesis unfolding l [OF Some] using that Some cacheGet_fresh [OF c [of a], of ?v p] getChunkPayload_fresh [OF c [of a], of ?v]
      by (cases "paneHistoryRange m") (simp_all add: lookupPayload_def cacheAt_def rangeLines_def)
  qed
  have put: "caches_ok content (putCache ?ptr (rememberPayload m st p) st)" if p: "?fresh = Inr p" for p
  proof (rule putCache_ok [OF ok])
    fix a d assume a: "?ptr = Some a" "rememberPayload m st p = Some d"
    show "cache_ok (content a) d"
      using a p [unfolded l [OF a(1)]] cacheStore_ok [OF c [of a], of ?v p] storeChunkPayload_ok [OF c [of a], of ?v]
      by (cases "paneHistoryRange m") (simp_all add: rememberPayload_def cacheAt_def rangeLines_def)
  qed
  show ?thesis
  proof (cases "lookupPayload m st")
    case (Some p)
    then show ?thesis using ok look [OF Some] by (simp add: encode_steps)
  next
    case None
    then show ?thesis using put by (cases ?fresh) (simp_all add: encode_steps)
  qed
qed

end
