(* ===== verification/Wire_Stream.thy ===== *)
theory Wire_Stream
  imports Wire_Cache
begin

text \<open>
  Round trips of frames and of a whole connection: what a reader makes of the frames a writer has
  written, through the caches and with the gob codec as a parameter.
\<close>

section \<open>Frames\<close>

lemma horner256: "x * 256 + y = b \<Longrightarrow> b * 256 + z = c \<Longrightarrow> c * 256 + w = n \<Longrightarrow> x * 16777216 + y * 65536 + z * 256 + w = (n::nat)"
  by simp

lemma uint32_bytes: "n div 16777216 * 16777216 + n div 65536 mod 256 * 65536 + n div 256 mod 256 * 256 + n mod 256 = (n::nat)"
proof -
  have d: "n div 65536 = n div 256 div 256" "n div 16777216 = n div 256 div 256 div 256" by (simp_all add: div_mult2_eq [symmetric])
  show ?thesis unfolding d by (rule horner256 [OF div_mult_mod_eq div_mult_mod_eq div_mult_mod_eq])
qed

lemma getUint32_putUint32: "getUint32 (putUint32 v) = v"
proof -
  have "unat v < 2 ^ LENGTH(32)" by (rule unsigned_less)
  then have "unat v div 16777216 < 256" by (simp add: less_mult_imp_div_less)
  then have "getUint32 (putUint32 v) = of_nat (unat v div 16777216 * 16777216 + unat v div 65536 mod 256 * 65536 + unat v div 256 mod 256 * 256 + unat v mod 256)"
    by (simp add: getUint32_def putUint32_def)
  then have "getUint32 (putUint32 v) = of_nat (unat v)" by (simp only: uint32_bytes)
  then show ?thesis by simp
qed

lemma putUint32_length [simp]: "length (putUint32 v) = 4"
  by (simp add: putUint32_def)

lemma unat_length: "n \<le> maxMessageSize \<Longrightarrow> unat (of_nat n :: uint32) = n"
  by (simp add: maxMessageSize_def unsigned_of_nat take_bit_nat_eq_self)

lemma readBytes_exact: "k = length a \<Longrightarrow> readBytes k (a @ b) = Inr (a, b)"
  by (simp add: readBytes_def)

lemma header: "readBytes 8 (putUint32 a @ putUint32 b @ rest) = Inr (putUint32 a @ putUint32 b, rest)"
  using readBytes_exact [of 8 "putUint32 a @ putUint32 b" rest] by simp

lemma readPaneOutput_write:
  assumes "length data \<le> maxMessageSize"
  shows "readPaneOutputBinary zero (putUint32 paneID @ putUint32 (of_nat (length data)) @ data @ rest) =
    Inr ((newMessage zero MsgTypePaneOutput paneID)\<lparr>msg_PaneData := data\<rparr>, rest)"
  using assms by (simp add: readPaneOutputBinary_def header getUint32_putUint32 unat_length readBytes_exact Let_def)

text \<open>What the decoder of histories requires of a message.\<close>

definition tame :: "StyledLine list \<Rightarrow> bool" where
  "tame ls \<longleftrightarrow> list_all (\<lambda>line. length (line_Cells line) \<le> maxPaneHistoryLineCells \<and> list_all (\<lambda>c. cell_Width c \<le> 2) (line_Cells line)) ls"

lemma payload_length: "encodePaneHistoryPayloadFresh h s = Inr p \<Longrightarrow> 2 < length p"
  by (cases "putUvarint (length h)"; cases "putUvarint (length s)")
    (auto simp: encodePaneHistoryPayloadFresh_def appendTo_def Let_def split: sum.splits prod.splits)

lemma readPaneHistory_write:
  assumes e: "encodePaneHistoryPayloadFresh history styled = Inr payload" and len: "length payload \<le> maxMessageSize" and t: "tame styled"
  shows "readPaneHistoryBinary zero (putUint32 paneID @ putUint32 (of_nat (length payload)) @ payload @ rest) =
    Inr ((newMessage zero MsgTypePaneHistory paneID)\<lparr>msg_History := history, msg_StyledHistory := map wireLine styled\<rparr>, rest)"
proof -
  have "reads (decodePaneHistoryPayload (length payload)) payload (history, map wireLine styled)"
  proof (rule reads_payload [OF e])
    show "length payload < 2 ^ 64" using len by (simp add: maxMessageSize_def)
    fix line assume "line \<in> set styled"
    then show "length (line_Cells line) \<le> maxPaneHistoryLineCells \<and> (\<forall>c\<in>set (line_Cells line). cell_Width c \<le> int (length payload))"
      using t payload_length [OF e] by (fastforce simp: tame_def list_all_iff)
  qed
  then have "decodePaneHistoryPayload (length payload) (length payload, payload @ rest) = Inr ((history, map wireLine styled), (0, rest))"
    by (simp add: reads_def) (metis add.right_neutral)
  then show ?thesis using len by (simp add: readPaneHistoryBinary_def header getUint32_putUint32 unat_length Let_def)
qed

lemma readGobPayload_write: "length payload \<le> maxMessageSize \<Longrightarrow> readGobPayload (putUint32 (of_nat (length payload)) @ payload @ rest) = Inr (payload, rest)"
  using readBytes_exact [of 4 "putUint32 (of_nat (length payload))" "payload @ rest"]
  by (simp add: readGobPayload_def getUint32_putUint32 unat_length readBytes_exact Let_def)

section \<open>Messages\<close>

text \<open>The fields of a message that are local to the server do not travel.\<close>

definition onWire :: "'r ProtoMessage \<Rightarrow> 'r ProtoMessage" where
  "onWire m = m\<lparr>paneHistoryPayloadCache := None, paneHistoryPayloadVersion := 0, paneHistoryRange := None\<rparr>"

definition received :: "'r \<Rightarrow> bool \<Rightarrow> 'r ProtoMessage \<Rightarrow> 'r ProtoMessage" where
  "received zero binary m =
     (if msg_Type m = MsgTypePaneOutput \<and> msg_SourceEpoch m = 0 then (newMessage zero MsgTypePaneOutput (msg_PaneID m))\<lparr>msg_PaneData := msg_PaneData m\<rparr>
      else if msg_Type m = MsgTypePaneHistory \<and> binary
      then (newMessage zero MsgTypePaneHistory (msg_PaneID m))\<lparr>msg_History := msg_History m, msg_StyledHistory := map wireLine (msg_StyledHistory m)\<rparr>
      else onWire m)"

text \<open>
  What the frames rely on of the gob codec: a decoder that has read what an encoder has written reads
  its next message as well; \<open>rel\<close> relates the states of such an encoder and decoder.
\<close>

definition gob_faithful :: "('g, 'r) gobEncoder \<Rightarrow> ('d, 'r) gobDecoder \<Rightarrow> ('g \<Rightarrow> 'd \<Rightarrow> bool) \<Rightarrow> bool" where
  "gob_faithful enc dec rel \<longleftrightarrow>
     (\<forall>g d m b g'. rel g d \<longrightarrow> enc g m = Some (b, g') \<longrightarrow> (\<exists>d'. dec d b = Some (onWire m, d') \<and> rel g' d'))"

lemma one_message:
  assumes w: "Writer_WriteMsg enc m (Some w, st) = Inr (b, w', st')" and len: "length b \<le> maxMessageSize"
    and ok: "caches_ok content st" "carries content m" "tame (msg_StyledHistory m)"
    and gob: "gob_faithful enc dec rel" "rel (gobEnc w) d"
  obtains w1 d' where "w' = Some w1" "binaryPaneHistory w1 = binaryPaneHistory w" "rel (gobEnc w1) d'" "caches_ok content st'"
    "Reader_ReadMsg dec zero (Some d) (b @ rest) = Inr (received zero (binaryPaneHistory w) m, Some d', rest)"
proof -
  consider (out) "msg_Type m = MsgTypePaneOutput" "msg_SourceEpoch m = 0"
    | (hist) "\<not> (msg_Type m = MsgTypePaneOutput \<and> msg_SourceEpoch m = 0)" "msg_Type m = MsgTypePaneHistory" "binaryPaneHistory w"
    | (other) "\<not> (msg_Type m = MsgTypePaneOutput \<and> msg_SourceEpoch m = 0)" "\<not> (msg_Type m = MsgTypePaneHistory \<and> binaryPaneHistory w)" by blast
  then show thesis
  proof cases
    case out
    then have b: "b = CHR 0x01 # putUint32 (msg_PaneID m) @ putUint32 (of_nat (length (msg_PaneData m))) @ msg_PaneData m" "w' = Some w" "st' = st"
      using w by (simp_all add: Writer_WriteMsg_def writePaneOutputBinary_def)
    have "length (msg_PaneData m) \<le> maxMessageSize" using len b(1) by simp
    from readPaneOutput_write [OF this, of zero "msg_PaneID m" rest] show thesis
      using that [of w d] b out gob(2) ok(1) by (simp add: Reader_ReadMsg_def readBytes_def received_def)
  next
    case hist
    then obtain p where p: "encodePaneHistoryPayload m st = Inr (p, st')" "w' = Some w"
        "b = CHR 0x02 # putUint32 (msg_PaneID m) @ putUint32 (of_nat (length p)) @ p"
      using w by (auto simp: Writer_WriteMsg_def writePaneHistoryBinary_def split: sum.splits prod.splits)
    have e: "encodePaneHistoryPayloadFresh (msg_History m) (msg_StyledHistory m) = Inr p" "caches_ok content st'"
      using encode_cached [OF ok(1,2)] p(1) by simp_all
    have "length p \<le> maxMessageSize" using len p(3) by simp
    from readPaneHistory_write [OF e(1) this ok(3), of zero "msg_PaneID m" rest] show thesis
      using that [of w d] p e(2) hist gob(2) by (simp add: MsgTypePaneOutput_def MsgTypePaneHistory_def Reader_ReadMsg_def readBytes_def received_def)
  next
    case other
    then obtain p g where p: "enc (gobEnc w) m = Some (p, g)" "w' = Some (w\<lparr>gobEnc := g\<rparr>)" "st' = st" "b = CHR 0x00 # putUint32 (of_nat (length p)) @ p"
      using w by (auto simp: Writer_WriteMsg_def writeGobFrame_def split: option.splits if_splits)
    obtain d' where d: "dec d p = Some (onWire m, d')" "rel g d'"
      using gob p(1) unfolding gob_faithful_def by blast
    have "length p \<le> maxMessageSize" using len p(4) by simp
    from readGobPayload_write [OF this, of rest] show thesis
      using that [of "w\<lparr>gobEnc := g\<rparr>" d'] p d other ok(1)
      by (auto simp: Reader_ReadMsg_def readBytes_def received_def Reader_readMsgGob_def)
  qed
qed

section \<open>Connections\<close>

text \<open>The frames of a sequence of messages, and reading a number of messages from a stream.\<close>

fun writeAll :: "('g, 'r) gobEncoder \<Rightarrow> 'r ProtoMessage list \<Rightarrow> 'g Writer option \<times> caches \<Rightarrow> wireError + string list \<times> 'g Writer option \<times> caches" where
  "writeAll enc [] s = Inr ([], s)"
| "writeAll enc (m # ms) s =
     (case Writer_WriteMsg enc m s of
        Inl e \<Rightarrow> Inl e
      | Inr (b, s') \<Rightarrow> (case writeAll enc ms s' of Inl e \<Rightarrow> Inl e | Inr (bs, s'') \<Rightarrow> Inr (b # bs, s'')))"

fun readAll :: "('d, 'r) gobDecoder \<Rightarrow> 'r \<Rightarrow> nat \<Rightarrow> 'd option \<Rightarrow> string \<Rightarrow> wireError + 'r ProtoMessage list \<times> 'd option \<times> string" where
  "readAll dec zero 0 r bs = Inr ([], r, bs)"
| "readAll dec zero (Suc n) r bs =
     (case Reader_ReadMsg dec zero r bs of
        Inl e \<Rightarrow> Inl e
      | Inr (m, r', bs') \<Rightarrow> (case readAll dec zero n r' bs' of Inl e \<Rightarrow> Inl e | Inr (ms, r'', bs'') \<Rightarrow> Inr (m # ms, r'', bs'')))"

lemma connection:
  assumes "writeAll enc ms (Some w, st) = Inr (frames, w', st')" "list_all (\<lambda>b. length b \<le> maxMessageSize) frames"
    and "caches_ok content st" "list_all (carries content) ms" "list_all (\<lambda>m. tame (msg_StyledHistory m)) ms"
    and "gob_faithful enc dec rel" "rel (gobEnc w) d"
  shows "\<exists>w1 d'. w' = Some w1 \<and> rel (gobEnc w1) d' \<and> caches_ok content st' \<and>
    readAll dec zero (length ms) (Some d) (concat frames @ rest) = Inr (map (received zero (binaryPaneHistory w)) ms, Some d', rest)"
  using assms
proof (induction ms arbitrary: w st frames d)
  case (Cons m ms)
  obtain b v t fs where b: "Writer_WriteMsg enc m (Some w, st) = Inr (b, v, t)" and fs: "writeAll enc ms (v, t) = Inr (fs, w', st')" "frames = b # fs"
    using Cons.prems(1) by (auto split: sum.splits prod.splits)
  have len: "length b \<le> maxMessageSize" using Cons.prems(2) fs(2) by simp
  obtain w1 d1 where v: "v = Some w1" "binaryPaneHistory w1 = binaryPaneHistory w" "rel (gobEnc w1) d1" "caches_ok content t"
    and r: "Reader_ReadMsg dec zero (Some d) (b @ concat fs @ rest) = Inr (received zero (binaryPaneHistory w) m, Some d1, concat fs @ rest)"
    by (rule one_message [OF b len Cons.prems(3) _ _ Cons.prems(6,7)]) (use Cons.prems(4,5) in auto)
  from Cons.IH [of w1 t fs d1] fs(1) v Cons.prems fs(2)
  obtain w2 d2 where "w' = Some w2" "rel (gobEnc w2) d2" "caches_ok content st'"
    "readAll dec zero (length ms) (Some d1) (concat fs @ rest) = Inr (map (received zero (binaryPaneHistory w1)) ms, Some d2, rest)" by auto
  then show ?case using r fs(2) v(2) by auto
qed auto

end
