(* ===== verification/Wire_Delivery.thy ===== *)
theory Wire_Delivery
  imports Wire_Stream
begin

text \<open>
  From the history of a pane to what the client reads: the messages the server makes of a history,
  with or without a cached plan, the frames of these messages, and the store of caches over any
  sequence of attachments.
\<close>

section \<open>The messages of a history\<close>

definition history_message :: "uint32 \<Rightarrow> int \<Rightarrow> 'r ProtoMessage \<Rightarrow> bool" where
  "history_message paneID m msg \<longleftrightarrow> msg_Type msg = MsgTypePaneHistory \<and> msg_PaneID msg = paneID \<and> msg_History msg = StyledLineText (msg_StyledHistory msg) \<and>
     (length (msg_StyledHistory msg) = 1 \<or> (\<exists>s. binaryEstimate (msg_StyledHistory msg) = Inr s \<and> s \<le> m))"

definition batch_ok :: "contents \<Rightarrow> uint32 \<Rightarrow> StyledLine list \<Rightarrow> int \<Rightarrow> 'r ProtoMessage list \<Rightarrow> bool" where
  "batch_ok content paneID h m ms \<longleftrightarrow>
     list_all (carries content) ms \<and> concat (map msg_StyledHistory ms) = h \<and> list_all (history_message paneID m) ms"

lemma newPaneHistoryMessage_fields [simp]:
  "msg_StyledHistory (newPaneHistoryMessage zero paneID h) = h" "msg_History (newPaneHistoryMessage zero paneID h) = StyledLineText h"
  "msg_Type (newPaneHistoryMessage zero paneID h) = MsgTypePaneHistory" "msg_PaneID (newPaneHistoryMessage zero paneID h) = paneID"
  "paneHistoryPayloadCache (newPaneHistoryMessage zero paneID h) = None"
  by (simp_all add: newPaneHistoryMessage_def newMessage_def)

lemma lineSlice_all: "lineSlice 0 (int (length h)) h = h"
  by (simp add: lineSlice_def)

lemma lineSlice_one: "0 \<le> i \<Longrightarrow> i < int (length h) \<Longrightarrow> length (lineSlice i (i + 1) h) = 1"
  by (simp add: lineSlice_def nat_less_iff)

lemma lineSlice_subset: "set (lineSlice i j h) \<subseteq> set h"
  unfolding lineSlice_def by (meson dual_order.trans set_drop_subset set_take_subset)

lemma fits_message:
  assumes "chunk_fits binaryEstimate m h ch" "0 \<le> chunk_Start ch" "chunk_Start ch < chunk_End ch" "chunk_End ch \<le> int (length h)"
  shows "length (chunkLines h ch) = 1 \<or> (\<exists>s. binaryEstimate (chunkLines h ch) = Inr s \<and> s \<le> m)"
  using assms lineSlice_one [of "chunk_Start ch" h] unfolding chunk_fits_def by auto

lemma range_batch:
  assumes "covers 0 (int (length h)) chunks" "list_all (chunk_fits binaryEstimate m h) chunks" "h = content a v"
  shows "batch_ok content paneID h m (map (\<lambda>ch. newPaneHistoryMessageWithCacheRange zero paneID (chunkLines h ch) (Some a) v (chunk_Start ch) (chunk_End ch)) chunks)"
proof -
  let ?msg = "\<lambda>ch. newPaneHistoryMessageWithCacheRange zero paneID (chunkLines h ch) (Some a) v (chunk_Start ch) (chunk_End ch)"
  have s: "msg_StyledHistory (?msg ch) = chunkLines h ch" for ch
    by (simp add: newPaneHistoryMessageWithCacheRange_def SetPaneHistoryPayloadCacheRange_def Let_def)
  have "carries content (?msg ch)" for ch
    by (simp add: carries_def newPaneHistoryMessageWithCacheRange_def SetPaneHistoryPayloadCacheRange_def Let_def rangeLines_def assms(3))
  moreover have "history_message paneID m (?msg ch)" if "ch \<in> set chunks" for ch
    using fits_message [of m h ch] covers_bounds [OF assms(1)] assms(2) that
    by (simp add: history_message_def newPaneHistoryMessageWithCacheRange_def SetPaneHistoryPayloadCacheRange_def Let_def list_all_iff)
  moreover have "concat (map msg_StyledHistory (map ?msg chunks)) = h"
    using covers_concat [OF assms(1)] by (simp add: comp_def s)
  ultimately show ?thesis by (simp add: batch_ok_def list_all_iff)
qed

lemma whole_batch:
  assumes "h = content a v" "length h = 1 \<or> (\<exists>s. binaryEstimate h = Inr s \<and> s \<le> m)"
    and "msg_StyledHistory msg = h" "msg_History msg = StyledLineText h" "msg_Type msg = MsgTypePaneHistory" "msg_PaneID msg = paneID"
    and "paneHistoryPayloadCache msg = Some a" "paneHistoryPayloadVersion msg = v" "paneHistoryRange msg = None"
  shows "batch_ok content paneID h m [msg]"
  using assms by (auto simp: batch_ok_def carries_def history_message_def rangeLines_def)

lemma estimateLines_binary: "estimateLines enc g0 zero paneID True = binaryEstimate"
  by (rule ext) (simp add: estimate_binary binaryEstimate_def)

lemma chunkUncached_ok:
  assumes ok: "caches_ok content st" and h: "h = content a v" "h \<noteq> []"
    and c: "chunkUncached enc g0 zero paneID h m True (Some a) v st = Inr (ms, st')"
  shows "caches_ok content st' \<and> batch_ok content paneID h m ms"
proof -
  let ?msg = "\<lambda>ch. newPaneHistoryMessageWithCacheRange zero paneID (chunkLines h ch) (Some a) v (chunk_Start ch) (chunk_End ch)"
  obtain chunks where ch: "chunksFrom enc g0 zero paneID h 0 m True = Inr chunks"
    using c by (cases "chunksFrom enc g0 zero paneID h 0 m True") (simp_all add: chunkUncached_def split: if_splits)
  have cov: "covers 0 (int (length h)) chunks" "list_all (chunk_fits binaryEstimate m h) chunks"
    using chunksFrom_spec [OF ch] by (simp_all add: estimateLines_binary)
  show ?thesis
  proof (cases "length chunks = 1")
    case True
    then obtain ch0 where one: "chunks = [ch0]" by (metis One_nat_def length_0_conv length_Suc_conv)
    then have b: "chunk_Start ch0 = 0" "chunk_End ch0 = int (length h)" using cov(1) by auto
    then have "ms = [SetPaneHistoryPayloadCache (Some a) v (?msg ch0)]" "st' = st"
      using c ch one by (simp_all add: chunkUncached_def lineSlice_all split: if_splits)
    moreover have "batch_ok content paneID h m [SetPaneHistoryPayloadCache (Some a) v (?msg ch0)]"
      by (rule whole_batch [of h content a v, OF h(1)])
        (use fits_message [of m h ch0] cov(2) one b h(2) in \<open>simp_all add: lineSlice_all SetPaneHistoryPayloadCache_def newPaneHistoryMessageWithCacheRange_def
          SetPaneHistoryPayloadCacheRange_def Let_def\<close>)
    ultimately show ?thesis using ok by simp
  next
    case False
    then have r: "ms = map ?msg chunks" "st' = putCache (Some a) (StoreChunkPlan v m chunks (Some (st a))) st"
      using c ch by (simp_all add: chunkUncached_def cacheAt_def Let_def split: if_splits)
    have "caches_ok content st'" unfolding r(2)
      by (rule putCache_ok [OF ok]) (use StoreChunkPlan_ok [of "content a" "st a" v chunks m] ok cov h(1) in \<open>auto simp: caches_ok_def\<close>)
    then show ?thesis using range_batch [of h chunks m content a v, OF cov h(1)] r(1) by simp
  qed
qed

text \<open>A history whose cached payload fits travels as one message.\<close>

lemma whole_cached:
  assumes co: "cache_ok (content a) (st a)" and h: "h = content a v"
    and n: "PayloadLen (Some (st a)) v = Some n" "int n + 9 \<le> m"
  shows "batch_ok content paneID h m [newPaneHistoryMessageWithCache zero paneID h (Some a) v]"
proof -
  obtain p where "freshOf h = Inr p" "n = length p"
    using cacheGet_fresh [OF co, of v] h n(1) by (auto simp: PayloadLen_def split: option.splits)
  then have "binaryEstimate h = Inr (int n + 9)" by (simp add: binaryEstimate_def)
  then show ?thesis
    by (intro whole_batch [of h content a v, OF h]) (use n(2) in \<open>simp_all add: newPaneHistoryMessageWithCache_def SetPaneHistoryPayloadCache_def newPaneHistoryMessage_def newMessage_def Let_def\<close>)
qed

lemma chunk_cached:
  assumes ok: "caches_ok content st" and h: "h = content a v"
    and c: "chunkPaneHistoryMessagesWithCache enc g0 zero paneID h m True (Some a) v st = Inr (ms, st')"
  shows "caches_ok content st' \<and> batch_ok content paneID h m ms"
proof -
  have co: "cache_ok (content a) (st a)" using ok by (simp add: caches_ok_def)
  let ?plan = "case ChunkPlan (Some (st a)) v m of Some chunks \<Rightarrow> paneHistoryMessagesFromCachedChunks zero paneID h chunks (Some a) v | None \<Rightarrow> None"
  let ?whole = "newPaneHistoryMessageWithCache zero paneID h (Some a) v"
  let ?pay = "case PayloadLen (Some (st a)) v of Some n \<Rightarrow> if int n + paneHistoryBinaryFrameHeaderSize \<le> m then Some [?whole] else None | None \<Rightarrow> None"
  have d: "chunkPaneHistoryMessagesWithCache enc g0 zero paneID h m True (Some a) v st =
      (if h = [] then Inr ([], st) else case ?plan of Some msgs \<Rightarrow> Inr (msgs, st) | None \<Rightarrow> (case ?pay of Some msgs \<Rightarrow> Inr (msgs, st)
        | None \<Rightarrow> chunkUncached enc g0 zero paneID h m True (Some a) v st))"
    by (cases ?plan) (simp_all add: chunkPaneHistoryMessagesWithCache_def cacheAt_def)
  show ?thesis
  proof (cases "h = []")
    case True
    then show ?thesis using c ok by (simp add: chunkPaneHistoryMessagesWithCache_def batch_ok_def)
  next
    case ne: False
    show ?thesis
    proof (cases ?plan)
      case (Some msgs)
      then have r: "ms = msgs" "st' = st" using c ne by (simp_all add: d)
      obtain chunks where "ChunkPlan (Some (st a)) v m = Some chunks" "paneHistoryMessagesFromCachedChunks zero paneID h chunks (Some a) v = Some ms"
        using Some r by (cases "ChunkPlan (Some (st a)) v m") auto
      then show ?thesis using range_batch [of h chunks m content a v] ChunkPlan_covers [OF co, of v m chunks] h ok r
        by (auto simp: paneHistoryMessagesFromCachedChunks_def split: if_splits)
    next
      case np: None
      show ?thesis
      proof (cases ?pay)
        case (Some msgs)
        then have r: "ms = msgs" "st' = st" using c ne np by (simp_all add: d)
        obtain n where n: "PayloadLen (Some (st a)) v = Some n" "int n + 9 \<le> m" "ms = [?whole]"
          using Some r by (cases "PayloadLen (Some (st a)) v") (auto simp: paneHistoryBinaryFrameHeaderSize_def split: if_splits)
        then show ?thesis using whole_cached [of content a st h v n m, OF co h n(1,2)] r ok by simp
      next
        case None
        then show ?thesis using chunkUncached_ok [OF ok h ne] c ne np by (simp add: d)
      qed
    qed
  qed
qed

section \<open>Encoding succeeds\<close>

definition printable :: "StyledLine list \<Rightarrow> bool" where
  "printable ls \<longleftrightarrow> list_all (\<lambda>line. list_all (\<lambda>c. 0 \<le> cell_Width c) (line_Cells line)) ls"

lemma writeRunsFrom_succeeds: "list_all (\<lambda>c. 0 \<le> cell_Width c) (c # cs) \<Longrightarrow> \<exists>e. writeRunsFrom idx k c cs = Inr e"
proof (induction idx k c cs rule: writeRunsFrom.induct)
  case (2 idx k c d cs)
  then show ?case by (cases "sameRun d c") (auto simp: writePaneHistoryCellRun_def appendTo_def)
qed (simp add: writePaneHistoryCellRun_def)

lemma writeStyledLine_succeeds: "list_all (\<lambda>c. 0 \<le> cell_Width c) (line_Cells line) \<Longrightarrow> \<exists>e. writeStyledLine idx line = Inr e"
proof (cases "line_Cells line")
  case (Cons c cs)
  moreover assume "list_all (\<lambda>c. 0 \<le> cell_Width c) (line_Cells line)"
  ultimately obtain e where "writeRunsFrom idx 1 c cs = Inr e" using writeRunsFrom_succeeds [of c cs idx 1] by auto
  then show ?thesis using Cons by (simp add: writeStyledLine_def writePaneHistoryCellRuns_def appendTo_def Let_def)
qed (simp add: writeStyledLine_def Let_def)

lemma writeLines_succeeds: "printable ls \<Longrightarrow> \<exists>e. writeLines idx ls = Inr e"
proof (induction ls)
  case (Cons line ls)
  then obtain e where "writeLines idx ls = Inr e" by (auto simp: printable_def)
  moreover obtain e' where "writeStyledLine idx line = Inr e'" using Cons.prems writeStyledLine_succeeds by (force simp: printable_def)
  ultimately show ?case by (simp add: writeLines_def appendTo_def)
qed (simp add: writeLines_def)

lemma fresh_succeeds: "printable ls \<Longrightarrow> \<exists>p. encodePaneHistoryPayloadFresh h ls = Inr p"
proof -
  assume p: "printable ls"
  obtain styles idx where t: "paneHistoryStyleTable ls = (styles, idx)" by (metis surj_pair)
  obtain e where "writeLines idx ls = Inr e" using writeLines_succeeds [OF p] by blast
  then show ?thesis using t by (simp add: encodePaneHistoryPayloadFresh_def appendTo_def Let_def)
qed

section \<open>Delivery\<close>

lemma history_write:
  assumes ok: "caches_ok content st" "carries content msg" and p: "encodePaneHistoryPayloadFresh (msg_History msg) (msg_StyledHistory msg) = Inr p"
    and t: "msg_Type msg = MsgTypePaneHistory" "binaryPaneHistory w"
  obtains b st' where "Writer_WriteMsg enc msg (Some w, st) = Inr (b, Some w, st')" "length b = length p + 9" "caches_ok content st'"
proof -
  obtain st' where e: "encodePaneHistoryPayload msg st = Inr (p, st')" "caches_ok content st'"
    using encode_cached [OF ok] p by (cases "encodePaneHistoryPayload msg st") auto
  show thesis
    by (rule that) (use e t in \<open>auto simp: Writer_WriteMsg_def writePaneHistoryBinary_def MsgTypePaneOutput_def MsgTypePaneHistory_def\<close>)
qed

lemma history_writeAll:
  assumes "caches_ok content st" "list_all (carries content) ms" "list_all (\<lambda>msg. msg_Type msg = MsgTypePaneHistory) ms" "binaryPaneHistory w"
    and "list_all (\<lambda>msg. \<exists>p. encodePaneHistoryPayloadFresh (msg_History msg) (msg_StyledHistory msg) = Inr p \<and> length p + 9 \<le> n) ms"
  shows "\<exists>frames st'. writeAll enc ms (Some w, st) = Inr (frames, Some w, st') \<and> list_all (\<lambda>b. length b \<le> n) frames"
  using assms
proof (induction ms arbitrary: st)
  case (Cons msg ms)
  obtain p where p: "encodePaneHistoryPayloadFresh (msg_History msg) (msg_StyledHistory msg) = Inr p" "length p + 9 \<le> n" using Cons.prems(5) by auto
  obtain b st1 where b: "Writer_WriteMsg enc msg (Some w, st) = Inr (b, Some w, st1)" "length b = length p + 9" "caches_ok content st1"
    by (rule history_write [OF Cons.prems(1) _ p(1) _ Cons.prems(4), of enc]) (use Cons.prems(2,3) in auto)
  obtain frames st' where "writeAll enc ms (Some w, st1) = Inr (frames, Some w, st')" "list_all (\<lambda>b. length b \<le> n) frames"
    using Cons.IH [OF b(3)] Cons.prems by auto
  then show ?case using b p(2) by auto
qed simp

lemma history_writer_any:
  "list_all (\<lambda>msg. msg_Type msg = MsgTypePaneHistory) ms \<Longrightarrow> binaryPaneHistory w \<Longrightarrow> writeAll enc ms (Some w, st) = writeAll enc' ms (Some w, st)"
proof (induction ms arbitrary: st)
  case (Cons msg ms)
  have "Writer_WriteMsg enc msg (Some w, st) = (case writePaneHistoryBinary msg st of Inl e \<Rightarrow> Inl e | Inr (b, st') \<Rightarrow> Inr (b, Some w, st'))" for enc
    using Cons.prems by (simp add: Writer_WriteMsg_def MsgTypePaneOutput_def MsgTypePaneHistory_def)
  then show ?case using Cons.IH Cons.prems by (auto split: sum.split)
qed simp

text \<open>A batch of messages reaches the client, if every line of it alone fits a frame.\<close>

definition lines_fit :: "StyledLine list \<Rightarrow> bool" where
  "lines_fit h \<longleftrightarrow> list_all (\<lambda>line. case freshOf [line] of Inr p \<Rightarrow> length p + 9 \<le> maxMessageSize | Inl _ \<Rightarrow> True) h"

lemma batch_delivered:
  assumes ok: "caches_ok content st" and b: "batch_ok content paneID h m ms" and m: "m \<le> int maxMessageSize" and w: "binaryPaneHistory w"
    and h: "printable h" "tame h" and one: "lines_fit h"
  shows "\<exists>frames st'. writeAll enc ms (Some w, st) = Inr (frames, Some w, st') \<and>
    readAll dec zero (length ms) (Some d) (concat frames @ rest) = Inr (map (received zero True) ms, Some d, rest)"
proof -
  have part: "set (msg_StyledHistory msg) \<subseteq> set h" if "msg \<in> set ms" for msg using b that by (auto simp: batch_ok_def)
  have fits: "\<exists>p. encodePaneHistoryPayloadFresh (msg_History msg) (msg_StyledHistory msg) = Inr p \<and> length p + 9 \<le> maxMessageSize" if msg: "msg \<in> set ms" for msg
  proof -
    let ?ls = "msg_StyledHistory msg"
    have hm: "history_message paneID m msg" using b msg by (simp add: batch_ok_def list_all_iff)
    have "printable ?ls" using h(1) part [OF msg] by (auto simp: printable_def list_all_iff)
    then obtain p where p: "freshOf ?ls = Inr p" using fresh_succeeds unfolding freshOf_def by blast
    have "length p + 9 \<le> maxMessageSize"
    proof (cases "length ?ls = 1")
      case True
      then obtain line where "?ls = [line]" by (metis One_nat_def length_0_conv length_Suc_conv)
      then show ?thesis using one p part [OF msg] by (auto simp: lines_fit_def list_all_iff)
    next
      case False
      then show ?thesis using hm p m by (auto simp: history_message_def binaryEstimate_def)
    qed
    then show ?thesis using p hm by (simp add: history_message_def freshOf_def)
  qed
  have t: "list_all (\<lambda>msg. msg_Type msg = MsgTypePaneHistory) ms" "list_all (carries content) ms"
    using b by (auto simp: batch_ok_def history_message_def list_all_iff)
  have tm: "list_all (\<lambda>msg. tame (msg_StyledHistory msg)) ms" using h(2) part by (fastforce simp: tame_def list_all_iff)
  obtain frames st' where f: "writeAll (\<lambda>_ _. None) ms (Some w, st) = Inr (frames, Some w, st')" "list_all (\<lambda>b. length b \<le> maxMessageSize) frames"
    using history_writeAll [OF ok t(2,1) w, of maxMessageSize "\<lambda>_ _. None"] fits by (auto simp: list_all_iff)
  have "\<exists>w1 d'. Some w = Some w1 \<and> d' = d \<and> caches_ok content st' \<and>
      readAll dec zero (length ms) (Some d) (concat frames @ rest) = Inr (map (received zero (binaryPaneHistory w)) ms, Some d', rest)"
    by (rule connection [OF f ok t(2) tm, where rel = "\<lambda>_ d'. d' = d"]) (simp_all add: gob_faithful_def)
  then show ?thesis using f(1) history_writer_any [OF t(1) w, of enc st "\<lambda>_ _. None"] w by auto
qed

section \<open>The caches over time\<close>

datatype history_op = ChunkHistory uint32 nat uint64 int | SendHistory "unit ProtoMessage"

definition history_perform :: "contents \<Rightarrow> history_op \<Rightarrow> caches \<Rightarrow> caches" where
  "history_perform content op st =
     (case op of
        ChunkHistory paneID a v m \<Rightarrow>
          (case chunkPaneHistoryMessagesWithCache (\<lambda>g msg. Some ([], g)) () () paneID (content a v) m True (Some a) v st of
             Inl e \<Rightarrow> st | Inr (ms, st') \<Rightarrow> st')
      | SendHistory msg \<Rightarrow> (case encodePaneHistoryPayload msg st of Inl e \<Rightarrow> st | Inr (p, st') \<Rightarrow> st'))"

definition history_allowed :: "contents \<Rightarrow> caches \<Rightarrow> history_op \<Rightarrow> bool" where
  "history_allowed content st op \<longleftrightarrow> (case op of ChunkHistory paneID a v m \<Rightarrow> True | SendHistory msg \<Rightarrow> carries content msg)"

definition noCaches :: "caches \<Rightarrow> bool" where
  "noCaches st \<longleftrightarrow> (\<forall>a. st a = emptyPaneHistoryPayloadCache)"

interpretation history_caches: invariant_system noCaches "history_allowed content" "history_perform content" "caches_ok content" for content
proof
  fix st assume "noCaches st"
  then show "caches_ok content st" by (simp add: noCaches_def caches_ok_def empty_ok)
next
  fix st op assume ok: "caches_ok content st" and al: "history_allowed content st op"
  show "caches_ok content (history_perform content op st)"
  proof (cases op)
    case (ChunkHistory paneID a v m)
    then show ?thesis using ok chunk_cached [OF ok, of "content a v" a v "\<lambda>g msg. Some ([], g)" "()" "()" paneID m]
      by (auto simp: history_perform_def split: sum.splits)
  next
    case (SendHistory msg)
    then show ?thesis using ok encode_cached [OF ok, of msg] al
      by (auto simp: history_perform_def history_allowed_def split: sum.splits)
  qed
qed

text \<open>A history of printable cells can be split.\<close>

lemma chunk_succeeds:
  assumes "printable h" "0 < m"
  shows "\<exists>ms st'. chunkPaneHistoryMessagesWithCache enc g0 zero paneID h m True (Some a) v st = Inr (ms, st')"
proof -
  have "\<exists>s. estimateLines enc g0 zero paneID True (lineSlice i j h) = Inr s" for i j
  proof -
    have "printable (lineSlice i j h)" using assms(1) lineSlice_subset [of i j h] by (auto simp: printable_def list_all_iff)
    then obtain p where "freshOf (lineSlice i j h) = Inr p" using fresh_succeeds unfolding freshOf_def by blast
    then show ?thesis by (simp add: estimate_binary)
  qed
  then obtain chunks where "chunksFrom enc g0 zero paneID h 0 m True = Inr chunks" using chunksFrom_succeeds [of enc g0 True zero paneID h 0 m] by blast
  then have "\<exists>r. chunkUncached enc g0 zero paneID h m True (Some a) v st = Inr r" using assms(2) by (simp add: chunkUncached_def Let_def)
  then show ?thesis by (auto simp: chunkPaneHistoryMessagesWithCache_def split: option.split)
qed

section \<open>Corrupted frames\<close>

lemma andThen_Inr: "andThen p f st = Inr r \<Longrightarrow> (\<And>x st'. p st = Inr (x, st') \<Longrightarrow> f x st' = Inr r \<Longrightarrow> thesis) \<Longrightarrow> thesis"
  by (auto simp: andThen_def split: sum.splits)

lemma readMany_length: "readMany n p st = Inr (xs, st') \<Longrightarrow> length xs = n"
  by (induction n arbitrary: st xs st') (auto simp: give_def elim!: andThen_Inr)

lemma readMany_all: "readMany n p st = Inr (xs, st') \<Longrightarrow> (\<And>st x st'. p st = Inr (x, st') \<Longrightarrow> P x) \<Longrightarrow> list_all P xs"
  by (induction n arbitrary: st xs st') (auto simp: give_def elim!: andThen_Inr)

lemma readRunLength_le: "readPaneHistoryRunLength m st = Inr (n, st') \<Longrightarrow> n \<le> m"
  by (auto simp: readPaneHistoryRunLength_def give_def fail_def elim!: andThen_Inr split: if_splits)

lemma readCount_le: "readPaneHistoryCount m st = Inr (n, st') \<Longrightarrow> n \<le> m"
  by (auto simp: readPaneHistoryCount_def give_def fail_def elim!: andThen_Inr split: if_splits)

lemma readRuns_length: "readRuns L k S m st = Inr (cells, st') \<Longrightarrow> length cells \<le> m"
proof (induction k arbitrary: m st cells st')
  case (Suc k)
  then show ?case by (fastforce simp: give_def fail_def elim!: andThen_Inr split: if_splits dest: readRunLength_le)
qed (simp add: give_def)

lemma readStyledLine_length: "readStyledLine L S st = Inr (line, st') \<Longrightarrow> length (line_Cells line) \<le> maxPaneHistoryLineCells"
  by (auto simp: readStyledLine_def give_def elim!: andThen_Inr split: if_splits) (erule readRuns_length)+

lemma decode_bounds:
  assumes "decodePaneHistoryPayload L st = Inr ((history, styled), st')"
  shows "length history \<le> L \<and> length styled \<le> L \<and> list_all (\<lambda>line. length (line_Cells line) \<le> maxPaneHistoryLineCells) styled"
proof -
  obtain flags st1 hc st2 sc st3 h st4 n st5 S st6 where
      r: "readPaneHistoryCount L st1 = Inr (hc, st2)" "readPaneHistoryCount L st2 = Inr (sc, st3)"
        "(if \<not> lineFlag 1 flags then readMany hc readPaneHistoryString else if hc \<noteq> sc then fail CountMismatch else give (replicate hc [])) st3 = Inr (h, st4)"
        "readMany sc (readStyledLine L S) st6 = Inr (styled, st')" "history = (if lineFlag 1 flags then StyledLineText styled else h)"
    using assms unfolding decodePaneHistoryPayload_def by (elim andThen_Inr) (simp add: give_def)
  have "length styled = sc" "sc \<le> L" "hc \<le> L" using readMany_length [OF r(4)] readCount_le [OF r(1)] readCount_le [OF r(2)] by auto
  moreover have "length h = hc" using r(3) readMany_length [of hc readPaneHistoryString st3 h st4] by (auto simp: give_def fail_def split: if_splits)
  moreover have "list_all (\<lambda>line. length (line_Cells line) \<le> maxPaneHistoryLineCells) styled"
    using readMany_all [OF r(4), where P = "\<lambda>line. length (line_Cells line) \<le> maxPaneHistoryLineCells"] readStyledLine_length by blast
  ultimately show ?thesis using r(5) by (simp add: StyledLineText_def)
qed

end
