(* ===== verification/Wire_Properties.thy ===== *)
theory Wire_Properties
  imports Wire_Delivery
begin

text \<open>The properties of the wire protocol: connections, the delivery of histories, the caches, and corrupted frames.\<close>

section \<open>Connections\<close>

text \<open>
  C13. A client reads what the server wrote, in order: whatever mix of pane output, binary histories and
  gob messages is written on a connection, as long as no frame is longer than the limit, the messages read
  from it are the messages written, except for colours of unknown types, which arrive as their
  16-bit components, and fields that do not travel. No byte is left over. The gob codec is a parameter.
\<close>

theorem connection_roundtrip:
  assumes "writeAll enc ms (Some w, st) = Inr (frames, w', st')" "list_all (\<lambda>b. length b \<le> maxMessageSize) frames"
    and "caches_ok content st" "list_all (carries content) ms" "list_all (\<lambda>m. tame (msg_StyledHistory m)) ms"
    and "gob_faithful enc dec rel" "rel (gobEnc w) d"
  shows "\<exists>d'. readAll dec zero (length ms) (Some d) (concat frames) = Inr (map (received zero (binaryPaneHistory w)) ms, Some d', [])"
  using connection [OF assms, of zero "[]"] by auto

text \<open>A codec that knows the messages with a type and no other field.\<close>

definition typeEncoder :: "(unit, unit) gobEncoder" where
  "typeEncoder g m = (if msg_Type m < 256 \<and> m = newMessage () (msg_Type m) 0 then Some ([char_of (msg_Type m)], g) else None)"

definition typeDecoder :: "(unit, unit) gobDecoder" where
  "typeDecoder d b = (case b of [c] \<Rightarrow> Some (newMessage () (of_char c) 0, d) | _ \<Rightarrow> None)"

lemma typeCodec_faithful: "gob_faithful typeEncoder typeDecoder (\<lambda>g d. True)"
proof -
  have o: "onWire (newMessage () t 0) = newMessage () t 0" for t by (simp add: onWire_def newMessage_def)
  have "typeDecoder d b = Some (onWire m, d)" if "typeEncoder g m = Some (b, g')" for g d m b g'
  proof -
    have m: "msg_Type m < 256" "m = newMessage () (msg_Type m) 0" "b = [char_of (msg_Type m)]"
      using that by (simp_all add: typeEncoder_def split: if_splits)
    have "typeDecoder d b = Some (newMessage () (msg_Type m) 0, d)" using m(1,3) by (simp add: typeDecoder_def)
    then show ?thesis using o [of "msg_Type m"] m(2) by metis
  qed
  then show ?thesis by (auto simp: gob_faithful_def)
qed

definition sampleStyle :: Style where
  "sampleStyle = \<lparr>Fg = OtherColor 1 2 3 4, Bg = NoColor, UnderlineColor = BasicColor (CHR 0x02), Underline = CHR 0x00, Attrs = CHR 0x01\<rparr>"

definition sampleHistory :: "StyledLine list" where
  "sampleHistory =
     [\<lparr>line_Text = ''aab'', line_Cells = [\<lparr>cell_Char = ''a'', cell_Style = sampleStyle, cell_Width = 1\<rparr>,
         \<lparr>cell_Char = ''a'', cell_Style = sampleStyle, cell_Width = 1\<rparr>, \<lparr>cell_Char = ''b'', cell_Style = sampleStyle, cell_Width = 1\<rparr>]\<rparr>,
      \<lparr>line_Text = ''x'', line_Cells = []\<rparr>]"

definition sampleContents :: contents where
  "sampleContents a v = sampleHistory"

definition sampleCaches :: caches where
  "sampleCaches a = emptyPaneHistoryPayloadCache"

definition sampleWriter :: "unit Writer" where
  "sampleWriter = \<lparr>gobEnc = (), binaryPaneHistory = True\<rparr>"

definition sampleMessages :: "unit ProtoMessage list" where
  "sampleMessages = [(newMessage () MsgTypePaneOutput 7)\<lparr>msg_PaneData := ''ls''\<rparr>,
     newPaneHistoryMessageWithCache () 7 sampleHistory (Some 0) 3, newMessage () 14 0]"

lemma sampleCaches_ok: "caches_ok content sampleCaches"
  by (simp add: caches_ok_def sampleCaches_def empty_ok)

lemma sampleMessages_carry: "list_all (carries sampleContents) sampleMessages"
  by (simp add: sampleMessages_def carries_def newMessage_def newPaneHistoryMessageWithCache_def newPaneHistoryMessage_def SetPaneHistoryPayloadCache_def
      rangeLines_def sampleContents_def)

lemma sampleMessages_tame: "list_all (\<lambda>m. tame (msg_StyledHistory m)) sampleMessages"
  by (simp add: sampleMessages_def newMessage_def newPaneHistoryMessageWithCache_def newPaneHistoryMessage_def SetPaneHistoryPayloadCache_def
      tame_def sampleHistory_def maxPaneHistoryLineCells_def)

lemma sampleHistory_payload: "\<exists>p. freshOf sampleHistory = Inr p \<and> length p < 100"
proof -
  have "case freshOf sampleHistory of Inr p \<Rightarrow> length p < 100 | Inl _ \<Rightarrow> False" by code_simp
  then show ?thesis by (auto split: sum.splits)
qed

lemma sample_written:
  "\<exists>frames st'. writeAll typeEncoder sampleMessages (Some sampleWriter, sampleCaches) = Inr (frames, Some sampleWriter, st') \<and>
     list_all (\<lambda>b. length b \<le> maxMessageSize) frames"
proof -
  let ?m1 = "(newMessage () MsgTypePaneOutput 7)\<lparr>msg_PaneData := ''ls''\<rparr>" and ?m2 = "newPaneHistoryMessageWithCache () 7 sampleHistory (Some 0) 3"
  obtain p where p: "freshOf sampleHistory = Inr p" "length p < 100" using sampleHistory_payload by blast
  obtain b1 where b1: "Writer_WriteMsg typeEncoder ?m1 (Some sampleWriter, sampleCaches) = Inr (b1, Some sampleWriter, sampleCaches)" "length b1 = 11"
    by (simp add: Writer_WriteMsg_def newMessage_def writePaneOutputBinary_def putUint32_def)
  have m2: "msg_StyledHistory ?m2 = sampleHistory" "msg_History ?m2 = StyledLineText sampleHistory" "msg_Type ?m2 = MsgTypePaneHistory" "carries sampleContents ?m2"
    using sampleMessages_carry by (simp_all add: newPaneHistoryMessageWithCache_def SetPaneHistoryPayloadCache_def Let_def sampleMessages_def)
  obtain b2 st' where b2: "Writer_WriteMsg typeEncoder ?m2 (Some sampleWriter, sampleCaches) = Inr (b2, Some sampleWriter, st')" "length b2 = length p + 9"
    by (rule history_write [OF sampleCaches_ok m2(4) _ m2(3), of p sampleWriter typeEncoder]) (use p(1) m2 in \<open>simp_all add: freshOf_def sampleWriter_def\<close>)
  obtain b3 where b3: "Writer_WriteMsg typeEncoder (newMessage () 14 0) (Some sampleWriter, st') = Inr (b3, Some sampleWriter, st')" "length b3 = 6"
    by (simp add: Writer_WriteMsg_def newMessage_def typeEncoder_def writeGobFrame_def putUint32_def MsgTypePaneOutput_def MsgTypePaneHistory_def sampleWriter_def)
  show ?thesis using b1 b2 b3 p(2) by (simp add: sampleMessages_def maxMessageSize_def)
qed

theorem connection_roundtrip_witness:
  "\<exists>frames d'. readAll typeDecoder () 3 (Some ()) (concat frames) =
     Inr ([(newMessage () MsgTypePaneOutput 7)\<lparr>msg_PaneData := ''ls''\<rparr>,
       (newMessage () MsgTypePaneHistory 7)\<lparr>msg_History := [''aab'', ''x''], msg_StyledHistory := map wireLine sampleHistory\<rparr>, newMessage () 14 0], Some d', [])"
proof -
  obtain frames st' where w: "writeAll typeEncoder sampleMessages (Some sampleWriter, sampleCaches) = Inr (frames, Some sampleWriter, st')"
    "list_all (\<lambda>b. length b \<le> maxMessageSize) frames" using sample_written by blast
  have "\<exists>d'. readAll typeDecoder () (length sampleMessages) (Some ()) (concat frames) = Inr (map (received () (binaryPaneHistory sampleWriter)) sampleMessages, Some d', [])"
    by (rule connection_roundtrip [OF w sampleCaches_ok sampleMessages_carry sampleMessages_tame typeCodec_faithful]) simp
  moreover have "map (received () (binaryPaneHistory sampleWriter)) sampleMessages = [(newMessage () MsgTypePaneOutput 7)\<lparr>msg_PaneData := ''ls''\<rparr>,
       (newMessage () MsgTypePaneHistory 7)\<lparr>msg_History := [''aab'', ''x''], msg_StyledHistory := map wireLine sampleHistory\<rparr>, newMessage () 14 0]"
    by (simp add: sampleMessages_def received_def newMessage_def newPaneHistoryMessageWithCache_def newPaneHistoryMessage_def SetPaneHistoryPayloadCache_def
        MsgTypePaneOutput_def MsgTypePaneHistory_def sampleWriter_def onWire_def sampleHistory_def StyledLineText_def)
  moreover have "length sampleMessages = 3" by (simp add: sampleMessages_def)
  ultimately show ?thesis by metis
qed

section \<open>Histories\<close>

text \<open>
  C5. The history of a pane reaches an attaching client whole. Whatever attachments came before, with
  cached plans and payloads of this or of older versions, the server splits the current history into
  messages, the binary frames it writes are within the limit, and the client that reads them
  one after the other gets messages of that pane whose lines together are the lines of the
  history. Lines have at most 65536 cells, cells a width from 0 to 2, and a single line fits a frame.
\<close>

theorem history_delivered:
  assumes "reachable noCaches (history_allowed content) (history_perform content) st"
    and "printable (content a v)" "tame (content a v)" "0 < m" "m \<le> int maxMessageSize" "binaryPaneHistory w"
    and "lines_fit (content a v)"
  shows "\<exists>ms st1 frames st2 got.
    chunkPaneHistoryMessagesWithCache enc g0 zero paneID (content a v) m True (Some a) v st = Inr (ms, st1) \<and>
    writeAll enc ms (Some w, st1) = Inr (frames, Some w, st2) \<and>
    readAll dec zero (length ms) (Some d) (concat frames @ rest) = Inr (got, Some d, rest) \<and>
    concat (map msg_StyledHistory got) = map wireLine (content a v) \<and>
    concat (map msg_History got) = StyledLineText (content a v) \<and>
    list_all (\<lambda>msg. msg_Type msg = MsgTypePaneHistory \<and> msg_PaneID msg = paneID) got"
proof -
  have ok: "caches_ok content st" by (rule history_caches.inv_reachable [OF assms(1)])
  obtain ms st1 where c: "chunkPaneHistoryMessagesWithCache enc g0 zero paneID (content a v) m True (Some a) v st = Inr (ms, st1)"
    using chunk_succeeds [OF assms(2,4), of enc g0 zero paneID a v st] by blast
  have b: "caches_ok content st1" "batch_ok content paneID (content a v) m ms" using chunk_cached [OF ok refl c] by auto
  obtain frames st2 where f: "writeAll enc ms (Some w, st1) = Inr (frames, Some w, st2)"
    "readAll dec zero (length ms) (Some d) (concat frames @ rest) = Inr (map (received zero True) ms, Some d, rest)"
    using batch_delivered [OF b(1,2) assms(5,6,2,3,7), where enc = enc and dec = dec and zero = zero and d = d and rest = rest] by blast
  have h: "history_message paneID m msg" if "msg \<in> set ms" for msg using b(2) that by (simp add: batch_ok_def list_all_iff)
  have r: "msg_StyledHistory (received zero True msg) = map wireLine (msg_StyledHistory msg)" "msg_History (received zero True msg) = StyledLineText (msg_StyledHistory msg)"
    "msg_Type (received zero True msg) = MsgTypePaneHistory" "msg_PaneID (received zero True msg) = paneID" if "msg \<in> set ms" for msg
    using h [OF that] by (simp_all add: received_def history_message_def newMessage_def MsgTypePaneOutput_def MsgTypePaneHistory_def)
  have hc: "content a v = concat (map msg_StyledHistory ms)" using b(2) by (simp add: batch_ok_def)
  have "concat (map msg_StyledHistory (map (received zero True) ms)) = map wireLine (content a v)"
    unfolding hc using r(1) by (simp add: map_concat comp_def cong: map_cong)
  moreover have "concat (map msg_History (map (received zero True) ms)) = StyledLineText (content a v)"
    unfolding hc using r(2) by (simp add: StyledLineText_def map_concat comp_def cong: map_cong)
  moreover have "list_all (\<lambda>msg. msg_Type msg = MsgTypePaneHistory \<and> msg_PaneID msg = paneID) (map (received zero True) ms)"
    using r(3,4) by (simp add: list_all_iff)
  ultimately show ?thesis using c f by blast
qed

text \<open>A run in which the history was attached before: the plan of the second attachment comes from the cache.\<close>

definition sampleRun :: "history_op list" where
  "sampleRun = [ChunkHistory 7 0 3 40, SendHistory (newPaneHistoryMessageWithCache () 7 sampleHistory (Some 0) 3)]"

theorem history_delivered_witness:
  "\<exists>ms st1 frames st2 got.
    chunkPaneHistoryMessagesWithCache typeEncoder () () 7 sampleHistory 40 True (Some 0) 3 (fold (history_perform sampleContents) sampleRun sampleCaches) = Inr (ms, st1) \<and>
    writeAll typeEncoder ms (Some sampleWriter, st1) = Inr (frames, Some sampleWriter, st2) \<and>
    readAll typeDecoder () (length ms) (Some ()) (concat frames @ ''rest'') = Inr (got, Some (), ''rest'') \<and>
    concat (map msg_StyledHistory got) = map wireLine sampleHistory"
proof -
  have run: "reachable noCaches (history_allowed sampleContents) (history_perform sampleContents) (fold (history_perform sampleContents) sampleRun sampleCaches)"
    by (rule reachable_runs) (use sampleMessages_carry in \<open>simp_all add: reachable.start noCaches_def sampleCaches_def sampleRun_def history_allowed_def sampleMessages_def\<close>)
  have "list_all (\<lambda>line. case freshOf [line] of Inr p \<Rightarrow> length p < 100 | Inl _ \<Rightarrow> True) sampleHistory" by code_simp
  then have one: "lines_fit (sampleContents 0 3)"
    by (auto simp: lines_fit_def list_all_iff sampleContents_def maxMessageSize_def split: sum.splits)
  have "printable (sampleContents 0 3)" "tame (sampleContents 0 3)" "(40::int) \<le> int maxMessageSize" "binaryPaneHistory sampleWriter"
    by (simp_all add: printable_def tame_def sampleContents_def sampleHistory_def maxPaneHistoryLineCells_def maxMessageSize_def sampleWriter_def)
  from history_delivered [OF run this(1,2) _ this(3,4) one, where enc = typeEncoder and zero = "()" and paneID = 7 and dec = typeDecoder and rest = "''rest''"]
  show ?thesis by (auto simp: sampleContents_def)
qed

section \<open>Caches\<close>

text \<open>
  C14. The caches are transparent: in every state they can reach, encoding a message through
  the cache of its pane gives exactly the bytes, or the error, that encoding it afresh gives; a
  payload of an older version or of another range is never sent. A message that names a cache
  carries the history of that pane at the version it names.
\<close>

theorem cached_encoding_fresh:
  assumes "reachable noCaches (history_allowed content) (history_perform content) st" "carries content m"
  shows "(case encodePaneHistoryPayload m st of Inl e \<Rightarrow> Inl e | Inr (p, st') \<Rightarrow> Inr p) = encodePaneHistoryPayloadFresh (msg_History m) (msg_StyledHistory m)"
  using encode_cached [OF history_caches.inv_reachable [OF assms(1)] assms(2)] by (auto split: sum.splits)

theorem cached_encoding_fresh_witness:
  "(case encodePaneHistoryPayload (newPaneHistoryMessageWithCache () 7 sampleHistory (Some 0) 3) (fold (history_perform sampleContents) sampleRun sampleCaches) of
     Inl e \<Rightarrow> Inl e | Inr (p, st') \<Rightarrow> Inr p) = freshOf sampleHistory"
proof -
  let ?m = "newPaneHistoryMessageWithCache () 7 sampleHistory (Some 0) 3"
  have "carries sampleContents ?m" using sampleMessages_carry by (simp add: sampleMessages_def)
  moreover have "reachable noCaches (history_allowed sampleContents) (history_perform sampleContents) (fold (history_perform sampleContents) sampleRun sampleCaches)"
    by (rule reachable_runs) (use sampleMessages_carry in \<open>simp_all add: reachable.start noCaches_def sampleCaches_def sampleRun_def history_allowed_def sampleMessages_def\<close>)
  moreover have "msg_StyledHistory ?m = sampleHistory" "msg_History ?m = StyledLineText sampleHistory"
    by (simp_all add: newPaneHistoryMessageWithCache_def SetPaneHistoryPayloadCache_def Let_def)
  ultimately show ?thesis using cached_encoding_fresh [of sampleContents _ ?m] by (simp add: freshOf_def)
qed

section \<open>Chunks\<close>

text \<open>
  C15. The chunks of a history follow each other and together are the history; a chunk fits the
  size limit unless it is a single line, and it is as long as can be: it ends
  the history, or one more line would exceed the limit, or its single line already does. The binary
  search needs no assumption on how the size grows with the number of lines.
\<close>

theorem chunk_messages:
  assumes "h \<noteq> []" "0 < m" "\<And>i j. 0 \<le> i \<Longrightarrow> \<exists>s. estimatePaneHistoryMessageSize enc g0 binary (newPaneHistoryMessage zero paneID (lineSlice i j h)) = Inr s"
  shows "\<exists>chunks. chunkPaneHistoryMessages enc g0 zero paneID h m binary = Inr (map (\<lambda>ch. newPaneHistoryMessage zero paneID (chunkLines h ch)) chunks) \<and>
    concat (map (chunkLines h) chunks) = h \<and> covers 0 (int (length h)) chunks \<and>
    list_all (chunk_fits (estimateLines enc g0 zero paneID binary) m h) chunks \<and>
    list_all (chunk_maximal (estimateLines enc g0 zero paneID binary) m h) chunks"
proof -
  obtain chunks where c: "chunksFrom enc g0 zero paneID h 0 m binary = Inr chunks"
    using chunksFrom_succeeds [OF assms(3), of 0 m] by auto
  then show ?thesis using chunksFrom_spec [OF c] covers_concat [of 0 h chunks] assms(1,2)
    by (intro exI [of _ chunks]) (simp add: chunkPaneHistoryMessages_def)
qed

theorem chunk_messages_witness:
  "\<exists>chunks. chunkPaneHistoryMessages typeEncoder () () 7 sampleHistory 40 True = Inr (map (\<lambda>ch. newPaneHistoryMessage () 7 (chunkLines sampleHistory ch)) chunks) \<and>
    concat (map (chunkLines sampleHistory) chunks) = sampleHistory"
proof -
  have "\<exists>s. estimatePaneHistoryMessageSize typeEncoder () True (newPaneHistoryMessage () 7 (lineSlice i j sampleHistory)) = Inr s" for i j
  proof -
    have "printable sampleHistory" by (simp add: printable_def sampleHistory_def)
    then have "printable (lineSlice i j sampleHistory)" using lineSlice_subset [of i j sampleHistory] by (auto simp: printable_def list_all_iff)
    then obtain p where "freshOf (lineSlice i j sampleHistory) = Inr p" using fresh_succeeds unfolding freshOf_def by blast
    then show ?thesis by (simp add: estimate_binary)
  qed
  then show ?thesis using chunk_messages [of sampleHistory 40 typeEncoder "()" True "()" 7] by (auto simp: sampleHistory_def)
qed

section \<open>Corrupted frames\<close>

text \<open>
  C16. Whatever bytes come, a history frame that is accepted has at most as many lines as the largest
  message has bytes, and no line of more than 65536 cells.
\<close>

theorem corrupted_history_bounds:
  assumes "readPaneHistoryBinary zero bs = Inr (msg, rest)"
  shows "length (msg_History msg) \<le> maxMessageSize \<and> length (msg_StyledHistory msg) \<le> maxMessageSize \<and>
    list_all (\<lambda>line. length (line_Cells line) \<le> 65536) (msg_StyledHistory msg)"
proof -
  obtain L s h t where d: "decodePaneHistoryPayload L s = Inr ((h, t), (0, rest))" "L \<le> maxMessageSize" "msg_History msg = h" "msg_StyledHistory msg = t"
    using assms by (auto simp: readPaneHistoryBinary_def Let_def split: sum.splits if_splits)
  then show ?thesis using decode_bounds [OF d(1)] by (simp add: maxPaneHistoryLineCells_def)
qed

theorem corrupted_history_bounds_witness:
  "\<exists>bs msg rest. readPaneHistoryBinary () bs = Inr (msg, rest) \<and> msg_History msg = [''aab'', ''x''] \<and>
    list_all (\<lambda>line. length (line_Cells line) \<le> 65536) (msg_StyledHistory msg)"
proof -
  obtain p where p: "freshOf sampleHistory = Inr p" "length p < 100" using sampleHistory_payload by blast
  have t: "tame sampleHistory" by (simp add: tame_def sampleHistory_def maxPaneHistoryLineCells_def)
  have len: "length p \<le> maxMessageSize" using p(2) by (simp add: maxMessageSize_def)
  note r = readPaneHistory_write [OF p(1) [unfolded freshOf_def] len t, of "()" 7 "''next''"]
  have "msg_History ((newMessage () MsgTypePaneHistory 7)\<lparr>msg_History := StyledLineText sampleHistory, msg_StyledHistory := map wireLine sampleHistory\<rparr>) = [''aab'', ''x'']"
    by (simp add: newMessage_def sampleHistory_def StyledLineText_def)
  then show ?thesis using r corrupted_history_bounds [OF r] by blast
qed

end
