(* ===== verification/Terminal_Replay.thy ===== *)
theory Terminal_Replay
  imports Go_Strings Amux_Prelude
begin

text \<open>
  The screen of a terminal as a string that rebuilds it in another one (\<^verbatim>\<open>RenderWithCursor\<close> of
  \<^verbatim>\<open>mux/emulator.go\<close>, with the mouse modes of \<^verbatim>\<open>mux/emulator_mouse.go\<close>). The terminal is the
  interface \<^verbatim>\<open>TerminalEmulator\<close>, whose methods pass to the vt library: a record of functions, with
  the widths of runes and of strings and the comparison of looks, which are library code too.
\<close>

unbundle bit_operations_syntax

text \<open>Link and style of a cell are one value of any type, with the library's comparison.\<close>

record 'a ScreenCell =
  sc_Char :: string
  sc_Width :: int
  sc_Look :: 'a

record ('e, 'a) Emulator =
  emu_New :: "int \<Rightarrow> int \<Rightarrow> 'e"
  emu_Write :: "string \<Rightarrow> 'e \<Rightarrow> 'e"
  emu_Size :: "'e \<Rightarrow> int \<times> int"
  emu_CursorPosition :: "'e \<Rightarrow> int \<times> int"
  emu_CursorPhantom :: "'e \<Rightarrow> bool"
  emu_CursorHidden :: "'e \<Rightarrow> bool"
  emu_IsAltScreen :: "'e \<Rightarrow> bool"
  emu_mouseFlags :: "'e \<Rightarrow> uint32"
  emu_Render :: "'e \<Rightarrow> string"
  emu_LineWrapped :: "'e \<Rightarrow> int \<Rightarrow> bool"
  emu_CellAt :: "'e \<Rightarrow> int \<Rightarrow> int \<Rightarrow> 'a ScreenCell"
  look_Equal :: "'a \<Rightarrow> 'a \<Rightarrow> bool"
  look_Blank :: 'a
  rune_Width :: "nat \<Rightarrow> int"
  string_Width :: "string \<Rightarrow> int"

definition ScreenCell_Equal :: "('e, 'a) Emulator \<Rightarrow> 'a ScreenCell \<Rightarrow> 'a ScreenCell \<Rightarrow> bool" where
  "ScreenCell_Equal E c d \<longleftrightarrow> sc_Char c = sc_Char d \<and> sc_Width c = sc_Width d \<and> look_Equal E (sc_Look c) (sc_Look d)"

section \<open>Mouse modes\<close>

datatype MouseTrackingMode = MouseTrackingNone | MouseTrackingStandard | MouseTrackingButton | MouseTrackingAny

record MouseProtocol =
  mp_Tracking :: MouseTrackingMode
  mp_SGR :: bool

definition mouseModeStandard :: uint32 where "mouseModeStandard = 1"
definition mouseModeButton :: uint32 where "mouseModeButton = 2"
definition mouseModeAny :: uint32 where "mouseModeAny = 4"
definition mouseModeSGR :: uint32 where "mouseModeSGR = 8"

definition emulator_MouseProtocol :: "uint32 \<Rightarrow> MouseProtocol" where
  "emulator_MouseProtocol flags =
     \<lparr>mp_Tracking =
        (if flags AND mouseModeAny \<noteq> 0 then MouseTrackingAny
         else if flags AND mouseModeButton \<noteq> 0 then MouseTrackingButton
         else if flags AND mouseModeStandard \<noteq> 0 then MouseTrackingStandard
         else MouseTrackingNone),
      mp_SGR = (flags AND mouseModeSGR \<noteq> 0)\<rparr>"

definition escape :: string where "escape = [CHR 0x1b]"

definition renderMouseProtocol :: "MouseProtocol \<Rightarrow> string" where
  "renderMouseProtocol mouseProto =
     (case mp_Tracking mouseProto of
        MouseTrackingStandard \<Rightarrow> escape @ ''[?1000h'' @ escape @ ''[?1002l'' @ escape @ ''[?1003l''
      | MouseTrackingButton \<Rightarrow> escape @ ''[?1000l'' @ escape @ ''[?1002h'' @ escape @ ''[?1003l''
      | MouseTrackingAny \<Rightarrow> escape @ ''[?1000l'' @ escape @ ''[?1002l'' @ escape @ ''[?1003h''
      | MouseTrackingNone \<Rightarrow> escape @ ''[?1000l'' @ escape @ ''[?1002l'' @ escape @ ''[?1003l'') @
     (if mp_SGR mouseProto then escape @ ''[?1006h'' else escape @ ''[?1006l'')"

section \<open>Lines\<close>

fun splitNewlines :: "string \<Rightarrow> string list" where
  "splitNewlines [] = [[]]"
| "splitNewlines (c # cs) =
     (if c = CHR 0x0a then [] # splitNewlines cs
      else case splitNewlines cs of l # ls \<Rightarrow> (c # l) # ls | [] \<Rightarrow> [[c]])"

definition replayRenderLines :: "string \<Rightarrow> int \<Rightarrow> string list" where
  "replayRenderLines rendered height = (if height \<le> 0 then [] else take (nat height) (splitNewlines rendered))"

text \<open>\<^verbatim>\<open>%d\<close>, and the sequence that moves the cursor.\<close>

definition showInt :: "int \<Rightarrow> string" where
  "showInt i = (if i < 0 then ''-'' @ showNat (nat (- i)) else showNat (nat i))"

definition moveCursor :: "int \<Rightarrow> int \<Rightarrow> string" where
  "moveCursor row col = escape @ ''['' @ showInt row @ '';'' @ showInt col @ ''H''"

definition replayLineTargetWidth :: "('e, 'a) Emulator \<Rightarrow> 'e \<Rightarrow> int \<Rightarrow> int \<Rightarrow> int \<Rightarrow> int \<Rightarrow> int \<Rightarrow> int" where
  "replayLineTargetWidth E emu line width height cursorCol cursorRow =
     (if width \<le> 0 then 0
      else if line + 1 < height \<and> emu_LineWrapped E emu (line + 1) then width
      else if emu_LineWrapped E emu line then (if line = cursorRow \<and> cursorCol > 0 then cursorCol else 1)
      else 0)"

definition padReplayLineToWidth :: "('e, 'a) Emulator \<Rightarrow> string \<Rightarrow> int \<Rightarrow> string" where
  "padReplayLineToWidth E line width =
     (if width \<le> 0 \<or> string_Width E line \<ge> width then line
      else line @ replicate (nat (width - string_Width E line)) CHR '' '')"

text \<open>The row at which the soft-wrapped line of a row begins.\<close>

fun wrapStart :: "('e, 'a) Emulator \<Rightarrow> 'e \<Rightarrow> nat \<Rightarrow> nat" where
  "wrapStart E emu 0 = 0"
| "wrapStart E emu (Suc row) = (if emu_LineWrapped E emu (int (Suc row)) then wrapStart E emu row else Suc row)"

definition writePhantomCursorReplay :: "('e, 'a) Emulator \<Rightarrow> 'e \<Rightarrow> string list \<Rightarrow> int \<Rightarrow> int \<Rightarrow> int \<Rightarrow> int \<Rightarrow> string" where
  "writePhantomCursorReplay E emu lines width height cursorCol cursorRow =
     (if width \<le> 0 \<or> cursorRow < 0 \<or> cursorRow \<ge> int (length lines) then moveCursor (cursorRow + 1) (cursorCol + 1)
      else let start = wrapStart E emu (nat cursorRow) in
        concat (map (\<lambda>line.
          (if line = start then moveCursor (int line + 1) 1 else []) @
          padReplayLineToWidth E (lines ! line)
            (if int line = cursorRow then width else replayLineTargetWidth E emu (int line) width height cursorCol cursorRow))
          [start..<Suc (nat cursorRow)]))"

definition RenderWithCursor :: "('e, 'a) Emulator \<Rightarrow> 'e \<Rightarrow> string" where
  "RenderWithCursor E emu =
     (let (width, height) = emu_Size E emu;
          lines = replayRenderLines (emu_Render E emu) height;
          (col, row) = emu_CursorPosition E emu
      in (if emu_IsAltScreen E emu then escape @ ''[?1049h'' else escape @ ''[?1049l'') @
         (if emu_CursorHidden E emu then escape @ ''[?25l'' else escape @ ''[?25h'') @
         renderMouseProtocol (emulator_MouseProtocol (emu_mouseFlags E emu)) @
         concat (map (\<lambda>(i, line).
           (if emu_LineWrapped E emu (int i) then [] else moveCursor (int i + 1) 1) @
           padReplayLineToWidth E line (replayLineTargetWidth E emu (int i) width height col row))
           (zip [0..<length lines] lines)) @
         (if emu_CursorPhantom E emu then writePhantomCursorReplay E emu lines width height col row
          else moveCursor (row + 1) (col + 1)))"

end
