(* ===== verification/Local_Echo.thy ===== *)
theory Local_Echo
  imports Wire_Frames Terminal_Replay "HOL-Library.AList"
begin

text \<open>
  Predictive local echo: the predictor of a client (\<^verbatim>\<open>client/predictor.go\<close>) and the queue of input
  epochs of the server (\<^verbatim>\<open>server/client_conn.go\<close>). A predicted key is written to a shadow terminal that is
  drawn instead of the real one; the server tags pane output with the epoch of the input it answers, and the
  client compares the real terminal with its prediction. The terminal is the record of \<open>Terminal_Replay\<close>. The client's predictor exists (the \<^verbatim>\<open>nil\<close> guards do not apply).
\<close>

section \<open>Snapshots of a terminal\<close>

record 'a panePredictionSnapshot =
  snap_Width :: int
  snap_Height :: int
  snap_CursorCol :: int
  snap_CursorRow :: int
  snap_CursorHidden :: bool
  snap_Screen :: string
  snap_Cells :: "'a ScreenCell list"

definition capturePanePredictionSnapshot :: "('e, 'a) Emulator \<Rightarrow> 'e \<Rightarrow> 'a panePredictionSnapshot" where
  "capturePanePredictionSnapshot E emu =
     (let (w, h) = emu_Size E emu; (col, row) = emu_CursorPosition E emu
      in \<lparr>snap_Width = w, snap_Height = h, snap_CursorCol = col, snap_CursorRow = row, snap_CursorHidden = emu_CursorHidden E emu,
         snap_Screen = RenderWithCursor E emu, snap_Cells = concat (map (\<lambda>r. map (\<lambda>c. emu_CellAt E emu c r) [0..w - 1]) [0..h - 1])\<rparr>)"

definition cellAt :: "('e, 'a) Emulator \<Rightarrow> 'a panePredictionSnapshot \<Rightarrow> int \<Rightarrow> int \<Rightarrow> 'a ScreenCell" where
  "cellAt E s col row =
     (if col < 0 \<or> row < 0 \<or> col \<ge> snap_Width s \<or> row \<ge> snap_Height s then \<lparr>sc_Char = '' '', sc_Width = 1, sc_Look = look_Blank E\<rparr>
      else snap_Cells s ! nat (row * snap_Width s + col))"

definition snapshot_equal :: "('e, 'a) Emulator \<Rightarrow> 'a panePredictionSnapshot \<Rightarrow> 'a panePredictionSnapshot \<Rightarrow> bool" where
  "snapshot_equal E s other \<longleftrightarrow>
     \<not> (snap_Width s \<noteq> snap_Width other \<or> snap_Height s \<noteq> snap_Height other \<or> snap_CursorCol s \<noteq> snap_CursorCol other \<or>
        snap_CursorRow s \<noteq> snap_CursorRow other \<or> snap_CursorHidden s \<noteq> snap_CursorHidden other \<or>
        length (snap_Cells s) \<noteq> length (snap_Cells other)) \<and>
     list_all2 (ScreenCell_Equal E) (snap_Cells s) (snap_Cells other)"

section \<open>The predictor\<close>

datatype localEchoMode = localEchoModeOff | localEchoModeAuto | localEchoModeAlways
datatype localEchoStyle = localEchoStyleDim | localEchoStyleUnderline | localEchoStyleNone

definition localEchoAckWindow :: nat where "localEchoAckWindow = 3"
definition localEchoPasteBurstThreshold :: nat where "localEchoPasteBurstThreshold = 3"
definition localEchoPasteWindow :: int where "localEchoPasteWindow = 20 * 1000000"

record panePredictionContext =
  ctx_Width :: int
  ctx_Height :: int
  ctx_CursorCol :: int
  ctx_CursorRow :: int
  ctx_AltScreen :: bool
  ctx_CursorStyle :: string

record panePredictionBase =
  base_Width :: int
  base_Height :: int
  base_Screen :: string

record 'a pendingPrediction =
  pend_epoch :: uint32
  pend_data :: string
  pend_snapshot :: "'a panePredictionSnapshot"

record ('e, 'a) panePredictorState =
  ps_shadow :: "'e option"
  ps_pending :: "'a pendingPrediction list"
  ps_recentAcks :: "bool list"
  ps_recentPresses :: "int list"

record predictorReconcileResult =
  res_Matched :: bool
  res_Pending :: nat
  res_Changed :: bool

record ('e, 'a) predictor =
  pr_mode :: localEchoMode
  pr_style :: localEchoStyle
  pr_nextEpoch :: uint32
  pr_panes :: "(uint32 \<times> ('e, 'a) panePredictorState) list"

definition newPredictor :: "localEchoMode \<Rightarrow> localEchoStyle \<Rightarrow> ('e, 'a) predictor" where
  "newPredictor mode style = \<lparr>pr_mode = mode, pr_style = style, pr_nextEpoch = 0, pr_panes = []\<rparr>"

definition parseLocalEchoMode :: "string \<Rightarrow> localEchoMode" where
  "parseLocalEchoMode mode = (if mode = ''always'' then localEchoModeAlways else if mode = ''off'' then localEchoModeOff else localEchoModeAuto)"

definition parseLocalEchoStyle :: "string \<Rightarrow> localEchoStyle" where
  "parseLocalEchoStyle style =
     (if style = ''underline'' then localEchoStyleUnderline else if style = ''none'' then localEchoStyleNone else localEchoStyleDim)"

definition clearPane :: "uint32 \<Rightarrow> ('e, 'a) predictor \<Rightarrow> ('e, 'a) predictor" where
  "clearPane paneID p = p\<lparr>pr_panes := AList.delete paneID (pr_panes p)\<rparr>"

definition clear :: "('e, 'a) predictor \<Rightarrow> ('e, 'a) predictor" where
  "clear p = fold clearPane (map fst (pr_panes p)) p"

definition configure :: "string \<Rightarrow> string \<Rightarrow> ('e, 'a) predictor \<Rightarrow> ('e, 'a) predictor" where
  "configure mode style p =
     (let p1 = p\<lparr>pr_mode := parseLocalEchoMode mode, pr_style := parseLocalEchoStyle style\<rparr>
      in if pr_mode p1 = localEchoModeOff then clear p1 else p1)"

definition enabled :: "('e, 'a) predictor \<Rightarrow> bool" where
  "enabled p \<longleftrightarrow> pr_mode p \<noteq> localEchoModeOff"

definition prune :: "uint32 set \<Rightarrow> bool \<Rightarrow> ('e, 'a) predictor \<Rightarrow> ('e, 'a) predictor" where
  "prune valid clearAll p =
     (if clearAll then clear p
      else fold (\<lambda>paneID p. if paneID \<in> valid then p else clearPane paneID p) (map fst (pr_panes p)) p)"

text \<open>The state of a pane, empty for a pane without one; there is none for pane 0.\<close>

definition stateOf :: "uint32 \<Rightarrow> ('e, 'a) predictor \<Rightarrow> ('e, 'a) panePredictorState" where
  "stateOf paneID p =
     (case map_of (pr_panes p) paneID of
        Some state \<Rightarrow> state
      | None \<Rightarrow> \<lparr>ps_shadow = None, ps_pending = [], ps_recentAcks = [], ps_recentPresses = []\<rparr>)"

definition stateForPane :: "uint32 \<Rightarrow> ('e, 'a) predictor \<Rightarrow> ('e, 'a) panePredictorState option" where
  "stateForPane paneID p = (if paneID = 0 then None else Some (stateOf paneID p))"

definition putState :: "uint32 \<Rightarrow> ('e, 'a) panePredictorState \<Rightarrow> ('e, 'a) predictor \<Rightarrow> ('e, 'a) predictor" where
  "putState paneID state p = p\<lparr>pr_panes := AList.update paneID state (pr_panes p)\<rparr>"

definition nextPredictionEpoch :: "('e, 'a) predictor \<Rightarrow> uint32 \<times> ('e, 'a) predictor" where
  "nextPredictionEpoch p =
     (let e1 = pr_nextEpoch p + 1; e2 = (if e1 = 0 then e1 + 1 else e1) in (e2, p\<lparr>pr_nextEpoch := e2\<rparr>))"

definition trimPressHistory :: "int list \<Rightarrow> int \<Rightarrow> int list" where
  "trimPressHistory presses now = filter (\<lambda>ts. \<not> ts < now - localEchoPasteWindow) presses"

definition singlePrintableInput :: "('e, 'a) Emulator \<Rightarrow> string \<Rightarrow> (string \<times> int) option" where
  "singlePrintableInput E data =
     (case runes data of
        Some [r] \<Rightarrow> if isControl r then None else Some (data, if rune_Width E r < 1 then 1 else rune_Width E r)
      | _ \<Rightarrow> None)"

definition predictionUsesInsertCursor :: "string \<Rightarrow> bool" where
  "predictionUsesInsertCursor style \<longleftrightarrow> style = ''bar'' \<or> style = ''underline''"

definition hasRecentConfirmingAcks :: "('e, 'a) panePredictorState \<Rightarrow> bool" where
  "hasRecentConfirmingAcks state \<longleftrightarrow>
     \<not> length (ps_recentAcks state) < localEchoAckWindow \<and> list_all id (drop (length (ps_recentAcks state) - localEchoAckWindow) (ps_recentAcks state))"

text \<open>Whether a key is predicted; \<open>None\<close> for pane 0, whose missing state the code dereferences: it panics.\<close>

definition allowPrediction :: "('e, 'a) Emulator \<Rightarrow> uint32 \<Rightarrow> panePredictionContext \<Rightarrow> string \<Rightarrow> int \<Rightarrow> ('e, 'a) predictor \<Rightarrow>
    (bool \<times> ('e, 'a) predictor) option" where
  "allowPrediction E paneID ctx data now p =
     (if \<not> enabled p \<or> singlePrintableInput E data = None then Some (False, p)
      else case stateForPane paneID p of
        None \<Rightarrow> None
      | Some state0 \<Rightarrow>
          let state = state0\<lparr>ps_recentPresses := trimPressHistory (ps_recentPresses state0) now @ [now]\<rparr>;
              p1 = putState paneID state p
          in Some (if pr_mode p = localEchoModeAlways then True
              else if length (ps_recentPresses state) > localEchoPasteBurstThreshold then False
              else if ctx_Height ctx > 1 \<and> ctx_CursorRow ctx \<ge> ctx_Height ctx - 2 then False
              else if ctx_AltScreen ctx \<and> \<not> predictionUsesInsertCursor (ctx_CursorStyle ctx) then False
              else hasRecentConfirmingAcks state, p1))"

definition buildPredictionShadow :: "('e, 'a) Emulator \<Rightarrow> panePredictionBase \<Rightarrow> 'e option" where
  "buildPredictionShadow E base =
     (if base_Width base \<le> 0 \<or> base_Height base \<le> 0 then None
      else Some (emu_Write E (base_Screen base) (emu_New E (base_Width base) (base_Height base))))"

definition ensureShadow :: "('e, 'a) Emulator \<Rightarrow> panePredictionBase \<Rightarrow> ('e, 'a) panePredictorState \<Rightarrow> 'e option" where
  "ensureShadow E base state =
     (case ps_shadow state of
        Some s \<Rightarrow> if emu_Size E s = (base_Width base, base_Height base) then Some s else buildPredictionShadow E base
      | None \<Rightarrow> buildPredictionShadow E base)"

definition predictWithEpoch :: "('e, 'a) Emulator \<Rightarrow> uint32 \<Rightarrow> panePredictionBase \<Rightarrow> string \<Rightarrow> uint32 \<Rightarrow> ('e, 'a) predictor \<Rightarrow> bool \<times> ('e, 'a) predictor" where
  "predictWithEpoch E paneID base data epoch p =
     (case stateForPane paneID p of
        None \<Rightarrow> (False, p)
      | Some state \<Rightarrow>
          (case ensureShadow E base state of
             None \<Rightarrow> (False, putState paneID (state\<lparr>ps_shadow := None\<rparr>) p)
           | Some shadow \<Rightarrow>
               let shadow' = emu_Write E data shadow in
               (True, putState paneID (state\<lparr>ps_shadow := Some shadow',
                  ps_pending := ps_pending state @ [\<lparr>pend_epoch = epoch, pend_data = data, pend_snapshot = capturePanePredictionSnapshot E shadow'\<rparr>]\<rparr>) p)))"

definition predict :: "('e, 'a) Emulator \<Rightarrow> uint32 \<Rightarrow> panePredictionBase \<Rightarrow> string \<Rightarrow> ('e, 'a) predictor \<Rightarrow> uint32 \<times> bool \<times> ('e, 'a) predictor" where
  "predict E paneID base data p =
     (if \<not> enabled p \<or> singlePrintableInput E data = None then (0, False, p)
      else let (epoch, p1) = nextPredictionEpoch p in (epoch, predictWithEpoch E paneID base data epoch p1))"

definition prepareInput :: "('e, 'a) Emulator \<Rightarrow> uint32 \<Rightarrow> panePredictionContext \<Rightarrow> panePredictionBase \<Rightarrow> string \<Rightarrow> int \<Rightarrow> ('e, 'a) predictor \<Rightarrow>
    (uint32 \<times> bool \<times> ('e, 'a) predictor) option" where
  "prepareInput E paneID ctx base data now p =
     (if \<not> enabled p \<or> singlePrintableInput E data = None then Some (0, False, p)
      else case allowPrediction E paneID ctx data now p of
        None \<Rightarrow> None
      | Some (predicted, p1) \<Rightarrow>
          let (epoch, p2) = nextPredictionEpoch p1
          in if \<not> predicted then Some (epoch, False, p2) else Some (epoch, predictWithEpoch E paneID base data epoch p2))"

definition baseOf :: "('e, 'a) Emulator \<Rightarrow> 'e \<Rightarrow> panePredictionBase" where
  "baseOf E emu = \<lparr>base_Width = fst (emu_Size E emu), base_Height = snd (emu_Size E emu), base_Screen = RenderWithCursor E emu\<rparr>"

text \<open>
  The entry of the client: the active pane, whether it is in copy mode, and the context and base of its
  terminal if it has one.
\<close>

definition PrepareLocalEchoInput :: "('e, 'a) Emulator \<Rightarrow> bool \<Rightarrow> uint32 \<Rightarrow> bool \<Rightarrow> (panePredictionContext \<times> panePredictionBase) option \<Rightarrow>
    string \<Rightarrow> int \<Rightarrow> ('e, 'a) predictor \<Rightarrow> (uint32 \<times> bool \<times> ('e, 'a) predictor) option" where
  "PrepareLocalEchoInput E supported paneID inCopyMode terminal data now p =
     (if \<not> enabled p \<or> \<not> supported \<or> paneID = 0 \<or> inCopyMode then Some (0, False, p)
      else case terminal of
        None \<Rightarrow> Some (0, False, p)
      | Some (ctx, base) \<Rightarrow> prepareInput E paneID ctx base data now p)"

definition shadow_of :: "uint32 \<Rightarrow> ('e, 'a) predictor \<Rightarrow> 'e option" where
  "shadow_of paneID p = (case map_of (pr_panes p) paneID of None \<Rightarrow> None | Some state \<Rightarrow> ps_shadow state)"

definition recordAck :: "uint32 \<Rightarrow> bool \<Rightarrow> ('e, 'a) predictor \<Rightarrow> ('e, 'a) predictor" where
  "recordAck paneID confirming p =
     (if paneID = 0 then p
      else let state = stateOf paneID p; acks = ps_recentAcks state @ [confirming];
               acks' = (if length acks > localEchoAckWindow then drop (length acks - localEchoAckWindow) acks else acks)
           in putState paneID (state\<lparr>ps_recentAcks := acks'\<rparr>) p)"

text \<open>How many predictions an epoch answers: those up to the first with a later epoch.\<close>

fun answered :: "uint32 \<Rightarrow> 'a pendingPrediction list \<Rightarrow> nat" where
  "answered sourceEpoch [] = 0"
| "answered sourceEpoch (q # qs) = (if pend_epoch q > sourceEpoch then 0 else Suc (answered sourceEpoch qs))"

fun replay :: "('e, 'a) Emulator \<Rightarrow> 'a pendingPrediction list \<Rightarrow> 'e \<Rightarrow> 'a pendingPrediction list \<times> 'e" where
  "replay E [] s = ([], s)"
| "replay E (q # qs) s =
     (let s1 = emu_Write E (pend_data q) s; (qs', s2) = replay E qs s1
      in (q\<lparr>pend_snapshot := capturePanePredictionSnapshot E s1\<rparr> # qs', s2))"

definition reconcile :: "('e, 'a) Emulator \<Rightarrow> uint32 \<Rightarrow> 'a panePredictionSnapshot \<Rightarrow> uint32 \<Rightarrow> ('e, 'a) predictor \<Rightarrow> predictorReconcileResult \<times> ('e, 'a) predictor" where
  "reconcile E paneID confirmed sourceEpoch p =
     (let none = \<lparr>res_Matched = False, res_Pending = 0, res_Changed = False\<rparr> in
      if paneID = 0 then (none, p)
      else case map_of (pr_panes p) paneID of
        None \<Rightarrow> (none, p)
      | Some state \<Rightarrow>
          if sourceEpoch = 0 then (none\<lparr>res_Pending := length (ps_pending state)\<rparr>, p)
          else let n = answered sourceEpoch (ps_pending state) in
            if n = 0 then (none\<lparr>res_Pending := length (ps_pending state)\<rparr>, p)
            else
              let matched = snapshot_equal E (pend_snapshot (ps_pending state ! (n - 1))) confirmed;
                  rest = drop n (ps_pending state)
              in if matched then
                   (\<lparr>res_Matched = True, res_Pending = length rest, res_Changed = True\<rparr>,
                    if rest = [] then clearPane paneID p else putState paneID (state\<lparr>ps_pending := rest\<rparr>) p)
                 else if rest = [] then (\<lparr>res_Matched = False, res_Pending = 0, res_Changed = True\<rparr>, clearPane paneID p)
                 else case buildPredictionShadow E \<lparr>base_Width = snap_Width confirmed, base_Height = snap_Height confirmed, base_Screen = snap_Screen confirmed\<rparr> of
                     None \<Rightarrow> (\<lparr>res_Matched = False, res_Pending = 0, res_Changed = True\<rparr>, clearPane paneID p)
                   | Some shadow \<Rightarrow>
                       let (rest', shadow') = replay E rest shadow
                       in (\<lparr>res_Matched = False, res_Pending = length rest', res_Changed = True\<rparr>,
                           putState paneID (state\<lparr>ps_pending := rest', ps_shadow := Some shadow'\<rparr>) p))"

definition classifyPredictionAck :: "('e, 'a) Emulator \<Rightarrow> 'a panePredictionSnapshot \<Rightarrow> 'a panePredictionSnapshot \<Rightarrow> string \<Rightarrow> bool" where
  "classifyPredictionAck E old new data =
     (case singlePrintableInput E data of
        None \<Rightarrow> False
      | Some (ch, w) \<Rightarrow>
          \<not> (snap_CursorHidden old \<or> snap_CursorHidden new) \<and> snap_CursorRow old = snap_CursorRow new \<and>
          snap_CursorCol new = snap_CursorCol old + w \<and> sc_Char (cellAt E new (snap_CursorCol old) (snap_CursorRow old)) = ch)"

text \<open>Output of a pane with an epoch, as the client handles it: the terminals before and after, the classification, the comparison.\<close>

definition handleEcho :: "('e, 'a) Emulator \<Rightarrow> uint32 \<Rightarrow> string \<Rightarrow> uint32 \<Rightarrow> 'e \<times> ('e, 'a) predictor \<Rightarrow> predictorReconcileResult \<times> 'e \<times> ('e, 'a) predictor" where
  "handleEcho E paneID data sourceEpoch s =
     (case s of (emu, p) \<Rightarrow>
        let old = capturePanePredictionSnapshot E emu; emu' = emu_Write E data emu in
        if sourceEpoch \<noteq> 0 then
          let new = capturePanePredictionSnapshot E emu';
              (res, p') = reconcile E paneID new sourceEpoch (recordAck paneID (classifyPredictionAck E old new data) p)
          in (res, emu', p')
        else (\<lparr>res_Matched = False, res_Pending = 0, res_Changed = False\<rparr>, emu', p))"

section \<open>Epochs on the server\<close>

record pendingPredictionEpoch =
  pe_epoch :: uint32
  pe_remaining :: string

type_synonym predictions = "(uint32 \<times> pendingPredictionEpoch list) list"

definition notePredictionEpoch :: "bool \<Rightarrow> uint32 \<Rightarrow> uint32 \<Rightarrow> string \<Rightarrow> predictions \<Rightarrow> predictions" where
  "notePredictionEpoch supported paneID epoch data ps =
     (if paneID = 0 \<or> epoch = 0 \<or> \<not> supported \<or> data = [] then ps
      else AList.update paneID ((case map_of ps paneID of Some q \<Rightarrow> q | None \<Rightarrow> []) @ [\<lparr>pe_epoch = epoch, pe_remaining = data\<rparr>]) ps)"

text \<open>The common prefix of what is awaited and what came.\<close>

fun consumeEntry :: "string \<Rightarrow> string \<Rightarrow> string \<times> string" where
  "consumeEntry (r # rs) (d # ds) = (if r = d then consumeEntry rs ds else (r # rs, d # ds))"
| "consumeEntry rs ds = (rs, ds)"

text \<open>The loop over the queue: the last epoch that was answered, whether some byte was, and the queue.\<close>

fun consumeQueue :: "uint32 \<Rightarrow> bool \<Rightarrow> string \<Rightarrow> pendingPredictionEpoch list \<Rightarrow> uint32 \<times> bool \<times> pendingPredictionEpoch list" where
  "consumeQueue latest matched data [] = (latest, matched, [])"
| "consumeQueue latest matched data (entry # queue) =
     (let (rest, data') = consumeEntry (pe_remaining entry) data; matched' = (matched \<or> length rest < length (pe_remaining entry)) in
      if rest \<noteq> [] then (latest, matched', entry\<lparr>pe_remaining := rest\<rparr> # queue)
      else consumeQueue (pe_epoch entry) matched' data' queue)"

definition consumePredictionEpoch :: "uint32 \<Rightarrow> string \<Rightarrow> predictions \<Rightarrow> uint32 \<times> predictions" where
  "consumePredictionEpoch paneID data ps =
     (if paneID = 0 \<or> data = [] then (0, ps)
      else case map_of ps paneID of
        None \<Rightarrow> (0, ps)
      | Some [] \<Rightarrow> (0, ps)
      | Some (entry # queue) \<Rightarrow>
          (case consumeQueue 0 False data (entry # queue) of
             (latest, matched, queue') \<Rightarrow>
               if latest \<noteq> 0 then (latest, if queue' = [] then AList.delete paneID ps else AList.update paneID queue' ps)
               else if matched then (0, AList.update paneID queue' ps)
               else (pe_epoch entry, if tl queue' = [] then AList.delete paneID ps else AList.update paneID (tl queue') ps)))"

definition decoratePaneOutput :: "bool \<Rightarrow> uint32 \<Rightarrow> 'r ProtoMessage \<Rightarrow> predictions \<Rightarrow> 'r ProtoMessage \<times> predictions" where
  "decoratePaneOutput supported paneID msg ps =
     (if msg_SourceEpoch msg \<noteq> 0 \<or> \<not> supported then (msg, ps)
      else let (sourceEpoch, ps') = consumePredictionEpoch paneID (msg_PaneData msg) ps
           in if sourceEpoch = 0 then (msg, ps') else (msg\<lparr>msg_SourceEpoch := sourceEpoch\<rparr>, ps'))"

section \<open>Configuration\<close>

definition ResolveLocalEchoMode :: "string \<Rightarrow> string option" where
  "ResolveLocalEchoMode mode =
     (if mode = [] \<or> mode = ''auto'' then Some ''auto'' else if mode = ''off'' \<or> mode = ''always'' then Some mode else None)"

definition ResolveLocalEchoStyle :: "string \<Rightarrow> string option" where
  "ResolveLocalEchoStyle style =
     (if style = [] \<or> style = ''dim'' then Some ''dim'' else if style = ''underline'' \<or> style = ''none'' then Some style else None)"

text \<open>The settings of a configuration, or of none.\<close>

definition EffectiveLocalEchoMode :: "string option \<Rightarrow> string" where
  "EffectiveLocalEchoMode c =
     (case c of None \<Rightarrow> ''auto'' | Some mode \<Rightarrow> (case ResolveLocalEchoMode mode of None \<Rightarrow> ''auto'' | Some m \<Rightarrow> m))"

definition EffectiveLocalEchoStyle :: "string option \<Rightarrow> string" where
  "EffectiveLocalEchoStyle c =
     (case c of None \<Rightarrow> ''dim'' | Some style \<Rightarrow> (case ResolveLocalEchoStyle style of None \<Rightarrow> ''dim'' | Some m \<Rightarrow> m))"

end
