(* ===== verification/Local_Echo_Laws.thy ===== *)
theory Local_Echo_Laws
  imports Local_Echo State_Machine
begin

text \<open>
  Laws of local echo: the queue of the server under an echo, the predictor over any sequence of
  operations, and the predictions a run of typed keys leaves.
\<close>

section \<open>The queue of epochs\<close>

definition awaited :: "pendingPredictionEpoch list \<Rightarrow> string" where
  "awaited q = concat (map pe_remaining q)"

definition queue_ok :: "pendingPredictionEpoch list \<Rightarrow> bool" where
  "queue_ok q \<longleftrightarrow> list_all (\<lambda>e. pe_remaining e \<noteq> [] \<and> pe_epoch e \<noteq> 0) q"

lemma consumeEntry_prefix: "consumeEntry r (r @ d) = ([], d)"
  by (induction r) (cases d, simp_all)

lemma consumeEntry_part: "consumeEntry (d @ r) d = (r, [])"
  by (induction d) (cases r, simp_all)

text \<open>The part of the queue an echo completes, and what is left of it.\<close>

lemma consumeQueue_echo:
  assumes "queue_ok q" "awaited q = data @ rest"
  shows "\<exists>k q'. k \<le> length q \<and> consumeQueue latest matched data q = (if k = 0 then latest else pe_epoch (q ! (k - 1)), matched \<or> data \<noteq> [], q') \<and>
    map pe_epoch q' = drop k (map pe_epoch q) \<and> awaited q' = rest \<and> queue_ok q' \<and> awaited (take k q) = take (length (awaited (take k q))) data"
  using assms
proof (induction q arbitrary: latest matched data)
  case Nil
  then show ?case by (intro exI [of _ 0] exI [of _ "[]"]) (simp add: awaited_def)
next
  case (Cons e q)
  let ?r = "pe_remaining e"
  have e: "?r \<noteq> []" "pe_epoch e \<noteq> 0" "queue_ok q" using Cons.prems(1) by (auto simp: queue_ok_def)
  have aw: "?r @ awaited q = data @ rest" using Cons.prems(2) by (simp add: awaited_def)
  show ?case
  proof (cases "length ?r \<le> length data")
    case True
    then obtain d where d: "data = ?r @ d" "awaited q = d @ rest" using aw by (auto simp: append_eq_append_conv2)
    obtain k q' where k: "k \<le> length q" "consumeQueue (pe_epoch e) True d q = (if k = 0 then pe_epoch e else pe_epoch (q ! (k - 1)), True, q')"
      "map pe_epoch q' = drop k (map pe_epoch q)" "awaited q' = rest" "queue_ok q'" "awaited (take k q) = take (length (awaited (take k q))) d"
      using Cons.IH [OF e(3) d(2), of "pe_epoch e" True] by auto
    have "consumeQueue latest matched data (e # q) = consumeQueue (pe_epoch e) True d q"
      using e(1) by (simp add: d(1) consumeEntry_prefix)
    moreover have "data \<noteq> []" using e(1) d(1) by simp
    moreover have "awaited (take (Suc k) (e # q)) = take (length (awaited (take (Suc k) (e # q)))) data" using k(6) d(1) by (simp add: awaited_def)
    ultimately show ?thesis using k by (intro exI [of _ "Suc k"] exI [of _ q']) (cases k, simp_all)
  next
    case False
    then obtain r where r: "?r = data @ r" "r \<noteq> []" using aw by (auto simp: append_eq_append_conv2)
    then have "consumeQueue latest matched data (e # q) = (latest, matched \<or> data \<noteq> [], e\<lparr>pe_remaining := r\<rparr> # q)"
      by (simp add: consumeEntry_part)
    moreover have "awaited (e\<lparr>pe_remaining := r\<rparr> # q) = rest" using aw r(1) by (simp add: awaited_def)
    moreover have "queue_ok (e\<lparr>pe_remaining := r\<rparr> # q)" using e r(2) by (simp add: queue_ok_def)
    ultimately show ?thesis by (intro exI [of _ 0] exI [of _ "e\<lparr>pe_remaining := r\<rparr> # q"]) (simp add: awaited_def)
  qed
qed

lemma consumeQueue_tail: "queue_ok q \<Longrightarrow> q \<noteq> [] \<Longrightarrow> awaited q \<noteq> []"
  by (cases q) (auto simp: queue_ok_def awaited_def)

lemma consume_echo:
  assumes q: "map_of ps paneID = Some q" "queue_ok q" "awaited q = data @ rest" and d: "data \<noteq> []" "paneID \<noteq> 0"
  shows "\<exists>k ps'. k \<le> length q \<and> consumePredictionEpoch paneID data ps = (if k = 0 then 0 else pe_epoch (q ! (k - 1)), ps') \<and>
    (case map_of ps' paneID of None \<Rightarrow> rest = [] \<and> k = length q | Some q' \<Rightarrow> q' \<noteq> [] \<and> queue_ok q' \<and> awaited q' = rest \<and> map pe_epoch q' = drop k (map pe_epoch q)) \<and>
    awaited (take k q) = take (length (awaited (take k q))) data \<and> (\<forall>a. a \<noteq> paneID \<longrightarrow> map_of ps' a = map_of ps a)"
proof -
  obtain e q0 where ne: "q = e # q0" using q(3) d(1) by (cases q) (auto simp: awaited_def)
  obtain k q' where k: "k \<le> length q" "consumeQueue 0 False data q = (if k = 0 then 0 else pe_epoch (q ! (k - 1)), True, q')"
    "map pe_epoch q' = drop k (map pe_epoch q)" "awaited q' = rest" "queue_ok q'" "awaited (take k q) = take (length (awaited (take k q))) data"
    using consumeQueue_echo [OF q(2,3), of 0 False] d(1) by auto
  have nz: "k \<noteq> 0 \<Longrightarrow> pe_epoch (q ! (k - 1)) \<noteq> 0" using q(2) k(1) by (cases k) (auto simp: queue_ok_def list_all_length)
  have len: "length q' = length q - k" using arg_cong [OF k(3), of length] by simp
  let ?ps = "if k \<noteq> 0 \<and> q' = [] then AList.delete paneID ps else AList.update paneID q' ps"
  have c: "consumePredictionEpoch paneID data ps = (if k = 0 then 0 else pe_epoch (q ! (k - 1)), ?ps)"
    using k(2) nz d q(1) ne by (cases "k = 0") (simp_all add: consumePredictionEpoch_def)
  have "q' \<noteq> []" if "k = 0" using that len ne by auto
  moreover have "rest = [] \<and> k = length q" if "q' = []" using that k(1,4) len by (simp add: awaited_def)
  ultimately have "case map_of ?ps paneID of None \<Rightarrow> rest = [] \<and> k = length q | Some q' \<Rightarrow> q' \<noteq> [] \<and> queue_ok q' \<and> awaited q' = rest \<and> map pe_epoch q' = drop k (map pe_epoch q)"
    using k(3-5) by (auto simp: update_conv' delete_conv')
  moreover have "\<forall>a. a \<noteq> paneID \<longrightarrow> map_of ?ps a = map_of ps a" by (auto simp: update_conv' delete_conv')
  ultimately show ?thesis using c k(1,6) by blast
qed

section \<open>The predictor over time\<close>

text \<open>
  At most three acknowledgements are kept; a shadow terminal is drawn exactly while predictions are
  pending, and it is the one the last of them predicts.
\<close>

definition state_ok :: "('e, 'a) Emulator \<Rightarrow> ('e, 'a) panePredictorState \<Rightarrow> bool" where
  "state_ok E s \<longleftrightarrow> length (ps_recentAcks s) \<le> localEchoAckWindow \<and>
     (ps_shadow s = None \<longleftrightarrow> ps_pending s = []) \<and>
     (\<forall>e. ps_shadow s = Some e \<longrightarrow> pend_snapshot (last (ps_pending s)) = capturePanePredictionSnapshot E e)"

definition predictor_ok :: "('e, 'a) Emulator \<Rightarrow> ('e, 'a) predictor \<Rightarrow> bool" where
  "predictor_ok E p \<longleftrightarrow>
     (\<forall>a s. map_of (pr_panes p) a = Some s \<longrightarrow> a \<noteq> 0 \<and> state_ok E s \<and> (pr_mode p = localEchoModeOff \<longrightarrow> ps_pending s = []))"

datatype 'a echo_op =
    Configure string string
  | Prepare bool uint32 bool "(panePredictionContext \<times> panePredictionBase) option" string int
  | RecordAck uint32 bool
  | Reconcile uint32 "'a panePredictionSnapshot" uint32
  | Prune "uint32 set" bool

fun echo_perform :: "('e, 'a) Emulator \<Rightarrow> 'a echo_op \<Rightarrow> ('e, 'a) predictor \<Rightarrow> ('e, 'a) predictor" where
  "echo_perform E (Configure mode style) p = configure mode style p"
| "echo_perform E (Prepare supported paneID inCopyMode terminal data now) p =
     (case PrepareLocalEchoInput E supported paneID inCopyMode terminal data now p of Some (epoch, predicted, p') \<Rightarrow> p' | None \<Rightarrow> p)"
| "echo_perform E (RecordAck paneID confirming) p = recordAck paneID confirming p"
| "echo_perform E (Reconcile paneID confirmed epoch) p = snd (reconcile E paneID confirmed epoch p)"
| "echo_perform E (Prune valid clearAll) p = prune valid clearAll p"

text \<open>The terminals of panes are not empty.\<close>

fun echo_allowed :: "('e, 'a) predictor \<Rightarrow> 'a echo_op \<Rightarrow> bool" where
  "echo_allowed p (Prepare supported paneID inCopyMode (Some (ctx, base)) data now) \<longleftrightarrow> 0 < base_Width base \<and> 0 < base_Height base"
| "echo_allowed p _ \<longleftrightarrow> True"

lemma clear_panes [simp]: "pr_panes (clear p) = []" "pr_mode (clear p) = pr_mode p" "pr_nextEpoch (clear p) = pr_nextEpoch p"
proof -
  have f: "pr_panes (fold clearPane ks p) = filter (\<lambda>x. fst x \<notin> set ks) (pr_panes p) \<and> pr_mode (fold clearPane ks p) = pr_mode p \<and>
      pr_nextEpoch (fold clearPane ks p) = pr_nextEpoch p" for ks and p :: "('a, 'b) predictor"
    by (induction ks arbitrary: p) (auto simp: clearPane_def AList.delete_eq intro!: filter_cong)
  show "pr_panes (clear p) = []" "pr_mode (clear p) = pr_mode p" "pr_nextEpoch (clear p) = pr_nextEpoch p"
    using f [of "map fst (pr_panes p)" p] by (auto simp: clear_def filter_empty_conv)
qed

lemma clearPane_ok: "predictor_ok E p \<Longrightarrow> predictor_ok E (clearPane a p)"
  by (auto simp: predictor_ok_def clearPane_def delete_conv' split: if_splits)

lemma putState_ok:
  "predictor_ok E p \<Longrightarrow> a \<noteq> 0 \<Longrightarrow> state_ok E s \<Longrightarrow> (pr_mode p = localEchoModeOff \<Longrightarrow> ps_pending s = []) \<Longrightarrow> predictor_ok E (putState a s p)"
  by (auto simp: predictor_ok_def putState_def update_conv' split: if_splits)

lemma stateOf_ok: "predictor_ok E p \<Longrightarrow> state_ok E (stateOf a p)" "predictor_ok E p \<Longrightarrow> pr_mode p = localEchoModeOff \<Longrightarrow> ps_pending (stateOf a p) = []"
  by (auto simp: predictor_ok_def stateOf_def state_ok_def split: option.splits)

lemma nextEpoch:
  "nextPredictionEpoch p = (e, p') \<Longrightarrow> e \<noteq> 0 \<and> pr_panes p' = pr_panes p \<and> pr_mode p' = pr_mode p \<and> pr_nextEpoch p' = e"
  by (auto simp: nextPredictionEpoch_def Let_def split: if_splits)

lemma predictor_ok_cong: "pr_panes p' = pr_panes p \<Longrightarrow> pr_mode p' = pr_mode p \<Longrightarrow> predictor_ok E p' = predictor_ok E p"
  by (simp add: predictor_ok_def)

lemma predictor_fields [simp]:
  "pr_mode (putState a s p) = pr_mode p" "pr_mode (clearPane a p) = pr_mode p"
  "pr_nextEpoch (putState a s p) = pr_nextEpoch p" "pr_nextEpoch (clearPane a p) = pr_nextEpoch p"
  by (simp_all add: putState_def clearPane_def)

lemma predictWithEpoch_ok:
  assumes "predictor_ok E p" "enabled p" "0 < base_Width base" "0 < base_Height base"
  shows "predictor_ok E (snd (predictWithEpoch E paneID base data epoch p))"
proof (cases "paneID = 0")
  case False
  have "ensureShadow E base (stateOf paneID p) \<noteq> None"
    using assms(3,4) by (simp add: ensureShadow_def buildPredictionShadow_def split: option.split)
  then obtain s where s: "ensureShadow E base (stateOf paneID p) = Some s" by blast
  have "state_ok E ((stateOf paneID p)\<lparr>ps_shadow := Some (emu_Write E data s), ps_pending := ps_pending (stateOf paneID p) @
      [\<lparr>pend_epoch = epoch, pend_data = data, pend_snapshot = capturePanePredictionSnapshot E (emu_Write E data s)\<rparr>]\<rparr>)"
    using stateOf_ok(1) [OF assms(1), of paneID] by (simp add: state_ok_def)
  then show ?thesis using putState_ok [OF assms(1) False] assms(2) s False
    by (simp add: predictWithEpoch_def stateForPane_def enabled_def Let_def)
qed (simp add: predictWithEpoch_def stateForPane_def assms(1))

lemma allowPrediction_ok:
  assumes "predictor_ok E p" "allowPrediction E paneID ctx data now p = Some (b, p1)"
  shows "predictor_ok E p1 \<and> pr_mode p1 = pr_mode p"
proof -
  have "state_ok E ((stateOf paneID p)\<lparr>ps_recentPresses := t\<rparr>)" for t using stateOf_ok(1) [OF assms(1), of paneID] by (simp add: state_ok_def)
  then show ?thesis using putState_ok [OF assms(1), of paneID] stateOf_ok(2) [OF assms(1), of paneID] assms
    by (auto simp: allowPrediction_def stateForPane_def Let_def split: if_splits)
qed

lemma prepareInput_ok:
  assumes "predictor_ok E p" "prepareInput E paneID ctx base data now p = Some (epoch, predicted, p')" "0 < base_Width base" "0 < base_Height base"
  shows "predictor_ok E p'"
proof (cases "enabled p \<and> singlePrintableInput E data \<noteq> None")
  case True
  then obtain b p1 where a: "allowPrediction E paneID ctx data now p = Some (b, p1)" using assms(2) by (auto simp: prepareInput_def split: option.splits)
  obtain e p2 where n: "nextPredictionEpoch p1 = (e, p2)" by (metis surj_pair)
  have p2: "predictor_ok E p2" "pr_mode p2 = pr_mode p"
    using nextEpoch [OF n] allowPrediction_ok [OF assms(1) a] predictor_ok_cong [of p2 p1 E] by simp_all
  then have "enabled p2" using True by (simp add: enabled_def)
  then show ?thesis using True predictWithEpoch_ok [OF p2(1) _ assms(3,4), of paneID data e] p2(1) assms(2)
    by (auto simp: prepareInput_def a n split: if_splits)
next
  case False
  then have "prepareInput E paneID ctx base data now p = Some (0, False, p)" unfolding prepareInput_def by argo
  then show ?thesis using assms(1,2) by simp
qed

text \<open>The entry of the client never panics, and keeps the invariant.\<close>

lemma PrepareLocalEchoInput_total: "PrepareLocalEchoInput E supported paneID inCopyMode terminal data now p \<noteq> None"
  by (auto simp: PrepareLocalEchoInput_def prepareInput_def allowPrediction_def stateForPane_def Let_def split: option.splits prod.splits)

lemma Prepare_ok:
  assumes "predictor_ok E p" "echo_allowed p (Prepare supported paneID inCopyMode terminal data now)"
  shows "predictor_ok E (echo_perform E (Prepare supported paneID inCopyMode terminal data now) p)"
  using assms prepareInput_ok [OF assms(1)]
  by (cases terminal) (auto simp: PrepareLocalEchoInput_def split: option.split)

lemma state_ok_acks: "state_ok E s \<Longrightarrow> length acks \<le> localEchoAckWindow \<Longrightarrow> state_ok E (s\<lparr>ps_recentAcks := acks\<rparr>)"
  by (simp add: state_ok_def)

lemma recordAck_ok: "predictor_ok E p \<Longrightarrow> predictor_ok E (recordAck a c p)"
proof (cases "a = 0")
  case False
  assume p: "predictor_ok E p"
  let ?s = "stateOf a p"
  let ?acks = "if length (ps_recentAcks ?s @ [c]) > localEchoAckWindow then drop (length (ps_recentAcks ?s @ [c]) - localEchoAckWindow) (ps_recentAcks ?s @ [c]) else ps_recentAcks ?s @ [c]"
  have "length ?acks \<le> localEchoAckWindow" by (simp add: localEchoAckWindow_def)
  then have "state_ok E (?s\<lparr>ps_recentAcks := ?acks\<rparr>)" by (rule state_ok_acks [OF stateOf_ok(1) [OF p]])
  then show ?thesis using putState_ok [OF p False] stateOf_ok(2) [OF p, of a] False by (simp add: recordAck_def Let_def)
qed (simp add: recordAck_def)

lemma replay_ok:
  "replay E qs s = (qs', s') \<Longrightarrow> length qs' = length qs \<and> map pend_epoch qs' = map pend_epoch qs \<and>
    (qs \<noteq> [] \<longrightarrow> pend_snapshot (last qs') = capturePanePredictionSnapshot E s')"
  by (induction E qs s arbitrary: qs' s' rule: replay.induct) (fastforce simp: Let_def split: prod.splits)+

lemma answered_le: "answered e qs \<le> length qs"
  by (induction qs) auto

lemma reconcile_ok:
  assumes p: "predictor_ok E p"
  shows "predictor_ok E (snd (reconcile E paneID confirmed e p))"
proof (cases "paneID = 0 \<or> map_of (pr_panes p) paneID = None \<or> e = 0 \<or> answered e (ps_pending (stateOf paneID p)) = 0")
  case True
  then show ?thesis using p by (auto simp: reconcile_def stateOf_def Let_def split: option.splits)
next
  case False
  then obtain s where s: "map_of (pr_panes p) paneID = Some s" "paneID \<noteq> 0" "e \<noteq> 0" "answered e (ps_pending s) \<noteq> 0" by (auto simp: stateOf_def)
  have ok: "state_ok E s" using p s by (auto simp: predictor_ok_def)
  have on: "pr_mode p \<noteq> localEchoModeOff" using p s answered_le [of e "ps_pending s"] by (auto simp: predictor_ok_def)
  let ?rest = "drop (answered e (ps_pending s)) (ps_pending s)"
  have rest: "state_ok E (s\<lparr>ps_pending := ?rest\<rparr>)" if "?rest \<noteq> []"
    using ok that by (auto simp: state_ok_def last_drop split: option.splits)
  have replayed: "state_ok E (s\<lparr>ps_pending := qs, ps_shadow := Some sh\<rparr>)" if "?rest \<noteq> []" "replay E ?rest s0 = (qs, sh)" for s0 qs sh
    using replay_ok [OF that(2)] that(1) ok by (auto simp: state_ok_def)
  show ?thesis
    using s p rest replayed clearPane_ok [OF p, of paneID] putState_ok [OF p s(2)] on
    by (simp add: reconcile_def Let_def buildPredictionShadow_def split: prod.splits)
qed

lemma prune_ok: "predictor_ok E p \<Longrightarrow> predictor_ok E (prune valid clearAll p)"
proof -
  assume p: "predictor_ok E p"
  have f: "predictor_ok E (fold (\<lambda>paneID p. if paneID \<in> valid then p else clearPane paneID p) ks q)" if "predictor_ok E q" for ks q
    using that by (induction ks arbitrary: q) (simp_all add: clearPane_ok)
  have "predictor_ok E (clear p)" by (simp add: predictor_ok_def)
  then show ?thesis using f [OF p] by (simp add: prune_def)
qed

lemma configure_ok: "predictor_ok E p \<Longrightarrow> predictor_ok E (configure mode style p)"
  by (auto simp: configure_def predictor_ok_def Let_def)

definition echo_init :: "('e, 'a) predictor \<Rightarrow> bool" where
  "echo_init p \<longleftrightarrow> (\<exists>mode style. p = newPredictor mode style)"

interpretation echo: invariant_system echo_init echo_allowed "echo_perform E" "predictor_ok E" for E :: "('e, 'a) Emulator"
proof
  fix p :: "('e, 'a) predictor"
  assume "echo_init p"
  then show "predictor_ok E p" by (auto simp: echo_init_def newPredictor_def predictor_ok_def)
next
  fix p :: "('e, 'a) predictor" and op
  assume p: "predictor_ok E p" and a: "echo_allowed p op"
  then show "predictor_ok E (echo_perform E op p)"
  proof (cases op)
    case (Prepare supported paneID inCopyMode terminal data now)
    then show ?thesis using Prepare_ok [OF p] a by simp
  qed (simp_all add: configure_ok recordAck_ok reconcile_ok prune_ok)
qed

end
