(* ===== verification/Local_Echo_Run.thy ===== *)
theory Local_Echo_Run
  imports Local_Echo_Laws
begin

text \<open>
  A client and its server with the messages between them: keys are typed and predicted, the server notes their
  epochs, the programs in the panes print whatever they print, the server tags the output with epochs, and
  the client compares. Messages arrive in the order in which they were sent; typing, the server, the programs and the client
  take turns in any way.
\<close>

section \<open>The composed system\<close>

text \<open>
  An input message is the pane in which the client predicted it (which the message does not carry), its epoch and its
  bytes; an output message is the pane, the epoch and the bytes.
\<close>

record ('e, 'a) echo_sys =
  sys_client :: "('e, 'a) predictor"
  sys_terminals :: "uint32 \<Rightarrow> 'e"
  sys_inputs :: "(uint32 \<times> uint32 \<times> string) list"
  sys_server :: predictions
  sys_outputs :: "(uint32 \<times> uint32 \<times> string) list"

datatype 'e echo_event =
    TypeKey uint32 bool panePredictionContext string int
  | ServerInput uint32
  | ProgramOutput uint32 string
  | ClientOutput
  | Relayout "uint32 set" bool "uint32 \<Rightarrow> 'e"
  | Settings string string

fun sys_perform :: "('e, 'a) Emulator \<Rightarrow> 'e echo_event \<Rightarrow> ('e, 'a) echo_sys \<Rightarrow> ('e, 'a) echo_sys" where
  "sys_perform E (TypeKey paneID inCopyMode ctx data now) sys =
     (case PrepareLocalEchoInput E True paneID inCopyMode (Some (ctx, baseOf E (sys_terminals sys paneID))) data now (sys_client sys) of
        None \<Rightarrow> sys
      | Some (epoch, predicted, p) \<Rightarrow> sys\<lparr>sys_client := p, sys_inputs := sys_inputs sys @ [(paneID, epoch, data)]\<rparr>)"
| "sys_perform E (ServerInput target) sys =
     (case sys_inputs sys of
        [] \<Rightarrow> sys
      | (paneID, epoch, data) # rest \<Rightarrow>
          sys\<lparr>sys_inputs := rest, sys_server := notePredictionEpoch True target epoch data (sys_server sys)\<rparr>)"
| "sys_perform E (ProgramOutput paneID data) sys =
     (case consumePredictionEpoch paneID data (sys_server sys) of
        (epoch, ps) \<Rightarrow> sys\<lparr>sys_server := ps, sys_outputs := sys_outputs sys @ [(paneID, epoch, data)]\<rparr>)"
| "sys_perform E ClientOutput sys =
     (case sys_outputs sys of
        [] \<Rightarrow> sys
      | (paneID, epoch, data) # rest \<Rightarrow>
          (case handleEcho E paneID data epoch (sys_terminals sys paneID, sys_client sys) of
             (res, emu, p) \<Rightarrow> sys\<lparr>sys_client := p, sys_terminals := (sys_terminals sys)(paneID := emu), sys_outputs := rest\<rparr>))"
| "sys_perform E (Relayout valid clearAll terminals) sys =
     sys\<lparr>sys_client := prune valid clearAll (sys_client sys), sys_terminals := terminals\<rparr>"
| "sys_perform E (Settings mode style) sys = sys\<lparr>sys_client := configure mode style (sys_client sys)\<rparr>"

definition sys_init :: "('e, 'a) echo_sys \<Rightarrow> bool" where
  "sys_init sys \<longleftrightarrow> (\<exists>mode style. sys_client sys = newPredictor mode style) \<and> sys_inputs sys = [] \<and> sys_server sys = [] \<and> sys_outputs sys = []"

text \<open>
  The server writes an input that has an epoch to the pane in which the client predicted it (its focus has not moved
  meanwhile), keys are typed into terminals that are not empty, and the 32 bits of the epochs are enough for them.
\<close>

fun sys_allowed :: "('e, 'a) Emulator \<Rightarrow> ('e, 'a) echo_sys \<Rightarrow> 'e echo_event \<Rightarrow> bool" where
  "sys_allowed E sys (TypeKey paneID inCopyMode ctx data now) \<longleftrightarrow> pr_nextEpoch (sys_client sys) + 1 \<noteq> 0 \<and>
     0 < fst (emu_Size E (sys_terminals sys paneID)) \<and> 0 < snd (emu_Size E (sys_terminals sys paneID))"
| "sys_allowed E sys (ServerInput target) \<longleftrightarrow>
     (case sys_inputs sys of [] \<Rightarrow> True | (paneID, epoch, data) # rest \<Rightarrow> epoch = 0 \<or> target = paneID)"
| "sys_allowed E sys _ \<longleftrightarrow> True"

section \<open>Epochs\<close>

definition pendingEpochs :: "uint32 \<Rightarrow> ('e, 'a) predictor \<Rightarrow> uint32 list" where
  "pendingEpochs paneID p = (case map_of (pr_panes p) paneID of None \<Rightarrow> [] | Some s \<Rightarrow> map pend_epoch (ps_pending s))"

definition queueEpochs :: "uint32 \<Rightarrow> predictions \<Rightarrow> uint32 list" where
  "queueEpochs paneID ps = (case map_of ps paneID of None \<Rightarrow> [] | Some q \<Rightarrow> map pe_epoch q)"

definition messageEpochs :: "uint32 \<Rightarrow> (uint32 \<times> uint32 \<times> string) list \<Rightarrow> uint32 list" where
  "messageEpochs paneID msgs = map (\<lambda>(a, e, d). e) (filter (\<lambda>(a, e, d). a = paneID \<and> e \<noteq> 0) msgs)"

text \<open>The answers of a pane that are still under way: in messages to the client, awaited by the server, in messages to the server.\<close>

definition unanswered :: "uint32 \<Rightarrow> ('e, 'a) echo_sys \<Rightarrow> uint32 list" where
  "unanswered paneID sys = queueEpochs paneID (sys_server sys) @ messageEpochs paneID (sys_inputs sys)"

definition underway :: "uint32 \<Rightarrow> ('e, 'a) echo_sys \<Rightarrow> uint32 list" where
  "underway paneID sys = messageEpochs paneID (sys_outputs sys) @ unanswered paneID sys"

lemma messageEpochs_simps [simp]:
  "messageEpochs a [] = []" "messageEpochs a (m # ms) = (if fst m = a \<and> fst (snd m) \<noteq> 0 then fst (snd m) # messageEpochs a ms else messageEpochs a ms)"
  "messageEpochs a (ms @ ns) = messageEpochs a ms @ messageEpochs a ns"
  by (simp_all add: messageEpochs_def case_prod_beta)

text \<open>What an output takes from the queue of the server, and the epoch it is tagged with.\<close>

lemma consumeQueue_epochs:
  "consumeQueue latest matched data q = (l, m, q') \<Longrightarrow>
    \<exists>k \<le> length q. map pe_epoch q' = drop k (map pe_epoch q) \<and> l = (if k = 0 then latest else pe_epoch (q ! (k - 1)))"
proof (induction q arbitrary: latest matched data)
  case (Cons e q)
  obtain r d where r: "consumeEntry (pe_remaining e) data = (r, d)" by fastforce
  show ?case
  proof (cases "r = []")
    case True
    then obtain k where "k \<le> length q" "map pe_epoch q' = drop k (map pe_epoch q)" "l = (if k = 0 then pe_epoch e else pe_epoch (q ! (k - 1)))"
      using Cons.IH [of "pe_epoch e"] Cons.prems r by (auto simp: Let_def)
    then show ?thesis by (intro exI [of _ "Suc k"]) (cases k, simp_all)
  next
    case False
    then show ?thesis using Cons.prems r by (intro exI [of _ 0]) (auto simp: Let_def)
  qed
qed simp

lemma consume_epochs:
  assumes "consumePredictionEpoch a data ps = (epoch, ps')" "0 \<notin> set (queueEpochs a ps)"
  shows "(\<exists>k \<le> length (queueEpochs a ps). queueEpochs a ps' = drop k (queueEpochs a ps) \<and>
      epoch = (if k = 0 then 0 else queueEpochs a ps ! (k - 1))) \<and> (\<forall>b. b \<noteq> a \<longrightarrow> queueEpochs b ps' = queueEpochs b ps)"
proof (cases "a = 0 \<or> data = [] \<or> queueEpochs a ps = []")
  case True
  then have "epoch = 0 \<and> ps' = ps" using assms(1) by (auto simp: consumePredictionEpoch_def queueEpochs_def split: option.splits list.splits)
  then show ?thesis by auto
next
  case False
  then obtain e q where q: "map_of ps a = Some (e # q)" by (cases "map_of ps a"; cases "the (map_of ps a)") (auto simp: queueEpochs_def)
  obtain l m q' where c: "consumeQueue 0 False data (e # q) = (l, m, q')" by (metis prod_cases3)
  obtain k where k: "k \<le> length (e # q)" "map pe_epoch q' = drop k (map pe_epoch (e # q))" "l = (if k = 0 then 0 else pe_epoch ((e # q) ! (k - 1)))"
    using consumeQueue_epochs [OF c] by blast
  have "pe_epoch ((e # q) ! (k - 1)) \<in> set (queueEpochs a ps)" if "k \<noteq> 0"
    using k(1) that nth_mem [of "k - 1" "map pe_epoch (e # q)"] q by (simp add: queueEpochs_def nth_Cons')
  then have l: "l = 0 \<longleftrightarrow> k = 0" using k(3) assms(2) by auto
  have tl: "map pe_epoch (tl q') = drop 1 (map pe_epoch (e # q))" if "k = 0" using k(2) that by (simp add: map_tl)
  have other: "\<forall>b. b \<noteq> a \<longrightarrow> queueEpochs b ps' = queueEpochs b ps"
    using assms(1) False q c by (auto simp: consumePredictionEpoch_def queueEpochs_def update_conv' delete_conv' split: if_splits)
  have "\<exists>k \<le> length (queueEpochs a ps). queueEpochs a ps' = drop k (queueEpochs a ps) \<and> epoch = (if k = 0 then 0 else queueEpochs a ps ! (k - 1))"
  proof (cases "l \<noteq> 0 \<or> m")
    case True
    then have "queueEpochs a ps' = map pe_epoch q'" "epoch = l"
      using assms(1) False q c by (auto simp: consumePredictionEpoch_def queueEpochs_def update_conv' delete_conv' split: if_splits)
    then show ?thesis using k q by (intro exI [of _ k]) (auto simp: queueEpochs_def nth_Cons')
  next
    case no: False
    then have "queueEpochs a ps' = map pe_epoch (tl q')" "epoch = pe_epoch e"
      using assms(1) False q c by (auto simp: consumePredictionEpoch_def queueEpochs_def update_conv' delete_conv' split: if_splits)
    then show ?thesis using tl l no q by (intro exI [of _ 1]) (simp add: queueEpochs_def)
  qed
  then show ?thesis using other by blast
qed

lemma note_epochs:
  "queueEpochs b (notePredictionEpoch True a epoch data ps) =
    queueEpochs b ps @ (if b = a \<and> a \<noteq> 0 \<and> epoch \<noteq> 0 \<and> data \<noteq> [] then [epoch] else [])"
  by (auto simp: notePredictionEpoch_def queueEpochs_def update_conv' split: option.splits)

section \<open>Predictions\<close>

lemma pendingEpochs_putState: "pendingEpochs b (putState a s p) = (if b = a then map pend_epoch (ps_pending s) else pendingEpochs b p)"
  by (simp add: pendingEpochs_def putState_def update_conv')

lemma pendingEpochs_stateOf: "pendingEpochs a p = map pend_epoch (ps_pending (stateOf a p))"
  by (simp add: pendingEpochs_def stateOf_def split: option.split)

lemma answered_rest:
  "sorted_wrt (<) (map pend_epoch qs) \<Longrightarrow> x \<in> set (map pend_epoch (drop (answered e qs) qs)) \<Longrightarrow> e < x"
  by (induction qs) (auto split: if_splits)

lemma recordAck_epochs [simp]:
  "pendingEpochs b (recordAck a c p) = pendingEpochs b p" "pr_nextEpoch (recordAck a c p) = pr_nextEpoch p"
  by (auto simp: recordAck_def pendingEpochs_def putState_def update_conv' stateOf_def Let_def split: option.splits)

lemma reconcile_cases:
  fixes p :: "('e, 'a) predictor"
  obtains (same) "snd (reconcile E a c e p) = p" "a = 0 \<or> e = 0 \<or> answered e (ps_pending (stateOf a p)) = 0"
  | (cleared) "snd (reconcile E a c e p) = clearPane a p"
  | (rest) s where "snd (reconcile E a c e p) = putState a s p"
      "map pend_epoch (ps_pending s) = map pend_epoch (drop (answered e (ps_pending (stateOf a p))) (ps_pending (stateOf a p)))"
proof (cases "a = 0 \<or> e = 0 \<or> map_of (pr_panes p) a = None \<or> answered e (ps_pending (stateOf a p)) = 0")
  case True
  then have "snd (reconcile E a c e p) = p" by (auto simp: reconcile_def stateOf_def Let_def split: option.split)
  moreover have "a = 0 \<or> e = 0 \<or> answered e (ps_pending (stateOf a p)) = 0" using True by (elim disjE) (simp_all add: stateOf_def)
  ultimately show ?thesis by (rule same)
next
  case False
  then obtain s where s: "map_of (pr_panes p) a = Some s" "stateOf a p = s" by (auto simp: stateOf_def)
  let ?rest = "drop (answered e (ps_pending s)) (ps_pending s)"
  let ?base = "\<lparr>base_Width = snap_Width c, base_Height = snap_Height c, base_Screen = snap_Screen c\<rparr>"
  consider (c1) "snd (reconcile E a c e p) = clearPane a p" | (c2) "snd (reconcile E a c e p) = putState a (s\<lparr>ps_pending := ?rest\<rparr>) p"
    | (c3) qs sh s0 where "replay E ?rest s0 = (qs, sh)" "snd (reconcile E a c e p) = putState a (s\<lparr>ps_pending := qs, ps_shadow := Some sh\<rparr>) p"
  proof -
    let ?matched = "snapshot_equal E (pend_snapshot (ps_pending s ! (answered e (ps_pending s) - 1))) c"
    have r: "snd (reconcile E a c e p) =
        (if ?rest = [] then clearPane a p else if ?matched then putState a (s\<lparr>ps_pending := ?rest\<rparr>) p
         else case buildPredictionShadow E ?base of None \<Rightarrow> clearPane a p
           | Some s0 \<Rightarrow> (case replay E ?rest s0 of (qs, sh) \<Rightarrow> putState a (s\<lparr>ps_pending := qs, ps_shadow := Some sh\<rparr>) p))"
      using False s by (simp add: reconcile_def Let_def split: option.split prod.split)
    show ?thesis
    proof (cases "?rest = [] \<or> ?matched \<or> buildPredictionShadow E ?base = None")
      case True
      then show ?thesis using c1 c2 unfolding r by (cases "?rest = []"; cases ?matched) simp_all
    next
      case no: False
      then obtain s0 where s0: "buildPredictionShadow E ?base = Some s0" by blast
      obtain qs sh where qs: "replay E ?rest s0 = (qs, sh)" by fastforce
      show ?thesis by (rule c3 [OF qs]) (use no s0 qs in \<open>simp add: r\<close>)
    qed
  qed
  then show ?thesis
  proof cases
    case c3
    then show ?thesis using rest [of "s\<lparr>ps_pending := qs, ps_shadow := Some sh\<rparr>"] replay_ok [OF c3(1)] s by simp
  qed (use cleared rest [of "s\<lparr>ps_pending := ?rest\<rparr>"] s in auto)
qed

lemma reconcile_epochs:
  assumes p': "snd (reconcile E a c e p) = p'"
  shows "b \<noteq> a \<Longrightarrow> pendingEpochs b p' = pendingEpochs b p" "\<exists>n. pendingEpochs a p' = drop n (pendingEpochs a p)"
    "pr_nextEpoch p' = pr_nextEpoch p"
    "a \<noteq> 0 \<Longrightarrow> e \<noteq> 0 \<Longrightarrow> sorted_wrt (<) (pendingEpochs a p) \<Longrightarrow> x \<in> set (pendingEpochs a p') \<Longrightarrow> e < x"
proof -
  let ?n = "answered e (ps_pending (stateOf a p))"
  have clear: "pendingEpochs b (clearPane a p) = (if b = a then [] else pendingEpochs b p)" for b
    by (simp add: pendingEpochs_def clearPane_def delete_conv')
  have all: "(b \<noteq> a \<longrightarrow> pendingEpochs b p' = pendingEpochs b p) \<and> pr_nextEpoch p' = pr_nextEpoch p \<and>
      (p' = p \<and> (a = 0 \<or> e = 0 \<or> ?n = 0) \<or> pendingEpochs a p' = [] \<or> pendingEpochs a p' = drop ?n (pendingEpochs a p))"
    by (rule reconcile_cases [of E a c e p]) (simp_all add: p' clear pendingEpochs_putState pendingEpochs_stateOf [of a p] drop_map)
  then show "b \<noteq> a \<Longrightarrow> pendingEpochs b p' = pendingEpochs b p" "pr_nextEpoch p' = pr_nextEpoch p" by auto
  from all show "\<exists>n. pendingEpochs a p' = drop n (pendingEpochs a p)" by (metis drop0 drop_all order_refl)
  assume a: "a \<noteq> 0" "e \<noteq> 0" "sorted_wrt (<) (pendingEpochs a p)" "x \<in> set (pendingEpochs a p')"
  have "x \<in> set (drop ?n (pendingEpochs a p))" using all a by auto
  then show "e < x" using answered_rest [of "ps_pending (stateOf a p)" x e] a(3) by (simp add: pendingEpochs_stateOf [of a p] drop_map)
qed

text \<open>Clearing panes never adds a prediction.\<close>

definition forgets :: "uint32 \<Rightarrow> ('e, 'a) predictor \<Rightarrow> ('e, 'a) predictor \<Rightarrow> bool" where
  "forgets a p p' \<longleftrightarrow> (pendingEpochs a p' = pendingEpochs a p \<or> pendingEpochs a p' = []) \<and> pr_nextEpoch p' = pr_nextEpoch p"

lemma forgets_trans: "forgets a p p' \<Longrightarrow> forgets a p' p'' \<Longrightarrow> forgets a p p''"
  by (auto simp: forgets_def)

lemma forgets_clear: "forgets a p p" "forgets a p (clearPane b p)" "forgets a p (clear p)"
  by (auto simp: forgets_def pendingEpochs_def clearPane_def delete_conv')

lemma forgets_prune:
  fixes p :: "('e, 'a) predictor"
  shows "forgets a p (prune valid clearAll p)"
proof -
  have "forgets a q (fold (\<lambda>b p. if b \<in> valid then p else clearPane b p) ks q)" for ks and q :: "('e, 'a) predictor"
  proof (induction ks arbitrary: q)
    case (Cons k ks)
    have "forgets a q (if k \<in> valid then q else clearPane k q)" by (simp add: forgets_clear)
    from forgets_trans [OF this Cons.IH] show ?case by simp
  qed (simp add: forgets_clear)
  then show ?thesis by (simp add: prune_def forgets_clear)
qed

lemma forgets_configure: "forgets a p (configure mode style p)"
  by (auto simp: configure_def forgets_def pendingEpochs_def Let_def)

lemma predictWithEpoch_epochs:
  "snd (predictWithEpoch E a base data e p) = p' \<Longrightarrow> pr_nextEpoch p' = pr_nextEpoch p \<and> (\<forall>b. b \<noteq> a \<longrightarrow> pendingEpochs b p' = pendingEpochs b p) \<and>
    (pendingEpochs a p' = pendingEpochs a p \<or> pendingEpochs a p' = pendingEpochs a p @ [e])"
  by (cases "a = 0"; cases "ensureShadow E base (stateOf a p)")
    (auto simp: predictWithEpoch_def stateForPane_def pendingEpochs_putState pendingEpochs_stateOf [of a p] Let_def)

lemma prepare_epochs:
  assumes "PrepareLocalEchoInput E supported a inCopyMode terminal data now p = Some (e, predicted, p')" "pr_nextEpoch p + 1 \<noteq> 0"
  shows "e = 0 \<and> p' = p \<or> a \<noteq> 0 \<and> data \<noteq> [] \<and> e \<noteq> 0 \<and> pr_nextEpoch p < e \<and> pr_nextEpoch p' = e \<and>
    (\<forall>b. b \<noteq> a \<longrightarrow> pendingEpochs b p' = pendingEpochs b p) \<and> (pendingEpochs a p' = pendingEpochs a p \<or> pendingEpochs a p' = pendingEpochs a p @ [e])"
proof (cases "e = 0 \<and> p' = p")
  case False
  then obtain ctx base where b: "prepareInput E a ctx base data now p = Some (e, predicted, p')" "a \<noteq> 0"
    using assms(1) by (auto simp: PrepareLocalEchoInput_def split: if_splits option.splits)
  then have on: "enabled p" "singlePrintableInput E data \<noteq> None" using False by (auto simp: prepareInput_def split: if_splits)
  then have d: "data \<noteq> []" by (auto simp: singlePrintableInput_def)
  obtain q p1 where q: "allowPrediction E a ctx data now p = Some (q, p1)" using b on by (auto simp: prepareInput_def split: option.splits)
  have "\<exists>t. p1 = putState a ((stateOf a p)\<lparr>ps_recentPresses := t\<rparr>) p"
    using q on b(2) by (auto simp: allowPrediction_def stateForPane_def Let_def)
  then have p1: "pr_nextEpoch p1 = pr_nextEpoch p" "pendingEpochs c p1 = pendingEpochs c p" for c
    by (auto simp: pendingEpochs_putState pendingEpochs_stateOf [of a p])
  obtain e2 p2 where n: "nextPredictionEpoch p1 = (e2, p2)" by (metis surj_pair)
  have u: "unat (pr_nextEpoch p + 1) = unat (pr_nextEpoch p) + 1" using assms(2) unatSuc [of "pr_nextEpoch p"] by (simp add: add.commute)
  have p2: "e2 = pr_nextEpoch p + 1" "pr_nextEpoch p2 = e2" "pendingEpochs c p2 = pendingEpochs c p" for c
    using n p1(1) p1(2) [of c] assms(2) by (auto simp: nextPredictionEpoch_def Let_def pendingEpochs_def)
  have lt: "pr_nextEpoch p < e2" "e2 \<noteq> 0" using u assms(2) by (simp_all add: p2(1) word_less_nat_alt)
  have "e = e2 \<and> (p' = p2 \<or> snd (predictWithEpoch E a base data e2 p2) = p')"
    using b(1) on q n by (auto simp: prepareInput_def split: if_splits)
  then show ?thesis using predictWithEpoch_epochs [of E a base data e2 p2 p'] p2 lt b(2) d by auto
qed simp

section \<open>Invariant\<close>

text \<open>
  Of each pane: the epochs the server awaits or will get grow, as do those of the pending predictions, none is later
  than the last one given out, and each pending prediction has an answer under way that is at least as late.
\<close>

definition pane_ok :: "uint32 \<Rightarrow> ('e, 'a) echo_sys \<Rightarrow> bool" where
  "pane_ok a sys \<longleftrightarrow>
     (let q = unanswered a sys; p = pendingEpochs a (sys_client sys)
      in sorted_wrt (<) q \<and> sorted_wrt (<) p \<and> 0 \<notin> set q \<and> (\<forall>x \<in> set (q @ p). x \<le> pr_nextEpoch (sys_client sys)) \<and>
         (\<forall>e \<in> set p. \<exists>x \<in> set (underway a sys). e \<le> x))"

definition sys_ok :: "('e, 'a) Emulator \<Rightarrow> ('e, 'a) echo_sys \<Rightarrow> bool" where
  "sys_ok E sys \<longleftrightarrow> predictor_ok E (sys_client sys) \<and> (\<forall>a. pane_ok a sys) \<and>
     list_all (\<lambda>(a, e, d). e \<noteq> 0 \<longrightarrow> a \<noteq> 0 \<and> d \<noteq> []) (sys_inputs sys)"

lemmas pane_ok_defs = pane_ok_def underway_def unanswered_def Let_def

lemma client_forgets:
  assumes "pane_ok a sys" "forgets a (sys_client sys) p"
  shows "pane_ok a (sys\<lparr>sys_client := p, sys_terminals := t\<rparr>)"
  using assms by (auto simp: pane_ok_defs forgets_def)

lemma TypeKey_ok:
  assumes ok: "sys_ok E sys" and allowed: "sys_allowed E sys (TypeKey paneID inCopyMode ctx data now)"
  shows "sys_ok E (sys_perform E (TypeKey paneID inCopyMode ctx data now) sys)"
proof -
  let ?T = "Some (ctx, baseOf E (sys_terminals sys paneID))" and ?p = "sys_client sys"
  obtain e predicted p where p: "PrepareLocalEchoInput E True paneID inCopyMode ?T data now ?p = Some (e, predicted, p)"
    using PrepareLocalEchoInput_total by (metis not_None_eq prod_cases3)
  note ep = prepare_epochs [OF p]
  have "predictor_ok E p"
    using Prepare_ok [of E ?p True paneID inCopyMode ?T data now] ok allowed p by (simp add: sys_ok_def baseOf_def)
  moreover have "pane_ok a (sys\<lparr>sys_client := p, sys_inputs := sys_inputs sys @ [(paneID, e, data)]\<rparr>)" for a
  proof -
    have a: "pane_ok a sys" using ok by (simp add: sys_ok_def)
    consider (none) "e = 0" "p = ?p" | (other) "a \<noteq> paneID" "e \<noteq> 0" "pr_nextEpoch ?p < e" "pr_nextEpoch p = e" "pendingEpochs a p = pendingEpochs a ?p"
      | (key) "a = paneID" "e \<noteq> 0" "pr_nextEpoch ?p < e" "pr_nextEpoch p = e" "pendingEpochs a p = pendingEpochs a ?p \<or> pendingEpochs a p = pendingEpochs a ?p @ [e]"
      using ep allowed by auto
    then show ?thesis
    proof cases
      case none
      then show ?thesis using a by (simp add: pane_ok_defs)
    next
      case other
      then show ?thesis using a by (force simp: pane_ok_defs)
    next
      case key
      have lt: "x < e" if "x \<in> set (queueEpochs a (sys_server sys) @ messageEpochs a (sys_inputs sys) @ pendingEpochs a ?p)" for x
        using a that key(3) le_less_trans by (auto simp: pane_ok_defs)
      show ?thesis using a lt key(1,2,4,5) by (auto simp: pane_ok_defs sorted_wrt_append less_imp_le)
    qed
  qed
  moreover have "list_all (\<lambda>(a, e, d). e \<noteq> 0 \<longrightarrow> a \<noteq> 0 \<and> d \<noteq> []) (sys_inputs sys @ [(paneID, e, data)])"
    using ok ep allowed by (auto simp: sys_ok_def)
  ultimately show ?thesis using p by (simp add: sys_ok_def)
qed

lemma ServerInput_ok:
  assumes ok: "sys_ok E sys" and allowed: "sys_allowed E sys (ServerInput target)"
  shows "sys_ok E (sys_perform E (ServerInput target) sys)"
proof (cases "sys_inputs sys")
  case Nil
  then show ?thesis using ok by simp
next
  case (Cons m rest)
  obtain a e d where m: "m = (a, e, d)" by (metis prod_cases3)
  have e: "e \<noteq> 0 \<Longrightarrow> target = a \<and> a \<noteq> 0 \<and> d \<noteq> []" using ok allowed Cons m by (auto simp: sys_ok_def)
  let ?sys = "sys_perform E (ServerInput target) sys"
  have "unanswered b ?sys = unanswered b sys" for b
    using e Cons m by (cases "e = 0") (simp_all add: unanswered_def note_epochs)
  moreover have "sys_client ?sys = sys_client sys" "sys_outputs ?sys = sys_outputs sys" using Cons m by simp_all
  ultimately have "pane_ok b ?sys" for b using ok by (simp add: sys_ok_def pane_ok_def underway_def)
  then show ?thesis using ok Cons m by (simp add: sys_ok_def)
qed

lemma ProgramOutput_ok:
  assumes ok: "sys_ok E sys"
  shows "sys_ok E (sys_perform E (ProgramOutput paneID data) sys)"
proof -
  obtain e ps where c: "consumePredictionEpoch paneID data (sys_server sys) = (e, ps)" by fastforce
  have all: "pane_ok a sys" for a using ok by (simp add: sys_ok_def)
  let ?q = "queueEpochs paneID (sys_server sys)"
  have z: "0 \<notin> set ?q" using all [of paneID] by (simp add: pane_ok_defs)
  obtain k where k: "k \<le> length ?q" "queueEpochs paneID ps = drop k ?q" "e = (if k = 0 then 0 else ?q ! (k - 1))"
    and other: "\<And>b. b \<noteq> paneID \<Longrightarrow> queueEpochs b ps = queueEpochs b (sys_server sys)" using consume_epochs [OF c z] by blast
  let ?sys = "sys\<lparr>sys_server := ps, sys_outputs := sys_outputs sys @ [(paneID, e, data)]\<rparr>"
  have taken: "e \<noteq> 0 \<and> x \<le> e" if x: "x \<in> set (take k ?q)" for x
  proof -
    obtain i where i: "i < k" "x = ?q ! i" using x k(1) by (auto simp: in_set_conv_nth)
    have s: "sorted_wrt (<) ?q" using all [of paneID] by (simp add: pane_ok_defs sorted_wrt_append)
    have "?q ! i \<le> ?q ! (k - 1)" using sorted_wrt_nth_less [OF s, of i "k - 1"] i(1) k(1) by (cases "i = k - 1") (simp_all add: less_imp_le)
    moreover have "?q ! (k - 1) \<in> set ?q" using i(1) k(1) by simp
    ultimately show ?thesis using i z k(3) by auto
  qed
  have "pane_ok a ?sys" for a
  proof (cases "a = paneID")
    case False
    then show ?thesis using all [of a] other by (simp add: pane_ok_defs)
  next
    case True
    have cover: "\<exists>y \<in> set (underway a ?sys). x \<le> y" if "x \<in> set (underway a sys)" for x
    proof (cases "x \<in> set (take k ?q)")
      case True
      then show ?thesis using taken [OF True] \<open>a = paneID\<close> by (auto simp: underway_def)
    next
      case False
      then have "x \<in> set (underway a ?sys)" using that \<open>a = paneID\<close> k(2) set_append [of "take k ?q" "drop k ?q"]
        by (auto simp: underway_def unanswered_def)
      then show ?thesis by blast
    qed
    have "\<exists>y \<in> set (underway a ?sys). x \<le> y" if "x \<in> set (pendingEpochs a (sys_client sys))" for x
      using all [of a] that cover order_trans unfolding pane_ok_def Let_def by meson
    moreover have "sorted_wrt (<) (drop k ?q @ messageEpochs paneID (sys_inputs sys))"
      using all [of paneID] sorted_wrt_drop [of "(<)" ?q k] by (auto simp: pane_ok_defs sorted_wrt_append dest: in_set_dropD)
    ultimately show ?thesis using all [of a] True k(2) by (auto simp: pane_ok_def unanswered_def Let_def dest: in_set_dropD)
  qed
  then show ?thesis using ok c by (simp add: sys_ok_def)
qed

lemma ClientOutput_ok:
  assumes ok: "sys_ok E sys"
  shows "sys_ok E (sys_perform E ClientOutput sys)"
proof (cases "sys_outputs sys")
  case Nil
  then show ?thesis using ok by simp
next
  case (Cons msg rest)
  obtain a e d where m: "msg = (a, e, d)" by (metis prod_cases3)
  obtain res emu p where h: "handleEcho E a d e (sys_terminals sys a, sys_client sys) = (res, emu, p)" by (metis prod_cases3)
  have all: "pane_ok b sys" for b using ok by (simp add: sys_ok_def)
  let ?sys = "sys\<lparr>sys_client := p, sys_terminals := (sys_terminals sys)(a := emu), sys_outputs := rest\<rparr>"
  have "predictor_ok E p \<and> pane_ok b ?sys" for b
  proof (cases "e = 0")
    case True
    then have "p = sys_client sys" using h by (simp add: handleEcho_def Let_def)
    then show ?thesis using ok all [of b] True Cons m by (simp add: sys_ok_def pane_ok_defs)
  next
    case False
    then have "\<exists>ack c. snd (reconcile E a c e (recordAck a ack (sys_client sys))) = p"
      using h by (auto simp: handleEcho_def Let_def split: prod.splits) (metis snd_conv)
    then obtain ack c where p: "snd (reconcile E a c e (recordAck a ack (sys_client sys))) = p" by blast
    note r = reconcile_epochs [OF p, unfolded recordAck_epochs]
    have pok: "predictor_ok E p" using reconcile_ok [OF recordAck_ok] ok p by (auto simp: sys_ok_def)
    obtain n where n: "pendingEpochs a p = drop n (pendingEpochs a (sys_client sys))" using r(2) by blast
    have sub: "pendingEpochs b p = drop (if b = a then n else 0) (pendingEpochs b (sys_client sys))" using r(1) n by simp
    have later: "e < x" if "b = a" "x \<in> set (pendingEpochs b p)" for x
    proof -
      have "map_of (pr_panes p) a \<noteq> None" using that by (cases "map_of (pr_panes p) a") (auto simp: pendingEpochs_def)
      then have "a \<noteq> 0" using pok by (auto simp: predictor_ok_def)
      then show ?thesis using r(4) False all [of a] that by (auto simp: pane_ok_defs)
    qed
    have "\<exists>y \<in> set (underway b ?sys). x \<le> y" if x: "x \<in> set (pendingEpochs b p)" for x
    proof -
      have "x \<in> set (pendingEpochs b (sys_client sys))" using x unfolding sub by (rule in_set_dropD)
      then obtain y where y: "y \<in> set (underway b sys)" "x \<le> y"
        using all [of b] unfolding pane_ok_def Let_def by blast
      have "y \<noteq> e" if "b = a" using later [OF that x] y(2) by auto
      then have "y \<in> set (underway b ?sys)" using y(1) Cons m by (auto simp: underway_def unanswered_def split: if_splits)
      then show ?thesis using y(2) by blast
    qed
    moreover have "sorted_wrt (<) (pendingEpochs b p)" "set (pendingEpochs b p) \<subseteq> set (pendingEpochs b (sys_client sys))"
      using all [of b] unfolding sub by (auto simp: pane_ok_defs sorted_wrt_drop dest: in_set_dropD)
    ultimately show ?thesis using pok all [of b] r(3) by (auto simp: pane_ok_def unanswered_def Let_def)
  qed
  then show ?thesis using ok Cons m h by (simp add: sys_ok_def)
qed

interpretation echo_system: invariant_system sys_init "sys_allowed E" "sys_perform E" "sys_ok E" for E :: "('e, 'a) Emulator"
proof
  fix sys :: "('e, 'a) echo_sys"
  assume "sys_init sys"
  then show "sys_ok E sys"
    by (auto simp: sys_init_def sys_ok_def predictor_ok_def newPredictor_def pane_ok_defs queueEpochs_def pendingEpochs_def)
next
  fix sys :: "('e, 'a) echo_sys" and ev
  assume ok: "sys_ok E sys" and allowed: "sys_allowed E sys ev"
  show "sys_ok E (sys_perform E ev sys)"
  proof (cases ev)
    case (Relayout valid clearAll terminals)
    have "pane_ok a (sys\<lparr>sys_client := prune valid clearAll (sys_client sys), sys_terminals := terminals\<rparr>)" for a
      by (rule client_forgets [OF _ forgets_prune]) (use ok in \<open>simp add: sys_ok_def\<close>)
    then show ?thesis using Relayout ok prune_ok by (auto simp: sys_ok_def)
  next
    case (Settings mode style)
    have "pane_ok a (sys\<lparr>sys_client := configure mode style (sys_client sys)\<rparr>)" for a
      using client_forgets [OF _ forgets_configure, of a sys "sys_terminals sys" mode style] ok by (simp add: sys_ok_def)
    then show ?thesis using Settings ok configure_ok by (auto simp: sys_ok_def)
  qed (use ok allowed in \<open>simp_all only: TypeKey_ok ServerInput_ok ProgramOutput_ok ClientOutput_ok\<close>)
qed

end
