(* ===== verification/Local_Echo_Properties.thy ===== *)
theory Local_Echo_Properties
  imports Local_Echo_Run
begin

text \<open>The properties of local echo.\<close>

section \<open>Predictions and answers\<close>

text \<open>
  C7. No prediction outlives its answer. Keys are typed into any panes, the server notes them, the programs print whatever
  they print (an echo or not), the client gets the output, layouts and settings change, in any order, with any number
  of messages under way: for every prediction that the client still draws, an answer with its epoch or a later one is
  under way (in a message to the client, awaited by the server, or in a message to the server). So when nothing
  is under way for a pane, the client draws its real terminal, without a shadow. Under these conditions: messages arrive
  in order, the server writes a key to the pane in which the client predicted it (\<open>misrouted_prediction\<close> shows
  what happens otherwise), keys are typed into terminals that are not empty, and fewer than \<open>2\<^sup>3\<^sup>2\<close> are typed. The terminal is a
  parameter of which nothing is assumed.
\<close>

theorem predictions_answered:
  assumes "reachable sys_init (sys_allowed E) (sys_perform E) sys"
  shows "(\<forall>e \<in> set (pendingEpochs paneID (sys_client sys)). \<exists>answer \<in> set (underway paneID sys). e \<le> answer) \<and>
    (underway paneID sys = [] \<longrightarrow> shadow_of paneID (sys_client sys) = None)"
proof -
  have ok: "predictor_ok E (sys_client sys)" "pane_ok paneID sys" using echo_system.inv_reachable [OF assms] by (auto simp: sys_ok_def)
  then have all: "\<forall>e \<in> set (pendingEpochs paneID (sys_client sys)). \<exists>answer \<in> set (underway paneID sys). e \<le> answer"
    by (simp add: pane_ok_def Let_def)
  have "shadow_of paneID (sys_client sys) = None" if "underway paneID sys = []"
  proof -
    from that have "pendingEpochs paneID (sys_client sys) = []" using all by (cases "pendingEpochs paneID (sys_client sys)") auto
    then show ?thesis
      using ok(1) by (auto simp: pendingEpochs_def shadow_of_def predictor_ok_def state_ok_def split: option.splits)
  qed
  then show ?thesis using all by blast
qed

text \<open>A terminal of one endless line.\<close>

definition lineTerminal :: "((int \<times> int) \<times> string, unit) Emulator" where
  "lineTerminal = \<lparr>emu_New = (\<lambda>w h. ((w, h), [])), emu_Write = (\<lambda>x e. (fst e, snd e @ x)), emu_Size = fst,
     emu_CursorPosition = (\<lambda>e. (int (length (snd e)), 0)), emu_CursorPhantom = (\<lambda>e. False), emu_CursorHidden = (\<lambda>e. False),
     emu_IsAltScreen = (\<lambda>e. False), emu_mouseFlags = (\<lambda>e. 0), emu_Render = snd, emu_LineWrapped = (\<lambda>e y. False),
     emu_CellAt = (\<lambda>e c r. \<lparr>sc_Char = take 1 (drop (nat c) (snd e)), sc_Width = 1, sc_Look = ()\<rparr>),
     look_Equal = (=), look_Blank = (), rune_Width = (\<lambda>r. 1), string_Width = (\<lambda>s. int (length s))\<rparr>"

definition sampleContext :: panePredictionContext where
  "sampleContext = \<lparr>ctx_Width = 3, ctx_Height = 1, ctx_CursorCol = 0, ctx_CursorRow = 0, ctx_AltScreen = False, ctx_CursorStyle = ''bar''\<rparr>"

definition sampleSystem :: "((int \<times> int) \<times> string, unit) echo_sys" where
  "sampleSystem = \<lparr>sys_client = newPredictor localEchoModeAlways localEchoStyleDim, sys_terminals = (\<lambda>_. ((3, 1), [])),
     sys_inputs = [], sys_server = [], sys_outputs = []\<rparr>"

text \<open>Two keys; the program of the pane echoes neither, but prints a star and a line end.\<close>

definition sampleRun :: "((int \<times> int) \<times> string) echo_event list" where
  "sampleRun = [TypeKey 3 False sampleContext ''a'' 0, ServerInput 3, TypeKey 3 False sampleContext ''b'' 1, ProgramOutput 3 ''*'',
     ServerInput 3, ClientOutput, ProgramOutput 3 [CHR 0x0a], ClientOutput]"

theorem predictions_answered_witness:
  "shadow_of 3 (sys_client (fold (sys_perform lineTerminal) (take 6 sampleRun) sampleSystem)) \<noteq> None \<and>
   shadow_of 3 (sys_client (fold (sys_perform lineTerminal) sampleRun sampleSystem)) = None"
proof -
  let ?sys = "fold (sys_perform lineTerminal) sampleRun sampleSystem"
  have "sys_init sampleSystem" by (auto simp: sys_init_def sampleSystem_def)
  moreover have "runs (sys_allowed lineTerminal) (sys_perform lineTerminal) sampleSystem sampleRun" by code_simp
  ultimately have "reachable sys_init (sys_allowed lineTerminal) (sys_perform lineTerminal) ?sys" by (intro reachable_runs reachable.start)
  moreover have "underway 3 ?sys = []" by code_simp
  moreover have "shadow_of 3 (sys_client (fold (sys_perform lineTerminal) (take 6 sampleRun) sampleSystem)) \<noteq> None" by code_simp
  ultimately show ?thesis using predictions_answered by blast
qed

text \<open>
  An input message has no pane: the server writes the key to the pane that is focused when it arrives, and notes
  the epoch there. If that is another pane than the one the client predicted in, the prediction gets no answer: nothing
  is under way, but the pane is drawn from its shadow, also after its program has printed something else.
\<close>

theorem misrouted_prediction:
  "let sys = fold (sys_perform lineTerminal) [TypeKey 3 False sampleContext ''a'' 0, ServerInput 4, ProgramOutput 3 ''$ '', ClientOutput] sampleSystem
   in underway 3 sys = [] \<and> sys_terminals sys 3 = ((3, 1), ''$ '') \<and> shadow_of 3 (sys_client sys) \<noteq> None"
  by code_simp

section \<open>The predictor over time\<close>

text \<open>
  C8. Whatever is typed into terminals that are not empty, acknowledged, compared, pruned or configured: at most three
  acknowledgements are kept for a pane; a pane is drawn from a shadow terminal exactly while it has predictions
  pending, and that terminal is the one the last of them predicts; and predictions are pending only while local echo is on.
\<close>

theorem reachable_predictor_ok:
  assumes "reachable echo_init echo_allowed (echo_perform E) p" "map_of (pr_panes p) paneID = Some st"
  shows "length (ps_recentAcks st) \<le> 3 \<and> (shadow_of paneID p = None \<longleftrightarrow> ps_pending st = []) \<and>
    (ps_pending st = [] \<or> enabled p \<and>
      (\<exists>e. shadow_of paneID p = Some e \<and> pend_snapshot (last (ps_pending st)) = capturePanePredictionSnapshot E e))"
proof -
  have ok: "predictor_ok E p" by (rule echo.inv_reachable [OF assms(1)])
  then have "state_ok E st" "pr_mode p = localEchoModeOff \<longrightarrow> ps_pending st = []" using assms(2) by (auto simp: predictor_ok_def)
  then show ?thesis using assms(2) by (auto simp: state_ok_def shadow_of_def enabled_def localEchoAckWindow_def)
qed

definition typedPredictor :: "((int \<times> int) \<times> string, unit) predictor" where
  "typedPredictor = fold (echo_perform lineTerminal)
     [Configure ''always'' ''dim'', RecordAck 3 True, Prepare True 3 False (Some (sampleContext, \<lparr>base_Width = 3, base_Height = 1, base_Screen = []\<rparr>)) ''x'' 0]
     (newPredictor localEchoModeOff localEchoStyleDim)"

theorem reachable_predictor_ok_witness:
  "\<exists>e st. map_of (pr_panes typedPredictor) 3 = Some st \<and> length (ps_pending st) = 1 \<and> shadow_of 3 typedPredictor = Some e \<and>
     pend_snapshot (last (ps_pending st)) = capturePanePredictionSnapshot lineTerminal e"
proof -
  have "reachable echo_init echo_allowed (echo_perform lineTerminal) typedPredictor"
    unfolding typedPredictor_def by (intro reachable_runs reachable.start) (auto simp: echo_init_def)
  moreover have st: "map_option (length \<circ> ps_pending) (map_of (pr_panes typedPredictor) 3) = Some 1" by code_simp
  then obtain st where "map_of (pr_panes typedPredictor) 3 = Some st" "length (ps_pending st) = 1" by auto
  ultimately show ?thesis using reachable_predictor_ok [of lineTerminal typedPredictor 3 st] by auto
qed

section \<open>Epochs\<close>

text \<open>
  However the echo of the noted inputs is cut into output, the server reports for each piece the epoch of the last
  input whose echo it completes, or none, and then awaits exactly the rest of the echo; other panes are not touched.
\<close>

theorem echo_epochs:
  assumes "map_of ps paneID = Some q" "queue_ok q" "awaited q = data @ rest" "data \<noteq> []" "paneID \<noteq> 0"
  shows "\<exists>k ps'. k \<le> length q \<and> consumePredictionEpoch paneID data ps = (if k = 0 then 0 else pe_epoch (q ! (k - 1)), ps') \<and>
    (case map_of ps' paneID of
       None \<Rightarrow> rest = [] \<and> k = length q
     | Some q' \<Rightarrow> q' \<noteq> [] \<and> queue_ok q' \<and> awaited q' = rest \<and> map pe_epoch q' = drop k (map pe_epoch q)) \<and>
    awaited (take k q) = take (length (awaited (take k q))) data \<and> (\<forall>a. a \<noteq> paneID \<longrightarrow> map_of ps' a = map_of ps a)"
  by (rule consume_echo [OF assms])

definition sampleQueue :: "pendingPredictionEpoch list" where
  "sampleQueue = [\<lparr>pe_epoch = 1, pe_remaining = ''a''\<rparr>, \<lparr>pe_epoch = 2, pe_remaining = ''bc''\<rparr>]"

theorem echo_epochs_witness:
  "\<exists>ps'. consumePredictionEpoch 3 ''ab'' [(3, sampleQueue)] = (1, ps') \<and> (\<forall>q'. map_of ps' 3 = Some q' \<longrightarrow> awaited q' = ''c'')"
proof -
  have "queue_ok sampleQueue" "awaited sampleQueue = ''ab'' @ ''c''" by (simp_all add: sampleQueue_def queue_ok_def awaited_def)
  then obtain k ps' where "consumePredictionEpoch 3 ''ab'' [(3, sampleQueue)] = (if k = 0 then 0 else pe_epoch (sampleQueue ! (k - 1)), ps')"
    and c: "case map_of ps' 3 of None \<Rightarrow> ''c'' = [] \<and> k = length sampleQueue
      | Some q' \<Rightarrow> q' \<noteq> [] \<and> queue_ok q' \<and> awaited q' = ''c'' \<and> map pe_epoch q' = drop k (map pe_epoch sampleQueue)"
    using echo_epochs [of "[(3, sampleQueue)]" 3 sampleQueue "''ab''" "''c''"] by auto
  moreover have "fst (consumePredictionEpoch 3 ''ab'' [(3, sampleQueue)]) = 1" by (simp add: sampleQueue_def consumePredictionEpoch_def)
  ultimately have "consumePredictionEpoch 3 ''ab'' [(3, sampleQueue)] = (1, ps')" by (metis fst_conv)
  then show ?thesis using c by auto
qed

section \<open>Automatic mode\<close>

text \<open>
  C38. In automatic mode a key is predicted only after three acknowledged echoes, but whenever the last pending prediction is
  answered, right or wrong, the acknowledgements are deleted with the other state of the pane: the next key is
  never predicted.
\<close>

theorem auto_echo_forgets:
  assumes "reconcile E paneID confirmed epoch p = (res, p')" "res_Changed res" "res_Pending res = 0" "pr_mode p = localEchoModeAuto"
  shows "\<exists>e p''. prepareInput E paneID ctx base data now p' = Some (e, False, p'')"
proof -
  have r: "pr_mode p' = localEchoModeAuto \<and> map_of (pr_panes p') paneID = None \<and> paneID \<noteq> 0"
    using assms by (auto simp: reconcile_def Let_def clearPane_def delete_conv' buildPredictionShadow_def dest!: replay_ok split: if_splits option.splits prod.splits)
  then have "\<not> hasRecentConfirmingAcks ((stateOf paneID p')\<lparr>ps_recentPresses := t\<rparr>)" for t
    by (simp add: stateOf_def hasRecentConfirmingAcks_def localEchoAckWindow_def)
  then show ?thesis using r by (auto simp: prepareInput_def allowPrediction_def stateForPane_def Let_def split: prod.splits)
qed

definition samplePredictor :: "((int \<times> int) \<times> string, unit) predictor" where
  "samplePredictor = \<lparr>pr_mode = localEchoModeAuto, pr_style = localEchoStyleDim, pr_nextEpoch = 1,
     pr_panes = [(3, \<lparr>ps_shadow = Some ((20, 5), ''x''),
       ps_pending = [\<lparr>pend_epoch = 1, pend_data = ''x'', pend_snapshot = capturePanePredictionSnapshot lineTerminal ((20, 5), ''x'')\<rparr>],
       ps_recentAcks = [True, True, True], ps_recentPresses = [0]\<rparr>)]\<rparr>"

theorem auto_echo_forgets_witness:
  "\<forall>ctx base. let confirmed = capturePanePredictionSnapshot lineTerminal ((20, 5), ''x'')
   in res_Matched (fst (reconcile lineTerminal 3 confirmed 1 samplePredictor)) \<and>
      (\<exists>e p''. prepareInput lineTerminal 3 ctx base ''y'' 1000000000 (snd (reconcile lineTerminal 3 confirmed 1 samplePredictor)) = Some (e, False, p''))"
proof -
  let ?conf = "capturePanePredictionSnapshot lineTerminal ((20, 5), ''x'')"
  have "snapshot_equal lineTerminal ?conf ?conf"
    by (simp add: snapshot_equal_def ScreenCell_Equal_def lineTerminal_def list_all2_refl)
  then have r: "reconcile lineTerminal 3 ?conf 1 samplePredictor =
      (\<lparr>res_Matched = True, res_Pending = 0, res_Changed = True\<rparr>, clearPane 3 samplePredictor)"
    by (simp add: reconcile_def samplePredictor_def Let_def)
  have "\<exists>e p''. prepareInput lineTerminal 3 ctx base ''y'' 1000000000 (clearPane 3 samplePredictor) = Some (e, False, p'')" for ctx base
    by (rule auto_echo_forgets [OF r]) (simp_all add: samplePredictor_def)
  then show ?thesis using r by simp
qed

end
