(* ===== verification/Spec2Isabelle.thy ===== *)
theory Spec2Isabelle
  imports Findings Snapshot_Properties Mouse_Properties Mailbox_Properties Pane_Ref Copy_Properties UI_Properties Wire_Properties Local_Echo_Properties
begin

text \<open>
  amux is a terminal multiplexer. A server keeps sessions; a session has windows; a window shows
  panes (each a pseudo terminal with an emulator) in a tree of cells that tiles the window, or in
  pages of a grid. Clients attach over a socket: they get the layout and the contents of the panes,
  send keys and mouse events, and keep a user interface of their own (copy mode, choosers, prompts),
  of which they tell the server by events. Panes send each other messages through a mailbox.
  Paths below are relative to \<^verbatim>\<open>src/internal\<close>; definitions keep the names of the Go code.

  \<^bold>\<open>Shared theories.\<close>

  \<^item> \<open>Amux_Prelude\<close>: machine integers, Go's integer division, list editing, sums. \<open>Go_Strings\<close>: UTF-8,
    numbers in strings, white space.
  \<^item> \<open>State_Machine\<close>: the states reachable by sequences of operations and the interface
    \<open>invariant_system\<close> (the initial states and every allowed operation keep an invariant). It is
    interpreted for windows, ultra layout, mouse parser, mailbox, copy mode, the client interface, the caches, the predictor,
    and client and server of local echo with the messages between them.
  \<^item> \<open>Slot_Table\<close>, \<open>Keyed_Table\<close>: abstract tables with their laws as locales; the ultra grid and
    the mailbox implement them.

  \<^bold>\<open>Windows\<close> (\<^verbatim>\<open>mux\<close>).

  \<^item> \<open>Split_Sizes\<close>: how a length is divided among siblings. \<open>Layout_Tree\<close>, \<open>Layout_Resize\<close>,
    \<open>Layout_Query\<close>, \<open>Layout_Edit\<close>: the type \<^verbatim>\<open>LayoutCell\<close> with every function of \<^verbatim>\<open>layout.go\<close>.
  \<^item> \<open>Window_State\<close>, \<open>Window_Laws\<close>: the type \<^verbatim>\<open>Window\<close>, terminals, focus, zoom and lead; the
    invariant \<open>window_ok\<close>. \<open>Window_Split\<close>, \<open>Window_Size\<close>, \<open>Window_Move\<close>, \<open>Window_Splice\<close>: the
    operations of \<^verbatim>\<open>window.go\<close>, \<^verbatim>\<open>window_resize.go\<close>, \<^verbatim>\<open>window_navigate.go\<close>, \<^verbatim>\<open>window_spiral.go\<close>,
    \<^verbatim>\<open>lead.go\<close> and \<^verbatim>\<open>column_fill.go\<close>. \<open>Window_Steps\<close>: a window as a state machine over them.
  \<^item> \<open>Ultra\<close>, \<open>Ultra_Laws\<close>, \<open>Ultra_Steps\<close>, \<open>Ultra_Properties\<close>: the slot table and the paged
    grid of \<^verbatim>\<open>ultra.go\<close>.
  \<^item> \<open>Snapshot\<close>, \<open>Snapshot_Properties\<close>: \<^verbatim>\<open>snapshot.go\<close>, windows saved and restored. \<open>Pane_Ref\<close>:
    \<^verbatim>\<open>pane_ref.go\<close>. \<open>Sample_Window\<close>: a window the witnesses use. \<open>Findings\<close>: runs in which the code
    does not keep what it means to.

  \<^bold>\<open>Input\<close> (\<^verbatim>\<open>mouse\<close>, \<^verbatim>\<open>copymode\<close>).

  \<^item> \<open>Mouse\<close>, \<open>Mouse_Laws\<close>, \<open>Mouse_Buffer\<close>, \<open>Mouse_Properties\<close>: the parser of mouse reports over
    lists of bytes, and over the slice and backing array of the code, which refines it.
  \<^item> \<open>Copy_Mode\<close>, \<open>Copy_Motions\<close>, \<open>Copy_Search\<close>, \<open>Copy_Brackets\<close>, \<open>Copy_Input\<close>, \<open>Copy_Overlay\<close>: state,
    motions, search, brackets, keys and highlighting of copy mode; \<open>Copy_Laws\<close>, \<open>Copy_Steps\<close>,
    \<open>Copy_Properties\<close>: its invariant over any input and what each part computes.

  \<^bold>\<open>Mailbox\<close> (\<^verbatim>\<open>mailbox/store.go\<close>). \<open>Mailbox\<close>, \<open>Mailbox_Drain\<close>, \<open>Mailbox_Snapshot\<close>: sending,
  reading, acknowledging, the pending status, saving and restoring; \<open>Mailbox_Laws\<close>,
  \<open>Mailbox_Steps\<close>, \<open>Mailbox_Properties\<close>: the invariant over any sequence of requests and restarts.

  \<^bold>\<open>Client interface\<close> (\<^verbatim>\<open>client\<close>, \<^verbatim>\<open>server/client_ui.go\<close>). \<open>Client_UI\<close>: the state of the overlays
  and its reducer (\<^verbatim>\<open>ui_state.go\<close>); \<open>Client_Prompts\<close>: pane labels and rename prompts; \<open>Server_UI\<close>: the
  record the server keeps from the events; \<open>UI_Laws\<close>, \<open>UI_Properties\<close>: client and server run in
  step, but for the view of a chooser that was toggled (\<^verbatim>\<open>chooser.go\<close>).

  \<^bold>\<open>Wire protocol\<close> (\<^verbatim>\<open>proto/wire.go\<close>, \<^verbatim>\<open>proto/wire_pane_history.go\<close>, \<^verbatim>\<open>server/pane_history_chunk.go\<close>).
  \<open>Wire_History\<close>: the binary encoding of histories; \<open>Wire_Frames\<close>: messages, frames, the writer and
  the reader of a connection, the cache of encoded histories; \<open>History_Chunks\<close>: splitting a history into
  messages. \<open>Wire_Laws\<close>, \<open>Wire_Lines\<close>, \<open>Wire_Payload\<close>: each reader takes exactly the bytes its writer
  gives, from varints up to whole payloads, with the locale \<open>wire_codec\<close> for the numbers, strings, colours and styles they share; \<open>Wire_Cache\<close>: the caches hold what encoding afresh gives;
  \<open>Wire_Stream\<close>, \<open>Wire_Delivery\<close>, \<open>Wire_Properties\<close>: connections, and the way of a history from the pane to
  an attaching client.

  \<^bold>\<open>Local echo\<close> (\<^verbatim>\<open>client/predictor.go\<close>, \<^verbatim>\<open>server/client_conn.go\<close>). \<open>Terminal_Replay\<close>: the screen of a terminal as
  a string that rebuilds it (\<^verbatim>\<open>RenderWithCursor\<close> of \<^verbatim>\<open>mux/emulator.go\<close>), which shadow terminals start from; \<open>Local_Echo\<close>: the predictor of the
  client, the queue of input epochs of the server and the settings; \<open>Local_Echo_Laws\<close>: the invariant of the predictor
  and the queue under an echo; \<open>Local_Echo_Run\<close>: client, server and the messages under way between them as one system; \<open>Local_Echo_Properties\<close>:
  every prediction is answered, and what the predictor keeps.

  \<^bold>\<open>What the properties show.\<close> Invariants over every sequence of operations (windows, ultra layout, mailbox,
  copy mode, client interface, caches, predictor); what single operations do on all their branches (splits, closing,
  promotion, sending, search, references, prompts); round trips (snapshots, mailbox restarts, mouse reports,
  zoom, brackets, connections); equivalence with a reference definition (pending status, hit tests, highlighting,
  cached encoding) and refinement (slot table, slice parser); errors and findings.

  \<^bold>\<open>Effects and errors.\<close> State is passed explicitly; an error is a value of a sum or of an option; caches
  live in a store indexed by address, since several messages share one. Every loop is a recursive function with
  a termination proof: no fuel is used, and a property that says an operation yields a result shows that it does.
  Sizes and coordinates are integers (Go's \<^verbatim>\<open>int\<close> does not overflow at the sizes of a screen); pane IDs,
  versions and the lengths in frames keep their width.

  \<^bold>\<open>Parameters.\<close> Code outside the repository is an argument: the JSON codec, hash and clock of the mailbox; the
  Unicode tables and the text input widget; the gob codec, of which \<open>gob_faithful\<close> states what is relied on; the
  terminal emulator of local echo (the record \<open>Emulator\<close>), of which nothing is assumed.

  \<^bold>\<open>Not modelled.\<close> The terminal emulator, processes and PTYs (third-party code and the operating system);
  the event loop, command handlers, timers, waiters and undo of the server, which run the operations above from
  goroutines; remote sessions over SSH; rendering, and the list widget of the chooser; command line, configuration,
  checkpoints, audit log, reload and MCP, which are argument parsing and file I/O. The buffering of readers, locks
  and the debug check of the calling goroutine are left out of the modelled parts.
\<close>

section \<open>Properties of a window in split layout\<close>



text \<open>
  C9. Splitting a pane whose cell has room for two minimal panes and a border succeeds: the new
  pane comes right after the split one, every other pane stays in its place, the new pane is
  focused and the window unzoomed unless the caller asked to keep the focus.
\<close>

theorem SplitPane_adds_pane:
  assumes "window_ok w" "fresh np (Root w)" "q \<in> set (leafPanes (Root w))"
    "FindPane (pane_ID q) (Root w) = Some (path, cell)" "2 * PaneMinSize + 1 \<le> axisSize dir cell"
  shows "\<exists>w' pre post. SplitPaneWithOptions (pane_ID q) dir np opts w = (Inr np, w') \<and> window_ok w' \<and>
    leafPanes (Root w) = pre @ [q] @ post \<and> leafPanes (Root w') = pre @ [q, np] @ post \<and>
    ActivePane w' = (if KeepFocus opts then ActivePane w else Some np) \<and>
    ZoomedPaneID w' = (if KeepFocus opts then ZoomedPaneID w else 0)"
  using SplitPaneWithOptions_success [OF assms] by metis

theorem SplitPane_adds_pane_witness:
  "\<exists>w' pre post. SplitPaneWithOptions 2 SplitVertical (demo_pane 4) defaultSplitOptions demo_window = (Inr (demo_pane 4), w') \<and>
    window_ok w' \<and> leafPanes (Root demo_window) = pre @ [demo_pane 2] @ post \<and>
    leafPanes (Root w') = pre @ [demo_pane 2, demo_pane 4] @ post \<and> ActivePane w' = Some (demo_pane 4) \<and> ZoomedPaneID w' = 0"
proof -
  have "pane_ID (demo_pane 2) = 2" "fresh (demo_pane 4) (Root demo_window)"
    by (simp_all add: demo_window_panes fresh_def demo_pane_def)
  moreover obtain path cell where "FindPane 2 (Root demo_window) = Some (path, cell)" "2 * PaneMinSize + 1 \<le> axisSize SplitVertical cell"
  proof
    show "FindPane 2 (Root demo_window) = Some ([1, 0], the (getAt [1, 0] (Root demo_window)))" by code_simp
    show "2 * PaneMinSize + 1 \<le> axisSize SplitVertical (the (getAt [1, 0] (Root demo_window)))" by code_simp
  qed
  ultimately show ?thesis
    using SplitPane_adds_pane [OF demo_window_ok, of "demo_pane 4" "demo_pane 2" path cell SplitVertical defaultSplitOptions]
    by (simp add: demo_window_panes defaultSplitOptions_def)
qed

text \<open>
  C10. Closing a pane of a window with more than one takes that pane, and only it, out of the
  layout; the focus stays where it was unless the closed pane had it.
\<close>

theorem ClosePane_removes_pane:
  assumes "window_ok w" "q \<in> set (leafPanes (Root w))" "1 < length (leafPanes (Root w))"
  shows "\<exists>w'. ClosePane (pane_ID q) w = (Inr (), w') \<and> window_ok w' \<and>
    leafPanes (Root w') = remove1 q (leafPanes (Root w)) \<and>
    (ActivePane w \<noteq> Some q \<longrightarrow> ActivePane w' = ActivePane w)"
proof -
  obtain w' where w': "ClosePane (pane_ID q) w = (Inr (), w')" "window_ok w'"
    "\<exists>pre post. leafPanes (Root w) = pre @ [q] @ post \<and> leafPanes (Root w') = pre @ post"
    "ActivePane w \<noteq> Some q \<longrightarrow> ActivePane w' = ActivePane w"
    using ClosePane_success [OF assms] by metis
  obtain pre post where pp: "leafPanes (Root w) = pre @ [q] @ post" "leafPanes (Root w') = pre @ post" using w'(3) by auto
  have "q \<notin> set pre" using assms(1) pp(1) by (auto simp: window_ok_def panes_ok_def)
  then have "leafPanes (Root w') = remove1 q (leafPanes (Root w))" using pp by (simp add: remove1_append)
  then show ?thesis using w'(1,2,4) by blast
qed

theorem ClosePane_removes_pane_witness:
  "\<exists>w'. ClosePane 2 demo_window = (Inr (), w') \<and> window_ok w' \<and> leafPanes (Root w') = [demo_pane 1, demo_pane 3]"
proof -
  have "pane_ID (demo_pane 2) = 2" "demo_pane 1 \<noteq> demo_pane 2" by (simp_all add: demo_pane_def)
  then show ?thesis
    using ClosePane_removes_pane [OF demo_window_ok, of "demo_pane 2"] by (auto simp: demo_window_panes)
qed

text \<open>
  C2. The operations that rearrange a window in split layout without lead keep its panes, all of them
  and none twice, whether they succeed or are refused: resizing the window (to the minimum of its layout
  or more) or a pane, equalizing, zooming and unzooming, focusing, \<^verbatim>\<open>SwapTree\<close>, \<^verbatim>\<open>MovePane\<close>, moving
  up and down, swapping two panes or with a neighbour, and rotating. (Splitting, closing, replacing, splicing
  and applying a layout are meant to change the panes; \<^verbatim>\<open>MovePaneIntoSplit\<close> is not, but loses one on an
  error path: theory \<open>Findings\<close>.)
\<close>

theorem rearranging_keeps_panes:
  assumes "window_ok w" "allowed_op w a" "\<not> changes_panes a"
  shows "window_ok (perform_op a w) \<and> mset (leafPanes (Root (perform_op a w))) = mset (leafPanes (Root w))"
  using perform_op_kept [OF assms] by (simp add: kept_def)

theorem rearranging_keeps_panes_witness:
  "mset (leafPanes (Root (perform_op (OpRotate True) demo_window))) = mset [demo_pane 1, demo_pane 2, demo_pane 3]"
  using rearranging_keeps_panes [OF demo_window_ok, of "OpRotate True"] by (simp add: demo_window_panes)

text \<open>
  A split that is refused leaves the layout and the focus as they were: for want of room, or
  because the pane is not in the window.
\<close>

theorem SplitPane_refused:
  assumes "window_ok w"
    "case FindPane i (Root w) of None \<Rightarrow> e = ErrNotFound i
     | Some (path, cell) \<Rightarrow> axisSize dir cell < 2 * PaneMinSize + 1 \<and>
         e = ErrLayout (ErrNoSpace (axisSize dir cell) (2 * PaneMinSize + 1))"
  shows "\<exists>w'. SplitPaneWithOptions i dir np opts w = (Inl e, w') \<and> window_ok w' \<and> Root w' = Root w \<and>
    ActivePane w' = ActivePane w"
proof -
  obtain w1 where w1: "unzoomIf (\<not> KeepFocus opts) w = (Inr (), w1)" "window_ok w1" "Root w1 = Root w" "ActivePane w1 = ActivePane w"
    using unzoomIf_ok [OF assms(1)] by metis
  note mode = window_ok_mode [OF w1(2)]
  show ?thesis
  proof (cases rule: mustFindPane_ok [OF w1(2), of i])
    case 1
    then have "FindPane i (Root w) = None" using FindPane_None w1(3) by metis
    then show ?thesis using assms(2) 1 w1 mode by (simp add: SplitPaneWithOptions_def)
  next
    case (2 path r l q)
    then have "FindPane i (Root w) = Some (path, Leaf r l)" using w1(3) by (auto simp: mustFindPane_def split: option.splits)
    then show ?thesis
      using assms(2) 2 w1 mode splitCellWithOptions_no_room [of path w1 r l dir np opts] by (simp add: SplitPaneWithOptions_def)
  qed
qed

theorem SplitPane_refused_witness:
  "\<exists>w'. SplitPaneWithOptions 9 SplitVertical (demo_pane 4) defaultSplitOptions demo_window = (Inl (ErrNotFound 9), w') \<and>
     Root w' = Root demo_window"
proof -
  have "FindPane 9 (Root demo_window) = None" by (simp add: FindPane_None demo_window_panes demo_pane_def)
  then show ?thesis
    using SplitPane_refused [OF demo_window_ok, where i = 9 and e = "ErrNotFound 9" and dir = SplitVertical and np = "demo_pane 4" and opts = defaultSplitOptions] by auto
qed

text \<open>
  Closing is refused, with the window untouched, for the last pane and for a pane that is not
  in the window.
\<close>

theorem ClosePane_refused:
  assumes "window_ok w"
  shows "(i \<notin> pane_ID ` set (leafPanes (Root w)) \<longrightarrow> ClosePane i w = (Inl (ErrNotFound i), w)) \<and>
    (i \<in> pane_ID ` set (leafPanes (Root w)) \<and> length (leafPanes (Root w)) = 1 \<longrightarrow> ClosePane i w = (Inl ErrLastPane, w))"
proof (cases rule: mustFindPane_ok [OF assms, of i])
  case 1
  then show ?thesis using window_ok_mode(1) [OF assms] by (simp add: ClosePane_def)
next
  case (2 path r l q)
  then show ?thesis using window_ok_mode(1) [OF assms] length_Walk [of "Root w"] assms
    by (auto simp: ClosePane_def window_ok_def panes_ok_def Let_def)
qed

theorem ClosePane_refused_witness: "ClosePane 1 demo_start = (Inl ErrLastPane, demo_start)"
proof -
  have "leafPanes (Root demo_start) = [demo_pane 1]" "pane_ID (demo_pane 1) = 1" by code_simp+
  then show ?thesis using ClosePane_refused [OF new_window_ok [OF demo_start_new], of 1] by simp
qed

text \<open>
  C23. Zooming shows one pane on the whole window: it is focused, its terminal gets the window's
  size and the layout behind it stays. Unzooming brings every terminal back to its cell.
\<close>

theorem Zoom_then_Unzoom:
  assumes "window_ok w" "q \<in> set (leafPanes (Root w))" "1 < length (leafPanes (Root w))" "ZoomedPaneID w \<noteq> pane_ID q"
    "emulator (paneAt q w) \<noteq> None"
  shows "\<exists>w1 w2. Zoom (pane_ID q) w = (Inr (), w1) \<and> Root w1 = Root w \<and> ZoomedPaneID w1 = pane_ID q \<and>
    ActivePane w1 = Some q \<and> emulator (paneAt q w1) = Some (Width w, PaneContentHeight (Height w)) \<and>
    Unzoom w1 = (Inr (), w2) \<and> Root w2 = Root w \<and> ZoomedPaneID w2 = 0 \<and> ActivePane w2 = Some q \<and>
    (\<forall>c \<in> set (Walk (Root w)). \<forall>p. cellPane c = Some p \<longrightarrow>
       emulator (paneAt p w2) = None \<or> emulator (paneAt p w2) = Some (cW c, PaneContentHeight (cH c)))"
proof -
  obtain w1 where w1: "Zoom (pane_ID q) w = (Inr (), w1)" "window_ok w1" "Root w1 = Root w" "ZoomedPaneID w1 = pane_ID q"
    "ActivePane w1 = Some q" "emulator (paneAt q w1) = Some (Width w, PaneContentHeight (Height w))"
    using Zoom_success [OF assms(1-4)] assms(5) by metis
  have "ZoomedPaneID w1 \<noteq> 0" using w1(4) assms(1,2) by (auto simp: window_ok_def panes_ok_def image_iff)
  then obtain w2 where w2: "Unzoom w1 = (Inr (), w2)" "window_ok w2" "ZoomedPaneID w2 = 0" "Root w2 = Root w1" "ActivePane w2 = ActivePane w1"
    using Unzoom_ok [OF w1(2)] by metis
  have "terminals_ok w2" using w2(2) by (simp add: window_ok_def)
  then show ?thesis using w1 w2 by (auto simp: terminals_ok_def leafSize_def)
qed

theorem Zoom_then_Unzoom_witness: "\<exists>w1. Zoom 1 demo_window = (Inr (), w1) \<and> emulator (paneAt (demo_pane 1) w1) = Some (80, 23)"
proof -
  have "pane_ID (demo_pane 1) = 1" "ZoomedPaneID demo_window \<noteq> 1" "Width demo_window = 80"
    "PaneContentHeight (Height demo_window) = 23" "\<not> Option.is_none (emulator (paneAt (demo_pane 1) demo_window))" by code_simp+
  then show ?thesis using Zoom_then_Unzoom [OF demo_window_ok, of "demo_pane 1"]
    by (auto simp: demo_window_panes Option.is_none_def)
qed

text \<open>
  Rotating the panes forward and then backward gives every pane its place back; forward moves
  the last pane to the first cell and every other pane one cell on.
\<close>

theorem RotatePanes_roundtrip:
  assumes "window_ok w"
  shows "\<exists>w1 w2. RotatePanes True w = (Inr (), w1) \<and> RotatePanes False w1 = (Inr (), w2) \<and> window_ok w1 \<and> window_ok w2 \<and>
    leafPanes (Root w1) = rotate (length (leafPanes (Root w)) - 1) (leafPanes (Root w)) \<and>
    leafPanes (Root w2) = leafPanes (Root w)"
proof -
  let ?ps = "leafPanes (Root w)"
  obtain w1 where w1: "RotatePanes True w = (Inr (), w1)" "window_ok w1"
    "leafPanes (Root w1) = (if length ?ps \<le> 1 then ?ps else last ?ps # butlast ?ps)"
    using RotatePanes_success [OF assms, of True] by metis
  obtain w2 where w2: "RotatePanes False w1 = (Inr (), w2)" "window_ok w2"
    "leafPanes (Root w2) = (if length (leafPanes (Root w1)) \<le> 1 then leafPanes (Root w1)
       else tl (leafPanes (Root w1)) @ [hd (leafPanes (Root w1))])"
    using RotatePanes_success [OF w1(2), of False] by metis
  have restored: "leafPanes (Root w2) = ?ps"
  proof (cases "length ?ps \<le> 1")
    case False
    then have "?ps \<noteq> []" "\<not> length (leafPanes (Root w1)) \<le> 1" using w1(3) by auto
    then show ?thesis using w1(3) w2(3) False by simp
  qed (use w1(3) w2(3) in simp)
  have "leafPanes (Root w1) = rotate (length ?ps - 1) ?ps"
  proof (cases "length ?ps \<le> 1")
    case True
    then show ?thesis using w1(3) by simp
  next
    case False
    then have "?ps \<noteq> []" by auto
    then have "?ps = butlast ?ps @ [last ?ps]" by simp
    then have "rotate (length ?ps - 1) ?ps = last ?ps # butlast ?ps"
      using rotate_append [of "butlast ?ps" "[last ?ps]"] by (metis append_Cons append_Nil length_butlast)
    then show ?thesis using w1(3) False by simp
  qed
  then show ?thesis using w1 w2 restored by blast
qed

theorem RotatePanes_roundtrip_witness:
  "\<exists>w1. RotatePanes True demo_window = (Inr (), w1) \<and> leafPanes (Root w1) = [demo_pane 3, demo_pane 1, demo_pane 2]"
  using RotatePanes_roundtrip [OF demo_window_ok] by (auto simp: demo_window_panes)

end
